(* ===== verification/Prelude.thy ===== *)
theory Prelude
  imports Complex_Main "HOL-Library.Word"
begin

text \<open>
  Shared vocabulary of the development: names for the C integer types, the lemma
  collections the component proofs draw on, and generic facts about unsigned
  subtraction, list updates and bounded C strings.

  Conventions used by every theory:
  \<^item> \<open>uint8_t\<close>, \<open>uint16_t\<close>, \<open>uint32_t\<close> and \<open>uint64_t\<close> are words of that width, so
    that additions and subtractions wrap as they do in C;
  \<^item> a C \<open>int\<close> used as an index, a coordinate or a status is an \<open>int\<close>; where an
    \<open>int\<close> computation can leave the 32-bit range the model says so explicitly;
  \<^item> \<open>size_t\<close> counts are \<open>nat\<close>;
  \<^item> a NUL-terminated string is the list of characters before its terminator;
  \<^item> a nullable pointer to an object the code only reads is an option; functions whose
    callers always pass the address of a static object take the object itself.
\<close>

section \<open>Integer types\<close>

type_synonym u8 = "8 word"
type_synonym u16 = "16 word"
type_synonym u32 = "32 word"
type_synonym u64 = "64 word"

section \<open>Screen dimensions\<close>

abbreviation (input) SCREEN_WIDTH :: int where "SCREEN_WIDTH \<equiv> 128"
abbreviation (input) SCREEN_HEIGHT :: int where "SCREEN_HEIGHT \<equiv> 64"

section \<open>Lemma collections\<close>

text \<open>
  \<open>wf_defs\<close> collects the definitions of well-formedness predicates, \<open>step_defs\<close> the
  definitions of the small state-changing helpers that a handler is composed of.
\<close>

named_theorems wf_defs
named_theorems step_defs

section \<open>Unsigned subtraction\<close>

lemma unat_diff_le: "(y::'a::len word) \<le> x \<Longrightarrow> unat (x - y) = unat x - unat y"
  by (simp add: unat_sub)

lemma word_elapsed_mono:
  fixes s t u :: "'a::len word"
  assumes "s \<le> t" and "t \<le> u"
  shows "t - s \<le> u - s"
proof -
  have "unat (t - s) \<le> unat (u - s)"
    using assms by (simp add: unat_diff_le order_trans[OF assms] word_le_nat_alt)
  then show ?thesis by (simp add: word_le_nat_alt)
qed

lemma word_elapsed_le_iff:
  fixes s t d :: "'a::len word"
  assumes "s \<le> t"
  shows "d \<le> t - s \<longleftrightarrow> unat d + unat s \<le> unat t"
  using assms by (auto simp: word_le_nat_alt unat_diff_le)

lemma unat_ucast_u32 [simp]: "unat (ucast (x :: u32) :: u64) = unat x"
proof -
  have "unat x < 2 ^ 32" using unsigned_less[of x] by simp
  then have "unat x < 2 ^ 64" by simp
  then show ?thesis by (simp add: unsigned_ucast_eq take_bit_nat_eq_self)
qed

section \<open>Integer division by a positive divisor\<close>

lemma int_div_less:
  fixes a b m :: int
  assumes "0 < b" and "a < m * b"
  shows "a div b < m"
proof (rule ccontr)
  assume "\<not> a div b < m"
  then have "m * b \<le> a div b * b" using assms(1) by simp
  also have "\<dots> \<le> a"
    using assms(1) by (metis div_mult_mod_eq add.commute le_add_same_cancel2 pos_mod_sign)
  finally show False using assms(2) by simp
qed

section \<open>Arrays as lists\<close>

lemma list_all_update:
  "list_all P xs \<Longrightarrow> P x \<Longrightarrow> list_all P (xs[i := x])"
  by (auto simp: list_all_iff dest: set_update_subset_insert[THEN subsetD])

lemma list_all_nthD: "list_all P xs \<Longrightarrow> i < length xs \<Longrightarrow> P (xs ! i)"
  by (simp add: list_all_length)

text \<open>A search loop that stops at the first element with a property.\<close>

fun first_index :: "('a \<Rightarrow> bool) \<Rightarrow> 'a list \<Rightarrow> nat option" where
  "first_index P [] = None"
| "first_index P (x # xs) = (if P x then Some 0 else map_option Suc (first_index P xs))"

lemma first_index_Some:
  "first_index P xs = Some i \<Longrightarrow> i < length xs \<and> P (xs ! i) \<and> (\<forall>j < i. \<not> P (xs ! j))"
proof (induction xs arbitrary: i)
  case (Cons x xs)
  show ?case
  proof (cases "P x")
    case False
    then obtain k where k: "first_index P xs = Some k" "i = Suc k" using Cons.prems by auto
    then show ?thesis using Cons.IH[OF k(1)] False by (auto simp: less_Suc_eq_0_disj)
  qed (use Cons.prems in auto)
qed simp

lemma first_index_None: "first_index P xs = None \<longleftrightarrow> list_all (\<lambda>x. \<not> P x) xs"
  by (induction xs) auto

section \<open>Bounded C strings\<close>

text \<open>
  \<open>snprintf (dst, n, "%s", src)\<close> and \<open>strncpy (dst, src, n - 1)\<close> followed by writing the
  terminator both leave the first \<open>n - 1\<close> characters of the source in the buffer.
\<close>

definition bounded_copy :: "nat \<Rightarrow> string \<Rightarrow> string" where
  "bounded_copy n src = take (n - 1) src"

lemma bounded_copy_fits: "length src < n \<Longrightarrow> bounded_copy n src = src"
  by (simp add: bounded_copy_def)

lemma length_bounded_copy: "0 < n \<Longrightarrow> length (bounded_copy n src) < n"
  by (simp add: bounded_copy_def)

section \<open>Decimal output and C integer conversions\<close>

text \<open>\<open>%u\<close> and \<open>%d\<close> of \<open>printf\<close>.\<close>

fun dec_nat :: "nat \<Rightarrow> string" where
  "dec_nat n = (if n < 10 then [char_of (48 + n)]
                else dec_nat (n div 10) @ [char_of (48 + n mod 10)])"

declare dec_nat.simps [simp del]

definition dec_int :: "int \<Rightarrow> string" where
  "dec_int i = (if i < 0 then CHR ''-'' # dec_nat (nat (- i)) else dec_nat (nat i))"

lemma dec_nat_nonempty [simp]: "dec_nat n \<noteq> []"
  by (simp add: dec_nat.simps[of n])

lemma length_dec_nat: "n < 10 ^ k \<Longrightarrow> 0 < k \<Longrightarrow> length (dec_nat n) \<le> k"
proof (induction k arbitrary: n)
  case 0
  then show ?case by simp
next
  case (Suc k)
  show ?case
  proof (cases "n < 10")
    case True
    then show ?thesis by (simp add: dec_nat.simps[of n])
  next
    case False
    then have "0 < k" using Suc.prems by (cases k) auto
    moreover have "n div 10 < 10 ^ k" using Suc.prems by (simp add: less_mult_imp_div_less)
    ultimately show ?thesis using Suc.IH False by (simp add: dec_nat.simps[of n])
  qed
qed

text \<open>The cast \<open>(int)\<close> of an unsigned 64-bit value, and C's division and remainder.\<close>

definition c_int_of_u64 :: "u64 \<Rightarrow> int" where
  "c_int_of_u64 x = sint (ucast x :: 32 word)"

definition c_div :: "int \<Rightarrow> int \<Rightarrow> int" where
  "c_div a b = sgn a * sgn b * (\<bar>a\<bar> div \<bar>b\<bar>)"

definition c_rem :: "int \<Rightarrow> int \<Rightarrow> int" where
  "c_rem a b = sgn a * (\<bar>a\<bar> mod \<bar>b\<bar>)"

lemma c_int_of_u64_small:
  assumes "unat x < 2147483648"
  shows "c_int_of_u64 x = int (unat x)"
proof -
  have i: "uint x = int (unat x)" by simp
  have lt: "uint x < 2147483648" unfolding i using assms by linarith
  then have u: "uint (ucast x :: 32 word) = uint x"
    by (simp only: unsigned_ucast_eq) (rule take_bit_int_eq_self; simp)
  have "- 2147483648 \<le> uint x" using uint_ge_0[of x] by linarith
  then have "signed_take_bit 31 (uint x) = uint x"
    using lt by (intro signed_take_bit_int_eq_self) simp_all
  then show ?thesis unfolding c_int_of_u64_def i[symmetric] by (simp add: sint_uint u)
qed

end
