(* ===== verification/U8g2.thy ===== *)
theory U8g2
  imports Prelude
begin

text \<open>
  The u8g2 drawing context as the UI sees it (\<open>src/u8g2_api.h\<close>, \<open>src/fonts.c\<close>). The
  u8g2 library itself is third-party code: a call is recorded, not interpreted, so a
  context is the current font, the trace of calls made on it, and a flag that records
  whether an undefined C operation (a read past the end of a string) happened while
  drawing. The one result the UI uses, the pixel width of a string in the current font,
  is the parameter \<open>metrics\<close>.
\<close>

text \<open>The four font variables of \<open>fonts.c\<close>.\<close>

datatype font = font_title | font_small | font_content | font_symbols

datatype u8g2_call =
    U8g2_SetFont font
  | U8g2_SetDrawColor int
  | U8g2_DrawStr u16 u16 string
  | U8g2_DrawUTF8 u16 u16 string
  | U8g2_DrawHLine u16 u16 u16
  | U8g2_DrawBox u16 u16 u16 u16
  | U8g2_DrawFrame int int int int
  | U8g2_SetClipWindow int int int int
  | U8g2_SetMaxClipWindow
  | U8g2_Setup
  | U8g2_InitDisplay
  | U8g2_SetPowerSave int
  | U8g2_SendBuffer
  | U8g2_ClearBuffer
  | U8g2_SetContrast u8

record u8g2 =
  u8g2_font :: "font option"
  u8g2_calls :: "u8g2_call list"
  u8g2_ub :: bool

text \<open>\<open>u8g2_GetStrWidth\<close>: the width of a string in the current font.\<close>

type_synonym metrics = "font option \<Rightarrow> string \<Rightarrow> int"

definition u8g2_do :: "u8g2_call \<Rightarrow> u8g2 \<Rightarrow> u8g2" where
  [step_defs]: "u8g2_do c u = u\<lparr>u8g2_calls := u8g2_calls u @ [c]\<rparr>"

definition u8g2_SetFont :: "font \<Rightarrow> u8g2 \<Rightarrow> u8g2" where
  [step_defs]: "u8g2_SetFont f u = (u8g2_do (U8g2_SetFont f) u)\<lparr>u8g2_font := Some f\<rparr>"

definition u8g2_GetStrWidth :: "metrics \<Rightarrow> u8g2 \<Rightarrow> string \<Rightarrow> int" where
  [step_defs]: "u8g2_GetStrWidth gsw u s = gsw (u8g2_font u) s"

definition u8g2_undefined :: "u8g2 \<Rightarrow> u8g2" where
  [step_defs]: "u8g2_undefined u = u\<lparr>u8g2_ub := True\<rparr>"

lemma u8g2_do_sel [simp]:
  "u8g2_font (u8g2_do c u) = u8g2_font u"
  "u8g2_calls (u8g2_do c u) = u8g2_calls u @ [c]"
  "u8g2_ub (u8g2_do c u) = u8g2_ub u"
  by (simp_all add: u8g2_do_def)

lemma u8g2_SetFont_sel [simp]:
  "u8g2_font (u8g2_SetFont f u) = Some f"
  "u8g2_calls (u8g2_SetFont f u) = u8g2_calls u @ [U8g2_SetFont f]"
  "u8g2_ub (u8g2_SetFont f u) = u8g2_ub u"
  by (simp_all add: u8g2_SetFont_def)

end
