(* ===== verification/Service_Config.thy ===== *)
theory Service_Config
  imports Prelude
begin

text \<open>
  The list of monitored services (\<open>src/service_config.h\<close>, \<open>src/service_config.c\<close>),
  parsed once from the compile-time string \<open>MONITORED_SERVICES\<close>. A configuration is the
  list of the names stored so far; the C field \<open>count\<close> is its length.
\<close>

abbreviation (input) MAX_MONITORED_SERVICES :: nat where "MAX_MONITORED_SERVICES \<equiv> 8"
abbreviation (input) SERVICE_NAME_MAX_LEN :: nat where "SERVICE_NAME_MAX_LEN \<equiv> 32"

type_synonym service_config = "string list"

text \<open>The default of the macro.\<close>

definition default_monitored_services :: string where
  "default_monitored_services = ''xray_core,uhttpd,dropbear,collectd''"

section \<open>Tokenising\<close>

text \<open>
  \<open>strtok_r (_, ",", &saveptr)\<close> of the C library: skip leading separators, return the
  characters up to the next separator and the position after it; NULL at the end.
\<close>

definition strtok_comma :: "string \<Rightarrow> (string \<times> string) option" where
  "strtok_comma s =
     (case dropWhile (\<lambda>c. c = CHR '','') s of
        [] \<Rightarrow> None
      | c # cs \<Rightarrow>
          Some (takeWhile (\<lambda>c. c \<noteq> CHR '','') (c # cs),
                drop 1 (dropWhile (\<lambda>c. c \<noteq> CHR '','') (c # cs))))"

definition is_blank :: "char \<Rightarrow> bool" where
  "is_blank c \<longleftrightarrow> c = CHR '' '' \<or> c = CHR 0x09"

text \<open>Skipping leading and cutting trailing blanks of a token.\<close>

definition trim_token :: "string \<Rightarrow> string" where
  "trim_token t = rev (dropWhile is_blank (rev (dropWhile is_blank t)))"

lemma strtok_comma_shrinks:
  "strtok_comma s = Some (t, rest) \<Longrightarrow> length rest < length s"
proof -
  assume tok: "strtok_comma s = Some (t, rest)"
  let ?d = "dropWhile (\<lambda>c. c = CHR '','') s"
  obtain c cs where d: "?d = c # cs"
    and rest: "rest = drop 1 (dropWhile (\<lambda>c. c \<noteq> CHR '','') (c # cs))"
    using tok by (auto simp: strtok_comma_def split: list.splits)
  have "c \<noteq> CHR '',''" using hd_dropWhile[of "\<lambda>c. c = CHR '',''" s] d by simp
  then have "length rest \<le> length cs"
    using rest length_dropWhile_le[of "\<lambda>c. c \<noteq> CHR '',''" cs] by simp
  also have "length cs < length ?d" using d by simp
  also have "\<dots> \<le> length s" by (rule length_dropWhile_le)
  finally show ?thesis .
qed

text \<open>
  The \<open>while\<close> loop of \<open>service_config_init\<close>: \<open>acc\<close> are the entries stored so far, \<open>s\<close> the
  text that \<open>strtok_r\<close> has not consumed.
\<close>

function parse_services :: "service_config \<Rightarrow> string \<Rightarrow> service_config" where
  "parse_services acc s =
     (case strtok_comma s of
        None \<Rightarrow> acc
      | Some (token, rest) \<Rightarrow>
          if length acc < MAX_MONITORED_SERVICES then
            let token = dropWhile is_blank token in
            if token = [] then parse_services acc rest
            else
              let token = rev (dropWhile is_blank (rev token)) in
              if 0 < length token \<and> length token < SERVICE_NAME_MAX_LEN
              then parse_services (acc @ [bounded_copy SERVICE_NAME_MAX_LEN token]) rest
              else parse_services acc rest
          else acc)"
  by pat_completeness auto
termination
  by (relation "measure (\<lambda>(acc, s). length s)") (auto dest: strtok_comma_shrinks)

declare parse_services.simps [simp del]

text \<open>\<open>service_config_init\<close>: the string is first copied into a 256-byte buffer.\<close>

definition service_config_init :: "string \<Rightarrow> service_config" where
  "service_config_init services_str =
     (if services_str = [] then [] else parse_services [] (bounded_copy 256 services_str))"

text \<open>
  The module's statics. \<open>MONITORED_SERVICES\<close> is the compile-time string, which nothing
  writes.
\<close>

record config_world =
  MONITORED_SERVICES :: string
  g_config :: service_config
  g_config_initialized :: bool

definition service_config_get :: "'a config_world_scheme \<Rightarrow> service_config \<times> 'a config_world_scheme" where
  "service_config_get w =
     (let w' = (if g_config_initialized w then w
                else w\<lparr>g_config := service_config_init (MONITORED_SERVICES w),
                       g_config_initialized := True\<rparr>)
      in (g_config w', w'))"

section \<open>What the parser returns\<close>

text \<open>A stored name: not empty, fits its buffer, holds no comma and no outer blanks.\<close>

definition service_name_ok :: "string \<Rightarrow> bool" where
  "service_name_ok n \<longleftrightarrow>
     n \<noteq> [] \<and> length n < SERVICE_NAME_MAX_LEN \<and> CHR '','' \<notin> set n \<and>
     \<not> is_blank (hd n) \<and> \<not> is_blank (last n)"

lemma trim_right_nonempty_hd:
  assumes "t \<noteq> []" and "\<not> is_blank (hd t)"
  shows "rev (dropWhile is_blank (rev t)) \<noteq> []
     \<and> hd (rev (dropWhile is_blank (rev t))) = hd t"
proof (cases t)
  case Nil
  with assms show ?thesis by simp
next
  case (Cons a as)
  then have "dropWhile is_blank (rev t) = dropWhile is_blank (rev as) @ [a]"
    using assms(2) dropWhile_append3[of is_blank a "rev as" "[]"] by simp
  then show ?thesis using Cons by simp
qed

lemma strtok_comma_token:
  "strtok_comma s = Some (t, rest) \<Longrightarrow> CHR '','' \<notin> set t"
  unfolding strtok_comma_def
  by (cases "dropWhile (\<lambda>c. c = CHR '','') s") (auto dest!: set_takeWhileD simp del: takeWhile.simps)

lemma trimmed_token_ok:
  assumes "CHR '','' \<notin> set t" and "dropWhile is_blank t \<noteq> []"
    and "length (trim_token t) < SERVICE_NAME_MAX_LEN"
  shows "service_name_ok (trim_token t)"
proof -
  let ?l = "dropWhile is_blank t"
  have hd: "\<not> is_blank (hd ?l)" using assms(2) by (rule hd_dropWhile)
  have ne: "trim_token t \<noteq> []" and hdt: "hd (trim_token t) = hd ?l"
    using trim_right_nonempty_hd[OF assms(2) hd] by (auto simp: trim_token_def)
  have "dropWhile is_blank (rev ?l) \<noteq> []" using ne by (simp add: trim_token_def)
  then have "\<not> is_blank (hd (dropWhile is_blank (rev ?l)))" by (rule hd_dropWhile)
  then have "\<not> is_blank (last (trim_token t))" by (simp add: trim_token_def last_rev)
  moreover have "set (trim_token t) \<subseteq> set t"
    by (auto simp: trim_token_def dest!: set_dropWhileD)
  ultimately show ?thesis
    using assms ne hdt hd unfolding service_name_ok_def by auto
qed

lemma trim_token_empty: "trim_token t = [] \<longleftrightarrow> dropWhile is_blank t = []"
proof (cases "dropWhile is_blank t = []")
  case True
  then have "trim_token t = []" unfolding trim_token_def by (simp only: True) simp
  with True show ?thesis by (simp only:)
next
  case False
  with trim_right_nonempty_hd[OF False hd_dropWhile[OF False]] show ?thesis
    by (simp only: trim_token_def)
qed

text \<open>One turn of the loop, with the two empty-token checks folded into one.\<close>

lemma parse_services_turn:
  assumes "strtok_comma s = Some (t, rest)" and "length acc < MAX_MONITORED_SERVICES"
  shows "parse_services acc s =
    parse_services (if trim_token t \<noteq> [] \<and> length (trim_token t) < SERVICE_NAME_MAX_LEN
                    then acc @ [trim_token t] else acc) rest"
  unfolding parse_services.simps[of acc s]
  using assms trim_token_empty[of t]
  by (simp add: Let_def bounded_copy_fits flip: trim_token_def)

lemma parse_services_stop:
  "strtok_comma s = None \<or> MAX_MONITORED_SERVICES \<le> length acc \<Longrightarrow> parse_services acc s = acc"
  by (auto simp: parse_services.simps[of acc s] split: option.split)

lemma parse_services_ok:
  assumes "list_all service_name_ok acc" and "length acc \<le> MAX_MONITORED_SERVICES"
  shows "list_all service_name_ok (parse_services acc s)
     \<and> length (parse_services acc s) \<le> MAX_MONITORED_SERVICES"
  using assms
proof (induction "length s" arbitrary: acc s rule: less_induct)
  case less
  show ?case
  proof (cases "strtok_comma s = None \<or> MAX_MONITORED_SERVICES \<le> length acc")
    case True
    then show ?thesis using less.prems by (simp only: parse_services_stop)
  next
    case False
    then obtain t rest where tok: "strtok_comma s = Some (t, rest)" by auto
    have "CHR '','' \<notin> set t" using tok by (rule strtok_comma_token)
    then have "trim_token t \<noteq> [] \<Longrightarrow> length (trim_token t) < SERVICE_NAME_MAX_LEN \<Longrightarrow>
        service_name_ok (trim_token t)"
      by (intro trimmed_token_ok) (simp_all add: trim_token_empty)
    with less.prems less.hyps[OF strtok_comma_shrinks[OF tok]] False show ?thesis
      by (simp add: parse_services_turn[OF tok])
  qed
qed

lemma service_config_init_ok:
  "list_all service_name_ok (service_config_init s)
   \<and> length (service_config_init s) \<le> MAX_MONITORED_SERVICES"
  using parse_services_ok[of "[]"] by (simp add: service_config_init_def)

section \<open>Round trip\<close>

text \<open>Joining names with commas, as the build writes the macro.\<close>

fun join_comma :: "string list \<Rightarrow> string" where
  "join_comma [] = []"
| "join_comma [n] = n"
| "join_comma (n # m # ns) = n @ CHR '','' # join_comma (m # ns)"

lemma strtok_comma_Cons:
  "c \<noteq> CHR '','' \<Longrightarrow> strtok_comma (c # cs) =
     Some (c # takeWhile (\<lambda>c. c \<noteq> CHR '','') cs, drop 1 (dropWhile (\<lambda>c. c \<noteq> CHR '','') cs))"
  by (simp add: strtok_comma_def)

lemma comma_free:
  assumes "CHR '','' \<notin> set cs"
  shows "takeWhile (\<lambda>c. c \<noteq> CHR '','') cs = cs" "dropWhile (\<lambda>c. c \<noteq> CHR '','') cs = []"
    "takeWhile (\<lambda>c. c \<noteq> CHR '','') (cs @ CHR '','' # rest) = cs"
    "dropWhile (\<lambda>c. c \<noteq> CHR '','') (cs @ CHR '','' # rest) = CHR '','' # rest"
  using assms by (induction cs) auto

lemma strtok_comma_name:
  assumes "CHR '','' \<notin> set n" and "n \<noteq> []"
  shows "strtok_comma n = Some (n, [])"
    and "strtok_comma (n @ CHR '','' # rest) = Some (n, rest)"
proof -
  obtain c cs where n: "n = c # cs" "c \<noteq> CHR '',''" "CHR '','' \<notin> set cs"
    using assms by (cases n) auto
  then show "strtok_comma n = Some (n, [])"
    and "strtok_comma (n @ CHR '','' # rest) = Some (n, rest)"
    by (simp_all add: strtok_comma_Cons comma_free)
qed

lemma trim_ok_name:
  assumes "service_name_ok n"
  shows "dropWhile is_blank n = n" "rev (dropWhile is_blank (rev n)) = n"
proof -
  show "dropWhile is_blank n = n"
    using assms by (cases n) (auto simp: service_name_ok_def)
  show "rev (dropWhile is_blank (rev n)) = n"
    using assms by (cases n rule: rev_cases) (auto simp: service_name_ok_def)
qed

lemma parse_services_step:
  assumes "service_name_ok n" and "length acc < MAX_MONITORED_SERVICES"
    and "strtok_comma s = Some (n, rest)"
  shows "parse_services acc s = parse_services (acc @ [n]) rest"
  using assms(1) trim_ok_name[OF assms(1)]
  by (simp add: parse_services_turn[OF assms(3,2)] trim_token_def service_name_ok_def)

lemma parse_services_join:
  assumes "list_all service_name_ok ns" and "length acc + length ns \<le> MAX_MONITORED_SERVICES"
  shows "parse_services acc (join_comma ns) = acc @ ns"
  using assms
proof (induction ns arbitrary: acc rule: join_comma.induct)
  case 1
  show ?case by (simp add: parse_services_stop strtok_comma_def)
next
  case (2 n)
  then have "parse_services acc n = parse_services (acc @ [n]) []"
    by (intro parse_services_step strtok_comma_name) (auto simp: service_name_ok_def)
  then show ?case
    by (simp add: parse_services_stop strtok_comma_def)
next
  case (3 n m ns)
  have n: "service_name_ok n" and acc: "length acc < MAX_MONITORED_SERVICES"
    using 3 by auto
  then have "strtok_comma (join_comma (n # m # ns)) = Some (n, join_comma (m # ns))"
    by (simp add: service_name_ok_def strtok_comma_name)
  then have "parse_services acc (join_comma (n # m # ns)) =
      parse_services (acc @ [n]) (join_comma (m # ns))"
    by (rule parse_services_step[OF n acc])
  then show ?case using 3 by simp
qed

lemma service_config_get_idem:
  "service_config_get (snd (service_config_get w)) = service_config_get w"
  by (simp add: service_config_get_def)

end
