(* ===== verification/Display_Hal.thy ===== *)
theory Display_Hal
  imports U8g2 Service_Config
begin

text \<open>
  The display driver (\<open>src/hal/display_hal.h\<close>, \<open>src/hal/display_hal_ssd1306.c\<close>): the
  I2C byte callback that u8g2 calls, and the operations table the UI calls. What the
  operating system answers (\<open>access\<close>, \<open>open\<close>, \<open>ioctl\<close>, \<open>write\<close>) is an argument of
  the step that asks.
\<close>

section \<open>The I2C byte callback\<close>

abbreviation (input) I2C_BUFFER_SIZE :: nat where "I2C_BUFFER_SIZE \<equiv> 256"

text \<open>
  The statics of \<open>u8x8_byte_linux_i2c\<close> with \<open>g_i2c_fd\<close>; \<open>i2c_writes\<close> is the trace of
  the byte sequences handed to \<open>write\<close>.
\<close>

record i2c_state =
  g_i2c_fd :: int
  i2c_buffer :: "u8 list"
  buf_idx :: nat
  i2c_writes :: "u8 list list"

text \<open>The messages of the callback; \<open>Send\<close> carries the \<open>arg_int\<close> bytes at \<open>arg_ptr\<close>.\<close>

datatype u8x8_msg =
    U8X8_MSG_BYTE_SEND "u8 list"
  | U8X8_MSG_BYTE_INIT
  | U8X8_MSG_BYTE_SET_DC
  | U8X8_MSG_BYTE_START_TRANSFER
  | U8X8_MSG_BYTE_END_TRANSFER
  | U8X8_MSG_OTHER

text \<open>What the system calls return, should the callback make them.\<close>

record i2c_env =
  env_open :: int
  env_ioctl :: int
  env_write :: int

text \<open>The copy loop of \<open>U8X8_MSG_BYTE_SEND\<close>: bytes beyond the buffer are dropped.\<close>

fun i2c_send :: "u8 list \<Rightarrow> i2c_state \<Rightarrow> i2c_state" where
  "i2c_send [] s = s"
| "i2c_send (d # data) s =
     (if buf_idx s < I2C_BUFFER_SIZE
      then i2c_send data (s\<lparr>i2c_buffer := (i2c_buffer s)[buf_idx s := d],
                             buf_idx := buf_idx s + 1\<rparr>)
      else i2c_send data s)"

fun u8x8_byte_linux_i2c :: "i2c_env \<Rightarrow> u8x8_msg \<Rightarrow> i2c_state \<Rightarrow> u8 \<times> i2c_state" where
  "u8x8_byte_linux_i2c e (U8X8_MSG_BYTE_SEND data) s = (1, i2c_send data s)"
| "u8x8_byte_linux_i2c e U8X8_MSG_BYTE_INIT s =
     (if g_i2c_fd s < 0 then
        if env_open e < 0 then (0, s\<lparr>g_i2c_fd := env_open e\<rparr>)
        else if env_ioctl e < 0 then (0, s\<lparr>g_i2c_fd := -1\<rparr>)
        else (1, s\<lparr>g_i2c_fd := env_open e\<rparr>)
      else (1, s))"
| "u8x8_byte_linux_i2c e U8X8_MSG_BYTE_SET_DC s = (1, s)"
| "u8x8_byte_linux_i2c e U8X8_MSG_BYTE_START_TRANSFER s = (1, s\<lparr>buf_idx := 0\<rparr>)"
| "u8x8_byte_linux_i2c e U8X8_MSG_BYTE_END_TRANSFER s =
     (if g_i2c_fd s \<ge> 0 \<and> buf_idx s > 0 then
        let s' = s\<lparr>i2c_writes := i2c_writes s @ [take (buf_idx s) (i2c_buffer s)]\<rparr> in
        if env_write e \<noteq> int (buf_idx s) then (0, s') else (1, s')
      else (1, s))"
| "u8x8_byte_linux_i2c e U8X8_MSG_OTHER s = (0, s)"

definition i2c_ok :: "i2c_state \<Rightarrow> bool" where
  [wf_defs]: "i2c_ok s \<longleftrightarrow> length (i2c_buffer s) = I2C_BUFFER_SIZE \<and> buf_idx s \<le> I2C_BUFFER_SIZE"

lemma i2c_send_ok: "i2c_ok s \<Longrightarrow> i2c_ok (i2c_send data s)"
  by (induction data s rule: i2c_send.induct) (auto simp: i2c_ok_def)

lemma byte_callback_ok: "i2c_ok s \<Longrightarrow> i2c_ok (snd (u8x8_byte_linux_i2c e m s))"
  by (cases m) (simp_all add: i2c_send_ok, simp_all add: i2c_ok_def Let_def)

lemma i2c_send_frame [simp]:
  "g_i2c_fd (i2c_send data s) = g_i2c_fd s"
  "i2c_writes (i2c_send data s) = i2c_writes s"
  by (induction data s rule: i2c_send.induct) simp_all

text \<open>What the buffer holds after a send: the old prefix, then as many bytes as fit.\<close>

lemma i2c_send_content:
  assumes "i2c_ok s"
  shows "take (buf_idx (i2c_send data s)) (i2c_buffer (i2c_send data s)) =
    take I2C_BUFFER_SIZE (take (buf_idx s) (i2c_buffer s) @ data)"
  using assms
proof (induction data s rule: i2c_send.induct)
  case (1 s)
  then show ?case by (simp add: i2c_ok_def)
next
  case (2 d data s)
  show ?case
  proof (cases "buf_idx s < I2C_BUFFER_SIZE")
    case True
    let ?s = "s\<lparr>i2c_buffer := (i2c_buffer s)[buf_idx s := d], buf_idx := buf_idx s + 1\<rparr>"
    have "i2c_ok ?s" using 2 True by (simp add: i2c_ok_def)
    moreover have "take (buf_idx ?s) (i2c_buffer ?s) = take (buf_idx s) (i2c_buffer s) @ [d]"
      using True 2 by (simp add: i2c_ok_def take_Suc_conv_app_nth)
    ultimately show ?thesis using 2 True by simp
  next
    case False
    with 2 show ?thesis by (simp add: i2c_ok_def)
  qed
qed

section \<open>The operations table\<close>

text \<open>
  The driver's statics: the u8g2 context, the I2C statics and \<open>g_initialized\<close>.
\<close>

record disp_world = config_world +
  g_u8g2 :: u8g2
  g_i2c :: i2c_state
  disp_initialized :: bool

definition on_u8g2 :: "(u8g2 \<Rightarrow> u8g2) \<Rightarrow> 'a disp_world_scheme \<Rightarrow> 'a disp_world_scheme" where
  [step_defs]: "on_u8g2 f w = w\<lparr>g_u8g2 := f (g_u8g2 w)\<rparr>"

text \<open>
  \<open>ssd1306_init\<close>. \<open>access_ok\<close> is whether \<open>access\<close> succeeds; \<open>init_io\<close> is what
  \<open>u8g2_InitDisplay\<close> does to the I2C statics through the byte callback.
\<close>

definition ssd1306_init ::
  "bool \<Rightarrow> (i2c_state \<Rightarrow> i2c_state) \<Rightarrow> 'a disp_world_scheme \<Rightarrow> int \<times> 'a disp_world_scheme" where
  "ssd1306_init access_ok init_io w =
     (if disp_initialized w then (0, w)
      else if \<not> access_ok then (-1, w)
      else
        let w = on_u8g2 (u8g2_do U8g2_Setup) w;
            w = (on_u8g2 (u8g2_do U8g2_InitDisplay) w)\<lparr>g_i2c := init_io (g_i2c w)\<rparr>;
            w = on_u8g2 (u8g2_do (U8g2_SetPowerSave 0)) w
        in (0, w\<lparr>disp_initialized := True\<rparr>))"

definition ssd1306_cleanup :: "'a disp_world_scheme \<Rightarrow> 'a disp_world_scheme" where
  "ssd1306_cleanup w =
     (if \<not> disp_initialized w then w
      else
        let w = on_u8g2 (u8g2_do (U8g2_SetPowerSave 1)) w;
            w = (if g_i2c_fd (g_i2c w) \<ge> 0 then w\<lparr>g_i2c := (g_i2c w)\<lparr>g_i2c_fd := -1\<rparr>\<rparr> else w)
        in w\<lparr>disp_initialized := False\<rparr>)"

text \<open>\<open>ssd1306_get_u8g2\<close> returns NULL before initialisation.\<close>

definition ssd1306_get_u8g2 :: "'a disp_world_scheme \<Rightarrow> u8g2 option" where
  "ssd1306_get_u8g2 w = (if \<not> disp_initialized w then None else Some (g_u8g2 w))"

definition ssd1306_set_power :: "bool \<Rightarrow> 'a disp_world_scheme \<Rightarrow> 'a disp_world_scheme" where
  "ssd1306_set_power on w =
     (if disp_initialized w
      then on_u8g2 (u8g2_do (U8g2_SetPowerSave (if on then 0 else 1))) w else w)"

definition ssd1306_send_buffer :: "'a disp_world_scheme \<Rightarrow> 'a disp_world_scheme" where
  "ssd1306_send_buffer w =
     (if disp_initialized w then on_u8g2 (u8g2_do U8g2_SendBuffer) w else w)"

definition ssd1306_clear_buffer :: "'a disp_world_scheme \<Rightarrow> 'a disp_world_scheme" where
  "ssd1306_clear_buffer w =
     (if disp_initialized w then on_u8g2 (u8g2_do U8g2_ClearBuffer) w else w)"

definition contrast_table :: "u8 list" where
  "contrast_table = [0, 15, 35, 60, 90, 120, 155, 190, 225, 255]"

definition contrast_level :: "u8 \<Rightarrow> u8" where
  "contrast_level level =
     (let level = (if level < 1 then 1 else level);
          level = (if level > 10 then 10 else level)
      in contrast_table ! unat (level - 1))"

definition ssd1306_set_contrast :: "u8 \<Rightarrow> 'a disp_world_scheme \<Rightarrow> 'a disp_world_scheme" where
  "ssd1306_set_contrast level w =
     (if \<not> disp_initialized w then w
      else on_u8g2 (u8g2_do (U8g2_SetContrast (contrast_level level))) w)"

section \<open>Frame facts\<close>

lemmas ssd1306_defs =
  ssd1306_set_power_def ssd1306_send_buffer_def ssd1306_clear_buffer_def ssd1306_set_contrast_def

lemma ssd1306_op_frame [simp]:
  "disp_initialized (ssd1306_set_power on w) = disp_initialized w"
  "disp_initialized (ssd1306_send_buffer w) = disp_initialized w"
  "disp_initialized (ssd1306_clear_buffer w) = disp_initialized w"
  "disp_initialized (ssd1306_set_contrast l w) = disp_initialized w"
  by (simp_all add: ssd1306_defs on_u8g2_def)

lemma ssd1306_op_more [simp]:
  "disp_world.more (ssd1306_set_power on w) = disp_world.more w"
  "disp_world.more (ssd1306_send_buffer w) = disp_world.more w"
  "disp_world.more (ssd1306_clear_buffer w) = disp_world.more w"
  "disp_world.more (ssd1306_set_contrast l w) = disp_world.more w"
  by (simp_all add: ssd1306_defs on_u8g2_def)

text \<open>The contrast table is never read out of bounds, and a higher level is brighter.\<close>

lemma contrast_index: "unat ((if 10 < l' then 10 else l') - 1) < length contrast_table"
  if "1 \<le> (l' :: u8)" for l'
  using that by (auto simp: contrast_table_def word_le_nat_alt word_less_nat_alt unat_sub)

end
