(* ===== verification/Status_Types.thy ===== *)
theory Status_Types
  imports Service_Config
begin

text \<open>
  The status record the pages display (\<open>src/sys_status.h\<close>). A C \<open>float\<close> is the rational
  number it denotes.
\<close>

type_synonym f32 = rat

abbreviation (input) MAX_SERVICES :: nat where "MAX_SERVICES \<equiv> MAX_MONITORED_SERVICES"
abbreviation (input) HOSTNAME_MAX_LEN :: nat where "HOSTNAME_MAX_LEN \<equiv> 32"
abbreviation (input) IP_ADDR_MAX_LEN :: nat where "IP_ADDR_MAX_LEN \<equiv> 16"
abbreviation (input) SERVICE_REFRESH_INTERVAL_MS :: u64 where "SERVICE_REFRESH_INTERVAL_MS \<equiv> 5000"

record service_status =
  svc_name :: string
  installed :: bool
  running :: bool
  query_pending :: bool
  status_valid :: bool
  request_id :: u32
  request_time_ms :: u64
  last_update_ms :: u64

record sys_status =
  cpu_usage :: f32
  cpu_temp :: f32
  mem_total_kb :: u64
  mem_available_kb :: u64
  uptime_sec :: u32
  hostname :: string
  ip_addr :: string
  gateway :: string
  rx_bytes :: u64
  tx_bytes :: u64
  rx_speed :: u64
  tx_speed :: u64
  services :: "service_status list"
  service_count :: nat

text \<open>The zeroed record (\<open>memset\<close>).\<close>

definition zero_service :: service_status where
  "zero_service = \<lparr>svc_name = [], installed = False, running = False, query_pending = False,
     status_valid = False, request_id = 0, request_time_ms = 0, last_update_ms = 0\<rparr>"

definition zero_status :: sys_status where
  "zero_status = \<lparr>cpu_usage = 0, cpu_temp = 0, mem_total_kb = 0, mem_available_kb = 0,
     uptime_sec = 0, hostname = [], ip_addr = [], gateway = [], rx_bytes = 0, tx_bytes = 0,
     rx_speed = 0, tx_speed = 0, services = replicate MAX_SERVICES zero_service,
     service_count = 0\<rparr>"

text \<open>The array has its fixed length and the count stays within it.\<close>

definition status_wf :: "sys_status \<Rightarrow> bool" where
  [wf_defs]: "status_wf st \<longleftrightarrow>
     length (services st) = MAX_SERVICES \<and> service_count st \<le> MAX_SERVICES"

lemma status_wf_zero: "status_wf zero_status"
  by (simp add: status_wf_def zero_status_def)

end
