(* ===== verification/Anim.thy ===== *)
theory Anim
  imports Prelude
begin

text \<open>
  Animation state (\<open>src/anim.h\<close>, \<open>src/anim.c\<close>): which animation runs, when it started,
  and, for a page slide, between which pages.
\<close>

datatype anim_type =
    ANIM_NONE | ANIM_SLIDE_LEFT | ANIM_SLIDE_RIGHT | ANIM_TITLE_SHAKE
  | ANIM_ENTER_MODE | ANIM_EXIT_MODE

abbreviation (input) ANIM_SLIDE_DURATION_MS :: u64 where "ANIM_SLIDE_DURATION_MS \<equiv> 250"
abbreviation (input) ANIM_SHAKE_DURATION_MS :: u64 where "ANIM_SHAKE_DURATION_MS \<equiv> 400"
abbreviation (input) ANIM_MODE_DURATION_MS :: u64 where "ANIM_MODE_DURATION_MS \<equiv> 250"
abbreviation (input) ANIM_BLINK_PERIOD_MS :: u64 where "ANIM_BLINK_PERIOD_MS \<equiv> 300"

record anim_state =
  anim_ty :: anim_type
  start_ms :: u64
  from_page :: int
  to_page :: int

text \<open>
  \<open>anim_is_complete\<close>. The elapsed time is an unsigned difference: a timestamp before
  the start of the animation counts as a completed animation.
\<close>

definition anim_is_complete :: "anim_state \<Rightarrow> u64 \<Rightarrow> bool" where
  "anim_is_complete a now =
     (case anim_ty a of
        ANIM_NONE \<Rightarrow> True
      | ANIM_SLIDE_LEFT \<Rightarrow> ANIM_SLIDE_DURATION_MS \<le> now - start_ms a
      | ANIM_SLIDE_RIGHT \<Rightarrow> ANIM_SLIDE_DURATION_MS \<le> now - start_ms a
      | ANIM_TITLE_SHAKE \<Rightarrow> ANIM_SHAKE_DURATION_MS \<le> now - start_ms a
      | ANIM_ENTER_MODE \<Rightarrow> ANIM_MODE_DURATION_MS \<le> now - start_ms a
      | ANIM_EXIT_MODE \<Rightarrow> ANIM_MODE_DURATION_MS \<le> now - start_ms a)"

definition is_slide :: "anim_type \<Rightarrow> bool" where
  [simp]: "is_slide t \<longleftrightarrow> t = ANIM_SLIDE_LEFT \<or> t = ANIM_SLIDE_RIGHT"

lemma anim_is_complete_none: "anim_ty a = ANIM_NONE \<Longrightarrow> anim_is_complete a now"
  by (simp add: anim_is_complete_def)

lemma anim_is_complete_slide:
  "is_slide (anim_ty a) \<Longrightarrow> anim_is_complete a now \<longleftrightarrow> 250 \<le> now - start_ms a"
  by (auto simp: anim_is_complete_def)

text \<open>Every animation is complete 400 ms after it started.\<close>

lemma anim_is_complete_400: "400 \<le> now - start_ms a \<Longrightarrow> anim_is_complete a now"
  by (auto simp: anim_is_complete_def split: anim_type.split elim!: order_trans[rotated])

text \<open>Once complete, an animation stays complete as time goes on.\<close>

lemma anim_is_complete_mono:
  assumes "anim_is_complete a t" and "start_ms a \<le> t" and "t \<le> u"
  shows "anim_is_complete a u"
  using assms(1) word_elapsed_mono[OF assms(2,3)]
  by (auto simp: anim_is_complete_def split: anim_type.splits elim: order_trans)

lemma anim_at_start_not_complete:
  "anim_ty a \<noteq> ANIM_NONE \<Longrightarrow> \<not> anim_is_complete a (start_ms a)"
  by (auto simp: anim_is_complete_def split: anim_type.split)

end
