(* ===== verification/Page.thy ===== *)
theory Page
  imports Display_Hal Status_Types Anim
begin

text \<open>
  The page interface (\<open>src/page.h\<close>). A page is a table of function pointers over the
  program's static state: here a record of optional functions over a world \<open>'w\<close>, the
  state that all modules reachable from page code share. \<open>None\<close> is the NULL pointer.
\<close>

datatype page_mode = PAGE_MODE_VIEW | PAGE_MODE_ENTER

lemma page_mode_not [simp]: "m \<noteq> PAGE_MODE_ENTER \<longleftrightarrow> m = PAGE_MODE_VIEW"
  "m \<noteq> PAGE_MODE_VIEW \<longleftrightarrow> m = PAGE_MODE_ENTER"
  by (cases m; simp)+

abbreviation (input) KEY_K1 :: u8 where "KEY_K1 \<equiv> 1"
abbreviation (input) KEY_K2 :: u8 where "KEY_K2 \<equiv> 2"
abbreviation (input) KEY_K3 :: u8 where "KEY_K3 \<equiv> 3"

abbreviation (input) CONTENT_Y_START :: int where "CONTENT_Y_START \<equiv> 16"
abbreviation (input) MARGIN_LEFT :: int where "MARGIN_LEFT \<equiv> 2"
abbreviation (input) MARGIN_RIGHT :: int where "MARGIN_RIGHT \<equiv> 2"

record 'w page =
  page_name :: string
  can_enter :: bool
  page_init :: "('w \<Rightarrow> 'w) option"
  page_destroy :: "('w \<Rightarrow> 'w) option"
  get_title :: "(sys_status option \<Rightarrow> string option) option"
  page_render :: "(metrics \<Rightarrow> sys_status option \<Rightarrow> page_mode \<Rightarrow> u64 \<Rightarrow> int \<Rightarrow> 'w \<Rightarrow> 'w) option"
  on_key :: "(u8 \<Rightarrow> bool \<Rightarrow> page_mode \<Rightarrow> 'w \<Rightarrow> bool \<times> 'w) option"
  on_enter :: "('w \<Rightarrow> 'w) option"
  on_exit :: "('w \<Rightarrow> 'w) option"
  get_selected_index :: "('w \<Rightarrow> int) option"
  get_item_count :: "('w \<Rightarrow> int \<times> 'w) option"

text \<open>Calling through a pointer that may be NULL, as the guarded calls of the code do.\<close>

definition call_opt :: "('w \<Rightarrow> 'w) option \<Rightarrow> 'w \<Rightarrow> 'w" where
  [step_defs]: "call_opt f w = (case f of None \<Rightarrow> w | Some g \<Rightarrow> g w)"

lemma call_opt_simps [simp]: "call_opt None w = w" "call_opt (Some f) w = f w"
  by (simp_all add: call_opt_def)

text \<open>The guarded initialisation call of the controller's start-up loop.\<close>

definition init_page :: "'w page option \<Rightarrow> 'w \<Rightarrow> 'w" where
  "init_page p w = (case p of None \<Rightarrow> w | Some p \<Rightarrow> call_opt (page_init p) w)"

text \<open>
  The one static of \<open>page_controller.c\<close> that page code reaches, the auto screen-off flag,
  is part of the world.
\<close>

record ctrl_world = disp_world +
  g_auto_screen_off_enabled :: bool

definition page_controller_set_auto_screen_off ::
  "bool \<Rightarrow> 'a ctrl_world_scheme \<Rightarrow> 'a ctrl_world_scheme" where
  [step_defs]: "page_controller_set_auto_screen_off enabled w =
     w\<lparr>g_auto_screen_off_enabled := enabled\<rparr>"

definition page_controller_is_auto_screen_off_enabled :: "'a ctrl_world_scheme \<Rightarrow> bool" where
  [step_defs]: "page_controller_is_auto_screen_off_enabled w = g_auto_screen_off_enabled w"

section \<open>The contract of a set of pages\<close>

text \<open>
  What the page controller relies on. \<open>boot\<close> describes the statics before the pages are
  initialised, and initialising all pages establishes the rest. \<open>winv\<close> is an invariant of the page modules' state;
  \<open>quiet i\<close> says that page \<open>i\<close> holds no modal state (an open dialog, a pending
  request). Page code of one page keeps the others quiet; outside enter mode no key makes a
  page modal; leaving enter mode closes whatever was open. A page that can be entered and
  become modal therefore has an exit handler.
\<close>

locale page_set =
  fixes pgs :: "'a ctrl_world_scheme page option list"
    and winv :: "'a ctrl_world_scheme \<Rightarrow> bool"
    and quiet :: "nat \<Rightarrow> 'a ctrl_world_scheme \<Rightarrow> bool"
    and boot :: "'a ctrl_world_scheme \<Rightarrow> bool"
  assumes boot_init:
      "boot w \<Longrightarrow> winv (fold (\<lambda>i. init_page (pgs ! i)) [0..<length pgs] w) \<and>
        (\<forall>j < length pgs. quiet j (fold (\<lambda>i. init_page (pgs ! i)) [0..<length pgs] w))"
    and key_inv:
      "\<lbrakk>i < length pgs; pgs ! i = Some p; on_key p = Some kf; winv w\<rbrakk> \<Longrightarrow> winv (snd (kf k l m w))"
    and key_quiet:
      "\<lbrakk>i < length pgs; pgs ! i = Some p; on_key p = Some kf; winv w; quiet j w;
        j \<noteq> i \<or> m = PAGE_MODE_VIEW\<rbrakk> \<Longrightarrow> quiet j (snd (kf k l m w))"
    and enter_inv:
      "\<lbrakk>i < length pgs; pgs ! i = Some p; on_enter p = Some f; winv w\<rbrakk> \<Longrightarrow> winv (f w)"
    and enter_quiet:
      "\<lbrakk>i < length pgs; pgs ! i = Some p; on_enter p = Some f; winv w; quiet j w\<rbrakk> \<Longrightarrow> quiet j (f w)"
    and exit_inv:
      "\<lbrakk>i < length pgs; pgs ! i = Some p; on_exit p = Some f; winv w\<rbrakk> \<Longrightarrow> winv (f w)"
    and exit_quiet:
      "\<lbrakk>i < length pgs; pgs ! i = Some p; on_exit p = Some f; winv w; quiet j w \<or> j = i\<rbrakk>
       \<Longrightarrow> quiet j (f w)"
    and silent:
      "\<lbrakk>i < length pgs; pgs ! i = None \<or> pgs ! i = Some p \<and> on_exit p = None; winv w\<rbrakk> \<Longrightarrow> quiet i w"
    and render_inv:
      "\<lbrakk>i < length pgs; pgs ! i = Some p; page_render p = Some rf; winv w\<rbrakk>
       \<Longrightarrow> winv (rf gsw st m now x w)"
    and render_quiet:
      "\<lbrakk>i < length pgs; pgs ! i = Some p; page_render p = Some rf; winv w; quiet j w\<rbrakk>
       \<Longrightarrow> quiet j (rf gsw st m now x w)"

end
