(* ===== verification/Ui_Draw.thy ===== *)
theory Ui_Draw
  imports U8g2
begin

text \<open>
  The drawing helpers with signed x coordinates (\<open>src/ui_draw.c\<close>): a string, box or line
  that lies partly left of the screen during a slide animation is clipped before its
  coordinates are cast to the unsigned coordinate type of u8g2.
\<close>

text \<open>The cast \<open>(u8g2_uint_t)\<close>.\<close>

abbreviation uint_cast :: "int \<Rightarrow> u16" where "uint_cast \<equiv> word_of_int"

text \<open>
  \<open>ui_draw_str\<close>: with a negative x the code skips whole characters. The pointer
  \<open>s + skip\<close> is dereferenced; past the terminator this is undefined.
\<close>

definition ui_draw_str :: "metrics \<Rightarrow> int \<Rightarrow> int \<Rightarrow> string \<Rightarrow> u8g2 \<Rightarrow> u8g2" where
  "ui_draw_str gsw x y s u =
     (let width = u8g2_GetStrWidth gsw u s in
      if x \<ge> SCREEN_WIDTH \<or> x + width \<le> 0 then u
      else if x \<ge> 0 then u8g2_do (U8g2_DrawStr (uint_cast x) (uint_cast y) s) u
      else
        let char_w = u8g2_GetStrWidth gsw u ''0'' in
        if char_w \<le> 0 then u
        else
          let skip = (- x) div char_w;
              draw_x = x + skip * char_w in
          if skip > int (length s) then u8g2_undefined u
          else
            let p = drop (nat skip) s in
            if p = [] then u
            else
              let draw_x = (if draw_x < 0 then 0 else draw_x) in
              u8g2_do (U8g2_DrawStr (uint_cast draw_x) (uint_cast y) p) u)"

definition ui_draw_utf8 :: "metrics \<Rightarrow> int \<Rightarrow> int \<Rightarrow> string \<Rightarrow> u8g2 \<Rightarrow> u8g2" where
  "ui_draw_utf8 gsw x y s u =
     (let width = u8g2_GetStrWidth gsw u s in
      if x \<ge> SCREEN_WIDTH \<or> x + width \<le> 0 then u
      else
        let x = (if x < 0 then 0 else x) in
        u8g2_do (U8g2_DrawUTF8 (uint_cast x) (uint_cast y) s) u)"

text \<open>
  The clipping that \<open>ui_draw_box\<close> and \<open>ui_draw_hline\<close> share: the visible part of the
  pixel columns \<open>x .. x + w - 1\<close>, as its first column and width, or nothing.
\<close>

definition clip_columns :: "int \<Rightarrow> int \<Rightarrow> (int \<times> int) option" where
  "clip_columns x w =
     (let x0 = x; x1 = x + w in
      if x1 \<le> 0 \<or> x0 \<ge> SCREEN_WIDTH then None
      else
        let (x0, w) = (if x0 < 0 then (0, w + x0) else (x0, w));
            w = (if x0 + w > SCREEN_WIDTH then SCREEN_WIDTH - x0 else w) in
        if w \<le> 0 then None else Some (x0, w))"

definition ui_draw_box :: "int \<Rightarrow> int \<Rightarrow> int \<Rightarrow> int \<Rightarrow> u8g2 \<Rightarrow> u8g2" where
  "ui_draw_box x y w h u =
     (if w \<le> 0 \<or> h \<le> 0 then u
      else case clip_columns x w of
        None \<Rightarrow> u
      | Some (x0, w') \<Rightarrow>
          u8g2_do (U8g2_DrawBox (uint_cast x0) (uint_cast y) (uint_cast w') (uint_cast h)) u)"

definition ui_draw_hline :: "int \<Rightarrow> int \<Rightarrow> int \<Rightarrow> u8g2 \<Rightarrow> u8g2" where
  "ui_draw_hline x y w u =
     (if w \<le> 0 then u
      else case clip_columns x w of
        None \<Rightarrow> u
      | Some (x0, w') \<Rightarrow>
          u8g2_do (U8g2_DrawHLine (uint_cast x0) (uint_cast y) (uint_cast w')) u)"

section \<open>Clipping\<close>

lemma clip_columns_Some:
  assumes "clip_columns x w = Some (x0, w')"
  shows "{x0 ..< x0 + w'} = {x ..< x + w} \<inter> {0 ..< SCREEN_WIDTH}" "0 < w'"
  using assms by (auto simp: clip_columns_def Let_def split: if_splits)

lemma clip_columns_None:
  "0 < w \<Longrightarrow> clip_columns x w = None \<longleftrightarrow> {x ..< x + w} \<inter> {0 ..< SCREEN_WIDTH} = {}"
  by (auto simp: clip_columns_def Let_def split: if_splits)

lemma clip_columns_bounds:
  "clip_columns x w = Some (x0, w') \<Longrightarrow> 0 \<le> x0 \<and> 0 < w' \<and> x0 + w' \<le> SCREEN_WIDTH"
  by (auto simp: clip_columns_def Let_def split: if_splits)

text \<open>Casting a coordinate that is on the screen loses nothing.\<close>

lemma uint_cast_small: "0 \<le> x \<Longrightarrow> x < 65536 \<Longrightarrow> uint (uint_cast x) = x"
  by (simp add: uint_word_of_int)

text \<open>Drawing changes neither the font nor clears the undefined-behaviour flag.\<close>

lemma ui_draw_font [simp]:
  "u8g2_font (ui_draw_str gsw x y s u) = u8g2_font u"
  "u8g2_font (ui_draw_utf8 gsw x y s u) = u8g2_font u"
  "u8g2_font (ui_draw_box x y w h u) = u8g2_font u"
  "u8g2_font (ui_draw_hline x y w u) = u8g2_font u"
  by (simp_all add: ui_draw_str_def ui_draw_utf8_def ui_draw_box_def ui_draw_hline_def
      u8g2_undefined_def Let_def split: option.splits)

text \<open>
  Only \<open>ui_draw_str\<close> can read out of bounds; it does not when no string is wider than
  its length times the width of the digit 0 (a monospaced font).
\<close>

definition monospaced :: "metrics \<Rightarrow> bool" where
  "monospaced gsw \<longleftrightarrow> (\<forall>f s. gsw f s \<le> int (length s) * gsw f ''0'')"

lemma monospaced_skip:
  assumes mono: "monospaced gsw" and cw: "0 < gsw f ''0''" and x: "0 < x + gsw f s"
  shows "(- x) div gsw f ''0'' < int (length s)"
proof -
  have "- x < int (length s) * gsw f ''0''"
    using mono x unfolding monospaced_def by (metis add.commute add_less_cancel_left
        less_le_trans neg_less_iff_less add.inverse_inverse minus_less_iff
        add.right_neutral add_uminus_conv_diff diff_less_eq)
  then show ?thesis using cw by (rule int_div_less[rotated])
qed

lemma ui_draw_str_ub [simp]:
  "monospaced gsw \<Longrightarrow> u8g2_ub (ui_draw_str gsw x y s u) = u8g2_ub u"
  using monospaced_skip[of gsw "u8g2_font u" x s]
  by (auto simp: ui_draw_str_def Let_def u8g2_GetStrWidth_def not_le)

lemma ui_draw_other_ub [simp]:
  "u8g2_ub (ui_draw_utf8 gsw x y s u) = u8g2_ub u"
  "u8g2_ub (ui_draw_box x y w h u) = u8g2_ub u"
  "u8g2_ub (ui_draw_hline x y w u) = u8g2_ub u"
  by (simp_all add: ui_draw_utf8_def ui_draw_box_def ui_draw_hline_def Let_def
      split: option.splits)

end
