(* ===== verification/Page_Settings.thy ===== *)
theory Page_Settings
  imports Page Ui_Draw
begin

text \<open>
  The settings page (\<open>src/pages/page_settings.c\<close>): automatic screen-off and brightness.
\<close>

abbreviation (input) SETTINGS_COUNT :: int where "SETTINGS_COUNT \<equiv> 2"
abbreviation (input) SETTING_AUTO_SLEEP :: int where "SETTING_AUTO_SLEEP \<equiv> 0"
abbreviation (input) SETTING_BRIGHTNESS :: int where "SETTING_BRIGHTNESS \<equiv> 1"
abbreviation (input) SETTINGS_VALUE_X :: int where "SETTINGS_VALUE_X \<equiv> SCREEN_WIDTH - MARGIN_RIGHT"

record settings_state =
  set_selected_index :: int
  brightness :: u8

record settings_world = ctrl_world +
  settings :: settings_state

definition settings_init :: "'a settings_world_scheme \<Rightarrow> 'a settings_world_scheme" where
  "settings_init w =
     ssd1306_set_contrast 7 (w\<lparr>settings := \<lparr>set_selected_index = 0, brightness = 7\<rparr>\<rparr>)"

definition settings_get_title :: "sys_status option \<Rightarrow> string option" where
  "settings_get_title status = Some ''Settings''"

definition render_setting_line ::
  "metrics \<Rightarrow> int \<Rightarrow> string \<Rightarrow> string \<Rightarrow> bool \<Rightarrow> page_mode \<Rightarrow> int \<Rightarrow> u8g2 \<Rightarrow> u8g2" where
  "render_setting_line gsw y name value is_selected mode x_offset u =
     (let inverted = is_selected \<and> mode = PAGE_MODE_ENTER;
          u = (if inverted then
                 u8g2_do (U8g2_SetDrawColor 0)
                   (ui_draw_box x_offset (y - 12) SCREEN_WIDTH 14 (u8g2_do (U8g2_SetDrawColor 1) u))
               else u);
          u = u8g2_SetFont font_content u;
          u = ui_draw_str gsw (MARGIN_LEFT + x_offset) y name u;
          value_width = u8g2_GetStrWidth gsw u value;
          u = ui_draw_str gsw (x_offset + SETTINGS_VALUE_X - value_width) y value u
      in if inverted then u8g2_do (U8g2_SetDrawColor 1) u else u)"

definition settings_draw ::
  "metrics \<Rightarrow> bool \<Rightarrow> settings_state \<Rightarrow> page_mode \<Rightarrow> int \<Rightarrow> u8g2 \<Rightarrow> u8g2" where
  "settings_draw gsw auto_sleep s mode x_offset u =
     (let u = render_setting_line gsw (CONTENT_Y_START + 12) ''Auto Sleep''
                (if auto_sleep then ''ON'' else ''OFF'')
                (set_selected_index s = SETTING_AUTO_SLEEP) mode x_offset u;
          value_buf = bounded_copy 8 (dec_nat (unat (brightness s)))
      in render_setting_line gsw (CONTENT_Y_START + 28) ''Brightness'' value_buf
           (set_selected_index s = SETTING_BRIGHTNESS) mode x_offset u)"

definition settings_render ::
  "metrics \<Rightarrow> sys_status option \<Rightarrow> page_mode \<Rightarrow> u64 \<Rightarrow> int \<Rightarrow>
   'a settings_world_scheme \<Rightarrow> 'a settings_world_scheme" where
  "settings_render gsw status mode now_ms x_offset w =
     on_u8g2 (settings_draw gsw (page_controller_is_auto_screen_off_enabled w) (settings w)
       mode x_offset) w"

definition settings_toggle :: "'a settings_world_scheme \<Rightarrow> 'a settings_world_scheme" where
  "settings_toggle w =
     (if set_selected_index (settings w) = SETTING_AUTO_SLEEP then
        page_controller_set_auto_screen_off
          (\<not> page_controller_is_auto_screen_off_enabled w) w
      else if set_selected_index (settings w) = SETTING_BRIGHTNESS then
        let b = brightness (settings w) + 1;
            b = (if b > 10 then 1 else b)
        in ssd1306_set_contrast b (w\<lparr>settings := (settings w)\<lparr>brightness := b\<rparr>\<rparr>)
      else w)"

definition settings_on_key ::
  "u8 \<Rightarrow> bool \<Rightarrow> page_mode \<Rightarrow> 'a settings_world_scheme \<Rightarrow> bool \<times> 'a settings_world_scheme" where
  "settings_on_key key long_press mode w =
     (if mode \<noteq> PAGE_MODE_ENTER then (False, w)
      else if key = KEY_K1 \<and> \<not> long_press then
        let i = set_selected_index (settings w) - 1;
            i = (if i < 0 then SETTINGS_COUNT - 1 else i)
        in (True, w\<lparr>settings := (settings w)\<lparr>set_selected_index := i\<rparr>\<rparr>)
      else if key = KEY_K3 \<and> \<not> long_press then
        let i = set_selected_index (settings w) + 1;
            i = (if i \<ge> SETTINGS_COUNT then 0 else i)
        in (True, w\<lparr>settings := (settings w)\<lparr>set_selected_index := i\<rparr>\<rparr>)
      else if key = KEY_K2 \<and> \<not> long_press then (True, settings_toggle w)
      else (False, w))"

definition settings_on_enter :: "'a settings_world_scheme \<Rightarrow> 'a settings_world_scheme" where
  "settings_on_enter w = w\<lparr>settings := (settings w)\<lparr>set_selected_index := 0\<rparr>\<rparr>"

definition settings_on_exit :: "'a settings_world_scheme \<Rightarrow> 'a settings_world_scheme" where
  "settings_on_exit w = w"

definition settings_get_selected_index :: "'a settings_world_scheme \<Rightarrow> int" where
  "settings_get_selected_index w = set_selected_index (settings w)"

definition settings_get_item_count ::
  "'a settings_world_scheme \<Rightarrow> int \<times> 'a settings_world_scheme" where
  "settings_get_item_count w = (SETTINGS_COUNT, w)"

definition page_settings :: "'a settings_world_scheme page" where
  "page_settings = \<lparr>page_name = ''Settings'', can_enter = True,
     page_init = Some settings_init, page_destroy = None,
     get_title = Some settings_get_title, page_render = Some settings_render,
     on_key = Some settings_on_key, on_enter = Some settings_on_enter,
     on_exit = Some settings_on_exit,
     get_selected_index = Some settings_get_selected_index,
     get_item_count = Some settings_get_item_count\<rparr>"

section \<open>Invariant\<close>

definition settings_ok :: "'a settings_world_scheme \<Rightarrow> bool" where
  [wf_defs]: "settings_ok w \<longleftrightarrow>
     0 \<le> set_selected_index (settings w) \<and> set_selected_index (settings w) < SETTINGS_COUNT \<and>
     1 \<le> brightness (settings w) \<and> brightness (settings w) \<le> 10"

lemma on_u8g2_settings [simp]: "settings (on_u8g2 f w) = settings w"
  by (simp add: on_u8g2_def)

lemma set_contrast_settings [simp]:
  "settings (ssd1306_set_contrast l w) = settings w"
  "g_auto_screen_off_enabled (ssd1306_set_contrast l w) = g_auto_screen_off_enabled w"
  by (simp_all add: ssd1306_set_contrast_def on_u8g2_def)

lemma settings_init_ok: "settings_ok (settings_init w)"
  by (simp add: settings_ok_def settings_init_def)

lemma brightness_cycle:
  fixes b :: u8
  assumes "1 \<le> b" and "b \<le> 10"
  shows "1 \<le> (if b + 1 > 10 then 1 else b + 1) \<and> (if b + 1 > 10 then 1 else b + 1) \<le> 10"
    and "unat (if b + 1 > 10 then 1 else b + 1) = unat b mod 10 + 1"
proof -
  have b: "1 \<le> unat b" "unat b \<le> 10" using assms by (simp_all add: word_le_nat_alt)
  then have s: "unat (b + 1) = unat b + 1" by (simp add: unat_word_ariths)
  show "1 \<le> (if b + 1 > 10 then 1 else b + 1) \<and> (if b + 1 > 10 then 1 else b + 1) \<le> 10"
    using b s by (simp add: word_le_nat_alt word_less_nat_alt)
  show "unat (if b + 1 > 10 then 1 else b + 1) = unat b mod 10 + 1"
    using b s by (cases "unat b = 10") (auto simp: word_less_nat_alt)
qed

lemma settings_toggle_ok:
  assumes "settings_ok w"
  shows "settings_ok (settings_toggle w)"
  using assms brightness_cycle(1)[of "brightness (settings w)"]
  by (auto simp: settings_toggle_def settings_ok_def Let_def
      page_controller_set_auto_screen_off_def)

lemma settings_on_key_ok: "settings_ok w \<Longrightarrow> settings_ok (snd (settings_on_key k l m w))"
  by (simp add: settings_on_key_def settings_toggle_ok) (auto simp: settings_ok_def Let_def)

lemma settings_render_ok: "settings_ok w \<Longrightarrow> settings_ok (settings_render gsw st m now x w)"
  by (simp add: settings_ok_def settings_render_def)

lemma settings_enter_ok: "settings_ok w \<Longrightarrow> settings_ok (settings_on_enter w)"
  by (simp add: settings_ok_def settings_on_enter_def)

text \<open>Drawing the settings never reads past a string.\<close>

lemma render_setting_line_ub [simp]:
  "monospaced gsw \<Longrightarrow>
   u8g2_ub (render_setting_line gsw y n v s m x u) = u8g2_ub u"
  by (simp add: render_setting_line_def Let_def)

end
