(* ===== verification/Page_Services.thy ===== *)
theory Page_Services
  imports Page_Settings
begin

text \<open>
  The services page (\<open>src/pages/page_services.c\<close>, \<open>page_services.h\<close>): a scrolled list
  of the monitored services, a confirmation dialog, and the request to start or stop a
  service that the UI controller takes over.
\<close>

abbreviation (input) VISIBLE_LINES :: int where "VISIBLE_LINES \<equiv> 3"
abbreviation (input) DIALOG_WIDTH :: int where "DIALOG_WIDTH \<equiv> 100"
abbreviation (input) DIALOG_HEIGHT :: int where "DIALOG_HEIGHT \<equiv> 40"
abbreviation (input) DIALOG_X :: int where "DIALOG_X \<equiv> (SCREEN_WIDTH - DIALOG_WIDTH) div 2"
abbreviation (input) DIALOG_Y :: int where "DIALOG_Y \<equiv> (SCREEN_HEIGHT - DIALOG_HEIGHT) div 2"

definition ICON_RUNNING :: string where "ICON_RUNNING = [CHR 0xE2, CHR 0x96, CHR 0xB6]"
definition ICON_STOPPED :: string where "ICON_STOPPED = [CHR 0xE2, CHR 0x96, CHR 0xA0]"
definition ICON_PENDING_RUN :: string where "ICON_PENDING_RUN = [CHR 0xE2, CHR 0x96, CHR 0xB7]"
definition ICON_PENDING_STOP :: string where "ICON_PENDING_STOP = [CHR 0xE2, CHR 0x96, CHR 0xA1]"
definition ICON_UNKNOWN :: string where "ICON_UNKNOWN = ''--''"

datatype svc_ui_state =
    SVC_UI_STOPPED | SVC_UI_RUNNING | SVC_UI_STARTING | SVC_UI_STOPPING | SVC_UI_ERROR

datatype dialog_state = DIALOG_NONE | DIALOG_CONFIRM

record services_state =
  selected_index :: int
  scroll_offset :: int
  ui_states :: "svc_ui_state list"
  state_change_ms :: "u64 list"
  cached_running :: "bool list"
  dialog :: dialog_state
  dialog_selection :: int
  pending_control_index :: int
  pending_control_start :: bool

record app_world = settings_world +
  svc_page :: services_state

definition services_init :: "'a app_world_scheme \<Rightarrow> 'a app_world_scheme" where
  "services_init w = w\<lparr>svc_page :=
     \<lparr>selected_index = 0, scroll_offset = 0,
      ui_states = replicate MAX_SERVICES SVC_UI_STOPPED,
      state_change_ms = replicate MAX_SERVICES 0,
      cached_running = replicate MAX_SERVICES False,
      dialog = DIALOG_NONE, dialog_selection = 0,
      pending_control_index = -1, pending_control_start = False\<rparr>\<rparr>"

section \<open>Drawing\<close>

definition dialog_button_no :: "metrics \<Rightarrow> int \<Rightarrow> int \<Rightarrow> int \<Rightarrow> u8g2 \<Rightarrow> u8g2" where
  "dialog_button_no gsw no_x yes_x btn_y u =
     (let u = ui_draw_box (no_x - 2) (btn_y - 10) 24 14 u;
          u = u8g2_do (U8g2_SetDrawColor 0) u;
          u = ui_draw_str gsw no_x btn_y ''No'' u;
          u = u8g2_do (U8g2_SetDrawColor 1) u
      in ui_draw_str gsw yes_x btn_y ''Yes'' u)"

definition dialog_button_yes :: "metrics \<Rightarrow> int \<Rightarrow> int \<Rightarrow> int \<Rightarrow> u8g2 \<Rightarrow> u8g2" where
  "dialog_button_yes gsw no_x yes_x btn_y u =
     (let u = ui_draw_str gsw no_x btn_y ''No'' u;
          u = ui_draw_box (yes_x - 2) (btn_y - 10) 28 14 u;
          u = u8g2_do (U8g2_SetDrawColor 0) u;
          u = ui_draw_str gsw yes_x btn_y ''Yes'' u
      in u8g2_do (U8g2_SetDrawColor 1) u)"

definition render_dialog ::
  "metrics \<Rightarrow> services_state \<Rightarrow> string \<Rightarrow> bool \<Rightarrow> int \<Rightarrow> u8g2 \<Rightarrow> u8g2" where
  "render_dialog gsw s service_name is_running x_offset u =
     (let dx = DIALOG_X + x_offset; dy = DIALOG_Y;
          u = u8g2_do (U8g2_SetDrawColor 0) u;
          u = ui_draw_box dx dy DIALOG_WIDTH DIALOG_HEIGHT u;
          u = u8g2_do (U8g2_SetDrawColor 1) u;
          u = u8g2_do (U8g2_DrawFrame dx dy DIALOG_WIDTH DIALOG_HEIGHT) u;
          u = u8g2_SetFont font_content u;
          action = (if is_running then ''Stop'' else ''Start'');
          title = bounded_copy 24 (action @ '' '' @ service_name @ ''?'');
          title = (if u8g2_GetStrWidth gsw u title > DIALOG_WIDTH - 8
                   then bounded_copy 24 (action @ '' svc?'') else title);
          title_x = dx + c_div (DIALOG_WIDTH - u8g2_GetStrWidth gsw u title) 2;
          u = ui_draw_str gsw title_x (dy + 14) title u;
          btn_y = dy + DIALOG_HEIGHT - 10;
          no_x = dx + 15; yes_x = dx + DIALOG_WIDTH - 35
      in if dialog_selection s = 0 then dialog_button_no gsw no_x yes_x btn_y u
         else dialog_button_yes gsw no_x yes_x btn_y u)"

definition services_get_title :: "sys_status option \<Rightarrow> string option" where
  "services_get_title status = Some ''Services''"

definition get_service_icon ::
  "services_state \<Rightarrow> service_status \<Rightarrow> svc_ui_state \<Rightarrow> u64 \<Rightarrow> nat \<Rightarrow> string" where
  "get_service_icon s svc ui_state now_ms svc_idx =
     (if ui_state = SVC_UI_STARTING \<or> ui_state = SVC_UI_STOPPING then
        let elapsed = now_ms - state_change_ms s ! svc_idx;
            phase = c_rem (c_int_of_u64 (elapsed div ANIM_BLINK_PERIOD_MS)) 2;
            target_icon = (if ui_state = SVC_UI_STARTING then ICON_RUNNING else ICON_STOPPED)
        in if phase = 0 then target_icon else '' ''
      else if query_pending svc then
        (if running svc then ICON_PENDING_RUN else ICON_PENDING_STOP)
      else if \<not> status_valid svc then ICON_UNKNOWN
      else if running svc then ICON_RUNNING else ICON_STOPPED)"

definition render_service_line ::
  "metrics \<Rightarrow> int \<Rightarrow> string \<Rightarrow> string \<Rightarrow> bool \<Rightarrow> page_mode \<Rightarrow> int \<Rightarrow> u8g2 \<Rightarrow> u8g2" where
  "render_service_line gsw y name icon is_selected mode x_offset u =
     (let inverted = is_selected \<and> mode = PAGE_MODE_ENTER;
          u = (if inverted then
                 u8g2_do (U8g2_SetDrawColor 0)
                   (ui_draw_box x_offset (y - 12) SCREEN_WIDTH 14 (u8g2_do (U8g2_SetDrawColor 1) u))
               else u);
          u = u8g2_SetFont font_content u;
          u = ui_draw_str gsw (MARGIN_LEFT + x_offset) y (bounded_copy 32 name) u;
          u = u8g2_SetFont font_symbols u;
          icon_width = u8g2_GetStrWidth gsw u icon;
          u = ui_draw_utf8 gsw (x_offset + SCREEN_WIDTH - MARGIN_RIGHT - icon_width) y icon u
      in if inverted then u8g2_do (U8g2_SetDrawColor 1) u else u)"

text \<open>The loop that caches the running flags and ends transitions that have happened.\<close>

definition sync_service :: "sys_status \<Rightarrow> nat \<Rightarrow> services_state \<Rightarrow> services_state" where
  "sync_service st i s =
     (let r = running (services st ! i);
          s = s\<lparr>cached_running := (cached_running s)[i := r]\<rparr>;
          ui_state = ui_states s ! i;
          should_sync = (ui_state = SVC_UI_STARTING \<and> r \<or> ui_state = SVC_UI_STOPPING \<and> \<not> r \<or>
                         ui_state = SVC_UI_ERROR \<and> status_valid (services st ! i))
      in if should_sync
         then s\<lparr>ui_states := (ui_states s)[i := if r then SVC_UI_RUNNING else SVC_UI_STOPPED]\<rparr>
         else s)"

definition sync_services :: "sys_status \<Rightarrow> services_state \<Rightarrow> services_state" where
  "sync_services st s = fold (sync_service st) [0..<min (service_count st) MAX_SERVICES] s"

text \<open>The loop over the visible lines: line \<open>i\<close> of three, at its y position.\<close>

fun render_lines ::
  "metrics \<Rightarrow> sys_status \<Rightarrow> services_state \<Rightarrow> page_mode \<Rightarrow> u64 \<Rightarrow> int \<Rightarrow> (int \<times> int) list \<Rightarrow> u8g2 \<Rightarrow> u8g2" where
  "render_lines gsw st s mode now x_offset [] u = u"
| "render_lines gsw st s mode now x_offset ((i, y) # lines) u =
     (if scroll_offset s + i < int (service_count st) then
        let svc_idx = nat (scroll_offset s + i);
            svc = services st ! svc_idx;
            icon = get_service_icon s svc (ui_states s ! svc_idx) now svc_idx
        in render_lines gsw st s mode now x_offset lines
             (render_service_line gsw y (svc_name svc) icon
                (int svc_idx = selected_index s) mode x_offset u)
      else u)"

definition services_draw ::
  "metrics \<Rightarrow> sys_status \<Rightarrow> services_state \<Rightarrow> page_mode \<Rightarrow> u64 \<Rightarrow> int \<Rightarrow> u8g2 \<Rightarrow> u8g2" where
  "services_draw gsw st s mode now x_offset u =
     (let u = render_lines gsw st s mode now x_offset
                [(0, CONTENT_Y_START + 12), (1, CONTENT_Y_START + 28), (2, CONTENT_Y_START + 44)] u
      in if dialog s = DIALOG_CONFIRM \<and> selected_index s < int (service_count st) then
           let svc = services st ! nat (selected_index s)
           in render_dialog gsw s (svc_name svc) (running svc) x_offset u
         else u)"

definition services_message :: "metrics \<Rightarrow> string \<Rightarrow> int \<Rightarrow> u8g2 \<Rightarrow> u8g2" where
  "services_message gsw msg x_offset u =
     ui_draw_str gsw (MARGIN_LEFT + x_offset) (CONTENT_Y_START + 28) msg
       (u8g2_SetFont font_content u)"

definition services_render ::
  "metrics \<Rightarrow> sys_status option \<Rightarrow> page_mode \<Rightarrow> u64 \<Rightarrow> int \<Rightarrow>
   'a app_world_scheme \<Rightarrow> 'a app_world_scheme" where
  "services_render gsw status mode now x_offset w =
     (case status of
        None \<Rightarrow> on_u8g2 (services_message gsw ''Loading...'' x_offset) w
      | Some st \<Rightarrow>
          if service_count st = 0 then on_u8g2 (services_message gsw ''No services'' x_offset) w
          else
            let w = w\<lparr>svc_page := sync_services st (svc_page w)\<rparr>
            in on_u8g2 (services_draw gsw st (svc_page w) mode now x_offset) w)"

section \<open>Keys\<close>

definition ensure_visible :: "int \<Rightarrow> services_state \<Rightarrow> services_state" where
  "ensure_visible count s =
     (let scroll = (if selected_index s < scroll_offset s then selected_index s
                    else if selected_index s \<ge> scroll_offset s + VISIBLE_LINES
                    then selected_index s - VISIBLE_LINES + 1 else scroll_offset s);
          max_scroll = (if count - VISIBLE_LINES < 0 then 0
                        else count - VISIBLE_LINES);
          scroll = (if scroll > max_scroll then max_scroll else scroll);
          scroll = (if scroll < 0 then 0 else scroll)
      in s\<lparr>scroll_offset := scroll\<rparr>)"

text \<open>K2 in the dialog: carry out the selection and close.\<close>

definition dialog_confirm :: "services_state \<Rightarrow> services_state" where
  "dialog_confirm s =
     (let s = (if dialog_selection s = 1 then
                 let i = nat (selected_index s); is_running = cached_running s ! i in
                 s\<lparr>ui_states := (ui_states s)[i := if is_running then SVC_UI_STOPPING
                                                    else SVC_UI_STARTING],
                   pending_control_index := selected_index s,
                   pending_control_start := \<not> is_running\<rparr>
               else s)
      in s\<lparr>dialog := DIALOG_NONE\<rparr>)"

definition dialog_on_key :: "u8 \<Rightarrow> bool \<Rightarrow> services_state \<Rightarrow> bool \<times> services_state" where
  "dialog_on_key key long_press s =
     (if (key = KEY_K1 \<or> key = KEY_K3) \<and> \<not> long_press
      then (True, s\<lparr>dialog_selection := 1 - dialog_selection s\<rparr>)
      else if key = KEY_K2 \<and> \<not> long_press then (True, dialog_confirm s)
      else (False, s))"

definition list_on_key :: "int \<Rightarrow> u8 \<Rightarrow> bool \<Rightarrow> services_state \<Rightarrow> bool \<times> services_state" where
  "list_on_key count key long_press s =
     (if key = KEY_K1 \<and> \<not> long_press then
        let i = selected_index s - 1; i = (if i < 0 then count - 1 else i)
        in (True, ensure_visible count (s\<lparr>selected_index := i\<rparr>))
      else if key = KEY_K3 \<and> \<not> long_press then
        let i = selected_index s + 1; i = (if i \<ge> count then 0 else i)
        in (True, ensure_visible count (s\<lparr>selected_index := i\<rparr>))
      else if key = KEY_K2 \<and> \<not> long_press then
        (True, s\<lparr>dialog := DIALOG_CONFIRM, dialog_selection := 0\<rparr>)
      else (False, s))"

definition services_on_key ::
  "u8 \<Rightarrow> bool \<Rightarrow> page_mode \<Rightarrow> 'a app_world_scheme \<Rightarrow> bool \<times> 'a app_world_scheme" where
  "services_on_key key long_press mode w =
     (if mode \<noteq> PAGE_MODE_ENTER then (False, w)
      else
        let (cfg, w) = service_config_get w; count = int (length cfg) in
        if count = 0 then (False, w)
        else
          let (handled, s) = (if dialog (svc_page w) = DIALOG_CONFIRM
                              then dialog_on_key key long_press (svc_page w)
                              else list_on_key count key long_press (svc_page w))
          in (handled, w\<lparr>svc_page := s\<rparr>))"

definition services_on_enter :: "'a app_world_scheme \<Rightarrow> 'a app_world_scheme" where
  "services_on_enter w = w\<lparr>svc_page := (svc_page w)\<lparr>selected_index := 0, scroll_offset := 0\<rparr>\<rparr>"

definition services_on_exit :: "'a app_world_scheme \<Rightarrow> 'a app_world_scheme" where
  "services_on_exit w =
     w\<lparr>svc_page := (svc_page w)\<lparr>dialog := DIALOG_NONE, pending_control_index := -1\<rparr>\<rparr>"

section \<open>Hooks for the UI controller\<close>

text \<open>The two out-parameters of \<open>page_services_take_control_request\<close> are its result.\<close>

definition page_services_take_control_request ::
  "u64 \<Rightarrow> 'a app_world_scheme \<Rightarrow> (int \<times> bool) option \<times> 'a app_world_scheme" where
  "page_services_take_control_request now_ms w =
     (let s = svc_page w in
      if pending_control_index s < 0 then (None, w)
      else
        let idx = pending_control_index s;
            start = pending_control_start s;
            s = s\<lparr>pending_control_index := -1\<rparr>;
            s = (if 0 \<le> idx \<and> idx < int MAX_SERVICES
                 then s\<lparr>state_change_ms := (state_change_ms s)[nat idx := now_ms]\<rparr> else s)
        in (Some (idx, start), w\<lparr>svc_page := s\<rparr>))"

definition page_services_notify_control_result ::
  "int \<Rightarrow> bool \<Rightarrow> 'a app_world_scheme \<Rightarrow> 'a app_world_scheme" where
  "page_services_notify_control_result index success w =
     (if index < 0 \<or> index \<ge> int MAX_SERVICES then w
      else if \<not> success then
        w\<lparr>svc_page := (svc_page w)\<lparr>ui_states := (ui_states (svc_page w))[nat index := SVC_UI_ERROR]\<rparr>\<rparr>
      else w)"

definition services_get_selected_index :: "'a app_world_scheme \<Rightarrow> int" where
  "services_get_selected_index w = selected_index (svc_page w)"

definition services_get_item_count :: "'a app_world_scheme \<Rightarrow> int \<times> 'a app_world_scheme" where
  "services_get_item_count w = (let (cfg, w) = service_config_get w in (int (length cfg), w))"

definition page_services :: "'a app_world_scheme page" where
  "page_services = \<lparr>page_name = ''Services'', can_enter = True,
     page_init = Some services_init, page_destroy = None,
     get_title = Some services_get_title, page_render = Some services_render,
     on_key = Some services_on_key, on_enter = Some services_on_enter,
     on_exit = Some services_on_exit,
     get_selected_index = Some services_get_selected_index,
     get_item_count = Some services_get_item_count\<rparr>"

section \<open>Invariant\<close>

text \<open>The configuration is either not parsed yet or the parse of the compile-time string.\<close>

definition config_ok :: "'a config_world_scheme \<Rightarrow> bool" where
  [wf_defs]: "config_ok w \<longleftrightarrow>
     (g_config_initialized w \<longrightarrow> g_config w = service_config_init (MONITORED_SERVICES w))"

definition config_count :: "'a config_world_scheme \<Rightarrow> nat" where
  "config_count w = length (service_config_init (MONITORED_SERVICES w))"

text \<open>
  Arrays keep their length; the selection is a configured service and one of the three
  visible lines; a request names a configured service.
\<close>

definition services_state_ok :: "int \<Rightarrow> services_state \<Rightarrow> bool" where
  [wf_defs]: "services_state_ok n s \<longleftrightarrow>
     length (ui_states s) = MAX_SERVICES \<and> length (state_change_ms s) = MAX_SERVICES \<and>
     length (cached_running s) = MAX_SERVICES \<and>
     0 \<le> selected_index s \<and> selected_index s < max n 1 \<and>
     0 \<le> scroll_offset s \<and> scroll_offset s \<le> selected_index s \<and>
     selected_index s < scroll_offset s + VISIBLE_LINES \<and>
     scroll_offset s \<le> max 0 (n - VISIBLE_LINES) \<and>
     dialog_selection s \<in> {0, 1} \<and>
     (pending_control_index s = -1 \<or>
      0 \<le> pending_control_index s \<and> pending_control_index s < n)"

definition services_ok :: "'a app_world_scheme \<Rightarrow> bool" where
  [wf_defs]: "services_ok w \<longleftrightarrow>
     config_ok w \<and> services_state_ok (int (config_count w)) (svc_page w)"

text \<open>The page holds no modal state: no dialog and no request.\<close>

definition services_quiet :: "'a app_world_scheme \<Rightarrow> bool" where
  [wf_defs]: "services_quiet w \<longleftrightarrow>
     dialog (svc_page w) = DIALOG_NONE \<and> pending_control_index (svc_page w) = -1"

lemma config_count_le: "config_count w \<le> MAX_SERVICES"
  using service_config_init_ok by (simp add: config_count_def)

lemma service_config_get_ok:
  assumes "config_ok w"
  shows "fst (service_config_get w) = service_config_init (MONITORED_SERVICES w)"
    and "config_ok (snd (service_config_get w))"
    and "MONITORED_SERVICES (snd (service_config_get w)) = MONITORED_SERVICES w"
  using assms by (auto simp: service_config_get_def config_ok_def Let_def)

lemma service_config_get_frame [simp]:
  "config_world.more (snd (service_config_get w)) = config_world.more w"
  by (simp add: service_config_get_def Let_def)

lemma service_config_get_app [simp]:
  "svc_page (snd (service_config_get w)) = svc_page w"
  "settings (snd (service_config_get w)) = settings w"
  "g_auto_screen_off_enabled (snd (service_config_get w)) = g_auto_screen_off_enabled w"
  "g_u8g2 (snd (service_config_get w)) = g_u8g2 w"
  "disp_initialized (snd (service_config_get w)) = disp_initialized w"
  by (simp_all add: service_config_get_def Let_def)

lemma config_count_svc [simp]:
  "config_count (w\<lparr>svc_page := s\<rparr>) = config_count w"
  "config_ok (w\<lparr>svc_page := s\<rparr>) = config_ok w"
  "config_count (w\<lparr>settings := t\<rparr>) = config_count w"
  "config_ok (w\<lparr>settings := t\<rparr>) = config_ok w"
  "config_count (w\<lparr>g_auto_screen_off_enabled := b\<rparr>) = config_count w"
  "config_ok (w\<lparr>g_auto_screen_off_enabled := b\<rparr>) = config_ok w"
  "config_count (w\<lparr>g_u8g2 := u\<rparr>) = config_count w"
  "config_ok (w\<lparr>g_u8g2 := u\<rparr>) = config_ok w"
  by (simp_all add: config_count_def config_ok_def)

lemma services_init_ok: "config_ok w \<Longrightarrow> services_ok (services_init w) \<and> services_quiet (services_init w)"
  by (simp add: services_ok_def services_init_def services_state_ok_def services_quiet_def)

section \<open>Scrolling and keys keep the invariant\<close>

lemma ensure_visible_ok:
  assumes "services_state_ok n s" and "0 \<le> i" and "i < n"
  shows "services_state_ok n (ensure_visible n (s\<lparr>selected_index := i\<rparr>))"
  using assms by (auto simp: ensure_visible_def services_state_ok_def Let_def)

lemma list_on_key_ok:
  assumes "services_state_ok n s" and "0 < n"
  shows "services_state_ok n (snd (list_on_key n key lp s))"
proof -
  have i: "0 \<le> selected_index s" "selected_index s < n"
    using assms by (auto simp: services_state_ok_def)
  show ?thesis
    using assms i
    by (auto simp: list_on_key_def Let_def intro!: ensure_visible_ok) (auto simp: services_state_ok_def)
qed

lemma dialog_on_key_ok:
  assumes "services_state_ok n s" and "0 < n"
  shows "services_state_ok n (snd (dialog_on_key key lp s))"
  using assms
  by (auto simp: dialog_on_key_def dialog_confirm_def services_state_ok_def Let_def)

lemma services_on_key_eq:
  assumes "config_ok w" and "m = PAGE_MODE_ENTER" and "config_count w \<noteq> 0"
  shows "services_on_key key lp m w =
    (let (h, s) = (if dialog (svc_page w) = DIALOG_CONFIRM then dialog_on_key key lp (svc_page w)
                   else list_on_key (int (config_count w)) key lp (svc_page w))
     in (h, (snd (service_config_get w))\<lparr>svc_page := s\<rparr>))"
  using assms service_config_get_ok(1)[OF assms(1)]
  by (auto simp: services_on_key_def Let_def case_prod_beta config_count_def)

lemma services_on_key_idle:
  assumes "config_ok w" and "m = PAGE_MODE_VIEW \<or> config_count w = 0"
  shows "svc_page (snd (services_on_key key lp m w)) = svc_page w \<and>
    config_ok (snd (services_on_key key lp m w)) \<and>
    MONITORED_SERVICES (snd (services_on_key key lp m w)) = MONITORED_SERVICES w"
  using assms service_config_get_ok[OF assms(1)]
  by (auto simp: services_on_key_def Let_def case_prod_beta config_count_def)

lemma services_on_key_ok:
  assumes ok: "services_ok w"
  shows "services_ok (snd (services_on_key key lp m w))"
proof (cases "m = PAGE_MODE_VIEW \<or> config_count w = 0")
  case True
  have "config_ok w" using ok by (simp add: services_ok_def)
  with services_on_key_idle[OF this True, of key lp] ok show ?thesis
    by (simp add: services_ok_def config_count_def)
next
  case False
  have c: "config_ok w" and s: "services_state_ok (int (config_count w)) (svc_page w)"
    using ok by (simp_all add: services_ok_def)
  have n: "0 < int (config_count w)" using False by simp
  let ?g = "snd (service_config_get w)"
  have "config_count ?g = config_count w" "config_ok ?g"
    using service_config_get_ok[OF c] by (simp_all add: config_count_def)
  then show ?thesis
    using False list_on_key_ok[OF s n, of key lp] dialog_on_key_ok[OF s n, of key lp]
    by (auto simp: services_on_key_eq[OF c] services_ok_def Let_def case_prod_beta)
qed

lemma services_enter_ok: "services_ok w \<Longrightarrow> services_ok (services_on_enter w)"
  by (auto simp: services_ok_def services_on_enter_def services_state_ok_def)

lemma services_exit_ok:
  "services_ok w \<Longrightarrow> services_ok (services_on_exit w) \<and> services_quiet (services_on_exit w)"
  by (auto simp: services_ok_def services_on_exit_def services_state_ok_def services_quiet_def)

lemma sync_services_frame:
  "selected_index (sync_services st s) = selected_index s \<and>
   scroll_offset (sync_services st s) = scroll_offset s \<and>
   dialog (sync_services st s) = dialog s \<and>
   dialog_selection (sync_services st s) = dialog_selection s \<and>
   pending_control_index (sync_services st s) = pending_control_index s \<and>
   pending_control_start (sync_services st s) = pending_control_start s \<and>
   state_change_ms (sync_services st s) = state_change_ms s \<and>
   length (ui_states (sync_services st s)) = length (ui_states s) \<and>
   length (cached_running (sync_services st s)) = length (cached_running s)"
proof -
  have "P (fold (sync_service st) is s)" if "P s" "\<And>i s. P s \<Longrightarrow> P (sync_service st i s)"
    for P "is" s
    using that by (induction "is" arbitrary: s) auto
  note fold_inv = this
  show ?thesis unfolding sync_services_def
    by (rule fold_inv[where P = "\<lambda>t. selected_index t = selected_index s \<and>
        scroll_offset t = scroll_offset s \<and> dialog t = dialog s \<and>
        dialog_selection t = dialog_selection s \<and>
        pending_control_index t = pending_control_index s \<and>
        pending_control_start t = pending_control_start s \<and>
        state_change_ms t = state_change_ms s \<and>
        length (ui_states t) = length (ui_states s) \<and>
        length (cached_running t) = length (cached_running s)"])
      (auto simp: sync_service_def Let_def)
qed

lemma services_render_ok:
  "services_ok w \<Longrightarrow> services_ok (services_render gsw st m now x w)"
  using sync_services_frame
  by (auto simp: services_ok_def services_render_def on_u8g2_def services_state_ok_def Let_def
      split: option.split)

lemma services_render_quiet:
  "services_quiet (services_render gsw st m now x w) = services_quiet w"
  using sync_services_frame
  by (auto simp: services_render_def on_u8g2_def services_quiet_def Let_def split: option.split)

end
