(* ===== verification/C_Float.thy ===== *)
theory C_Float
  imports Prelude "HOL-Library.Log_Nat"
begin

text \<open>
  C floating point. A \<open>float\<close> or \<open>double\<close> value is the rational number it denotes; an
  operation computes the exact result and rounds it to 24 or 53 significant bits, to
  nearest with ties to even, as IEEE 754 prescribes for binary32 and binary64. The values of
  this program (progress ratios, percentages, temperatures, transfer rates) are far from the
  ends of the exponent range, so overflow, subnormal numbers and NaN do not occur and are not
  represented; contraction of a multiplication and an addition into one rounding is assumed
  to be off.
\<close>

section \<open>Rounding to nearest, ties to even\<close>

definition rnd_even :: "rat \<Rightarrow> int" where
  "rnd_even x =
     (let f = \<lfloor>x\<rfloor>; r = x - of_int f in
      if r < 1 / 2 then f else if 1 / 2 < r then f + 1 else if even f then f else f + 1)"

definition pow2 :: "int \<Rightarrow> rat" where
  "pow2 e = (if 0 \<le> e then 2 ^ nat e else 1 / 2 ^ nat (- e))"

text \<open>The binary exponent of a positive number: \<open>pow2 e \<le> x < pow2 (e + 1)\<close>.\<close>

definition fexp :: "rat \<Rightarrow> int" where
  "fexp x =
     (let (n, d) = quotient_of x;
          k = int (floorlog 2 (nat n)) - int (floorlog 2 (nat d))
      in if pow2 k \<le> x then k else k - 1)"

definition fround :: "nat \<Rightarrow> rat \<Rightarrow> rat" where
  "fround p x =
     (if x = 0 then 0
      else let e = fexp \<bar>x\<bar> - (int p - 1)
           in sgn x * of_int (rnd_even (\<bar>x\<bar> / pow2 e)) * pow2 e)"

section \<open>Operations of \<open>float\<close> and \<open>double\<close>\<close>

abbreviation f32_rnd :: "rat \<Rightarrow> rat" where "f32_rnd \<equiv> fround 24"
abbreviation f64_rnd :: "rat \<Rightarrow> rat" where "f64_rnd \<equiv> fround 53"

definition f32_add :: "rat \<Rightarrow> rat \<Rightarrow> rat" where "f32_add a b = f32_rnd (a + b)"
definition f32_sub :: "rat \<Rightarrow> rat \<Rightarrow> rat" where "f32_sub a b = f32_rnd (a - b)"
definition f32_mul :: "rat \<Rightarrow> rat \<Rightarrow> rat" where "f32_mul a b = f32_rnd (a * b)"
definition f32_div :: "rat \<Rightarrow> rat \<Rightarrow> rat" where "f32_div a b = f32_rnd (a / b)"
definition f32_of_u64 :: "u64 \<Rightarrow> rat" where "f32_of_u64 x = f32_rnd (of_nat (unat x))"
definition f32_of_int :: "int \<Rightarrow> rat" where "f32_of_int i = f32_rnd (of_int i)"
definition f64_of_u64 :: "u64 \<Rightarrow> rat" where "f64_of_u64 x = f64_rnd (of_nat (unat x))"
definition f64_div :: "rat \<Rightarrow> rat \<Rightarrow> rat" where "f64_div a b = f64_rnd (a / b)"

text \<open>The cast to \<open>int\<close> truncates towards zero.\<close>

definition c_int_of_float :: "rat \<Rightarrow> int" where
  "c_int_of_float x = (if 0 \<le> x then \<lfloor>x\<rfloor> else \<lceil>x\<rceil>)"

section \<open>Printing\<close>

text \<open>\<open>%.<n>f\<close> of \<open>printf\<close>: the exact value rounded to \<open>n\<close> decimals, ties to even.\<close>

definition pad_left :: "nat \<Rightarrow> char \<Rightarrow> string \<Rightarrow> string" where
  "pad_left n c s = replicate (n - length s) c @ s"

definition fmt_fixed :: "nat \<Rightarrow> rat \<Rightarrow> string" where
  "fmt_fixed n x =
     (let m = nat (rnd_even (\<bar>x\<bar> * 10 ^ n)) in
      (if x < 0 then ''-'' else '''') @ dec_nat (m div 10 ^ n) @
      (if n = 0 then '''' else ''.'' @ pad_left n CHR ''0'' (dec_nat (m mod 10 ^ n))))"

text \<open>\<open>%<w>.0f\<close>: the same, padded with blanks to width \<open>w\<close>.\<close>

definition fmt_width :: "nat \<Rightarrow> rat \<Rightarrow> string" where
  "fmt_width w x = pad_left w CHR '' '' (fmt_fixed 0 x)"

section \<open>Facts about rounding\<close>

lemma rnd_even_error: "\<bar>of_int (rnd_even x) - x\<bar> \<le> 1 / 2"
proof -
  have f: "of_int \<lfloor>x\<rfloor> \<le> x" "x < of_int \<lfloor>x\<rfloor> + 1" by linarith+
  then show ?thesis unfolding rnd_even_def Let_def by auto
qed

lemma rnd_even_of_int [simp]: "rnd_even (of_int i) = i"
  by (simp add: rnd_even_def)

lemma rnd_even_mono:
  assumes "x \<le> y"
  shows "rnd_even x \<le> rnd_even y"
proof (cases "\<lfloor>x\<rfloor> = \<lfloor>y\<rfloor>")
  case True
  then show ?thesis using assms by (auto simp: rnd_even_def Let_def)
next
  case False
  then have "\<lfloor>x\<rfloor> + 1 \<le> \<lfloor>y\<rfloor>" using floor_mono[OF assms] by linarith
  moreover have "rnd_even x \<le> \<lfloor>x\<rfloor> + 1" "\<lfloor>y\<rfloor> \<le> rnd_even y"
    by (simp_all add: rnd_even_def Let_def)
  ultimately show ?thesis by linarith
qed

lemma rnd_even_le_int: "x \<le> of_int i \<Longrightarrow> rnd_even x \<le> i"
  using rnd_even_mono[of x "of_int i"] by simp

lemma rnd_even_ge_int: "of_int i \<le> x \<Longrightarrow> i \<le> rnd_even x"
  using rnd_even_mono[of "of_int i" x] by simp

lemma rnd_even_low:
  assumes "of_int f \<le> y" and "y < of_int f + 1 / 2"
  shows "rnd_even y = f"
proof -
  have "\<lfloor>y\<rfloor> = f" using assms by (intro floor_unique) linarith+
  moreover have "y - of_int f < 1 / 2" using assms by linarith
  ultimately show ?thesis by (simp add: rnd_even_def Let_def)
qed

lemma pow2_pos [simp]: "0 < pow2 e"
  by (simp add: pow2_def)

lemma pow2_nonneg [simp]: "0 \<le> pow2 e"
  using pow2_pos[of e] by linarith

lemma pow2_minus_nat [simp]: "pow2 (- int k) = 1 / 2 ^ k" "pow2 (int k) = 2 ^ k" "pow2 0 = 1"
  by (simp_all add: pow2_def)

lemma pow2_powi: "pow2 e = 2 powi e"
  unfolding pow2_def power_int_def by (simp add: inverse_eq_divide power_one_over)

lemma pow2_add: "pow2 (a + b) = pow2 a * pow2 b"
  unfolding pow2_powi by (rule power_int_add) simp

lemma pow2_mono: "a \<le> b \<Longrightarrow> pow2 a \<le> pow2 b"
  unfolding pow2_powi by (rule power_int_increasing) simp_all

lemma pow2_less: "a < b \<Longrightarrow> pow2 a < pow2 b"
  unfolding pow2_powi by (rule power_int_strict_increasing) simp_all

lemma pow2_less_iff: "pow2 a < pow2 b \<longleftrightarrow> a < b"
  using pow2_less pow2_mono by (metis not_le)

lemma int_pred: "0 < n \<Longrightarrow> int n - 1 = int (n - 1)"
  by simp

lemma floorlog2_bounds:
  assumes "0 < n"
  shows "2 ^ (floorlog 2 n - 1) \<le> n \<and> n < 2 ^ floorlog 2 n \<and> 0 < floorlog 2 n"
  using floorlog_bounds[of n 2] assms by (auto simp: floorlog_def)

text \<open>The exponent function does find the exponent.\<close>

lemma fexp_bounds:
  assumes "0 < x"
  shows "pow2 (fexp x) \<le> x \<and> x < pow2 (fexp x + 1)"
proof -
  obtain n d where q: "quotient_of x = (n, d)" by force
  have d: "0 < d" using quotient_of_denom_pos[OF q] .
  have x: "x = of_int n / of_int d" using quotient_of_div[OF q] .
  have n: "0 < n" using assms d x by (simp add: zero_less_divide_iff)
  let ?a = "floorlog 2 (nat n)" and ?b = "floorlog 2 (nat d)"
  let ?k = "int ?a - int ?b"
  have a: "2 ^ (?a - 1) \<le> nat n" "nat n < 2 ^ ?a" "0 < ?a"
    using floorlog2_bounds[of "nat n"] n by auto
  have b: "2 ^ (?b - 1) \<le> nat d" "nat d < 2 ^ ?b" "0 < ?b"
    using floorlog2_bounds[of "nat d"] d by auto
  have cast: "rat_of_nat (nat n) = of_int n" "rat_of_nat (nat d) = of_int d"
    using n d by simp_all
  have pn: "pow2 (int ?a - 1) \<le> of_int n" "of_int n < pow2 (int ?a)"
  proof -
    have "rat_of_nat (2 ^ (?a - 1)) \<le> rat_of_nat (nat n)" using a(1) by (simp only: of_nat_le_iff)
    then show "pow2 (int ?a - 1) \<le> of_int n"
      unfolding int_pred[OF a(3)] pow2_minus_nat by (simp add: cast)
    have "rat_of_nat (nat n) < rat_of_nat (2 ^ ?a)" using a(2) by (simp only: of_nat_less_iff)
    then show "of_int n < pow2 (int ?a)" by (simp add: cast)
  qed
  have pd: "pow2 (int ?b - 1) \<le> of_int d" "of_int d < pow2 (int ?b)"
  proof -
    have "rat_of_nat (2 ^ (?b - 1)) \<le> rat_of_nat (nat d)" using b(1) by (simp only: of_nat_le_iff)
    then show "pow2 (int ?b - 1) \<le> of_int d"
      unfolding int_pred[OF b(3)] pow2_minus_nat by (simp add: cast)
    have "rat_of_nat (nat d) < rat_of_nat (2 ^ ?b)" using b(2) by (simp only: of_nat_less_iff)
    then show "of_int d < pow2 (int ?b)" by (simp add: cast)
  qed
  have dr: "(0::rat) < of_int d" using d by simp
  have up: "x < pow2 (?k + 1)"
  proof -
    have "of_int n < pow2 (int ?a)" by (rule pn(2))
    also have "\<dots> = pow2 (?k + 1) * pow2 (int ?b - 1)" by (simp del: pow2_minus_nat flip: pow2_add)
    also have "\<dots> \<le> pow2 (?k + 1) * of_int d" using pd(1) by simp
    finally show ?thesis using dr by (simp add: x pos_divide_less_eq)
  qed
  have low: "pow2 (?k - 1) \<le> x"
  proof -
    have "pow2 (?k - 1) * of_int d \<le> pow2 (?k - 1) * pow2 (int ?b)" using pd(2) by simp
    also have "\<dots> = pow2 (int ?a - 1)" by (simp del: pow2_minus_nat flip: pow2_add)
    also have "\<dots> \<le> of_int n" by (rule pn(1))
    finally show ?thesis using dr by (simp add: x pos_le_divide_eq)
  qed
  show ?thesis using up low by (auto simp: fexp_def q Let_def)
qed

lemma fexp_unique:
  assumes "pow2 e \<le> x" and "x < pow2 (e + 1)"
  shows "fexp x = e"
proof -
  have "0 < x" using assms(1) pow2_pos[of e] by linarith
  note b = fexp_bounds[OF this]
  have "pow2 e < pow2 (fexp x + 1)" "pow2 (fexp x) < pow2 (e + 1)" using assms b by linarith+
  then show ?thesis by (simp add: pow2_less_iff)
qed

lemma fround_0 [simp]: "fround p 0 = 0"
  by (simp add: fround_def)

lemma fround_nonneg: "0 \<le> x \<Longrightarrow> 0 \<le> fround p x"
proof -
  assume x: "0 \<le> x"
  have "0 \<le> rnd_even (\<bar>x\<bar> / pow2 e)" for e using rnd_even_ge_int[of 0] by simp
  then show ?thesis using x by (auto simp: fround_def Let_def sgn_if)
qed

lemma fround_minus: "fround p (- x) = - fround p x"
  by (auto simp: fround_def Let_def sgn_minus)

text \<open>
  Rounding does not cross a number on the grid of the argument's binade: with \<open>u\<close> the
  distance of neighbouring values there, a bound that is a multiple of \<open>u\<close> is kept.
\<close>

lemma fround_le_grid:
  assumes "0 < x" and "x \<le> of_int m * pow2 (fexp x - (int p - 1))"
  shows "fround p x \<le> of_int m * pow2 (fexp x - (int p - 1))"
proof -
  let ?u = "pow2 (fexp x - (int p - 1))"
  have "x / ?u \<le> of_int m" using assms(2) by (simp add: pos_divide_le_eq)
  then have "rnd_even (x / ?u) \<le> m" by (rule rnd_even_le_int)
  then have "rat_of_int (rnd_even (x / ?u)) * ?u \<le> of_int m * ?u"
    by (intro mult_right_mono) simp_all
  then show ?thesis using assms(1) by (simp add: fround_def Let_def)
qed

lemma fround_ge_grid:
  assumes "0 < x" and "of_int m * pow2 (fexp x - (int p - 1)) \<le> x"
  shows "of_int m * pow2 (fexp x - (int p - 1)) \<le> fround p x"
proof -
  let ?u = "pow2 (fexp x - (int p - 1))"
  have "of_int m \<le> x / ?u" using assms(2) by (simp add: pos_le_divide_eq)
  then have "m \<le> rnd_even (x / ?u)" by (rule rnd_even_ge_int)
  then have "of_int m * ?u \<le> rat_of_int (rnd_even (x / ?u)) * ?u"
    by (intro mult_right_mono) simp_all
  then show ?thesis using assms(1) by (simp add: fround_def Let_def)
qed

lemma fround_pow2:
  assumes "0 < p"
  shows "fround p (pow2 e) = pow2 e"
proof -
  have f: "fexp (pow2 e) = e" by (rule fexp_unique) (simp_all add: pow2_less)
  have grid: "of_int (2 ^ (p - 1)) * pow2 (e - (int p - 1)) = pow2 e"
  proof -
    have "of_int (2 ^ (p - 1)) = pow2 (int p - 1)"
      unfolding int_pred[OF assms] pow2_minus_nat by simp
    then show ?thesis by (simp del: pow2_minus_nat flip: pow2_add)
  qed
  show ?thesis
    using fround_le_grid[of "pow2 e" "2 ^ (p - 1)" p] fround_ge_grid[of "pow2 e" "2 ^ (p - 1)" p]
    unfolding f grid by simp
qed

lemma fround_le_pow2:
  assumes "0 \<le> x" and "x \<le> pow2 e" and p: "0 < p"
  shows "fround p x \<le> pow2 e"
proof (cases "x = 0 \<or> x = pow2 e")
  case True
  then show ?thesis using fround_pow2[OF p] by auto
next
  case False
  then have x: "0 < x" "x < pow2 e" using assms by auto
  have "pow2 (fexp x) < pow2 e" using fexp_bounds[OF x(1)] x(2) by linarith
  then have fe: "fexp x + 1 \<le> e" by (simp add: pow2_less_iff)
  let ?u = "pow2 (fexp x - (int p - 1))"
  have top: "pow2 (fexp x + 1) = of_int (2 ^ p) * ?u"
  proof -
    have "rat_of_int (2 ^ p) = pow2 (int p)" by simp
    then show ?thesis by (simp del: pow2_minus_nat flip: pow2_add)
  qed
  have "x \<le> of_int (2 ^ p) * ?u" using fexp_bounds[OF x(1)] top by simp
  then have "fround p x \<le> of_int (2 ^ p) * ?u" by (rule fround_le_grid[OF x(1)])
  also have "\<dots> = pow2 (fexp x + 1)" using top by simp
  also have "\<dots> \<le> pow2 e" using fe by (rule pow2_mono)
  finally show ?thesis .
qed

text \<open>In particular a value in the unit interval stays there.\<close>

lemma fround_unit: "0 \<le> x \<Longrightarrow> x \<le> 1 \<Longrightarrow> 0 < p \<Longrightarrow> 0 \<le> fround p x \<and> fround p x \<le> 1"
  using fround_nonneg fround_le_pow2[of x 0] by simp

lemma fround_ge_pow2:
  assumes "pow2 e \<le> x" and p: "0 < p"
  shows "pow2 e \<le> fround p x"
proof -
  have x: "0 < x" using assms(1) pow2_pos[of e] by linarith
  have "pow2 e < pow2 (fexp x + 1)" using fexp_bounds[OF x] assms(1) by linarith
  then have fe: "e \<le> fexp x" by (simp add: pow2_less_iff)
  have grid: "of_int (2 ^ (p - 1)) * pow2 (fexp x - (int p - 1)) = pow2 (fexp x)"
  proof -
    have "rat_of_int (2 ^ (p - 1)) = pow2 (int p - 1)"
      unfolding int_pred[OF p] pow2_minus_nat by simp
    then show ?thesis by (simp del: pow2_minus_nat flip: pow2_add)
  qed
  have "pow2 e \<le> pow2 (fexp x)" using fe by (rule pow2_mono)
  also have "\<dots> \<le> fround p x"
    using fround_ge_grid[OF x, of "2 ^ (p - 1)" p] fexp_bounds[OF x] unfolding grid by simp
  finally show ?thesis .
qed

text \<open>Rounding is monotone.\<close>

lemma fround_mono:
  assumes "0 \<le> x" and "x \<le> y" and p: "0 < p"
  shows "fround p x \<le> fround p y"
proof (cases "x = 0")
  case True
  then show ?thesis using assms by (simp add: fround_nonneg)
next
  case False
  then have x: "0 < x" and y: "0 < y" using assms by linarith+
  have "pow2 (fexp x) < pow2 (fexp y + 1)" using fexp_bounds[OF x] fexp_bounds[OF y] assms(2) by linarith
  then have le: "fexp x \<le> fexp y" by (simp add: pow2_less_iff)
  show ?thesis
  proof (cases "fexp x = fexp y")
    case True
    let ?u = "pow2 (fexp x - (int p - 1))"
    have "x / ?u \<le> y / ?u" using assms(2) by (intro divide_right_mono) simp_all
    then have "rnd_even (x / ?u) \<le> rnd_even (y / ?u)" by (rule rnd_even_mono)
    then have "rat_of_int (rnd_even (x / ?u)) * ?u \<le> of_int (rnd_even (y / ?u)) * ?u"
      by (intro mult_right_mono) simp_all
    then show ?thesis using x y True by (simp add: fround_def Let_def)
  next
    case False
    then have "fexp x + 1 \<le> fexp y" using le by simp
    then have up: "pow2 (fexp x + 1) \<le> pow2 (fexp y)" by (rule pow2_mono)
    have "fround p x \<le> pow2 (fexp x + 1)"
      using fround_le_pow2[of x "fexp x + 1" p] fexp_bounds[OF x] x p by simp
    moreover have "pow2 (fexp y) \<le> fround p y"
      using fround_ge_pow2[of "fexp y" y p] fexp_bounds[OF y] p by simp
    ultimately show ?thesis using up by linarith
  qed
qed

lemma pow2_Suc: "pow2 (e + 1) = 2 * pow2 e"
  by (simp only: pow2_add) (simp add: pow2_def)

text \<open>The error of one rounding is at most half a unit in the last place.\<close>

lemma fround_error:
  assumes "0 < x"
  shows "\<bar>fround p x - x\<bar> \<le> pow2 (fexp x - int p)"
proof -
  let ?u = "pow2 (fexp x - (int p - 1))"
  have u: "?u = 2 * pow2 (fexp x - int p)"
    using pow2_Suc[of "fexp x - int p"] by (simp add: algebra_simps)
  have "\<bar>of_int (rnd_even (x / ?u)) - x / ?u\<bar> * ?u \<le> 1 / 2 * ?u"
    using rnd_even_error[of "x / ?u"] by (intro mult_right_mono) simp_all
  also have "\<bar>of_int (rnd_even (x / ?u)) - x / ?u\<bar> * ?u =
      \<bar>(of_int (rnd_even (x / ?u)) - x / ?u) * ?u\<bar>"
    by (simp add: abs_mult)
  also have "(of_int (rnd_even (x / ?u)) - x / ?u) * ?u = fround p x - x"
    using assms less_imp_neq[OF pow2_pos, of "fexp x - (int p - 1)"]
    by (simp add: fround_def Let_def left_diff_distrib)
  finally show ?thesis using u by simp
qed

text \<open>A value less than half a unit above 1 rounds to at most 1.\<close>

lemma fround_just_above_one:
  assumes "0 \<le> x" and "x < 1 + pow2 (- int p)" and p: "0 < p"
  shows "fround p x \<le> 1"
proof (cases "x \<le> 1")
  case True
  then show ?thesis using fround_unit assms(1) p by blast
next
  case False
  have "pow2 (- int p) \<le> pow2 0" by (rule pow2_mono) simp
  then have "pow2 (- int p) \<le> 1" by (simp only: pow2_minus_nat)
  then have x: "1 < x" "x < 2" using False assms(2) by linarith+
  then have f: "fexp x = 0" by (intro fexp_unique) (simp_all add: pow2_def)
  let ?m = "rnd_even (x / pow2 (- (int p - 1)))"
  have half: "pow2 (- (int p - 1)) = 2 * pow2 (- int p)"
    using pow2_Suc[of "- int p"] by (simp add: algebra_simps del: pow2_minus_nat)
  have one: "rat_of_int (2 ^ (p - 1)) * pow2 (- (int p - 1)) = 1"
  proof -
    have "rat_of_int (2 ^ (p - 1)) = pow2 (int p - 1)"
      unfolding int_pred[OF p] pow2_minus_nat by simp
    then have "rat_of_int (2 ^ (p - 1)) * pow2 (- (int p - 1)) = pow2 0"
      by (simp del: pow2_minus_nat flip: pow2_add)
    then show ?thesis by simp
  qed
  let ?u = "pow2 (- (int p - 1))"
  have "x < (of_int (2 ^ (p - 1)) + 1 / 2) * ?u"
  proof -
    have "(of_int (2 ^ (p - 1)) + 1 / 2) * ?u = 1 + pow2 (- int p)"
      using one half by (simp only: distrib_right)
    then show ?thesis using assms(2) by linarith
  qed
  then have lt: "x / ?u < of_int (2 ^ (p - 1)) + 1 / 2" by (simp add: pos_divide_less_eq)
  have ge: "of_int (2 ^ (p - 1)) \<le> x / ?u"
    using x(1) one by (simp add: pos_le_divide_eq)
  have m: "?m = 2 ^ (p - 1)" using ge lt by (rule rnd_even_low)
  have "fround p x = of_int ?m * ?u" using x by (simp add: fround_def f Let_def)
  then show ?thesis unfolding m one by simp
qed

text \<open>Integers of at most \<open>p\<close> bits are represented exactly.\<close>

lemma fround_of_int:
  assumes "\<bar>k\<bar> < 2 ^ p"
  shows "fround p (of_int k) = of_int k"
proof -
  have pos: "fround p (of_int k) = of_int k" if k: "0 < k" "k < 2 ^ p" for k :: int
  proof -
    let ?x = "rat_of_int k"
    have x: "0 < ?x" using k by simp
    have "?x < rat_of_int (2 ^ p)" using k(2) by (simp only: of_int_less_iff)
    then have "?x < pow2 (int p)" unfolding pow2_minus_nat by simp
    then have "pow2 (fexp ?x) < pow2 (int p)" using fexp_bounds[OF x] by linarith
    then have e: "fexp ?x < int p" by (simp only: pow2_less_iff)
    define n where "n = nat (int p - 1 - fexp ?x)"
    have u: "pow2 (fexp ?x - (int p - 1)) = 1 / 2 ^ n"
      using e pow2_minus_nat(1)[of n] by (simp add: n_def algebra_simps)
    have grid: "of_int (k * 2 ^ n) * pow2 (fexp ?x - (int p - 1)) = ?x"
      unfolding u by simp
    show ?thesis
      using fround_le_grid[OF x, of "k * 2 ^ n" p] fround_ge_grid[OF x, of "k * 2 ^ n" p]
      unfolding grid by simp
  qed
  consider "k = 0" | "0 < k" | "k < 0" by linarith
  then show ?thesis
  proof cases
    case 3
    then show ?thesis using pos[of "- k"] assms fround_minus[of p "of_int (- k)"] by simp
  qed (use pos assms in auto)
qed

end
