(* ===== verification/Sys_Format.thy ===== *)
theory Sys_Format
  imports Status_Types C_Float
begin

text \<open>
  The printing utilities of \<open>src/sys_status.c\<close>: uptime, byte counts and transfer rates. Each
  writes at most \<open>buflen - 1\<close> characters into its buffer and a terminator; the result here is
  the string the buffer then holds.
\<close>

section \<open>Functions\<close>

text \<open>Days, hours and minutes, computed on 32-bit unsigned integers.\<close>

definition uptime_fields :: "u32 \<Rightarrow> u32 \<times> u32 \<times> u32" where
  "uptime_fields s = (s div 86400, (s mod 86400) div 3600, (s mod 3600) div 60)"

definition sys_status_format_uptime :: "u32 \<Rightarrow> nat \<Rightarrow> string" where
  "sys_status_format_uptime s buflen =
     (let (days, hours, mins) = uptime_fields s in
      bounded_copy buflen
        (if days > 0 then
           dec_nat (unat days) @ ''d '' @ dec_nat (unat hours) @ ''h '' @ dec_nat (unat mins) @ ''m''
         else dec_nat (unat hours) @ ''h '' @ dec_nat (unat mins) @ ''m''))"

definition units :: "string list" where
  "units = [''B'', ''K'', ''M'', ''G'', ''T'']"

text \<open>The loop \<open>while (size >= 1024 && unit < 4)\<close>.\<close>

function scale_size :: "rat \<Rightarrow> nat \<Rightarrow> rat \<times> nat" where
  "scale_size sz unit =
     (if sz \<ge> 1024 \<and> unit < 4 then scale_size (f64_div sz 1024) (unit + 1) else (sz, unit))"
  by pat_completeness auto
termination by (relation "measure (\<lambda>(sz, unit). 4 - unit)") auto

declare scale_size.simps [simp del]

definition sys_status_format_bytes :: "u64 \<Rightarrow> nat \<Rightarrow> string" where
  "sys_status_format_bytes bytes buflen =
     (let (sz, unit) = scale_size (f64_of_u64 bytes) 0 in
      bounded_copy buflen
        (if unit = 0 then dec_nat (unat bytes) @ units ! unit
         else fmt_fixed 1 sz @ units ! unit))"

definition sys_status_format_speed_bps :: "u64 \<Rightarrow> nat \<Rightarrow> string" where
  "sys_status_format_speed_bps bytes_per_sec buflen =
     (let bits_per_sec = bytes_per_sec * 8 in
      bounded_copy buflen
        (if bits_per_sec \<ge> 1000000 then
           fmt_fixed 1 (f64_div (f64_of_u64 bits_per_sec) 1000000) @ ''Mb/s''
         else if bits_per_sec \<ge> 1000 then
           fmt_fixed 1 (f64_div (f64_of_u64 bits_per_sec) 1000) @ ''Kb/s''
         else dec_nat (unat bits_per_sec) @ ''b/s''))"

section \<open>Uptime\<close>

lemma unat_div_mod_u32: "unat (a div b) = unat a div unat b" "unat (a mod b) = unat a mod unat (b :: u32)"
  by (simp_all add: unat_div unat_mod)

lemma uptime_fields_unat:
  assumes "uptime_fields s = (d, h, m)"
  shows "unat d = unat s div 86400" "unat h = unat s mod 86400 div 3600"
    "unat m = unat s mod 3600 div 60"
  using assms by (auto simp: uptime_fields_def unat_div_mod_u32)

text \<open>The fields are the uptime, rounded down to a minute.\<close>

lemma uptime_fields_sum:
  assumes "uptime_fields s = (d, h, m)"
  shows "unat d * 86400 + unat h * 3600 + unat m * 60 + unat s mod 60 = unat s"
    and "unat h < 24" and "unat m < 60"
proof -
  let ?s = "unat s"
  have "?s mod 86400 mod 3600 = ?s mod 3600" by (rule mod_mod_cancel) simp
  moreover have "?s mod 3600 mod 60 = ?s mod 60" by (rule mod_mod_cancel) simp
  ultimately show "unat d * 86400 + unat h * 3600 + unat m * 60 + ?s mod 60 = ?s"
    unfolding uptime_fields_unat[OF assms]
    using div_mult_mod_eq[of ?s 86400] div_mult_mod_eq[of "?s mod 86400" 3600]
      div_mult_mod_eq[of "?s mod 3600" 60] by linarith
  show "unat h < 24" "unat m < 60"
    unfolding uptime_fields_unat[OF assms] by (simp_all add: less_mult_imp_div_less)
qed

text \<open>The 16-byte buffer of the home page is large enough for any uptime.\<close>

lemma uptime_fits:
  "uptime_fields s = (d, h, m) \<Longrightarrow>
   sys_status_format_uptime s 16 =
     (if d > 0 then dec_nat (unat d) @ ''d '' else '''') @ dec_nat (unat h) @ ''h '' @
     dec_nat (unat m) @ ''m''"
proof -
  assume f: "uptime_fields s = (d, h, m)"
  have "unat s < 2 ^ 32" using unsigned_less[of s] by simp
  then have "unat d < 10 ^ 5" unfolding uptime_fields_unat[OF f] by (simp add: less_mult_imp_div_less)
  then have "length (dec_nat (unat d)) \<le> 5" by (rule length_dec_nat) simp
  moreover have "length (dec_nat (unat h)) \<le> 2" "length (dec_nat (unat m)) \<le> 2"
    using uptime_fields_sum(2,3)[OF f] by (auto intro: length_dec_nat)
  ultimately show ?thesis
    by (simp add: sys_status_format_uptime_def f bounded_copy_fits)
qed

section \<open>Lengths\<close>

lemma format_lengths:
  "0 < n \<Longrightarrow> length (sys_status_format_uptime s n) < n"
  "0 < n \<Longrightarrow> length (sys_status_format_bytes b n) < n"
  "0 < n \<Longrightarrow> length (sys_status_format_speed_bps b n) < n"
  by (simp_all add: sys_status_format_uptime_def sys_status_format_bytes_def
      sys_status_format_speed_bps_def Let_def length_bounded_copy split: prod.splits)

end
