(* ===== verification/Page_Controller.thy ===== *)
theory Page_Controller
  imports Page
begin

text \<open>
  The page controller (\<open>src/page_controller.h\<close>, \<open>src/page_controller.c\<close>): screen
  power, page switching, enter mode, animations and time-outs. Its operations take the
  controller and the world that page code acts on, and return both. Rendering is in
  \<open>Page_Render\<close>.
\<close>

datatype screen_state = SCREEN_OFF | SCREEN_ON

record 'w page_controller =
  screen_state :: screen_state
  last_activity_ms :: u64
  current_page :: int
  page_count :: int
  page_mode :: page_mode
  anim :: anim_state
  enter_mode_start_ms :: u64
  idle_timeout_ms :: u32
  enter_mode_timeout_ms :: u32
  pages :: "'w page option list"

abbreviation (input) DEFAULT_IDLE_TIMEOUT_MS :: u32 where "DEFAULT_IDLE_TIMEOUT_MS \<equiv> 30000"
abbreviation (input) DEFAULT_ENTER_MODE_TIMEOUT_MS :: u32 where "DEFAULT_ENTER_MODE_TIMEOUT_MS \<equiv> 30000"

section \<open>Operations\<close>

definition page_controller_init ::
  "'w page option list \<Rightarrow> int \<Rightarrow> 'w \<Rightarrow> 'w page_controller \<times> 'w" where
  "page_controller_init pgs count w =
     (\<lparr>screen_state = SCREEN_ON, last_activity_ms = 0, current_page = 1, page_count = count,
       page_mode = PAGE_MODE_VIEW,
       anim = \<lparr>anim_ty = ANIM_NONE, start_ms = 0, from_page = 0, to_page = 0\<rparr>,
       enter_mode_start_ms = 0, idle_timeout_ms = DEFAULT_IDLE_TIMEOUT_MS,
       enter_mode_timeout_ms = DEFAULT_ENTER_MODE_TIMEOUT_MS, pages = pgs\<rparr>,
      fold (\<lambda>i. init_page (pgs ! i)) [0..<nat count] w)"

definition destroy_page :: "'w page option \<Rightarrow> 'w \<Rightarrow> 'w" where
  "destroy_page p w = (case p of None \<Rightarrow> w | Some p \<Rightarrow> call_opt (page_destroy p) w)"

definition page_controller_destroy :: "'w page_controller \<Rightarrow> 'w \<Rightarrow> 'w" where
  "page_controller_destroy pc w =
     fold (\<lambda>i. destroy_page (pages pc ! i)) [0..<nat (page_count pc)] w"

definition start_animation :: "anim_type \<Rightarrow> u64 \<Rightarrow> 'w page_controller \<Rightarrow> 'w page_controller" where
  [step_defs]: "start_animation ty now pc = pc\<lparr>anim := (anim pc)\<lparr>anim_ty := ty, start_ms := now\<rparr>\<rparr>"

definition switch_page :: "int \<Rightarrow> u64 \<Rightarrow> 'w page_controller \<Rightarrow> 'w page_controller" where
  "switch_page direction now pc =
     (if page_count pc \<le> 1 then pc
      else if anim_ty (anim pc) \<noteq> ANIM_NONE then pc
      else
        let new_page = current_page pc + direction;
            new_page = (if new_page < 0 then page_count pc - 1 else new_page);
            new_page = (if new_page \<ge> page_count pc then 0 else new_page);
            pc = pc\<lparr>anim := (anim pc)\<lparr>from_page := current_page pc, to_page := new_page\<rparr>\<rparr>
        in if direction > 0 then start_animation ANIM_SLIDE_LEFT now pc
           else start_animation ANIM_SLIDE_RIGHT now pc)"

definition get_current_page :: "'w page_controller \<Rightarrow> 'w page option" where
  "get_current_page pc =
     (if current_page pc < 0 \<or> current_page pc \<ge> page_count pc then None
      else pages pc ! nat (current_page pc))"

definition exit_enter_mode :: "u64 \<Rightarrow> 'w page_controller \<Rightarrow> 'w \<Rightarrow> 'w page_controller \<times> 'w" where
  "exit_enter_mode now pc w =
     (let pc = start_animation ANIM_EXIT_MODE now (pc\<lparr>page_mode := PAGE_MODE_VIEW\<rparr>)
      in case get_current_page pc of
           None \<Rightarrow> (pc, w)
         | Some page \<Rightarrow> (pc, call_opt (on_exit page) w))"

definition try_enter_mode ::
  "u64 \<Rightarrow> 'w page_controller \<Rightarrow> 'w \<Rightarrow> bool \<times> 'w page_controller \<times> 'w" where
  "try_enter_mode now pc w =
     (if page_mode pc = PAGE_MODE_ENTER then (True, exit_enter_mode now pc w)
      else case get_current_page pc of
        None \<Rightarrow> (False, pc, w)
      | Some page \<Rightarrow>
          if \<not> can_enter page then (True, start_animation ANIM_TITLE_SHAKE now pc, w)
          else
            let pc = pc\<lparr>page_mode := PAGE_MODE_ENTER, enter_mode_start_ms := now\<rparr>;
                pc = start_animation ANIM_ENTER_MODE now pc
            in (True, pc, call_opt (on_enter page) w))"

text \<open>The guarded call \<open>page && page->on_key && page->on_key (key, long_press, mode)\<close>.\<close>

definition page_on_key ::
  "'w page option \<Rightarrow> u8 \<Rightarrow> bool \<Rightarrow> page_mode \<Rightarrow> 'w \<Rightarrow> bool \<times> 'w" where
  "page_on_key page key long_press mode w =
     (case page of
        None \<Rightarrow> (False, w)
      | Some p \<Rightarrow> (case on_key p of None \<Rightarrow> (False, w) | Some f \<Rightarrow> f key long_press mode w))"

text \<open>
  The part of \<open>page_controller_handle_key\<close> for enter mode. When the page does not
  handle the key the code falls through to the view-mode block, whose guard is false.
\<close>

definition handle_key_enter ::
  "u8 \<Rightarrow> bool \<Rightarrow> u64 \<Rightarrow> 'w page_controller \<Rightarrow> 'w \<Rightarrow> bool \<times> 'w page_controller \<times> 'w" where
  "handle_key_enter key long_press now pc w =
     (let page = get_current_page pc; pc = pc\<lparr>enter_mode_start_ms := now\<rparr> in
      if key = KEY_K2 \<and> long_press then try_enter_mode now pc w
      else let (handled, w) = page_on_key page key long_press (page_mode pc) w
           in (handled, pc, w))"

text \<open>The part for view mode.\<close>

definition handle_key_view ::
  "u8 \<Rightarrow> bool \<Rightarrow> u64 \<Rightarrow> 'w page_controller \<Rightarrow> 'w \<Rightarrow> bool \<times> 'w page_controller \<times> 'w" where
  "handle_key_view key long_press now pc w =
     (if key = KEY_K1 \<and> \<not> long_press then (True, switch_page (-1) now pc, w)
      else if key = KEY_K3 \<and> \<not> long_press then (True, switch_page 1 now pc, w)
      else if key = KEY_K2 then
        if long_press then try_enter_mode now pc w
        else (True, pc\<lparr>screen_state := SCREEN_OFF\<rparr>, w)
      else let (handled, w) = page_on_key (get_current_page pc) key long_press (page_mode pc) w
           in (handled, pc, w))"

definition page_controller_handle_key ::
  "u8 \<Rightarrow> bool \<Rightarrow> u64 \<Rightarrow> 'w page_controller \<Rightarrow> 'w \<Rightarrow> bool \<times> 'w page_controller \<times> 'w" where
  "page_controller_handle_key key long_press now pc w =
     (let pc = pc\<lparr>last_activity_ms := now\<rparr> in
      if screen_state pc = SCREEN_OFF then (True, pc\<lparr>screen_state := SCREEN_ON\<rparr>, w)
      else if anim_ty (anim pc) \<noteq> ANIM_NONE \<and> \<not> anim_is_complete (anim pc) now then (False, pc, w)
      else
        let pc = pc\<lparr>anim := (anim pc)\<lparr>anim_ty := ANIM_NONE\<rparr>\<rparr> in
        if page_mode pc = PAGE_MODE_ENTER then handle_key_enter key long_press now pc w
        else handle_key_view key long_press now pc w)"

text \<open>The three checks of \<open>page_controller_tick\<close>, in their order.\<close>

definition tick_auto_off ::
  "bool \<Rightarrow> u64 \<Rightarrow> 'w page_controller \<Rightarrow> bool \<times> 'w page_controller" where
  "tick_auto_off enabled now pc =
     (if enabled \<and> screen_state pc = SCREEN_ON \<and> page_mode pc \<noteq> PAGE_MODE_ENTER \<and>
         0 < idle_timeout_ms pc \<and> ucast (idle_timeout_ms pc) \<le> now - last_activity_ms pc
      then (True, pc\<lparr>screen_state := SCREEN_OFF\<rparr>) else (False, pc))"

definition tick_enter_timeout ::
  "u64 \<Rightarrow> 'w page_controller \<Rightarrow> 'w \<Rightarrow> bool \<times> 'w page_controller \<times> 'w" where
  "tick_enter_timeout now pc w =
     (if page_mode pc = PAGE_MODE_ENTER \<and> 0 < enter_mode_timeout_ms pc \<and>
         ucast (enter_mode_timeout_ms pc) \<le> now - enter_mode_start_ms pc
      then (True, exit_enter_mode now pc w) else (False, pc, w))"

definition tick_animation :: "u64 \<Rightarrow> 'w page_controller \<Rightarrow> bool \<times> 'w page_controller" where
  "tick_animation now pc =
     (if anim_ty (anim pc) \<noteq> ANIM_NONE then
        (True,
         if anim_is_complete (anim pc) now then
           let pc = (if is_slide (anim_ty (anim pc))
                     then pc\<lparr>current_page := to_page (anim pc)\<rparr> else pc)
           in pc\<lparr>anim := (anim pc)\<lparr>anim_ty := ANIM_NONE\<rparr>\<rparr>
         else pc)
      else (False, pc))"

definition page_controller_tick ::
  "u64 \<Rightarrow> 'a ctrl_world_scheme page_controller \<Rightarrow> 'a ctrl_world_scheme \<Rightarrow>
   bool \<times> 'a ctrl_world_scheme page_controller \<times> 'a ctrl_world_scheme" where
  "page_controller_tick now pc w =
     (let pc = (if last_activity_ms pc = 0 then pc\<lparr>last_activity_ms := now\<rparr> else pc);
          (r1, pc) = tick_auto_off (page_controller_is_auto_screen_off_enabled w) now pc;
          (r2, pc, w) = tick_enter_timeout now pc w;
          (r3, pc) = tick_animation now pc
      in (r1 \<or> r2 \<or> r3, pc, w))"

definition page_controller_is_screen_on :: "'w page_controller \<Rightarrow> bool" where
  [step_defs]: "page_controller_is_screen_on pc \<longleftrightarrow> screen_state pc = SCREEN_ON"

definition page_controller_is_animating :: "'w page_controller \<Rightarrow> bool" where
  [step_defs]: "page_controller_is_animating pc \<longleftrightarrow> anim_ty (anim pc) \<noteq> ANIM_NONE"

definition page_controller_set_idle_timeout ::
  "u32 \<Rightarrow> 'w page_controller \<Rightarrow> 'w page_controller" where
  [step_defs]: "page_controller_set_idle_timeout t pc = pc\<lparr>idle_timeout_ms := t\<rparr>"

section \<open>Well-formed controller states\<close>

text \<open>
  The current page is a registered page; a slide runs between registered pages and only in
  view mode; in enter mode at most the enter animation runs, the page supports the mode and
  the screen is on.
\<close>

definition page_index_ok :: "'w page_controller \<Rightarrow> int \<Rightarrow> bool" where
  [simp]: "page_index_ok pc i \<longleftrightarrow> 0 \<le> i \<and> i < page_count pc"

definition pc_wf :: "'w page_controller \<Rightarrow> bool" where
  [wf_defs]: "pc_wf pc \<longleftrightarrow>
     page_count pc = int (length (pages pc)) \<and>
     page_index_ok pc (current_page pc) \<and>
     (is_slide (anim_ty (anim pc)) \<longrightarrow>
        page_mode pc = PAGE_MODE_VIEW \<and> page_index_ok pc (from_page (anim pc)) \<and>
        page_index_ok pc (to_page (anim pc))) \<and>
     (page_mode pc = PAGE_MODE_ENTER \<longrightarrow>
        anim_ty (anim pc) \<in> {ANIM_NONE, ANIM_ENTER_MODE} \<and> screen_state pc = SCREEN_ON \<and>
        (\<exists>p. pages pc ! nat (current_page pc) = Some p \<and> can_enter p))"

text \<open>Only the page on which enter mode is active may hold modal state.\<close>

definition modal_ok :: "(nat \<Rightarrow> 'w \<Rightarrow> bool) \<Rightarrow> 'w page_controller \<Rightarrow> 'w \<Rightarrow> bool" where
  [wf_defs]: "modal_ok quiet pc w \<longleftrightarrow>
     (\<forall>i < length (pages pc).
        quiet i w \<or> page_mode pc = PAGE_MODE_ENTER \<and> current_page pc = int i)"

lemma get_current_page_wf:
  "pc_wf pc \<Longrightarrow> get_current_page pc = pages pc ! nat (current_page pc)"
  by (simp add: get_current_page_def pc_wf_def)

section \<open>Steps of the controller on its own state\<close>

text \<open>The fields no step writes.\<close>

lemma start_animation_sel [simp]:
  "pages (start_animation t now pc) = pages pc"
  "page_count (start_animation t now pc) = page_count pc"
  "current_page (start_animation t now pc) = current_page pc"
  "page_mode (start_animation t now pc) = page_mode pc"
  "screen_state (start_animation t now pc) = screen_state pc"
  "last_activity_ms (start_animation t now pc) = last_activity_ms pc"
  "enter_mode_start_ms (start_animation t now pc) = enter_mode_start_ms pc"
  "anim_ty (anim (start_animation t now pc)) = t"
  "start_ms (anim (start_animation t now pc)) = now"
  "from_page (anim (start_animation t now pc)) = from_page (anim pc)"
  "to_page (anim (start_animation t now pc)) = to_page (anim pc)"
  by (simp_all add: start_animation_def)

text \<open>Wrap-around page arithmetic.\<close>

lemma switch_target:
  assumes "page_index_ok pc (current_page pc)" and "1 < page_count pc"
    and "anim_ty (anim pc) = ANIM_NONE" and "d = 1 \<or> d = -1"
  shows "to_page (anim (switch_page d now pc)) = (current_page pc + d) mod page_count pc"
proof -
  have "current_page pc + 1 = page_count pc \<or> current_page pc + 1 < page_count pc"
    using assms(1) by auto
  then have up: "(if current_page pc + 1 \<ge> page_count pc then 0 else current_page pc + 1) =
      (current_page pc + 1) mod page_count pc"
    using assms(1,2) by auto
  have down: "(if current_page pc - 1 < 0 then page_count pc - 1 else current_page pc - 1) =
      (current_page pc - 1) mod page_count pc"
  proof (cases "current_page pc = 0")
    case True
    then show ?thesis using assms(2) by (simp add: zmod_minus1)
  next
    case False
    then show ?thesis using assms(1) by simp
  qed
  show ?thesis using assms(3,4) assms(1,2) up down by (auto simp: switch_page_def Let_def)
qed

lemma switch_page_wf:
  assumes "pc_wf pc" and "page_mode pc = PAGE_MODE_VIEW" and "d = 1 \<or> d = -1"
  shows "pc_wf (switch_page d now pc)"
  using assms by (auto simp: switch_page_def pc_wf_def Let_def)

lemma switch_page_sel [simp]:
  "pages (switch_page d now pc) = pages pc"
  "page_count (switch_page d now pc) = page_count pc"
  "current_page (switch_page d now pc) = current_page pc"
  "page_mode (switch_page d now pc) = page_mode pc"
  "screen_state (switch_page d now pc) = screen_state pc"
  "last_activity_ms (switch_page d now pc) = last_activity_ms pc"
  by (simp_all add: switch_page_def Let_def)

lemma get_current_page_cong [simp]:
  "get_current_page (start_animation t now pc) = get_current_page pc"
  "get_current_page (pc\<lparr>page_mode := m\<rparr>) = get_current_page pc"
  "get_current_page (pc\<lparr>enter_mode_start_ms := now\<rparr>) = get_current_page pc"
  by (simp_all add: get_current_page_def)

lemma exit_enter_mode_world:
  "snd (exit_enter_mode now pc w) =
     (case get_current_page pc of None \<Rightarrow> w | Some p \<Rightarrow> call_opt (on_exit p) w)"
  by (simp add: exit_enter_mode_def Let_def split: option.split)

lemma exit_enter_mode_wf:
  "pc_wf pc \<Longrightarrow> pc_wf (fst (exit_enter_mode now pc w))"
  by (auto simp: exit_enter_mode_def pc_wf_def Let_def start_animation_def split: option.split)

lemma exit_enter_mode_sel [simp]:
  "pages (fst (exit_enter_mode now pc w)) = pages pc"
  "page_count (fst (exit_enter_mode now pc w)) = page_count pc"
  "current_page (fst (exit_enter_mode now pc w)) = current_page pc"
  "page_mode (fst (exit_enter_mode now pc w)) = PAGE_MODE_VIEW"
  "screen_state (fst (exit_enter_mode now pc w)) = screen_state pc"
  by (simp_all add: exit_enter_mode_def Let_def split: option.split)

lemma try_enter_mode_sel [simp]:
  "pages (fst (snd (try_enter_mode now pc w))) = pages pc"
  "page_count (fst (snd (try_enter_mode now pc w))) = page_count pc"
  "current_page (fst (snd (try_enter_mode now pc w))) = current_page pc"
  "screen_state (fst (snd (try_enter_mode now pc w))) = screen_state pc"
  by (simp_all add: try_enter_mode_def Let_def split: option.split)

lemma try_enter_mode_wf:
  assumes "pc_wf pc" and "screen_state pc = SCREEN_ON" and "anim_ty (anim pc) = ANIM_NONE"
  shows "pc_wf (fst (snd (try_enter_mode now pc w)))"
  using assms exit_enter_mode_wf[OF assms(1)]
  by (auto simp: try_enter_mode_def Let_def get_current_page_wf start_animation_def pc_wf_def
      split: option.split)

lemma tick_auto_off_wf: "pc_wf pc \<Longrightarrow> pc_wf (snd (tick_auto_off e now pc))"
  by (auto simp: tick_auto_off_def pc_wf_def)

lemma tick_enter_timeout_wf:
  "pc_wf pc \<Longrightarrow> pc_wf (fst (snd (tick_enter_timeout now pc w)))"
  by (simp add: tick_enter_timeout_def exit_enter_mode_wf)

lemma tick_animation_wf: "pc_wf pc \<Longrightarrow> pc_wf (snd (tick_animation now pc))"
  by (auto simp: tick_animation_def pc_wf_def Let_def)

lemma tick_sel [simp]:
  "pages (snd (tick_auto_off e now pc)) = pages pc"
  "page_mode (snd (tick_auto_off e now pc)) = page_mode pc"
  "current_page (snd (tick_auto_off e now pc)) = current_page pc"
  "pages (snd (tick_animation now pc)) = pages pc"
  "page_mode (snd (tick_animation now pc)) = page_mode pc"
  "screen_state (snd (tick_animation now pc)) = screen_state pc"
  by (simp_all add: tick_auto_off_def tick_animation_def Let_def)

lemma handle_key_enter_wf:
  assumes "pc_wf pc" and "screen_state pc = SCREEN_ON" and "anim_ty (anim pc) = ANIM_NONE"
  shows "pc_wf (fst (snd (handle_key_enter key lp now pc w)))"
proof -
  have "pc_wf (pc\<lparr>enter_mode_start_ms := now\<rparr>)" using assms(1) by (auto simp: pc_wf_def)
  with assms(2,3) show ?thesis
    by (auto simp: handle_key_enter_def Let_def split: prod.split intro!: try_enter_mode_wf)
qed

lemma handle_key_view_wf:
  assumes "pc_wf pc" and "screen_state pc = SCREEN_ON" and "anim_ty (anim pc) = ANIM_NONE"
    and "page_mode pc = PAGE_MODE_VIEW"
  shows "pc_wf (fst (snd (handle_key_view key lp now pc w)))"
proof -
  have "pc_wf (pc\<lparr>screen_state := SCREEN_OFF\<rparr>)" using assms(1,4) by (auto simp: pc_wf_def)
  with assms show ?thesis
    by (auto simp: handle_key_view_def Let_def split: prod.split
        intro!: try_enter_mode_wf switch_page_wf)
qed

text \<open>The four paths through \<open>page_controller_handle_key\<close>.\<close>

definition key_ready :: "u64 \<Rightarrow> 'w page_controller \<Rightarrow> bool" where
  "key_ready now pc \<longleftrightarrow> screen_state pc = SCREEN_ON \<and>
     (anim_ty (anim pc) = ANIM_NONE \<or> anim_is_complete (anim pc) now)"

definition key_base :: "u64 \<Rightarrow> 'w page_controller \<Rightarrow> 'w page_controller" where
  "key_base now pc = pc\<lparr>last_activity_ms := now, anim := (anim pc)\<lparr>anim_ty := ANIM_NONE\<rparr>\<rparr>"

lemma key_base_sel [simp]:
  "screen_state (key_base now pc) = screen_state pc"
  "current_page (key_base now pc) = current_page pc"
  "page_count (key_base now pc) = page_count pc"
  "page_mode (key_base now pc) = page_mode pc"
  "pages (key_base now pc) = pages pc"
  "anim_ty (anim (key_base now pc)) = ANIM_NONE"
  "last_activity_ms (key_base now pc) = now"
  by (simp_all add: key_base_def)

lemma screen_state_not [simp]:
  "s \<noteq> SCREEN_OFF \<longleftrightarrow> s = SCREEN_ON" "s \<noteq> SCREEN_ON \<longleftrightarrow> s = SCREEN_OFF"
  by (cases s; simp)+

lemma handle_key_off:
  "screen_state pc = SCREEN_OFF \<Longrightarrow> page_controller_handle_key key lp now pc w =
     (True, pc\<lparr>last_activity_ms := now, screen_state := SCREEN_ON\<rparr>, w)"
  by (simp add: page_controller_handle_key_def)

lemma handle_key_busy:
  "screen_state pc = SCREEN_ON \<Longrightarrow> \<not> key_ready now pc \<Longrightarrow>
   page_controller_handle_key key lp now pc w = (False, pc\<lparr>last_activity_ms := now\<rparr>, w)"
  by (simp add: page_controller_handle_key_def key_ready_def)

lemma handle_key_enter:
  "key_ready now pc \<Longrightarrow> page_mode pc = PAGE_MODE_ENTER \<Longrightarrow>
   page_controller_handle_key key lp now pc w = handle_key_enter key lp now (key_base now pc) w"
  by (auto simp: page_controller_handle_key_def key_ready_def key_base_def Let_def)

lemma handle_key_view:
  "key_ready now pc \<Longrightarrow> page_mode pc = PAGE_MODE_VIEW \<Longrightarrow>
   page_controller_handle_key key lp now pc w = handle_key_view key lp now (key_base now pc) w"
  by (auto simp: page_controller_handle_key_def key_ready_def key_base_def Let_def)

lemmas handle_key_paths = handle_key_off handle_key_busy handle_key_enter handle_key_view

lemma handle_key_cases:
  obtains (off) "screen_state pc = SCREEN_OFF"
  | (busy) "screen_state pc = SCREEN_ON" "\<not> key_ready now pc"
  | (enter) "key_ready now pc" "screen_state pc = SCREEN_ON" "page_mode pc = PAGE_MODE_ENTER"
  | (view) "key_ready now pc" "screen_state pc = SCREEN_ON" "page_mode pc = PAGE_MODE_VIEW"
  by (cases "screen_state pc"; cases "key_ready now pc"; cases "page_mode pc") simp_all

lemma handle_key_wf:
  assumes wf: "pc_wf pc"
  shows "pc_wf (fst (snd (page_controller_handle_key key lp now pc w)))"
proof -
  have base: "pc_wf (key_base now pc)" using wf by (auto simp: pc_wf_def key_base_def)
  show ?thesis
  proof (cases rule: handle_key_cases[where pc = pc and now = now])
    case off
    then show ?thesis using wf by (auto simp: handle_key_off pc_wf_def)
  next
    case busy
    then show ?thesis using wf by (auto simp: handle_key_busy pc_wf_def)
  next
    case enter
    then show ?thesis using base by (simp add: handle_key_enter handle_key_enter_wf)
  next
    case view
    then show ?thesis using base by (simp add: handle_key_view handle_key_view_wf)
  qed
qed

lemma tick_wf:
  assumes "pc_wf pc"
  shows "pc_wf (fst (snd (page_controller_tick now pc w)))"
proof -
  have "pc_wf (if last_activity_ms pc = 0 then pc\<lparr>last_activity_ms := now\<rparr> else pc)"
    using assms by (auto simp: pc_wf_def)
  then show ?thesis
    by (simp add: page_controller_tick_def Let_def case_prod_beta tick_animation_wf
        tick_enter_timeout_wf tick_auto_off_wf)
qed

section \<open>The controller over a set of pages\<close>

definition ctrl_inv ::
  "'w page option list \<Rightarrow> ('w \<Rightarrow> bool) \<Rightarrow> (nat \<Rightarrow> 'w \<Rightarrow> bool) \<Rightarrow> 'w page_controller \<Rightarrow> 'w \<Rightarrow> bool" where
  "ctrl_inv pgs winv quiet pc w \<longleftrightarrow>
     pc_wf pc \<and> pages pc = pgs \<and> winv w \<and> modal_ok quiet pc w"

text \<open>The part of the invariant that page code can affect, for one operation's result.\<close>

lemma modal_ok_same:
  "modal_ok quiet pc w \<Longrightarrow> pages pc' = pages pc \<Longrightarrow> page_mode pc' = page_mode pc \<Longrightarrow>
   current_page pc' = current_page pc \<Longrightarrow> modal_ok quiet pc' w"
  by (simp add: modal_ok_def)

lemma modal_ok_view:
  "modal_ok quiet pc w \<Longrightarrow> page_mode pc = PAGE_MODE_VIEW \<Longrightarrow> i < length (pages pc) \<Longrightarrow> quiet i w"
  by (auto simp: modal_ok_def)

lemma all_quiet_modal_ok: "(\<forall>i < length (pages pc). quiet i w) \<Longrightarrow> modal_ok quiet pc w"
  by (simp add: modal_ok_def)

context page_set
begin

lemma exit_page:
  assumes wf: "pc_wf pc" and pgs: "pages pc = pgs" and w: "winv w" and mo: "modal_ok quiet pc w"
  shows "winv (snd (exit_enter_mode now pc w)) \<and>
    (\<forall>j < length pgs. quiet j (snd (exit_enter_mode now pc w)))"
proof -
  let ?i = "nat (current_page pc)"
  have i: "?i < length pgs" and cur: "current_page pc = int ?i"
    using wf pgs by (auto simp: pc_wf_def)
  have gcp: "get_current_page pc = pgs ! ?i" using get_current_page_wf[OF wf] pgs by simp
  have others: "\<forall>j < length pgs. quiet j w \<or> j = ?i"
    using mo cur pgs by (auto simp: modal_ok_def)
  show ?thesis
  proof (cases "pgs ! ?i")
    case None
    then have "quiet ?i w" using silent[OF i _ w] by simp
    then show ?thesis using None gcp w others
      by (auto simp: exit_enter_mode_world)
  next
    case (Some p)
    show ?thesis
    proof (cases "on_exit p")
      case None
      then have "quiet ?i w" using silent[OF i _ w] Some by simp
      then show ?thesis using None Some gcp w others
        by (auto simp: exit_enter_mode_world)
    next
      case (Some f)
      have "snd (exit_enter_mode now pc w) = f w"
        using Some \<open>pgs ! ?i = Some p\<close> gcp
        by (simp add: exit_enter_mode_world)
      then show ?thesis
        using exit_inv[OF i \<open>pgs ! ?i = Some p\<close> Some w] others
          exit_quiet[OF i \<open>pgs ! ?i = Some p\<close> Some w] by auto
    qed
  qed
qed

lemma exit_ctrl_inv:
  assumes "ctrl_inv pgs winv quiet pc w"
  shows "ctrl_inv pgs winv quiet (fst (exit_enter_mode now pc w)) (snd (exit_enter_mode now pc w))"
  using assms exit_page[of pc w now]
  by (auto simp: ctrl_inv_def exit_enter_mode_wf intro!: all_quiet_modal_ok)

lemma page_key_ctrl_inv:
  assumes inv: "ctrl_inv pgs winv quiet pc w"
  shows "ctrl_inv pgs winv quiet pc
    (snd (page_on_key (get_current_page pc) key lp (page_mode pc) w))"
proof -
  let ?i = "nat (current_page pc)"
  have i: "?i < length pgs" and cur: "current_page pc = int ?i" and w: "winv w"
    and gcp: "get_current_page pc = pgs ! ?i" and mo: "modal_ok quiet pc w"
    and pgs: "pages pc = pgs" and wf: "pc_wf pc"
    using inv get_current_page_wf[of pc] by (auto simp: ctrl_inv_def pc_wf_def)
  show ?thesis
  proof (cases "\<exists>p f. pgs ! ?i = Some p \<and> on_key p = Some f")
    case False
    then show ?thesis using inv gcp by (auto simp: page_on_key_def split: option.split)
  next
    case True
    then obtain p f where p: "pgs ! ?i = Some p" and f: "on_key p = Some f" by blast
    let ?w = "snd (f key lp (page_mode pc) w)"
    have eq: "snd (page_on_key (get_current_page pc) key lp (page_mode pc) w) = ?w"
      using gcp p f by (simp add: page_on_key_def)
    have "winv ?w" by (rule key_inv[OF i p f w])
    moreover have "quiet j ?w \<or> page_mode pc = PAGE_MODE_ENTER \<and> current_page pc = int j"
      if j: "j < length (pages pc)" for j
    proof (cases "page_mode pc = PAGE_MODE_ENTER \<and> j = ?i")
      case True
      then show ?thesis using cur by simp
    next
      case False
      then have "quiet j w" using mo j cur by (auto simp: modal_ok_def)
      then show ?thesis using key_quiet[OF i p f w, of j "page_mode pc"] False by auto
    qed
    ultimately show ?thesis using eq wf pgs by (simp add: ctrl_inv_def modal_ok_def)
  qed
qed

lemma try_enter_ctrl_inv:
  assumes inv: "ctrl_inv pgs winv quiet pc w" and on: "screen_state pc = SCREEN_ON"
    and idle: "anim_ty (anim pc) = ANIM_NONE"
  shows "ctrl_inv pgs winv quiet (fst (snd (try_enter_mode now pc w)))
    (snd (snd (try_enter_mode now pc w)))"
proof (cases "page_mode pc = PAGE_MODE_ENTER")
  case True
  then show ?thesis using exit_ctrl_inv[OF inv] by (simp add: try_enter_mode_def)
next
  case False
  let ?i = "nat (current_page pc)"
  have i: "?i < length pgs" and w: "winv w" and gcp: "get_current_page pc = pgs ! ?i"
    and mo: "modal_ok quiet pc w" and pgs: "pages pc = pgs" and wf: "pc_wf pc"
    using inv get_current_page_wf[of pc] by (auto simp: ctrl_inv_def pc_wf_def)
  have q: "\<forall>j < length pgs. quiet j w" using modal_ok_view[OF mo] False pgs by simp
  let ?w = "snd (snd (try_enter_mode now pc w))"
  have "winv ?w \<and> (\<forall>j < length pgs. quiet j ?w)"
  proof (cases "pgs ! ?i")
    case None
    then show ?thesis using q w gcp False by (simp add: try_enter_mode_def)
  next
    case (Some p)
    then show ?thesis
      using q w gcp False enter_inv[OF i Some _ w] enter_quiet[OF i Some _ w]
      by (cases "on_enter p") (auto simp: try_enter_mode_def Let_def)
  qed
  then show ?thesis
    using try_enter_mode_wf[OF wf on idle] pgs
    by (auto simp: ctrl_inv_def intro!: all_quiet_modal_ok)
qed

text \<open>Every key event keeps the invariant, whatever the pages do with it.\<close>

lemma handle_key_ctrl_inv:
  assumes inv: "ctrl_inv pgs winv quiet pc w"
  shows "ctrl_inv pgs winv quiet (fst (snd (page_controller_handle_key key lp now pc w)))
    (snd (snd (page_controller_handle_key key lp now pc w)))"
proof -
  have wf: "pc_wf pc" using inv by (simp add: ctrl_inv_def)
  have base: "ctrl_inv pgs winv quiet (key_base now pc) w"
    using inv by (auto simp: ctrl_inv_def modal_ok_def pc_wf_def key_base_def)
  note wf' = handle_key_wf[OF wf, of key lp now w]
  show ?thesis
  proof (cases rule: handle_key_cases[where pc = pc and now = now])
    case off
    then show ?thesis using inv wf' by (simp add: handle_key_off ctrl_inv_def modal_ok_def)
  next
    case busy
    then show ?thesis using inv wf' by (simp add: handle_key_busy ctrl_inv_def modal_ok_def)
  next
    case enter
    let ?pc = "(key_base now pc)\<lparr>enter_mode_start_ms := now\<rparr>"
    have e: "ctrl_inv pgs winv quiet ?pc w"
      using base by (auto simp: ctrl_inv_def modal_ok_def pc_wf_def)
    show ?thesis
      using enter try_enter_ctrl_inv[OF e] page_key_ctrl_inv[OF e, of key lp]
      by (auto simp: handle_key_enter handle_key_enter_def Let_def split: prod.split)
  next
    case view
    have off: "ctrl_inv pgs winv quiet ((key_base now pc)\<lparr>screen_state := SCREEN_OFF\<rparr>) w"
      using base view by (auto simp: ctrl_inv_def modal_ok_def pc_wf_def)
    have sw: "ctrl_inv pgs winv quiet (switch_page d now (key_base now pc)) w"
      if "d = 1 \<or> d = -1" for d
      using base view that by (auto simp: ctrl_inv_def modal_ok_def intro!: switch_page_wf)
    show ?thesis
      using view off sw try_enter_ctrl_inv[OF base] page_key_ctrl_inv[OF base, of key lp]
      by (auto simp: handle_key_view handle_key_view_def Let_def split: prod.split)
  qed
qed

lemma tick_ctrl_inv:
  assumes inv: "ctrl_inv pgs winv quiet pc w"
  shows "ctrl_inv pgs winv quiet (fst (snd (page_controller_tick now pc w)))
    (snd (snd (page_controller_tick now pc w)))"
proof -
  let ?pc0 = "if last_activity_ms pc = 0 then pc\<lparr>last_activity_ms := now\<rparr> else pc"
  let ?pc1 = "snd (tick_auto_off (page_controller_is_auto_screen_off_enabled w) now ?pc0)"
  let ?r2 = "snd (tick_enter_timeout now ?pc1 w)"
  let ?pc3 = "snd (tick_animation now (fst ?r2))"
  have "ctrl_inv pgs winv quiet ?pc0 w"
    using inv by (auto simp: ctrl_inv_def modal_ok_def pc_wf_def)
  then have 1: "ctrl_inv pgs winv quiet ?pc1 w"
    by (auto simp: ctrl_inv_def tick_auto_off_wf intro: modal_ok_same)
  then have 2: "ctrl_inv pgs winv quiet (fst ?r2) (snd ?r2)"
    using exit_ctrl_inv[OF 1] by (simp add: tick_enter_timeout_def)
  have "modal_ok quiet ?pc3 (snd ?r2)"
  proof (cases "is_slide (anim_ty (anim (fst ?r2)))")
    case True
    then have "page_mode (fst ?r2) = PAGE_MODE_VIEW"
      using 2 by (auto simp: ctrl_inv_def pc_wf_def)
    then show ?thesis using 2 by (auto simp: ctrl_inv_def modal_ok_def)
  next
    case False
    then have "current_page ?pc3 = current_page (fst ?r2)"
      by (simp add: tick_animation_def Let_def)
    then show ?thesis using 2 by (auto simp: ctrl_inv_def modal_ok_def)
  qed
  then have "ctrl_inv pgs winv quiet ?pc3 (snd ?r2)"
    using 2 by (simp add: ctrl_inv_def tick_animation_wf)
  then show ?thesis by (simp add: page_controller_tick_def Let_def case_prod_beta)
qed

lemma init_ctrl_inv:
  assumes "2 \<le> length pgs" and "boot w"
  shows "ctrl_inv pgs winv quiet (fst (page_controller_init pgs (int (length pgs)) w))
    (snd (page_controller_init pgs (int (length pgs)) w))"
  using assms boot_init[of w]
  by (auto simp: page_controller_init_def ctrl_inv_def pc_wf_def intro!: all_quiet_modal_ok)

end

section \<open>Navigation\<close>

text \<open>The tick's effect on the fields, path by path.\<close>

definition tick_base :: "u64 \<Rightarrow> 'w page_controller \<Rightarrow> 'w page_controller" where
  "tick_base now pc = (if last_activity_ms pc = 0 then pc\<lparr>last_activity_ms := now\<rparr> else pc)"

lemma tick_base_sel [simp]:
  "screen_state (tick_base now pc) = screen_state pc"
  "current_page (tick_base now pc) = current_page pc"
  "page_count (tick_base now pc) = page_count pc"
  "page_mode (tick_base now pc) = page_mode pc"
  "anim (tick_base now pc) = anim pc"
  "enter_mode_start_ms (tick_base now pc) = enter_mode_start_ms pc"
  "idle_timeout_ms (tick_base now pc) = idle_timeout_ms pc"
  "enter_mode_timeout_ms (tick_base now pc) = enter_mode_timeout_ms pc"
  "pages (tick_base now pc) = pages pc"
  by (simp_all add: tick_base_def)

lemma tick_view:
  assumes "page_mode pc = PAGE_MODE_VIEW"
  shows "page_controller_tick now pc w =
    (let (r1, pc1) = tick_auto_off (page_controller_is_auto_screen_off_enabled w) now (tick_base now pc);
         (r3, pc3) = tick_animation now pc1
     in (r1 \<or> r3, pc3, w))"
  using assms
  by (simp add: page_controller_tick_def tick_base_def tick_enter_timeout_def Let_def
      case_prod_beta tick_auto_off_def)

lemma tick_view_no_auto:
  assumes "page_mode pc = PAGE_MODE_VIEW" and "\<not> g_auto_screen_off_enabled w"
  shows "page_controller_tick now pc w =
    (let (r3, pc3) = tick_animation now (tick_base now pc) in (r3, pc3, w))"
  using assms
  by (simp add: tick_view tick_auto_off_def page_controller_is_auto_screen_off_enabled_def Let_def)

text \<open>
  A navigation press: K1 or K3, short, at \<open>t\<close>, then the first tick at least 250 ms later,
  at \<open>t'\<close>.
\<close>

definition nav_press ::
  "u8 \<Rightarrow> u64 \<Rightarrow> u64 \<Rightarrow> 'a ctrl_world_scheme page_controller \<times> 'a ctrl_world_scheme \<Rightarrow>
   'a ctrl_world_scheme page_controller \<times> 'a ctrl_world_scheme" where
  "nav_press key t t' pw =
     (let (_, pc, w) = page_controller_handle_key key False t (fst pw) (snd pw);
          (_, pc, w) = page_controller_tick t' pc w
      in (pc, w))"

definition nav_dir :: "u8 \<Rightarrow> int" where
  "nav_dir key = (if key = KEY_K1 then -1 else 1)"

text \<open>The states between presses: screen on, browsing, nothing animated.\<close>

definition browsing :: "'w page_controller \<Rightarrow> bool" where
  [wf_defs]: "browsing pc \<longleftrightarrow> pc_wf pc \<and> 1 < page_count pc \<and> screen_state pc = SCREEN_ON \<and>
     page_mode pc = PAGE_MODE_VIEW \<and> anim_ty (anim pc) = ANIM_NONE"

lemma browsing_key:
  assumes "browsing pc" and "key = KEY_K1 \<or> key = KEY_K3"
  shows "page_controller_handle_key key False t pc w =
    (True, switch_page (nav_dir key) t (key_base t pc), w)"
  using assms
  by (auto simp: browsing_def handle_key_view key_ready_def handle_key_view_def nav_dir_def)

lemma switch_page_anim:
  assumes "1 < page_count pc" and "anim_ty (anim pc) = ANIM_NONE"
  shows "is_slide (anim_ty (anim (switch_page d now pc)))"
    and "start_ms (anim (switch_page d now pc)) = now"
    and "from_page (anim (switch_page d now pc)) = current_page pc"
  using assms by (auto simp: switch_page_def Let_def)

lemma nav_press_step:
  assumes b: "browsing pc" and k: "key = KEY_K1 \<or> key = KEY_K3" and t: "250 \<le> t' - t"
    and auto: "\<not> g_auto_screen_off_enabled w"
  shows "browsing (fst (nav_press key t t' (pc, w))) \<and>
    current_page (fst (nav_press key t t' (pc, w))) =
      (current_page pc + nav_dir key) mod page_count pc \<and>
    page_count (fst (nav_press key t t' (pc, w))) = page_count pc \<and>
    snd (nav_press key t t' (pc, w)) = w"
proof -
  let ?b = "key_base t pc"
  let ?s = "switch_page (nav_dir key) t ?b"
  have wf: "pc_wf ?b" using b by (auto simp: browsing_def pc_wf_def key_base_def)
  have n: "1 < page_count ?b" "anim_ty (anim ?b) = ANIM_NONE" "page_mode ?b = PAGE_MODE_VIEW"
    "screen_state ?b = SCREEN_ON"
    using b by (simp_all add: browsing_def)
  have d: "nav_dir key = 1 \<or> nav_dir key = -1" by (simp add: nav_dir_def)
  have swf: "pc_wf ?s" using switch_page_wf[OF wf n(3) d] .
  have slide: "is_slide (anim_ty (anim ?s))" and start: "start_ms (anim ?s) = t"
    using switch_page_anim[OF n(1,2)] by simp_all
  have fin: "anim_is_complete (anim ?s) t'"
    using anim_is_complete_slide[OF slide] t start by simp
  have to: "to_page (anim ?s) = (current_page pc + nav_dir key) mod page_count pc"
    using switch_target[OF _ n(1,2) d] wf by (simp add: pc_wf_def)
  let ?r = "snd (tick_animation t' (tick_base t' ?s))"
  have press: "nav_press key t t' (pc, w) = (?r, w)"
    using n by (simp add: nav_press_def browsing_key[OF b k] tick_view_no_auto[OF _ auto]
        Let_def case_prod_beta)
  have "pc_wf (tick_base t' ?s)" using swf by (auto simp: pc_wf_def tick_base_def)
  then have "pc_wf ?r" by (rule tick_animation_wf)
  moreover have "current_page ?r = to_page (anim ?s)" "page_count ?r = page_count pc"
    "anim_ty (anim ?r) = ANIM_NONE"
    using slide fin by (auto simp: tick_animation_def Let_def)
  ultimately show ?thesis using press n b to by (simp add: browsing_def)
qed

text \<open>A sequence of presses, each settled before the next.\<close>

fun nav_run ::
  "(u8 \<times> u64 \<times> u64) list \<Rightarrow> 'a ctrl_world_scheme page_controller \<times> 'a ctrl_world_scheme \<Rightarrow>
   'a ctrl_world_scheme page_controller \<times> 'a ctrl_world_scheme" where
  "nav_run [] pw = pw"
| "nav_run ((key, t, t') # ps) pw = nav_run ps (nav_press key t t' pw)"

definition nav_presses_ok :: "(u8 \<times> u64 \<times> u64) list \<Rightarrow> bool" where
  "nav_presses_ok ps \<longleftrightarrow>
     list_all (\<lambda>(key, t, t'). (key = KEY_K1 \<or> key = KEY_K3) \<and> 250 \<le> t' - t) ps"

lemma nav_run_page:
  assumes "browsing pc" and "nav_presses_ok ps" and "\<not> g_auto_screen_off_enabled w"
  shows "browsing (fst (nav_run ps (pc, w))) \<and>
    current_page (fst (nav_run ps (pc, w))) =
      (current_page pc + (\<Sum>(key, _)\<leftarrow>ps. nav_dir key)) mod page_count pc"
  using assms
proof (induction ps arbitrary: pc)
  case Nil
  then show ?case by (auto simp: browsing_def pc_wf_def)
next
  case (Cons p ps)
  obtain key t t' where p: "p = (key, t, t')" by (cases p)
  have k: "key = KEY_K1 \<or> key = KEY_K3" and t: "250 \<le> t' - t" and ok: "nav_presses_ok ps"
    using Cons.prems(2) p by (auto simp: nav_presses_ok_def)
  note step = nav_press_step[OF Cons.prems(1) k t Cons.prems(3)]
  obtain pc' where pc': "nav_press key t t' (pc, w) = (pc', w)"
    using step by (metis prod.collapse)
  have "browsing pc'" and cur: "current_page pc' = (current_page pc + nav_dir key) mod page_count pc"
    and cnt: "page_count pc' = page_count pc"
    using step pc' by simp_all
  note IH = Cons.IH[OF this(1) ok Cons.prems(3)]
  show ?case
    using IH cur cnt by (simp add: p pc' mod_add_left_eq add.assoc)
qed

section \<open>Power and time-outs\<close>

text \<open>Exactly when a tick turns the screen off.\<close>

lemma tick_screen_state:
  "screen_state (fst (snd (page_controller_tick now pc w))) =
     (if g_auto_screen_off_enabled w \<and> page_mode pc = PAGE_MODE_VIEW \<and> 0 < idle_timeout_ms pc \<and>
         last_activity_ms pc \<noteq> 0 \<and> ucast (idle_timeout_ms pc) \<le> now - last_activity_ms pc
      then SCREEN_OFF else screen_state pc)"
proof -
  have zero: "\<not> ucast (idle_timeout_ms pc) \<le> (0::u64)" if "0 < idle_timeout_ms pc"
    using that by (simp add: word_le_nat_alt word_less_nat_alt)
  show ?thesis
    using screen_state.exhaust[of "screen_state pc"] zero
    by (auto simp: page_controller_tick_def Let_def case_prod_beta tick_enter_timeout_def
        tick_auto_off_def page_controller_is_auto_screen_off_enabled_def)
qed

text \<open>Enter mode ends at the first tick after its time-out.\<close>

lemma tick_leaves_enter_mode:
  assumes "page_mode pc = PAGE_MODE_ENTER" and "0 < enter_mode_timeout_ms pc"
    and "ucast (enter_mode_timeout_ms pc) \<le> now - enter_mode_start_ms pc"
  shows "page_mode (fst (snd (page_controller_tick now pc w))) = PAGE_MODE_VIEW"
  using assms
  by (simp add: page_controller_tick_def Let_def case_prod_beta tick_enter_timeout_def
      tick_auto_off_def)

end
