(* ===== verification/Anim_Math.thy ===== *)
theory Anim_Math
  imports Anim C_Float
begin

text \<open>
  The arithmetic of the animations (\<open>src/anim.c\<close>): progress, easing, and the pixel
  offsets of the slide and of the title shake, in single-precision floating point.
\<close>

section \<open>Functions\<close>

definition ease_out_quad :: "rat \<Rightarrow> rat" where
  "ease_out_quad t = f32_mul t (f32_sub 2 t)"

definition ease_in_out_quad :: "rat \<Rightarrow> rat" where
  "ease_in_out_quad t =
     (if t < 1 / 2 then f32_mul (f32_mul 2 t) t
      else f32_sub 1 (f32_mul (f32_mul 2 (f32_sub 1 t)) (f32_sub 1 t)))"

definition anim_progress :: "u64 \<Rightarrow> u64 \<Rightarrow> u64 \<Rightarrow> rat" where
  "anim_progress start now duration =
     (if now \<le> start then 0
      else if duration = 0 then 1
      else
        let elapsed = now - start in
        if elapsed \<ge> duration then 1
        else f32_div (f32_of_u64 elapsed) (f32_of_u64 duration))"

text \<open>The keyframe table: positions are \<open>float\<close> literals, amplitudes are exact.\<close>

definition keyframes :: "(rat \<times> rat) list" where
  "keyframes =
     [(f32_rnd 0, 0), (f32_rnd (16 / 100), 8), (f32_rnd (33 / 100), -8), (f32_rnd (49 / 100), 6),
      (f32_rnd (65 / 100), -6), (f32_rnd (81 / 100), 3), (f32_rnd 1, 0)]"

text \<open>The search for the surrounding pair of keyframes and the interpolation.\<close>

fun shake_scan :: "(rat \<times> rat) list \<Rightarrow> rat \<Rightarrow> int" where
  "shake_scan ((t0, v0) # (t1, v1) # ks) progress =
     (if t0 \<le> progress \<and> progress < t1 then
        let local_t = f32_div (f32_sub progress t0) (f32_sub t1 t0)
        in c_int_of_float (f32_add v0 (f32_mul (f32_sub v1 v0) local_t))
      else shake_scan ((t1, v1) # ks) progress)"
| "shake_scan _ progress = 0"

definition anim_shake_offset :: "rat \<Rightarrow> int" where
  "anim_shake_offset progress =
     (if progress \<le> 0 then 0 else if progress \<ge> 1 then 0 else shake_scan keyframes progress)"

definition anim_slide_offset :: "rat \<Rightarrow> anim_type \<Rightarrow> bool \<Rightarrow> int" where
  "anim_slide_offset progress direction is_outgoing =
     (let eased = ease_out_quad progress in
      if direction = ANIM_SLIDE_LEFT then
        if is_outgoing then c_int_of_float (f32_mul (f32_of_int (- SCREEN_WIDTH)) eased)
        else c_int_of_float (f32_mul (f32_of_int SCREEN_WIDTH) (f32_sub 1 eased))
      else if direction = ANIM_SLIDE_RIGHT then
        if is_outgoing then c_int_of_float (f32_mul (f32_of_int SCREEN_WIDTH) eased)
        else c_int_of_float (f32_mul (f32_of_int (- SCREEN_WIDTH)) (f32_sub 1 eased))
      else 0)"

section \<open>Ranges\<close>

lemma f32_of_128 [simp]: "f32_of_int 128 = 128" "f32_of_int (- 128) = - 128"
proof -
  have "fround 24 (pow2 7) = pow2 7" by (rule fround_pow2) simp
  then have "fround 24 128 = 128" by (simp add: pow2_def)
  then show "f32_of_int 128 = 128" "f32_of_int (- 128) = - 128"
    using fround_minus[of 24 128] by (simp_all add: f32_of_int_def)
qed

lemma fround_mono_from_one: "1 \<le> x \<Longrightarrow> x \<le> 2 \<Longrightarrow> 1 \<le> f32_rnd x"
proof -
  assume x: "1 \<le> x" "x \<le> 2"
  show "1 \<le> f32_rnd x"
  proof (cases "x = 2")
    case True
    then show ?thesis using fround_pow2[of 24 1] by (simp add: pow2_def)
  next
    case False
    then have f: "fexp x = 0" using x by (intro fexp_unique) (simp_all add: pow2_def)
    have "of_int (2 ^ 23) * pow2 (fexp x - (int 24 - 1)) = (1::rat)"
      by (simp add: f pow2_def)
    then show ?thesis using fround_ge_grid[of x "2 ^ 23" 24] x by simp
  qed
qed

lemma anim_progress_unit:
  "0 \<le> anim_progress s t d \<and> anim_progress s t d \<le> 1"
proof (cases "t \<le> s \<or> d = 0 \<or> d \<le> t - s")
  case True
  then show ?thesis by (auto simp: anim_progress_def Let_def)
next
  case False
  let ?e = "rat_of_nat (unat (t - s))" and ?d = "rat_of_nat (unat d)"
  have "unat (t - s) < unat d" using False by (simp add: word_less_nat_alt not_le)
  then have lt: "?e < ?d" by (simp only: of_nat_less_iff)
  have "f32_of_u64 (t - s) \<le> f32_of_u64 d"
    unfolding f32_of_u64_def
    by (rule fround_mono[OF of_nat_0_le_iff less_imp_le[OF lt]]) simp
  moreover have "0 \<le> f32_of_u64 w" for w
    unfolding f32_of_u64_def by (rule fround_nonneg[OF of_nat_0_le_iff])
  ultimately have "0 \<le> f32_of_u64 (t - s) / f32_of_u64 d" "f32_of_u64 (t - s) / f32_of_u64 d \<le> 1"
    by (auto simp: divide_le_eq_1 less_le intro: divide_nonneg_nonneg)
  then show ?thesis
    using False fround_unit[of "f32_of_u64 (t - s) / f32_of_u64 d" 24]
    by (simp add: anim_progress_def Let_def f32_div_def)
qed

lemma ease_out_quad_unit:
  assumes "0 \<le> t" and "t \<le> 1"
  shows "0 \<le> ease_out_quad t \<and> ease_out_quad t \<le> 1"
proof -
  let ?y = "f32_sub 2 t"
  have y0: "0 \<le> ?y" using assms by (simp add: f32_sub_def fround_nonneg)
  have "t * ?y < 1 + pow2 (- int 24)"
  proof (cases "t = 0 \<or> t = 1")
    case True
    have "f32_rnd 1 = 1" using fround_pow2[of 24 0] by simp
    then show ?thesis using True by (auto simp: f32_sub_def add_pos_pos)
  next
    case False
    then have t: "0 < t" "t < 1" using assms by auto
    then have f: "fexp (2 - t) = 0" by (intro fexp_unique) (simp_all add: pow2_def)
    have "\<bar>?y - (2 - t)\<bar> \<le> pow2 (- int 24)"
      using fround_error[of "2 - t" 24] t f by (simp add: f32_sub_def)
    then have "?y \<le> 2 - t + pow2 (- int 24)" by linarith
    then have "t * ?y \<le> t * (2 - t + pow2 (- int 24))" using t by (intro mult_left_mono) simp_all
    also have "\<dots> = 1 - (1 - t) * (1 - t) + t * pow2 (- int 24)" by (simp add: algebra_simps)
    also have "\<dots> < 1 + pow2 (- int 24)"
    proof -
      have "0 < (1 - t) * (1 - t)" using t by simp
      moreover have "t * pow2 (- int 24) \<le> 1 * pow2 (- int 24)"
        using t by (intro mult_right_mono) simp_all
      ultimately show ?thesis by linarith
    qed
    finally show ?thesis .
  qed
  then have "f32_rnd (t * ?y) \<le> 1"
    using assms y0 by (intro fround_just_above_one) simp_all
  then show ?thesis using assms y0 by (simp add: ease_out_quad_def f32_mul_def fround_nonneg)
qed

lemma f32_scale_128:
  assumes "0 \<le> e" and "e \<le> 1"
  shows "0 \<le> f32_mul 128 e \<and> f32_mul 128 e \<le> 128"
    and "f32_mul (- 128) e = - f32_mul 128 e"
proof -
  have "128 * e \<le> pow2 7" using assms by (simp add: pow2_def)
  then have "fround 24 (128 * e) \<le> pow2 7" using assms by (intro fround_le_pow2) simp_all
  then show "0 \<le> f32_mul 128 e \<and> f32_mul 128 e \<le> 128"
    using assms by (simp add: f32_mul_def fround_nonneg pow2_def)
  show "f32_mul (- 128) e = - f32_mul 128 e"
    using fround_minus[of 24 "128 * e"] by (simp add: f32_mul_def)
qed

lemma c_int_bounds:
  "0 \<le> x \<Longrightarrow> x \<le> 128 \<Longrightarrow> 0 \<le> c_int_of_float x \<and> c_int_of_float x \<le> 128"
  "0 \<le> x \<Longrightarrow> c_int_of_float (- x) = - c_int_of_float x"
proof -
  show "0 \<le> x \<Longrightarrow> x \<le> 128 \<Longrightarrow> 0 \<le> c_int_of_float x \<and> c_int_of_float x \<le> 128"
    by (simp add: c_int_of_float_def floor_le_iff)
  show "0 \<le> x \<Longrightarrow> c_int_of_float (- x) = - c_int_of_float x"
    by (auto simp: c_int_of_float_def ceiling_minus)
qed

text \<open>
  The two pages of a slide: the outgoing one moves from 0 to one screen width in the
  direction of the slide, the incoming one from one screen width to 0 on the other side.
\<close>

lemma slide_offset_range:
  assumes "0 \<le> p" and "p \<le> 1"
  shows "anim_slide_offset p ANIM_SLIDE_LEFT True \<in> {- 128 .. 0}"
    and "anim_slide_offset p ANIM_SLIDE_LEFT False \<in> {0 .. 128}"
    and "anim_slide_offset p ANIM_SLIDE_RIGHT b = - anim_slide_offset p ANIM_SLIDE_LEFT b"
proof -
  let ?e = "ease_out_quad p" let ?i = "f32_sub 1 ?e"
  have e: "0 \<le> ?e" "?e \<le> 1" using ease_out_quad_unit[OF assms] by simp_all
  have i: "0 \<le> ?i" "?i \<le> 1"
    using fround_unit[of "1 - ?e" 24] e by (simp_all add: f32_sub_def)
  note be = f32_scale_128[OF e] note bi = f32_scale_128[OF i]
  show "anim_slide_offset p ANIM_SLIDE_LEFT True \<in> {- 128 .. 0}"
    using be c_int_bounds[of "f32_mul 128 ?e"] by (simp add: anim_slide_offset_def Let_def)
  show "anim_slide_offset p ANIM_SLIDE_LEFT False \<in> {0 .. 128}"
    using bi c_int_bounds[of "f32_mul 128 ?i"] by (simp add: anim_slide_offset_def Let_def)
  show "anim_slide_offset p ANIM_SLIDE_RIGHT b = - anim_slide_offset p ANIM_SLIDE_LEFT b"
    using be bi c_int_bounds(2)[of "f32_mul 128 ?e"] c_int_bounds(2)[of "f32_mul 128 ?i"]
    by (simp add: anim_slide_offset_def Let_def)
qed

text \<open>The title shake never moves the title by more than eight pixels.\<close>

lemma f32_interp:
  fixes a b :: int
  assumes a: "\<bar>a\<bar> \<le> 8" and b: "\<bar>b\<bar> \<le> 8" and t: "0 \<le> t" "t \<le> 1"
  shows "\<bar>c_int_of_float (f32_add (of_int a) (f32_mul (f32_sub (of_int b) (of_int a)) t))\<bar> \<le> 8"
proof -
  let ?d = "f32_sub (of_int b) (of_int a)"
  have "?d = of_int (b - a)"
    unfolding f32_sub_def of_int_diff[symmetric] using a b by (intro fround_of_int) auto
  then have d: "f32_mul ?d t = f32_rnd (of_int (b - a) * t)" by (simp add: f32_mul_def)
  have m: "\<bar>f32_rnd (of_int (b - a) * t)\<bar> \<le> \<bar>of_int (b - a)\<bar>"
    "b < a \<Longrightarrow> f32_rnd (of_int (b - a) * t) \<le> 0"
    "\<not> b < a \<Longrightarrow> 0 \<le> f32_rnd (of_int (b - a) * t)"
  proof -
    have ri: "f32_rnd \<bar>of_int (b - a)\<bar> = \<bar>of_int (b - a)\<bar>"
      using fround_of_int[of "\<bar>b - a\<bar>" 24] a b by simp
    have "\<bar>of_int (b - a)\<bar> * t \<le> \<bar>rat_of_int (b - a)\<bar> * 1" using t by (intro mult_left_mono) simp_all
    then have "f32_rnd (\<bar>of_int (b - a)\<bar> * t) \<le> f32_rnd \<bar>of_int (b - a)\<bar>"
      using t by (intro fround_mono) simp_all
    then have le: "f32_rnd (\<bar>of_int (b - a)\<bar> * t) \<le> \<bar>of_int (b - a)\<bar>" using ri by simp
    have ge: "0 \<le> f32_rnd (\<bar>of_int (b - a)\<bar> * t)" using t by (intro fround_nonneg) simp
    have neg: "f32_rnd (of_int (b - a) * t) = - f32_rnd (\<bar>of_int (b - a)\<bar> * t)" if "b < a"
    proof -
      have "of_int (b - a) * t = - (\<bar>of_int (b - a)\<bar> * t)" using that by (simp add: algebra_simps)
      then show ?thesis by (simp only: fround_minus)
    qed
    show "\<bar>f32_rnd (of_int (b - a) * t)\<bar> \<le> \<bar>of_int (b - a)\<bar>"
      using le ge neg by (cases "b < a") simp_all
    show "b < a \<Longrightarrow> f32_rnd (of_int (b - a) * t) \<le> 0" using ge neg by simp
    show "\<not> b < a \<Longrightarrow> 0 \<le> f32_rnd (of_int (b - a) * t)" using ge by simp
  qed
  let ?s = "rat_of_int a + f32_rnd (of_int (b - a) * t)"
  have ab: "\<bar>rat_of_int a\<bar> \<le> 8" "\<bar>rat_of_int b\<bar> \<le> 8"
    using a b unfolding of_int_abs[symmetric] by (simp_all add: of_int_le_numeral_iff)
  have "\<bar>?s\<bar> \<le> 8"
  proof (cases "b < a")
    case True
    then have "\<bar>rat_of_int (b - a)\<bar> = rat_of_int a - rat_of_int b" by simp
    then show ?thesis using m(1) m(2)[OF True] ab by linarith
  next
    case False
    then have "\<bar>rat_of_int (b - a)\<bar> = rat_of_int b - rat_of_int a" by simp
    then show ?thesis using m(1) m(3)[OF False] ab by linarith
  qed
  then have "\<bar>f32_rnd ?s\<bar> \<le> 8"
    using fround_le_pow2[of ?s 3 24] fround_le_pow2[of "- ?s" 3 24] fround_nonneg[of ?s 24]
      fround_nonneg[of "- ?s" 24] fround_minus[of 24 ?s]
    by (cases "0 \<le> ?s") (simp_all add: pow2_def)
  then show ?thesis
    by (simp add: f32_add_def d c_int_of_float_def abs_le_iff) linarith
qed

lemma ratio_unit:
  assumes "t0 \<le> p" and "p < t1"
  shows "0 \<le> f32_div (f32_sub p t0) (f32_sub t1 t0) \<and> f32_div (f32_sub p t0) (f32_sub t1 t0) \<le> 1"
proof -
  have "0 \<le> f32_sub p t0" "f32_sub p t0 \<le> f32_sub t1 t0"
    unfolding f32_sub_def using assms by (auto intro!: fround_nonneg fround_mono)
  then have "0 \<le> f32_sub p t0 / f32_sub t1 t0" "f32_sub p t0 / f32_sub t1 t0 \<le> 1"
    by (auto simp: divide_le_eq_1 less_le intro: divide_nonneg_nonneg)
  then show ?thesis unfolding f32_div_def by (intro fround_unit) simp_all
qed

definition amplitude_ok :: "rat \<Rightarrow> bool" where
  "amplitude_ok v \<longleftrightarrow> (\<exists>a :: int. v = of_int a \<and> \<bar>a\<bar> \<le> 8)"

lemma shake_scan_bound:
  "list_all (\<lambda>(t, v). amplitude_ok v) ks \<Longrightarrow> \<bar>shake_scan ks p\<bar> \<le> 8"
proof (induction ks p rule: shake_scan.induct)
  case (1 t0 v0 t1 v1 ks p)
  then show ?case
    using ratio_unit[of t0 p t1] by (auto simp: amplitude_ok_def Let_def intro!: f32_interp)
qed simp_all

lemma keyframes_amplitudes: "list_all (\<lambda>(t, v). amplitude_ok v) keyframes"
proof -
  have "amplitude_ok (of_int a)" if "\<bar>a\<bar> \<le> 8" for a using that by (auto simp: amplitude_ok_def)
  from this[of 0] this[of 8] this[of "- 8"] this[of 6] this[of "- 6"] this[of 3]
  show ?thesis by (simp add: keyframes_def)
qed

lemma shake_offset_bound: "\<bar>anim_shake_offset p\<bar> \<le> 8"
  using shake_scan_bound[OF keyframes_amplitudes, of p] by (simp add: anim_shake_offset_def)

end
