(* ===== verification/Page_Render.thy ===== *)
theory Page_Render
  imports Page_Controller Anim_Math Ui_Draw
begin

text \<open>
  The drawing half of \<open>src/page_controller.c\<close>: the title bar with its animations, page
  indicator and count-down line, and the content area, for one page or for the two pages of
  a running slide. Page code may change the page modules' statics while it draws (the
  services page does), so drawing takes the world and returns it.
\<close>

abbreviation (input) TITLE_X :: int where "TITLE_X \<equiv> 2"
abbreviation (input) TITLE_Y :: int where "TITLE_Y \<equiv> 12"
abbreviation (input) PAGE_IND_X :: int where "PAGE_IND_X \<equiv> 126"
abbreviation (input) PAGE_IND_Y :: int where "PAGE_IND_Y \<equiv> 12"
abbreviation (input) TITLE_LINE_Y :: int where "TITLE_LINE_Y \<equiv> 15"

definition CAN_ENTER_ARROW :: string where
  "CAN_ENTER_ARROW = [CHR '' '', CHR 0xE2, CHR 0x86, CHR 0x92]"

section \<open>Title bar\<close>

definition page_title :: "'w page \<Rightarrow> sys_status option \<Rightarrow> string" where
  "page_title page status =
     (case get_title page of
        None \<Rightarrow> page_name page
      | Some f \<Rightarrow> (case f status of None \<Rightarrow> page_name page | Some t \<Rightarrow> t))"

text \<open>The position of the title; computing it may select the title font.\<close>

definition title_position ::
  "metrics \<Rightarrow> 'w page_controller \<Rightarrow> string \<Rightarrow> int \<Rightarrow> u64 \<Rightarrow> u8g2 \<Rightarrow> int \<times> u8g2" where
  "title_position gsw pc title x_offset now u =
     (let (title_x, u) =
        (if anim_ty (anim pc) = ANIM_ENTER_MODE \<or> anim_ty (anim pc) = ANIM_EXIT_MODE then
           let progress = anim_progress (start_ms (anim pc)) now ANIM_MODE_DURATION_MS;
               progress = ease_in_out_quad progress;
               u = u8g2_SetFont font_title u;
               title_width = u8g2_GetStrWidth gsw u title;
               center_x = c_div (SCREEN_WIDTH - title_width) 2
           in (if anim_ty (anim pc) = ANIM_ENTER_MODE
               then TITLE_X + c_int_of_float (f32_mul (f32_of_int (center_x - TITLE_X)) progress)
               else center_x + c_int_of_float (f32_mul (f32_of_int (TITLE_X - center_x)) progress), u)
         else if page_mode pc = PAGE_MODE_ENTER then
           let u = u8g2_SetFont font_title u;
               title_width = u8g2_GetStrWidth gsw u title
           in (c_div (SCREEN_WIDTH - title_width) 2, u)
         else (TITLE_X + x_offset, u))
      in if anim_ty (anim pc) = ANIM_TITLE_SHAKE
         then (title_x + anim_shake_offset
                 (anim_progress (start_ms (anim pc)) now ANIM_SHAKE_DURATION_MS), u)
         else (title_x, u))"

text \<open>An indicator such as \<open>2/5\<close>, right-aligned.\<close>

definition draw_indicator :: "metrics \<Rightarrow> string \<Rightarrow> int \<Rightarrow> u8g2 \<Rightarrow> u8g2" where
  "draw_indicator gsw ind x_offset u =
     (let u = u8g2_SetFont font_small u;
          ind_width = u8g2_GetStrWidth gsw u ind
      in ui_draw_str gsw (PAGE_IND_X - ind_width + x_offset) PAGE_IND_Y ind u)"

definition draw_arrow :: "metrics \<Rightarrow> string \<Rightarrow> int \<Rightarrow> u8g2 \<Rightarrow> u8g2" where
  "draw_arrow gsw title title_x u =
     (let title_width = u8g2_GetStrWidth gsw u title;
          u = u8g2_SetFont font_symbols u
      in ui_draw_utf8 gsw (title_x + title_width) TITLE_Y CAN_ENTER_ARROW u)"

definition render_indicator ::
  "metrics \<Rightarrow> 'a disp_world_scheme page_controller \<Rightarrow> 'a disp_world_scheme page \<Rightarrow> int \<Rightarrow>
   'a disp_world_scheme \<Rightarrow> 'a disp_world_scheme" where
  "render_indicator gsw pc page x_offset w =
     (if page_mode pc = PAGE_MODE_VIEW \<and> anim_ty (anim pc) \<noteq> ANIM_ENTER_MODE then
        let page_ind = bounded_copy 32 (dec_int (current_page pc + 1) @ ''/'' @ dec_int (page_count pc))
        in on_u8g2 (draw_indicator gsw page_ind x_offset) w
      else if page_mode pc = PAGE_MODE_ENTER \<and> anim_ty (anim pc) \<noteq> ANIM_EXIT_MODE then
        (case (get_selected_index page, get_item_count page) of
           (Some sel, Some cnt) \<Rightarrow>
             let selected = sel w; (count, w) = cnt w in
             if selected \<ge> 0 \<and> count > 0 then
               let sel_ind = bounded_copy 24 (dec_int (selected + 1) @ ''/'' @ dec_int count)
               in on_u8g2 (draw_indicator gsw sel_ind x_offset) w
             else w
         | _ \<Rightarrow> w)
      else w)"

text \<open>The count-down: the active time-out and the time it has run.\<close>

definition countdown :: "bool \<Rightarrow> u64 \<Rightarrow> 'w page_controller \<Rightarrow> u32 \<times> u64" where
  "countdown auto_off now pc =
     (if page_mode pc = PAGE_MODE_ENTER \<and> enter_mode_timeout_ms pc > 0
      then (enter_mode_timeout_ms pc, now - enter_mode_start_ms pc)
      else if auto_off \<and> idle_timeout_ms pc > 0
      then (idle_timeout_ms pc, now - last_activity_ms pc)
      else (0, 0))"

text \<open>The width of the line, \<open>uint64_t\<close> arithmetic cast to \<open>int\<close>; \<open>None\<close> draws no line.\<close>

definition countdown_width :: "u32 \<times> u64 \<Rightarrow> int option" where
  "countdown_width te =
     (let (timeout_ms, elapsed_ms) = te; t = (ucast timeout_ms :: u64) in
      if timeout_ms > 0 \<and> elapsed_ms < t then
        let remain_width = c_int_of_u64 (128 * (t - elapsed_ms) div t)
        in if remain_width > 0 then Some remain_width else None
      else if timeout_ms = 0 then Some SCREEN_WIDTH
      else None)"

definition render_title_bar ::
  "metrics \<Rightarrow> 'a ctrl_world_scheme page_controller \<Rightarrow> sys_status option \<Rightarrow> int \<Rightarrow> int \<Rightarrow> u64 \<Rightarrow>
   'a ctrl_world_scheme \<Rightarrow> 'a ctrl_world_scheme" where
  "render_title_bar gsw pc status page_idx x_offset now w =
     (if page_idx < 0 \<or> page_idx \<ge> page_count pc then w
      else case pages pc ! nat page_idx of
        None \<Rightarrow> w
      | Some page \<Rightarrow>
          (let title = page_title page status;
               (title_x, u) = title_position gsw pc title x_offset now (g_u8g2 w);
               u = u8g2_SetFont font_title u;
               u = ui_draw_str gsw title_x TITLE_Y title u;
               u = (if page_mode pc = PAGE_MODE_VIEW \<and> can_enter page \<and>
                       anim_ty (anim pc) \<noteq> ANIM_ENTER_MODE
                    then draw_arrow gsw title title_x u else u);
               w = render_indicator gsw pc page x_offset (w\<lparr>g_u8g2 := u\<rparr>)
           in case countdown_width (countdown (g_auto_screen_off_enabled w) now pc) of
                None \<Rightarrow> w
              | Some width \<Rightarrow> on_u8g2 (ui_draw_hline x_offset TITLE_LINE_Y width) w))"

section \<open>Content and whole screen\<close>

definition render_page_content ::
  "metrics \<Rightarrow> 'a ctrl_world_scheme page_controller \<Rightarrow> sys_status option \<Rightarrow> int \<Rightarrow> int \<Rightarrow> u64 \<Rightarrow>
   'a ctrl_world_scheme \<Rightarrow> 'a ctrl_world_scheme" where
  "render_page_content gsw pc status page_idx x_offset now w =
     (if page_idx < 0 \<or> page_idx \<ge> page_count pc then w
      else case pages pc ! nat page_idx of
        None \<Rightarrow> w
      | Some page \<Rightarrow>
          (case page_render page of
             None \<Rightarrow> w
           | Some render \<Rightarrow>
               let w = on_u8g2 (u8g2_do (U8g2_SetClipWindow 0 CONTENT_Y_START SCREEN_WIDTH SCREEN_HEIGHT)) w;
                   w = render gsw status (page_mode pc) now x_offset w
               in on_u8g2 (u8g2_do U8g2_SetMaxClipWindow) w))"

definition page_controller_render ::
  "metrics \<Rightarrow> 'a ctrl_world_scheme page_controller \<Rightarrow> sys_status option \<Rightarrow> u64 \<Rightarrow>
   'a ctrl_world_scheme \<Rightarrow> 'a ctrl_world_scheme" where
  "page_controller_render gsw pc status now w =
     (if is_slide (anim_ty (anim pc)) then
        let progress = anim_progress (start_ms (anim pc)) now ANIM_SLIDE_DURATION_MS;
            out_offset = anim_slide_offset progress (anim_ty (anim pc)) True;
            in_offset = anim_slide_offset progress (anim_ty (anim pc)) False;
            w = render_title_bar gsw pc status (from_page (anim pc)) out_offset now w;
            w = render_page_content gsw pc status (from_page (anim pc)) out_offset now w;
            w = render_title_bar gsw pc status (to_page (anim pc)) in_offset now w
        in render_page_content gsw pc status (to_page (anim pc)) in_offset now w
      else
        let w = render_title_bar gsw pc status (current_page pc) 0 now w
        in render_page_content gsw pc status (current_page pc) 0 now w)"

section \<open>The count-down line\<close>

text \<open>
  The line is as wide as the remaining share of the time-out, rounded down; the 64-bit
  product and the cast to \<open>int\<close> lose nothing.
\<close>

lemma countdown_arith:
  assumes "e < (ucast (t :: u32) :: u64)"
  shows "c_int_of_u64 (128 * (ucast t - e) div ucast t) =
    int (128 * (unat t - unat e) div unat t)"
proof -
  let ?t = "ucast t :: u64"
  have t: "unat t < 2 ^ 32" using unsigned_less[of t] by simp
  have e: "unat e < unat t" using assms by (simp add: word_less_nat_alt)
  have d: "unat (?t - e) = unat t - unat e" using assms by (simp add: unat_diff_le less_imp_le)
  have "unat (128 * (?t - e)) = 128 * (unat t - unat e)"
    using t by (subst unat_word_ariths(2), subst d) simp
  then have q: "unat (128 * (?t - e) div ?t) = 128 * (unat t - unat e) div unat t"
    by (simp add: unat_div)
  have "128 * (unat t - unat e) \<le> 128 * unat t" by simp
  then have "128 * (unat t - unat e) div unat t \<le> 128 * unat t div unat t" by (rule div_le_mono)
  also have "\<dots> = 128" using e by simp
  finally have le: "unat (128 * (?t - e) div ?t) \<le> 128" using q by simp
  then have "unat (128 * (?t - e) div ?t) < 2147483648" by linarith
  from c_int_of_u64_small[OF this] show ?thesis unfolding q .
qed

lemma countdown_width_eq:
  assumes "0 < t" and "e < (ucast t :: u64)"
  shows "countdown_width (t, e) =
    (let n = 128 * (unat t - unat e) div unat t in if n = 0 then None else Some (int n))"
  using assms countdown_arith[OF assms(2)] by (simp add: countdown_width_def Let_def)

lemma countdown_width_bounds:
  "countdown_width (t, e) = Some n \<Longrightarrow> 0 < n \<and> n \<le> SCREEN_WIDTH"
proof (cases "0 < t \<and> e < (ucast t :: u64)")
  case True
  assume s: "countdown_width (t, e) = Some n"
  have "128 * (unat t - unat e) div unat t \<le> 128 * unat t div unat t"
    by (intro div_le_mono) simp
  also have "\<dots> = 128" using True by (simp add: word_less_nat_alt)
  finally show ?thesis using s True by (auto simp: countdown_width_eq Let_def split: if_splits)
next
  case False
  assume "countdown_width (t, e) = Some n"
  then show ?thesis using False by (auto simp: countdown_width_def Let_def split: if_splits)
qed

section \<open>Drawing keeps the contract\<close>

text \<open>
  What drawing relies on beyond the contract of the pages: the invariant and the modal
  state do not depend on the drawing context, counting the items keeps them, and page code
  reads strings in bounds when the fonts are monospaced.
\<close>

definition draws_safely ::
  "metrics \<Rightarrow> ('a disp_world_scheme \<Rightarrow> 'a disp_world_scheme) \<Rightarrow> bool" where
  "draws_safely gsw f \<longleftrightarrow> (monospaced gsw \<longrightarrow> (\<forall>w. u8g2_ub (g_u8g2 (f w)) = u8g2_ub (g_u8g2 w)))"

locale page_set_drawn = page_set +
  assumes drawn_inv: "winv (w\<lparr>g_u8g2 := u\<rparr>) = winv w"
    and drawn_quiet: "quiet j (w\<lparr>g_u8g2 := u\<rparr>) = quiet j w"
    and count_inv:
      "\<lbrakk>i < length pgs; pgs ! i = Some p; get_item_count p = Some cf; winv w\<rbrakk> \<Longrightarrow> winv (snd (cf w))"
    and count_quiet:
      "\<lbrakk>i < length pgs; pgs ! i = Some p; get_item_count p = Some cf; winv w; quiet j w\<rbrakk>
       \<Longrightarrow> quiet j (snd (cf w))"
    and count_context:
      "\<lbrakk>i < length pgs; pgs ! i = Some p; get_item_count p = Some cf\<rbrakk>
       \<Longrightarrow> g_u8g2 (snd (cf w)) = g_u8g2 w"
    and render_safe:
      "\<lbrakk>i < length pgs; pgs ! i = Some p; page_render p = Some rf\<rbrakk>
       \<Longrightarrow> draws_safely gsw (rf gsw st m now x)"
begin

definition keeps :: "('a ctrl_world_scheme \<Rightarrow> 'a ctrl_world_scheme) \<Rightarrow> bool" where
  "keeps f \<longleftrightarrow> (\<forall>w. winv w \<longrightarrow> winv (f w) \<and> (\<forall>j. quiet j w \<longrightarrow> quiet j (f w)))"

lemma keeps_id: "keeps (\<lambda>w. w)"
  by (simp add: keeps_def)

lemma keeps_comp: "keeps f \<Longrightarrow> keeps g \<Longrightarrow> keeps (\<lambda>w. f (g w))"
  by (simp add: keeps_def)

lemma keeps_draw: "keeps (on_u8g2 d)"
  by (simp add: keeps_def on_u8g2_def drawn_inv drawn_quiet)

lemma indicator_keeps:
  assumes "i < length pgs" and "pgs ! i = Some p"
  shows "keeps (render_indicator gsw pc p x)"
  using assms count_inv[OF assms] count_quiet[OF assms]
  by (auto simp: keeps_def render_indicator_def Let_def on_u8g2_def drawn_inv drawn_quiet
      case_prod_beta split: option.split)

lemma title_bar_keeps:
  assumes "pages pc = pgs" and "page_count pc = int (length pgs)"
  shows "keeps (render_title_bar gsw pc st i x now)"
proof (cases "0 \<le> i \<and> i < page_count pc \<and> pgs ! nat i \<noteq> None")
  case False
  then show ?thesis using assms by (auto simp: keeps_def render_title_bar_def)
next
  case True
  then obtain p where p: "pgs ! nat i = Some p" by auto
  have n: "nat i < length pgs" using True assms by (simp add: nat_less_iff)
  note k = indicator_keeps[OF n p, unfolded keeps_def, rule_format]
  have k': "winv w \<Longrightarrow> winv (render_indicator gsw pc p x (w\<lparr>g_u8g2 := u\<rparr>)) \<and>
      (\<forall>j. quiet j w \<longrightarrow> quiet j (render_indicator gsw pc p x (w\<lparr>g_u8g2 := u\<rparr>)))" for w u
    using k[of "w\<lparr>g_u8g2 := u\<rparr>"] by (simp add: drawn_inv drawn_quiet)
  show ?thesis
    using True assms p k'
    by (auto simp: keeps_def render_title_bar_def Let_def case_prod_beta on_u8g2_def drawn_inv
        drawn_quiet split: option.split)
qed

lemma content_keeps:
  assumes "pages pc = pgs" and "page_count pc = int (length pgs)"
  shows "keeps (render_page_content gsw pc st i x now)"
proof (cases "0 \<le> i \<and> i < page_count pc \<and> pgs ! nat i \<noteq> None")
  case False
  then show ?thesis using assms by (auto simp: keeps_def render_page_content_def)
next
  case True
  then obtain p where p: "pgs ! nat i = Some p" by auto
  have n: "nat i < length pgs" using True assms by (simp add: nat_less_iff)
  show ?thesis
    using True assms p render_inv[OF n p] render_quiet[OF n p]
    by (auto simp: keeps_def render_page_content_def Let_def on_u8g2_def drawn_inv drawn_quiet
        split: option.split)
qed

lemma render_keeps:
  assumes "pages pc = pgs" and "page_count pc = int (length pgs)"
  shows "keeps (page_controller_render gsw pc st now)"
  using title_bar_keeps[OF assms, unfolded keeps_def] content_keeps[OF assms, unfolded keeps_def]
  by (simp add: keeps_def page_controller_render_def Let_def)

text \<open>A whole screen is drawn without reading outside a string.\<close>

lemma title_position_ub:
  "u8g2_ub (snd (title_position gsw pc t x now u)) = u8g2_ub u"
  by (simp add: title_position_def Let_def)

lemma draw_parts_ub:
  assumes "monospaced gsw"
  shows "u8g2_ub (draw_indicator gsw s x u) = u8g2_ub u" "u8g2_ub (draw_arrow gsw t y u) = u8g2_ub u"
  using assms by (simp_all add: draw_indicator_def draw_arrow_def Let_def)

lemma title_bar_ub:
  assumes m: "monospaced gsw" and "pages pc = pgs" and "page_count pc = int (length pgs)"
  shows "u8g2_ub (g_u8g2 (render_title_bar gsw pc st i x now w)) = u8g2_ub (g_u8g2 w)"
proof (cases "0 \<le> i \<and> i < page_count pc \<and> pgs ! nat i \<noteq> None")
  case False
  then show ?thesis using assms by (auto simp: render_title_bar_def)
next
  case True
  then obtain p where p: "pgs ! nat i = Some p" by auto
  have n: "nat i < length pgs" using True assms by (simp add: nat_less_iff)
  have ind: "u8g2_ub (g_u8g2 (render_indicator gsw pc p x v)) = u8g2_ub (g_u8g2 v)" for v
    using count_context[OF n p]
    by (auto simp: render_indicator_def Let_def on_u8g2_def draw_parts_ub[OF m]
        case_prod_beta split: option.split)
  show ?thesis
    using True assms p
    by (auto simp: render_title_bar_def Let_def case_prod_beta on_u8g2_def ind m title_position_ub
        draw_parts_ub[OF m] split: option.split)
qed

lemma content_ub:
  assumes m: "monospaced gsw" and "pages pc = pgs" and "page_count pc = int (length pgs)"
  shows "u8g2_ub (g_u8g2 (render_page_content gsw pc st i x now w)) = u8g2_ub (g_u8g2 w)"
proof (cases "0 \<le> i \<and> i < page_count pc \<and> pgs ! nat i \<noteq> None")
  case False
  then show ?thesis using assms by (auto simp: render_page_content_def)
next
  case True
  then obtain p where p: "pgs ! nat i = Some p" by auto
  have n: "nat i < length pgs" using True assms by (simp add: nat_less_iff)
  show ?thesis
    using True assms p render_safe[OF n p] m
    by (auto simp: render_page_content_def Let_def on_u8g2_def draws_safely_def
        split: option.split)
qed

lemma render_ub:
  assumes "monospaced gsw" and "pages pc = pgs" and "page_count pc = int (length pgs)"
  shows "u8g2_ub (g_u8g2 (page_controller_render gsw pc st now w)) = u8g2_ub (g_u8g2 w)"
  using title_bar_ub[OF assms] content_ub[OF assms] by (simp add: page_controller_render_def Let_def)

end

section \<open>Frames of drawing\<close>

text \<open>A property that no page's drawing code destroys survives the rendering of a screen.\<close>

locale drawing_frame =
  fixes pgs :: "'a ctrl_world_scheme page option list"
    and P :: "'a ctrl_world_scheme \<Rightarrow> bool"
  assumes frame_draw: "P (w\<lparr>g_u8g2 := u\<rparr>) = P w"
    and frame_count:
      "\<lbrakk>i < length pgs; pgs ! i = Some p; get_item_count p = Some cf; P w\<rbrakk> \<Longrightarrow> P (snd (cf w))"
    and frame_render:
      "\<lbrakk>i < length pgs; pgs ! i = Some p; page_render p = Some rf; P w\<rbrakk> \<Longrightarrow> P (rf gsw st m now x w)"
begin

lemma frame_indicator:
  assumes "i < length pgs" and "pgs ! i = Some p" and "P w"
  shows "P (render_indicator gsw pc p x w)"
  using assms frame_count[OF assms(1,2)]
  by (auto simp: render_indicator_def Let_def on_u8g2_def frame_draw case_prod_beta split: option.split)

lemma frame_title_bar:
  assumes "pages pc = pgs" and "page_count pc = int (length pgs)" and "P w"
  shows "P (render_title_bar gsw pc st i x now w)"
proof (cases "0 \<le> i \<and> i < page_count pc \<and> pgs ! nat i \<noteq> None")
  case False
  then show ?thesis using assms by (auto simp: render_title_bar_def)
next
  case True
  then obtain p where p: "pgs ! nat i = Some p" by auto
  have "nat i < length pgs" using True assms by (simp add: nat_less_iff)
  then have "P (render_indicator gsw pc p x (w\<lparr>g_u8g2 := u\<rparr>))" for u
    using p assms(3) by (intro frame_indicator) (simp_all add: frame_draw)
  then show ?thesis
    using True assms p
    by (auto simp: render_title_bar_def Let_def case_prod_beta on_u8g2_def frame_draw split: option.split)
qed

lemma frame_content:
  assumes "pages pc = pgs" and "page_count pc = int (length pgs)" and "P w"
  shows "P (render_page_content gsw pc st i x now w)"
proof (cases "0 \<le> i \<and> i < page_count pc \<and> pgs ! nat i \<noteq> None")
  case False
  then show ?thesis using assms by (auto simp: render_page_content_def)
next
  case True
  then obtain p where p: "pgs ! nat i = Some p" by auto
  have n: "nat i < length pgs" using True assms by (simp add: nat_less_iff)
  show ?thesis
    using True assms p frame_render[OF n p]
    by (auto simp: render_page_content_def Let_def on_u8g2_def frame_draw split: option.split)
qed

lemma frame_screen:
  assumes "pages pc = pgs" and "page_count pc = int (length pgs)" and "P w"
  shows "P (page_controller_render gsw pc st now w)"
  using assms by (simp add: page_controller_render_def Let_def frame_title_bar frame_content)

end

end
