(* ===== verification/Pages.thy ===== *)
theory Pages
  imports Page_Services Sys_Format Page_Render
begin

text \<open>
  The display-only pages (\<open>src/pages/page_home.c\<close>, \<open>page_gateway.c\<close>,
  \<open>page_network.c\<close>) and the list of all pages (\<open>pages.h\<close>), for which the contract of
  \<open>page_set\<close> is discharged.
\<close>

abbreviation (input) LINE1_Y :: int where "LINE1_Y \<equiv> CONTENT_Y_START + 12"
abbreviation (input) LINE2_Y :: int where "LINE2_Y \<equiv> CONTENT_Y_START + 28"
abbreviation (input) LINE3_Y :: int where "LINE3_Y \<equiv> CONTENT_Y_START + 44"

section \<open>Home\<close>

definition home_get_title :: "sys_status option \<Rightarrow> string option" where
  "home_get_title status =
     (case status of
        Some st \<Rightarrow> if hostname st \<noteq> [] then Some (hostname st) else Some ''NanoHat''
      | None \<Rightarrow> Some ''NanoHat'')"

text \<open>The degree sign is the Latin-1 byte \<open>0xb0\<close>.\<close>

definition degree_C :: string where
  "degree_C = [CHR 0xB0, CHR ''C'']"

definition home_line1 :: "sys_status \<Rightarrow> string" where
  "home_line1 st =
     bounded_copy 64
       (''CPU:'' @ fmt_width 3 (cpu_usage st) @ ''%   '' @ fmt_width 2 (cpu_temp st) @ degree_C)"

definition home_line2 :: "sys_status \<Rightarrow> string" where
  "home_line2 st =
     (let mem_used_mb = (mem_total_kb st - mem_available_kb st) div 1024;
          mem_total_mb = mem_total_kb st div 1024
      in bounded_copy 64
           (''MEM: '' @ dec_nat (unat mem_used_mb) @ ''M / '' @ dec_nat (unat mem_total_mb) @ ''M''))"

definition home_line3 :: "sys_status \<Rightarrow> string" where
  "home_line3 st = bounded_copy 64 (''RUN: '' @ sys_status_format_uptime (uptime_sec st) 16)"

definition home_draw :: "metrics \<Rightarrow> sys_status option \<Rightarrow> int \<Rightarrow> u8g2 \<Rightarrow> u8g2" where
  "home_draw gsw status x_offset u =
     (let x = MARGIN_LEFT + x_offset;
          u = u8g2_SetFont font_content u
      in case status of
           None \<Rightarrow>
             ui_draw_str gsw x LINE3_Y ''RUN:  --''
               (ui_draw_str gsw x LINE2_Y ''MEM:  --''
                 (ui_draw_str gsw x LINE1_Y (''CPU: --    --'' @ degree_C) u))
         | Some st \<Rightarrow>
             ui_draw_str gsw x LINE3_Y (home_line3 st)
               (ui_draw_str gsw x LINE2_Y (home_line2 st)
                 (ui_draw_str gsw x LINE1_Y (home_line1 st) u)))"

definition home_render ::
  "metrics \<Rightarrow> sys_status option \<Rightarrow> page_mode \<Rightarrow> u64 \<Rightarrow> int \<Rightarrow>
   'a disp_world_scheme \<Rightarrow> 'a disp_world_scheme" where
  "home_render gsw status mode now_ms x_offset w = on_u8g2 (home_draw gsw status x_offset) w"

definition page_home :: "'a disp_world_scheme page" where
  "page_home = \<lparr>page_name = ''Home'', can_enter = False, page_init = None, page_destroy = None,
     get_title = Some home_get_title, page_render = Some home_render, on_key = None,
     on_enter = None, on_exit = None, get_selected_index = None, get_item_count = None\<rparr>"

section \<open>Gateway and network\<close>

text \<open>A label at the left and a transfer rate, right-aligned by its pixel width.\<close>

definition draw_speed ::
  "metrics \<Rightarrow> int \<Rightarrow> int \<Rightarrow> string \<Rightarrow> u64 \<Rightarrow> u8g2 \<Rightarrow> u8g2" where
  "draw_speed gsw x_offset y label bps u =
     (let speed = sys_status_format_speed_bps bps 16;
          u = ui_draw_str gsw (MARGIN_LEFT + x_offset) y label u;
          width = u8g2_GetStrWidth gsw u speed
      in ui_draw_str gsw (x_offset + SCREEN_WIDTH - MARGIN_RIGHT - width) y speed u)"

definition gateway_get_title :: "sys_status option \<Rightarrow> string option" where
  "gateway_get_title status = Some ''Gateway''"

definition gateway_draw :: "metrics \<Rightarrow> sys_status option \<Rightarrow> int \<Rightarrow> u8g2 \<Rightarrow> u8g2" where
  "gateway_draw gsw status x_offset u =
     (let x = MARGIN_LEFT + x_offset;
          u = u8g2_SetFont font_content u
      in case status of
           None \<Rightarrow>
             ui_draw_str gsw x LINE3_Y ''TX: --''
               (ui_draw_str gsw x LINE2_Y ''RX: --'' (ui_draw_str gsw x LINE1_Y ''GW: --'' u))
         | Some st \<Rightarrow>
             (let buf = bounded_copy 32 (''GW: '' @ (if gateway st \<noteq> [] then gateway st else ''--''));
                  u = ui_draw_str gsw x LINE1_Y buf u;
                  u = draw_speed gsw x_offset LINE2_Y ''RX:'' (rx_speed st) u
              in draw_speed gsw x_offset LINE3_Y ''TX:'' (tx_speed st) u))"

definition gateway_render ::
  "metrics \<Rightarrow> sys_status option \<Rightarrow> page_mode \<Rightarrow> u64 \<Rightarrow> int \<Rightarrow>
   'a disp_world_scheme \<Rightarrow> 'a disp_world_scheme" where
  "gateway_render gsw status mode now_ms x_offset w = on_u8g2 (gateway_draw gsw status x_offset) w"

definition page_gateway :: "'a disp_world_scheme page" where
  "page_gateway = \<lparr>page_name = ''Gateway'', can_enter = False, page_init = None,
     page_destroy = None, get_title = Some gateway_get_title, page_render = Some gateway_render,
     on_key = None, on_enter = None, on_exit = None, get_selected_index = None,
     get_item_count = None\<rparr>"

definition network_get_title :: "sys_status option \<Rightarrow> string option" where
  "network_get_title status = Some ''Network''"

definition network_draw :: "metrics \<Rightarrow> sys_status option \<Rightarrow> int \<Rightarrow> u8g2 \<Rightarrow> u8g2" where
  "network_draw gsw status x_offset u =
     (let x = MARGIN_LEFT + x_offset;
          u = u8g2_SetFont font_content u
      in case status of
           None \<Rightarrow>
             ui_draw_str gsw x LINE3_Y ''TX: --''
               (ui_draw_str gsw x LINE2_Y ''RX: --'' (ui_draw_str gsw x LINE1_Y ''IP: --'' u))
         | Some st \<Rightarrow>
             (let buf = bounded_copy 32 (''IP: '' @ (if ip_addr st \<noteq> [] then ip_addr st else ''No IP''));
                  u = ui_draw_str gsw x LINE1_Y buf u;
                  u = draw_speed gsw x_offset LINE2_Y ''RX:'' (rx_speed st) u
              in draw_speed gsw x_offset LINE3_Y ''TX:'' (tx_speed st) u))"

definition network_render ::
  "metrics \<Rightarrow> sys_status option \<Rightarrow> page_mode \<Rightarrow> u64 \<Rightarrow> int \<Rightarrow>
   'a disp_world_scheme \<Rightarrow> 'a disp_world_scheme" where
  "network_render gsw status mode now_ms x_offset w = on_u8g2 (network_draw gsw status x_offset) w"

definition page_network :: "'a disp_world_scheme page" where
  "page_network = \<lparr>page_name = ''Network'', can_enter = False, page_init = None,
     page_destroy = None, get_title = Some network_get_title, page_render = Some network_render,
     on_key = None, on_enter = None, on_exit = None, get_selected_index = None,
     get_item_count = None\<rparr>"

section \<open>The list of pages\<close>

definition pages_get_list :: "'a app_world_scheme page option list" where
  "pages_get_list =
     [Some page_home, Some page_gateway, Some page_network, Some page_services, Some page_settings]"

abbreviation (input) SERVICES_PAGE :: nat where "SERVICES_PAGE \<equiv> 3"
abbreviation (input) SETTINGS_PAGE :: nat where "SETTINGS_PAGE \<equiv> 4"

lemma length_pages [simp]: "length pages_get_list = 5"
  by (simp add: pages_get_list_def)

lemma pages_nth:
  "pages_get_list ! 0 = Some page_home" "pages_get_list ! Suc 0 = Some page_gateway"
  "pages_get_list ! 2 = Some page_network" "pages_get_list ! 3 = Some page_services"
  "pages_get_list ! 4 = Some page_settings"
  by (simp_all add: pages_get_list_def)

lemma page_index_cases:
  "i < (5 :: nat) \<Longrightarrow> i = 0 \<or> i = Suc 0 \<or> i = 2 \<or> i = 3 \<or> i = 4"
  by auto

text \<open>What the page modules keep, and which page can hold modal state.\<close>

definition pages_inv :: "'a app_world_scheme \<Rightarrow> bool" where
  [wf_defs]: "pages_inv w \<longleftrightarrow> settings_ok w \<and> services_ok w"

definition pages_quiet :: "nat \<Rightarrow> 'a app_world_scheme \<Rightarrow> bool" where
  [wf_defs]: "pages_quiet i w \<longleftrightarrow> (i = SERVICES_PAGE \<longrightarrow> services_quiet w)"

section \<open>Frames\<close>

text \<open>Drawing and the settings page leave the configuration and the services page alone.\<close>

lemma services_ok_cong:
  "svc_page w' = svc_page w \<Longrightarrow> MONITORED_SERVICES w' = MONITORED_SERVICES w \<Longrightarrow>
   g_config w' = g_config w \<Longrightarrow> g_config_initialized w' = g_config_initialized w \<Longrightarrow>
   services_ok w' = services_ok w \<and> services_quiet w' = services_quiet w"
  by (simp add: services_ok_def services_quiet_def config_ok_def config_count_def)

lemma settings_ops_services:
  "services_ok (settings_init w) = services_ok w"
  "services_ok (snd (settings_on_key k l m w)) = services_ok w"
  "services_ok (settings_on_enter w) = services_ok w"
  "services_ok (settings_on_exit w) = services_ok w"
  "services_ok (settings_render gsw st m now x w) = services_ok w"
  "services_quiet (settings_init w) = services_quiet w"
  "services_quiet (snd (settings_on_key k l m w)) = services_quiet w"
  "services_quiet (settings_on_enter w) = services_quiet w"
  "services_quiet (settings_on_exit w) = services_quiet w"
  "services_quiet (settings_render gsw st m now x w) = services_quiet w"
  by (simp_all add: settings_init_def settings_on_key_def settings_toggle_def Let_def
      settings_on_enter_def settings_on_exit_def settings_render_def ssd1306_set_contrast_def
      page_controller_set_auto_screen_off_def on_u8g2_def
      services_ok_def services_quiet_def)

lemma services_ops_settings:
  "settings (services_init w) = settings w"
  "settings (snd (services_on_key k l m w)) = settings w"
  "settings (services_on_enter w) = settings w"
  "settings (services_on_exit w) = settings w"
  "settings (services_render gsw st m now x w) = settings w"
  by (simp_all add: services_init_def services_on_key_def services_on_enter_def Let_def
      services_on_exit_def services_render_def on_u8g2_def case_prod_beta split: option.split)

lemma draw_pages_inv:
  "pages_inv (on_u8g2 f w) = pages_inv w" "pages_quiet j (on_u8g2 f w) = pages_quiet j w"
  by (simp_all add: pages_inv_def pages_quiet_def settings_ok_def on_u8g2_def services_ok_def
      services_quiet_def)

lemma settings_ok_cong: "settings w' = settings w \<Longrightarrow> settings_ok w' = settings_ok w"
  by (simp add: settings_ok_def)

lemma settings_ok_services_ops:
  "settings_ok (snd (services_on_key k l m w)) = settings_ok w"
  "settings_ok (services_on_enter w) = settings_ok w"
  "settings_ok (services_on_exit w) = settings_ok w"
  "settings_ok (services_render gsw st m now x w) = settings_ok w"
  by (rule settings_ok_cong, rule services_ops_settings)+

lemma services_pages_inv:
  assumes "pages_inv w"
  shows "pages_inv (snd (services_on_key k l m w))" "pages_inv (services_on_enter w)"
    "pages_inv (services_on_exit w)" "pages_inv (services_render gsw st m now x w)"
  using assms
  by (simp_all add: pages_inv_def services_on_key_ok services_enter_ok services_exit_ok
      services_render_ok settings_ok_services_ops)

lemma services_view_quiet:
  "services_ok w \<Longrightarrow> m = PAGE_MODE_VIEW \<Longrightarrow> services_quiet w \<Longrightarrow>
   services_quiet (snd (services_on_key k l m w))"
  using services_on_key_idle[of w m k l] by (simp add: services_quiet_def services_ok_def)

lemma settings_pages_inv:
  assumes "pages_inv w"
  shows "pages_inv (snd (settings_on_key k l m w))" "pages_inv (settings_on_enter w)"
    "pages_inv (settings_on_exit w)" "pages_inv (settings_render gsw st m now x w)"
  using assms
  by (simp_all add: pages_inv_def settings_ops_services settings_on_key_ok settings_enter_ok
      settings_render_ok settings_on_exit_def)

lemma boot_pages:
  assumes "config_ok w"
  shows "pages_inv (fold (\<lambda>i. init_page (pages_get_list ! i)) [0..<5] w) \<and>
    pages_quiet j (fold (\<lambda>i. init_page (pages_get_list ! i)) [0..<5] w)"
proof -
  have w: "fold (\<lambda>i. init_page (pages_get_list ! i)) [0..<5] w = settings_init (services_init w)"
    by (simp add: upt_rec[of _ 5] init_page_def pages_get_list_def page_home_def page_gateway_def
        page_network_def page_services_def page_settings_def eval_nat_numeral)
  show ?thesis
    unfolding w
    using services_init_ok[OF assms]
    by (simp add: pages_inv_def pages_quiet_def settings_ops_services settings_init_ok)
qed

section \<open>The contract holds\<close>

lemmas page_records =
  page_home_def page_gateway_def page_network_def page_services_def page_settings_def

interpretation app: page_set pages_get_list pages_inv pages_quiet config_ok
proof (unfold_locales, goal_cases)
  case (1 w)
  then show ?case using boot_pages[of w] by simp
next
  case (2 i p kf w k l m)
  then show ?case
    by (auto dest!: page_index_cases simp: pages_nth page_records services_pages_inv settings_pages_inv)
next
  case (3 i p kf w j m k l)
  then show ?case
    by (auto dest!: page_index_cases simp: pages_nth page_records pages_quiet_def pages_inv_def
        settings_ops_services services_view_quiet)
next
  case (4 i p f w)
  then show ?case
    by (auto dest!: page_index_cases simp: pages_nth page_records services_pages_inv settings_pages_inv)
next
  case (5 i p f w j)
  then show ?case
    by (auto dest!: page_index_cases simp: pages_nth page_records pages_quiet_def
        services_on_enter_def settings_on_enter_def services_quiet_def)
next
  case (6 i p f w)
  then show ?case
    by (auto dest!: page_index_cases simp: pages_nth page_records services_pages_inv settings_pages_inv)
next
  case (7 i p f w j)
  then show ?case
    by (auto dest!: page_index_cases simp: pages_nth page_records pages_quiet_def
        services_on_exit_def settings_on_exit_def services_quiet_def)
next
  case (8 i p w)
  then show ?case
    by (auto dest!: page_index_cases simp: pages_nth page_records pages_quiet_def)
next
  case (9 i p rf w gsw st m now x)
  then show ?case
    by (auto dest!: page_index_cases simp: pages_nth page_records services_pages_inv
        settings_pages_inv draw_pages_inv home_render_def gateway_render_def network_render_def)
next
  case (10 i p rf w j gsw st m now x)
  then show ?case
    by (auto dest!: page_index_cases simp: pages_nth page_records draw_pages_inv home_render_def
        gateway_render_def network_render_def)
      (auto simp: pages_quiet_def services_render_quiet settings_ops_services)
qed

section \<open>The drawing contract\<close>

lemma render_service_line_ub [simp]:
  "monospaced gsw \<Longrightarrow> u8g2_ub (render_service_line gsw y n ic s m x u) = u8g2_ub u"
  by (simp add: render_service_line_def Let_def)

lemma render_lines_ub:
  "monospaced gsw \<Longrightarrow> u8g2_ub (render_lines gsw st s m now x ls u) = u8g2_ub u"
proof (induction ls arbitrary: u)
  case (Cons l ls)
  obtain i y where "l = (i, y)" by force
  with Cons show ?case by (simp add: Let_def)
qed simp

lemma render_dialog_ub:
  "monospaced gsw \<Longrightarrow> u8g2_ub (render_dialog gsw s n r x u) = u8g2_ub u"
  by (simp add: render_dialog_def dialog_button_no_def dialog_button_yes_def Let_def)

lemma services_draw_ub:
  "monospaced gsw \<Longrightarrow> u8g2_ub (services_draw gsw st s m now x u) = u8g2_ub u"
  by (simp add: services_draw_def Let_def render_lines_ub render_dialog_ub del: render_lines.simps)

lemma pages_draw_safely:
  "draws_safely gsw (home_render gsw st m now x)"
  "draws_safely gsw (gateway_render gsw st m now x)"
  "draws_safely gsw (network_render gsw st m now x)"
  "draws_safely gsw (services_render gsw st m now x)"
  "draws_safely gsw (settings_render gsw st m now x)"
  by (simp_all add: draws_safely_def home_render_def gateway_render_def network_render_def
      services_render_def settings_render_def on_u8g2_def home_draw_def gateway_draw_def
      network_draw_def settings_draw_def services_message_def services_draw_ub draw_speed_def
      Let_def split: option.split)

lemma item_count_app:
  "services_ok (snd (services_get_item_count w)) = services_ok w" if "config_ok w"
  using service_config_get_ok[OF that] that
  by (simp add: services_get_item_count_def services_ok_def case_prod_beta Let_def config_count_def)

lemma item_count_frame:
  "settings_ok (snd (services_get_item_count w)) = settings_ok w"
  "services_quiet (snd (services_get_item_count w)) = services_quiet w"
  "g_u8g2 (snd (services_get_item_count w)) = g_u8g2 w"
  by (simp_all add: services_get_item_count_def case_prod_beta Let_def settings_ok_def
      services_quiet_def)

interpretation app: page_set_drawn pages_get_list pages_inv pages_quiet config_ok
proof (unfold_locales, goal_cases)
  case (1 w u)
  then show ?case by (simp add: pages_inv_def settings_ok_def services_ok_def)
next
  case (2 j w u)
  then show ?case by (simp add: pages_quiet_def services_quiet_def)
next
  case (3 i p cf w)
  then have "config_ok w" by (simp add: pages_inv_def services_ok_def)
  with 3 show ?case
    by (auto dest!: page_index_cases simp: pages_nth page_records pages_inv_def item_count_app
        item_count_frame settings_get_item_count_def)
next
  case (4 i p cf w j)
  then show ?case
    by (auto dest!: page_index_cases simp: pages_nth page_records pages_quiet_def
        item_count_frame settings_get_item_count_def)
next
  case (5 i p cf w)
  then show ?case
    by (auto dest!: page_index_cases simp: pages_nth page_records item_count_frame
        settings_get_item_count_def)
next
  case (6 i p rf gsw st m now x)
  then show ?case
    by (auto dest!: page_index_cases simp: pages_nth page_records pages_draw_safely)
qed

section \<open>The statics when the program starts\<close>

definition program_start :: "string \<Rightarrow> app_world" where
  "program_start services_macro =
     \<lparr>MONITORED_SERVICES = services_macro, g_config = [], g_config_initialized = False,
      g_u8g2 = \<lparr>u8g2_font = None, u8g2_calls = [], u8g2_ub = False\<rparr>,
      g_i2c = \<lparr>g_i2c_fd = -1, i2c_buffer = replicate 256 0, buf_idx = 0, i2c_writes = []\<rparr>,
      disp_initialized = False, g_auto_screen_off_enabled = False,
      settings = \<lparr>set_selected_index = 0, brightness = 0\<rparr>,
      svc_page = \<lparr>selected_index = 0, scroll_offset = 0,
        ui_states = replicate MAX_SERVICES SVC_UI_STOPPED,
        state_change_ms = replicate MAX_SERVICES 0, cached_running = replicate MAX_SERVICES False,
        dialog = DIALOG_NONE, dialog_selection = 0, pending_control_index = 0,
        pending_control_start = False\<rparr>\<rparr>"

lemma program_start_boot: "config_ok (program_start s)"
  by (simp add: config_ok_def program_start_def)

text \<open>The controller as \<open>ui_controller_init\<close> sets it up over the five pages.\<close>

definition boot_controller ::
  "'a app_world_scheme \<Rightarrow> 'a app_world_scheme page_controller \<times> 'a app_world_scheme" where
  "boot_controller w = page_controller_init pages_get_list 5 w"

lemma boot_controller_browsing: "browsing (fst (boot_controller w))"
  by (simp add: boot_controller_def page_controller_init_def browsing_def pc_wf_def)

lemma boot_controller_inv:
  assumes "config_ok w"
  shows "ctrl_inv pages_get_list pages_inv pages_quiet (fst (boot_controller w)) (snd (boot_controller w))"
  using app.init_ctrl_inv[OF _ assms] by (simp add: boot_controller_def)

end
