(* ===== verification/Ubus_Hal.thy ===== *)
theory Ubus_Hal
  imports Prelude "HOL-Library.Multiset"
begin

text \<open>
  The asynchronous service interface (\<open>src/hal/ubus_hal.h\<close>): status codes, callbacks, the
  operations table, and the contract its header states, that a request which was accepted
  is answered by exactly one callback. The pair of a callback function and its \<open>priv\<close>
  pointer is a token \<open>'p\<close>; calling it is an element of \<open>'p ubus_callback\<close>, with the
  arguments of the call. An operation returns the calls it makes, in order; by the header's
  rule callbacks do not call back into the interface, so the caller may run them afterwards.
\<close>

abbreviation (input) UBUS_HAL_STATUS_OK :: int where "UBUS_HAL_STATUS_OK \<equiv> 0"
abbreviation (input) UBUS_HAL_STATUS_NOT_FOUND :: int where "UBUS_HAL_STATUS_NOT_FOUND \<equiv> 5"
abbreviation (input) UBUS_HAL_STATUS_TIMEOUT :: int where "UBUS_HAL_STATUS_TIMEOUT \<equiv> 7"
abbreviation (input) UBUS_HAL_STATUS_CONN_FAILED :: int where "UBUS_HAL_STATUS_CONN_FAILED \<equiv> 4"
abbreviation (input) UBUS_HAL_STATUS_ERROR :: int where "UBUS_HAL_STATUS_ERROR \<equiv> -1"

abbreviation (input) MAX_PENDING_REQUESTS :: nat where "MAX_PENDING_REQUESTS \<equiv> 16"

datatype 'p ubus_callback =
    Query_Cb string bool bool int 'p
  | Control_Cb string bool int 'p

text \<open>A request, and the request that a callback answers.\<close>

datatype 'p hal_request = Query_Req string 'p | Control_Req string 'p

fun cb_request :: "'p ubus_callback \<Rightarrow> 'p hal_request" where
  "cb_request (Query_Cb service inst run status p) = Query_Req service p"
| "cb_request (Control_Cb service success status p) = Control_Req service p"

definition answered :: "'p ubus_callback list \<Rightarrow> 'p hal_request multiset" where
  "answered cbs = mset (map cb_request cbs)"

lemma answered_simps [simp]:
  "answered [] = {#}" "answered (c # cs) = add_mset (cb_request c) (answered cs)"
  "answered (cs @ ds) = answered cs + answered ds"
  by (simp_all add: answered_def)

text \<open>Service names are shorter than the 32-byte field that stores them.\<close>

abbreviation (input) REQUEST_NAME_LEN :: nat where "REQUEST_NAME_LEN \<equiv> 32"

text \<open>
  The operations table. \<open>'e\<close> is what the environment answers to the calls an operation makes,
  \<open>'h\<close> the module's statics.
\<close>

record ('e, 'p, 'h) ubus_hal_ops =
  query_service_async :: "'e \<Rightarrow> string \<Rightarrow> 'p \<Rightarrow> 'h \<Rightarrow> int \<times> 'p ubus_callback list \<times> 'h"
  control_service_async :: "'e \<Rightarrow> string \<Rightarrow> bool \<Rightarrow> 'p \<Rightarrow> 'h \<Rightarrow> int \<times> 'p ubus_callback list \<times> 'h"

section \<open>Tables of request slots\<close>

text \<open>Both implementations keep requests in an array of slots; the first free one is taken.\<close>

definition first_free :: "('s \<Rightarrow> bool) \<Rightarrow> 's list \<Rightarrow> nat option" where
  "first_free used ss = first_index (\<lambda>s. \<not> used s) ss"

lemma first_free_Some:
  "first_free used ss = Some i \<Longrightarrow> i < length ss \<and> \<not> used (ss ! i)"
  unfolding first_free_def using first_index_Some by fast

text \<open>The requests \<open>tok\<close> of the slots in use.\<close>

definition slot_tokens :: "('s \<Rightarrow> bool) \<Rightarrow> ('s \<Rightarrow> 'r option) \<Rightarrow> 's list \<Rightarrow> 'r multiset" where
  "slot_tokens used tok ss = mset (List.map_filter (\<lambda>s. if used s then tok s else None) ss)"

definition slot_token :: "('s \<Rightarrow> bool) \<Rightarrow> ('s \<Rightarrow> 'r option) \<Rightarrow> 's \<Rightarrow> 'r multiset" where
  "slot_token used tok s =
     (if used s then case tok s of None \<Rightarrow> {#} | Some p \<Rightarrow> {#p#} else {#})"

lemma slot_tokens_simps [simp]:
  "slot_tokens used tok [] = {#}"
  "slot_tokens used tok (s # ss) = slot_token used tok s + slot_tokens used tok ss"
  by (simp_all add: slot_tokens_def slot_token_def map_filter_simps split: option.split)

lemma slot_tokens_update:
  "i < length ss \<Longrightarrow>
   slot_tokens used tok (ss[i := s]) + slot_token used tok (ss ! i) =
   slot_tokens used tok ss + slot_token used tok s"
proof (induction ss arbitrary: i)
  case (Cons a ss)
  show ?case
  proof (cases i)
    case (Suc j)
    then have "slot_tokens used tok (ss[j := s]) + slot_token used tok (ss ! j) =
        slot_tokens used tok ss + slot_token used tok s"
      using Cons by simp
    then show ?thesis using Suc by (simp add: ac_simps)
  qed (simp add: ac_simps)
qed simp

lemma slot_tokens_none: "list_all (\<lambda>s. \<not> used s) ss \<Longrightarrow> slot_tokens used tok ss = {#}"
  by (induction ss) (auto simp: slot_token_def)

section \<open>The contract\<close>

text \<open>
  \<open>outstanding\<close> are the requests accepted and not yet answered; \<open>event\<close> is
  everything the event loop calls on the module; \<open>expire\<close> is the list of its timer events.
\<close>

locale ubus_service =
  fixes ops :: "('e, 'p, 'h) ubus_hal_ops"
    and event :: "'v \<Rightarrow> 'h \<Rightarrow> 'p ubus_callback list \<times> 'h"
    and expire :: "'v list"
    and inv :: "'h \<Rightarrow> bool"
    and ready :: "'h \<Rightarrow> bool"
    and outstanding :: "'h \<Rightarrow> 'p hal_request multiset"
  assumes not_ready:
      "\<not> ready h \<Longrightarrow> query_service_async ops e n p h = (-1, [], h)"
      "\<not> ready h \<Longrightarrow> control_service_async ops e n b p h = (-1, [], h)"
    and query_law:
      "\<lbrakk>inv h; ready h; length n < REQUEST_NAME_LEN;
        query_service_async ops e n p h = (r, cbs, h')\<rbrakk> \<Longrightarrow>
       r = 0 \<and> inv h' \<and> ready h' \<and>
       outstanding h' + answered cbs = add_mset (Query_Req n p) (outstanding h)"
    and control_law:
      "\<lbrakk>inv h; ready h; length n < REQUEST_NAME_LEN;
        control_service_async ops e n b p h = (r, cbs, h')\<rbrakk> \<Longrightarrow>
       r = 0 \<and> inv h' \<and> ready h' \<and>
       outstanding h' + answered cbs = add_mset (Control_Req n p) (outstanding h)"
    and event_law:
      "\<lbrakk>inv h; event v h = (cbs, h')\<rbrakk> \<Longrightarrow>
       inv h' \<and> ready h' = ready h \<and> outstanding h' + answered cbs = outstanding h"
    and expire_law:
      "inv h \<Longrightarrow> outstanding (fold (\<lambda>v h. snd (event v h)) expire h) = {#}"

text \<open>What a client and the event loop do, and the calls and state that result.\<close>

datatype ('e, 'p, 'v) hal_action =
    Query_Service 'e string 'p
  | Control_Service 'e string bool 'p
  | Loop_Event 'v

fun hal_act ::
  "('e, 'p, 'h) ubus_hal_ops \<Rightarrow> ('v \<Rightarrow> 'h \<Rightarrow> 'p ubus_callback list \<times> 'h) \<Rightarrow>
   ('e, 'p, 'v) hal_action \<Rightarrow> 'h \<Rightarrow> 'p ubus_callback list \<times> 'h" where
  "hal_act ops event (Query_Service e n p) h = snd (query_service_async ops e n p h)"
| "hal_act ops event (Control_Service e n b p) h = snd (control_service_async ops e n b p h)"
| "hal_act ops event (Loop_Event v) h = event v h"

fun hal_run ::
  "('e, 'p, 'h) ubus_hal_ops \<Rightarrow> ('v \<Rightarrow> 'h \<Rightarrow> 'p ubus_callback list \<times> 'h) \<Rightarrow>
   ('e, 'p, 'v) hal_action list \<Rightarrow> 'h \<Rightarrow> 'p ubus_callback list \<times> 'h" where
  "hal_run ops event [] h = ([], h)"
| "hal_run ops event (a # as) h =
     (let (cbs, h') = hal_act ops event a h; (cbs', h'') = hal_run ops event as h'
      in (cbs @ cbs', h''))"

fun names_fit :: "('e, 'p, 'v) hal_action list \<Rightarrow> bool" where
  "names_fit [] \<longleftrightarrow> True"
| "names_fit (Query_Service e n p # as) \<longleftrightarrow> length n < REQUEST_NAME_LEN \<and> names_fit as"
| "names_fit (Control_Service e n b p # as) \<longleftrightarrow> length n < REQUEST_NAME_LEN \<and> names_fit as"
| "names_fit (Loop_Event v # as) \<longleftrightarrow> names_fit as"

fun requested :: "('e, 'p, 'v) hal_action list \<Rightarrow> 'p hal_request multiset" where
  "requested [] = {#}"
| "requested (Query_Service e n p # as) = add_mset (Query_Req n p) (requested as)"
| "requested (Control_Service e n b p # as) = add_mset (Control_Req n p) (requested as)"
| "requested (Loop_Event v # as) = requested as"

lemma requested_events [simp]:
  "requested (as @ map Loop_Event vs) = requested as"
  "names_fit (as @ map Loop_Event vs) = names_fit as"
proof -
  have e: "requested (map Loop_Event vs) = {#}" "names_fit (map Loop_Event vs)"
    by (induction vs) simp_all
  show "requested (as @ map Loop_Event vs) = requested as"
    "names_fit (as @ map Loop_Event vs) = names_fit as"
    by (induction as rule: requested.induct) (simp_all add: e)
qed

context ubus_service
begin

lemma act_law:
  assumes "inv h" and "ready h" and "names_fit [a]" and "hal_act ops event a h = (cbs, h')"
  shows "inv h' \<and> ready h' \<and> outstanding h' + answered cbs = requested [a] + outstanding h"
proof (cases a)
  case (Query_Service e n p)
  obtain r where "query_service_async ops e n p h = (r, cbs, h')"
    using assms(4) Query_Service by (cases "query_service_async ops e n p h") auto
  from query_law[OF assms(1,2) _ this] show ?thesis using Query_Service assms(3) by simp
next
  case (Control_Service e n b p)
  obtain r where "control_service_async ops e n b p h = (r, cbs, h')"
    using assms(4) Control_Service by (cases "control_service_async ops e n b p h") auto
  from control_law[OF assms(1,2) _ this] show ?thesis using Control_Service assms(3) by simp
next
  case (Loop_Event v)
  then show ?thesis using event_law[OF assms(1), of v cbs h'] assms by simp
qed

lemma requested_Cons: "requested (a # as) = requested [a] + requested as"
  "names_fit (a # as) \<longleftrightarrow> names_fit [a] \<and> names_fit as"
  by (cases a; simp)+

text \<open>Requests are neither lost nor answered twice.\<close>

lemma run_conserves:
  assumes "inv h" and "ready h" and "names_fit as" and "hal_run ops event as h = (cbs, h')"
  shows "inv h' \<and> ready h' \<and> outstanding h' + answered cbs = requested as + outstanding h"
  using assms
proof (induction as arbitrary: h cbs)
  case (Cons a as)
  have f: "names_fit [a]" "names_fit as" using Cons.prems(3) requested_Cons(2)[of a as] by simp_all
  obtain c1 h1 where 1: "hal_act ops event a h = (c1, h1)" by force
  obtain c2 where 2: "hal_run ops event as h1 = (c2, h')" and c: "cbs = c1 @ c2"
    using Cons.prems(4) 1 by (auto split: prod.splits)
  have a: "inv h1" "ready h1" "outstanding h1 + answered c1 = requested [a] + outstanding h"
    using act_law[OF Cons.prems(1,2) f(1) 1] by simp_all
  have b: "inv h'" "ready h'" "outstanding h' + answered c2 = requested as + outstanding h1"
    using Cons.IH[OF a(1,2) f(2) 2] by simp_all
  have "outstanding h' + answered cbs = answered c1 + (outstanding h' + answered c2)"
    unfolding c by (simp add: ac_simps)
  also have "\<dots> = requested as + (outstanding h1 + answered c1)" unfolding b(3) by (simp add: ac_simps)
  also have "\<dots> = requested (a # as) + outstanding h"
    unfolding a(3) by (subst requested_Cons(1)) (simp add: ac_simps)
  finally show ?case using b by simp
qed simp

lemma hal_run_events:
  "snd (hal_run ops event (map Loop_Event vs) h) = fold (\<lambda>v h. snd (event v h)) vs h"
  by (induction vs arbitrary: h) (simp_all add: case_prod_beta)

lemma hal_run_append:
  "hal_run ops event (as @ bs) h =
     (let (c1, h1) = hal_run ops event as h; (c2, h2) = hal_run ops event bs h1 in (c1 @ c2, h2))"
  by (induction as arbitrary: h) (auto simp: Let_def split: prod.split)

text \<open>Once the timers have run, every request has been answered, exactly once.\<close>

lemma answered_exactly_once:
  assumes "inv h" and "ready h" and "outstanding h = {#}" and fit: "names_fit as"
  shows "answered (fst (hal_run ops event (as @ map Loop_Event expire) h)) = requested as"
proof -
  obtain c1 h1 where 1: "hal_run ops event as h = (c1, h1)" by force
  obtain c h' where r: "hal_run ops event (as @ map Loop_Event expire) h = (c, h')" by force
  have i: "inv h1" using run_conserves[OF assms(1,2) fit 1] by simp
  have "h' = fold (\<lambda>v h. snd (event v h)) expire h1"
    using r 1 hal_run_events[of expire h1] by (auto simp: hal_run_append split: prod.splits)
  then have "outstanding h' = {#}" using expire_law[OF i] by simp
  then show ?thesis using run_conserves[OF assms(1,2) _ r] r assms(3) fit by simp
qed

end

end
