(* ===== verification/Ubus_Real.thy ===== *)
theory Ubus_Real
  imports Ubus_Hal
begin

text \<open>
  The implementation of the service interface over ubus (\<open>src/hal/ubus_hal_real.c\<close>):
  a table of sixteen request slots, a time-out timer per slot, and a connection that is
  re-established lazily with exponential backoff. libubus is third-party code: what its
  calls return is the environment of an operation, and its calls into this module are
  events. The context pointer \<open>g_ctx\<close> is whether it is non-NULL.
\<close>

abbreviation (input) BACKOFF_BASE_SEC :: int where "BACKOFF_BASE_SEC \<equiv> 1"
abbreviation (input) BACKOFF_MAX_SEC :: int where "BACKOFF_MAX_SEC \<equiv> 60"
abbreviation (input) TIMEOUT_RESET_THRESHOLD :: int where "TIMEOUT_RESET_THRESHOLD \<equiv> 3"

datatype request_type = REQ_TYPE_QUERY | REQ_TYPE_CONTROL

text \<open>
  A slot. \<open>pr_cb\<close> is the callback of the union with its \<open>priv\<close>, \<open>pr_timer\<close> whether
  the slot's uloop timer is armed.
\<close>

record 'p pending_request =
  pr_service :: string
  pr_type :: request_type
  pr_cb :: "'p option"
  in_use :: bool
  completed :: bool
  pr_installed :: bool
  pr_running :: bool
  pr_start_op :: bool
  pr_timer :: bool

text \<open>The module's statics; \<open>ubus_ub\<close> records an undefined shift.\<close>

record 'p ubus_real =
  g_ctx :: bool
  g_rc_id :: u32
  g_pending :: "'p pending_request list"
  ubus_initialized :: bool
  g_consecutive_failures :: int
  g_last_attempt_time :: int
  ubus_ub :: bool

text \<open>
  The environment of one operation: the two readings of \<open>time (NULL)\<close>, whether
  \<open>ubus_connect\<close> succeeds, the result and the id of \<open>ubus_lookup_id\<close>, and the result of
  \<open>ubus_invoke_async\<close>.
\<close>

record ubus_env =
  time_check :: int
  time_attempt :: int
  connect_ok :: bool
  lookup_ret :: int
  lookup_id :: u32
  invoke_ret :: int

section \<open>Slots\<close>

text \<open>The slot after \<open>memset\<close> and the assignments of \<open>alloc_request\<close>.\<close>

definition fresh_request :: "'p pending_request" where
  "fresh_request = \<lparr>pr_service = [], pr_type = REQ_TYPE_QUERY, pr_cb = None, in_use = True,
     completed = False, pr_installed = False, pr_running = False, pr_start_op = False,
     pr_timer = False\<rparr>"

definition upd_slot ::
  "nat \<Rightarrow> ('p pending_request \<Rightarrow> 'p pending_request) \<Rightarrow> 'p ubus_real \<Rightarrow> 'p ubus_real" where
  "upd_slot i f h = h\<lparr>g_pending := (g_pending h)[i := f (g_pending h ! i)]\<rparr>"

definition alloc_request :: "'p ubus_real \<Rightarrow> (nat \<times> 'p ubus_real) option" where
  "alloc_request h =
     (case first_free in_use (g_pending h) of
        None \<Rightarrow> None
      | Some i \<Rightarrow> Some (i, upd_slot i (\<lambda>_. fresh_request) h))"

definition release_request :: "nat \<Rightarrow> 'p ubus_real \<Rightarrow> 'p ubus_real" where
  "release_request i h = upd_slot i (\<lambda>preq. preq\<lparr>pr_timer := False, in_use := False\<rparr>) h"

text \<open>Calling the stored callback, if there is one: with an error, or with the result.\<close>

definition fail_cb :: "int \<Rightarrow> 'p pending_request \<Rightarrow> 'p ubus_callback list" where
  "fail_cb status preq =
     (case pr_cb preq of
        None \<Rightarrow> []
      | Some p \<Rightarrow> if pr_type preq = REQ_TYPE_QUERY
                  then [Query_Cb (pr_service preq) False False status p]
                  else [Control_Cb (pr_service preq) False status p])"

definition result_cb :: "int \<Rightarrow> 'p pending_request \<Rightarrow> 'p ubus_callback list" where
  "result_cb status preq =
     (case pr_cb preq of
        None \<Rightarrow> []
      | Some p \<Rightarrow> if pr_type preq = REQ_TYPE_QUERY
                  then [Query_Cb (pr_service preq) (pr_installed preq) (pr_running preq) status p]
                  else [Control_Cb (pr_service preq) (status = UBUS_HAL_STATUS_OK) status p])"

section \<open>Connection\<close>

text \<open>
  \<open>get_backoff_delay\<close>: \<open>None\<close> when the left shift of the \<open>int\<close> 1 is undefined, that is when
  \<open>1 << n\<close> is not representable.
\<close>

definition get_backoff_delay :: "int \<Rightarrow> int option" where
  "get_backoff_delay failures =
     (if failures = 0 then Some 0
      else
        let n = failures - 1 in
        if n < 0 \<or> 31 \<le> n then None
        else
          let delay = BACKOFF_BASE_SEC * 2 ^ nat n
          in Some (if delay > BACKOFF_MAX_SEC then BACKOFF_MAX_SEC else delay))"

text \<open>The loop of \<open>abort_all_pending\<close> over the slots.\<close>

fun abort_slots ::
  "int \<Rightarrow> 'p pending_request list \<Rightarrow> 'p ubus_callback list \<times> 'p pending_request list" where
  "abort_slots status [] = ([], [])"
| "abort_slots status (preq # slots) =
     (let (cbs, slots') = abort_slots status slots in
      if in_use preq \<and> \<not> completed preq
      then (fail_cb status preq @ cbs,
            preq\<lparr>completed := True, pr_timer := False, in_use := False\<rparr> # slots')
      else (cbs, preq # slots'))"

definition abort_all_pending :: "int \<Rightarrow> 'p ubus_real \<Rightarrow> 'p ubus_callback list \<times> 'p ubus_real" where
  "abort_all_pending status h =
     (let (cbs, slots) = abort_slots status (g_pending h) in (cbs, h\<lparr>g_pending := slots\<rparr>))"

definition reset_connection :: "'p ubus_real \<Rightarrow> 'p ubus_callback list \<times> 'p ubus_real" where
  "reset_connection h =
     (let (cbs, h) = abort_all_pending UBUS_HAL_STATUS_CONN_FAILED h
      in (cbs, h\<lparr>g_ctx := False, g_rc_id := 0\<rparr>))"

text \<open>The connection attempt of \<open>ensure_context\<close>, made when no context exists and it is due.\<close>

definition connect_now :: "ubus_env \<Rightarrow> 'p ubus_real \<Rightarrow> int \<times> 'p ubus_real" where
  "connect_now e h =
     (let h = h\<lparr>g_last_attempt_time := time_attempt e, g_ctx := connect_ok e\<rparr> in
      if \<not> g_ctx h
      then (-1, h\<lparr>g_rc_id := 0, g_consecutive_failures := g_consecutive_failures h + 1\<rparr>)
      else (0, h\<lparr>g_consecutive_failures := 0\<rparr>))"

definition ensure_context :: "ubus_env \<Rightarrow> 'p ubus_real \<Rightarrow> int \<times> 'p ubus_real" where
  "ensure_context e h =
     (if g_ctx h then (0, h)
      else if g_consecutive_failures h > 0 then
        (case get_backoff_delay (g_consecutive_failures h) of
           None \<Rightarrow> connect_now e (h\<lparr>ubus_ub := True\<rparr>)
         | Some delay \<Rightarrow>
             if time_check e - g_last_attempt_time h < delay then (-1, h) else connect_now e h)
      else connect_now e h)"

text \<open>\<open>ubus_lookup_id\<close> stores the id only when it succeeds.\<close>

definition ensure_rc_id ::
  "ubus_env \<Rightarrow> 'p ubus_real \<Rightarrow> int \<times> 'p ubus_callback list \<times> 'p ubus_real" where
  "ensure_rc_id e h =
     (let (r, h) = ensure_context e h in
      if r < 0 then (-1, [], h)
      else if g_rc_id h \<noteq> 0 then (0, [], h)
      else if lookup_ret e \<noteq> 0 then
        let (cbs, h) = reset_connection h in (-1, cbs, h)
      else (0, [], h\<lparr>g_rc_id := lookup_id e\<rparr>))"

section \<open>Events\<close>

text \<open>
  The timer of slot \<open>i\<close> fires. uloop disarms a timer before it calls its callback. The slot
  is marked completed before the connection is reset, so the reset skips it.
\<close>

definition request_timeout_cb :: "nat \<Rightarrow> 'p ubus_real \<Rightarrow> 'p ubus_callback list \<times> 'p ubus_real" where
  "request_timeout_cb i h =
     (let h = upd_slot i (\<lambda>preq. preq\<lparr>pr_timer := False\<rparr>) h; preq = g_pending h ! i in
      if \<not> in_use preq \<or> completed preq then ([], h)
      else
        let h = upd_slot i (\<lambda>preq. preq\<lparr>completed := True\<rparr>) h;
            h = h\<lparr>g_consecutive_failures := g_consecutive_failures h + 1\<rparr>;
            (cbs, h) = (if g_consecutive_failures h \<ge> TIMEOUT_RESET_THRESHOLD
                        then reset_connection h else ([], h\<lparr>g_rc_id := 0\<rparr>))
        in (cbs @ fail_cb UBUS_HAL_STATUS_TIMEOUT preq,
            upd_slot i (\<lambda>preq. preq\<lparr>in_use := False\<rparr>) h))"

text \<open>
  A reply as blobmsg presents it: named attributes, a table giving the value of its
  \<open>running\<close> field if it has one of boolean type. The loop stops at the first table of the
  requested name.
\<close>

datatype blob_attr = Blob_Table "bool option" | Blob_Other

fun scan_reply :: "string \<Rightarrow> (string \<times> blob_attr) list \<Rightarrow> bool option option" where
  "scan_reply service [] = None"
| "scan_reply service ((n, Blob_Other) # attrs) = scan_reply service attrs"
| "scan_reply service ((n, Blob_Table r) # attrs) =
     (if n \<noteq> service then scan_reply service attrs else Some r)"

definition query_data_cb :: "nat \<Rightarrow> (string \<times> blob_attr) list option \<Rightarrow> 'p ubus_real \<Rightarrow> 'p ubus_real" where
  "query_data_cb i msg h =
     (case msg of
        None \<Rightarrow> h
      | Some attrs \<Rightarrow>
          (case scan_reply (pr_service (g_pending h ! i)) attrs of
             None \<Rightarrow> h
           | Some r \<Rightarrow>
               upd_slot i (\<lambda>preq. (preq\<lparr>pr_installed := True\<rparr>)
                 \<lparr>pr_running := if r = Some True then True else pr_running preq\<rparr>) h))"

text \<open>The status codes of libubus that \<open>query_complete_cb\<close> distinguishes.\<close>

datatype ubus_status =
    UBUS_STATUS_OK | UBUS_STATUS_TIMEOUT | UBUS_STATUS_NOT_FOUND | UBUS_STATUS_CONNECTION_FAILED
  | UBUS_STATUS_INVALID_ARGUMENT | UBUS_STATUS_OTHER

fun map_status :: "ubus_status \<Rightarrow> 'p ubus_real \<Rightarrow> int \<times> 'p ubus_real" where
  "map_status UBUS_STATUS_OK h = (UBUS_HAL_STATUS_OK, h\<lparr>g_consecutive_failures := 0\<rparr>)"
| "map_status UBUS_STATUS_TIMEOUT h = (UBUS_HAL_STATUS_TIMEOUT, h)"
| "map_status UBUS_STATUS_NOT_FOUND h = (UBUS_HAL_STATUS_NOT_FOUND, h\<lparr>g_rc_id := 0\<rparr>)"
| "map_status UBUS_STATUS_CONNECTION_FAILED h =
     (UBUS_HAL_STATUS_CONN_FAILED,
      h\<lparr>g_consecutive_failures := g_consecutive_failures h + 1, g_rc_id := 0\<rparr>)"
| "map_status UBUS_STATUS_INVALID_ARGUMENT h = (UBUS_HAL_STATUS_ERROR, h\<lparr>g_rc_id := 0\<rparr>)"
| "map_status UBUS_STATUS_OTHER h = (UBUS_HAL_STATUS_ERROR, h)"

definition query_complete_cb ::
  "nat \<Rightarrow> ubus_status \<Rightarrow> 'p ubus_real \<Rightarrow> 'p ubus_callback list \<times> 'p ubus_real" where
  "query_complete_cb i ret h =
     (let preq = g_pending h ! i in
      if \<not> in_use preq \<or> completed preq then ([], h)
      else
        let h = upd_slot i (\<lambda>preq. preq\<lparr>completed := True, pr_timer := False\<rparr>) h;
            (status, h) = map_status ret h
        in (result_cb status preq, upd_slot i (\<lambda>preq. preq\<lparr>in_use := False\<rparr>) h))"

section \<open>The operations\<close>

definition real_init :: "ubus_env \<Rightarrow> 'p ubus_real \<Rightarrow> int \<times> 'p ubus_real" where
  "real_init e h =
     (if ubus_initialized h then (0, h)
      else
        let h = h\<lparr>g_pending := replicate MAX_PENDING_REQUESTS (fresh_request\<lparr>in_use := False\<rparr>)\<rparr>;
            (_, h) = ensure_context e h
        in (0, h\<lparr>ubus_initialized := True\<rparr>))"

definition cleanup_slot :: "'p pending_request \<Rightarrow> 'p pending_request" where
  "cleanup_slot preq =
     (if in_use preq then preq\<lparr>completed := True, pr_timer := False, in_use := False\<rparr> else preq)"

definition real_cleanup :: "'p ubus_real \<Rightarrow> 'p ubus_real" where
  "real_cleanup h =
     (if \<not> ubus_initialized h then h
      else h\<lparr>g_pending := map cleanup_slot (g_pending h), g_ctx := False, g_rc_id := 0,
             ubus_initialized := False\<rparr>)"

text \<open>
  The common course of a request: reject, answer at once when there is no connection or no
  slot, store the request, send it, and arm its timer.
\<close>

definition real_query_service_async ::
  "ubus_env \<Rightarrow> string \<Rightarrow> 'p \<Rightarrow> 'p ubus_real \<Rightarrow> int \<times> 'p ubus_callback list \<times> 'p ubus_real" where
  "real_query_service_async e name p h =
     (if \<not> ubus_initialized h then (-1, [], h)
      else
        let (r, cbs, h) = ensure_rc_id e h in
        if r < 0 then (0, cbs @ [Query_Cb name False False UBUS_HAL_STATUS_CONN_FAILED p], h)
        else case alloc_request h of
          None \<Rightarrow> (0, cbs @ [Query_Cb name False False UBUS_HAL_STATUS_ERROR p], h)
        | Some (i, h) \<Rightarrow>
            let h = upd_slot i (\<lambda>preq. preq\<lparr>pr_service := bounded_copy 32 name,
                      pr_type := REQ_TYPE_QUERY, pr_cb := Some p, pr_installed := False,
                      pr_running := False\<rparr>) h in
            if invoke_ret e \<noteq> 0
            then (0, cbs @ [Query_Cb name False False UBUS_HAL_STATUS_ERROR p], release_request i h)
            else (0, cbs, upd_slot i (\<lambda>preq. preq\<lparr>pr_timer := True\<rparr>) h))"

definition real_control_service_async ::
  "ubus_env \<Rightarrow> string \<Rightarrow> bool \<Rightarrow> 'p \<Rightarrow> 'p ubus_real \<Rightarrow>
   int \<times> 'p ubus_callback list \<times> 'p ubus_real" where
  "real_control_service_async e name start p h =
     (if \<not> ubus_initialized h then (-1, [], h)
      else
        let (r, cbs, h) = ensure_rc_id e h in
        if r < 0 then (0, cbs @ [Control_Cb name False UBUS_HAL_STATUS_CONN_FAILED p], h)
        else case alloc_request h of
          None \<Rightarrow> (0, cbs @ [Control_Cb name False UBUS_HAL_STATUS_ERROR p], h)
        | Some (i, h) \<Rightarrow>
            let h = upd_slot i (\<lambda>preq. preq\<lparr>pr_service := bounded_copy 32 name,
                      pr_type := REQ_TYPE_CONTROL, pr_cb := Some p, pr_start_op := start\<rparr>) h in
            if invoke_ret e \<noteq> 0
            then (0, cbs @ [Control_Cb name False UBUS_HAL_STATUS_ERROR p], release_request i h)
            else (0, cbs, upd_slot i (\<lambda>preq. preq\<lparr>pr_timer := True\<rparr>) h))"

text \<open>The loop of \<open>real_query_services_async\<close>; each name has its own environment.\<close>

fun real_query_services_async ::
  "(ubus_env \<times> string option) list \<Rightarrow> 'p \<Rightarrow> 'p ubus_real \<Rightarrow>
   int \<times> 'p ubus_callback list \<times> 'p ubus_real" where
  "real_query_services_async [] p h = (if \<not> ubus_initialized h then -1 else 0, [], h)"
| "real_query_services_async ((e, name) # names) p h =
     (if \<not> ubus_initialized h then (-1, [], h)
      else case name of
        None \<Rightarrow> real_query_services_async names p h
      | Some n \<Rightarrow>
          let (r, cbs, h) = real_query_service_async e n p h in
          if r < 0 then (-1, cbs, h)
          else let (r', cbs', h') = real_query_services_async names p h in (r', cbs @ cbs', h'))"

definition real_ops :: "(ubus_env, 'p, 'p ubus_real) ubus_hal_ops" where
  "real_ops = \<lparr>query_service_async = real_query_service_async,
     control_service_async = real_control_service_async\<rparr>"

text \<open>
  What the event loop delivers: an armed timer, or a reply or completion of the request in
  a slot.
\<close>

datatype real_event =
    Ev_Timer nat
  | Ev_Data nat "(string \<times> blob_attr) list option"
  | Ev_Complete nat ubus_status

fun real_dispatch :: "real_event \<Rightarrow> 'p ubus_real \<Rightarrow> 'p ubus_callback list \<times> 'p ubus_real" where
  "real_dispatch (Ev_Timer i) h =
     (if i < length (g_pending h) \<and> pr_timer (g_pending h ! i) then request_timeout_cb i h else ([], h))"
| "real_dispatch (Ev_Data i msg) h =
     (if i < length (g_pending h) then ([], query_data_cb i msg h) else ([], h))"
| "real_dispatch (Ev_Complete i ret) h =
     (if i < length (g_pending h) then query_complete_cb i ret h else ([], h))"

section \<open>Invariant\<close>

text \<open>
  Between operations, a slot in use waits for its answer with its timer armed and a
  callback stored, and without a connection no slot is in use.
\<close>

definition slot_ok :: "'p pending_request \<Rightarrow> bool" where
  [wf_defs]: "slot_ok s \<longleftrightarrow> in_use s \<longrightarrow> \<not> completed s \<and> pr_timer s \<and> pr_cb s \<noteq> None"

definition real_inv :: "'p ubus_real \<Rightarrow> bool" where
  [wf_defs]: "real_inv h \<longleftrightarrow>
     length (g_pending h) = MAX_PENDING_REQUESTS \<and> list_all slot_ok (g_pending h) \<and>
     (\<not> g_ctx h \<longrightarrow> list_all (\<lambda>s. \<not> in_use s) (g_pending h))"

definition pr_request :: "'p pending_request \<Rightarrow> 'p hal_request option" where
  "pr_request s = map_option
     (\<lambda>p. if pr_type s = REQ_TYPE_QUERY then Query_Req (pr_service s) p
          else Control_Req (pr_service s) p) (pr_cb s)"

definition real_outstanding :: "'p ubus_real \<Rightarrow> 'p hal_request multiset" where
  "real_outstanding h = slot_tokens in_use pr_request (g_pending h)"

lemma upd_slot_sel [simp]:
  "g_pending (upd_slot i f h) = (g_pending h)[i := f (g_pending h ! i)]"
  "g_ctx (upd_slot i f h) = g_ctx h"
  "ubus_initialized (upd_slot i f h) = ubus_initialized h"
  "g_consecutive_failures (upd_slot i f h) = g_consecutive_failures h"
  "g_last_attempt_time (upd_slot i f h) = g_last_attempt_time h"
  "g_rc_id (upd_slot i f h) = g_rc_id h"
  by (simp_all add: upd_slot_def)

lemma fail_cb_tokens: "in_use s \<Longrightarrow> answered (fail_cb status s) = slot_token in_use pr_request s"
  by (simp add: fail_cb_def slot_token_def pr_request_def split: option.split)

lemma result_cb_tokens: "in_use s \<Longrightarrow> answered (result_cb status s) = slot_token in_use pr_request s"
  by (simp add: result_cb_def slot_token_def pr_request_def split: option.split)

lemma pr_request_timer [simp]: "pr_request (s\<lparr>pr_timer := c\<rparr>) = pr_request s"
  by (simp add: pr_request_def cong: if_cong)

lemma slot_token_simps [simp]:
  "\<not> in_use s \<Longrightarrow> slot_token in_use tok s = {#}"
  "slot_token in_use pr_request (s\<lparr>completed := c\<rparr>) = slot_token in_use pr_request s"
  "slot_token in_use pr_request (s\<lparr>pr_timer := c\<rparr>) = slot_token in_use pr_request s"
  "slot_token in_use pr_request (s\<lparr>pr_running := c\<rparr>) = slot_token in_use pr_request s"
  "slot_token in_use pr_request (s\<lparr>pr_installed := c\<rparr>) = slot_token in_use pr_request s"
  by (simp_all add: slot_token_def pr_request_def split: option.split)

subsection \<open>Aborting and resetting\<close>

definition aborted :: "'p pending_request \<Rightarrow> 'p pending_request" where
  "aborted preq = (if in_use preq \<and> \<not> completed preq
     then preq\<lparr>completed := True, pr_timer := False, in_use := False\<rparr> else preq)"

lemma abort_slots_snd: "snd (abort_slots status ss) = map aborted ss"
  by (induction ss) (auto simp: aborted_def case_prod_beta Let_def)

lemma abort_slots_tokens:
  "slot_tokens in_use pr_request (map aborted ss) + answered (fst (abort_slots status ss)) =
   slot_tokens in_use pr_request ss"
proof (induction ss)
  case (Cons s ss)
  then show ?case
    by (auto simp: case_prod_beta Let_def aborted_def fail_cb_tokens ac_simps)
qed simp

lemma reset_connection_sel [simp]:
  "g_pending (snd (reset_connection h)) = map aborted (g_pending h)"
  "g_ctx (snd (reset_connection h)) = False"
  "ubus_initialized (snd (reset_connection h)) = ubus_initialized h"
  "g_consecutive_failures (snd (reset_connection h)) = g_consecutive_failures h"
  "g_last_attempt_time (snd (reset_connection h)) = g_last_attempt_time h"
  using abort_slots_snd[of UBUS_HAL_STATUS_CONN_FAILED "g_pending h"]
  by (simp_all add: reset_connection_def abort_all_pending_def case_prod_beta Let_def)

lemma reset_connection_tokens:
  "real_outstanding (snd (reset_connection h)) + answered (fst (reset_connection h)) =
   real_outstanding h"
  using abort_slots_tokens[of "g_pending h" UBUS_HAL_STATUS_CONN_FAILED]
  by (simp add: real_outstanding_def)
    (simp add: reset_connection_def abort_all_pending_def case_prod_beta Let_def)

lemma aborted_idle: "slot_ok s \<Longrightarrow> \<not> in_use (aborted s) \<and> slot_ok (aborted s)"
  by (auto simp: aborted_def slot_ok_def)

lemma reset_connection_inv:
  assumes "real_inv h"
  shows "real_inv (snd (reset_connection h))"
  using assms by (auto simp: real_inv_def list_all_iff aborted_idle)

subsection \<open>Connecting\<close>

lemma connect_now_frame [simp]:
  "g_pending (snd (connect_now e h)) = g_pending h"
  "ubus_initialized (snd (connect_now e h)) = ubus_initialized h"
  "g_ctx (snd (connect_now e h)) = connect_ok e"
  "fst (connect_now e h) < 0 \<longleftrightarrow> \<not> connect_ok e"
  by (simp_all add: connect_now_def Let_def)

lemma ensure_context_frame [simp]:
  "g_pending (snd (ensure_context e h)) = g_pending h"
  "ubus_initialized (snd (ensure_context e h)) = ubus_initialized h"
  by (simp_all add: ensure_context_def split: option.split)

lemma ensure_context_ctx:
  "fst (ensure_context e h) < 0 \<longleftrightarrow> \<not> g_ctx (snd (ensure_context e h))"
  by (auto simp: ensure_context_def split: option.split)

lemma ensure_context_keeps: "g_ctx h \<Longrightarrow> snd (ensure_context e h) = h"
  by (simp add: ensure_context_def)

lemma ensure_context_inv:
  assumes "real_inv h"
  shows "real_inv (snd (ensure_context e h))"
proof (cases "g_ctx h")
  case True
  then show ?thesis using assms by (simp add: ensure_context_keeps)
next
  case False
  then show ?thesis using assms by (simp add: real_inv_def)
qed

lemma ensure_rc_id_law:
  assumes "real_inv h" and "ensure_rc_id e h = (r, cbs, h')"
  shows "real_inv h' \<and> ubus_initialized h' = ubus_initialized h \<and> (0 \<le> r \<longrightarrow> g_ctx h') \<and>
    real_outstanding h' + answered cbs = real_outstanding h"
proof -
  let ?c = "snd (ensure_context e h)"
  have c: "real_inv ?c" "ubus_initialized ?c = ubus_initialized h"
    "real_outstanding ?c = real_outstanding h"
    using ensure_context_inv[OF assms(1)] by (simp_all add: real_outstanding_def)
  consider (nocon) "fst (ensure_context e h) < 0" "(r, cbs, h') = (-1, [], ?c)"
    | (known) "\<not> fst (ensure_context e h) < 0" "(r, cbs, h') = (0, [], ?c)"
    | (lost) "(r, cbs, h') = (-1, fst (reset_connection ?c), snd (reset_connection ?c))"
    | (found) "\<not> fst (ensure_context e h) < 0" "(r, cbs, h') = (0, [], ?c\<lparr>g_rc_id := lookup_id e\<rparr>)"
    using assms(2) by (auto simp: ensure_rc_id_def Let_def case_prod_beta split: if_splits)
  then show ?thesis
  proof cases
    case nocon
    then show ?thesis using c by simp
  next
    case known
    then show ?thesis using c ensure_context_ctx[of e h] by simp
  next
    case lost
    then have "r = -1" "cbs = fst (reset_connection ?c)" "h' = snd (reset_connection ?c)"
      by (simp_all add: prod_eq_iff)
    then show ?thesis
      using c reset_connection_inv[OF c(1)] reset_connection_tokens[of ?c] by simp
  next
    case found
    then show ?thesis
      using c ensure_context_ctx[of e h] by (simp add: real_inv_def real_outstanding_def)
  qed
qed

subsection \<open>Requests\<close>

lemma alloc_request_Some:
  assumes "alloc_request h = Some (i, h')"
  shows "i < length (g_pending h) \<and> \<not> in_use (g_pending h ! i) \<and>
    h' = upd_slot i (\<lambda>_. fresh_request) h"
  using assms first_free_Some[of in_use "g_pending h" i]
  by (auto simp: alloc_request_def split: option.splits)

text \<open>Filling a free slot with a waiting request, or leaving it free.\<close>

lemma fill_slot_law:
  assumes inv: "real_inv h" and i: "i < length (g_pending h)" and free: "\<not> in_use (g_pending h ! i)"
    and s: "in_use s" "\<not> completed s" "pr_timer s" "pr_request s = Some p" and ctx: "g_ctx h"
    and h': "g_pending h' = (g_pending h)[i := s]" "g_ctx h' = g_ctx h"
  shows "real_inv h' \<and> real_outstanding h' = add_mset p (real_outstanding h)"
proof
  show "real_inv h'"
    using inv s ctx h' by (auto simp: real_inv_def slot_ok_def pr_request_def intro!: list_all_update)
  show "real_outstanding h' = add_mset p (real_outstanding h)"
    using slot_tokens_update[OF i, of in_use pr_request s] free s
    by (simp add: real_outstanding_def h' slot_token_def)
qed

lemma free_slot_law:
  assumes inv: "real_inv h" and i: "i < length (g_pending h)" and free: "\<not> in_use (g_pending h ! i)"
    and s: "\<not> in_use s" and h': "g_pending h' = (g_pending h)[i := s]" "g_ctx h' = g_ctx h"
  shows "real_inv h' \<and> real_outstanding h' = real_outstanding h"
proof
  show "real_inv h'"
    using inv s h' by (auto simp: real_inv_def slot_ok_def intro!: list_all_update)
  show "real_outstanding h' = real_outstanding h"
    using slot_tokens_update[OF i, of in_use pr_request s] free s
    by (simp add: real_outstanding_def h')
qed

text \<open>The common course of the two requests, whatever the stored fields and the error calls.\<close>

lemma request_law:
  assumes inv: "real_inv h" and ready: "ubus_initialized h"
    and e: "ensure_rc_id e h = (r1, c1, h1)"
    and run: "(r, cbs, h') =
      (if r1 < 0 then (0, c1 @ [cb_a], h1)
       else case alloc_request h1 of
         None \<Rightarrow> (0, c1 @ [cb_b], h1)
       | Some (i, h) \<Rightarrow>
           let h = upd_slot i f h in
           if invoke_ret e \<noteq> 0 then (0, c1 @ [cb_b], release_request i h)
           else (0, c1, upd_slot i (\<lambda>preq. preq\<lparr>pr_timer := True\<rparr>) h))"
    and tok: "cb_request cb_a = p" "cb_request cb_b = p"
    and f: "in_use (f fresh_request)" "\<not> completed (f fresh_request)"
      "pr_request (f fresh_request) = Some p"
  shows "r = 0 \<and> real_inv h' \<and> ubus_initialized h' \<and>
    real_outstanding h' + answered cbs = add_mset p (real_outstanding h)"
proof -
  note l = ensure_rc_id_law[OF inv e]
  consider (conn) "r1 < 0" | (full) "\<not> r1 < 0" "alloc_request h1 = None"
    | (slot) i h2 where "\<not> r1 < 0" "alloc_request h1 = Some (i, h2)" by fastforce
  then show ?thesis
  proof cases
    case conn
    then show ?thesis using run ready l tok by simp
  next
    case full
    then show ?thesis using run ready l tok by simp
  next
    case (slot i h2)
    note i = alloc_request_Some[OF slot(2)]
    have ctx: "g_ctx h1" using l slot(1) by simp
    show ?thesis
    proof (cases "invoke_ret e = 0")
      case True
      let ?h = "upd_slot i (\<lambda>preq. preq\<lparr>pr_timer := True\<rparr>) (upd_slot i f h2)"
      have "real_inv ?h \<and> real_outstanding ?h = add_mset p (real_outstanding h1)"
        using i f l
        by (intro fill_slot_law[OF _ _ _ _ _ _ _ ctx,
              where i = i and s = "(f fresh_request)\<lparr>pr_timer := True\<rparr>"])
          simp_all
      then show ?thesis using run ready l slot i True by simp
    next
      case False
      let ?h = "release_request i (upd_slot i f h2)"
      have "real_inv ?h \<and> real_outstanding ?h = real_outstanding h1"
        using i l
        by (intro free_slot_law[where i = i
              and s = "(f fresh_request)\<lparr>pr_timer := False, in_use := False\<rparr>"])
          (simp_all add: release_request_def)
      then show ?thesis using run ready l slot i False tok by (simp add: release_request_def)
    qed
  qed
qed

lemma query_law_real:
  assumes "real_inv h" and "ubus_initialized h" and "length n < REQUEST_NAME_LEN"
    and "real_query_service_async e n p h = (r, cbs, h')"
  shows "r = 0 \<and> real_inv h' \<and> ubus_initialized h' \<and>
    real_outstanding h' + answered cbs = add_mset (Query_Req n p) (real_outstanding h)"
proof -
  obtain r1 c1 h1 where 1: "ensure_rc_id e h = (r1, c1, h1)" by (cases "ensure_rc_id e h") auto
  show ?thesis
    by (rule request_law[OF assms(1,2) 1,
          where cb_a = "Query_Cb n False False UBUS_HAL_STATUS_CONN_FAILED p"
            and cb_b = "Query_Cb n False False UBUS_HAL_STATUS_ERROR p"
            and f = "\<lambda>preq. preq\<lparr>pr_service := bounded_copy 32 n,
                      pr_type := REQ_TYPE_QUERY, pr_cb := Some p, pr_installed := False,
                      pr_running := False\<rparr>"])
      (use assms(2-) in \<open>simp_all add: real_query_service_async_def 1 fresh_request_def Let_def
        pr_request_def bounded_copy_fits\<close>)
qed

lemma control_law_real:
  assumes "real_inv h" and "ubus_initialized h" and "length n < REQUEST_NAME_LEN"
    and "real_control_service_async e n b p h = (r, cbs, h')"
  shows "r = 0 \<and> real_inv h' \<and> ubus_initialized h' \<and>
    real_outstanding h' + answered cbs = add_mset (Control_Req n p) (real_outstanding h)"
proof -
  obtain r1 c1 h1 where 1: "ensure_rc_id e h = (r1, c1, h1)" by (cases "ensure_rc_id e h") auto
  show ?thesis
    by (rule request_law[OF assms(1,2) 1,
          where cb_a = "Control_Cb n False UBUS_HAL_STATUS_CONN_FAILED p"
            and cb_b = "Control_Cb n False UBUS_HAL_STATUS_ERROR p"
            and f = "\<lambda>preq. preq\<lparr>pr_service := bounded_copy 32 n,
                      pr_type := REQ_TYPE_CONTROL, pr_cb := Some p, pr_start_op := b\<rparr>"])
      (use assms(2-) in \<open>simp_all add: real_control_service_async_def 1 fresh_request_def Let_def
        pr_request_def bounded_copy_fits\<close>)
qed

subsection \<open>Events\<close>

lemma outstanding_upd:
  assumes "i < length (g_pending h)"
  shows "real_outstanding (upd_slot i f h) + slot_token in_use pr_request (g_pending h ! i) =
    real_outstanding h + slot_token in_use pr_request (f (g_pending h ! i))"
  using slot_tokens_update[OF assms] by (simp add: real_outstanding_def)

lemma outstanding_upd_same:
  assumes "i < length (g_pending h)"
    and "slot_token in_use pr_request (f (g_pending h ! i)) = slot_token in_use pr_request (g_pending h ! i)"
  shows "real_outstanding (upd_slot i f h) = real_outstanding h"
  using outstanding_upd[OF assms(1), of f] assms(2) by simp

lemma outstanding_cong: "g_pending h' = g_pending h \<Longrightarrow> real_outstanding h' = real_outstanding h"
  by (simp add: real_outstanding_def)

text \<open>
  What the time-out leaves in the table: its own slot free; the others as they were, or,
  after a reset, aborted.
\<close>

lemma timeout_slots:
  assumes i: "i < length (g_pending h)"
  shows "g_pending (snd (request_timeout_cb i h)) =
    (let s = (g_pending h ! i)\<lparr>pr_timer := False\<rparr>; slots = (g_pending h)[i := s] in
     if \<not> in_use s \<or> completed s then slots
     else (if g_consecutive_failures h + 1 \<ge> TIMEOUT_RESET_THRESHOLD
           then map aborted slots else slots)[i := s\<lparr>completed := True, in_use := False\<rparr>])"
  using i by (simp add: request_timeout_cb_def Let_def aborted_def case_prod_beta map_update)

lemma timeout_tokens:
  assumes i: "i < length (g_pending h)"
  shows "real_outstanding (snd (request_timeout_cb i h)) + answered (fst (request_timeout_cb i h)) =
    real_outstanding h"
proof -
  let ?s = "(g_pending h ! i)\<lparr>pr_timer := False\<rparr>"
  let ?h = "upd_slot i (\<lambda>preq. preq\<lparr>pr_timer := False\<rparr>) h"
  have h: "real_outstanding ?h = real_outstanding h" using i by (intro outstanding_upd_same) simp_all
  have hi: "g_pending ?h ! i = ?s" using i by simp
  show ?thesis
  proof (cases "\<not> in_use ?s \<or> completed ?s")
    case True
    then have "request_timeout_cb i h = ([], ?h)" using hi by (simp add: request_timeout_cb_def Let_def)
    then show ?thesis using h by simp
  next
    case False
    let ?c = "upd_slot i (\<lambda>preq. preq\<lparr>completed := True\<rparr>) ?h"
    let ?f = "?c\<lparr>g_consecutive_failures := g_consecutive_failures h + 1\<rparr>"
    define rh where "rh = (if g_consecutive_failures h + 1 \<ge> TIMEOUT_RESET_THRESHOLD
                        then reset_connection ?f else ([], ?f\<lparr>g_rc_id := 0\<rparr>))"
    have "real_outstanding ?f = real_outstanding h"
      using i h outstanding_upd_same[of i ?h "\<lambda>preq. preq\<lparr>completed := True\<rparr>"]
        outstanding_cong[of ?f ?c] by simp
    then have rh: "real_outstanding (snd rh) + answered (fst rh) = real_outstanding h"
      using reset_connection_tokens[of ?f] outstanding_cong[of "?f\<lparr>g_rc_id := 0\<rparr>" ?f]
      by (simp add: rh_def)
    have sl: "g_pending (snd rh) ! i = ?s\<lparr>completed := True\<rparr>" "i < length (g_pending (snd rh))"
      using i by (auto simp: rh_def aborted_def)
    have eq: "request_timeout_cb i h = (fst rh @ fail_cb UBUS_HAL_STATUS_TIMEOUT ?s,
        upd_slot i (\<lambda>preq. preq\<lparr>in_use := False\<rparr>) (snd rh))"
      using False i by (simp add: request_timeout_cb_def Let_def rh_def case_prod_beta)
    have "real_outstanding (upd_slot i (\<lambda>preq. preq\<lparr>in_use := False\<rparr>) (snd rh)) +
        slot_token in_use pr_request ?s = real_outstanding (snd rh)"
      using outstanding_upd[OF sl(2), of "\<lambda>preq. preq\<lparr>in_use := False\<rparr>"] sl(1) by simp
    moreover have "answered (fail_cb UBUS_HAL_STATUS_TIMEOUT ?s) = slot_token in_use pr_request ?s"
      using False by (intro fail_cb_tokens) simp
    ultimately show ?thesis using rh eq by (simp add: ac_simps)
  qed
qed

lemma timeout_frame:
  "ubus_initialized (snd (request_timeout_cb i h)) = ubus_initialized h"
  "g_ctx (snd (request_timeout_cb i h)) \<Longrightarrow> g_ctx h"
  by (auto simp: request_timeout_cb_def Let_def case_prod_beta split: if_splits)

lemma timeout_idle:
  assumes "i < length (g_pending h)" and "list_all slot_ok (g_pending h)"
  shows "\<not> in_use (g_pending (snd (request_timeout_cb i h)) ! i)"
    and "j < length (g_pending h) \<Longrightarrow> \<not> in_use (g_pending h ! j) \<Longrightarrow>
      \<not> in_use (g_pending (snd (request_timeout_cb i h)) ! j)"
  using assms list_all_nthD[OF assms(2), of i]
  by (auto simp: timeout_slots Let_def nth_list_update aborted_def slot_ok_def)

lemma timeout_inv:
  assumes inv: "real_inv h" and i: "i < length (g_pending h)"
  shows "real_inv (snd (request_timeout_cb i h))"
proof -
  have len: "length (g_pending h) = 16" and ok: "list_all slot_ok (g_pending h)"
    and nc: "\<not> g_ctx h \<Longrightarrow> list_all (\<lambda>s. \<not> in_use s) (g_pending h)"
    using inv by (simp_all add: real_inv_def)
  note oki = list_all_nthD[OF ok i]
  have slots: "slot_ok (g_pending (snd (request_timeout_cb i h)) ! j)" if "j < 16" for j
    using that len i oki list_all_nthD[OF ok, of j]
    by (cases "j = i") (auto simp: timeout_slots[OF i] Let_def nth_list_update aborted_def slot_ok_def)
  have idle: "\<not> in_use (g_pending (snd (request_timeout_cb i h)) ! j)"
    if "\<not> g_ctx (snd (request_timeout_cb i h))" "j < 16" for j
  proof (cases "in_use (g_pending h ! i) \<and> g_consecutive_failures h + 1 \<ge> TIMEOUT_RESET_THRESHOLD")
    case True
    then show ?thesis
      using that len i oki list_all_nthD[OF ok, of j]
      by (cases "j = i") (auto simp: timeout_slots[OF i] Let_def nth_list_update aborted_def slot_ok_def)
  next
    case False
    then have "g_ctx (snd (request_timeout_cb i h)) = g_ctx h"
      using i by (auto simp: request_timeout_cb_def Let_def)
    then have "\<not> in_use (g_pending h ! j)" using nc that len by (simp add: list_all_length)
    then show ?thesis using timeout_idle(2)[OF i ok] that len by simp
  qed
  show ?thesis using slots idle len i by (auto simp: real_inv_def list_all_length timeout_slots Let_def)
qed

lemma map_status_frame [simp]:
  "g_pending (snd (map_status ret h)) = g_pending h"
  "g_ctx (snd (map_status ret h)) = g_ctx h"
  "ubus_initialized (snd (map_status ret h)) = ubus_initialized h"
  by (cases ret; simp)+

lemma complete_law:
  assumes inv: "real_inv h" and i: "i < length (g_pending h)"
    and run: "query_complete_cb i ret h = (cbs, h')"
  shows "real_inv h' \<and> ubus_initialized h' = ubus_initialized h \<and>
    real_outstanding h' + answered cbs = real_outstanding h"
proof (cases "\<not> in_use (g_pending h ! i) \<or> completed (g_pending h ! i)")
  case True
  then show ?thesis using run inv by (auto simp: query_complete_cb_def Let_def)
next
  case False
  let ?s = "(g_pending h ! i)\<lparr>completed := True, pr_timer := False, in_use := False\<rparr>"
  let ?m = "map_status ret (upd_slot i (\<lambda>preq. preq\<lparr>completed := True, pr_timer := False\<rparr>) h)"
  have h': "h' = upd_slot i (\<lambda>preq. preq\<lparr>in_use := False\<rparr>) (snd ?m)"
    and cbs: "cbs = result_cb (fst ?m) (g_pending h ! i)"
    using run False by (auto simp: query_complete_cb_def Let_def case_prod_beta)
  have pend: "g_pending h' = (g_pending h)[i := ?s]" "g_ctx h' = g_ctx h"
    "ubus_initialized h' = ubus_initialized h"
    using i by (simp_all add: h')
  have "real_inv h'"
    using inv pend by (auto simp: real_inv_def slot_ok_def intro!: list_all_update)
  moreover have "real_outstanding h' + answered cbs = real_outstanding h"
    using slot_tokens_update[OF i, of in_use pr_request ?s] False pend cbs
    by (simp add: real_outstanding_def result_cb_tokens)
  ultimately show ?thesis using pend by simp
qed

lemma data_law:
  assumes inv: "real_inv h" and i: "i < length (g_pending h)"
  shows "real_inv (query_data_cb i msg h)"
    and "ubus_initialized (query_data_cb i msg h) = ubus_initialized h"
    and "real_outstanding (query_data_cb i msg h) = real_outstanding h"
proof -
  have ok: "slot_ok (g_pending h ! i)" using inv i by (auto simp: real_inv_def list_all_nthD)
  have idle: "g_ctx h \<or> \<not> in_use (g_pending h ! i)"
    using inv i list_all_nthD[of "\<lambda>s. \<not> in_use s" "g_pending h" i] by (auto simp: real_inv_def)
  have upd: "real_inv (upd_slot i (\<lambda>preq. (preq\<lparr>pr_installed := True\<rparr>)\<lparr>pr_running := b preq\<rparr>) h)" for b
    using inv ok idle by (auto simp: real_inv_def slot_ok_def intro!: list_all_update)
  show "real_inv (query_data_cb i msg h)"
    using inv upd by (auto simp: query_data_cb_def split: option.split)
  show "ubus_initialized (query_data_cb i msg h) = ubus_initialized h"
    by (simp add: query_data_cb_def split: option.split)
  show "real_outstanding (query_data_cb i msg h) = real_outstanding h"
    using outstanding_upd_same[OF i] by (auto simp: query_data_cb_def split: option.split)
qed

lemma dispatch_law:
  assumes inv: "real_inv h" and run: "real_dispatch v h = (cbs, h')"
  shows "real_inv h' \<and> ubus_initialized h' = ubus_initialized h \<and>
    real_outstanding h' + answered cbs = real_outstanding h"
proof (cases v)
  case (Ev_Timer i)
  then show ?thesis
    using run inv timeout_inv[OF inv, of i] timeout_tokens[of i h] timeout_frame(1)[of i h]
    by (auto split: if_splits)
next
  case (Ev_Data i msg)
  then show ?thesis using run inv data_law[OF inv, of i msg] by (auto split: if_splits)
next
  case (Ev_Complete i ret)
  then show ?thesis using run inv complete_law[OF inv, of i ret cbs h'] by (auto split: if_splits)
qed

text \<open>One pass over the timers empties the table.\<close>

lemma timer_clears:
  assumes inv: "real_inv h" and i: "i < 16"
  shows "\<not> in_use (g_pending (snd (real_dispatch (Ev_Timer i) h)) ! i)"
    and "j < 16 \<Longrightarrow> \<not> in_use (g_pending h ! j) \<Longrightarrow>
      \<not> in_use (g_pending (snd (real_dispatch (Ev_Timer i) h)) ! j)"
proof -
  have l: "length (g_pending h) = 16" and ok: "list_all slot_ok (g_pending h)"
    using inv by (simp_all add: real_inv_def)
  have oki: "slot_ok (g_pending h ! i)" using ok l i by (simp add: list_all_nthD)
  show "\<not> in_use (g_pending (snd (real_dispatch (Ev_Timer i) h)) ! i)"
    using timeout_idle(1)[OF _ ok, of i] oki l i by (auto simp: slot_ok_def)
  show "\<not> in_use (g_pending (snd (real_dispatch (Ev_Timer i) h)) ! j)"
    if "j < 16" "\<not> in_use (g_pending h ! j)"
    using timeout_idle(2)[OF _ ok, of i j] that l i by auto
qed

lemma expire_prefix:
  assumes "real_inv h" and "k \<le> 16"
  shows "real_inv (fold (\<lambda>v h. snd (real_dispatch v h)) (map Ev_Timer [0..<k]) h) \<and>
    (\<forall>j < k. \<not> in_use (g_pending (fold (\<lambda>v h. snd (real_dispatch v h)) (map Ev_Timer [0..<k]) h) ! j))"
  using assms(2)
proof (induction k)
  case (Suc k)
  let ?h = "fold (\<lambda>v h. snd (real_dispatch v h)) (map Ev_Timer [0..<k]) h"
  have IH: "real_inv ?h" "\<forall>j < k. \<not> in_use (g_pending ?h ! j)" using Suc by simp_all
  have "real_inv (snd (real_dispatch (Ev_Timer k) ?h))"
    using dispatch_law[OF IH(1), of "Ev_Timer k"] by (metis prod.collapse)
  moreover have "\<not> in_use (g_pending (snd (real_dispatch (Ev_Timer k) ?h)) ! j)" if "j < Suc k" for j
    using that IH Suc.prems timer_clears[OF IH(1), of k] by (auto simp: less_Suc_eq simp del: real_dispatch.simps)
  ultimately show ?case by (simp del: real_dispatch.simps)
qed (use assms in simp)

lemma expire_law_real:
  assumes "real_inv h"
  shows "real_outstanding (fold (\<lambda>v h. snd (real_dispatch v h)) (map Ev_Timer [0..<16]) h) = {#}"
proof -
  let ?h = "fold (\<lambda>v h. snd (real_dispatch v h)) (map Ev_Timer [0..<16]) h"
  have e: "real_inv ?h" "\<forall>j < 16. \<not> in_use (g_pending ?h ! j)"
    using expire_prefix[OF assms, of 16] by simp_all
  then have "list_all (\<lambda>s. \<not> in_use s) (g_pending ?h)"
    by (auto simp: list_all_length real_inv_def)
  then show ?thesis unfolding real_outstanding_def by (rule slot_tokens_none)
qed

section \<open>The contract holds\<close>

interpretation real: ubus_service real_ops real_dispatch "map Ev_Timer [0..<16]" real_inv
  ubus_initialized real_outstanding
  by unfold_locales
    (auto simp: real_ops_def real_query_service_async_def real_control_service_async_def
      expire_law_real dest: query_law_real control_law_real dispatch_law)

text \<open>
  \<open>real_init\<close> establishes the invariant, from the zeroed statics or after a clean-up, both
  of which have no connection.
\<close>

definition ubus_real_start :: "'p ubus_real" where
  "ubus_real_start = \<lparr>g_ctx = False, g_rc_id = 0,
     g_pending = replicate MAX_PENDING_REQUESTS (fresh_request\<lparr>in_use := False\<rparr>),
     ubus_initialized = False, g_consecutive_failures = 0, g_last_attempt_time = 0,
     ubus_ub = False\<rparr>"

lemma real_init_law:
  assumes "\<not> ubus_initialized h" and "\<not> g_ctx h"
  shows "fst (real_init e h) = 0 \<and> real_inv (snd (real_init e h)) \<and>
    ubus_initialized (snd (real_init e h)) \<and> real_outstanding (snd (real_init e h)) = {#}"
proof -
  let ?h = "h\<lparr>g_pending := replicate MAX_PENDING_REQUESTS (fresh_request\<lparr>in_use := False\<rparr>)\<rparr>"
  have "real_inv ?h" using assms by (simp add: real_inv_def list_all_iff slot_ok_def)
  then have "real_inv (snd (ensure_context e ?h))" by (rule ensure_context_inv)
  moreover have "slot_tokens in_use pr_request (replicate 16 (fresh_request\<lparr>in_use := False\<rparr>)) = {#}"
    by (rule slot_tokens_none) (simp add: list_all_iff)
  ultimately show ?thesis
    using assms by (simp add: real_init_def Let_def case_prod_beta real_inv_def real_outstanding_def)
qed

lemma real_cleanup_idle:
  "ubus_initialized h \<Longrightarrow>
   \<not> ubus_initialized (real_cleanup h) \<and> \<not> g_ctx (real_cleanup h) \<and>
   real_outstanding (real_cleanup h) = {#}"
proof -
  assume i: "ubus_initialized h"
  have "list_all (\<lambda>s. \<not> in_use s) (map cleanup_slot (g_pending h))"
    by (auto simp: list_all_iff cleanup_slot_def)
  then have "slot_tokens in_use pr_request (map cleanup_slot (g_pending h)) = {#}"
    by (rule slot_tokens_none)
  then show ?thesis using i by (simp add: real_cleanup_def real_outstanding_def)
qed

section \<open>Reconnection backoff\<close>

text \<open>The delay doubles from one second and stops at sixty.\<close>

lemma backoff_value:
  assumes "0 \<le> f" and "f \<le> 31"
  shows "get_backoff_delay f = Some (if f = 0 then 0 else min 60 (2 ^ nat (f - 1)))"
  using assms by (auto simp: get_backoff_delay_def Let_def min_def)

text \<open>The shift is undefined from the 32nd consecutive failure on.\<close>

lemma backoff_undefined: "32 \<le> f \<Longrightarrow> get_backoff_delay f = None"
  by (simp add: get_backoff_delay_def Let_def)

text \<open>While the delay of the last failure has not passed nothing is attempted.\<close>

lemma backoff_waits:
  assumes "\<not> g_ctx h" and "0 < g_consecutive_failures h" and "g_consecutive_failures h \<le> 31"
    and "time_check e - g_last_attempt_time h < min 60 (2 ^ nat (g_consecutive_failures h - 1))"
  shows "ensure_context e h = (-1, h)"
  using assms backoff_value[of "g_consecutive_failures h"] by (simp add: ensure_context_def)

text \<open>
  A run of failing connection attempts, each made when it is due: the failure count grows by
  one each time, and the 33rd attempt computes an undefined shift.
\<close>

fun failed_attempts :: "ubus_env list \<Rightarrow> 'p ubus_real \<Rightarrow> 'p ubus_real" where
  "failed_attempts [] h = h"
| "failed_attempts (e # es) h = failed_attempts es (snd (ensure_context e h))"

text \<open>An environment in which the connection attempt at second \<open>t\<close> fails.\<close>

definition refused_at :: "int \<Rightarrow> ubus_env" where
  "refused_at t = \<lparr>time_check = t, time_attempt = t, connect_ok = False, lookup_ret = 0,
     lookup_id = 0, invoke_ret = 0\<rparr>"

text \<open>A refused attempt every minute after \<open>t\<close>.\<close>

fun refusals :: "int \<Rightarrow> nat \<Rightarrow> ubus_env list" where
  "refusals t 0 = []"
| "refusals t (Suc n) = refused_at (t + 60) # refusals (t + 60) n"

lemma failed_attempt_step:
  assumes "\<not> g_ctx h" and "0 \<le> g_consecutive_failures h" and "g_consecutive_failures h \<le> 31"
    and "60 \<le> t - g_last_attempt_time h"
  shows "snd (ensure_context (refused_at t) h) =
    h\<lparr>g_last_attempt_time := t, g_ctx := False, g_rc_id := 0,
      g_consecutive_failures := g_consecutive_failures h + 1\<rparr>"
proof -
  have "min 60 (2 ^ nat (g_consecutive_failures h - 1)) \<le> (60 :: int)" by simp
  then show ?thesis
    using assms backoff_value[OF assms(2,3)]
    by (auto simp: ensure_context_def connect_now_def refused_at_def Let_def)
qed

lemma failed_attempts_count:
  assumes "\<not> g_ctx h" and "0 \<le> g_consecutive_failures h"
    and "g_consecutive_failures h + int n \<le> 32" and "g_last_attempt_time h = t"
  shows "let h' = failed_attempts (refusals t n) h in
    \<not> g_ctx h' \<and> g_consecutive_failures h' = g_consecutive_failures h + int n \<and>
    g_last_attempt_time h' = t + 60 * int n \<and> ubus_ub h' = ubus_ub h"
  using assms
proof (induction n arbitrary: h t)
  case (Suc n)
  let ?h = "snd (ensure_context (refused_at (t + 60)) h)"
  have h: "?h = h\<lparr>g_last_attempt_time := t + 60, g_ctx := False, g_rc_id := 0,
      g_consecutive_failures := g_consecutive_failures h + 1\<rparr>"
    using Suc.prems by (intro failed_attempt_step) simp_all
  show ?case
    using Suc.IH[of ?h "t + 60"] Suc.prems by (simp add: h Let_def)
qed simp

end
