(* ===== verification/Ubus_Mock.thy ===== *)
theory Ubus_Mock
  imports Ubus_Real
begin

text \<open>
  The host implementation of the service interface (\<open>src/hal/ubus_hal_mock.c\<close>): configured
  responses delivered by timers. It has the slots and the time-out of the ubus
  implementation and keeps the same contract. A timer is the delay it was set to, or
  \<open>None\<close> when it is not armed.
\<close>

abbreviation (input) MAX_MOCK_RESPONSES :: nat where "MAX_MOCK_RESPONSES \<equiv> 16"
abbreviation (input) DEFAULT_DELAY_MS :: int where "DEFAULT_DELAY_MS \<equiv> 50"
abbreviation (input) DEFAULT_TIMEOUT_MS :: int where "DEFAULT_TIMEOUT_MS \<equiv> 3000"
abbreviation (input) MOCK_DELAY_HANG :: int where "MOCK_DELAY_HANG \<equiv> -1"

record mock_response =
  mr_service :: string
  mr_installed :: bool
  mr_running :: bool
  mr_status :: int
  mr_delay_ms :: int
  mr_configured :: bool

record 'p mock_request =
  mq_service :: string
  mq_type :: request_type
  mq_cb :: "'p option"
  response_timer :: "int option"
  timeout_timer :: "int option"
  mq_in_use :: bool
  mq_completed :: bool
  mq_installed :: bool
  mq_running :: bool
  mq_status :: int
  mq_start_op :: bool

record 'p ubus_mock =
  g_mock_responses :: "mock_response list"
  mock_pending :: "'p mock_request list"
  mock_initialized :: bool
  g_timeout_ms :: int
  g_consecutive_timeouts :: int
  g_default_response :: mock_response

section \<open>Configured responses\<close>

definition empty_response :: mock_response where
  "empty_response = \<lparr>mr_service = [], mr_installed = False, mr_running = False,
     mr_status = 0, mr_delay_ms = 0, mr_configured = False\<rparr>"

definition set_fields :: "int \<Rightarrow> bool \<Rightarrow> bool \<Rightarrow> int \<Rightarrow> mock_response \<Rightarrow> mock_response" where
  "set_fields status inst run delay r =
     r\<lparr>mr_status := status, mr_installed := inst, mr_running := run, mr_delay_ms := delay\<rparr>"

text \<open>
  The search loop: the first configured entry of the service, and the first free entry seen
  before it. \<open>k\<close> is the loop index.
\<close>

fun find_slot :: "string \<Rightarrow> nat \<Rightarrow> nat option \<Rightarrow> mock_response list \<Rightarrow> nat option \<times> nat option" where
  "find_slot service k empty_slot [] = (None, empty_slot)"
| "find_slot service k empty_slot (r # rs) =
     (if mr_configured r \<and> mr_service r = service then (Some k, empty_slot)
      else if \<not> mr_configured r \<and> empty_slot = None then find_slot service (k + 1) (Some k) rs
      else find_slot service (k + 1) empty_slot rs)"

definition ubus_mock_set_response ::
  "string \<Rightarrow> int \<Rightarrow> bool \<Rightarrow> bool \<Rightarrow> int \<Rightarrow> 'p ubus_mock \<Rightarrow> 'p ubus_mock" where
  "ubus_mock_set_response service status inst run delay m =
     (case find_slot service 0 None (g_mock_responses m) of
        (Some i, _) \<Rightarrow>
          m\<lparr>g_mock_responses := (g_mock_responses m)
              [i := set_fields status inst run delay (g_mock_responses m ! i)]\<rparr>
      | (None, Some i) \<Rightarrow>
          m\<lparr>g_mock_responses := (g_mock_responses m)
              [i := (set_fields status inst run delay (g_mock_responses m ! i))
                      \<lparr>mr_service := bounded_copy 32 service, mr_configured := True\<rparr>]\<rparr>
      | (None, None) \<Rightarrow> m)"

definition ubus_mock_set_default_response ::
  "int \<Rightarrow> bool \<Rightarrow> bool \<Rightarrow> int \<Rightarrow> 'p ubus_mock \<Rightarrow> 'p ubus_mock" where
  "ubus_mock_set_default_response status inst run delay m =
     m\<lparr>g_default_response := set_fields status inst run delay (g_default_response m)\<rparr>"

definition ubus_mock_set_timeout :: "int \<Rightarrow> 'p ubus_mock \<Rightarrow> 'p ubus_mock" where
  "ubus_mock_set_timeout t m = m\<lparr>g_timeout_ms := t\<rparr>"

definition ubus_mock_clear_responses :: "'p ubus_mock \<Rightarrow> 'p ubus_mock" where
  "ubus_mock_clear_responses m =
     m\<lparr>g_mock_responses := replicate MAX_MOCK_RESPONSES empty_response,
       g_default_response := set_fields UBUS_HAL_STATUS_OK False False DEFAULT_DELAY_MS
         (g_default_response m),
       g_timeout_ms := DEFAULT_TIMEOUT_MS, g_consecutive_timeouts := 0\<rparr>"

definition ubus_mock_get_consecutive_timeouts :: "'p ubus_mock \<Rightarrow> int" where
  "ubus_mock_get_consecutive_timeouts m = g_consecutive_timeouts m"

definition ubus_mock_get_pending_count :: "'p ubus_mock \<Rightarrow> nat" where
  "ubus_mock_get_pending_count m =
     length (filter (\<lambda>q. mq_in_use q \<and> \<not> mq_completed q) (mock_pending m))"

fun find_response :: "string \<Rightarrow> mock_response list \<Rightarrow> mock_response \<Rightarrow> mock_response" where
  "find_response service [] dflt = dflt"
| "find_response service (r # rs) dflt =
     (if mr_configured r \<and> mr_service r = service then r else find_response service rs dflt)"

section \<open>Timers\<close>

definition upd_mock ::
  "nat \<Rightarrow> ('p mock_request \<Rightarrow> 'p mock_request) \<Rightarrow> 'p ubus_mock \<Rightarrow> 'p ubus_mock" where
  "upd_mock i f m = m\<lparr>mock_pending := (mock_pending m)[i := f (mock_pending m ! i)]\<rparr>"

definition mock_result_cb :: "'p mock_request \<Rightarrow> 'p ubus_callback list" where
  "mock_result_cb q =
     (case mq_cb q of
        None \<Rightarrow> []
      | Some p \<Rightarrow> if mq_type q = REQ_TYPE_QUERY
                  then [Query_Cb (mq_service q) (mq_installed q) (mq_running q) (mq_status q) p]
                  else [Control_Cb (mq_service q) (mq_status q = UBUS_HAL_STATUS_OK) (mq_status q) p])"

definition mock_timeout_cb :: "'p mock_request \<Rightarrow> 'p ubus_callback list" where
  "mock_timeout_cb q =
     (case mq_cb q of
        None \<Rightarrow> []
      | Some p \<Rightarrow> if mq_type q = REQ_TYPE_QUERY
                  then [Query_Cb (mq_service q) False False UBUS_HAL_STATUS_TIMEOUT p]
                  else [Control_Cb (mq_service q) False UBUS_HAL_STATUS_TIMEOUT p])"

text \<open>The timer callbacks proper; uloop has disarmed the timer that fired.\<close>

definition response_timer_cb :: "nat \<Rightarrow> 'p ubus_mock \<Rightarrow> 'p ubus_callback list \<times> 'p ubus_mock" where
  "response_timer_cb i m =
     (let q = mock_pending m ! i in
      if \<not> mq_in_use q \<or> mq_completed q then ([], m)
      else
        let m = upd_mock i (\<lambda>q. q\<lparr>mq_completed := True, timeout_timer := None\<rparr>) m;
            m = m\<lparr>g_consecutive_timeouts := 0\<rparr>
        in (mock_result_cb q, upd_mock i (\<lambda>q. q\<lparr>mq_in_use := False\<rparr>) m))"

definition timeout_timer_cb :: "nat \<Rightarrow> 'p ubus_mock \<Rightarrow> 'p ubus_callback list \<times> 'p ubus_mock" where
  "timeout_timer_cb i m =
     (let q = mock_pending m ! i in
      if \<not> mq_in_use q \<or> mq_completed q then ([], m)
      else
        let m = upd_mock i (\<lambda>q. q\<lparr>mq_completed := True, response_timer := None\<rparr>) m;
            m = m\<lparr>g_consecutive_timeouts := g_consecutive_timeouts m + 1\<rparr>
        in (mock_timeout_cb q, upd_mock i (\<lambda>q. q\<lparr>mq_in_use := False\<rparr>) m))"

text \<open>The test hook that lets a response arrive after its request was answered.\<close>

fun find_completed :: "string \<Rightarrow> 'p mock_request list \<Rightarrow> nat option" where
  "find_completed service [] = None"
| "find_completed service (q # qs) =
     (if mq_completed q \<and> mq_service q = service then Some 0
      else map_option Suc (find_completed service qs))"

definition ubus_mock_force_late_response ::
  "string \<Rightarrow> 'p ubus_mock \<Rightarrow> int \<times> 'p ubus_callback list \<times> 'p ubus_mock" where
  "ubus_mock_force_late_response service m =
     (case find_completed service (mock_pending m) of
        None \<Rightarrow> (0, [], m)
      | Some i \<Rightarrow>
          let m = upd_mock i (\<lambda>q. q\<lparr>mq_in_use := True\<rparr>) m;
              (cbs, m) = response_timer_cb i m
          in (1, cbs, upd_mock i (\<lambda>q. q\<lparr>mq_in_use := False\<rparr>) m))"

section \<open>The operations\<close>

definition fresh_mock_request :: "'p mock_request" where
  "fresh_mock_request = \<lparr>mq_service = [], mq_type = REQ_TYPE_QUERY, mq_cb = None,
     response_timer = None, timeout_timer = None, mq_in_use = True, mq_completed = False,
     mq_installed = False, mq_running = False, mq_status = 0, mq_start_op = False\<rparr>"

definition mock_alloc_request :: "'p ubus_mock \<Rightarrow> (nat \<times> 'p ubus_mock) option" where
  "mock_alloc_request m =
     (case first_free mq_in_use (mock_pending m) of
        None \<Rightarrow> None
      | Some i \<Rightarrow> Some (i, upd_mock i (\<lambda>_. fresh_mock_request) m))"

definition mock_init :: "'p ubus_mock \<Rightarrow> int \<times> 'p ubus_mock" where
  "mock_init m =
     (if mock_initialized m then (0, m)
      else (0, m\<lparr>mock_pending := replicate MAX_PENDING_REQUESTS (fresh_mock_request\<lparr>mq_in_use := False\<rparr>),
                 mock_initialized := True\<rparr>))"

definition mock_cleanup_slot :: "'p mock_request \<Rightarrow> 'p mock_request" where
  "mock_cleanup_slot q =
     (if mq_in_use q then q\<lparr>response_timer := None, timeout_timer := None, mq_in_use := False\<rparr> else q)"

definition mock_cleanup :: "'p ubus_mock \<Rightarrow> 'p ubus_mock" where
  "mock_cleanup m =
     (if \<not> mock_initialized m then m
      else m\<lparr>mock_pending := map mock_cleanup_slot (mock_pending m), mock_initialized := False\<rparr>)"

text \<open>Arming the two timers; a hanging response is never scheduled.\<close>

definition arm_timers :: "int \<Rightarrow> int \<Rightarrow> 'p mock_request \<Rightarrow> 'p mock_request" where
  "arm_timers timeout delay q =
     (let q = q\<lparr>timeout_timer := Some timeout\<rparr>
      in if delay \<noteq> MOCK_DELAY_HANG then q\<lparr>response_timer := Some delay\<rparr> else q)"

definition mock_query_service_async ::
  "unit \<Rightarrow> string \<Rightarrow> 'p \<Rightarrow> 'p ubus_mock \<Rightarrow> int \<times> 'p ubus_callback list \<times> 'p ubus_mock" where
  "mock_query_service_async _ name p m =
     (if \<not> mock_initialized m then (-1, [], m)
      else case mock_alloc_request m of
        None \<Rightarrow> (0, [Query_Cb name False False UBUS_HAL_STATUS_ERROR p], m)
      | Some (i, m) \<Rightarrow>
          let m = upd_mock i (\<lambda>q. q\<lparr>mq_service := bounded_copy 32 name,
                    mq_type := REQ_TYPE_QUERY, mq_cb := Some p\<rparr>) m;
              resp = find_response name (g_mock_responses m) (g_default_response m);
              m = upd_mock i (\<lambda>q. q\<lparr>mq_installed := mr_installed resp,
                    mq_running := mr_running resp, mq_status := mr_status resp\<rparr>) m
          in (0, [], upd_mock i (arm_timers (g_timeout_ms m) (mr_delay_ms resp)) m))"

definition mock_control_service_async ::
  "unit \<Rightarrow> string \<Rightarrow> bool \<Rightarrow> 'p \<Rightarrow> 'p ubus_mock \<Rightarrow>
   int \<times> 'p ubus_callback list \<times> 'p ubus_mock" where
  "mock_control_service_async _ name start p m =
     (if \<not> mock_initialized m then (-1, [], m)
      else case mock_alloc_request m of
        None \<Rightarrow> (0, [Control_Cb name False UBUS_HAL_STATUS_ERROR p], m)
      | Some (i, m) \<Rightarrow>
          let m = upd_mock i (\<lambda>q. q\<lparr>mq_service := bounded_copy 32 name,
                    mq_type := REQ_TYPE_CONTROL, mq_cb := Some p, mq_start_op := start\<rparr>) m;
              resp = find_response name (g_mock_responses m) (g_default_response m);
              m = upd_mock i (\<lambda>q. q\<lparr>mq_status := mr_status resp\<rparr>) m
          in (0, [], upd_mock i (arm_timers (g_timeout_ms m) (mr_delay_ms resp)) m))"

fun mock_query_services_async ::
  "string option list \<Rightarrow> 'p \<Rightarrow> 'p ubus_mock \<Rightarrow> int \<times> 'p ubus_callback list \<times> 'p ubus_mock" where
  "mock_query_services_async [] p m = (if \<not> mock_initialized m then -1 else 0, [], m)"
| "mock_query_services_async (name # names) p m =
     (if \<not> mock_initialized m then (-1, [], m)
      else case name of
        None \<Rightarrow> mock_query_services_async names p m
      | Some n \<Rightarrow>
          let (r, cbs, m) = mock_query_service_async () n p m in
          if r < 0 then (-1, cbs, m)
          else let (r', cbs', m') = mock_query_services_async names p m in (r', cbs @ cbs', m'))"

definition mock_ops :: "(unit, 'p, 'p ubus_mock) ubus_hal_ops" where
  "mock_ops = \<lparr>query_service_async = mock_query_service_async,
     control_service_async = mock_control_service_async\<rparr>"

datatype mock_event = Ev_Response nat | Ev_Timeout nat

fun mock_dispatch :: "mock_event \<Rightarrow> 'p ubus_mock \<Rightarrow> 'p ubus_callback list \<times> 'p ubus_mock" where
  "mock_dispatch (Ev_Response i) m =
     (if i < length (mock_pending m) \<and> response_timer (mock_pending m ! i) \<noteq> None
      then response_timer_cb i (upd_mock i (\<lambda>q. q\<lparr>response_timer := None\<rparr>) m) else ([], m))"
| "mock_dispatch (Ev_Timeout i) m =
     (if i < length (mock_pending m) \<and> timeout_timer (mock_pending m ! i) \<noteq> None
      then timeout_timer_cb i (upd_mock i (\<lambda>q. q\<lparr>timeout_timer := None\<rparr>) m) else ([], m))"

section \<open>Invariant\<close>

definition mock_slot_ok :: "'p mock_request \<Rightarrow> bool" where
  [wf_defs]: "mock_slot_ok q \<longleftrightarrow>
     mq_in_use q \<longrightarrow> \<not> mq_completed q \<and> timeout_timer q \<noteq> None \<and> mq_cb q \<noteq> None"

definition mock_inv :: "'p ubus_mock \<Rightarrow> bool" where
  [wf_defs]: "mock_inv m \<longleftrightarrow>
     length (mock_pending m) = MAX_PENDING_REQUESTS \<and> list_all mock_slot_ok (mock_pending m)"

definition mq_request :: "'p mock_request \<Rightarrow> 'p hal_request option" where
  "mq_request q = map_option
     (\<lambda>p. if mq_type q = REQ_TYPE_QUERY then Query_Req (mq_service q) p
          else Control_Req (mq_service q) p) (mq_cb q)"

definition mock_outstanding :: "'p ubus_mock \<Rightarrow> 'p hal_request multiset" where
  "mock_outstanding m = slot_tokens mq_in_use mq_request (mock_pending m)"

lemma upd_mock_sel [simp]:
  "mock_pending (upd_mock i f m) = (mock_pending m)[i := f (mock_pending m ! i)]"
  "mock_initialized (upd_mock i f m) = mock_initialized m"
  "g_mock_responses (upd_mock i f m) = g_mock_responses m"
  "g_default_response (upd_mock i f m) = g_default_response m"
  "g_timeout_ms (upd_mock i f m) = g_timeout_ms m"
  by (simp_all add: upd_mock_def)

text \<open>The statics of the mock before any call.\<close>

definition ubus_mock_start :: "'p ubus_mock" where
  "ubus_mock_start = \<lparr>g_mock_responses = replicate 16 empty_response,
     mock_pending = replicate MAX_PENDING_REQUESTS (fresh_mock_request\<lparr>mq_in_use := False\<rparr>),
     mock_initialized = False, g_timeout_ms = 3000, g_consecutive_timeouts = 0,
     g_default_response = empty_response\<lparr>mr_delay_ms := 50\<rparr>\<rparr>"

lemma mock_init_law:
  assumes "\<not> mock_initialized m"
  shows "fst (mock_init m) = 0 \<and> mock_inv (snd (mock_init m)) \<and> mock_initialized (snd (mock_init m)) \<and>
    mock_outstanding (snd (mock_init m)) = {#}"
proof -
  have "slot_tokens mq_in_use mq_request (replicate n (fresh_mock_request\<lparr>mq_in_use := False\<rparr>)) = {#}"
    for n by (induction n) (simp_all add: slot_tokens_def slot_token_def)
  then show ?thesis
    using assms by (simp add: mock_init_def mock_inv_def mock_outstanding_def list_all_iff mock_slot_ok_def)
qed

text \<open>Replacing one slot.\<close>

lemma mock_put:
  assumes "mock_inv m" and "i < length (mock_pending m)" and "mock_slot_ok s"
    and "mock_pending m' = (mock_pending m)[i := s]"
  shows "mock_inv m'"
    and "mock_outstanding m' + slot_token mq_in_use mq_request (mock_pending m ! i) =
      mock_outstanding m + slot_token mq_in_use mq_request s"
  using assms slot_tokens_update[OF assms(2), of mq_in_use mq_request s]
  by (auto simp: mock_inv_def mock_outstanding_def intro: list_all_update)

lemma mock_request_law:
  assumes inv: "mock_inv m" and a: "first_free mq_in_use (mock_pending m) = Some i"
    and s: "mq_in_use s" "mock_slot_ok s" "mq_request s = Some p"
    and m': "mock_pending m' = (mock_pending m)[i := s]"
  shows "mock_inv m' \<and> mock_outstanding m' = add_mset p (mock_outstanding m)"
proof -
  have i: "i < length (mock_pending m)" "\<not> mq_in_use (mock_pending m ! i)"
    using first_free_Some[OF a] by simp_all
  show ?thesis
    using mock_put[OF inv i(1) s(2) m'] i(2) s by (simp add: slot_token_def)
qed

lemma mock_query_law:
  assumes inv: "mock_inv m" and ready: "mock_initialized m"
    and n: "length n < REQUEST_NAME_LEN"
    and run: "mock_query_service_async e n p m = (r, cbs, m')"
  shows "r = 0 \<and> mock_inv m' \<and> mock_initialized m' \<and>
    mock_outstanding m' + answered cbs = add_mset (Query_Req n p) (mock_outstanding m)"
proof (cases "first_free mq_in_use (mock_pending m)")
  case None
  then show ?thesis using run ready inv
    by (auto simp: mock_query_service_async_def mock_alloc_request_def)
next
  case (Some i)
  have i: "i < length (mock_pending m)" using first_free_Some[OF Some] by simp
  let ?resp = "find_response n (g_mock_responses m) (g_default_response m)"
  let ?s = "arm_timers (g_timeout_ms m) (mr_delay_ms ?resp) (fresh_mock_request
    \<lparr>mq_service := bounded_copy 32 n, mq_type := REQ_TYPE_QUERY, mq_cb := Some p,
     mq_installed := mr_installed ?resp, mq_running := mr_running ?resp,
     mq_status := mr_status ?resp\<rparr>)"
  have m': "mock_pending m' = (mock_pending m)[i := ?s]"
    and rc: "r = 0" "cbs = []" "mock_initialized m' = mock_initialized m"
    using run ready Some i
    by (auto simp: mock_query_service_async_def mock_alloc_request_def Let_def)
  show ?thesis
    using mock_request_law[OF inv Some _ _ _ m', of "Query_Req n p"] rc ready n
    by (simp add: mock_slot_ok_def arm_timers_def fresh_mock_request_def Let_def mq_request_def
        bounded_copy_fits)
qed

lemma mock_control_law:
  assumes inv: "mock_inv m" and ready: "mock_initialized m"
    and n: "length n < REQUEST_NAME_LEN"
    and run: "mock_control_service_async e n b p m = (r, cbs, m')"
  shows "r = 0 \<and> mock_inv m' \<and> mock_initialized m' \<and>
    mock_outstanding m' + answered cbs = add_mset (Control_Req n p) (mock_outstanding m)"
proof (cases "first_free mq_in_use (mock_pending m)")
  case None
  then show ?thesis using run ready inv
    by (auto simp: mock_control_service_async_def mock_alloc_request_def)
next
  case (Some i)
  have i: "i < length (mock_pending m)" using first_free_Some[OF Some] by simp
  let ?resp = "find_response n (g_mock_responses m) (g_default_response m)"
  let ?s = "arm_timers (g_timeout_ms m) (mr_delay_ms ?resp) (fresh_mock_request
    \<lparr>mq_service := bounded_copy 32 n, mq_type := REQ_TYPE_CONTROL, mq_cb := Some p,
     mq_start_op := b, mq_status := mr_status ?resp\<rparr>)"
  have m': "mock_pending m' = (mock_pending m)[i := ?s]"
    and rc: "r = 0" "cbs = []" "mock_initialized m' = mock_initialized m"
    using run ready Some i
    by (auto simp: mock_control_service_async_def mock_alloc_request_def Let_def)
  show ?thesis
    using mock_request_law[OF inv Some _ _ _ m', of "Control_Req n p"] rc ready n
    by (simp add: mock_slot_ok_def arm_timers_def fresh_mock_request_def Let_def mq_request_def
        bounded_copy_fits)
qed

section \<open>Events\<close>

text \<open>A timer that fires on a waiting slot answers and frees it.\<close>

lemma mock_fire_law:
  assumes inv: "mock_inv m" and i: "i < length (mock_pending m)"
    and q: "mq_in_use (mock_pending m ! i)" and s: "\<not> mq_in_use s"
    and m': "mock_pending m' = (mock_pending m)[i := s]"
    and cbs: "answered cbs = slot_token mq_in_use mq_request (mock_pending m ! i)"
  shows "mock_inv m' \<and> mock_outstanding m' + answered cbs = mock_outstanding m"
proof -
  have "mock_slot_ok s" using s by (simp add: mock_slot_ok_def)
  then show ?thesis using mock_put[OF inv i _ m'] s cbs by (simp add: slot_token_def)
qed

lemma mock_cb_tokens:
  assumes "mq_in_use q"
  shows "answered (mock_result_cb (q\<lparr>response_timer := t\<rparr>)) = slot_token mq_in_use mq_request q"
    and "answered (mock_timeout_cb (q\<lparr>timeout_timer := t\<rparr>)) = slot_token mq_in_use mq_request q"
  using assms by (simp_all add: mock_result_cb_def mock_timeout_cb_def slot_token_def mq_request_def
      split: option.split)

text \<open>The two timers on a waiting slot, and on one that is not in use.\<close>

lemma response_fires:
  assumes "i < length (mock_pending m)" and "mq_in_use (mock_pending m ! i)"
    and "\<not> mq_completed (mock_pending m ! i)"
    and "response_timer_cb i (upd_mock i (\<lambda>q. q\<lparr>response_timer := None\<rparr>) m) = (cbs, m')"
  shows "cbs = mock_result_cb ((mock_pending m ! i)\<lparr>response_timer := None\<rparr>)"
    and "mock_pending m' = (mock_pending m)[i := (mock_pending m ! i)
      \<lparr>response_timer := None, mq_completed := True, timeout_timer := None, mq_in_use := False\<rparr>]"
    and "mock_initialized m' = mock_initialized m"
  using assms by (auto simp: response_timer_cb_def Let_def)

lemma timeout_fires:
  assumes "i < length (mock_pending m)" and "mq_in_use (mock_pending m ! i)"
    and "\<not> mq_completed (mock_pending m ! i)"
    and "timeout_timer_cb i (upd_mock i (\<lambda>q. q\<lparr>timeout_timer := None\<rparr>) m) = (cbs, m')"
  shows "cbs = mock_timeout_cb ((mock_pending m ! i)\<lparr>timeout_timer := None\<rparr>)"
    and "mock_pending m' = (mock_pending m)[i := (mock_pending m ! i)
      \<lparr>timeout_timer := None, mq_completed := True, response_timer := None, mq_in_use := False\<rparr>]"
    and "mock_initialized m' = mock_initialized m"
  using assms by (auto simp: timeout_timer_cb_def Let_def)

lemma timers_idle:
  assumes "i < length (mock_pending m)" and "\<not> mq_in_use (mock_pending m ! i)"
  shows "response_timer_cb i (upd_mock i (\<lambda>q. q\<lparr>response_timer := None\<rparr>) m) =
      ([], upd_mock i (\<lambda>q. q\<lparr>response_timer := None\<rparr>) m)"
    and "timeout_timer_cb i (upd_mock i (\<lambda>q. q\<lparr>timeout_timer := None\<rparr>) m) =
      ([], upd_mock i (\<lambda>q. q\<lparr>timeout_timer := None\<rparr>) m)"
  using assms by (simp_all add: response_timer_cb_def timeout_timer_cb_def Let_def)

lemma mock_idle_law:
  assumes "mock_inv m" and i: "i < length (mock_pending m)" "\<not> mq_in_use (mock_pending m ! i)"
    and "\<not> mq_in_use (f (mock_pending m ! i))"
  shows "mock_inv (upd_mock i f m)" "mock_outstanding (upd_mock i f m) = mock_outstanding m"
  using mock_put[OF assms(1) i(1), of "f (mock_pending m ! i)" "upd_mock i f m"] assms
  by (simp_all add: mock_slot_ok_def slot_token_def)

lemma mock_waiting:
  "mock_inv m \<Longrightarrow> i < length (mock_pending m) \<Longrightarrow> mq_in_use (mock_pending m ! i) \<Longrightarrow>
   \<not> mq_completed (mock_pending m ! i) \<and> timeout_timer (mock_pending m ! i) \<noteq> None"
  using list_all_nthD[of mock_slot_ok "mock_pending m" i] by (simp add: mock_inv_def mock_slot_ok_def)

lemma response_law:
  assumes inv: "mock_inv m" and i: "i < length (mock_pending m)"
    and run: "response_timer_cb i (upd_mock i (\<lambda>q. q\<lparr>response_timer := None\<rparr>) m) = (cbs, m')"
  shows "mock_inv m' \<and> mock_initialized m' = mock_initialized m \<and>
    mock_outstanding m' + answered cbs = mock_outstanding m"
proof (cases "mq_in_use (mock_pending m ! i)")
  case True
  note w = mock_waiting[OF inv i True, THEN conjunct1]
  note f = response_fires[OF i True w run]
  show ?thesis
    using mock_fire_law[OF inv i True _ f(2), of cbs] f(1,3) True by (simp add: mock_cb_tokens)
next
  case False
  then show ?thesis using run mock_idle_law[OF inv i False] timers_idle(1)[OF i False] by auto
qed

lemma timeout_law:
  assumes inv: "mock_inv m" and i: "i < length (mock_pending m)"
    and run: "timeout_timer_cb i (upd_mock i (\<lambda>q. q\<lparr>timeout_timer := None\<rparr>) m) = (cbs, m')"
  shows "mock_inv m' \<and> mock_initialized m' = mock_initialized m \<and>
    mock_outstanding m' + answered cbs = mock_outstanding m"
    and "\<not> mq_in_use (mock_pending m' ! i) \<and>
      (\<forall>j. j \<noteq> i \<longrightarrow> mock_pending m' ! j = mock_pending m ! j)"
proof -
  have "mock_inv m' \<and> mock_initialized m' = mock_initialized m \<and>
      mock_outstanding m' + answered cbs = mock_outstanding m \<and> \<not> mq_in_use (mock_pending m' ! i) \<and>
      (\<forall>j. j \<noteq> i \<longrightarrow> mock_pending m' ! j = mock_pending m ! j)"
  proof (cases "mq_in_use (mock_pending m ! i)")
    case True
    note w = mock_waiting[OF inv i True, THEN conjunct1]
    note f = timeout_fires[OF i True w run]
    show ?thesis
      using mock_fire_law[OF inv i True _ f(2), of cbs] f True i by (simp add: mock_cb_tokens)
  next
    case False
    then show ?thesis using run mock_idle_law[OF inv i False] timers_idle(2)[OF i False] i by auto
  qed
  then show "mock_inv m' \<and> mock_initialized m' = mock_initialized m \<and>
      mock_outstanding m' + answered cbs = mock_outstanding m"
    and "\<not> mq_in_use (mock_pending m' ! i) \<and>
      (\<forall>j. j \<noteq> i \<longrightarrow> mock_pending m' ! j = mock_pending m ! j)" by simp_all
qed

lemma mock_dispatch_law:
  assumes inv: "mock_inv m" and run: "mock_dispatch v m = (cbs, m')"
  shows "mock_inv m' \<and> mock_initialized m' = mock_initialized m \<and>
    mock_outstanding m' + answered cbs = mock_outstanding m"
proof (cases v)
  case (Ev_Response i)
  then show ?thesis using run inv response_law[OF inv, of i cbs m'] by (auto split: if_splits)
next
  case (Ev_Timeout i)
  then show ?thesis using run inv timeout_law(1)[OF inv, of i cbs m'] by (auto split: if_splits)
qed

lemma mock_timer_clears:
  assumes inv: "mock_inv m" and i: "i < 16"
  shows "\<not> mq_in_use (mock_pending (snd (mock_dispatch (Ev_Timeout i) m)) ! i)"
    and "j \<noteq> i \<Longrightarrow> mock_pending (snd (mock_dispatch (Ev_Timeout i) m)) ! j = mock_pending m ! j"
proof -
  have l: "i < length (mock_pending m)" using inv i by (simp add: mock_inv_def)
  obtain cbs m' where r: "timeout_timer_cb i (upd_mock i (\<lambda>q. q\<lparr>timeout_timer := None\<rparr>) m) = (cbs, m')"
    by force
  note t = timeout_law(2)[OF inv l r]
  show "\<not> mq_in_use (mock_pending (snd (mock_dispatch (Ev_Timeout i) m)) ! i)"
    using t r l mock_waiting[OF inv l] by auto
  show "mock_pending (snd (mock_dispatch (Ev_Timeout i) m)) ! j = mock_pending m ! j" if "j \<noteq> i"
    using t r l that by auto
qed

lemma mock_expire_prefix:
  assumes "mock_inv m" and "k \<le> 16"
  shows "mock_inv (fold (\<lambda>v m. snd (mock_dispatch v m)) (map Ev_Timeout [0..<k]) m) \<and>
    (\<forall>j < k. \<not> mq_in_use
      (mock_pending (fold (\<lambda>v m. snd (mock_dispatch v m)) (map Ev_Timeout [0..<k]) m) ! j))"
  using assms(2)
proof (induction k)
  case (Suc k)
  let ?m = "fold (\<lambda>v m. snd (mock_dispatch v m)) (map Ev_Timeout [0..<k]) m"
  have IH: "mock_inv ?m" "\<forall>j < k. \<not> mq_in_use (mock_pending ?m ! j)" using Suc by simp_all
  have "mock_inv (snd (mock_dispatch (Ev_Timeout k) ?m))"
    using mock_dispatch_law[OF IH(1), of "Ev_Timeout k"] by (metis prod.collapse)
  moreover have "\<not> mq_in_use (mock_pending (snd (mock_dispatch (Ev_Timeout k) ?m)) ! j)"
    if "j < Suc k" for j
    using that IH Suc.prems mock_timer_clears[OF IH(1), of k]
    by (auto simp: less_Suc_eq simp del: mock_dispatch.simps)
  ultimately show ?case by (simp del: mock_dispatch.simps)
qed (use assms in simp)

lemma mock_expire_law:
  assumes "mock_inv m"
  shows "mock_outstanding (fold (\<lambda>v m. snd (mock_dispatch v m)) (map Ev_Timeout [0..<16]) m) = {#}"
proof -
  let ?m = "fold (\<lambda>v m. snd (mock_dispatch v m)) (map Ev_Timeout [0..<16]) m"
  have e: "mock_inv ?m" "\<forall>j < 16. \<not> mq_in_use (mock_pending ?m ! j)"
    using mock_expire_prefix[OF assms, of 16] by simp_all
  then have "list_all (\<lambda>q. \<not> mq_in_use q) (mock_pending ?m)"
    by (auto simp: list_all_length mock_inv_def)
  then show ?thesis unfolding mock_outstanding_def by (rule slot_tokens_none)
qed

section \<open>The contract holds\<close>

interpretation mock: ubus_service mock_ops mock_dispatch "map Ev_Timeout [0..<16]" mock_inv
  mock_initialized mock_outstanding
  by unfold_locales
    (auto simp: mock_ops_def mock_query_service_async_def mock_control_service_async_def
      mock_expire_law dest: mock_query_law mock_control_law mock_dispatch_law)

text \<open>A response that arrives after its request was answered calls nobody.\<close>

lemma find_completed_Some:
  "find_completed service qs = Some i \<Longrightarrow>
   i < length qs \<and> mq_completed (qs ! i) \<and> mq_service (qs ! i) = service"
proof (induction qs arbitrary: i)
  case (Cons q qs)
  show ?case
  proof (cases "mq_completed q \<and> mq_service q = service")
    case False
    then obtain k where k: "find_completed service qs = Some k" "i = Suc k" using Cons.prems by auto
    then show ?thesis using Cons.IH[OF k(1)] by simp
  qed (use Cons.prems in auto)
qed simp

lemma late_response_silent:
  assumes "mock_inv m"
  shows "fst (snd (ubus_mock_force_late_response service m)) = []"
    and "snd (snd (ubus_mock_force_late_response service m)) = m"
proof -
  have "fst (snd (ubus_mock_force_late_response service m)) = [] \<and>
      snd (snd (ubus_mock_force_late_response service m)) = m"
  proof (cases "find_completed service (mock_pending m)")
    case None
    then show ?thesis by (simp add: ubus_mock_force_late_response_def)
  next
    case (Some i)
    note i = find_completed_Some[OF Some]
    have "\<not> mq_in_use (mock_pending m ! i)" using mock_waiting[OF assms, of i] i by auto
    then have "(mock_pending m ! i)\<lparr>mq_in_use := False\<rparr> = mock_pending m ! i" by simp
    then show ?thesis
      using Some i by (simp add: ubus_mock_force_late_response_def response_timer_cb_def Let_def
          upd_mock_def)
  qed
  then show "fst (snd (ubus_mock_force_late_response service m)) = []"
    and "snd (snd (ubus_mock_force_late_response service m)) = m" by simp_all
qed

end
