(* ===== verification/Sys_Services.thy ===== *)
theory Sys_Services
  imports Status_Types Ubus_Mock
begin

text \<open>
  Service status over the asynchronous interface (\<open>src/sys_status.c\<close>): periodic queries, the
  callbacks that store their results, and control requests. The two callback contexts that
  the code allocates (\<open>query_ctx_t\<close>, \<open>control_ctx_t\<close>) are the tokens of the interface;
  their \<open>status\<close> pointer is always the one status record.
\<close>

datatype svc_token =
    Query_Ctx u32
  | Control_Ctx int bool

section \<open>Callbacks\<close>

definition upd_service :: "nat \<Rightarrow> (service_status \<Rightarrow> service_status) \<Rightarrow> sys_status \<Rightarrow> sys_status" where
  "upd_service i f st = st\<lparr>services := (services st)[i := f (services st ! i)]\<rparr>"

text \<open>The result of a query: the first service of that name, if the request is its latest.\<close>

definition service_query_cb ::
  "string \<Rightarrow> bool \<Rightarrow> bool \<Rightarrow> int \<Rightarrow> u32 \<Rightarrow> u64 \<Rightarrow> sys_status \<Rightarrow> sys_status" where
  "service_query_cb service inst run status_code req now st =
     (case first_index (\<lambda>s. svc_name s = service) (take (service_count st) (services st)) of
        None \<Rightarrow> st
      | Some i \<Rightarrow>
          if request_id (services st ! i) \<noteq> req then st
          else upd_service i (\<lambda>s.
            let s = s\<lparr>query_pending := False, last_update_ms := now\<rparr> in
            if status_code = UBUS_HAL_STATUS_OK
            then s\<lparr>installed := inst, running := run, status_valid := True\<rparr>
            else s\<lparr>status_valid := False\<rparr>) st)"

definition service_control_cb :: "bool \<Rightarrow> int \<Rightarrow> bool \<Rightarrow> sys_status \<Rightarrow> sys_status" where
  "service_control_cb success idx start st =
     (if idx \<ge> 0 \<and> nat idx < service_count st then
        upd_service (nat idx) (\<lambda>s.
          let s = s\<lparr>last_update_ms := 0\<rparr> in if success then s\<lparr>running := start\<rparr> else s) st
      else st)"

text \<open>
  Running a callback at time \<open>now\<close>. A control callback ends with a call of the function that
  the UI registered; its arguments are a note for the UI.
\<close>

fun status_callback ::
  "u64 \<Rightarrow> svc_token ubus_callback \<Rightarrow> sys_status \<Rightarrow> sys_status \<times> (int \<times> bool) list" where
  "status_callback now (Query_Cb service inst run code (Query_Ctx req)) st =
     (service_query_cb service inst run code req now st, [])"
| "status_callback now (Control_Cb service success code (Control_Ctx idx start)) st =
     (service_control_cb success idx start st, [(idx, success)])"
| "status_callback now _ st = (st, [])"

fun status_callbacks ::
  "u64 \<Rightarrow> svc_token ubus_callback list \<Rightarrow> sys_status \<Rightarrow> sys_status \<times> (int \<times> bool) list" where
  "status_callbacks now [] st = (st, [])"
| "status_callbacks now (c # cs) st =
     (let (st, notes) = status_callback now c st; (st, notes') = status_callbacks now cs st
      in (st, notes @ notes'))"

section \<open>Queries and control\<close>

text \<open>
  The status record with the statics the operations thread: the request counter, the
  interface's state, and the notes for the UI.
\<close>

record 'h service_state =
  ss_status :: sys_status
  g_next_request_id :: u32
  ss_hal :: 'h
  ss_notes :: "(int \<times> bool) list"

text \<open>The counter after taking an id: 0 is skipped.\<close>

definition next_id :: "u32 \<Rightarrow> u32" where
  "next_id n = (if n + 1 = 0 then 1 else n + 1)"

text \<open>Whether a service is due: no query in flight and no update in the last five seconds.\<close>

definition query_due :: "u64 \<Rightarrow> service_status \<Rightarrow> bool" where
  "query_due now svc \<longleftrightarrow>
     \<not> query_pending svc \<and>
     \<not> (last_update_ms svc > 0 \<and> now - last_update_ms svc < SERVICE_REFRESH_INTERVAL_MS)"

text \<open>
  The body of the query loop for service \<open>i\<close>. \<open>mem_ok\<close> is whether \<open>malloc\<close> succeeds,
  \<open>cb_now\<close> the time a callback reads that is run before the call returns.
\<close>

definition query_one ::
  "('e, svc_token, 'h) ubus_hal_ops \<Rightarrow> (nat \<Rightarrow> 'e) \<Rightarrow> (nat \<Rightarrow> bool) \<Rightarrow> u64 \<Rightarrow> u64 \<Rightarrow> nat \<Rightarrow>
   int \<times> 'h service_state \<Rightarrow> int \<times> 'h service_state" where
  "query_one ops e mem_ok now cb_now i cs =
     (let (sent, s) = cs; svc = services (ss_status s) ! i in
      if \<not> query_due now svc then (sent, s)
      else if \<not> mem_ok i then (sent, s)
      else
        let req_id = g_next_request_id s;
            st = upd_service i (\<lambda>v. v\<lparr>query_pending := True, request_id := req_id,
                   request_time_ms := now\<rparr>) (ss_status s);
            (ret, cbs, h) = query_service_async ops (e i) (svc_name svc) (Query_Ctx req_id) (ss_hal s);
            (st, notes) = status_callbacks cb_now cbs st;
            s = s\<lparr>g_next_request_id := next_id req_id, ss_hal := h, ss_notes := ss_notes s @ notes\<rparr>
        in if ret < 0
           then (sent, s\<lparr>ss_status := upd_service i (\<lambda>v. v\<lparr>query_pending := False\<rparr>) st\<rparr>)
           else (sent + 1, s\<lparr>ss_status := st\<rparr>))"

definition sys_status_query_services ::
  "('e, svc_token, 'h) ubus_hal_ops \<Rightarrow> (nat \<Rightarrow> 'e) \<Rightarrow> (nat \<Rightarrow> bool) \<Rightarrow> u64 \<Rightarrow> u64 \<Rightarrow>
   'h service_state \<Rightarrow> int \<times> 'h service_state" where
  "sys_status_query_services ops e mem_ok now cb_now s =
     fold (query_one ops e mem_ok now cb_now) [0..<service_count (ss_status s)] (0, s)"

definition sys_status_has_pending_queries :: "sys_status \<Rightarrow> bool" where
  "sys_status_has_pending_queries st \<longleftrightarrow>
     list_ex query_pending (take (service_count st) (services st))"

definition sys_status_control_service ::
  "('e, svc_token, 'h) ubus_hal_ops \<Rightarrow> 'e \<Rightarrow> bool \<Rightarrow> u64 \<Rightarrow> int \<Rightarrow> bool \<Rightarrow>
   'h service_state \<Rightarrow> int \<times> 'h service_state" where
  "sys_status_control_service ops e mem_ok cb_now index start s =
     (if index < 0 \<or> nat index \<ge> service_count (ss_status s) then (-1, s)
      else if \<not> mem_ok then (-1, s)
      else
        let svc = services (ss_status s) ! nat index;
            (ret, cbs, h) = control_service_async ops e (svc_name svc) start
                              (Control_Ctx index start) (ss_hal s);
            (st, notes) = status_callbacks cb_now cbs (ss_status s);
            s = s\<lparr>ss_status := st, ss_hal := h, ss_notes := ss_notes s @ notes\<rparr>
        in if ret < 0 then (-1, s) else (0, s))"

text \<open>An event of the interface, with the callbacks it leads to.\<close>

definition service_event ::
  "('v \<Rightarrow> 'h \<Rightarrow> svc_token ubus_callback list \<times> 'h) \<Rightarrow> 'v \<Rightarrow> u64 \<Rightarrow>
   'h service_state \<Rightarrow> 'h service_state" where
  "service_event event v now s =
     (let (cbs, h) = event v (ss_hal s); (st, notes) = status_callbacks now cbs (ss_status s)
      in s\<lparr>ss_status := st, ss_hal := h, ss_notes := ss_notes s @ notes\<rparr>)"

section \<open>Frames\<close>

lemma upd_service_sel [simp]:
  "services (upd_service i f st) = (services st)[i := f (services st ! i)]"
  "service_count (upd_service i f st) = service_count st"
  by (simp_all add: upd_service_def)

lemma status_callback_count [simp]:
  "service_count (fst (status_callback now c st)) = service_count st"
  by (cases "(now, c, st)" rule: status_callback.cases)
    (simp_all add: service_query_cb_def service_control_cb_def split: option.split)

lemma upd_service_names:
  assumes "\<And>v. svc_name (f v) = svc_name v"
  shows "map svc_name (services (upd_service i f st)) = map svc_name (services st)"
proof (cases "i < length (services st)")
  case True
  then have "(map svc_name (services st))[i := svc_name (services st ! i)] = map svc_name (services st)"
    using list_update_id[of "map svc_name (services st)" i] by simp
  then show ?thesis using True by (simp add: map_update assms)
qed (simp add: upd_service_def list_update_beyond)

lemma status_callback_names [simp]:
  "map svc_name (services (fst (status_callback now c st))) = map svc_name (services st)"
proof (cases "(now, c, st)" rule: status_callback.cases)
  case (1 n service inst run code req st')
  then show ?thesis
    by (simp add: service_query_cb_def upd_service_names Let_def del: upd_service_sel
        split: option.split)
next
  case (2 n service success code idx start st')
  then show ?thesis
    by (simp add: service_control_cb_def upd_service_names Let_def del: upd_service_sel)
qed simp_all

lemma status_callbacks_frame [simp]:
  "map svc_name (services (fst (status_callbacks now cs st))) = map svc_name (services st)"
  "service_count (fst (status_callbacks now cs st)) = service_count st"
  by (induction cs arbitrary: st) (simp_all add: case_prod_beta Let_def)

section \<open>Pending queries are waited for\<close>

text \<open>
  The link between the status record and the interface: the names are distinct and fit, and
  a service whose query is pending has an outstanding request with its current id.
\<close>

definition names_ok :: "sys_status \<Rightarrow> bool" where
  [wf_defs]: "names_ok st \<longleftrightarrow>
     distinct (take (service_count st) (map svc_name (services st))) \<and>
     list_all (\<lambda>n. length n < REQUEST_NAME_LEN) (map svc_name (services st)) \<and>
     service_count st \<le> length (services st)"

definition linked :: "sys_status \<Rightarrow> svc_token hal_request multiset \<Rightarrow> bool" where
  [wf_defs]: "linked st out \<longleftrightarrow>
     (\<forall>i < service_count st. query_pending (services st ! i) \<longrightarrow>
        Query_Req (svc_name (services st ! i)) (Query_Ctx (request_id (services st ! i))) \<in># out)"

lemma names_ok_cong:
  "map svc_name (services st') = map svc_name (services st) \<Longrightarrow>
   service_count st' = service_count st \<Longrightarrow> names_ok st' = names_ok st"
  by (metis names_ok_def length_map)

lemma names_ok_inj:
  assumes "names_ok st" and "i < service_count st" and "j < service_count st"
    and "svc_name (services st ! i) = svc_name (services st ! j)"
  shows "i = j"
proof -
  have d: "distinct (take (service_count st) (map svc_name (services st)))"
    and l: "service_count st \<le> length (services st)"
    using assms(1) by (simp_all add: names_ok_def)
  show ?thesis
    using nth_eq_iff_index_eq[OF d, of i j] assms(2-4) l by simp
qed

text \<open>One callback removes one outstanding request and keeps the link.\<close>

lemma query_cb_linked:
  assumes ok: "names_ok st" and link: "linked st (add_mset (Query_Req service (Query_Ctx req)) out)"
  shows "linked (service_query_cb service inst run code req now st) out"
proof -
  let ?P = "\<lambda>s. svc_name s = service" and ?n = "service_count st"
  have len: "?n \<le> length (services st)" using ok by (simp add: names_ok_def)
  show ?thesis
  proof (cases "first_index ?P (take ?n (services st))")
    case None
    then have "svc_name (services st ! i) \<noteq> service" if "i < ?n" for i
      using that len by (auto simp: first_index_None list_all_length)
    then show ?thesis using link None by (auto simp: service_query_cb_def linked_def)
  next
    case (Some k)
    have k: "k < ?n" "svc_name (services st ! k) = service"
      using first_index_Some[OF Some] len by auto
    have other: "svc_name (services st ! i) \<noteq> service" if "i < ?n" "i \<noteq> k" for i
      using names_ok_inj[OF ok that(1) k(1)] that(2) k(2) by auto
    show ?thesis
    proof (cases "request_id (services st ! k) = req")
      case True
      then show ?thesis
        using link Some k len other
        by (auto simp: service_query_cb_def linked_def nth_list_update Let_def)
    next
      case False
      then have "\<not> (Query_Req (svc_name (services st ! i)) (Query_Ctx (request_id (services st ! i)))
          = Query_Req service (Query_Ctx req))" if "i < ?n" for i
        using other[OF that] by auto
      then show ?thesis using link Some False by (auto simp: service_query_cb_def linked_def)
    qed
  qed
qed

lemma control_cb_linked:
  assumes "linked st (add_mset (Control_Req service p) out)"
  shows "linked (service_control_cb success idx start st) out"
proof -
  have "linked st out" using assms by (simp add: linked_def)
  then show ?thesis
    by (cases "nat idx < length (services st)")
      (auto simp: service_control_cb_def linked_def nth_list_update list_update_beyond Let_def)
qed

lemma status_callback_linked:
  assumes "names_ok st" and "linked st (add_mset (cb_request c) out)"
  shows "linked (fst (status_callback now c st)) out"
  using assms
  by (cases "(now, c, st)" rule: status_callback.cases)
    (auto intro: query_cb_linked control_cb_linked, auto simp: linked_def)

lemma status_callbacks_linked:
  assumes "names_ok st" and "linked st (out + answered cs)"
  shows "linked (fst (status_callbacks now cs st)) out"
  using assms
proof (induction cs arbitrary: st)
  case (Cons c cs)
  let ?st = "fst (status_callback now c st)"
  have "linked ?st (out + answered cs)"
    using Cons.prems by (intro status_callback_linked) simp_all
  moreover have "names_ok ?st" using Cons.prems(1) names_ok_cong[of ?st st] by simp
  ultimately show ?case using Cons.IH by (simp add: case_prod_beta Let_def)
qed simp

lemma linked_none_pending:
  "names_ok st \<Longrightarrow> linked st {#} \<Longrightarrow> \<not> sys_status_has_pending_queries st"
  by (auto simp: linked_def names_ok_def sys_status_has_pending_queries_def list_ex_length)

section \<open>The client of the interface\<close>

text \<open>What a client may do with the module, and what the event loop does.\<close>

datatype ('e, 'v) service_action =
    Query_All "nat \<Rightarrow> 'e" "nat \<Rightarrow> bool" u64 u64
  | Control_One 'e bool u64 int bool
  | Service_Event 'v u64

fun service_act ::
  "('e, svc_token, 'h) ubus_hal_ops \<Rightarrow> ('v \<Rightarrow> 'h \<Rightarrow> svc_token ubus_callback list \<times> 'h) \<Rightarrow>
   ('e, 'v) service_action \<Rightarrow> 'h service_state \<Rightarrow> 'h service_state" where
  "service_act ops event (Query_All e mem_ok now cb_now) s =
     snd (sys_status_query_services ops e mem_ok now cb_now s)"
| "service_act ops event (Control_One e mem_ok cb_now index start) s =
     snd (sys_status_control_service ops e mem_ok cb_now index start s)"
| "service_act ops event (Service_Event v now) s = service_event event v now s"

definition service_run ::
  "('e, svc_token, 'h) ubus_hal_ops \<Rightarrow> ('v \<Rightarrow> 'h \<Rightarrow> svc_token ubus_callback list \<times> 'h) \<Rightarrow>
   ('e, 'v) service_action list \<Rightarrow> 'h service_state \<Rightarrow> 'h service_state" where
  "service_run ops event as s = fold (service_act ops event) as s"

locale status_client = ubus_service ops event expire inv ready outstanding
  for ops :: "('e, svc_token, 'h) ubus_hal_ops"
    and event :: "'v \<Rightarrow> 'h \<Rightarrow> svc_token ubus_callback list \<times> 'h"
    and expire :: "'v list"
    and inv :: "'h \<Rightarrow> bool"
    and ready :: "'h \<Rightarrow> bool"
    and outstanding :: "'h \<Rightarrow> svc_token hal_request multiset"
begin

definition client_ok :: "'h service_state \<Rightarrow> bool" where
  "client_ok s \<longleftrightarrow> names_ok (ss_status s) \<and> inv (ss_hal s) \<and>
     linked (ss_status s) (outstanding (ss_hal s))"

text \<open>Running the callbacks of an operation that conserves requests keeps the link.\<close>

lemma callbacks_client:
  assumes "names_ok st" and "linked st out" and "outstanding h + answered cbs = out"
  shows "names_ok (fst (status_callbacks now cbs st)) \<and>
    linked (fst (status_callbacks now cbs st)) (outstanding h)"
  using assms status_callbacks_linked[OF assms(1), of "outstanding h" cbs now]
    names_ok_cong[of "fst (status_callbacks now cbs st)" st]
  by simp

lemma event_client:
  assumes "client_ok s"
  shows "client_ok (service_event event v now s)"
proof -
  obtain cbs h where e: "event v (ss_hal s) = (cbs, h)" by force
  have law: "inv h" "outstanding h + answered cbs = outstanding (ss_hal s)"
    using event_law[OF _ e] assms by (simp_all add: client_ok_def)
  show ?thesis
    using assms callbacks_client[OF _ _ law(2), of "ss_status s" now] law(1)
    by (simp add: client_ok_def service_event_def e case_prod_beta Let_def)
qed

lemma control_client:
  assumes ok: "client_ok s"
  shows "client_ok (snd (sys_status_control_service ops e mem_ok cb_now index start s))"
proof (cases "index < 0 \<or> nat index \<ge> service_count (ss_status s) \<or> \<not> mem_ok")
  case True
  then show ?thesis using ok by (auto simp: sys_status_control_service_def)
next
  case False
  let ?n = "svc_name (services (ss_status s) ! nat index)" and ?p = "Control_Ctx index start"
  obtain r cbs h where q: "control_service_async ops e ?n start ?p (ss_hal s) = (r, cbs, h)"
    by (cases "control_service_async ops e ?n start ?p (ss_hal s)") auto
  have n: "length ?n < REQUEST_NAME_LEN"
    using ok False by (auto simp: client_ok_def names_ok_def list_all_length)
  have "names_ok (fst (status_callbacks cb_now cbs (ss_status s))) \<and>
    linked (fst (status_callbacks cb_now cbs (ss_status s))) (outstanding h) \<and> inv h"
  proof (cases "ready (ss_hal s)")
    case True
    have law: "inv h" "outstanding h + answered cbs = add_mset (Control_Req ?n ?p) (outstanding (ss_hal s))"
      using control_law[OF _ True n q] ok by (simp_all add: client_ok_def)
    have "linked (ss_status s) (add_mset (Control_Req ?n ?p) (outstanding (ss_hal s)))"
      using ok by (auto simp: client_ok_def linked_def)
    then show ?thesis
      using callbacks_client[OF _ _ law(2), of "ss_status s" cb_now] law(1) ok
      by (simp add: client_ok_def)
  next
    case nr: False
    then have "cbs = [] \<and> h = ss_hal s" using not_ready(2)[OF nr] q by simp
    then show ?thesis using ok by (simp add: client_ok_def)
  qed
  then show ?thesis
    using False q by (simp add: sys_status_control_service_def client_ok_def case_prod_beta Let_def)
qed

lemma query_one_client:
  assumes ok: "client_ok (snd cs)" and i: "i < service_count (ss_status (snd cs))"
  shows "client_ok (snd (query_one ops e mem_ok now cb_now i cs))"
proof -
  obtain sent s where cs: "cs = (sent, s)" by force
  let ?v = "services (ss_status s) ! i"
  show ?thesis
  proof (cases "query_due now ?v \<and> mem_ok i")
    case False
    then have "query_one ops e mem_ok now cb_now i cs = cs"
      by (auto simp: query_one_def cs Let_def)
    then show ?thesis using ok by simp
  next
    case True
    let ?id = "g_next_request_id s"
    let ?f = "\<lambda>v. v\<lparr>query_pending := True, request_id := ?id, request_time_ms := now\<rparr>"
    let ?st = "upd_service i ?f (ss_status s)"
    obtain r cbs h where q: "query_service_async ops (e i) (svc_name ?v) (Query_Ctx ?id) (ss_hal s) = (r, cbs, h)"
      by (cases "query_service_async ops (e i) (svc_name ?v) (Query_Ctx ?id) (ss_hal s)") auto
    have inv: "inv (ss_hal s)" and names: "names_ok (ss_status s)"
      and link: "linked (ss_status s) (outstanding (ss_hal s))"
      using ok cs by (simp_all add: client_ok_def)
    have len: "i < length (services (ss_status s))" using names i cs by (simp add: names_ok_def)
    have n: "length (svc_name ?v) < REQUEST_NAME_LEN"
      using names len by (auto simp: names_ok_def list_all_length)
    have names': "names_ok ?st"
      using names names_ok_cong[of ?st "ss_status s"] upd_service_names[of ?f i "ss_status s"] by simp
    have res: "snd (query_one ops e mem_ok now cb_now i cs) =
      s\<lparr>g_next_request_id := next_id ?id, ss_hal := h,
        ss_notes := ss_notes s @ snd (status_callbacks cb_now cbs ?st),
        ss_status := (if r < 0 then upd_service i (\<lambda>v. v\<lparr>query_pending := False\<rparr>)
            (fst (status_callbacks cb_now cbs ?st)) else fst (status_callbacks cb_now cbs ?st))\<rparr>"
      using True q cs by (simp add: query_one_def case_prod_beta Let_def)
    show ?thesis
    proof (cases "ready (ss_hal s)")
      case rd: True
      note law = query_law[OF inv rd n q]
      have "linked ?st (add_mset (Query_Req (svc_name ?v) (Query_Ctx ?id)) (outstanding (ss_hal s)))"
        using link len by (auto simp: linked_def nth_list_update)
      then show ?thesis
        using callbacks_client[OF names', of _ h cbs cb_now] law res
        by (simp add: client_ok_def)
    next
      case False
      then have e: "r = -1" "cbs = []" "h = ss_hal s" using not_ready(1)[OF False] q by simp_all
      let ?st' = "upd_service i (\<lambda>v. v\<lparr>query_pending := False\<rparr>) ?st"
      have "names_ok ?st'"
        using names' names_ok_cong[of ?st' ?st] upd_service_names[of "\<lambda>v. v\<lparr>query_pending := False\<rparr>" i ?st]
        by simp
      moreover have "linked ?st' (outstanding (ss_hal s))"
        using link len by (auto simp: linked_def nth_list_update)
      ultimately show ?thesis using e inv by (simp add: res client_ok_def)
    qed
  qed
qed

lemma query_one_count [simp]:
  "service_count (ss_status (snd (query_one ops e mem_ok now cb_now i cs))) =
   service_count (ss_status (snd cs))"
  by (simp add: query_one_def case_prod_beta Let_def)

lemma query_all_client:
  assumes "client_ok s"
  shows "client_ok (snd (sys_status_query_services ops e mem_ok now cb_now s))"
proof -
  have "client_ok (snd (fold (query_one ops e mem_ok now cb_now) is cs))"
    if "client_ok (snd cs)" "\<forall>i \<in> set is. i < service_count (ss_status (snd cs))" for "is" cs
    using that
  proof (induction "is" arbitrary: cs)
    case (Cons i "is")
    then have "client_ok (snd (query_one ops e mem_ok now cb_now i cs))"
      by (intro query_one_client) simp_all
    then show ?case using Cons by simp
  qed simp
  from this[of "(0, s)"] assms show ?thesis by (simp add: sys_status_query_services_def)
qed

lemma act_client: "client_ok s \<Longrightarrow> client_ok (service_act ops event a s)"
  by (cases a) (simp_all add: query_all_client control_client event_client)

lemma run_client: "client_ok s \<Longrightarrow> client_ok (service_run ops event as s)"
  unfolding service_run_def by (induction as arbitrary: s) (simp_all add: act_client)

text \<open>After the timers have run no query is pending, whatever happened before.\<close>

lemma expire_state:
  "ss_hal (fold (\<lambda>v. service_event event v now) vs s) = fold (\<lambda>v h. snd (event v h)) vs (ss_hal s)"
  by (induction vs arbitrary: s) (simp_all add: service_event_def case_prod_beta Let_def)

lemma fold_events:
  "service_run ops event (map (\<lambda>v. Service_Event v now) vs) s = fold (\<lambda>v. service_event event v now) vs s"
  unfolding service_run_def by (induction vs arbitrary: s) simp_all

lemma queries_complete:
  assumes "client_ok s"
  shows "\<not> sys_status_has_pending_queries
    (ss_status (service_run ops event (as @ map (\<lambda>v. Service_Event v now) expire) s))"
proof -
  let ?s = "service_run ops event as s"
  let ?t = "service_run ops event (map (\<lambda>v. Service_Event v now) expire) ?s"
  have t: "service_run ops event (as @ map (\<lambda>v. Service_Event v now) expire) s = ?t"
    by (simp add: service_run_def)
  have s: "client_ok ?s" using run_client[OF assms] .
  have "client_ok ?t" using run_client[OF s] .
  moreover have "inv (ss_hal ?s)" using s by (simp add: client_ok_def)
  moreover have "outstanding (ss_hal ?t) = {#}"
    unfolding fold_events expire_state using s by (intro expire_law) (simp add: client_ok_def)
  ultimately show ?thesis
    unfolding t by (intro linked_none_pending) (simp_all add: client_ok_def)
qed

end

interpretation real_client: status_client real_ops real_dispatch "map Ev_Timer [0..<16]" real_inv
  ubus_initialized real_outstanding
  by unfold_locales

interpretation mock_client: status_client mock_ops mock_dispatch "map Ev_Timeout [0..<16]" mock_inv
  mock_initialized mock_outstanding
  by unfold_locales

end
