(* ===== verification/C_Scan.thy ===== *)
theory C_Scan
  imports Prelude
begin

text \<open>
  The input functions of the C library that the program uses: \<open>fgets\<close> on the text of a
  file, and \<open>sscanf\<close> for the conversions that occur. A number that does not fit its type is
  reduced modulo the width of the type (the C standard leaves this case undefined; the files
  of \<open>/proc\<close> do not contain such numbers).
\<close>

section \<open>Lines\<close>

text \<open>At most \<open>n\<close> characters, up to and including the first newline.\<close>

fun take_line :: "nat \<Rightarrow> string \<Rightarrow> string \<times> string" where
  "take_line 0 s = ([], s)"
| "take_line (Suc n) [] = ([], [])"
| "take_line (Suc n) (c # cs) =
     (if c = CHR 0x0A then ([c], cs) else let (l, r) = take_line n cs in (c # l, r))"

text \<open>\<open>fgets (buf, n, fp)\<close>: the line and the rest of the file; \<open>None\<close> at its end.\<close>

definition fgets :: "nat \<Rightarrow> string \<Rightarrow> (string \<times> string) option" where
  "fgets n s = (if s = [] then None else Some (take_line (n - 1) s))"

lemma take_line_append: "take_line n s = (l, r) \<Longrightarrow> l @ r = s \<and> length l \<le> n"
proof (induction n s arbitrary: l rule: take_line.induct)
  case (3 n c cs)
  then show ?case by (auto split: if_splits prod.splits)
qed auto

lemma take_line_nonempty: "0 < n \<Longrightarrow> s \<noteq> [] \<Longrightarrow> take_line n s = (l, r) \<Longrightarrow> l \<noteq> []"
  by (cases n; cases s) (auto split: if_splits prod.splits)

lemma fgets_shrinks: "fgets n s = Some (l, r) \<Longrightarrow> 1 < n \<Longrightarrow> length r < length s"
proof -
  assume f: "fgets n s = Some (l, r)" and n: "1 < n"
  have t: "take_line (n - 1) s = (l, r)" "s \<noteq> []" using f by (auto simp: fgets_def split: if_splits)
  then have "l \<noteq> []" using take_line_nonempty[of "n - 1" s l r] n by simp
  then show ?thesis using take_line_append[OF t(1)] by auto
qed

text \<open>The lines that repeated calls return, for a buffer of \<open>n + 2\<close> bytes.\<close>

function file_lines :: "nat \<Rightarrow> string \<Rightarrow> string list" where
  "file_lines n s = (case fgets (n + 2) s of None \<Rightarrow> [] | Some (l, r) \<Rightarrow> l # file_lines n r)"
  by pat_completeness auto
termination by (relation "measure (\<lambda>(n, s). length s)") (auto dest: fgets_shrinks)

declare file_lines.simps [simp del]

text \<open>Reading loses nothing.\<close>

lemma concat_file_lines: "concat (file_lines n s) = s"
proof (induction n s rule: file_lines.induct)
  case (1 n s)
  show ?case
  proof (cases "fgets (n + 2) s")
    case None
    then show ?thesis by (simp add: file_lines.simps[of n s] fgets_def split: if_splits)
  next
    case (Some lr)
    obtain l r where lr: "lr = (l, r)" by force
    have "l @ r = s"
      using take_line_append[of "n + 1" s l r] Some lr by (auto simp: fgets_def split: if_splits)
    then show ?thesis using 1[OF Some] lr Some by (simp add: file_lines.simps[of n s])
  qed
qed

section \<open>Numbers\<close>

definition is_space :: "char \<Rightarrow> bool" where
  "is_space c \<longleftrightarrow> c \<in> {CHR '' '', CHR 0x09, CHR 0x0A, CHR 0x0B, CHR 0x0C, CHR 0x0D}"

definition digit_value :: "char \<Rightarrow> nat" where
  "digit_value c =
     (let n = of_char c :: nat in
      if 48 \<le> n \<and> n \<le> 57 then n - 48
      else if 97 \<le> n \<and> n \<le> 102 then n - 87
      else if 65 \<le> n \<and> n \<le> 70 then n - 55 else 255)"

definition digits_value :: "nat \<Rightarrow> string \<Rightarrow> nat" where
  "digits_value base ds = foldl (\<lambda>v d. v * base + digit_value d) 0 ds"

text \<open>Blanks, an optional sign, an optional prefix \<open>0x\<close> for base 16, and digits.\<close>

definition scan_sign :: "string \<Rightarrow> int \<times> string" where
  "scan_sign s =
     (case s of
        c # cs \<Rightarrow> if c = CHR ''-'' then (-1, cs) else if c = CHR ''+'' then (1, cs) else (1, s)
      | [] \<Rightarrow> (1, []))"

definition scan_number :: "nat \<Rightarrow> string \<Rightarrow> (int \<times> string) option" where
  "scan_number base s =
     (let (sg, s) = scan_sign (dropWhile is_space s);
          s = (if base = 16 \<and> (take 2 s = ''0x'' \<or> take 2 s = ''0X'') \<and>
                  drop 2 s \<noteq> [] \<and> digit_value (hd (drop 2 s)) < 16
               then drop 2 s else s);
          ds = takeWhile (\<lambda>c. digit_value c < base) s
      in if ds = [] then None
         else Some (sg * int (digits_value base ds), dropWhile (\<lambda>c. digit_value c < base) s))"

section \<open>Formats\<close>

text \<open>
  A format: blanks, literal characters, and the conversions \<open>%lu\<close> (64 bits), \<open>%d\<close>, \<open>%x\<close>,
  \<open>%<n>s\<close> and \<open>%*d\<close>.
\<close>

datatype scan_dir =
    Scan_Ws | Scan_Char char | Scan_U64 | Scan_Int | Scan_Hex | Scan_Word nat | Scan_Skip

datatype scan_val = V_U64 u64 | V_Int int | V_Hex u32 | V_Str string

text \<open>The values assigned, in order, up to the first directive that fails.\<close>

fun sscanf :: "scan_dir list \<Rightarrow> string \<Rightarrow> scan_val list" where
  "sscanf [] s = []"
| "sscanf (Scan_Ws # ds) s = sscanf ds (dropWhile is_space s)"
| "sscanf (Scan_Char c # ds) s =
     (case s of [] \<Rightarrow> [] | x # xs \<Rightarrow> if x = c then sscanf ds xs else [])"
| "sscanf (Scan_U64 # ds) s =
     (case scan_number 10 s of
        None \<Rightarrow> [] | Some (v, r) \<Rightarrow> V_U64 (word_of_int v) # sscanf ds r)"
| "sscanf (Scan_Int # ds) s =
     (case scan_number 10 s of
        None \<Rightarrow> [] | Some (v, r) \<Rightarrow> V_Int (sint (word_of_int v :: 32 word)) # sscanf ds r)"
| "sscanf (Scan_Hex # ds) s =
     (case scan_number 16 s of
        None \<Rightarrow> [] | Some (v, r) \<Rightarrow> V_Hex (word_of_int v) # sscanf ds r)"
| "sscanf (Scan_Word n # ds) s =
     (let s = dropWhile is_space s; w = take n (takeWhile (\<lambda>c. \<not> is_space c) s)
      in if w = [] then [] else V_Str w # sscanf ds (drop (length w) s))"
| "sscanf (Scan_Skip # ds) s =
     (case scan_number 10 s of None \<Rightarrow> [] | Some (v, r) \<Rightarrow> sscanf ds r)"

section \<open>Scanning what was printed\<close>

lemma digit_value_dec: "k < 10 \<Longrightarrow> digit_value (char_of (48 + k)) = k"
  by (simp add: digit_value_def Let_def of_char_of)

lemma digits_value_snoc: "digits_value b (ds @ [d]) = digits_value b ds * b + digit_value d"
  by (simp add: digits_value_def)

lemma dec_nat_value: "digits_value 10 (dec_nat n) = n"
proof (induction n rule: dec_nat.induct)
  case (1 n)
  show ?case
  proof (cases "n < 10")
    case True
    then show ?thesis by (simp add: dec_nat.simps[of n] digits_value_def digit_value_dec)
  next
    case False
    then have "n = n div 10 * 10 + n mod 10" by simp
    then show ?thesis
      using 1 False by (simp add: dec_nat.simps[of n] digits_value_snoc digit_value_dec)
  qed
qed

lemma dec_nat_digits: "c \<in> set (dec_nat n) \<Longrightarrow> digit_value c < 10"
proof (induction n rule: dec_nat.induct)
  case (1 n)
  then show ?case
    by (cases "n < 10") (auto simp: dec_nat.simps[of n] digit_value_dec)
qed

lemma digit_not_special:
  assumes "digit_value c < 10"
  shows "\<not> is_space c" "c \<noteq> CHR ''-''" "c \<noteq> CHR ''+''"
proof -
  have "digit_value c = 255" if "c \<in> {CHR '' '', CHR 0x09, CHR 0x0A, CHR 0x0B, CHR 0x0C,
      CHR 0x0D, CHR ''-'', CHR ''+''}"
    using that by (auto simp: digit_value_def)
  then show "\<not> is_space c" "c \<noteq> CHR ''-''" "c \<noteq> CHR ''+''"
    using assms by (auto simp: is_space_def)
qed

text \<open>Reading back a printed number that is followed by a blank or the end.\<close>

lemma scan_dec_nat:
  assumes "rest = [] \<or> \<not> digit_value (hd rest) < 10"
  shows "scan_number 10 (dec_nat n @ rest) = Some (int n, rest)"
proof -
  obtain c cs where d: "dec_nat n = c # cs" by (cases "dec_nat n") auto
  have c: "digit_value c < 10" using dec_nat_digits[of c n] d by simp
  have all: "\<forall>x \<in> set (dec_nat n). digit_value x < 10" using dec_nat_digits by blast
  have tw: "takeWhile (\<lambda>c. digit_value c < 10) (dec_nat n @ rest) = dec_nat n"
    and dw: "dropWhile (\<lambda>c. digit_value c < 10) (dec_nat n @ rest) = rest"
    using all assms by (auto simp: takeWhile_append dropWhile_append split: list.splits)
      (cases rest; auto)+
  have "scan_sign (dropWhile is_space (dec_nat n @ rest)) = (1, dec_nat n @ rest)"
    using digit_not_special[OF c] by (simp add: d scan_sign_def)
  then show ?thesis by (simp add: scan_number_def tw dw dec_nat_value)
qed

end
