(* ===== verification/Sys_Local.thy ===== *)
theory Sys_Local
  imports Sys_Services C_Scan C_Float
begin

unbundle bit_operations_syntax

text \<open>
  Local system information (\<open>src/sys_status.c\<close>): CPU load and temperature, memory, host name,
  uptime, addresses and traffic, read from \<open>/proc\<close> and \<open>/sys\<close>. The contents of the files
  and the answers of the system calls are the environment of an update. \<open>unsigned long\<close> has
  64 bits.
\<close>

text \<open>\<open>struct sys_status_ctx\<close>; of a cached file handle only whether it is open matters.\<close>

record sys_status_ctx =
  prev_idle :: u64
  prev_total :: u64
  prev_rx_bytes :: u64
  prev_tx_bytes :: u64
  prev_net_time_ms :: u64
  cached_gw_iface :: string
  gw_cache_time :: int
  fp_stat :: bool
  fp_net :: bool
  fp_mem :: bool
  fp_temp :: bool

text \<open>One element of the list of \<open>getifaddrs\<close>; the address bytes if it is an IPv4 address.\<close>

record ifaddr =
  ifa_name :: string
  ifa_inet :: "(u8 \<times> u8 \<times> u8 \<times> u8) option"
  ifa_loopback :: bool

record local_env =
  file_stat :: string
  file_temp :: string
  file_meminfo :: string
  file_net_dev :: string
  file_route :: "string option"
  host_name :: "string option"
  sys_uptime :: "int option"
  if_addrs :: "ifaddr list option"
  net_now_ms :: u64
  net_now_sec :: int

definition sys_status_init :: "bool \<Rightarrow> bool \<Rightarrow> bool \<Rightarrow> bool \<Rightarrow> sys_status_ctx" where
  "sys_status_init open_stat open_net open_mem open_temp =
     \<lparr>prev_idle = 0, prev_total = 0, prev_rx_bytes = 0, prev_tx_bytes = 0,
      prev_net_time_ms = 0, cached_gw_iface = [], gw_cache_time = 0,
      fp_stat = open_stat, fp_net = open_net, fp_mem = open_mem, fp_temp = open_temp\<rparr>"

text \<open>The files that are open are closed, then the context is freed.\<close>

definition sys_status_cleanup :: "sys_status_ctx option \<Rightarrow> sys_status_ctx option" where
  "sys_status_cleanup ctx =
     map_option (\<lambda>c. c\<lparr>fp_stat := False, fp_net := False, fp_mem := False, fp_temp := False\<rparr>) ctx"

section \<open>CPU and memory\<close>

text \<open>The format \<open>cpu %lu %lu %lu %lu %lu %lu %lu\<close>.\<close>

definition cpu_format :: "scan_dir list" where
  "cpu_format = [Scan_Char CHR ''c'', Scan_Char CHR ''p'', Scan_Char CHR ''u'', Scan_Ws, Scan_U64,
     Scan_Ws, Scan_U64, Scan_Ws, Scan_U64, Scan_Ws, Scan_U64, Scan_Ws, Scan_U64, Scan_Ws, Scan_U64,
     Scan_Ws, Scan_U64]"

text \<open>The load over the interval since the previous reading.\<close>

definition cpu_load :: "u64 \<Rightarrow> u64 \<Rightarrow> f32" where
  "cpu_load idle_diff total_diff =
     f32_mul 100 (f32_sub 1 (f32_div (f32_of_u64 idle_diff) (f32_of_u64 total_diff)))"

definition update_cpu_usage ::
  "local_env \<Rightarrow> sys_status_ctx \<Rightarrow> sys_status \<Rightarrow> sys_status_ctx \<times> sys_status" where
  "update_cpu_usage e ctx st =
     (if \<not> fp_stat ctx then (ctx, st)
      else case fgets 256 (file_stat e) of
        None \<Rightarrow> (ctx, st)
      | Some (line, _) \<Rightarrow>
          (case sscanf cpu_format line of
             [V_U64 user, V_U64 nice, V_U64 system, V_U64 idle, V_U64 iowait, V_U64 irq, V_U64 softirq] \<Rightarrow>
               let total = user + nice + system + idle + iowait + irq + softirq;
                   idle_all = idle + iowait;
                   st = (if prev_total ctx > 0 then
                           let total_diff = total - prev_total ctx;
                               idle_diff = idle_all - prev_idle ctx
                           in if total_diff > 0
                              then st\<lparr>cpu_usage := cpu_load idle_diff total_diff\<rparr> else st
                         else st)
               in (ctx\<lparr>prev_total := total, prev_idle := idle_all\<rparr>, st)
           | _ \<Rightarrow> (ctx, st)))"

definition update_cpu_temp :: "local_env \<Rightarrow> sys_status_ctx \<Rightarrow> sys_status \<Rightarrow> sys_status" where
  "update_cpu_temp e ctx st =
     (if \<not> fp_temp ctx then st
      else case sscanf [Scan_Int] (file_temp e) of
        [V_Int temp] \<Rightarrow> st\<lparr>cpu_temp := f32_div (f32_of_int temp) 1000\<rparr>
      | _ \<Rightarrow> st)"

text \<open>\<open>sscanf (line + n, "%lu", &field)\<close> whose result is ignored.\<close>

definition scan_field :: "nat \<Rightarrow> string \<Rightarrow> u64 \<Rightarrow> u64" where
  "scan_field n line old =
     (case sscanf [Scan_U64] (drop n line) of [V_U64 v] \<Rightarrow> v | _ \<Rightarrow> old)"

fun mem_loop :: "string list \<Rightarrow> nat \<Rightarrow> sys_status \<Rightarrow> sys_status" where
  "mem_loop [] found st = st"
| "mem_loop (line # lines) found st =
     (if found < 2 then
        if take 9 line = ''MemTotal:'' then
          mem_loop lines (found + 1) (st\<lparr>mem_total_kb := scan_field 9 line (mem_total_kb st)\<rparr>)
        else if take 13 line = ''MemAvailable:'' then
          mem_loop lines (found + 1) (st\<lparr>mem_available_kb := scan_field 13 line (mem_available_kb st)\<rparr>)
        else mem_loop lines found st
      else st)"

text \<open>The line buffer has 128 bytes.\<close>

definition update_memory :: "local_env \<Rightarrow> sys_status_ctx \<Rightarrow> sys_status \<Rightarrow> sys_status" where
  "update_memory e ctx st =
     (if \<not> fp_mem ctx then st else mem_loop (file_lines 126 (file_meminfo e)) 0 st)"

section \<open>Host name, uptime and address\<close>

definition update_hostname :: "local_env \<Rightarrow> sys_status \<Rightarrow> sys_status" where
  "update_hostname e st =
     (case host_name e of
        Some name \<Rightarrow> st\<lparr>hostname := bounded_copy HOSTNAME_MAX_LEN name\<rparr>
      | None \<Rightarrow> st\<lparr>hostname := bounded_copy HOSTNAME_MAX_LEN ''Unknown''\<rparr>)"

definition update_uptime :: "local_env \<Rightarrow> sys_status \<Rightarrow> sys_status" where
  "update_uptime e st =
     (case sys_uptime e of Some up \<Rightarrow> st\<lparr>uptime_sec := word_of_int up\<rparr> | None \<Rightarrow> st)"

text \<open>\<open>inet_ntop\<close> for IPv4, and \<open>%u.%u.%u.%u\<close>.\<close>

definition dotted :: "nat \<Rightarrow> nat \<Rightarrow> nat \<Rightarrow> nat \<Rightarrow> string" where
  "dotted a b c d = dec_nat a @ ''.'' @ dec_nat b @ ''.'' @ dec_nat c @ ''.'' @ dec_nat d"

definition inet_ntop :: "u8 \<times> u8 \<times> u8 \<times> u8 \<Rightarrow> string" where
  "inet_ntop addr = (case addr of (a, b, c, d) \<Rightarrow> dotted (unat a) (unat b) (unat c) (unat d))"

fun find_inet :: "(ifaddr \<Rightarrow> bool) \<Rightarrow> ifaddr list \<Rightarrow> string option" where
  "find_inet P [] = None"
| "find_inet P (a # as) =
     (case ifa_inet a of
        None \<Rightarrow> find_inet P as
      | Some addr \<Rightarrow> if P a then Some (inet_ntop addr) else find_inet P as)"

text \<open>The loop over the interface names in their order of priority.\<close>

fun by_priority :: "string list \<Rightarrow> ifaddr list \<Rightarrow> string \<Rightarrow> string" where
  "by_priority [] addrs ip = ip"
| "by_priority (p # ps) addrs ip =
     (if ip = [] then
        by_priority ps addrs
          (case find_inet (\<lambda>a. ifa_name a = p) addrs of None \<Rightarrow> ip | Some s \<Rightarrow> s)
      else ip)"

definition update_ip_addr :: "local_env \<Rightarrow> sys_status \<Rightarrow> sys_status" where
  "update_ip_addr e st =
     (case if_addrs e of
        None \<Rightarrow> st\<lparr>ip_addr := bounded_copy IP_ADDR_MAX_LEN ''No IP''\<rparr>
      | Some addrs \<Rightarrow>
          let ip = by_priority [''br-lan'', ''eth0'', ''wlan0''] addrs [];
              ip = (if ip = [] then
                      (case find_inet (\<lambda>a. \<not> ifa_loopback a) addrs of None \<Rightarrow> ip | Some s \<Rightarrow> s)
                    else ip);
              ip = (if ip = [] then bounded_copy IP_ADDR_MAX_LEN ''No IP'' else ip)
          in st\<lparr>ip_addr := ip\<rparr>)"

section \<open>Traffic\<close>

text \<open>The bytes of the gateway word in the order they are printed.\<close>

definition gateway_string :: "u32 \<Rightarrow> string" where
  "gateway_string gw =
     bounded_copy IP_ADDR_MAX_LEN
       (dotted (unat (gw AND 0xFF)) (unat (drop_bit 8 gw AND 0xFF))
          (unat (drop_bit 16 gw AND 0xFF)) (unat (drop_bit 24 gw AND 0xFF)))"

text \<open>The search of the routing table for the default route, \<open>%15s %x %x\<close>.\<close>

fun route_loop :: "string list \<Rightarrow> sys_status_ctx \<Rightarrow> sys_status \<Rightarrow> sys_status_ctx \<times> sys_status" where
  "route_loop [] ctx st = (ctx, st)"
| "route_loop (line # lines) ctx st =
     (case sscanf [Scan_Word 15, Scan_Ws, Scan_Hex, Scan_Ws, Scan_Hex] line of
        [V_Str iface, V_Hex dest, V_Hex gw] \<Rightarrow>
          if dest = 0
          then (ctx\<lparr>cached_gw_iface := bounded_copy 16 iface\<rparr>,
                if gw \<noteq> 0 then st\<lparr>gateway := gateway_string gw\<rparr> else st)
          else route_loop lines ctx st
      | _ \<Rightarrow> route_loop lines ctx st)"

definition refresh_gateway ::
  "local_env \<Rightarrow> sys_status_ctx \<Rightarrow> sys_status \<Rightarrow> sys_status_ctx \<times> sys_status" where
  "refresh_gateway e ctx st =
     (if cached_gw_iface ctx = [] \<or> net_now_sec e - gw_cache_time ctx \<ge> 30 then
        let ctx = ctx\<lparr>cached_gw_iface := []\<rparr>;
            st = st\<lparr>gateway := []\<rparr>;
            (ctx, st) = (case file_route e of
                           None \<Rightarrow> (ctx, st)
                         | Some text \<Rightarrow> route_loop (drop 1 (file_lines 254 text)) ctx st);
            ctx = (if cached_gw_iface ctx = [] then ctx\<lparr>cached_gw_iface := ''eth0''\<rparr> else ctx);
            st = (if gateway st = [] then st\<lparr>gateway := ''--''\<rparr> else st)
        in (ctx\<lparr>gw_cache_time := net_now_sec e\<rparr>, st)
      else (ctx, st))"

text \<open>The format \<open>%15s %lu %*d %*d %*d %*d %*d %*d %*d %lu\<close>.\<close>

definition dev_format :: "scan_dir list" where
  "dev_format = [Scan_Word 15, Scan_Ws, Scan_U64, Scan_Ws, Scan_Skip, Scan_Ws, Scan_Skip, Scan_Ws,
     Scan_Skip, Scan_Ws, Scan_Skip, Scan_Ws, Scan_Skip, Scan_Ws, Scan_Skip, Scan_Ws, Scan_Skip,
     Scan_Ws, Scan_U64]"

text \<open>The first colon of a line becomes a blank; a line without one is skipped.\<close>

fun blank_colon :: "string \<Rightarrow> string option" where
  "blank_colon [] = None"
| "blank_colon (c # cs) =
     (if c = CHR '':'' then Some (CHR '' '' # cs) else map_option ((#) c) (blank_colon cs))"

fun dev_loop :: "string \<Rightarrow> string list \<Rightarrow> sys_status \<Rightarrow> sys_status" where
  "dev_loop gw_iface [] st = st"
| "dev_loop gw_iface (line # lines) st =
     (case blank_colon line of
        None \<Rightarrow> dev_loop gw_iface lines st
      | Some line \<Rightarrow>
          (case sscanf dev_format (dropWhile (\<lambda>c. c = CHR '' '') line) of
             [V_Str iface, V_U64 rx, V_U64 tx] \<Rightarrow>
               if iface = gw_iface then st\<lparr>rx_bytes := rx, tx_bytes := tx\<rparr>
               else dev_loop gw_iface lines st
           | _ \<Rightarrow> dev_loop gw_iface lines st))"

text \<open>Bytes per second from two readings, unless the counter went back.\<close>

definition net_speed :: "u64 \<Rightarrow> u64 \<Rightarrow> u64 \<Rightarrow> u64 \<Rightarrow> u64" where
  "net_speed old bytes prev elapsed_ms =
     (if elapsed_ms > 0 \<and> bytes \<ge> prev then (bytes - prev) * 1000 div elapsed_ms else old)"

definition update_network_stats ::
  "local_env \<Rightarrow> sys_status_ctx \<Rightarrow> sys_status \<Rightarrow> sys_status_ctx \<times> sys_status" where
  "update_network_stats e ctx st =
     (if \<not> fp_net ctx then (ctx, st)
      else
        let now_ms = net_now_ms e;
            (ctx, st) = refresh_gateway e ctx st;
            st = dev_loop (cached_gw_iface ctx) (file_lines 254 (file_net_dev e)) st;
            st = (if prev_net_time_ms ctx > 0 \<and> now_ms > prev_net_time_ms ctx then
                    let elapsed_ms = now_ms - prev_net_time_ms ctx;
                        st = st\<lparr>rx_speed := net_speed (rx_speed st) (rx_bytes st) (prev_rx_bytes ctx) elapsed_ms\<rparr>
                    in st\<lparr>tx_speed := net_speed (tx_speed st) (tx_bytes st) (prev_tx_bytes ctx) elapsed_ms\<rparr>
                  else st)
        in (ctx\<lparr>prev_rx_bytes := rx_bytes st, prev_tx_bytes := tx_bytes st,
                prev_net_time_ms := now_ms\<rparr>, st))"

section \<open>The update\<close>

text \<open>The service list is filled from the configuration once.\<close>

definition init_services :: "string list \<Rightarrow> sys_status \<Rightarrow> sys_status" where
  "init_services cfg st =
     (let names = take MAX_SERVICES cfg
      in st\<lparr>services := map (\<lambda>n. zero_service\<lparr>svc_name := bounded_copy SERVICE_NAME_MAX_LEN n\<rparr>) names @
              drop (length names) (services st),
            service_count := length cfg\<rparr>)"

definition sys_status_update_local ::
  "local_env \<Rightarrow> sys_status_ctx \<Rightarrow> sys_status \<Rightarrow> 'a config_world_scheme \<Rightarrow>
   sys_status_ctx \<times> sys_status \<times> 'a config_world_scheme" where
  "sys_status_update_local e ctx st w =
     (let (st, w) = (if service_count st = 0 then
                       let (cfg, w) = service_config_get w
                       in (if 0 < length cfg then init_services cfg st else st, w)
                     else (st, w));
          (ctx, st) = update_cpu_usage e ctx st;
          st = update_cpu_temp e ctx st;
          st = update_memory e ctx st;
          st = update_hostname e st;
          st = update_uptime e st;
          st = update_ip_addr e st;
          (ctx, st) = update_network_stats e ctx st
      in (ctx, st, w))"

section \<open>CPU load is a percentage\<close>

lemma cpu_load_range:
  assumes "idle_diff \<le> total_diff"
  shows "0 \<le> cpu_load idle_diff total_diff \<and> cpu_load idle_diff total_diff \<le> 100"
proof -
  have nn: "0 \<le> f32_of_u64 w" for w
    unfolding f32_of_u64_def by (rule fround_nonneg[OF of_nat_0_le_iff])
  have "rat_of_nat (unat idle_diff) \<le> rat_of_nat (unat total_diff)"
    using assms by (simp only: of_nat_le_iff word_le_nat_alt)
  then have le: "f32_of_u64 idle_diff \<le> f32_of_u64 total_diff"
    unfolding f32_of_u64_def by (rule fround_mono[OF of_nat_0_le_iff]) simp
  let ?q = "f32_of_u64 idle_diff / f32_of_u64 total_diff"
  have "0 \<le> ?q" "?q \<le> 1"
    using le nn by (auto simp: divide_le_eq_1 less_le intro: divide_nonneg_nonneg)
  then have q: "0 \<le> f32_rnd ?q" "f32_rnd ?q \<le> 1" using fround_unit[of ?q 24] by simp_all
  then have s: "0 \<le> f32_rnd (1 - f32_rnd ?q)" "f32_rnd (1 - f32_rnd ?q) \<le> 1"
    using fround_unit[of "1 - f32_rnd ?q" 24] by simp_all
  have "f32_rnd (100 * f32_rnd (1 - f32_rnd ?q)) \<le> f32_rnd 100"
    using s by (intro fround_mono) simp_all
  moreover have "f32_rnd 100 = 100" using fround_of_int[of 100 24] by simp
  ultimately show ?thesis
    using s by (simp add: cpu_load_def f32_mul_def f32_sub_def f32_div_def fround_nonneg)
qed

section \<open>Scanning the CPU line\<close>

text \<open>The line of \<open>/proc/stat\<close> as the kernel prints it: seven or more counters.\<close>

definition cpu_line :: "nat list \<Rightarrow> string \<Rightarrow> string" where
  "cpu_line vs rest = ''cpu '' @ concat (map (\<lambda>v. CHR '' '' # dec_nat v) vs) @ rest"

lemma is_space_blank [simp]: "is_space CHR '' ''"
  by (simp add: is_space_def)

lemma drop_space_dec: "dropWhile is_space (dec_nat v @ s) = dec_nat v @ s"
proof -
  obtain c cs where d: "dec_nat v = c # cs" by (cases "dec_nat v") auto
  have "\<not> is_space c" using dec_nat_digits[of c v] d by (intro digit_not_special(1)) simp
  then show ?thesis by (simp add: d)
qed

lemma scan_printed:
  assumes "rest = [] \<or> \<not> digit_value (hd rest) < 10"
  shows "sscanf (Scan_Ws # Scan_U64 # ds) (dec_nat v @ rest) =
    V_U64 (word_of_nat v) # sscanf ds rest"
  using scan_dec_nat[OF assms, of v] by (simp add: drop_space_dec)

lemma scan_blank: "sscanf (Scan_Ws # ds) (CHR '' '' # s) = sscanf (Scan_Ws # ds) s"
  by simp

lemma digit_value_blank [simp]: "\<not> digit_value CHR '' '' < 10" "\<not> digit_value CHR 0x0A < 10"
  by (simp_all add: digit_value_def)

lemma scan_cpu_line:
  assumes "rest = [] \<or> \<not> digit_value (hd rest) < 10"
  shows "sscanf cpu_format (cpu_line [a, b, c, d, e, f, g] rest) =
    [V_U64 (word_of_nat a), V_U64 (word_of_nat b), V_U64 (word_of_nat c), V_U64 (word_of_nat d),
     V_U64 (word_of_nat e), V_U64 (word_of_nat f), V_U64 (word_of_nat g)]"
  using assms
  by (simp add: cpu_format_def cpu_line_def scan_printed scan_blank del: sscanf.simps(2,4))

lemma take_line_line:
  "CHR 0x0A \<notin> set l \<Longrightarrow> length l < n \<Longrightarrow> take_line n (l @ CHR 0x0A # r) = (l @ [CHR 0x0A], r)"
proof (induction n l rule: take_line.induct)
  case (2 n)
  then show ?case by simp
next
  case (3 n c cs)
  then show ?case by auto
qed simp

lemma dec_nat_no_newline: "CHR 0x0A \<notin> set (dec_nat v)"
  using dec_nat_digits[of "CHR 0x0A" v] by auto

lemma cpu_line_split: "cpu_line vs rest = cpu_line vs [] @ rest"
  by (simp add: cpu_line_def)

lemma cpu_line_no_newline: "CHR 0x0A \<notin> set (cpu_line vs [])"
  by (auto simp: cpu_line_def dec_nat_no_newline)

text \<open>Reading a file that begins with such a line.\<close>

lemma update_cpu_printed:
  assumes "fp_stat ctx" and "file_stat e = cpu_line [a, b, c, d, i, q, s] (CHR 0x0A # tail)"
    and "length (cpu_line [a, b, c, d, i, q, s] []) < 255"
  shows "update_cpu_usage e ctx st =
    (let total = word_of_nat (a + b + c + d + i + q + s); idle_all = word_of_nat (d + i) in
     (ctx\<lparr>prev_total := total, prev_idle := idle_all\<rparr>,
      if prev_total ctx > 0 \<and> total - prev_total ctx > 0
      then st\<lparr>cpu_usage := cpu_load (idle_all - prev_idle ctx) (total - prev_total ctx)\<rparr> else st))"
proof -
  let ?l = "cpu_line [a, b, c, d, i, q, s] []"
  have "take_line 255 (?l @ CHR 0x0A # tail) = (?l @ [CHR 0x0A], tail)"
    using assms(3) cpu_line_no_newline by (intro take_line_line) auto
  moreover have "?l \<noteq> []" by (simp add: cpu_line_def)
  ultimately have f: "fgets 256 (file_stat e) = Some (?l @ [CHR 0x0A], tail)"
    by (simp add: assms(2) cpu_line_split[of _ "_ # _"] fgets_def)
  have "sscanf cpu_format (?l @ [CHR 0x0A]) =
    [V_U64 (word_of_nat a), V_U64 (word_of_nat b), V_U64 (word_of_nat c), V_U64 (word_of_nat d),
     V_U64 (word_of_nat i), V_U64 (word_of_nat q), V_U64 (word_of_nat s)]"
    using scan_cpu_line[of "[CHR 0x0A]"] cpu_line_split[of _ "[CHR 0x0A]"] by simp
  then show ?thesis
    using assms(1) by (simp add: update_cpu_usage_def f Let_def)
qed

section \<open>Address selection\<close>

text \<open>
  What the code means to show: the first address found in the order br-lan, eth0, wlan0, any
  interface that is not the loopback.
\<close>

definition preferred_ip :: "ifaddr list \<Rightarrow> string" where
  "preferred_ip addrs =
     (case List.map_filter (\<lambda>P. find_inet P addrs)
        [\<lambda>a. ifa_name a = ''br-lan'', \<lambda>a. ifa_name a = ''eth0'', \<lambda>a. ifa_name a = ''wlan0'',
         \<lambda>a. \<not> ifa_loopback a] of
        [] \<Rightarrow> ''No IP''
      | s # _ \<Rightarrow> s)"

lemma find_inet_nonempty: "find_inet P addrs = Some s \<Longrightarrow> s \<noteq> []"
  by (induction P addrs rule: find_inet.induct)
    (auto simp: inet_ntop_def dotted_def split: option.splits if_splits)

lemma update_ip_addr_eq:
  "update_ip_addr e st =
   st\<lparr>ip_addr := (case if_addrs e of None \<Rightarrow> ''No IP'' | Some addrs \<Rightarrow> preferred_ip addrs)\<rparr>"
  by (auto simp: update_ip_addr_def preferred_ip_def map_filter_simps bounded_copy_def Let_def
      dest: find_inet_nonempty split: option.split)

lemma dotted_length:
  assumes "a < 256" and "b < 256" and "c < 256" and "d < 256"
  shows "length (dotted a b c d) < 16"
proof -
  have "length (dec_nat n) \<le> 3" if "n < 256" for n using that by (intro length_dec_nat) auto
  from this[OF assms(1)] this[OF assms(2)] this[OF assms(3)] this[OF assms(4)]
  show ?thesis by (simp add: dotted_def)
qed

text \<open>The gateway word holds the address bytes in little-endian order.\<close>

lemma gateway_string_bytes:
  fixes a b c d :: u8
  shows "gateway_string (ucast a OR push_bit 8 (ucast b) OR push_bit 16 (ucast c) OR push_bit 24 (ucast d)) =
    dotted (unat a) (unat b) (unat c) (unat d)"
proof -
  let ?w = "ucast a OR push_bit 8 (ucast b) OR push_bit 16 (ucast c) OR push_bit 24 (ucast d) :: u32"
  have m: "(0xFF :: u32) = mask 8" by (simp add: mask_eq_exp_minus_1)
  have n: "n < 8" if "bit (x :: u8) n" for x n using bit_imp_le_length[OF that] by simp
  have w1: "?w AND mask 8 = ucast a" by (rule bit_word_eqI) (auto simp: bit_simps dest: n)
  have w2: "drop_bit 8 ?w AND mask 8 = ucast b" by (rule bit_word_eqI) (auto simp: bit_simps dest: n)
  have w3: "drop_bit 16 ?w AND mask 8 = ucast c" by (rule bit_word_eqI) (auto simp: bit_simps dest: n)
  have w4: "drop_bit 24 ?w AND mask 8 = ucast d" by (rule bit_word_eqI) (auto simp: bit_simps dest: n)
  have u: "unat (ucast x :: u32) = unat x" for x :: u8
    by (simp add: unsigned_ucast_eq take_bit_nat_eq_self order_less_le_trans[OF unsigned_less])
  have l: "unat x < 256" for x :: u8 using unsigned_less[of x] by simp
  show ?thesis
    unfolding gateway_string_def m w1 w2 w3 w4 u by (rule bounded_copy_fits) (rule dotted_length; rule l)
qed

section \<open>Rates\<close>

lemma net_speed_value:
  assumes "prev \<le> bytes" and "0 < elapsed" and "(unat bytes - unat prev) * 1000 < 2 ^ 64"
  shows "unat (net_speed old bytes prev elapsed) = (unat bytes - unat prev) * 1000 div unat elapsed"
proof -
  have d: "unat (bytes - prev) = unat bytes - unat prev" by (rule unat_diff_le[OF assms(1)])
  have "unat ((bytes - prev) * 1000) = (unat bytes - unat prev) * 1000"
    using assms(3) by (subst unat_word_ariths(2), subst d) simp
  then show ?thesis using assms by (simp add: net_speed_def unat_div)
qed

section \<open>The service list\<close>

lemma init_services_names:
  assumes "length (services st) = MAX_SERVICES" and "list_all service_name_ok cfg"
    and "length cfg \<le> MAX_SERVICES"
  shows "take (service_count (init_services cfg st)) (map svc_name (services (init_services cfg st))) = cfg"
    and "length (services (init_services cfg st)) = MAX_SERVICES"
proof -
  have "map (\<lambda>n. bounded_copy SERVICE_NAME_MAX_LEN n) cfg = cfg"
    using assms(2) by (intro map_idI) (auto simp: list_all_iff service_name_ok_def bounded_copy_fits)
  then show "take (service_count (init_services cfg st)) (map svc_name (services (init_services cfg st))) = cfg"
    using assms by (simp add: init_services_def Let_def o_def)
  show "length (services (init_services cfg st)) = MAX_SERVICES"
    using assms by (simp add: init_services_def Let_def)
qed

end
