(* ===== verification/Ui_Controller.thy ===== *)
theory Ui_Controller
  imports Pages Sys_Local
begin

text \<open>
  The UI controller (\<open>src/ui_controller.c\<close>): it feeds keys to the page controller, passes
  confirmed control requests on to the service module, refreshes the status on ticks and
  renders to the display. The asynchronous interface is the parameter \<open>ops\<close>; the display is
  the SSD1306 driver. What the calls of an operation read from the system is its
  environment.
\<close>

abbreviation (input) UI_TICK_ANIM_MS :: int where "UI_TICK_ANIM_MS \<equiv> 20"
abbreviation (input) UI_TICK_STATIC_MS :: int where "UI_TICK_STATIC_MS \<equiv> 1000"
abbreviation (input) UI_TICK_IDLE_MS :: int where "UI_TICK_IDLE_MS \<equiv> 0"
abbreviation (input) UI_AUTO_SLEEP_MS :: u32 where "UI_AUTO_SLEEP_MS \<equiv> 30000"

text \<open>
  \<open>ui_controller_t\<close> with the statics that its operations reach: the status record is part of
  \<open>ui_svc\<close>, the statics of the page modules and the display are \<open>ui_world\<close>.
\<close>

record 'h ui_controller =
  page_ctrl :: "app_world page_controller"
  ui_svc :: "'h service_state"
  status_ctx :: "sys_status_ctx option"
  needs_render :: bool
  power_on :: bool
  ui_world :: app_world

record 'e key_env =
  ke_hal :: 'e
  ke_mem :: bool
  ke_cb_now :: u64

record 'e tick_env =
  te_local :: local_env
  te_hal :: "nat \<Rightarrow> 'e"
  te_mem :: "nat \<Rightarrow> bool"
  te_now :: u64
  te_cb_now :: u64

section \<open>Operations\<close>

definition ui_services_control_cb :: "int \<times> bool \<Rightarrow> app_world \<Rightarrow> app_world" where
  "ui_services_control_cb result w = page_services_notify_control_result (fst result) (snd result) w"

text \<open>
  The calls of \<open>ui_services_control_cb\<close> that an operation of the service module made. They
  touch the icons of the services page only, which the module does not read.
\<close>

definition run_notes :: "'h ui_controller \<Rightarrow> 'h ui_controller" where
  "run_notes ui =
     ui\<lparr>ui_world := fold ui_services_control_cb (ss_notes (ui_svc ui)) (ui_world ui),
        ui_svc := (ui_svc ui)\<lparr>ss_notes := []\<rparr>\<rparr>"

text \<open>\<open>ctx\<close> is the context that \<open>sys_status_init\<close> returned, if any.\<close>

definition ui_controller_init ::
  "sys_status_ctx option \<Rightarrow> local_env \<Rightarrow> 'h ui_controller \<Rightarrow> 'h ui_controller" where
  "ui_controller_init ctx e ui =
     (let pgs = pages_get_list;
          (pc, w) = page_controller_init pgs (int (length pgs)) (ui_world ui);
          ui = ui\<lparr>ui_svc := (ui_svc ui)\<lparr>ss_status := zero_status\<rparr>, power_on := True,
                  needs_render := True,
                  page_ctrl := page_controller_set_idle_timeout UI_AUTO_SLEEP_MS pc,
                  ui_world := w, status_ctx := ctx\<rparr>
      in case ctx of
           None \<Rightarrow> ui
         | Some c \<Rightarrow>
             (let (c, st, w) = sys_status_update_local e c (ss_status (ui_svc ui)) (ui_world ui)
              in ui\<lparr>status_ctx := Some c, ui_svc := (ui_svc ui)\<lparr>ss_status := st\<rparr>, ui_world := w\<rparr>))"

definition ui_controller_cleanup :: "'h ui_controller \<Rightarrow> 'h ui_controller" where
  "ui_controller_cleanup ui =
     ui\<lparr>ui_world := page_controller_destroy (page_ctrl ui) (ui_world ui), status_ctx := None\<rparr>"

text \<open>Taking the control request of the services page and starting it.\<close>

definition ui_take_control ::
  "('e, svc_token, 'h) ubus_hal_ops \<Rightarrow> 'e key_env \<Rightarrow> u64 \<Rightarrow> 'h ui_controller \<Rightarrow> 'h ui_controller" where
  "ui_take_control ops e now ui =
     (let (req, w) = page_services_take_control_request now (ui_world ui);
          ui = ui\<lparr>ui_world := w\<rparr>
      in case req of
           None \<Rightarrow> ui
         | Some (index, start) \<Rightarrow>
             (let (failed, ui) =
                (case status_ctx ui of
                   None \<Rightarrow> (True, ui)
                 | Some _ \<Rightarrow>
                     (let (ret, s) = sys_status_control_service ops (ke_hal e) (ke_mem e)
                                       (ke_cb_now e) index start (ui_svc ui)
                      in (ret < 0, run_notes (ui\<lparr>ui_svc := s\<rparr>))))
              in if failed
                 then ui\<lparr>ui_world := page_services_notify_control_result index False (ui_world ui)\<rparr>
                 else ui))"

definition ui_controller_handle_button ::
  "('e, svc_token, 'h) ubus_hal_ops \<Rightarrow> 'e key_env \<Rightarrow> u8 \<Rightarrow> bool \<Rightarrow> u64 \<Rightarrow>
   'h ui_controller \<Rightarrow> bool \<times> 'h ui_controller" where
  "ui_controller_handle_button ops e key long_press now ui =
     (let (changed, pc, w) = page_controller_handle_key key long_press now (page_ctrl ui) (ui_world ui);
          ui = ui\<lparr>page_ctrl := pc, ui_world := w\<rparr>;
          ui = ui\<lparr>power_on := page_controller_is_screen_on (page_ctrl ui)\<rparr>;
          ui = ui_take_control ops e now ui
      in (changed, if changed then ui\<lparr>needs_render := True\<rparr> else ui))"

text \<open>The status refresh of a tick; it happens only while nothing is animated.\<close>

definition ui_refresh ::
  "('e, svc_token, 'h) ubus_hal_ops \<Rightarrow> 'e tick_env \<Rightarrow> sys_status_ctx \<Rightarrow>
   'h ui_controller \<Rightarrow> 'h ui_controller" where
  "ui_refresh ops e ctx ui =
     (let (ctx, st, w) = sys_status_update_local (te_local e) ctx (ss_status (ui_svc ui)) (ui_world ui);
          ui = ui\<lparr>status_ctx := Some ctx, ui_svc := (ui_svc ui)\<lparr>ss_status := st\<rparr>, ui_world := w\<rparr>
      in if service_count (ss_status (ui_svc ui)) > 0
         then let (_, s) = sys_status_query_services ops (te_hal e) (te_mem e) (te_now e)
                             (te_cb_now e) (ui_svc ui)
              in run_notes (ui\<lparr>ui_svc := s\<rparr>)
         else ui)"

definition ui_controller_tick ::
  "('e, svc_token, 'h) ubus_hal_ops \<Rightarrow> 'e tick_env \<Rightarrow> u64 \<Rightarrow> 'h ui_controller \<Rightarrow>
   bool \<times> 'h ui_controller" where
  "ui_controller_tick ops e now ui =
     (let (changed, pc, w) = page_controller_tick now (page_ctrl ui) (ui_world ui);
          ui = ui\<lparr>page_ctrl := pc, ui_world := w\<rparr>;
          ui = ui\<lparr>power_on := page_controller_is_screen_on (page_ctrl ui)\<rparr>;
          (changed, ui) =
            (if power_on ui \<and> \<not> page_controller_is_animating (page_ctrl ui)
             then (case status_ctx ui of
                     None \<Rightarrow> (changed, ui)
                   | Some ctx \<Rightarrow> (True, ui_refresh ops e ctx ui))
             else (changed, ui))
      in (changed, if changed then ui\<lparr>needs_render := True\<rparr> else ui))"

definition ui_controller_render ::
  "metrics \<Rightarrow> u64 \<Rightarrow> 'h ui_controller \<Rightarrow> bool \<times> 'h ui_controller" where
  "ui_controller_render gsw now ui =
     (if \<not> needs_render ui then (False, ui)
      else if \<not> power_on ui
      then (True, ui\<lparr>ui_world := ssd1306_set_power False (ui_world ui), needs_render := False\<rparr>)
      else case ssd1306_get_u8g2 (ui_world ui) of
        None \<Rightarrow> (False, ui\<lparr>needs_render := False\<rparr>)
      | Some _ \<Rightarrow>
          (let w = ssd1306_clear_buffer (ui_world ui);
               w = page_controller_render gsw (page_ctrl ui) (Some (ss_status (ui_svc ui))) now w;
               w = ssd1306_send_buffer w;
               w = ssd1306_set_power True w
           in (True, ui\<lparr>ui_world := w, needs_render := False\<rparr>)))"

definition ui_controller_next_timeout_ms :: "'h ui_controller \<Rightarrow> int" where
  "ui_controller_next_timeout_ms ui =
     (if \<not> page_controller_is_screen_on (page_ctrl ui) then UI_TICK_IDLE_MS
      else if page_controller_is_animating (page_ctrl ui) then UI_TICK_ANIM_MS
      else UI_TICK_STATIC_MS)"

section \<open>The invariant of the UI\<close>

text \<open>
  The controller and the pages satisfy their invariant, no control request is left over
  between two events, and the power flag is the state of the screen.
\<close>

definition ui_inv :: "'h ui_controller \<Rightarrow> bool" where
  [wf_defs]: "ui_inv ui \<longleftrightarrow>
     ctrl_inv pages_get_list pages_inv pages_quiet (page_ctrl ui) (ui_world ui) \<and>
     pending_control_index (svc_page (ui_world ui)) = -1 \<and>
     power_on ui = (screen_state (page_ctrl ui) = SCREEN_ON)"

definition ui_calm :: "'h ui_controller \<Rightarrow> bool" where
  "ui_calm ui \<longleftrightarrow> pending_control_index (svc_page (ui_world ui)) = -1"

text \<open>What may happen to the pages' state behind the controller's back: icons and stamps change.\<close>

lemma notify_world:
  "pages_inv (page_services_notify_control_result i ok w) = pages_inv w"
  "pages_quiet j (page_services_notify_control_result i ok w) = pages_quiet j w"
  "pending_control_index (svc_page (page_services_notify_control_result i ok w)) =
    pending_control_index (svc_page w)"
  by (simp_all add: page_services_notify_control_result_def pages_inv_def pages_quiet_def
      settings_ok_def services_ok_def services_quiet_def services_state_ok_def config_ok_def
      config_count_def)

lemma notes_world:
  "pages_inv (fold ui_services_control_cb ns w) = pages_inv w"
  "pages_quiet j (fold ui_services_control_cb ns w) = pages_quiet j w"
  "pending_control_index (svc_page (fold ui_services_control_cb ns w)) = pending_control_index (svc_page w)"
  by (induction ns arbitrary: w) (simp_all add: ui_services_control_cb_def notify_world)

lemma take_control_world:
  assumes "pages_inv w"
  shows "pages_inv (snd (page_services_take_control_request now w))"
    and "pages_quiet j w \<Longrightarrow> pages_quiet j (snd (page_services_take_control_request now w))"
    and "pending_control_index (svc_page (snd (page_services_take_control_request now w))) = -1"
  using assms
  by (auto simp: page_services_take_control_request_def Let_def pages_inv_def pages_quiet_def
      settings_ok_def services_ok_def services_quiet_def services_state_ok_def config_ok_def
      config_count_def)

text \<open>A request that is taken names a configured service.\<close>

lemma take_control_range:
  assumes "pages_inv w" and "fst (page_services_take_control_request now w) = Some (i, b)"
  shows "0 \<le> i \<and> i < int (config_count w)"
  using assms
  by (auto simp: page_services_take_control_request_def Let_def pages_inv_def services_ok_def
      services_state_ok_def split: if_splits)

lemma modal_ok_mono:
  "modal_ok pages_quiet pc w \<Longrightarrow> (\<And>j. pages_quiet j w \<Longrightarrow> pages_quiet j w') \<Longrightarrow> modal_ok pages_quiet pc w'"
  by (auto simp: modal_ok_def)

lemma ctrl_inv_world:
  "ctrl_inv pages_get_list pages_inv pages_quiet pc w \<Longrightarrow> pages_inv w' \<Longrightarrow>
   (\<And>j. pages_quiet j w \<Longrightarrow> pages_quiet j w') \<Longrightarrow> ctrl_inv pages_get_list pages_inv pages_quiet pc w'"
  by (auto simp: ctrl_inv_def intro: modal_ok_mono)

lemma ui_take_control_sel [simp]:
  "page_ctrl (ui_take_control ops e now ui) = page_ctrl ui"
  "power_on (ui_take_control ops e now ui) = power_on ui"
  "needs_render (ui_take_control ops e now ui) = needs_render ui"
  by (simp_all add: ui_take_control_def run_notes_def case_prod_beta Let_def split: option.split)

lemma ui_take_control_world:
  assumes "pages_inv (ui_world ui)"
  shows "pages_inv (ui_world (ui_take_control ops e now ui))"
    and "pages_quiet j (ui_world ui) \<Longrightarrow> pages_quiet j (ui_world (ui_take_control ops e now ui))"
    and "pending_control_index (svc_page (ui_world (ui_take_control ops e now ui))) = -1"
  using take_control_world[OF assms, where now = now]
  by (simp_all add: ui_take_control_def run_notes_def notes_world notify_world case_prod_beta Let_def
      split: option.split)

lemma handle_button_inv:
  assumes "ui_inv ui"
  shows "ui_inv (snd (ui_controller_handle_button ops e key lp now ui))"
proof -
  let ?r = "page_controller_handle_key key lp now (page_ctrl ui) (ui_world ui)"
  define m where "m = ui\<lparr>page_ctrl := fst (snd ?r), ui_world := snd (snd ?r),
    power_on := (screen_state (fst (snd ?r)) = SCREEN_ON)\<rparr>"
  have c: "ctrl_inv pages_get_list pages_inv pages_quiet (page_ctrl m) (ui_world m)"
    using app.handle_key_ctrl_inv[where pc = "page_ctrl ui" and w = "ui_world ui" and now = now
        and key = key and lp = lp] assms
    by (simp add: m_def ui_inv_def)
  then have p: "pages_inv (ui_world m)" by (simp add: ctrl_inv_def)
  have "snd (ui_controller_handle_button ops e key lp now ui) =
      (if fst ?r then (ui_take_control ops e now m)\<lparr>needs_render := True\<rparr> else ui_take_control ops e now m)"
    by (simp add: ui_controller_handle_button_def m_def case_prod_beta Let_def
        page_controller_is_screen_on_def)
  moreover have "ui_inv (ui_take_control ops e now m)"
    using ctrl_inv_world[OF c ui_take_control_world(1,2)[OF p, where ops = ops and e = e and now = now]]
      ui_take_control_world(3)[OF p, of ops e now]
    by (simp add: ui_inv_def) (simp add: m_def)
  ultimately show ?thesis by (simp add: ui_inv_def)
qed

section \<open>Ticks\<close>

lemma update_local_world:
  "w' = snd (snd (sys_status_update_local e ctx st w)) \<Longrightarrow> w' = w \<or> w' = snd (service_config_get w)"
  by (auto simp: sys_status_update_local_def case_prod_beta Let_def)

lemma get_config_app:
  assumes "pages_inv w"
  shows "pages_inv (snd (service_config_get w))"
    and "pages_quiet j (snd (service_config_get w)) = pages_quiet j w"
    and "pending_control_index (svc_page (snd (service_config_get w))) = pending_control_index (svc_page w)"
proof -
  have c: "config_ok w" using assms by (simp add: pages_inv_def services_ok_def)
  have "settings (snd (service_config_get w)) = settings w"
    by (simp add: service_config_get_def Let_def)
  then show "pages_inv (snd (service_config_get w))"
    using assms service_config_get_ok[OF c]
    by (simp add: pages_inv_def services_ok_def config_count_def settings_ok_def)
  show "pages_quiet j (snd (service_config_get w)) = pages_quiet j w"
    and "pending_control_index (svc_page (snd (service_config_get w))) = pending_control_index (svc_page w)"
    by (simp_all add: pages_quiet_def services_quiet_def)
qed

lemma update_local_app:
  assumes "pages_inv w"
  shows "pages_inv (snd (snd (sys_status_update_local e ctx st w)))"
    and "pages_quiet j (snd (snd (sys_status_update_local e ctx st w))) = pages_quiet j w"
    and "pending_control_index (svc_page (snd (snd (sys_status_update_local e ctx st w)))) =
      pending_control_index (svc_page w)"
proof -
  let ?w = "snd (snd (sys_status_update_local e ctx st w))"
  have "?w = w \<or> ?w = snd (service_config_get w)" by (rule update_local_world[OF refl])
  then have "pages_inv ?w \<and> pages_quiet j ?w = pages_quiet j w \<and>
      pending_control_index (svc_page ?w) = pending_control_index (svc_page w)"
    by (elim disjE) (simp_all only: assms get_config_app[OF assms] simp_thms)
  then show "pages_inv ?w" and "pages_quiet j ?w = pages_quiet j w"
    and "pending_control_index (svc_page ?w) = pending_control_index (svc_page w)"
    by simp_all
qed

lemma ui_refresh_sel [simp]:
  "page_ctrl (ui_refresh ops e ctx ui) = page_ctrl ui"
  "power_on (ui_refresh ops e ctx ui) = power_on ui"
  by (simp_all add: ui_refresh_def run_notes_def case_prod_beta Let_def)

lemma ui_refresh_world:
  assumes "pages_inv (ui_world ui)"
  shows "pages_inv (ui_world (ui_refresh ops e ctx ui))"
    and "pages_quiet j (ui_world (ui_refresh ops e ctx ui)) = pages_quiet j (ui_world ui)"
    and "pending_control_index (svc_page (ui_world (ui_refresh ops e ctx ui))) =
      pending_control_index (svc_page (ui_world ui))"
  using update_local_app[OF assms]
  by (simp_all add: ui_refresh_def run_notes_def notes_world case_prod_beta Let_def)

lemma exit_mode_pending:
  assumes "pages pc = pages_get_list" and "page_count pc = 5" and "pending_control_index (svc_page w) = -1"
  shows "pending_control_index (svc_page (snd (exit_enter_mode now pc w))) = -1"
proof (cases "0 \<le> current_page pc \<and> current_page pc < 5")
  case True
  then have "nat (current_page pc) < 5" by auto
  moreover have "get_current_page pc = pages_get_list ! nat (current_page pc)"
    using True assms(1,2) by (simp add: get_current_page_def)
  ultimately show ?thesis
    using assms(3) unfolding exit_enter_mode_world
    by (auto dest!: page_index_cases simp: pages_nth page_records services_on_exit_def
        settings_on_exit_def)
next
  case False
  then have "get_current_page pc = None" using assms(2) by (auto simp: get_current_page_def)
  then show ?thesis using assms(3) unfolding exit_enter_mode_world by simp
qed

lemma tick_quiet_pending:
  assumes "ctrl_inv pages_get_list pages_inv pages_quiet pc w" and "pending_control_index (svc_page w) = -1"
  shows "pending_control_index (svc_page (snd (snd (page_controller_tick now pc w)))) = -1"
proof (cases "snd (snd (page_controller_tick now pc w)) = w")
  case True
  then show ?thesis using assms(2) by simp
next
  case False
  let ?pc = "snd (tick_auto_off (page_controller_is_auto_screen_off_enabled w) now
    (if last_activity_ms pc = 0 then pc\<lparr>last_activity_ms := now\<rparr> else pc))"
  have w: "snd (snd (page_controller_tick now pc w)) = snd (exit_enter_mode now ?pc w)"
    using False by (simp add: page_controller_tick_def Let_def case_prod_beta tick_enter_timeout_def
        split: if_splits)
  have "pages ?pc = pages_get_list" "page_count ?pc = 5"
    using assms(1) by (simp_all add: ctrl_inv_def pc_wf_def tick_auto_off_def)
  then show ?thesis unfolding w by (rule exit_mode_pending) (rule assms(2))
qed

lemma ui_tick_inv:
  assumes "ui_inv ui"
  shows "ui_inv (snd (ui_controller_tick ops e now ui))"
proof -
  let ?r = "page_controller_tick now (page_ctrl ui) (ui_world ui)"
  define m where "m = ui\<lparr>page_ctrl := fst (snd ?r), ui_world := snd (snd ?r),
    power_on := (screen_state (fst (snd ?r)) = SCREEN_ON)\<rparr>"
  have c: "ctrl_inv pages_get_list pages_inv pages_quiet (page_ctrl m) (ui_world m)"
    using app.tick_ctrl_inv[where pc = "page_ctrl ui" and w = "ui_world ui" and now = now] assms
    by (simp add: m_def ui_inv_def)
  have q: "pending_control_index (svc_page (ui_world m)) = -1"
    using tick_quiet_pending[of "page_ctrl ui" "ui_world ui" now] assms by (simp add: m_def ui_inv_def)
  have p: "pages_inv (ui_world m)" using c by (simp add: ctrl_inv_def)
  have m: "ui_inv m" using c q by (simp add: ui_inv_def) (simp add: m_def)
  have r: "ui_inv (ui_refresh ops e ctx m)" for ctx
    using m ctrl_inv_world[OF c ui_refresh_world(1)[OF p, of ops e ctx]]
      ui_refresh_world(2,3)[OF p, where ops = ops and e = e and ctx = ctx]
    by (simp add: ui_inv_def)
  have nr: "ui_inv (u\<lparr>needs_render := b\<rparr>) = ui_inv u" for u :: "'a ui_controller" and b
    by (simp add: ui_inv_def)
  have "snd (ui_controller_tick ops e now ui) \<in>
      {m, m\<lparr>needs_render := True\<rparr>} \<union> (\<lambda>ctx. (ui_refresh ops e ctx m)\<lparr>needs_render := True\<rparr>) ` UNIV"
    by (auto simp: ui_controller_tick_def m_def case_prod_beta Let_def page_controller_is_screen_on_def
        split: option.split)
  then show ?thesis using m r nr by auto
qed

section \<open>Rendering\<close>

lemma services_render_pending:
  "pending_control_index (svc_page (services_render gsw st m now x w)) = pending_control_index (svc_page w)"
  using sync_services_frame
  by (simp add: services_render_def on_u8g2_def Let_def split: option.split)

interpretation calm: drawing_frame pages_get_list "\<lambda>w. pending_control_index (svc_page w) = -1"
proof (unfold_locales, goal_cases)
  case (1 w u)
  then show ?case by simp
next
  case (2 i p cf w)
  then show ?case
    by (auto dest!: page_index_cases simp: pages_nth page_records services_get_item_count_def
        settings_get_item_count_def case_prod_beta Let_def)
next
  case (3 i p rf w gsw st m now x)
  then show ?case
    by (auto dest!: page_index_cases simp: pages_nth page_records home_render_def gateway_render_def
        network_render_def settings_render_def on_u8g2_def services_render_pending)
qed

text \<open>The operations of the display leave the pages alone.\<close>

lemma ssd1306_app:
  "pages_inv (ssd1306_set_power b w) = pages_inv w" "pages_quiet j (ssd1306_set_power b w) = pages_quiet j w"
  "pages_inv (ssd1306_clear_buffer w) = pages_inv w" "pages_quiet j (ssd1306_clear_buffer w) = pages_quiet j w"
  "pages_inv (ssd1306_send_buffer w) = pages_inv w" "pages_quiet j (ssd1306_send_buffer w) = pages_quiet j w"
  "svc_page (ssd1306_set_power b w) = svc_page w" "svc_page (ssd1306_clear_buffer w) = svc_page w"
  "svc_page (ssd1306_send_buffer w) = svc_page w"
  by (simp_all add: ssd1306_defs draw_pages_inv) (simp_all add: on_u8g2_def)

lemma ui_render_sel [simp]:
  "page_ctrl (snd (ui_controller_render gsw now ui)) = page_ctrl ui"
  "power_on (snd (ui_controller_render gsw now ui)) = power_on ui"
  "ui_svc (snd (ui_controller_render gsw now ui)) = ui_svc ui"
  "status_ctx (snd (ui_controller_render gsw now ui)) = status_ctx ui"
  "\<not> needs_render (snd (ui_controller_render gsw now ui))"
  by (simp_all add: ui_controller_render_def Let_def split: option.split)

lemma ui_render_inv:
  assumes "ui_inv ui"
  shows "ui_inv (snd (ui_controller_render gsw now ui))"
proof -
  let ?pc = "page_ctrl ui" and ?w = "ssd1306_clear_buffer (ui_world ui)"
  let ?r = "page_controller_render gsw ?pc (Some (ss_status (ui_svc ui))) now ?w"
  have c: "ctrl_inv pages_get_list pages_inv pages_quiet ?pc (ui_world ui)"
    and p: "pending_control_index (svc_page (ui_world ui)) = -1"
    using assms by (simp_all add: ui_inv_def)
  have pc: "pages ?pc = pages_get_list" "page_count ?pc = int (length pages_get_list)"
    using c by (simp_all add: ctrl_inv_def pc_wf_def)
  have k: "pages_inv ?r" "pages_quiet j (ui_world ui) \<Longrightarrow> pages_quiet j ?r" for j
    using app.render_keeps[OF pc, unfolded app.keeps_def, rule_format, of ?w] c
    by (simp_all add: ctrl_inv_def ssd1306_app)
  have q: "pending_control_index (svc_page ?r) = -1"
    using calm.frame_screen[OF pc, of ?w] p by (simp add: ssd1306_app)
  let ?W = "{ui_world ui, ssd1306_set_power False (ui_world ui),
    ssd1306_set_power True (ssd1306_send_buffer ?r)}"
  have "ctrl_inv pages_get_list pages_inv pages_quiet ?pc ?r" by (rule ctrl_inv_world[OF c k])
  then have "ctrl_inv pages_get_list pages_inv pages_quiet ?pc w' \<and> pending_control_index (svc_page w') = -1"
    if "w' \<in> ?W" for w'
    using that p q c by (auto simp: ssd1306_app ctrl_inv_def modal_ok_def)
  moreover have "ui_world (snd (ui_controller_render gsw now ui)) \<in> ?W"
    by (simp add: ui_controller_render_def Let_def split: option.split)
  ultimately show ?thesis using assms by (simp add: ui_inv_def)
qed

section \<open>Start\<close>

lemma set_idle_ctrl_inv:
  "ctrl_inv pgs winv quiet (page_controller_set_idle_timeout t pc) w = ctrl_inv pgs winv quiet pc w"
  by (simp add: ctrl_inv_def pc_wf_def modal_ok_def page_controller_set_idle_timeout_def)

lemma ui_init_inv:
  assumes "config_ok (ui_world ui)"
  shows "ui_inv (ui_controller_init ctx e ui)"
proof -
  let ?r = "boot_controller (ui_world ui)"
  let ?pc = "page_controller_set_idle_timeout UI_AUTO_SLEEP_MS (fst ?r)"
  have c: "ctrl_inv pages_get_list pages_inv pages_quiet ?pc (snd ?r)"
    using boot_controller_inv[OF assms] by (simp only: set_idle_ctrl_inv)
  have v: "page_mode (fst ?r) = PAGE_MODE_VIEW" "screen_state (fst ?r) = SCREEN_ON"
    using boot_controller_browsing[of "ui_world ui"] by (simp_all add: browsing_def)
  have "pages_quiet SERVICES_PAGE (snd ?r)"
    using boot_controller_inv[OF assms] v(1) by (auto simp: ctrl_inv_def modal_ok_def)
  then have q: "pending_control_index (svc_page (snd ?r)) = -1" by (simp add: pages_quiet_def services_quiet_def)
  have p: "pages_inv (snd ?r)" using c by (simp add: ctrl_inv_def)
  have init: "page_controller_init pages_get_list 5 (ui_world ui) = ?r" by (simp add: boot_controller_def)
  have on: "screen_state ?pc = SCREEN_ON" using v(2) by (simp add: page_controller_set_idle_timeout_def)
  show ?thesis
  proof (cases ctx)
    case None
    then have "ui_world (ui_controller_init ctx e ui) = snd ?r" "page_ctrl (ui_controller_init ctx e ui) = ?pc"
      "power_on (ui_controller_init ctx e ui)"
      by (simp_all add: ui_controller_init_def init case_prod_beta Let_def)
    then show ?thesis using c q on by (simp only: ui_inv_def simp_thms)
  next
    case (Some ct)
    let ?w = "snd (snd (sys_status_update_local e ct zero_status (snd ?r)))"
    have "ui_world (ui_controller_init ctx e ui) = ?w" "page_ctrl (ui_controller_init ctx e ui) = ?pc"
      "power_on (ui_controller_init ctx e ui)"
      using Some by (simp_all add: ui_controller_init_def init case_prod_beta Let_def)
    moreover have "ctrl_inv pages_get_list pages_inv pages_quiet ?pc ?w"
      by (rule ctrl_inv_world[OF c update_local_app(1)[OF p]]) (simp only: update_local_app(2)[OF p])
    moreover have "pending_control_index (svc_page ?w) = -1"
      by (simp only: update_local_app(3)[OF p] q)
    ultimately show ?thesis using on by (simp only: ui_inv_def simp_thms)
  qed
qed

section \<open>Control requests come from a confirmed dialog\<close>

lemma services_key_pending:
  assumes "pending_control_index (svc_page w) = -1"
    and "pending_control_index (svc_page (snd (services_on_key k l m w))) \<noteq> -1"
  shows "m = PAGE_MODE_ENTER \<and> k = KEY_K2 \<and> \<not> l \<and> dialog (svc_page w) = DIALOG_CONFIRM \<and>
    dialog_selection (svc_page w) = 1"
  using assms
  by (auto simp: services_on_key_def dialog_on_key_def dialog_confirm_def list_on_key_def
      ensure_visible_def Let_def case_prod_beta split: if_splits)

lemma settings_key_pending:
  "svc_page (snd (settings_on_key k l m w)) = svc_page w"
  by (simp add: settings_on_key_def settings_toggle_def Let_def ssd1306_set_contrast_def
      page_controller_set_auto_screen_off_def on_u8g2_def)

text \<open>The state in which K2 confirms the switching of a service.\<close>

definition confirming :: "u8 \<Rightarrow> bool \<Rightarrow> app_world page_controller \<Rightarrow> app_world \<Rightarrow> bool" where
  "confirming key lp pc w \<longleftrightarrow> key = KEY_K2 \<and> \<not> lp \<and> screen_state pc = SCREEN_ON \<and>
     page_mode pc = PAGE_MODE_ENTER \<and> current_page pc = int SERVICES_PAGE \<and>
     dialog (svc_page w) = DIALOG_CONFIRM \<and> dialog_selection (svc_page w) = 1"

lemma page_key_pending:
  assumes "pages pc = pages_get_list" and "page_count pc = 5"
    and "pending_control_index (svc_page w) = -1"
    and "pending_control_index (svc_page (snd (page_on_key (get_current_page pc) k l m w))) \<noteq> -1"
  shows "m = PAGE_MODE_ENTER \<and> k = KEY_K2 \<and> \<not> l \<and> current_page pc = int SERVICES_PAGE \<and>
    dialog (svc_page w) = DIALOG_CONFIRM \<and> dialog_selection (svc_page w) = 1"
proof (cases "0 \<le> current_page pc \<and> current_page pc < 5")
  case False
  then have "get_current_page pc = None" using assms(2) by (auto simp: get_current_page_def)
  then show ?thesis using assms(3,4) by (simp add: page_on_key_def)
next
  case True
  then have n: "nat (current_page pc) < 5" by auto
  have g: "get_current_page pc = pages_get_list ! nat (current_page pc)"
    using True assms(1,2) by (simp add: get_current_page_def)
  have "nat (current_page pc) = 3"
    using page_index_cases[OF n] assms(3,4) g
    by (auto simp: pages_nth page_records page_on_key_def settings_key_pending)
  then show ?thesis
    using services_key_pending[OF assms(3), of k l m] assms(4) g
    by (simp add: pages_nth page_services_def page_on_key_def)
qed

lemma enter_mode_pending:
  assumes "pages pc = pages_get_list" and "page_count pc = 5" and "pending_control_index (svc_page w) = -1"
  shows "pending_control_index (svc_page (snd (snd (try_enter_mode now pc w)))) = -1"
proof (cases "0 \<le> current_page pc \<and> current_page pc < 5")
  case True
  then have n: "nat (current_page pc) < 5" by auto
  have g: "get_current_page pc = pages_get_list ! nat (current_page pc)"
    using True assms(1,2) by (simp add: get_current_page_def)
  then show ?thesis
    using page_index_cases[OF n] assms(3) exit_mode_pending[OF assms, of now]
    by (auto simp: try_enter_mode_def pages_nth page_records Let_def services_on_enter_def
        settings_on_enter_def)
next
  case False
  then have "get_current_page pc = None" using assms(2) by (auto simp: get_current_page_def)
  then show ?thesis
    using assms(3) exit_mode_pending[OF assms, of now] by (simp add: try_enter_mode_def)
qed

lemma handle_key_pending:
  assumes "pages pc = pages_get_list" and "page_count pc = 5"
    and "pending_control_index (svc_page w) = -1"
    and p: "pending_control_index (svc_page (snd (snd (page_controller_handle_key key lp now pc w)))) \<noteq> -1"
  shows "confirming key lp pc w"
proof -
  have b: "pages (key_base now pc) = pages_get_list" "page_count (key_base now pc) = 5"
    using assms(1,2) by simp_all
  show ?thesis
  proof (cases rule: handle_key_cases[where pc = pc and now = now])
    case off
    then show ?thesis using assms(3) p by (simp add: handle_key_off)
  next
    case busy
    then show ?thesis using assms(3) p by (simp add: handle_key_busy)
  next
    case enter
    let ?pc = "(key_base now pc)\<lparr>enter_mode_start_ms := now\<rparr>"
    have e: "pages ?pc = pages_get_list" "page_count ?pc = 5" using b by simp_all
    show ?thesis
      using enter p page_key_pending[OF e assms(3), of key lp PAGE_MODE_ENTER]
        enter_mode_pending[OF e assms(3), of now]
      by (auto simp: handle_key_enter handle_key_enter_def Let_def case_prod_beta confirming_def
          key_ready_def split: if_splits)
  next
    case view
    then show ?thesis
      using p assms(3) page_key_pending[OF b assms(3), of key lp PAGE_MODE_VIEW]
        enter_mode_pending[OF b assms(3), of now]
      by (auto simp: handle_key_view handle_key_view_def Let_def case_prod_beta split: if_splits)
  qed
qed

lemma control_needs_confirm:
  assumes "ui_inv ui"
    and "ui_svc (snd (ui_controller_handle_button ops e key lp now ui)) \<noteq> ui_svc ui"
  shows "confirming key lp (page_ctrl ui) (ui_world ui)"
proof (rule ccontr)
  assume n: "\<not> confirming key lp (page_ctrl ui) (ui_world ui)"
  let ?r = "page_controller_handle_key key lp now (page_ctrl ui) (ui_world ui)"
  have "pages (page_ctrl ui) = pages_get_list" "page_count (page_ctrl ui) = 5"
    "pending_control_index (svc_page (ui_world ui)) = -1"
    using assms(1) by (simp_all add: ui_inv_def ctrl_inv_def pc_wf_def)
  then have "pending_control_index (svc_page (snd (snd ?r))) = -1"
    using handle_key_pending n by blast
  then have "fst (page_services_take_control_request now (snd (snd ?r))) = None"
    by (simp add: page_services_take_control_request_def Let_def)
  then have "ui_svc (snd (ui_controller_handle_button ops e key lp now ui)) = ui_svc ui"
    by (simp add: ui_controller_handle_button_def ui_take_control_def case_prod_beta Let_def)
  then show False using assms(2) by simp
qed

text \<open>And a confirmed dialog starts the operation on the selected service.\<close>

lemma confirm_key:
  assumes "config_ok w" and "config_count w \<noteq> 0" and "key_ready now pc" and "pages pc = pages_get_list"
    and "page_count pc = 5" and c: "confirming key lp pc w"
  shows "svc_page (snd (snd (page_controller_handle_key key lp now pc w))) = dialog_confirm (svc_page w)"
proof -
  have k: "key = KEY_K2" "\<not> lp" "page_mode pc = PAGE_MODE_ENTER" "current_page pc = 3"
    "dialog (svc_page w) = DIALOG_CONFIRM"
    using c by (simp_all add: confirming_def)
  let ?pc = "(key_base now pc)\<lparr>enter_mode_start_ms := now\<rparr>"
  have "get_current_page (key_base now pc) = Some page_services"
    using k assms(4,5) by (simp add: get_current_page_def pages_nth)
  then have "snd (snd (page_controller_handle_key key lp now pc w)) =
      snd (services_on_key key lp PAGE_MODE_ENTER w)"
    using k by (simp add: handle_key_enter[OF assms(3) k(3)] handle_key_enter_def page_on_key_def
        page_services_def Let_def case_prod_beta)
  then show ?thesis
    using k services_on_key_eq[OF assms(1) refl assms(2), of key lp]
    by (simp add: dialog_on_key_def Let_def)
qed

lemma confirm_starts:
  assumes "ui_inv ui" and "config_count (ui_world ui) \<noteq> 0" and "key_ready now (page_ctrl ui)"
    and "status_ctx ui = Some ctx" and c: "confirming key lp (page_ctrl ui) (ui_world ui)"
  defines "s \<equiv> svc_page (ui_world ui)"
  shows "ui_svc (snd (ui_controller_handle_button ops e key lp now ui)) =
    (snd (sys_status_control_service ops (ke_hal e) (ke_mem e) (ke_cb_now e) (selected_index s)
       (\<not> cached_running s ! nat (selected_index s)) (ui_svc ui)))\<lparr>ss_notes := []\<rparr>"
proof -
  let ?r = "page_controller_handle_key key lp now (page_ctrl ui) (ui_world ui)"
  have inv: "pages (page_ctrl ui) = pages_get_list" "page_count (page_ctrl ui) = 5"
    "config_ok (ui_world ui)" "0 \<le> selected_index s"
    using assms(1) by (simp_all add: ui_inv_def ctrl_inv_def pc_wf_def pages_inv_def services_ok_def
        services_state_ok_def s_def)
  have w: "svc_page (snd (snd ?r)) = dialog_confirm s"
    unfolding s_def by (rule confirm_key[OF inv(3) assms(2,3) inv(1,2) c])
  have "dialog_selection s = 1" using c by (simp add: confirming_def s_def)
  then have "fst (page_services_take_control_request now (snd (snd ?r))) =
      Some (selected_index s, \<not> cached_running s ! nat (selected_index s))"
    using inv(4) w by (simp add: page_services_take_control_request_def dialog_confirm_def Let_def)
  then show ?thesis
    using assms(4)
    by (simp add: ui_controller_handle_button_def ui_take_control_def run_notes_def case_prod_beta Let_def)
qed

end
