(* ===== verification/Event_Ring.thy ===== *)
theory Event_Ring
  imports Prelude
begin

text \<open>
  The bounded queues of the GPIO drivers: an array with head, tail and count that drops its
  oldest element when it is full (\<open>pending_push\<close>, \<open>pending_pop\<close> of
  \<open>src/hal/gpio_hal_libgpiod.c\<close>; the two queues of \<open>src/hal/gpio_hal_mock.c\<close>). The contract
  is stated over the list of queued elements, oldest first.
\<close>

section \<open>The array\<close>

record 'a ring =
  events :: "'a list"
  head :: nat
  tail :: nat
  count :: nat

text \<open>\<open>cap\<close> is the capacity, the length of the array.\<close>

definition ring_push :: "nat \<Rightarrow> 'a \<Rightarrow> 'a ring \<Rightarrow> 'a ring" where
  "ring_push cap event q =
     (let q = (if count q \<ge> cap
               then q\<lparr>head := (head q + 1) mod cap, count := count q - 1\<rparr> else q);
          q = q\<lparr>events := (events q)[tail q := event]\<rparr>;
          q = q\<lparr>tail := (tail q + 1) mod cap\<rparr>
      in q\<lparr>count := count q + 1\<rparr>)"

definition ring_pop :: "nat \<Rightarrow> 'a ring \<Rightarrow> 'a option \<times> 'a ring" where
  "ring_pop cap q =
     (if count q = 0 then (None, q)
      else (Some (events q ! head q), q\<lparr>head := (head q + 1) mod cap, count := count q - 1\<rparr>))"

text \<open>The zeroed queue; \<open>z\<close> is the all-zero element.\<close>

definition ring_empty :: "nat \<Rightarrow> 'a \<Rightarrow> 'a ring" where
  "ring_empty cap z = \<lparr>events = replicate cap z, head = 0, tail = 0, count = 0\<rparr>"

definition ring_ok :: "nat \<Rightarrow> 'a ring \<Rightarrow> bool" where
  [wf_defs]: "ring_ok cap q \<longleftrightarrow> 0 < cap \<and> length (events q) = cap \<and> head q < cap \<and>
     count q \<le> cap \<and> tail q = (head q + count q) mod cap"

definition ring_items :: "nat \<Rightarrow> 'a ring \<Rightarrow> 'a list" where
  "ring_items cap q = map (\<lambda>k. events q ! ((head q + k) mod cap)) [0..<count q]"

section \<open>The contract\<close>

locale bounded_fifo =
  fixes cap :: nat
    and push :: "'a \<Rightarrow> 'q \<Rightarrow> 'q"
    and pop :: "'q \<Rightarrow> 'a option \<times> 'q"
    and ok :: "'q \<Rightarrow> bool"
    and items :: "'q \<Rightarrow> 'a list"
  assumes push_ok: "ok q \<Longrightarrow> ok (push x q)"
    and push_items: "ok q \<Longrightarrow>
      items (push x q) = (if length (items q) < cap then items q @ [x] else tl (items q) @ [x])"
    and items_le: "ok q \<Longrightarrow> length (items q) \<le> cap"
    and cap_pos: "0 < cap"
    and pop_ok: "ok q \<Longrightarrow> ok (snd (pop q))"
    and pop_none: "ok q \<Longrightarrow> items q = [] \<Longrightarrow> pop q = (None, q)"
    and pop_some: "ok q \<Longrightarrow> items q = x # xs \<Longrightarrow>
      fst (pop q) = Some x \<and> items (snd (pop q)) = xs"
begin

text \<open>A push keeps the most recent elements, in order.\<close>

lemma push_window:
  assumes "ok q"
  shows "items (push x q) = drop (length (items q) + 1 - cap) (items q @ [x])"
proof (cases "length (items q) < cap")
  case True
  then show ?thesis by (simp add: push_items[OF assms])
next
  case False
  then have "length (items q) = cap" using items_le[OF assms] by simp
  then show ?thesis using cap_pos by (simp add: push_items[OF assms] drop_Suc)
qed

lemma pushes_ok: "ok q \<Longrightarrow> ok (fold push xs q)"
  by (induction xs arbitrary: q) (simp_all add: push_ok)

lemma pushes_window:
  assumes "ok q"
  shows "items (fold push xs q) = drop (length (items q) + length xs - cap) (items q @ xs)"
  using assms
proof (induction xs arbitrary: q)
  case Nil
  then show ?case using items_le[OF Nil] by simp
next
  case (Cons x xs)
  have i: "items (push x q) = drop (length (items q) + 1 - cap) (items q @ [x])"
    by (rule push_window[OF Cons.prems])
  have "items (fold push xs (push x q)) =
      drop (length (items (push x q)) + length xs - cap) (items (push x q) @ xs)"
    by (rule Cons.IH[OF push_ok[OF Cons.prems]])
  moreover have "length (items q) < cap \<or> length (items q) = cap"
    using items_le[OF Cons.prems] by auto
  ultimately show ?case using cap_pos by (auto simp: i)
qed

text \<open>Popping \<open>n\<close> times returns the first \<open>n\<close> elements, oldest first.\<close>

fun pops :: "nat \<Rightarrow> 'q \<Rightarrow> 'a list \<times> 'q" where
  "pops 0 q = ([], q)"
| "pops (Suc n) q =
     (case pop q of
        (None, q) \<Rightarrow> ([], q)
      | (Some x, q) \<Rightarrow> (let (xs, q) = pops n q in (x # xs, q)))"

lemma pops_items: "ok q \<Longrightarrow> fst (pops n q) = take n (items q) \<and> items (snd (pops n q)) = drop n (items q)"
proof (induction n arbitrary: q)
  case (Suc n)
  show ?case
  proof (cases "items q")
    case Nil
    then show ?thesis using pop_none[OF Suc.prems] by simp
  next
    case (Cons x xs)
    then have x: "fst (pop q) = Some x" and xs: "items (snd (pop q)) = xs"
      using pop_some[OF Suc.prems] by simp_all
    obtain q' where q': "pop q = (Some x, q')" using x by (cases "pop q") simp
    have "ok q'" "items q' = xs" using pop_ok[OF Suc.prems] xs by (simp_all add: q')
    then show ?thesis using Suc.IH[of q'] by (simp add: q' Cons case_prod_beta Let_def)
  qed
qed simp

text \<open>After pushing \<open>xs\<close> on an empty queue, popping returns the last \<open>cap\<close> of them, in order.\<close>

lemma pushed_then_popped:
  assumes "ok q" and "items q = []"
  shows "fst (pops cap (fold push xs q)) = drop (length xs - cap) xs"
proof -
  have i: "items (fold push xs q) = drop (length xs - cap) xs"
    using pushes_window[OF assms(1)] assms(2) by simp
  then have "length (items (fold push xs q)) \<le> cap" by simp
  then show ?thesis using pops_items[OF pushes_ok[OF assms(1)]] i by simp
qed

text \<open>Elements come from pushes only.\<close>

lemma push_filter:
  "ok q \<Longrightarrow> length (filter P (items (push x q))) \<le> length (filter P (items q)) + (if P x then 1 else 0)"
  by (cases "items q") (simp_all add: push_items)

lemma pop_filter:
  assumes "ok q"
  shows "(case fst (pop q) of Some x \<Rightarrow> if P x then 1 else 0 | None \<Rightarrow> 0) +
    length (filter P (items (snd (pop q)))) = length (filter P (items q))"
proof (cases "items q")
  case Nil
  then show ?thesis using pop_none[OF assms] by simp
next
  case (Cons x xs)
  then show ?thesis using pop_some[OF assms] by simp
qed

end

section \<open>The array implements the contract\<close>

lemma mod_step: "0 < m \<Longrightarrow> (Suc a mod m + k) mod m = Suc (a + k) mod (m::nat)"
  by (metis add_Suc mod_add_left_eq)

lemma ring_slot_free:
  assumes "h < m" and "k < c" and "c < (m::nat)"
  shows "(h + k) mod m \<noteq> (h + c) mod m"
proof
  assume e: "(h + k) mod m = (h + c) mod m"
  have "(h + c - (h + k)) mod m = 0" by (rule mod_eq_dvd_iff_nat[THEN iffD1, THEN dvd_imp_mod_0]) (use e assms in simp_all)
  then have "(c - k) mod m = 0" by simp
  then show False using assms by simp
qed

lemma ring_pop_ok: "ring_ok m q \<Longrightarrow> ring_ok m (snd (ring_pop m q))"
  by (cases "count q") (auto simp: ring_ok_def ring_pop_def mod_step)

lemma ring_pop_none: "ring_items m q = [] \<Longrightarrow> ring_pop m q = (None, q)"
  by (simp add: ring_pop_def ring_items_def)

lemma ring_pop_some:
  assumes "ring_ok m q" and "0 < count q"
  shows "ring_items m q = events q ! head q # ring_items m (snd (ring_pop m q))"
proof -
  obtain c where c: "count q = Suc c" using assms(2) by (cases "count q") auto
  show ?thesis
    using assms c
    by (simp add: ring_items_def ring_pop_def ring_ok_def mod_step upt_conv_Cons
        map_Suc_upt[symmetric] o_def del: upt_Suc)
qed

lemma ring_push_room:
  assumes "ring_ok m q" and "count q < m"
  shows "ring_ok m (ring_push m x q)" "ring_items m (ring_push m x q) = ring_items m q @ [x]"
proof -
  have p: "ring_push m x q = q\<lparr>events := (events q)[tail q := x], tail := (tail q + 1) mod m,
      count := count q + 1\<rparr>"
    using assms(2) by (simp add: ring_push_def Let_def)
  show "ring_ok m (ring_push m x q)"
    using assms by (auto simp: p ring_ok_def mod_Suc_eq)
  show "ring_items m (ring_push m x q) = ring_items m q @ [x]"
    using assms ring_slot_free[of "head q" m _ "count q", THEN not_sym]
    by (auto simp: p ring_items_def ring_ok_def)
qed

lemma ring_push_full:
  assumes "ring_ok m q" and "count q = m"
  shows "ring_push m x q = ring_push m x (snd (ring_pop m q))"
  using assms by (auto simp: ring_push_def ring_pop_def ring_ok_def)

lemma length_ring_items [simp]: "length (ring_items m q) = count q"
  by (simp add: ring_items_def)

lemma ring_push_contract:
  assumes "ring_ok m q"
  shows "ring_ok m (ring_push m x q)"
    and "ring_items m (ring_push m x q) =
      (if length (ring_items m q) < m then ring_items m q @ [x] else tl (ring_items m q) @ [x])"
proof -
  let ?p = "snd (ring_pop m q)"
  have "ring_ok m (ring_push m x q) \<and> ring_items m (ring_push m x q) =
      (if length (ring_items m q) < m then ring_items m q @ [x] else tl (ring_items m q) @ [x])"
  proof (cases "count q < m")
    case True
    then show ?thesis using ring_push_room[OF assms True] by simp
  next
    case False
    then have full: "count q = m" using assms by (simp add: ring_ok_def)
    have p: "ring_ok m ?p" "count ?p < m"
      using ring_pop_ok[OF assms] full assms by (auto simp: ring_pop_def ring_ok_def)
    have "tl (ring_items m q) = ring_items m ?p"
      using ring_pop_some[OF assms] full assms by (simp add: ring_ok_def)
    then show ?thesis using ring_push_room[OF p] by (simp add: full ring_push_full[OF assms full])
  qed
  then show "ring_ok m (ring_push m x q)" and "ring_items m (ring_push m x q) =
      (if length (ring_items m q) < m then ring_items m q @ [x] else tl (ring_items m q) @ [x])"
    by simp_all
qed

lemma ring_empty_ok [simp]: "0 < m \<Longrightarrow> ring_ok m (ring_empty m z)"
  by (simp add: ring_ok_def ring_empty_def)

lemma ring_empty_items [simp]: "ring_items m (ring_empty m z) = []"
  by (simp add: ring_items_def ring_empty_def)

lemma ring_fifo: "0 < m \<Longrightarrow> bounded_fifo m (ring_push m) (ring_pop m) (ring_ok m) (ring_items m)"
proof unfold_locales
  fix q :: "'a ring" and x xs
  assume "ring_ok m q" and "ring_items m q = x # xs"
  then show "fst (ring_pop m q) = Some x \<and> ring_items m (snd (ring_pop m q)) = xs"
    using ring_pop_some[of m q] by (cases "count q") (auto simp: ring_pop_def ring_items_def)
qed (simp_all add: ring_push_contract ring_pop_ok ring_pop_none, simp add: ring_ok_def)

end
