(* ===== verification/Gpio_Buttons.thy ===== *)
theory Gpio_Buttons
  imports Event_Ring
begin

text \<open>
  Button tracking shared by the two GPIO drivers (\<open>src/hal/gpio_hal.h\<close>; the functions of the
  same names in \<open>src/hal/gpio_hal_libgpiod.c\<close> and \<open>src/hal/gpio_hal_mock.c\<close>): debouncing,
  short and long presses, the long-press timer and the queue of button events. The times
  that the code reads from the clock are arguments. The interface of a driver and what
  its user can rely on is the locale \<open>gpio_driver\<close>.
\<close>

abbreviation (input) GPIO_NUM_BUTTONS :: nat where "GPIO_NUM_BUTTONS \<equiv> 3"
abbreviation (input) GPIO_LONG_PRESS_MS :: u64 where "GPIO_LONG_PRESS_MS \<equiv> 600"
abbreviation (input) GPIO_DEBOUNCE_MS :: u64 where "GPIO_DEBOUNCE_MS \<equiv> 30"
abbreviation (input) MAX_PENDING_EVENTS :: nat where "MAX_PENDING_EVENTS \<equiv> 32"

datatype gpio_event_type =
    GPIO_EVT_NONE
  | GPIO_EVT_BTN_K1_SHORT | GPIO_EVT_BTN_K2_SHORT | GPIO_EVT_BTN_K3_SHORT
  | GPIO_EVT_BTN_K1_LONG | GPIO_EVT_BTN_K2_LONG | GPIO_EVT_BTN_K3_LONG

record gpio_event =
  ev_type :: gpio_event_type
  ev_line :: u8
  timestamp_ns :: u64

definition zero_event :: gpio_event where
  "zero_event = \<lparr>ev_type = GPIO_EVT_NONE, ev_line = 0, timestamp_ns = 0\<rparr>"

text \<open>
  The statics of a driver. Of the timer descriptor the model keeps its number (negative:
  none) and the value it was last set to, seconds and nanoseconds; zero is disarmed.
\<close>

record button_state =
  g_timer_fd :: int
  g_timer_value :: "u64 \<times> u64"
  g_pressed_level :: int
  g_use_soft_debounce :: bool
  g_press_time_ms :: "u64 list"
  g_last_edge_ms :: "u64 list"
  g_pressed :: "bool list"
  g_long_sent :: "bool list"
  g_pending :: "gpio_event ring"

section \<open>Operations\<close>

definition pending_push :: "gpio_event \<Rightarrow> 'a button_state_scheme \<Rightarrow> 'a button_state_scheme" where
  "pending_push event s = s\<lparr>g_pending := ring_push MAX_PENDING_EVENTS event (g_pending s)\<rparr>"

definition pending_pop ::
  "'a button_state_scheme \<Rightarrow> gpio_event option \<times> 'a button_state_scheme" where
  "pending_pop s =
     (let (event, q) = ring_pop MAX_PENDING_EVENTS (g_pending s) in (event, s\<lparr>g_pending := q\<rparr>))"

definition to_button_event :: "nat \<Rightarrow> bool \<Rightarrow> gpio_event_type" where
  "to_button_event line long_press =
     (case line of
        0 \<Rightarrow> if long_press then GPIO_EVT_BTN_K1_LONG else GPIO_EVT_BTN_K1_SHORT
      | Suc 0 \<Rightarrow> if long_press then GPIO_EVT_BTN_K2_LONG else GPIO_EVT_BTN_K2_SHORT
      | _ \<Rightarrow> if long_press then GPIO_EVT_BTN_K3_LONG else GPIO_EVT_BTN_K3_SHORT)"

definition button_event :: "nat \<Rightarrow> bool \<Rightarrow> u64 \<Rightarrow> gpio_event" where
  "button_event line long_press ts =
     \<lparr>ev_type = to_button_event line long_press, ev_line = of_nat line, timestamp_ns = ts\<rparr>"

text \<open>The statics that a reset clears.\<close>

definition reset_buttons :: "'a button_state_scheme \<Rightarrow> 'a button_state_scheme" where
  "reset_buttons s =
     s\<lparr>g_press_time_ms := replicate GPIO_NUM_BUTTONS 0, g_last_edge_ms := replicate GPIO_NUM_BUTTONS 0,
       g_pressed := replicate GPIO_NUM_BUTTONS False, g_long_sent := replicate GPIO_NUM_BUTTONS False,
       g_pending := ring_empty MAX_PENDING_EVENTS zero_event\<rparr>"

text \<open>
  One round of the loop over the buttons: is a press waiting to become long, and the
  shortest delay so far, where 0 also stands for no delay yet.
\<close>

definition timer_scan ::
  "u64 \<Rightarrow> 'a button_state_scheme \<Rightarrow> nat \<Rightarrow> bool \<times> u64 \<Rightarrow> bool \<times> u64" where
  "timer_scan now_ms s i acc =
     (let (has_pending, next_delay_ms) = acc in
      if g_pressed s ! i \<and> \<not> g_long_sent s ! i then
        let deadline = g_press_time_ms s ! i + GPIO_LONG_PRESS_MS;
            remaining = (if deadline > now_ms then deadline - now_ms else 0)
        in (True, if next_delay_ms = 0 \<or> remaining < next_delay_ms then remaining else next_delay_ms)
      else (has_pending, next_delay_ms))"

definition update_long_press_timer_locked ::
  "u64 \<Rightarrow> 'a button_state_scheme \<Rightarrow> 'a button_state_scheme" where
  "update_long_press_timer_locked now_ms s =
     (if g_timer_fd s < 0 then s
      else
        let (has_pending, next_delay_ms) = fold (timer_scan now_ms s) [0..<GPIO_NUM_BUTTONS] (False, 0) in
        if has_pending then
          let next_delay_ms = (if next_delay_ms = 0 then 1 else next_delay_ms)
          in s\<lparr>g_timer_value := (next_delay_ms div 1000, (next_delay_ms mod 1000) * 1000000)\<rparr>
        else s\<lparr>g_timer_value := (0, 0)\<rparr>)"

definition long_press_one ::
  "u64 \<Rightarrow> u64 \<Rightarrow> nat \<Rightarrow> 'a button_state_scheme \<Rightarrow> 'a button_state_scheme" where
  "long_press_one now_ms now_ns i s =
     (if g_pressed s ! i \<and> \<not> g_long_sent s ! i \<and>
         now_ms - g_press_time_ms s ! i \<ge> GPIO_LONG_PRESS_MS
      then pending_push (button_event i True now_ns) (s\<lparr>g_long_sent := (g_long_sent s)[i := True]\<rparr>)
      else s)"

text \<open>\<open>upd_ms\<close> is the time that the final re-arming of the timer reads.\<close>

definition handle_long_press_timer_locked ::
  "u64 \<Rightarrow> u64 \<Rightarrow> u64 \<Rightarrow> 'a button_state_scheme \<Rightarrow> 'a button_state_scheme" where
  "handle_long_press_timer_locked now_ms now_ns upd_ms s =
     (if g_timer_fd s < 0 then s
      else update_long_press_timer_locked upd_ms
             (fold (long_press_one now_ms now_ns) [0..<GPIO_NUM_BUTTONS] s))"

text \<open>An edge of button \<open>line\<close>: the debounce test, and what an accepted edge does.\<close>

definition debounced :: "nat \<Rightarrow> u64 \<Rightarrow> 'a button_state_scheme \<Rightarrow> bool" where
  "debounced line now_ms s \<longleftrightarrow> g_use_soft_debounce s \<and> g_last_edge_ms s ! line \<noteq> 0 \<and>
     now_ms - g_last_edge_ms s ! line < GPIO_DEBOUNCE_MS"

definition release_button ::
  "nat \<Rightarrow> u64 \<Rightarrow> u64 \<Rightarrow> 'a button_state_scheme \<Rightarrow> 'a button_state_scheme" where
  "release_button line ts upd_ms s =
     (let s = s\<lparr>g_pressed := (g_pressed s)[line := False]\<rparr> in
      if \<not> g_timer_fd s \<ge> 0 then
        let elapsed = ts div 1000000 - g_press_time_ms s ! line
        in pending_push (button_event line (elapsed \<ge> GPIO_LONG_PRESS_MS) ts) s
      else
        let long_sent = g_long_sent s ! line;
            s = s\<lparr>g_long_sent := (g_long_sent s)[line := False]\<rparr>;
            s = (if \<not> long_sent then pending_push (button_event line False ts) s else s)
        in update_long_press_timer_locked upd_ms s)"

definition process_line ::
  "nat \<Rightarrow> int \<Rightarrow> u64 \<Rightarrow> u64 \<Rightarrow> 'a button_state_scheme \<Rightarrow> 'a button_state_scheme" where
  "process_line line new_value ts upd_ms s =
     (let now_ms = ts div 1000000 in
      if debounced line now_ms s then s
      else
        let s = s\<lparr>g_last_edge_ms := (g_last_edge_ms s)[line := now_ms]\<rparr> in
        if new_value = g_pressed_level s then
          let s = s\<lparr>g_pressed := (g_pressed s)[line := True],
                    g_press_time_ms := (g_press_time_ms s)[line := now_ms],
                    g_long_sent := (g_long_sent s)[line := False]\<rparr>
          in if g_timer_fd s \<ge> 0 then update_long_press_timer_locked upd_ms s else s
        else if g_pressed s ! line then release_button line ts upd_ms s
        else s)"

section \<open>Well-formed states\<close>

definition buttons_ok :: "'a button_state_scheme \<Rightarrow> bool" where
  [wf_defs]: "buttons_ok s \<longleftrightarrow>
     length (g_press_time_ms s) = GPIO_NUM_BUTTONS \<and> length (g_last_edge_ms s) = GPIO_NUM_BUTTONS \<and>
     length (g_pressed s) = GPIO_NUM_BUTTONS \<and> length (g_long_sent s) = GPIO_NUM_BUTTONS \<and>
     ring_ok MAX_PENDING_EVENTS (g_pending s) \<and>
     (\<forall>i < GPIO_NUM_BUTTONS. g_long_sent s ! i \<longrightarrow> g_pressed s ! i \<and> g_timer_fd s \<ge> 0) \<and>
     list_all (\<lambda>e. \<exists>i < GPIO_NUM_BUTTONS. \<exists>l t. e = button_event i l t)
       (ring_items MAX_PENDING_EVENTS (g_pending s))"

interpretation pending: bounded_fifo MAX_PENDING_EVENTS "ring_push MAX_PENDING_EVENTS"
  "ring_pop MAX_PENDING_EVENTS" "ring_ok MAX_PENDING_EVENTS" "ring_items MAX_PENDING_EVENTS"
  by (rule ring_fifo) simp

lemma update_timer_sel [simp]:
  "g_timer_fd (update_long_press_timer_locked now s) = g_timer_fd s"
  "g_pressed_level (update_long_press_timer_locked now s) = g_pressed_level s"
  "g_use_soft_debounce (update_long_press_timer_locked now s) = g_use_soft_debounce s"
  "g_press_time_ms (update_long_press_timer_locked now s) = g_press_time_ms s"
  "g_last_edge_ms (update_long_press_timer_locked now s) = g_last_edge_ms s"
  "g_pressed (update_long_press_timer_locked now s) = g_pressed s"
  "g_long_sent (update_long_press_timer_locked now s) = g_long_sent s"
  "g_pending (update_long_press_timer_locked now s) = g_pending s"
  "button_state.more (update_long_press_timer_locked now s) = button_state.more s"
  by (simp_all add: update_long_press_timer_locked_def Let_def case_prod_beta)

lemma pending_push_sel [simp]:
  "g_timer_fd (pending_push e s) = g_timer_fd s"
  "g_timer_value (pending_push e s) = g_timer_value s"
  "g_pressed_level (pending_push e s) = g_pressed_level s"
  "g_use_soft_debounce (pending_push e s) = g_use_soft_debounce s"
  "g_press_time_ms (pending_push e s) = g_press_time_ms s"
  "g_last_edge_ms (pending_push e s) = g_last_edge_ms s"
  "g_pressed (pending_push e s) = g_pressed s"
  "g_long_sent (pending_push e s) = g_long_sent s"
  "g_pending (pending_push e s) = ring_push MAX_PENDING_EVENTS e (g_pending s)"
  "button_state.more (pending_push e s) = button_state.more s"
  by (simp_all add: pending_push_def)

lemma pending_push_ok:
  assumes "buttons_ok s" and "i < GPIO_NUM_BUTTONS"
  shows "buttons_ok (pending_push (button_event i l t) s)"
proof -
  let ?q = "g_pending s" and ?P = "\<lambda>e. \<exists>i < GPIO_NUM_BUTTONS. \<exists>l t. e = button_event i l t"
  have q: "ring_ok MAX_PENDING_EVENTS ?q" and all: "list_all ?P (ring_items MAX_PENDING_EVENTS ?q)"
    using assms(1) by (simp_all add: buttons_ok_def)
  have "list_all ?P (tl (ring_items MAX_PENDING_EVENTS ?q))"
    using all by (cases "ring_items MAX_PENDING_EVENTS ?q") simp_all
  then have "list_all ?P (ring_items MAX_PENDING_EVENTS (ring_push MAX_PENDING_EVENTS (button_event i l t) ?q))"
    using all assms(2) by (auto simp: pending.push_items[OF q])
  then show ?thesis using assms(1) pending.push_ok[OF q] by (simp add: buttons_ok_def)
qed

lemma update_timer_ok: "buttons_ok (update_long_press_timer_locked now s) = buttons_ok s"
  by (simp add: buttons_ok_def)

lemma buttons_ok_long_sent:
  "buttons_ok s \<Longrightarrow> i < GPIO_NUM_BUTTONS \<Longrightarrow> g_pressed s ! i \<Longrightarrow> g_timer_fd s \<ge> 0 \<Longrightarrow>
   buttons_ok (s\<lparr>g_long_sent := (g_long_sent s)[i := True]\<rparr>)"
  by (auto simp: buttons_ok_def nth_list_update)

lemma long_press_one_ok:
  "buttons_ok s \<Longrightarrow> i < GPIO_NUM_BUTTONS \<Longrightarrow> g_timer_fd s \<ge> 0 \<Longrightarrow>
   buttons_ok (long_press_one now ns i s) \<and> g_timer_fd (long_press_one now ns i s) \<ge> 0"
  by (simp add: long_press_one_def pending_push_ok buttons_ok_long_sent)

lemma handle_long_press_ok:
  assumes "buttons_ok s"
  shows "buttons_ok (handle_long_press_timer_locked now ns upd s)"
proof -
  have "buttons_ok (fold (long_press_one now ns) is t) \<and> g_timer_fd (fold (long_press_one now ns) is t) \<ge> 0"
    if "buttons_ok t" "g_timer_fd t \<ge> 0" "\<forall>i \<in> set is. i < GPIO_NUM_BUTTONS" for "is" t
    using that by (induction "is" arbitrary: t) (simp_all add: long_press_one_ok)
  from this[of s "[0..<GPIO_NUM_BUTTONS]"] show ?thesis
    using assms by (simp add: handle_long_press_timer_locked_def update_timer_ok)
qed

lemma release_button_ok:
  assumes "buttons_ok s" and "line < GPIO_NUM_BUTTONS"
  shows "buttons_ok (release_button line ts upd s)"
proof (cases "g_timer_fd s \<ge> 0")
  case True
  let ?s = "s\<lparr>g_pressed := (g_pressed s)[line := False], g_long_sent := (g_long_sent s)[line := False]\<rparr>"
  have "buttons_ok ?s" using assms by (auto simp: buttons_ok_def nth_list_update)
  then show ?thesis
    using True assms(2) by (simp add: release_button_def Let_def update_timer_ok pending_push_ok)
next
  case False
  then have "buttons_ok (s\<lparr>g_pressed := (g_pressed s)[line := False]\<rparr>)"
    using assms by (auto simp: buttons_ok_def nth_list_update)
  then show ?thesis using False assms(2) by (simp add: release_button_def Let_def pending_push_ok)
qed

lemma buttons_ok_edge: "buttons_ok s \<Longrightarrow> buttons_ok (s\<lparr>g_last_edge_ms := (g_last_edge_ms s)[i := t]\<rparr>)"
  by (simp add: buttons_ok_def)

lemma buttons_ok_press:
  "buttons_ok s \<Longrightarrow> i < GPIO_NUM_BUTTONS \<Longrightarrow>
   buttons_ok (s\<lparr>g_last_edge_ms := es, g_pressed := (g_pressed s)[i := True],
     g_press_time_ms := (g_press_time_ms s)[i := t], g_long_sent := (g_long_sent s)[i := False]\<rparr>)"
  if "length es = GPIO_NUM_BUTTONS"
  using that by (auto simp: buttons_ok_def nth_list_update)

lemma process_line_ok:
  assumes "buttons_ok s" and "line < GPIO_NUM_BUTTONS"
  shows "buttons_ok (process_line line v ts upd s)"
proof -
  have "length ((g_last_edge_ms s)[line := t]) = GPIO_NUM_BUTTONS" for t
    using assms(1) by (simp add: buttons_ok_def)
  then show ?thesis
    using assms
    by (simp add: process_line_def Let_def update_timer_ok buttons_ok_press buttons_ok_edge
        release_button_ok)
qed

lemma pending_pop_ok:
  assumes "buttons_ok s"
  shows "buttons_ok (snd (pending_pop s))"
proof -
  let ?q = "g_pending s"
  have q: "ring_ok MAX_PENDING_EVENTS ?q" using assms by (simp add: buttons_ok_def)
  show ?thesis
  proof (cases "ring_items MAX_PENDING_EVENTS ?q")
    case Nil
    then show ?thesis using assms pending.pop_none[OF q] by (simp add: pending_pop_def)
  next
    case (Cons x xs)
    then show ?thesis
      using assms pending.pop_some[OF q Cons] pending.pop_ok[OF q]
      by (simp add: pending_pop_def buttons_ok_def case_prod_beta)
  qed
qed

section \<open>One event for one press\<close>

text \<open>
  The events a state still owes for button \<open>i\<close>: the queued ones, and one for a press that
  has not been reported. Only an accepted press adds to it, and only by one.
\<close>

definition owed :: "nat \<Rightarrow> 'a button_state_scheme \<Rightarrow> nat" where
  "owed i s = length (filter (\<lambda>e. ev_line e = of_nat i) (ring_items MAX_PENDING_EVENTS (g_pending s))) +
     (if g_pressed s ! i \<and> \<not> g_long_sent s ! i then 1 else 0)"

lemma line_inj:
  assumes "i < GPIO_NUM_BUTTONS" and "j < GPIO_NUM_BUTTONS"
  shows "(of_nat i = (of_nat j :: u8)) = (i = j)"
proof -
  have "i = 0 \<or> i = 1 \<or> i = 2" "j = 0 \<or> j = 1 \<or> j = 2" using assms by auto
  then show ?thesis by auto
qed

lemma owed_update_timer [simp]: "owed i (update_long_press_timer_locked now s) = owed i s"
  by (simp add: owed_def)

lemma owed_push:
  assumes "ring_ok MAX_PENDING_EVENTS (g_pending s)" and "i < GPIO_NUM_BUTTONS" and "j < GPIO_NUM_BUTTONS"
  shows "owed i (pending_push (button_event j l t) s) \<le> owed i s + (if i = j then 1 else 0)"
  using pending.push_filter[OF assms(1), of "\<lambda>e. ev_line e = of_nat i" "button_event j l t"]
    line_inj[OF assms(3,2)]
  by (auto simp: owed_def button_event_def split: if_splits)

text \<open>Reporting the press of button \<open>j\<close> pays for the event.\<close>

lemma owed_paid:
  assumes "buttons_ok s" and "i < GPIO_NUM_BUTTONS" and "j < GPIO_NUM_BUTTONS"
    and "g_pressed s ! j" and "\<not> g_long_sent s ! j"
    and "g_pending t = g_pending s"
    and "\<forall>k < GPIO_NUM_BUTTONS. k \<noteq> j \<longrightarrow> g_pressed t ! k = g_pressed s ! k \<and> g_long_sent t ! k = g_long_sent s ! k"
    and "\<not> g_pressed t ! j \<or> g_long_sent t ! j"
  shows "owed i (pending_push (button_event j l ts) t) \<le> owed i s"
proof -
  have "ring_ok MAX_PENDING_EVENTS (g_pending t)" using assms by (simp add: buttons_ok_def)
  then have "owed i (pending_push (button_event j l ts) t) \<le> owed i t + (if i = j then 1 else 0)"
    by (rule owed_push[OF _ assms(2,3)])
  also have "\<dots> \<le> owed i s" using assms by (auto simp: owed_def)
  finally show ?thesis .
qed

lemma long_press_one_owed:
  assumes "buttons_ok s" and "i < GPIO_NUM_BUTTONS" and "j < GPIO_NUM_BUTTONS"
  shows "owed i (long_press_one now ns j s) \<le> owed i s"
proof (cases "g_pressed s ! j \<and> \<not> g_long_sent s ! j \<and> now - g_press_time_ms s ! j \<ge> GPIO_LONG_PRESS_MS")
  case True
  then show ?thesis
    unfolding long_press_one_def
    using assms by (simp, intro owed_paid[of s]) (auto simp: buttons_ok_def)
qed (auto simp: long_press_one_def)

lemma handle_long_press_owed:
  assumes "buttons_ok s" and "i < GPIO_NUM_BUTTONS"
  shows "owed i (handle_long_press_timer_locked now ns upd s) \<le> owed i s"
proof -
  have "owed i (fold (long_press_one now ns) is t) \<le> owed i t"
    if "buttons_ok t" "g_timer_fd t \<ge> 0" "\<forall>j \<in> set is. j < GPIO_NUM_BUTTONS" for "is" t
    using that
  proof (induction "is" arbitrary: t)
    case (Cons j "is")
    then have "owed i (fold (long_press_one now ns) is (long_press_one now ns j t)) \<le>
        owed i (long_press_one now ns j t)"
      by (intro Cons.IH) (simp_all add: long_press_one_ok)
    also have "\<dots> \<le> owed i t" using Cons.prems assms(2) by (intro long_press_one_owed) simp_all
    finally show ?case by simp
  qed simp
  from this[of s "[0..<GPIO_NUM_BUTTONS]"] show ?thesis
    using assms(1) by (simp add: handle_long_press_timer_locked_def)
qed

lemma release_button_owed:
  assumes "buttons_ok s" and "i < GPIO_NUM_BUTTONS" and "line < GPIO_NUM_BUTTONS" and "g_pressed s ! line"
  shows "owed i (release_button line ts upd s) \<le> owed i s"
proof (cases "g_timer_fd s \<ge> 0 \<and> g_long_sent s ! line")
  case True
  then show ?thesis using assms by (auto simp: release_button_def Let_def owed_def nth_list_update buttons_ok_def)
next
  case False
  then have n: "\<not> g_long_sent s ! line" using assms by (auto simp: buttons_ok_def)
  have paid: "owed i (pending_push (button_event line l ts) t) \<le> owed i s"
    if "g_pending t = g_pending s" "g_pressed t = (g_pressed s)[line := False]"
      "g_long_sent t = g_long_sent s \<or> g_long_sent t = (g_long_sent s)[line := False]" for l t
    using that assms n
    by (intro owed_paid[of s]) (auto simp: buttons_ok_def)
  show ?thesis using n by (simp add: release_button_def Let_def) (intro conjI impI; rule paid; simp)
qed

lemma process_line_owed:
  assumes "buttons_ok s" and "i < GPIO_NUM_BUTTONS" and "line < GPIO_NUM_BUTTONS"
  shows "owed i (process_line line v ts upd s) \<le>
    owed i s + (if line = i \<and> v = g_pressed_level s then 1 else 0)"
proof -
  let ?e = "s\<lparr>g_last_edge_ms := (g_last_edge_ms s)[line := ts div 1000000]\<rparr>"
  have e: "buttons_ok ?e" "owed i ?e = owed i s"
    using assms(1) by (simp_all add: buttons_ok_edge owed_def)
  have "g_pressed ?e ! line \<Longrightarrow> owed i (release_button line ts upd ?e) \<le> owed i s"
    using release_button_owed[OF e(1) assms(2,3)] e(2) by simp
  moreover have "owed i (?e\<lparr>g_pressed := (g_pressed ?e)[line := True], g_press_time_ms := p,
      g_long_sent := (g_long_sent ?e)[line := False]\<rparr>) \<le> owed i s + (if line = i then 1 else 0)" for p
    using assms by (auto simp: owed_def nth_list_update buttons_ok_def)
  ultimately show ?thesis using e(2) by (auto simp: process_line_def Let_def)
qed

lemma pending_pop_owed:
  assumes "buttons_ok s"
  shows "(case fst (pending_pop s) of Some e \<Rightarrow> if ev_line e = of_nat i then 1 else 0 | None \<Rightarrow> 0) +
    owed i (snd (pending_pop s)) = owed i s"
proof -
  have q: "ring_ok MAX_PENDING_EVENTS (g_pending s)" using assms by (simp add: buttons_ok_def)
  show ?thesis
    using pending.pop_filter[OF q, of "\<lambda>e. ev_line e = of_nat i"]
    by (simp add: pending_pop_def case_prod_beta owed_def)
qed

lemma pending_pop_event:
  assumes "buttons_ok s" and "fst (pending_pop s) = Some e"
  shows "\<exists>i < GPIO_NUM_BUTTONS. \<exists>l t. e = button_event i l t"
proof -
  let ?q = "g_pending s"
  have q: "ring_ok MAX_PENDING_EVENTS ?q" using assms(1) by (simp add: buttons_ok_def)
  show ?thesis
  proof (cases "ring_items MAX_PENDING_EVENTS ?q")
    case Nil
    then show ?thesis using assms(2) pending.pop_none[OF q] by (simp add: pending_pop_def)
  next
    case (Cons x xs)
    then show ?thesis
      using assms pending.pop_some[OF q Cons] by (simp add: pending_pop_def buttons_ok_def case_prod_beta)
  qed
qed

section \<open>The interface\<close>

text \<open>
  What the user of a driver relies on: \<open>read_event\<close> returns 1 exactly with an event, which
  is a press of one of the three buttons, and over time it returns no more events for a
  button than the button was pressed, \<open>presses i e\<close> times during a call with environment
  \<open>e\<close>; \<open>due i\<close> is what the driver still has to report for button \<open>i\<close>.
\<close>

locale gpio_driver =
  fixes read_event :: "'e \<Rightarrow> 's \<Rightarrow> (int \<times> gpio_event option) \<times> 's"
    and inv :: "'s \<Rightarrow> bool"
    and due :: "nat \<Rightarrow> 's \<Rightarrow> nat"
    and presses :: "nat \<Rightarrow> 'e \<Rightarrow> nat"
  assumes read_inv: "inv s \<Longrightarrow> inv (snd (read_event e s))"
    and read_result: "inv s \<Longrightarrow> fst (read_event e s) = (ret, res) \<Longrightarrow> (ret = 1 \<longleftrightarrow> res \<noteq> None) \<and> ret \<le> 1"
    and read_button: "inv s \<Longrightarrow> snd (fst (read_event e s)) = Some ev \<Longrightarrow>
      \<exists>i < GPIO_NUM_BUTTONS. \<exists>l t. ev = button_event i l t"
    and read_due: "inv s \<Longrightarrow> i < GPIO_NUM_BUTTONS \<Longrightarrow>
      (case snd (fst (read_event e s)) of Some ev \<Rightarrow> if ev_line ev = of_nat i then 1 else 0 | None \<Rightarrow> 0) +
      due i (snd (read_event e s)) \<le> due i s + presses i e"
begin

text \<open>A sequence of calls and the events they return.\<close>

fun reads :: "'e list \<Rightarrow> 's \<Rightarrow> gpio_event list \<times> 's" where
  "reads [] s = ([], s)"
| "reads (e # es) s =
     (let ((_, ev), s) = read_event e s; (evs, s) = reads es s
      in ((case ev of Some ev \<Rightarrow> [ev] | None \<Rightarrow> []) @ evs, s))"

lemma reads_inv: "inv s \<Longrightarrow> inv (snd (reads es s))"
  by (induction es arbitrary: s) (simp_all add: case_prod_beta Let_def read_inv)

lemma reads_due:
  assumes "inv s" and "i < GPIO_NUM_BUTTONS"
  shows "length (filter (\<lambda>ev. ev_line ev = of_nat i) (fst (reads es s))) + due i (snd (reads es s)) \<le>
    due i s + sum_list (map (presses i) es)"
  using assms(1)
proof (induction es arbitrary: s)
  case (Cons e es)
  have "length (filter (\<lambda>ev. ev_line ev = of_nat i) (fst (reads es (snd (read_event e s))))) +
      due i (snd (reads es (snd (read_event e s)))) \<le>
      due i (snd (read_event e s)) + sum_list (map (presses i) es)"
    by (rule Cons.IH[OF read_inv[OF Cons.prems]])
  then show ?case
    using read_due[OF Cons.prems assms(2), of e]
    by (cases "snd (fst (read_event e s))") (auto simp: case_prod_beta Let_def split: if_splits)
qed simp

text \<open>Summed over the buttons: a returned event is paid for.\<close>

lemma read_total:
  assumes "inv s"
  shows "(if snd (fst (read_event e s)) = None then 0 else 1) +
    (\<Sum>i < GPIO_NUM_BUTTONS. due i (snd (read_event e s))) \<le>
    (\<Sum>i < GPIO_NUM_BUTTONS. due i s) + (\<Sum>i < GPIO_NUM_BUTTONS. presses i e)"
proof -
  let ?r = "snd (fst (read_event e s))"
  let ?hit = "\<lambda>i. (case ?r of Some ev \<Rightarrow> if ev_line ev = of_nat i then 1 else 0 | None \<Rightarrow> (0 :: nat))"
  have "(\<Sum>i < GPIO_NUM_BUTTONS. ?hit i) = (if ?r = None then 0 else 1)"
  proof (cases ?r)
    case (Some ev)
    then obtain j l t where j: "j < GPIO_NUM_BUTTONS" "ev = button_event j l t"
      using read_button[OF assms] by blast
    have "(\<Sum>i < GPIO_NUM_BUTTONS. ?hit i) = (\<Sum>i < GPIO_NUM_BUTTONS. if i = j then 1 else 0)"
      by (rule sum.cong) (use line_inj[OF j(1)] Some j(2) in \<open>auto simp: button_event_def\<close>)
    also have "\<dots> = 1" using j(1) by simp
    finally show ?thesis using Some by simp
  qed simp
  moreover have "(\<Sum>i < GPIO_NUM_BUTTONS. ?hit i + due i (snd (read_event e s))) \<le>
      (\<Sum>i < GPIO_NUM_BUTTONS. due i s + presses i e)"
    by (rule sum_mono) (use read_due[OF assms] in simp)
  ultimately show ?thesis by (simp only: sum.distrib)
qed

end

end
