(* ===== verification/Gpio_Libgpiod.thy ===== *)
theory Gpio_Libgpiod
  imports Gpio_Buttons
begin

text \<open>
  The GPIO driver over libgpiod (\<open>src/hal/gpio_hal_libgpiod.c\<close>). Of the library's objects
  the model keeps whether they exist; what the calls return is the environment of an
  operation.
\<close>

definition g_btn_offsets :: "u32 list" where
  "g_btn_offsets = [0, 2, 3]"

record gpiod_state = button_state +
  g_chip :: bool
  g_request :: bool
  g_event_buf :: bool
  g_gpiod_fd :: int

text \<open>An edge event; \<open>edge_now_ms\<close> is the time a re-arming of the timer reads while it is processed.\<close>

record gpiod_edge =
  edge_offset :: u32
  edge_falling :: bool
  edge_timestamp_ns :: u64
  edge_now_ms :: u64

text \<open>Reading edges fails, with \<open>EAGAIN\<close> or otherwise, or returns at most 16 of them.\<close>

datatype edge_read = Read_Error bool | Read_Edges "gpiod_edge list"

record gpiod_env =
  env_now_ms :: u64
  env_now_ns :: u64
  env_upd_ms :: u64
  env_read :: edge_read

record gpiod_init_env =
  chip_ok :: bool
  debounce_request_ok :: bool
  debounce_unsupported :: bool
  plain_request_ok :: bool
  event_buf_ok :: bool
  request_fd :: int
  timer_create :: int
  line_values :: "int list"

section \<open>Initialisation\<close>

text \<open>The idle level is that of the majority of the lines, the pressed level the other one.\<close>

fun count_levels :: "int list \<Rightarrow> int \<Rightarrow> int \<Rightarrow> (int \<times> int) option" where
  "count_levels [] zeros ones = Some (zeros, ones)"
| "count_levels (v # vs) zeros ones =
     (if v < 0 then None
      else if v = 0 then count_levels vs (zeros + 1) ones
      else count_levels vs zeros (ones + 1))"

definition detect_pressed_level :: "int list \<Rightarrow> int" where
  "detect_pressed_level vals =
     (case count_levels vals 0 0 of
        None \<Rightarrow> -1
      | Some (zeros, ones) \<Rightarrow> 1 - (if zeros \<ge> ones then 0 else 1))"

definition libgpiod_init :: "gpiod_init_env \<Rightarrow> gpiod_state \<Rightarrow> int \<times> gpiod_state" where
  "libgpiod_init e s =
     (let s = (reset_buttons s)\<lparr>g_chip := chip_ok e\<rparr> in
      if \<not> g_chip s then (-1, s)
      else
        let s = s\<lparr>g_request := debounce_request_ok e\<rparr>;
            s = (if \<not> g_request s \<and> debounce_unsupported e
                 then s\<lparr>g_request := plain_request_ok e, g_use_soft_debounce := True\<rparr>
                 else s\<lparr>g_use_soft_debounce := False\<rparr>)
        in if \<not> g_request s then (-1, s\<lparr>g_chip := False\<rparr>)
           else
             let s = s\<lparr>g_event_buf := event_buf_ok e\<rparr> in
             if \<not> g_event_buf s then (-1, s\<lparr>g_request := False, g_chip := False\<rparr>)
             else
               let s = s\<lparr>g_gpiod_fd := request_fd e, g_timer_fd := timer_create e,
                         g_timer_value := (0, 0)\<rparr> in
               if g_timer_fd s < 0
               then (-1, s\<lparr>g_event_buf := False, g_request := False, g_chip := False\<rparr>)
               else
                 let s = s\<lparr>g_pressed_level := detect_pressed_level (line_values e)\<rparr> in
                 if g_pressed_level s < 0
                 then (-1, s\<lparr>g_event_buf := False, g_request := False, g_timer_fd := -1,
                            g_chip := False\<rparr>)
                 else (0, s))"

definition libgpiod_cleanup :: "gpiod_state \<Rightarrow> gpiod_state" where
  "libgpiod_cleanup s =
     (let s = s\<lparr>g_event_buf := False\<rparr>;
          s = (if g_timer_fd s \<ge> 0 then s\<lparr>g_timer_fd := -1\<rparr> else s);
          s = s\<lparr>g_request := False\<rparr>;
          s = s\<lparr>g_chip := False\<rparr>;
          s = s\<lparr>g_gpiod_fd := -1\<rparr>
      in reset_buttons s)"

definition libgpiod_get_fd :: "gpiod_state \<Rightarrow> int" where
  "libgpiod_get_fd s = (if \<not> g_request s then -1 else g_gpiod_fd s)"

definition libgpiod_get_timer_fd :: "gpiod_state \<Rightarrow> int" where
  "libgpiod_get_timer_fd s = g_timer_fd s"

section \<open>Reading events\<close>

definition edge_level :: "gpiod_edge \<Rightarrow> int" where
  "edge_level d = (if edge_falling d then 0 else 1)"

definition process_edge_event :: "gpiod_edge \<Rightarrow> gpiod_state \<Rightarrow> gpiod_state" where
  "process_edge_event d s =
     (case first_index (\<lambda>b. b = edge_offset d) g_btn_offsets of
        None \<Rightarrow> s
      | Some line \<Rightarrow> process_line line (edge_level d) (edge_timestamp_ns d) (edge_now_ms d) s)"

text \<open>Draining the timer descriptor and reporting the presses that have become long.\<close>

definition drain_timer :: "gpiod_env \<Rightarrow> gpiod_state \<Rightarrow> gpiod_state" where
  "drain_timer e s =
     (if g_timer_fd s \<ge> 0
      then handle_long_press_timer_locked (env_now_ms e) (env_now_ns e) (env_upd_ms e) s
      else s)"

definition libgpiod_read_event ::
  "gpiod_env \<Rightarrow> gpiod_state \<Rightarrow> (int \<times> gpio_event option) \<times> gpiod_state" where
  "libgpiod_read_event e s =
     (if \<not> g_request s then ((-1, None), s)
      else case pending_pop s of
        (Some ev, s) \<Rightarrow> ((1, Some ev), s)
      | (None, s) \<Rightarrow>
          (case pending_pop (drain_timer e s) of
             (Some ev, s) \<Rightarrow> ((1, Some ev), s)
           | (None, s) \<Rightarrow>
               (case env_read e of
                  Read_Error again \<Rightarrow> ((if again then 0 else -1, None), s)
                | Read_Edges edges \<Rightarrow>
                    (case pending_pop (fold process_edge_event edges s) of
                       (Some ev, s) \<Rightarrow> ((1, Some ev), s)
                     | (None, s) \<Rightarrow> ((0, None), s)))))"

section \<open>The contract of a driver\<close>

definition gpiod_inv :: "int \<Rightarrow> gpiod_state \<Rightarrow> bool" where
  [wf_defs]: "gpiod_inv L s \<longleftrightarrow> buttons_ok s \<and> g_pressed_level s = L"

definition gpiod_presses :: "int \<Rightarrow> nat \<Rightarrow> gpiod_env \<Rightarrow> nat" where
  "gpiod_presses L i e =
     (case env_read e of
        Read_Error _ \<Rightarrow> 0
      | Read_Edges ds \<Rightarrow>
          length (filter (\<lambda>d. edge_offset d = g_btn_offsets ! i \<and> edge_level d = L) ds))"

lemma btn_line: "first_index (\<lambda>b. b = off) g_btn_offsets = Some line \<Longrightarrow>
  line < GPIO_NUM_BUTTONS \<and> off = g_btn_offsets ! line"
  using first_index_Some[of "\<lambda>b. b = off" g_btn_offsets line] by (simp add: g_btn_offsets_def)

lemma pending_pop_sel [simp]:
  "g_pressed_level (snd (pending_pop s)) = g_pressed_level s"
  "g_request (snd (pending_pop t)) = g_request t"
  by (simp_all add: pending_pop_def case_prod_beta)

lemma long_press_level [simp]:
  "g_pressed_level (handle_long_press_timer_locked now ns upd s) = g_pressed_level s"
proof -
  have "g_pressed_level (fold (long_press_one now ns) is s) = g_pressed_level s" for "is"
    by (induction "is" arbitrary: s) (simp_all add: long_press_one_def)
  then show ?thesis by (simp add: handle_long_press_timer_locked_def)
qed

lemma process_line_level [simp]: "g_pressed_level (process_line l v ts upd s) = g_pressed_level s"
  by (simp add: process_line_def release_button_def Let_def)

lemma process_edge_inv: "gpiod_inv L s \<Longrightarrow> gpiod_inv L (process_edge_event d s)"
  by (auto simp: process_edge_event_def gpiod_inv_def process_line_ok dest!: btn_line split: option.split)

lemma process_edge_owed:
  assumes "gpiod_inv L s" and "i < GPIO_NUM_BUTTONS"
  shows "owed i (process_edge_event d s) \<le>
    owed i s + (if edge_offset d = g_btn_offsets ! i \<and> edge_level d = L then 1 else 0)"
proof (cases "first_index (\<lambda>b. b = edge_offset d) g_btn_offsets")
  case None
  then show ?thesis by (simp add: process_edge_event_def)
next
  case (Some line)
  from btn_line[OF this] process_line_owed[of s i line "edge_level d" "edge_timestamp_ns d" "edge_now_ms d"]
  show ?thesis using assms Some by (auto simp: process_edge_event_def gpiod_inv_def split: if_splits)
qed

lemma process_edges:
  assumes "gpiod_inv L s" and "i < GPIO_NUM_BUTTONS"
  shows "gpiod_inv L (fold process_edge_event ds s) \<and> owed i (fold process_edge_event ds s) \<le>
    owed i s + length (filter (\<lambda>d. edge_offset d = g_btn_offsets ! i \<and> edge_level d = L) ds)"
  using assms(1)
proof (induction ds arbitrary: s)
  case (Cons d ds)
  let ?s = "process_edge_event d s"
  let ?P = "\<lambda>d. edge_offset d = g_btn_offsets ! i \<and> edge_level d = L"
  note IH = Cons.IH[OF process_edge_inv[OF Cons.prems, of d]]
  have "owed i (fold process_edge_event ds ?s) \<le> owed i ?s + length (filter ?P ds)"
    by (rule IH[THEN conjunct2])
  also have "\<dots> \<le> owed i s + (if ?P d then 1 else 0) + length (filter ?P ds)"
    by (rule add_right_mono) (rule process_edge_owed[OF Cons.prems assms(2)])
  also have "\<dots> = owed i s + length (filter ?P (d # ds))" by simp
  finally show ?case using IH by (simp del: filter.simps)
qed simp

text \<open>The four ways a call can end, each with a last \<open>pending_pop\<close>.\<close>

lemma read_event_cases:
  fixes e :: gpiod_env and s :: gpiod_state
  defines "h \<equiv> drain_timer e (snd (pending_pop s))"
  obtains (unavailable) "\<not> g_request s" "libgpiod_read_event e s = ((-1, None), s)"
  | (queued) ev where "g_request s" "fst (pending_pop s) = Some ev"
      "libgpiod_read_event e s = ((1, Some ev), snd (pending_pop s))"
  | (long_press) ev where "g_request s" "fst (pending_pop s) = None" "fst (pending_pop h) = Some ev"
      "libgpiod_read_event e s = ((1, Some ev), snd (pending_pop h))"
  | (failed) again where "g_request s" "fst (pending_pop s) = None" "fst (pending_pop h) = None"
      "env_read e = Read_Error again"
      "libgpiod_read_event e s = ((if again then 0 else -1, None), snd (pending_pop h))"
  | (edges) ds where "g_request s" "fst (pending_pop s) = None" "fst (pending_pop h) = None"
      "env_read e = Read_Edges ds"
      "libgpiod_read_event e s =
        ((if fst (pending_pop (fold process_edge_event ds (snd (pending_pop h)))) = None then 0 else 1,
          fst (pending_pop (fold process_edge_event ds (snd (pending_pop h))))),
         snd (pending_pop (fold process_edge_event ds (snd (pending_pop h)))))"
proof -
  obtain p s1 where p: "pending_pop s = (p, s1)" by force
  obtain q s2 where q: "pending_pop (drain_timer e s1) = (q, s2)" by force
  have h: "h = drain_timer e s1" by (simp add: h_def p)
  consider "\<not> g_request s" | ev where "g_request s" "p = Some ev"
    | ev where "g_request s" "p = None" "q = Some ev"
    | again where "g_request s" "p = None" "q = None" "env_read e = Read_Error again"
    | ds where "g_request s" "p = None" "q = None" "env_read e = Read_Edges ds"
    by (metis edge_read.exhaust option.exhaust)
  then show ?thesis
  proof cases
    case 1
    then show ?thesis by (intro unavailable) (simp_all add: libgpiod_read_event_def)
  next
    case (2 ev)
    then show ?thesis using p by (intro queued) (simp_all add: libgpiod_read_event_def)
  next
    case (3 ev)
    then show ?thesis using p q by (intro long_press) (simp_all add: libgpiod_read_event_def h)
  next
    case (4 again)
    then show ?thesis using p q by (intro failed) (simp_all add: libgpiod_read_event_def h)
  next
    case (5 ds)
    obtain r s3 where r: "pending_pop (fold process_edge_event ds s2) = (r, s3)" by force
    show ?thesis using 5 p q r by (intro edges) (cases r; simp add: libgpiod_read_event_def h)+
  qed
qed

lemma pending_pop_inv: "gpiod_inv L s \<Longrightarrow> gpiod_inv L (snd (pending_pop s))"
  by (simp add: gpiod_inv_def pending_pop_ok)

lemma drain_timer_inv: "gpiod_inv L s \<Longrightarrow> gpiod_inv L (drain_timer e s)"
  by (simp add: gpiod_inv_def drain_timer_def handle_long_press_ok)

lemma drain_timer_owed:
  "buttons_ok s \<Longrightarrow> i < GPIO_NUM_BUTTONS \<Longrightarrow> owed i (drain_timer e s) \<le> owed i s"
  by (simp add: drain_timer_def handle_long_press_owed)

interpretation gpiod: gpio_driver libgpiod_read_event "gpiod_inv L" owed "gpiod_presses L"
  for L
proof
  fix s :: gpiod_state and e :: gpiod_env
  assume inv: "gpiod_inv L s"
  let ?s1 = "snd (pending_pop s)"
  let ?h = "drain_timer e ?s1"
  have h: "gpiod_inv L ?h" using inv by (simp add: drain_timer_inv pending_pop_inv)
  note h' = pending_pop_inv[OF h]
  have ok: "gpiod_inv L t \<Longrightarrow> buttons_ok t" for t by (simp add: gpiod_inv_def)
  show "gpiod_inv L (snd (libgpiod_read_event e s))"
    using inv h' process_edges[OF h', of 0]
    by (cases e s rule: read_event_cases) (simp_all add: pending_pop_inv)
  have "(fst (fst (libgpiod_read_event e s)) = 1 \<longleftrightarrow> snd (fst (libgpiod_read_event e s)) \<noteq> None) \<and>
      fst (fst (libgpiod_read_event e s)) \<le> 1"
    by (cases e s rule: read_event_cases) simp_all
  then show "fst (libgpiod_read_event e s) = (ret, res) \<Longrightarrow> (ret = 1 \<longleftrightarrow> res \<noteq> None) \<and> ret \<le> 1" for ret res
    by simp
  have f: "buttons_ok (fold process_edge_event ds (snd (pending_pop ?h)))" for ds
    using ok process_edges[OF h', of 0] by simp
  show "snd (fst (libgpiod_read_event e s)) = Some ev \<Longrightarrow>
      \<exists>i < GPIO_NUM_BUTTONS. \<exists>l t. ev = button_event i l t" for ev
    using pending_pop_event[OF ok[OF inv]] pending_pop_event[OF ok[OF h]] pending_pop_event[OF f]
    by (cases e s rule: read_event_cases) simp_all
  show "(case snd (fst (libgpiod_read_event e s)) of Some ev \<Rightarrow> if ev_line ev = of_nat i then 1 else 0
        | None \<Rightarrow> 0) + owed i (snd (libgpiod_read_event e s)) \<le> owed i s + gpiod_presses L i e"
    if i: "i < GPIO_NUM_BUTTONS" for i
  proof -
    note p1 = pending_pop_owed[OF ok[OF inv], of i] and p2 = pending_pop_owed[OF ok[OF h], of i]
    have hl: "owed i ?h \<le> owed i ?s1"
      by (rule drain_timer_owed[OF ok[OF pending_pop_inv[OF inv]] i])
    show ?thesis
    proof (cases e s rule: read_event_cases)
      case (edges ds)
      let ?f = "fold process_edge_event ds (snd (pending_pop ?h))"
      have f: "gpiod_inv L ?f" "owed i ?f \<le> owed i (snd (pending_pop ?h)) +
          length (filter (\<lambda>d. edge_offset d = g_btn_offsets ! i \<and> edge_level d = L) ds)"
        using process_edges[OF h' i, of ds] by simp_all
      show ?thesis
        using edges p1 p2 hl pending_pop_owed[OF ok[OF f(1)], of i] f(2)
        by (simp add: gpiod_presses_def)
    qed (use p1 p2 hl in simp_all)
  qed
qed


section \<open>The life of a press\<close>

text \<open>
  The states between presses, and while the one button \<open>i\<close> is held since \<open>tp\<close>, its long press
  reported or not. The hardware debounces; nothing is queued.
\<close>

definition gpiod_calm :: "int \<Rightarrow> gpiod_state \<Rightarrow> bool" where
  [wf_defs]: "gpiod_calm L s \<longleftrightarrow> gpiod_inv L s \<and> g_request s \<and> \<not> g_use_soft_debounce s \<and>
     g_timer_fd s \<ge> 0 \<and> count (g_pending s) = 0"

definition idle :: "gpiod_state \<Rightarrow> bool" where
  [wf_defs]: "idle s \<longleftrightarrow> (\<forall>j < GPIO_NUM_BUTTONS. \<not> g_pressed s ! j)"

definition held :: "nat \<Rightarrow> u64 \<Rightarrow> bool \<Rightarrow> gpiod_state \<Rightarrow> bool" where
  [wf_defs]: "held i tp long s \<longleftrightarrow> (\<forall>j < GPIO_NUM_BUTTONS. g_pressed s ! j = (j = i)) \<and>
     g_press_time_ms s ! i = tp \<and> g_long_sent s ! i = long"

lemma pop_empty: "count (g_pending s) = 0 \<Longrightarrow> pending_pop s = (None, s)"
  by (simp add: pending_pop_def ring_pop_def)

lemma push_pop:
  assumes "buttons_ok s" and "count (g_pending s) = 0"
  shows "fst (pending_pop (pending_push e s)) = Some e"
    and "count (g_pending (snd (pending_pop (pending_push e s)))) = 0"
proof -
  let ?q = "g_pending s"
  have q: "ring_ok MAX_PENDING_EVENTS ?q" using assms(1) by (simp add: buttons_ok_def)
  have "ring_items MAX_PENDING_EVENTS (ring_push MAX_PENDING_EVENTS e ?q) = [e]"
    using assms(2) pending.push_items[OF q] by (simp add: ring_items_def)
  from pending.pop_some[OF pending.push_ok[OF q] this]
  show "fst (pending_pop (pending_push e s)) = Some e"
    and "count (g_pending (snd (pending_pop (pending_push e s)))) = 0"
    by (simp_all add: pending_pop_def case_prod_beta ring_items_def)
qed

lemma pending_pop_frame [simp]:
  "g_timer_fd (snd (pending_pop s)) = g_timer_fd s"
  "g_timer_value (snd (pending_pop s)) = g_timer_value s"
  "g_use_soft_debounce (snd (pending_pop s)) = g_use_soft_debounce s"
  "g_press_time_ms (snd (pending_pop s)) = g_press_time_ms s"
  "g_pressed (snd (pending_pop s)) = g_pressed s"
  "g_long_sent (snd (pending_pop s)) = g_long_sent s"
  by (simp_all add: pending_pop_def case_prod_beta)

lemma gpiod_more_simps [simp]:
  "g_request (pending_push e s) = g_request s"
  "g_request (update_long_press_timer_locked now s) = g_request s"
  by (simp_all add: pending_push_def update_long_press_timer_locked_def Let_def case_prod_beta)

lemma long_press_one_skip:
  "\<not> (g_pressed s ! i \<and> \<not> g_long_sent s ! i \<and> now - g_press_time_ms s ! i \<ge> GPIO_LONG_PRESS_MS) \<Longrightarrow>
   long_press_one now ns i s = s"
  by (simp only: long_press_one_def if_False)

lemma buttons_upt: "[0..<GPIO_NUM_BUTTONS] = [0, 1, 2]"
  by (simp add: upt_rec)

text \<open>The loop over the buttons when only button \<open>i\<close> can be due.\<close>

lemma long_press_loop:
  assumes "i < GPIO_NUM_BUTTONS" and "\<forall>j < GPIO_NUM_BUTTONS. g_pressed s ! j \<longrightarrow> j = i"
  shows "fold (long_press_one now ns) [0..<GPIO_NUM_BUTTONS] s = long_press_one now ns i s"
proof -
  have p: "g_pressed (long_press_one now ns k t) = g_pressed t" for k and t :: "'a button_state_scheme"
    by (simp add: long_press_one_def)
  have other: "long_press_one now ns j t = t" if "g_pressed t = g_pressed s" "j < GPIO_NUM_BUTTONS" "j \<noteq> i"
    for j and t :: "'a button_state_scheme"
    using assms that by (intro long_press_one_skip) auto
  have "i = 0 \<or> i = 1 \<or> i = 2" using assms(1) by auto
  then show ?thesis by (auto simp: buttons_upt other p)
qed

text \<open>The timer is set to what is left until the press becomes long, at least a millisecond.\<close>

definition armed_for :: "u64 \<Rightarrow> u64 \<times> u64" where
  "armed_for d = (let d = (if d = 0 then 1 else d) in (d div 1000, (d mod 1000) * 1000000))"

definition left_until_long :: "u64 \<Rightarrow> u64 \<Rightarrow> u64" where
  "left_until_long tp now = (if tp + GPIO_LONG_PRESS_MS > now then tp + GPIO_LONG_PRESS_MS - now else 0)"

lemma timer_scan_loop:
  assumes "i < GPIO_NUM_BUTTONS" and "held i tp False s"
  shows "fold (timer_scan now s) [0..<GPIO_NUM_BUTTONS] (False, 0) = (True, left_until_long tp now)"
proof -
  have "g_pressed s ! 0 = (0 = i)" "g_pressed s ! 1 = (1 = i)" "g_pressed s ! 2 = (2 = i)"
    "g_long_sent s ! i = False" "g_press_time_ms s ! i = tp"
    using assms(2) by (simp_all add: held_def)
  moreover have "i = 0 \<or> i = 1 \<or> i = 2" using assms(1) by auto
  ultimately show ?thesis
    by (elim disjE) (simp_all add: buttons_upt timer_scan_def left_until_long_def Let_def)
qed

lemma update_timer_held:
  assumes "i < GPIO_NUM_BUTTONS" and "held i tp False s" and "g_timer_fd s \<ge> 0"
  shows "g_timer_value (update_long_press_timer_locked now s) = armed_for (left_until_long tp now)"
  unfolding update_long_press_timer_locked_def timer_scan_loop[OF assms(1,2)]
  using assms(3) by (simp add: armed_for_def Let_def)

lemma update_timer_held_frame [simp]: "held i tp long (update_long_press_timer_locked now s) = held i tp long s"
  "idle (update_long_press_timer_locked now s) = idle s"
  "gpiod_calm L (update_long_press_timer_locked now s) = gpiod_calm L s"
  by (simp_all add: held_def idle_def gpiod_calm_def gpiod_inv_def update_timer_ok)

section \<open>The calls of \<open>read_event\<close> during a press\<close>

lemma drain_nothing:
  assumes "gpiod_calm L s" and "i < GPIO_NUM_BUTTONS" and "held i tp long s"
    and "long \<or> env_now_ms e - tp < GPIO_LONG_PRESS_MS"
  shows "drain_timer e s = update_long_press_timer_locked (env_upd_ms e) s"
proof -
  have "long_press_one (env_now_ms e) (env_now_ns e) i s = s"
    using assms by (intro long_press_one_skip) (auto simp: held_def)
  then show ?thesis
    using assms long_press_loop[OF assms(2), of s "env_now_ms e" "env_now_ns e"]
    by (simp add: drain_timer_def handle_long_press_timer_locked_def gpiod_calm_def held_def)
qed

lemma drain_idle:
  assumes "gpiod_calm L s" and "idle s"
  shows "drain_timer e s = update_long_press_timer_locked (env_upd_ms e) s"
proof -
  have "long_press_one (env_now_ms e) (env_now_ns e) 0 s = s"
    using assms by (intro long_press_one_skip) (auto simp: idle_def)
  then show ?thesis
    using assms long_press_loop[of 0 s "env_now_ms e" "env_now_ns e"]
    by (simp add: drain_timer_def handle_long_press_timer_locked_def gpiod_calm_def idle_def)
qed

text \<open>A call while nothing is due: it processes the edges it reads.\<close>

lemma read_event_edges:
  assumes "gpiod_calm L s" and "drain_timer e s = update_long_press_timer_locked (env_upd_ms e) s"
  shows "libgpiod_read_event e s =
    (case env_read e of
       Read_Error again \<Rightarrow>
         ((if again then 0 else -1, None), update_long_press_timer_locked (env_upd_ms e) s)
     | Read_Edges ds \<Rightarrow>
         (case pending_pop (fold process_edge_event ds (update_long_press_timer_locked (env_upd_ms e) s)) of
            (Some ev, s) \<Rightarrow> ((1, Some ev), s)
          | (None, s) \<Rightarrow> ((0, None), s)))"
  using assms by (simp add: libgpiod_read_event_def gpiod_calm_def pop_empty split: edge_read.split)

definition edge_of :: "nat \<Rightarrow> int \<Rightarrow> gpiod_edge \<Rightarrow> bool" where
  "edge_of i v d \<longleftrightarrow> edge_offset d = g_btn_offsets ! i \<and> edge_level d = v"

lemma process_edge_line:
  assumes "i < GPIO_NUM_BUTTONS" and "edge_of i v d"
  shows "process_edge_event d s = process_line i v (edge_timestamp_ns d) (edge_now_ms d) s"
proof -
  have "i = 0 \<or> i = Suc 0 \<or> i = Suc (Suc 0)" using assms(1) by auto
  then show ?thesis using assms(2) by (auto simp: process_edge_event_def edge_of_def g_btn_offsets_def)
qed

text \<open>A press is noted and the timer armed.\<close>

lemma read_press:
  assumes "gpiod_calm L s" and "idle s" and "i < GPIO_NUM_BUTTONS" and "env_read e = Read_Edges [d]"
    and "edge_of i L d"
  shows "\<exists>s'. libgpiod_read_event e s = ((0, None), s') \<and> gpiod_calm L s' \<and>
    held i (edge_timestamp_ns d div 1000000) False s' \<and>
    g_timer_value s' = armed_for (left_until_long (edge_timestamp_ns d div 1000000) (edge_now_ms d))"
proof -
  let ?u = "update_long_press_timer_locked (env_upd_ms e) s" and ?t = "edge_timestamp_ns d div 1000000"
  let ?p = "?u\<lparr>g_last_edge_ms := (g_last_edge_ms ?u)[i := ?t], g_pressed := (g_pressed ?u)[i := True],
    g_press_time_ms := (g_press_time_ms ?u)[i := ?t], g_long_sent := (g_long_sent ?u)[i := False]\<rparr>"
  have u: "gpiod_calm L ?u" "idle ?u" using assms(1,2) by simp_all
  have "\<not> debounced i ?t ?u" using u by (simp add: debounced_def gpiod_calm_def)
  then have pl: "process_edge_event d ?u = update_long_press_timer_locked (edge_now_ms d) ?p"
    using u process_edge_line[OF assms(3,5), of ?u] by (simp add: process_line_def Let_def gpiod_calm_def gpiod_inv_def)
  have "buttons_ok ?p" using u assms(3) by (intro buttons_ok_press) (simp_all add: gpiod_calm_def gpiod_inv_def buttons_ok_def)
  then have c: "gpiod_calm L ?p" using u by (simp add: gpiod_calm_def gpiod_inv_def)
  have h: "held i ?t False ?p"
    using u assms(3) by (auto simp: held_def idle_def gpiod_calm_def gpiod_inv_def buttons_ok_def nth_list_update)
  have v: "g_timer_value (update_long_press_timer_locked (edge_now_ms d) ?p) =
      armed_for (left_until_long ?t (edge_now_ms d))"
    using c by (intro update_timer_held[OF assms(3) h]) (simp add: gpiod_calm_def)
  have "count (g_pending ?p) = 0" using c by (simp add: gpiod_calm_def)
  then have "pending_pop (update_long_press_timer_locked (edge_now_ms d) ?p) =
      (None, update_long_press_timer_locked (edge_now_ms d) ?p)"
    by (intro pop_empty) simp
  then show ?thesis
    using read_event_edges[OF assms(1) drain_idle[OF assms(1,2)]] assms(4) pl c h v by simp
qed

text \<open>A call while the button is held and nothing is due re-arms the timer.\<close>

lemma read_wait:
  assumes "gpiod_calm L s" and "i < GPIO_NUM_BUTTONS" and "held i tp long s"
    and "long \<or> env_now_ms e - tp < GPIO_LONG_PRESS_MS" and "env_read e = Read_Error True"
  shows "\<exists>s'. libgpiod_read_event e s = ((0, None), s') \<and> gpiod_calm L s' \<and> held i tp long s' \<and>
    (\<not> long \<longrightarrow> g_timer_value s' = armed_for (left_until_long tp (env_upd_ms e)))"
proof -
  have "\<not> long \<Longrightarrow> g_timer_value (update_long_press_timer_locked (env_upd_ms e) s) =
      armed_for (left_until_long tp (env_upd_ms e))"
    using assms(1,2,3) update_timer_held[of i tp s] by (simp add: gpiod_calm_def)
  then show ?thesis
    using read_event_edges[OF assms(1) drain_nothing[OF assms(1-4)]] assms(1,3,5) by simp
qed

text \<open>The call that finds the press long enough.\<close>

lemma read_long:
  assumes "gpiod_calm L s" and "i < GPIO_NUM_BUTTONS" and "held i tp False s"
    and "env_now_ms e - tp \<ge> GPIO_LONG_PRESS_MS"
  shows "\<exists>s'. libgpiod_read_event e s = ((1, Some (button_event i True (env_now_ns e))), s') \<and>
    gpiod_calm L s' \<and> held i tp True s'"
proof -
  let ?l = "s\<lparr>g_long_sent := (g_long_sent s)[i := True]\<rparr>" and ?ev = "button_event i True (env_now_ns e)"
  let ?d = "update_long_press_timer_locked (env_upd_ms e) (pending_push ?ev ?l)"
  have inv: "buttons_ok s" "g_pressed_level s = L" "g_request s" "g_timer_fd s \<ge> 0" "count (g_pending s) = 0"
    "\<not> g_use_soft_debounce s"
    using assms(1) by (simp_all add: gpiod_calm_def gpiod_inv_def)
  have l: "buttons_ok ?l" "count (g_pending ?l) = 0"
    using inv assms(2,3) by (simp_all add: buttons_ok_long_sent held_def)
  have "long_press_one (env_now_ms e) (env_now_ns e) i s = pending_push ?ev ?l"
    using assms(2-4) by (simp add: long_press_one_def held_def)
  then have d: "drain_timer e s = ?d"
    using inv(4) assms(3) long_press_loop[OF assms(2), of s "env_now_ms e" "env_now_ns e"]
    by (simp add: drain_timer_def handle_long_press_timer_locked_def held_def)
  have g: "g_pending ?d = g_pending (pending_push ?ev ?l)" by simp
  then have p: "fst (pending_pop ?d) = Some ?ev" "count (g_pending (snd (pending_pop ?d))) = 0"
    using push_pop[OF l, of ?ev] by (simp_all add: pending_pop_def case_prod_beta)
  then have r: "libgpiod_read_event e s = ((1, Some ?ev), snd (pending_pop ?d))"
    using inv(3) pop_empty[OF inv(5)] d
    by (cases "pending_pop ?d") (simp add: libgpiod_read_event_def)
  have "buttons_ok ?d" using pending_push_ok[OF l(1) assms(2)] by (simp add: update_timer_ok)
  then have "gpiod_calm L (snd (pending_pop ?d))"
    using inv p(2) by (simp add: gpiod_calm_def gpiod_inv_def pending_pop_ok del: pending_push_sel(9))
  moreover have "held i tp True (snd (pending_pop ?d))"
    using assms(2,3) inv(1) by (simp add: held_def buttons_ok_def)
  ultimately show ?thesis using r by blast
qed

text \<open>A release ends the press: a short event unless the long one was sent.\<close>

lemma buttons_ok_release:
  assumes "buttons_ok s" and "i < GPIO_NUM_BUTTONS" and "length es = GPIO_NUM_BUTTONS"
  shows "buttons_ok (s\<lparr>g_last_edge_ms := es, g_pressed := (g_pressed s)[i := False],
    g_long_sent := (g_long_sent s)[i := False]\<rparr>)"
  using assms by (auto simp: buttons_ok_def nth_list_update)

lemma read_release:
  assumes "gpiod_calm L s" and "i < GPIO_NUM_BUTTONS" and "held i tp long s"
    and "long \<or> env_now_ms e - tp < GPIO_LONG_PRESS_MS"
    and "env_read e = Read_Edges [d]" and "edge_of i v d" and "v \<noteq> L"
  shows "\<exists>s'. libgpiod_read_event e s =
      ((if long then (0, None) else (1, Some (button_event i False (edge_timestamp_ns d)))), s') \<and>
    gpiod_calm L s' \<and> idle s'"
proof -
  define u where "u = update_long_press_timer_locked (env_upd_ms e) s"
  let ?ts = "edge_timestamp_ns d"
  let ?ev = "button_event i False ?ts"
  define r where "r = u\<lparr>g_last_edge_ms := (g_last_edge_ms u)[i := ?ts div 1000000],
    g_pressed := (g_pressed u)[i := False], g_long_sent := (g_long_sent u)[i := False]\<rparr>"
  have inv: "buttons_ok u" "g_pressed_level u = L" "g_request u" "g_timer_fd u \<ge> 0"
    "count (g_pending u) = 0" "\<not> g_use_soft_debounce u" and h: "held i tp long u"
    using assms(1,3) by (simp_all add: u_def gpiod_calm_def gpiod_inv_def update_timer_ok)
  have len: "length (g_last_edge_ms u) = GPIO_NUM_BUTTONS" "length (g_pressed u) = GPIO_NUM_BUTTONS"
    using inv(1) by (simp_all add: buttons_ok_def)
  have rok: "buttons_ok r" unfolding r_def by (rule buttons_ok_release[OF inv(1) assms(2)]) (simp add: len)
  have ridle: "idle r" using h len by (auto simp: r_def idle_def held_def nth_list_update)
  have rsel: "count (g_pending r) = 0" "g_pressed_level r = L" "g_request r" "g_timer_fd r \<ge> 0"
    "\<not> g_use_soft_debounce r" using inv by (simp_all add: r_def)
  have "\<not> debounced i (?ts div 1000000) u" using inv(6) by (simp add: debounced_def)
  moreover have "g_pressed u ! i" using h assms(2) by (simp add: held_def)
  moreover have "g_long_sent u ! i = long" using h by (simp add: held_def)
  ultimately have e: "process_edge_event d u = update_long_press_timer_locked (edge_now_ms d)
      (if long then r else pending_push ?ev r)"
    using assms(7) inv(2,4) process_edge_line[OF assms(2,6), of u]
    by (simp add: r_def process_line_def release_button_def Let_def)
  define x where "x = update_long_press_timer_locked (edge_now_ms d) (if long then r else pending_push ?ev r)"
  have x: "buttons_ok x" using rok pending_push_ok[OF rok assms(2)] by (simp add: x_def update_timer_ok)
  have xsel: "g_pressed_level x = L" "g_request x" "g_timer_fd x \<ge> 0" "\<not> g_use_soft_debounce x" "idle x"
    using rsel ridle by (simp_all add: x_def idle_def)
  have "g_pending x = g_pending (if long then r else pending_push ?ev r)" by (simp add: x_def)
  then have p: "fst (pending_pop x) = (if long then None else Some ?ev)"
    "count (g_pending (snd (pending_pop x))) = 0"
    using rsel(1) push_pop[OF rok rsel(1), of ?ev]
    by (simp_all add: pending_pop_def case_prod_beta ring_pop_def split: if_splits)
  obtain y where y: "pending_pop x = (if long then None else Some ?ev, y)"
    using p(1) by (cases "pending_pop x") simp
  have "libgpiod_read_event e s =
      ((if long then (0, None) else (1, Some ?ev)), y)"
    using read_event_edges[OF assms(1) drain_nothing[OF assms(1-4)], folded u_def]
    by (simp add: assms(5) e[folded x_def] y)
  moreover have "gpiod_calm L y"
    using xsel p(2) x pending_pop_sel[of x] pending_pop_frame[of x] pending_pop_ok[OF x] y
    by (simp add: gpiod_calm_def gpiod_inv_def)
  moreover have "idle y" using xsel(5) pending_pop_frame(5)[of x] y by (simp add: idle_def)
  ultimately show ?thesis by blast
qed

end
