(* ===== verification/Main_Loop.thy ===== *)
theory Main_Loop
  imports Ui_Controller Ubus_Real Gpio_Libgpiod
begin

text \<open>
  The program (\<open>src/main.c\<close>): start-up, the callbacks registered with uloop, and shutdown,
  over the libgpiod driver, the SSD1306 display and the ubus module. uloop is third-party
  code: a run of the loop is a sequence of steps, each calling one callback that is due.
\<close>

type_synonym hal = "svc_token ubus_real"

text \<open>The statics of \<open>main.c\<close>. \<open>m_timer\<close> is the delay the UI timer was last set to, while it is pending.\<close>

record main_state =
  m_ui :: "hal ui_controller"
  m_gpio :: gpiod_state
  m_timer :: "int option"
  m_running :: bool

section \<open>Callbacks\<close>

definition schedule_ui_timer :: "main_state \<Rightarrow> main_state" where
  "schedule_ui_timer m =
     (let next_ms = ui_controller_next_timeout_ms (m_ui m)
      in if next_ms > 0 then m\<lparr>m_timer := Some next_ms\<rparr> else m)"

text \<open>The key and the press type of an event; key 0 is none.\<close>

fun event_key :: "gpio_event_type \<Rightarrow> u8 \<times> bool" where
  "event_key GPIO_EVT_BTN_K1_SHORT = (KEY_K1, False)"
| "event_key GPIO_EVT_BTN_K2_SHORT = (KEY_K2, False)"
| "event_key GPIO_EVT_BTN_K3_SHORT = (KEY_K3, False)"
| "event_key GPIO_EVT_BTN_K1_LONG = (KEY_K1, True)"
| "event_key GPIO_EVT_BTN_K2_LONG = (KEY_K2, True)"
| "event_key GPIO_EVT_BTN_K3_LONG = (KEY_K3, True)"
| "event_key GPIO_EVT_NONE = (0, False)"

definition on_ui :: "(hal ui_controller \<Rightarrow> bool \<times> hal ui_controller) \<Rightarrow> main_state \<Rightarrow> main_state" where
  [step_defs]: "on_ui f m = m\<lparr>m_ui := snd (f (m_ui m))\<rparr>"

definition handle_button_event ::
  "metrics \<Rightarrow> ubus_env key_env \<Rightarrow> gpio_event \<Rightarrow> main_state \<Rightarrow> main_state" where
  "handle_button_event gsw e event m =
     (let now_ms = timestamp_ns event div 1000000; (key, long_press) = event_key (ev_type event)
      in if key \<noteq> 0
         then schedule_ui_timer (on_ui (ui_controller_render gsw now_ms)
                (on_ui (ui_controller_handle_button real_ops e key long_press now_ms) m))
         else m)"

text \<open>
  The loop of \<open>gpio_fd_cb\<close>, with the environment of each call of \<open>read_event\<close>. The result is
  \<open>None\<close> when the list of environments ends before the loop does.
\<close>

fun gpio_fd_cb ::
  "metrics \<Rightarrow> (gpiod_env \<times> ubus_env key_env) list \<Rightarrow> main_state \<Rightarrow> main_state option" where
  "gpio_fd_cb gsw [] m = None"
| "gpio_fd_cb gsw ((ge, ke) # es) m =
     (let ((ret, event), g) = libgpiod_read_event ge (m_gpio m); m = m\<lparr>m_gpio := g\<rparr>
      in if ret > 0
         then gpio_fd_cb gsw es (case event of Some ev \<Rightarrow> handle_button_event gsw ke ev m | None \<Rightarrow> m)
         else Some m)"

text \<open>uloop takes a timer off its list before it calls it.\<close>

definition ui_timer_cb :: "metrics \<Rightarrow> ubus_env tick_env \<Rightarrow> u64 \<Rightarrow> main_state \<Rightarrow> main_state" where
  "ui_timer_cb gsw e now_ms m =
     schedule_ui_timer (on_ui (ui_controller_render gsw now_ms)
       (on_ui (ui_controller_tick real_ops e now_ms) m))"

definition handle_signal :: "main_state \<Rightarrow> main_state" where
  "handle_signal m = m\<lparr>m_running := False\<rparr>"

text \<open>A timer or reply of the ubus module, with the callbacks it leads to.\<close>

definition ubus_event :: "real_event \<Rightarrow> u64 \<Rightarrow> main_state \<Rightarrow> main_state" where
  "ubus_event v now m =
     on_ui (\<lambda>ui. (False, run_notes (ui\<lparr>ui_svc := service_event real_dispatch v now (ui_svc ui)\<rparr>))) m"

section \<open>Start-up and shutdown\<close>

text \<open>What the calls of \<open>main\<close> before the loop return.\<close>

record main_env =
  ma_access_ok :: bool
  ma_display_io :: "i2c_state \<Rightarrow> i2c_state"
  ma_gpio :: gpiod_init_env
  ma_ctx :: "sys_status_ctx option"
  ma_local :: local_env
  ma_uloop :: bool
  ma_ubus :: ubus_env
  ma_tick :: "ubus_env tick_env"
  ma_now_ms :: u64

definition cleanup_hal :: "main_state \<Rightarrow> main_state" where
  "cleanup_hal m =
     m\<lparr>m_gpio := libgpiod_cleanup (m_gpio m),
       m_ui := (m_ui m)\<lparr>ui_world := ssd1306_cleanup (ui_world (m_ui m))\<rparr>\<rparr>"

text \<open>\<open>main\<close> up to \<open>uloop_run\<close>; \<open>Inl\<close> is the exit code of a failed start.\<close>

definition main_start :: "metrics \<Rightarrow> main_env \<Rightarrow> main_state \<Rightarrow> int + main_state" where
  "main_start gsw e m =
     (let (r, w) = ssd1306_init (ma_access_ok e) (ma_display_io e) (ui_world (m_ui m));
          m = m\<lparr>m_ui := (m_ui m)\<lparr>ui_world := w\<rparr>\<rparr>
      in if r \<noteq> 0 then Inl 1
         else
           let (r, g) = libgpiod_init (ma_gpio e) (m_gpio m); m = m\<lparr>m_gpio := g\<rparr>
           in if r \<noteq> 0 then Inl 1
              else
                let m = m\<lparr>m_ui := ui_controller_init (ma_ctx e) (ma_local e) (m_ui m)\<rparr>
                in if \<not> ma_uloop e then Inl 1
                   else
                     let (_, h) = real_init (ma_ubus e) (ss_hal (ui_svc (m_ui m)));
                         ui = m_ui m;
                         m = m\<lparr>m_ui := ui\<lparr>ui_svc := (ui_svc ui)\<lparr>ss_hal := h\<rparr>\<rparr>\<rparr>;
                         m = schedule_ui_timer (on_ui (ui_controller_render gsw (ma_now_ms e))
                               (on_ui (ui_controller_tick real_ops (ma_tick e) (ma_now_ms e)) m))
                     in Inr (m\<lparr>m_running := True\<rparr>))"

definition main_shutdown :: "main_state \<Rightarrow> main_state" where
  "main_shutdown m =
     (let ui = m_ui m;
          ui = ui\<lparr>ui_svc := (ui_svc ui)\<lparr>ss_hal := real_cleanup (ss_hal (ui_svc ui))\<rparr>\<rparr>
      in cleanup_hal (m\<lparr>m_ui := ui_controller_cleanup ui, m_timer := None\<rparr>))"

section \<open>Runs of the loop\<close>

text \<open>\<open>uloop_run\<close>: until it is ended, some callback that is due is called.\<close>

inductive main_step :: "metrics \<Rightarrow> main_state \<Rightarrow> main_state \<Rightarrow> bool" for gsw where
  step_gpio: "m_running m \<Longrightarrow> gpio_fd_cb gsw es m = Some m' \<Longrightarrow> main_step gsw m m'"
| step_timer: "m_running m \<Longrightarrow> m_timer m = Some d \<Longrightarrow>
    main_step gsw m (ui_timer_cb gsw e now (m\<lparr>m_timer := None\<rparr>))"
| step_ubus: "m_running m \<Longrightarrow> main_step gsw m (ubus_event v now m)"
| step_signal: "m_running m \<Longrightarrow> main_step gsw m (handle_signal m)"

inductive main_reachable :: "metrics \<Rightarrow> main_state \<Rightarrow> main_state \<Rightarrow> bool" for gsw m0 where
  reach_start: "main_start gsw e m0 = Inr m \<Longrightarrow> main_reachable gsw m0 m"
| reach_step: "main_reachable gsw m0 m \<Longrightarrow> main_step gsw m m' \<Longrightarrow> main_reachable gsw m0 m'"

inductive_cases main_stepE: "main_step gsw m m'"

text \<open>The statics before \<open>main\<close> runs.\<close>

definition main_statics :: "string \<Rightarrow> main_state" where
  "main_statics services_macro =
     \<lparr>m_ui = \<lparr>page_ctrl = fst (boot_controller (program_start services_macro)),
        ui_svc = \<lparr>ss_status = zero_status, g_next_request_id = 1, ss_hal = ubus_real_start, ss_notes = []\<rparr>,
        status_ctx = None, needs_render = False, power_on = False,
        ui_world = program_start services_macro\<rparr>,
      m_gpio = \<lparr>g_timer_fd = -1, g_timer_value = (0, 0), g_pressed_level = 0,
        g_use_soft_debounce = False, g_press_time_ms = replicate 3 0, g_last_edge_ms = replicate 3 0,
        g_pressed = replicate 3 False, g_long_sent = replicate 3 False,
        g_pending = ring_empty 32 zero_event, g_chip = False, g_request = False,
        g_event_buf = False, g_gpiod_fd = -1\<rparr>,
      m_timer = None, m_running = False\<rparr>"

section \<open>The invariant of the loop\<close>

text \<open>
  The UI is consistent, everything changed has been rendered, and while the screen is on the
  UI timer is pending with the delay that the state of the UI asks for.
\<close>

definition main_inv :: "main_state \<Rightarrow> bool" where
  [wf_defs]: "main_inv m \<longleftrightarrow> buttons_ok (m_gpio m) \<and> ui_inv (m_ui m) \<and> \<not> needs_render (m_ui m) \<and>
     (screen_state (page_ctrl (m_ui m)) = SCREEN_ON \<longrightarrow>
        m_timer m = Some (ui_controller_next_timeout_ms (m_ui m)))"

lemma next_timeout_on:
  "screen_state (page_ctrl ui) = SCREEN_ON \<Longrightarrow> ui_controller_next_timeout_ms ui \<in> {20, 1000}"
  "screen_state (page_ctrl ui) = SCREEN_OFF \<Longrightarrow> ui_controller_next_timeout_ms ui = 0"
  by (simp_all add: ui_controller_next_timeout_ms_def page_controller_is_screen_on_def)

text \<open>Rendering and re-arming the timer complete every handler.\<close>

lemma finish_inv:
  assumes "ui_inv (m_ui m)" and "buttons_ok (m_gpio m)"
  shows "main_inv (schedule_ui_timer (on_ui (ui_controller_render gsw now) m))"
proof -
  let ?ui = "snd (ui_controller_render gsw now (m_ui m))"
  have "ui_inv ?ui" by (rule ui_render_inv[OF assms(1)])
  moreover have "screen_state (page_ctrl ?ui) = SCREEN_ON \<Longrightarrow> 0 < ui_controller_next_timeout_ms ?ui"
    using next_timeout_on(1)[of ?ui] by auto
  ultimately show ?thesis
    using assms(2) by (auto simp: main_inv_def schedule_ui_timer_def on_ui_def Let_def)
qed

lemma handle_button_event_inv:
  assumes "main_inv m"
  shows "main_inv (handle_button_event gsw e ev m)"
proof (cases "fst (event_key (ev_type ev)) \<noteq> 0")
  case True
  let ?now = "timestamp_ns ev div 1000000" and ?k = "event_key (ev_type ev)"
  let ?m = "on_ui (ui_controller_handle_button real_ops e (fst ?k) (snd ?k) ?now) m"
  have "ui_inv (m_ui ?m)" "buttons_ok (m_gpio ?m)"
    using assms by (simp_all add: main_inv_def on_ui_def handle_button_inv)
  then have "main_inv (schedule_ui_timer (on_ui (ui_controller_render gsw ?now) ?m))" by (rule finish_inv)
  then show ?thesis using True by (simp add: handle_button_event_def case_prod_beta Let_def)
next
  case False
  then show ?thesis using assms by (simp add: handle_button_event_def case_prod_beta Let_def)
qed

text \<open>The state after the event of a successful read.\<close>

definition handle_read ::
  "metrics \<Rightarrow> ubus_env key_env \<Rightarrow> gpio_event option \<Rightarrow> main_state \<Rightarrow> main_state" where
  "handle_read gsw ke event m =
     (case event of Some ev \<Rightarrow> handle_button_event gsw ke ev m | None \<Rightarrow> m)"

lemma gpio_fd_cb_step:
  "gpio_fd_cb gsw ((ge, ke) # es) m =
    (if fst (fst (libgpiod_read_event ge (m_gpio m))) > 0
     then gpio_fd_cb gsw es (handle_read gsw ke (snd (fst (libgpiod_read_event ge (m_gpio m))))
            (m\<lparr>m_gpio := snd (libgpiod_read_event ge (m_gpio m))\<rparr>))
     else Some (m\<lparr>m_gpio := snd (libgpiod_read_event ge (m_gpio m))\<rparr>))"
  by (simp add: handle_read_def case_prod_beta Let_def)

lemma read_buttons_ok: "buttons_ok s \<Longrightarrow> buttons_ok (snd (libgpiod_read_event e s))"
  using gpiod.read_inv[of "g_pressed_level s" s e] by (simp add: gpiod_inv_def)

lemma gpio_fd_cb_inv: "main_inv m \<Longrightarrow> gpio_fd_cb gsw es m = Some m' \<Longrightarrow> main_inv m'"
proof (induction es arbitrary: m)
  case (Cons e es)
  obtain ge ke where e: "e = (ge, ke)" by force
  let ?m = "m\<lparr>m_gpio := snd (libgpiod_read_event ge (m_gpio m))\<rparr>"
  have g: "main_inv ?m" using Cons.prems(1) by (simp add: main_inv_def read_buttons_ok)
  then have "main_inv (handle_read gsw ke event ?m)" for event
    by (simp add: handle_read_def handle_button_event_inv split: option.split)
  then show ?case
    using Cons.prems(2) Cons.IH g unfolding e gpio_fd_cb_step by (auto split: if_splits)
qed simp

lemma ui_timer_cb_inv:
  "ui_inv (m_ui m) \<Longrightarrow> buttons_ok (m_gpio m) \<Longrightarrow> main_inv (ui_timer_cb gsw e now m)"
  unfolding ui_timer_cb_def by (rule finish_inv) (simp_all add: on_ui_def ui_tick_inv)

lemma run_notes_sel [simp]:
  "page_ctrl (run_notes ui) = page_ctrl ui" "needs_render (run_notes ui) = needs_render ui"
  "power_on (run_notes ui) = power_on ui" "status_ctx (run_notes ui) = status_ctx ui"
  by (simp_all add: run_notes_def)

lemma run_notes_inv: "ui_inv (run_notes (ui\<lparr>ui_svc := s\<rparr>)) = ui_inv ui"
  by (simp add: ui_inv_def run_notes_def notes_world ctrl_inv_def modal_ok_def)

lemma ubus_event_inv: "main_inv m \<Longrightarrow> main_inv (ubus_event v now m)"
  by (simp add: main_inv_def ubus_event_def on_ui_def run_notes_inv ui_controller_next_timeout_ms_def)

lemma main_step_inv:
  assumes "main_step gsw m m'" and inv: "main_inv m"
  shows "main_inv m'"
  using assms(1)
proof (cases rule: main_step.cases)
  case (step_gpio es)
  then show ?thesis using gpio_fd_cb_inv[OF inv] by simp
next
  case (step_timer d e now)
  have "main_inv (ui_timer_cb gsw e now (m\<lparr>m_timer := None\<rparr>))"
    by (rule ui_timer_cb_inv) (use inv in \<open>simp_all add: main_inv_def\<close>)
  then show ?thesis using step_timer by simp
next
  case (step_ubus v now)
  then show ?thesis using ubus_event_inv[OF inv] by simp
next
  case step_signal
  then show ?thesis using inv by (simp add: handle_signal_def main_inv_def)
qed

lemma libgpiod_init_ok: "fst (libgpiod_init e s) = 0 \<Longrightarrow> buttons_ok (snd (libgpiod_init e s))"
  by (auto simp: libgpiod_init_def reset_buttons_def buttons_ok_def Let_def split: if_splits)

lemma ssd1306_init_config: "config_ok (snd (ssd1306_init a io w)) = config_ok w"
  by (simp add: ssd1306_init_def on_u8g2_def Let_def config_ok_def)

lemma main_start_inv:
  assumes "main_start gsw e m0 = Inr m" and "config_ok (ui_world (m_ui m0))"
  shows "main_inv m \<and> m_running m"
proof -
  let ?w = "snd (ssd1306_init (ma_access_ok e) (ma_display_io e) (ui_world (m_ui m0)))"
  let ?g = "libgpiod_init (ma_gpio e) (m_gpio m0)"
  let ?ui = "ui_controller_init (ma_ctx e) (ma_local e) ((m_ui m0)\<lparr>ui_world := ?w\<rparr>)"
  let ?h = "snd (real_init (ma_ubus e) (ss_hal (ui_svc ?ui)))"
  define u where "u = m0\<lparr>m_gpio := snd ?g, m_ui := ?ui\<lparr>ui_svc := (ui_svc ?ui)\<lparr>ss_hal := ?h\<rparr>\<rparr>\<rparr>"
  let ?t = "on_ui (ui_controller_tick real_ops (ma_tick e) (ma_now_ms e)) u"
  have m: "m = (schedule_ui_timer (on_ui (ui_controller_render gsw (ma_now_ms e)) ?t))\<lparr>m_running := True\<rparr>"
    and g: "fst ?g = 0"
    using assms(1) by (simp_all add: main_start_def u_def case_prod_beta Let_def split: if_splits)
  have "ui_inv ?ui" using assms(2) by (intro ui_init_inv) (simp add: ssd1306_init_config)
  then have "ui_inv (m_ui u)" by (simp add: u_def ui_inv_def)
  then have "main_inv (schedule_ui_timer (on_ui (ui_controller_render gsw (ma_now_ms e)) ?t))"
    by (intro finish_inv) (simp_all add: on_ui_def ui_tick_inv u_def libgpiod_init_ok[OF g])
  then show ?thesis by (simp add: m main_inv_def)
qed

lemma reachable_inv:
  assumes "main_reachable gsw m0 m" and "config_ok (ui_world (m_ui m0))"
  shows "main_inv m"
  using assms(1)
proof induction
  case (reach_start e m)
  then show ?case using main_start_inv[OF _ assms(2)] by simp
next
  case (reach_step m m')
  then show ?case using main_step_inv by simp
qed

section \<open>The button callback returns\<close>

definition gpio_due :: "gpiod_state \<Rightarrow> nat" where
  "gpio_due s = (\<Sum>i < GPIO_NUM_BUTTONS. owed i s)"

definition gpio_presses :: "gpiod_state \<Rightarrow> gpiod_env \<Rightarrow> nat" where
  "gpio_presses s e = (\<Sum>i < GPIO_NUM_BUTTONS. gpiod_presses (g_pressed_level s) i e)"

lemma handle_read_gpio [simp]: "m_gpio (handle_read gsw ke event m) = m_gpio m"
  by (simp add: handle_read_def handle_button_event_def schedule_ui_timer_def on_ui_def
      case_prod_beta Let_def split: option.split)

lemma read_level [simp]: "buttons_ok s \<Longrightarrow> g_pressed_level (snd (libgpiod_read_event e s)) = g_pressed_level s"
  using gpiod.read_inv[of "g_pressed_level s" s e] by (simp add: gpiod_inv_def)

lemma gpio_fd_cb_returns:
  assumes "buttons_ok (m_gpio m)"
    and "gpio_due (m_gpio m) + sum_list (map (gpio_presses (m_gpio m) \<circ> fst) es) < length es"
  shows "gpio_fd_cb gsw es m \<noteq> None"
  using assms
proof (induction es arbitrary: m)
  case (Cons e es)
  obtain ge ke where e: "e = (ge, ke)" by force
  let ?s = "m_gpio m" and ?r = "libgpiod_read_event ge (m_gpio m)"
  have inv: "gpiod_inv (g_pressed_level ?s) ?s" using Cons.prems(1) by (simp add: gpiod_inv_def)
  show ?case
  proof (cases "fst (fst ?r) > 0")
    case True
    then have "fst (fst ?r) = 1" using gpiod.read_result[OF inv, of ge "fst (fst ?r)" "snd (fst ?r)"] by auto
    then have "snd (fst ?r) \<noteq> None"
      using gpiod.read_result[OF inv, of ge "fst (fst ?r)" "snd (fst ?r)"] by auto
    then have "1 + gpio_due (snd ?r) \<le> gpio_due ?s + gpio_presses ?s ge"
      using gpiod.read_total[OF inv, of ge] unfolding gpio_due_def gpio_presses_def by (simp only: if_False)
    moreover have "buttons_ok (snd ?r)" using gpiod.read_inv[OF inv, of ge] by (simp add: gpiod_inv_def)
    moreover have "gpio_presses (snd ?r) = gpio_presses ?s"
      using Cons.prems(1) by (intro ext) (simp add: gpio_presses_def)
    ultimately have "gpio_fd_cb gsw es (handle_read gsw ke (snd (fst ?r)) (m\<lparr>m_gpio := snd ?r\<rparr>)) \<noteq> None"
      using Cons.prems(2) by (intro Cons.IH) (simp_all add: e)
    then show ?thesis using True unfolding e gpio_fd_cb_step by simp
  qed (simp add: e gpio_fd_cb_step del: gpio_fd_cb.simps)
qed simp

end
