(* ===== verification/Sys_Frame.thy ===== *)
theory Sys_Frame
  imports Sys_Local
begin

text \<open>
  What the local update (\<open>Sys_Local\<close>) leaves alone: its parts do not write the list of services.
\<close>


section \<open>The parts and the service list\<close>

text \<open>A scan either converts all its fields or the default branch is taken.\<close>

lemma scan_two_hex:
  "(case xs of [V_Str a, V_Hex b, V_Hex c] \<Rightarrow> f a b c | _ \<Rightarrow> g) = g \<or>
   (\<exists>a b c. xs = [V_Str a, V_Hex b, V_Hex c])"
  by (simp split: list.split scan_val.split)

lemma scan_two_u64:
  "(case xs of [V_Str a, V_U64 b, V_U64 c] \<Rightarrow> f a b c | _ \<Rightarrow> g) = g \<or>
   (\<exists>a b c. xs = [V_Str a, V_U64 b, V_U64 c])"
  by (simp split: list.split scan_val.split)

lemma scan_seven:
  "(case xs of [V_U64 a, V_U64 b, V_U64 c, V_U64 d, V_U64 e, V_U64 h, V_U64 i] \<Rightarrow> f a b c d e h i | _ \<Rightarrow> g) = g \<or>
   (\<exists>a b c d e h i. xs = [V_U64 a, V_U64 b, V_U64 c, V_U64 d, V_U64 e, V_U64 h, V_U64 i])"
  by (simp split: list.split scan_val.split)

lemma mem_loop_services [simp]:
  "services (mem_loop ls n st) = services st" "service_count (mem_loop ls n st) = service_count st"
  by (induction ls n st rule: mem_loop.induct) simp_all

lemma route_loop_services [simp]:
  "services (snd (route_loop ls ctx st)) = services st \<and>
   service_count (snd (route_loop ls ctx st)) = service_count st"
proof (induction ls arbitrary: ctx st)
  case (Cons l ls)
  have "route_loop (l # ls) ctx st = route_loop ls ctx st \<or>
      (\<exists>a b c. sscanf [Scan_Word 15, Scan_Ws, Scan_Hex, Scan_Ws, Scan_Hex] l = [V_Str a, V_Hex b, V_Hex c])"
    unfolding route_loop.simps(2) by (rule scan_two_hex)
  then show ?case using Cons.IH by (elim disjE exE) simp_all
qed simp

lemma dev_loop_services [simp]:
  "services (dev_loop g ls st) = services st \<and> service_count (dev_loop g ls st) = service_count st"
proof (induction ls arbitrary: st)
  case (Cons l ls)
  show ?case
  proof (cases "blank_colon l")
    case None
    then show ?thesis using Cons.IH by simp
  next
    case (Some m)
    let ?x = "sscanf dev_format (dropWhile (\<lambda>c. c = CHR '' '') m)"
    have "dev_loop g (l # ls) st = dev_loop g ls st \<or> (\<exists>a b c. ?x = [V_Str a, V_U64 b, V_U64 c])"
      unfolding dev_loop.simps(2) Some option.case by (rule scan_two_u64)
    then show ?thesis using Cons.IH Some by (elim disjE exE) simp_all
  qed
qed simp

text \<open>The parts of the update write other fields.\<close>

definition same_services :: "sys_status \<Rightarrow> sys_status \<Rightarrow> bool" where
  [simp]: "same_services st st' \<longleftrightarrow> services st' = services st \<and> service_count st' = service_count st"

lemma update_parts_services:
  "same_services st (snd (update_cpu_usage e ctx st))"
  "same_services st (update_cpu_temp e ctx st)"
  "same_services st (update_memory e ctx st)"
  "same_services st (update_hostname e st)"
  "same_services st (update_uptime e st)"
  "same_services st (update_ip_addr e st)"
  "same_services st (snd (update_network_stats e ctx st))"
proof -
  show "same_services st (snd (update_cpu_usage e ctx st))"
  proof (cases "fp_stat ctx \<and> (\<exists>l r. fgets 256 (file_stat e) = Some (l, r))")
    case False
    then show ?thesis by (auto simp: update_cpu_usage_def split: option.split)
  next
    case True
    then obtain l r where l: "fp_stat ctx" "fgets 256 (file_stat e) = Some (l, r)" by auto
    have "update_cpu_usage e ctx st = (ctx, st) \<or>
        (\<exists>a b c d f h i. sscanf cpu_format l = [V_U64 a, V_U64 b, V_U64 c, V_U64 d, V_U64 f, V_U64 h, V_U64 i])"
      unfolding update_cpu_usage_def l option.case prod.case if_not_P[OF not_not[THEN iffD2, OF l(1)]]
      by (rule scan_seven)
    then show ?thesis
      using l by (elim disjE exE) (simp_all add: update_cpu_usage_def Let_def)
  qed
  show "same_services st (update_cpu_temp e ctx st)"
    by (simp add: update_cpu_temp_def split: list.split scan_val.split)
  show "same_services st (update_memory e ctx st)" by (simp add: update_memory_def)
  show "same_services st (update_hostname e st)" by (simp add: update_hostname_def split: option.split)
  show "same_services st (update_uptime e st)" by (simp add: update_uptime_def split: option.split)
  show "same_services st (update_ip_addr e st)"
    by (simp add: update_ip_addr_def Let_def split: option.split)
  have "same_services st (snd (refresh_gateway e c st))" for c
    by (simp add: refresh_gateway_def Let_def case_prod_beta split: option.split)
  then show "same_services st (snd (update_network_stats e ctx st))"
    by (simp add: update_network_stats_def Let_def case_prod_beta)
qed

end
