(* ===== verification/Main_Requests.thy ===== *)
theory Main_Requests
  imports Main_Loop Sys_Frame
begin

text \<open>
  Requests over a run of the program: the service module and the interface stay linked, so
  that every query that is pending will be answered.
\<close>

section \<open>The local update and the service list\<close>

lemma update_local_services:
  "same_services
     (if service_count st = 0 \<and> fst (service_config_get w) \<noteq> []
      then init_services (fst (service_config_get w)) st else st)
     (fst (snd (sys_status_update_local e ctx st w)))"
  using update_parts_services
  by (simp add: sys_status_update_local_def case_prod_beta Let_def)

section \<open>The configured services stay\<close>

text \<open>No page code writes the configuration string; the contract of the pages holds with it fixed.\<close>

definition macro_inv :: "string \<Rightarrow> app_world \<Rightarrow> bool" where
  "macro_inv ms w \<longleftrightarrow> pages_inv w \<and> MONITORED_SERVICES w = ms"

definition macro_boot :: "string \<Rightarrow> app_world \<Rightarrow> bool" where
  "macro_boot ms w \<longleftrightarrow> config_ok w \<and> MONITORED_SERVICES w = ms"

lemma ssd1306_macro [simp]:
  "MONITORED_SERVICES (ssd1306_set_power b w) = MONITORED_SERVICES w"
  "MONITORED_SERVICES (ssd1306_clear_buffer w) = MONITORED_SERVICES w"
  "MONITORED_SERVICES (ssd1306_send_buffer w) = MONITORED_SERVICES w"
  "MONITORED_SERVICES (ssd1306_set_contrast l w) = MONITORED_SERVICES w"
  by (simp_all add: ssd1306_defs on_u8g2_def)

lemma page_ops_macro [simp]:
  "MONITORED_SERVICES (settings_init w) = MONITORED_SERVICES w"
  "MONITORED_SERVICES (services_init w) = MONITORED_SERVICES w"
  "MONITORED_SERVICES (snd (settings_on_key k l m w)) = MONITORED_SERVICES w"
  "MONITORED_SERVICES (snd (services_on_key k l m w)) = MONITORED_SERVICES w"
  "MONITORED_SERVICES (settings_on_enter w) = MONITORED_SERVICES w"
  "MONITORED_SERVICES (services_on_enter w) = MONITORED_SERVICES w"
  "MONITORED_SERVICES (settings_on_exit w) = MONITORED_SERVICES w"
  "MONITORED_SERVICES (services_on_exit w) = MONITORED_SERVICES w"
  "MONITORED_SERVICES (settings_render gsw st m now x w) = MONITORED_SERVICES w"
  "MONITORED_SERVICES (services_render gsw st m now x w) = MONITORED_SERVICES w"
  "MONITORED_SERVICES (snd (services_get_item_count w)) = MONITORED_SERVICES w"
  by (simp_all add: settings_init_def services_init_def settings_on_key_def settings_toggle_def
      services_on_key_def settings_on_enter_def services_on_enter_def settings_on_exit_def
      services_on_exit_def settings_render_def services_render_def services_get_item_count_def
      page_controller_set_auto_screen_off_def on_u8g2_def service_config_get_def Let_def
      case_prod_beta split: option.split)

lemma boot_macro:
  "MONITORED_SERVICES (fold (\<lambda>i. init_page (pages_get_list ! i)) [0..<length pages_get_list] w) =
   MONITORED_SERVICES (w :: app_world)"
  by (simp add: upt_rec[of _ 5] init_page_def pages_get_list_def page_records eval_nat_numeral)

interpretation macro: page_set pages_get_list "macro_inv ms" pages_quiet "macro_boot ms" for ms
proof (unfold_locales, goal_cases)
  case (1 w)
  then show ?case using app.boot_init[of w] boot_macro[of w] by (simp add: macro_inv_def macro_boot_def)
next
  case (2 i p kf w k l m)
  then have "MONITORED_SERVICES (snd (kf k l m w)) = MONITORED_SERVICES w"
    by (auto dest!: page_index_cases simp: pages_nth page_records)
  then show ?case using 2 app.key_inv[OF 2(1-3)] by (simp add: macro_inv_def)
next
  case (3 i p kf w j m k l)
  then show ?case using 3 app.key_quiet[OF 3(1-3)] by (simp add: macro_inv_def)
next
  case (4 i p f w)
  then have "MONITORED_SERVICES (f w) = MONITORED_SERVICES w"
    by (auto dest!: page_index_cases simp: pages_nth page_records)
  then show ?case using 4 app.enter_inv[OF 4(1-3)] by (simp add: macro_inv_def)
next
  case (5 i p f w j)
  then show ?case using 5 app.enter_quiet[OF 5(1-3)] by (simp add: macro_inv_def)
next
  case (6 i p f w)
  then have "MONITORED_SERVICES (f w) = MONITORED_SERVICES w"
    by (auto dest!: page_index_cases simp: pages_nth page_records)
  then show ?case using 6 app.exit_inv[OF 6(1-3)] by (simp add: macro_inv_def)
next
  case (7 i p f w j)
  then show ?case using 7 app.exit_quiet[OF 7(1-3)] by (simp add: macro_inv_def)
next
  case (8 i p w)
  then show ?case using 8 app.silent[OF 8(1,2)] by (simp add: macro_inv_def)
next
  case (9 i p rf w gsw st m now x)
  then have "MONITORED_SERVICES (rf gsw st m now x w) = MONITORED_SERVICES w"
    by (auto dest!: page_index_cases simp: pages_nth page_records home_render_def gateway_render_def
        network_render_def on_u8g2_def)
  then show ?case using 9 app.render_inv[OF 9(1-3)] by (simp add: macro_inv_def)
next
  case (10 i p rf w j gsw st m now x)
  then show ?case using 10 app.render_quiet[OF 10(1-3)] by (simp add: macro_inv_def)
qed

interpretation macro_frame: drawing_frame pages_get_list "\<lambda>w :: app_world. MONITORED_SERVICES w = ms" for ms
proof (unfold_locales, goal_cases)
  case (1 w u)
  then show ?case by simp
next
  case (2 i p cf w)
  then show ?case
    by (auto dest!: page_index_cases simp: pages_nth page_records settings_get_item_count_def)
next
  case (3 i p rf w gsw st m now x)
  then show ?case
    by (auto dest!: page_index_cases simp: pages_nth page_records home_render_def gateway_render_def
        network_render_def on_u8g2_def)
qed

text \<open>Over the operations of the UI.\<close>

definition ui_macro :: "'h ui_controller \<Rightarrow> string" where
  "ui_macro ui = MONITORED_SERVICES (ui_world ui)"

lemma ui_macro_needs_render [simp]: "ui_macro (ui\<lparr>needs_render := b\<rparr>) = ui_macro ui"
  by (simp add: ui_macro_def)

lemma ctrl_inv_macro:
  "ctrl_inv pages_get_list pages_inv pages_quiet pc w \<Longrightarrow>
   ctrl_inv pages_get_list (macro_inv (MONITORED_SERVICES w)) pages_quiet pc w"
  by (simp add: ctrl_inv_def macro_inv_def)

lemma notes_macro [simp]:
  "MONITORED_SERVICES (fold ui_services_control_cb ns w) = MONITORED_SERVICES w"
  by (induction ns arbitrary: w)
    (simp_all add: ui_services_control_cb_def page_services_notify_control_result_def)

lemma run_notes_macro [simp]: "ui_macro (run_notes ui) = ui_macro ui"
  by (simp add: ui_macro_def run_notes_def)

lemma take_control_macro: "ui_macro (ui_take_control ops e now ui) = ui_macro ui"
  by (simp add: ui_macro_def ui_take_control_def page_services_take_control_request_def run_notes_def
      page_services_notify_control_result_def case_prod_beta Let_def split: option.split)

lemma handle_button_macro:
  assumes "ui_inv ui"
  shows "ui_macro (snd (ui_controller_handle_button ops e key lp now ui)) = ui_macro ui"
proof -
  let ?r = "page_controller_handle_key key lp now (page_ctrl ui) (ui_world ui)"
  let ?u = "ui\<lparr>page_ctrl := fst (snd ?r), ui_world := snd (snd ?r),
    power_on := page_controller_is_screen_on (fst (snd ?r))\<rparr>"
  have "ctrl_inv pages_get_list (macro_inv (ui_macro ui)) pages_quiet (page_ctrl ui) (ui_world ui)"
    using assms by (simp add: ui_inv_def ui_macro_def ctrl_inv_macro)
  then have "MONITORED_SERVICES (snd (snd ?r)) = ui_macro ui"
    using macro.handle_key_ctrl_inv[where pc = "page_ctrl ui" and w = "ui_world ui" and now = now
        and key = key and lp = lp and ms = "ui_macro ui"]
    by (simp add: ctrl_inv_def macro_inv_def)
  then have "ui_macro (ui_take_control ops e now ?u) = ui_macro ui"
    unfolding take_control_macro by (simp add: ui_macro_def)
  then show ?thesis by (simp add: ui_controller_handle_button_def case_prod_beta Let_def)
qed

lemma update_local_macro [simp]:
  "MONITORED_SERVICES (snd (snd (sys_status_update_local e ctx st w))) = MONITORED_SERVICES w"
  by (simp add: sys_status_update_local_def service_config_get_def case_prod_beta Let_def)

lemma tick_macro:
  assumes "ui_inv ui"
  shows "ui_macro (snd (ui_controller_tick ops e now ui)) = ui_macro ui"
proof -
  let ?r = "page_controller_tick now (page_ctrl ui) (ui_world ui)"
  have "ctrl_inv pages_get_list (macro_inv (ui_macro ui)) pages_quiet (page_ctrl ui) (ui_world ui)"
    using assms by (simp add: ui_inv_def ui_macro_def ctrl_inv_macro)
  then have "MONITORED_SERVICES (snd (snd ?r)) = ui_macro ui"
    using macro.tick_ctrl_inv[where pc = "page_ctrl ui" and w = "ui_world ui" and now = now
        and ms = "ui_macro ui"]
    by (simp add: ctrl_inv_def macro_inv_def)
  then show ?thesis
    by (simp add: ui_controller_tick_def ui_refresh_def run_notes_def ui_macro_def case_prod_beta
        Let_def split: option.split)
qed

lemma render_macro:
  assumes "ui_inv ui"
  shows "ui_macro (snd (ui_controller_render gsw now ui)) = ui_macro ui"
proof -
  have "pages (page_ctrl ui) = pages_get_list" "page_count (page_ctrl ui) = int (length pages_get_list)"
    using assms by (simp_all add: ui_inv_def ctrl_inv_def pc_wf_def)
  from macro_frame.frame_screen[OF this, of "ssd1306_clear_buffer (ui_world ui)"] show ?thesis
    by (simp add: ui_controller_render_def ui_macro_def Let_def split: option.split)
qed

section \<open>The link between status and interface\<close>

text \<open>The operations of the service module keep the names of the services.\<close>

definition same_names :: "sys_status \<Rightarrow> sys_status \<Rightarrow> bool" where
  "same_names st st' \<longleftrightarrow> map svc_name (services st') = map svc_name (services st) \<and>
     service_count st' = service_count st"

lemma same_names_length: "same_names st st' \<Longrightarrow> length (services st') = length (services st)"
  unfolding same_names_def by (metis length_map)

lemma callbacks_same_names: "same_names st (fst (status_callbacks now cs st))"
  by (simp add: same_names_def)

lemma upd_same_names:
  "(\<And>v. svc_name (f v) = svc_name v) \<Longrightarrow> same_names st (upd_service i f st)"
  by (simp add: same_names_def upd_service_names del: upd_service_sel(1))

lemma same_names_trans: "same_names a b \<Longrightarrow> same_names b c \<Longrightarrow> same_names a c"
  by (simp add: same_names_def)

lemma same_names_refl [simp]: "same_names st st"
  by (simp add: same_names_def)

lemma query_one_names: "same_names (ss_status (snd cs)) (ss_status (snd (query_one ops e mem now cb_now i cs)))"
proof -
  let ?v = "services (ss_status (snd cs)) ! i" and ?id = "g_next_request_id (snd cs)"
  let ?f = "\<lambda>v. v\<lparr>query_pending := True, request_id := ?id, request_time_ms := now\<rparr>"
  let ?g = "\<lambda>v :: service_status. v\<lparr>query_pending := False\<rparr>"
  let ?a = "upd_service i ?f (ss_status (snd cs))"
  let ?r = "query_service_async ops (e i) (svc_name ?v) (Query_Ctx ?id) (ss_hal (snd cs))"
  let ?b = "fst (status_callbacks cb_now (fst (snd ?r)) ?a)"
  have a: "same_names (ss_status (snd cs)) ?a" by (rule upd_same_names) simp
  have b: "same_names (ss_status (snd cs)) ?b" by (rule same_names_trans[OF a callbacks_same_names])
  have c: "same_names (ss_status (snd cs)) (upd_service i ?g ?b)"
    by (rule same_names_trans[OF b]) (rule upd_same_names, simp)
  show ?thesis using b c by (simp add: query_one_def case_prod_beta Let_def)
qed

lemma query_all_names:
  "same_names (ss_status s) (ss_status (snd (sys_status_query_services ops e mem now cb_now s)))"
proof -
  have "same_names (ss_status (snd cs)) (ss_status (snd (fold (query_one ops e mem now cb_now) is cs)))"
    for "is" cs
  proof (induction "is" arbitrary: cs)
    case (Cons i "is")
    then show ?case using same_names_trans[OF query_one_names Cons.IH] by simp
  qed simp
  from this[of "(0, s)"] show ?thesis by (simp add: sys_status_query_services_def)
qed

lemma control_names:
  "same_names (ss_status s) (ss_status (snd (sys_status_control_service ops e mem cb_now i b s)))"
  by (simp add: sys_status_control_service_def case_prod_beta Let_def callbacks_same_names)

lemma event_names: "same_names (ss_status s) (ss_status (service_event ev v now s))"
  by (simp add: service_event_def case_prod_beta Let_def callbacks_same_names)

text \<open>What a run keeps of the service module.\<close>

definition requests_ok :: "hal ui_controller \<Rightarrow> bool" where
  "requests_ok ui \<longleftrightarrow> real_client.client_ok (ui_svc ui) \<and>
     length (services (ss_status (ui_svc ui))) = MAX_SERVICES"

lemma client_ok_notes [simp]: "real_client.client_ok (s\<lparr>ss_notes := ns\<rparr>) = real_client.client_ok s"
  by (simp add: real_client.client_ok_def)

lemma requests_cong: "ui_svc ui' = ui_svc ui \<Longrightarrow> requests_ok ui' = requests_ok ui"
  by (simp add: requests_ok_def)

lemma run_notes_requests: "requests_ok (run_notes (ui\<lparr>ui_svc := s\<rparr>)) = requests_ok (ui\<lparr>ui_svc := s\<rparr>)"
  by (simp add: requests_ok_def run_notes_def)

lemma take_control_requests:
  assumes "requests_ok ui"
  shows "requests_ok (ui_take_control real_ops e now ui)"
proof -
  let ?s = "\<lambda>i b. snd (sys_status_control_service real_ops (ke_hal e) (ke_mem e) (ke_cb_now e) i b (ui_svc ui))"
  have "requests_ok (ui\<lparr>ui_svc := ?s i b\<rparr>)" for i b
    using assms real_client.control_client[of "ui_svc ui"]
      same_names_length[OF control_names[of "ui_svc ui"]]
    by (simp add: requests_ok_def)
  moreover have "ui_svc (ui_take_control real_ops e now ui) \<in>
      {ui_svc ui} \<union> {(?s i b)\<lparr>ss_notes := []\<rparr> |i b. True}"
    by (auto simp: ui_take_control_def run_notes_def case_prod_beta Let_def split: option.split)
  ultimately show ?thesis using assms by (auto simp: requests_ok_def)
qed

lemma handle_button_requests:
  assumes "requests_ok ui"
  shows "requests_ok (snd (ui_controller_handle_button real_ops e key lp now ui))"
proof -
  have "requests_ok (ui_take_control real_ops e now (ui\<lparr>page_ctrl := p, ui_world := w, power_on := b\<rparr>))" for p w b
    using assms requests_cong[of "ui\<lparr>page_ctrl := p, ui_world := w, power_on := b\<rparr>" ui]
    by (intro take_control_requests) simp
  moreover have "requests_ok (u\<lparr>needs_render := b\<rparr>) = requests_ok u" for u b
    by (simp add: requests_ok_def)
  ultimately show ?thesis by (simp add: ui_controller_handle_button_def case_prod_beta Let_def)
qed

text \<open>Filling the service list makes the names distinct and leaves no query pending.\<close>

lemma init_services_link:
  assumes "length (services st) = MAX_SERVICES" and "names_ok st" and "distinct cfg"
    and "list_all service_name_ok cfg" and "length cfg \<le> MAX_SERVICES"
  shows "names_ok (init_services cfg st)" and "linked (init_services cfg st) out"
    and "length (services (init_services cfg st)) = MAX_SERVICES"
proof -
  note n = init_services_names[OF assms(1,4,5)]
  have cnt: "service_count (init_services cfg st) = length cfg" by (simp add: init_services_def Let_def)
  have "length m < REQUEST_NAME_LEN" if "m \<in> set (map svc_name (services (init_services cfg st)))" for m
  proof -
    have "m \<in> bounded_copy SERVICE_NAME_MAX_LEN ` set cfg \<or> m \<in> set (map svc_name (services st))"
      using that by (auto simp: init_services_def Let_def dest: in_set_takeD in_set_dropD)
    then show ?thesis
      using assms(2) by (auto simp: names_ok_def list_all_iff bounded_copy_def)
  qed
  then show "names_ok (init_services cfg st)"
    using n assms(3,5) cnt by (simp add: names_ok_def list_all_iff)
  have "\<not> query_pending (services (init_services cfg st) ! i)" if "i < length cfg" for i
    using that assms(5) by (simp add: init_services_def Let_def nth_append zero_service_def)
  then show "linked (init_services cfg st) out" by (simp add: linked_def cnt)
  show "length (services (init_services cfg st)) = MAX_SERVICES" by (rule n(2))
qed

lemma update_local_link:
  fixes e :: local_env and ctx :: sys_status_ctx
  assumes "config_ok w" and "distinct (service_config_init (MONITORED_SERVICES w))"
    and "length (services st) = MAX_SERVICES" and "names_ok st" and "linked st out"
  defines "st' \<equiv> fst (snd (sys_status_update_local e ctx st w))"
  shows "names_ok st' \<and> linked st' out \<and> length (services st') = MAX_SERVICES"
proof -
  let ?cfg = "service_config_init (MONITORED_SERVICES w)"
  let ?st = "if service_count st = 0 \<and> fst (service_config_get w) \<noteq> []
      then init_services (fst (service_config_get w)) st else st"
  have cfg: "fst (service_config_get w) = ?cfg" by (rule service_config_get_ok(1)[OF assms(1)])
  have s: "services st' = services ?st" "service_count st' = service_count ?st"
    using update_local_services[where st = st and w = w and e = e and ctx = ctx] unfolding st'_def same_services_def by blast+
  have ok: "names_ok ?st \<and> linked ?st out \<and> length (services ?st) = MAX_SERVICES"
    unfolding cfg using init_services_link(1,3)[OF assms(3,4,2)]
      init_services_link(2)[OF assms(3,4,2), of out] service_config_init_ok assms(3-5)
    by simp
  have n: "names_ok st' = names_ok ?st" by (rule names_ok_cong) (simp_all only: s)
  have l: "linked st' out = linked ?st out" unfolding linked_def s ..
  show ?thesis unfolding n l s by (rule ok)
qed

lemma tick_requests:
  assumes r: "requests_ok ui" and inv: "ui_inv ui" and d: "distinct (service_config_init (ui_macro ui))"
  shows "requests_ok (snd (ui_controller_tick real_ops e now ui))"
proof -
  let ?r = "page_controller_tick now (page_ctrl ui) (ui_world ui)"
  define m where "m = ui\<lparr>page_ctrl := fst (snd ?r), ui_world := snd (snd ?r),
    power_on := (screen_state (fst (snd ?r)) = SCREEN_ON)\<rparr>"
  have svc: "ui_svc m = ui_svc ui" by (simp add: m_def)
  have "ctrl_inv pages_get_list (macro_inv (ui_macro ui)) pages_quiet (page_ctrl ui) (ui_world ui)"
    using inv by (simp add: ui_inv_def ui_macro_def ctrl_inv_macro)
  then have w: "macro_inv (ui_macro ui) (ui_world m)"
    using macro.tick_ctrl_inv[where pc = "page_ctrl ui" and w = "ui_world ui" and now = now
        and ms = "ui_macro ui"]
    by (simp add: ctrl_inv_def m_def)
  have ref: "requests_ok (ui_refresh real_ops e ctx m)" for ctx
  proof -
    let ?l = "sys_status_update_local (te_local e) ctx (ss_status (ui_svc m)) (ui_world m)"
    let ?s = "(ui_svc m)\<lparr>ss_status := fst (snd ?l)\<rparr>"
    let ?q = "snd (sys_status_query_services real_ops (te_hal e) (te_mem e) (te_now e) (te_cb_now e) ?s)"
    have "config_ok (ui_world m)" "MONITORED_SERVICES (ui_world m) = ui_macro ui"
      using w by (simp_all add: macro_inv_def pages_inv_def services_ok_def)
    then have "names_ok (fst (snd ?l)) \<and> linked (fst (snd ?l)) (real_outstanding (ss_hal (ui_svc m))) \<and>
        length (services (fst (snd ?l))) = MAX_SERVICES"
      using r d by (intro update_local_link) (simp_all add: requests_ok_def svc real_client.client_ok_def)
    then have s: "real_client.client_ok ?s" "length (services (ss_status ?s)) = MAX_SERVICES"
      using r by (simp_all add: requests_ok_def svc real_client.client_ok_def)
    have q: "real_client.client_ok ?q" by (rule real_client.query_all_client[OF s(1)])
    have "length (services (ss_status ?q)) = length (services (ss_status ?s))"
      by (rule same_names_length[OF query_all_names])
    then show ?thesis
      using s q by (simp add: ui_refresh_def case_prod_beta Let_def run_notes_def requests_ok_def)
  qed
  have nr: "requests_ok (u\<lparr>needs_render := b\<rparr>) = requests_ok u" for u b
    by (simp add: requests_ok_def)
  have "snd (ui_controller_tick real_ops e now ui) \<in>
      {m, m\<lparr>needs_render := True\<rparr>} \<union> (\<lambda>ctx. (ui_refresh real_ops e ctx m)\<lparr>needs_render := True\<rparr>) ` UNIV"
    by (auto simp: ui_controller_tick_def m_def case_prod_beta Let_def page_controller_is_screen_on_def
        split: option.split)
  then show ?thesis using ref nr r requests_cong[OF svc] by auto
qed

lemma render_requests: "requests_ok (snd (ui_controller_render gsw now ui)) = requests_ok ui"
  by (rule requests_cong) (simp add: ui_controller_render_def Let_def split: option.split)

section \<open>Requests over a run\<close>

text \<open>The state of the loop: the UI is consistent, requests are linked, the configuration is fixed.\<close>

definition linked_main :: "string \<Rightarrow> main_state \<Rightarrow> bool" where
  "linked_main ms m \<longleftrightarrow> ui_inv (m_ui m) \<and> requests_ok (m_ui m) \<and> ui_macro (m_ui m) = ms"

lemma linked_gpio [simp]: "linked_main ms (m\<lparr>m_gpio := g\<rparr>) = linked_main ms m"
  by (simp add: linked_main_def)

lemma linked_timer [simp]: "linked_main ms (m\<lparr>m_timer := t\<rparr>) = linked_main ms m"
  by (simp add: linked_main_def)

lemma linked_running [simp]: "linked_main ms (m\<lparr>m_running := b\<rparr>) = linked_main ms m"
  by (simp add: linked_main_def)

lemma linked_schedule [simp]: "linked_main ms (schedule_ui_timer m) = linked_main ms m"
  by (simp add: schedule_ui_timer_def Let_def)

lemma linked_render:
  "linked_main ms m \<Longrightarrow> linked_main ms (on_ui (ui_controller_render gsw now) m)"
  by (simp add: linked_main_def on_ui_def ui_render_inv render_requests render_macro)

lemma linked_tick:
  "linked_main ms m \<Longrightarrow> distinct (service_config_init ms) \<Longrightarrow>
   linked_main ms (on_ui (ui_controller_tick real_ops e now) m)"
  by (simp add: linked_main_def on_ui_def ui_tick_inv tick_requests tick_macro)

lemma linked_key:
  "linked_main ms m \<Longrightarrow> linked_main ms (on_ui (ui_controller_handle_button real_ops e key lp now) m)"
  by (simp add: linked_main_def on_ui_def handle_button_inv handle_button_requests handle_button_macro)

lemma linked_event: "linked_main ms m \<Longrightarrow> linked_main ms (handle_button_event gsw e ev m)"
  by (simp add: handle_button_event_def case_prod_beta Let_def linked_key linked_render)

lemma linked_gpio_cb:
  "linked_main ms m \<Longrightarrow> gpio_fd_cb gsw es m = Some m' \<Longrightarrow> linked_main ms m'"
proof (induction es arbitrary: m)
  case (Cons e es)
  obtain ge ke where e: "e = (ge, ke)" by force
  let ?m = "m\<lparr>m_gpio := snd (libgpiod_read_event ge (m_gpio m))\<rparr>"
  have "linked_main ms (handle_read gsw ke event ?m)" for event
    using Cons.prems(1) by (simp add: handle_read_def linked_event split: option.split)
  then show ?case
    using Cons.prems Cons.IH unfolding e gpio_fd_cb_step by (auto split: if_splits)
qed simp

lemma linked_ubus: "linked_main ms m \<Longrightarrow> linked_main ms (ubus_event v now m)"
  using real_client.event_client[of "ui_svc (m_ui m)" v now]
    same_names_length[OF event_names[of "ui_svc (m_ui m)" real_dispatch v now]]
  by (simp add: linked_main_def ubus_event_def on_ui_def run_notes_inv run_notes_requests)
    (simp add: requests_ok_def ui_macro_def run_notes_def)

lemma linked_step:
  assumes "main_step gsw m m'" and "linked_main ms m" and "distinct (service_config_init ms)"
  shows "linked_main ms m'"
  using assms(1)
proof (cases rule: main_step.cases)
  case (step_gpio es)
  then show ?thesis using linked_gpio_cb assms(2) by blast
next
  case (step_timer d e now)
  then show ?thesis using assms(2,3) by (simp add: ui_timer_cb_def linked_tick linked_render)
next
  case (step_ubus v now)
  then show ?thesis using linked_ubus assms(2) by simp
next
  case step_signal
  then show ?thesis using assms(2) by (simp add: handle_signal_def)
qed

text \<open>The state that \<open>main\<close> starts from, as far as the services go.\<close>

definition fresh_main :: "string \<Rightarrow> main_state \<Rightarrow> bool" where
  "fresh_main ms m0 \<longleftrightarrow> config_ok (ui_world (m_ui m0)) \<and> ui_macro (m_ui m0) = ms \<and>
     \<not> ubus_initialized (ss_hal (ui_svc (m_ui m0))) \<and> \<not> g_ctx (ss_hal (ui_svc (m_ui m0)))"

lemma main_statics_fresh: "fresh_main ms (main_statics ms)"
  by (simp add: fresh_main_def main_statics_def ui_macro_def program_start_def ubus_real_start_def
      config_ok_def)

text \<open>Initialisation leaves the requests alone and no service pending.\<close>

lemma zero_status_link: "names_ok zero_status \<and> linked zero_status out \<and>
    length (services zero_status) = MAX_SERVICES"
  by (simp add: names_ok_def linked_def zero_status_def zero_service_def list_all_iff)

lemma boot_config:
  fixes w :: app_world
  assumes "config_ok w"
  shows "config_ok (snd (boot_controller w)) \<and>
    MONITORED_SERVICES (snd (boot_controller w)) = MONITORED_SERVICES w"
  using macro.init_ctrl_inv[where w = w and ms = "MONITORED_SERVICES w"] assms
  by (simp add: boot_controller_def ctrl_inv_def macro_inv_def macro_boot_def pages_inv_def
      services_ok_def)

lemma init_link:
  fixes ui :: "hal ui_controller" and ctx :: "sys_status_ctx option" and e :: local_env
  assumes w: "config_ok (ui_world ui)" and d: "distinct (service_config_init (ui_macro ui))"
  defines "u \<equiv> ui_controller_init ctx e ui"
  shows "ss_hal (ui_svc u) = ss_hal (ui_svc ui)" and "ui_macro u = ui_macro ui"
    and "names_ok (ss_status (ui_svc u)) \<and> linked (ss_status (ui_svc u)) out \<and>
      length (services (ss_status (ui_svc u))) = MAX_SERVICES"
proof -
  let ?w = "snd (boot_controller (ui_world ui))"
  have init: "page_controller_init pages_get_list 5 (ui_world ui) = boot_controller (ui_world ui)"
    by (simp add: boot_controller_def)
  note u = u_def ui_controller_init_def init case_prod_beta Let_def ui_macro_def
  show "ss_hal (ui_svc u) = ss_hal (ui_svc ui)" by (simp add: u split: option.split)
  show "ui_macro u = ui_macro ui" using boot_config[OF w] by (simp add: u split: option.split)
  show "names_ok (ss_status (ui_svc u)) \<and> linked (ss_status (ui_svc u)) out \<and>
      length (services (ss_status (ui_svc u))) = MAX_SERVICES"
  proof (cases ctx)
    case None
    then show ?thesis using zero_status_link[of out] by (simp add: u)
  next
    case (Some c)
    then have "ss_status (ui_svc u) = fst (snd (sys_status_update_local e c zero_status ?w))"
      by (simp add: u)
    moreover have "config_ok ?w" "distinct (service_config_init (MONITORED_SERVICES ?w))"
      using boot_config[OF w] d by (simp_all add: ui_macro_def)
    ultimately show ?thesis
      using update_local_link[of ?w zero_status out] zero_status_link[of out] by simp
  qed
qed

lemma start_linked:
  assumes start: "main_start gsw e m0 = Inr m" and fresh: "fresh_main ms m0"
    and d: "distinct (service_config_init ms)"
  shows "linked_main ms m"
proof -
  define ui where "ui = (m_ui m0)\<lparr>ui_world :=
    snd (ssd1306_init (ma_access_ok e) (ma_display_io e) (ui_world (m_ui m0)))\<rparr>"
  define u where "u = ui_controller_init (ma_ctx e) (ma_local e) ui"
  let ?h = "snd (real_init (ma_ubus e) (ss_hal (ui_svc u)))"
  define v where "v = m0\<lparr>m_gpio := snd (libgpiod_init (ma_gpio e) (m_gpio m0)),
    m_ui := u\<lparr>ui_svc := (ui_svc u)\<lparr>ss_hal := ?h\<rparr>\<rparr>\<rparr>"
  have m: "m = (schedule_ui_timer (on_ui (ui_controller_render gsw (ma_now_ms e))
      (on_ui (ui_controller_tick real_ops (ma_tick e) (ma_now_ms e)) v)))\<lparr>m_running := True\<rparr>"
    using start
    by (simp add: main_start_def v_def u_def ui_def case_prod_beta Let_def split: if_splits)
  have w: "config_ok (ui_world ui)" "ui_macro ui = ms"
    using fresh by (simp_all add: ui_def fresh_main_def ssd1306_init_config)
      (simp add: ui_macro_def ssd1306_init_def on_u8g2_def Let_def)
  have "\<not> ubus_initialized (ss_hal (ui_svc u)) \<and> \<not> g_ctx (ss_hal (ui_svc u))"
    using fresh init_link(1)[OF w(1)] w(2) d by (simp add: u_def ui_def fresh_main_def)
  then have h: "real_inv ?h" using real_init_law by blast
  have "names_ok (ss_status (ui_svc u)) \<and> linked (ss_status (ui_svc u)) (real_outstanding ?h) \<and>
      length (services (ss_status (ui_svc u))) = MAX_SERVICES"
    unfolding u_def by (rule init_link(3)[OF w(1)]) (use w d in simp)
  then have "requests_ok (m_ui v)" using h by (simp add: requests_ok_def real_client.client_ok_def v_def)
  moreover have "ui_inv (m_ui v)"
    using ui_init_inv[OF w(1), of "ma_ctx e" "ma_local e"] by (simp add: v_def u_def ui_inv_def)
  moreover have "ui_macro (m_ui v) = ms"
    using init_link(2)[OF w(1), of "ma_ctx e" "ma_local e"] w d by (simp add: v_def u_def ui_macro_def)
  ultimately have "linked_main ms v" by (simp add: linked_main_def)
  then show ?thesis using d unfolding m by (simp add: linked_tick linked_render)
qed

lemma linked_reachable:
  assumes "main_reachable gsw m0 m" and "fresh_main ms m0" and "distinct (service_config_init ms)"
  shows "linked_main ms m"
  using assms(1)
proof induction
  case (reach_start e m)
  then show ?case using start_linked assms(2,3) by blast
next
  case (reach_step m m')
  then show ?case using linked_step assms(3) by blast
qed

text \<open>The request timers of the ubus module, one after the other, with the callbacks they lead to.\<close>

definition request_timers :: "u64 \<Rightarrow> main_state \<Rightarrow> main_state" where
  "request_timers now m = fold (\<lambda>i. ubus_event (Ev_Timer i) now) [0..<MAX_PENDING_REQUESTS] m"

lemma ubus_events_status:
  "ss_status (ui_svc (m_ui (fold (\<lambda>v. ubus_event v now) vs m))) =
   ss_status (fold (\<lambda>v. service_event real_dispatch v now) vs (ui_svc (m_ui m)))"
proof -
  have "ss_status (ui_svc (m_ui (fold (\<lambda>v. ubus_event v now) vs m))) =
        ss_status (fold (\<lambda>v. service_event real_dispatch v now) vs s)"
    if "ss_status s = ss_status (ui_svc (m_ui m))" "ss_hal s = ss_hal (ui_svc (m_ui m))" for s
    using that
  proof (induction vs arbitrary: m s)
    case (Cons v vs)
    have "ss_status (service_event real_dispatch v now s) = ss_status (ui_svc (m_ui (ubus_event v now m)))"
      "ss_hal (service_event real_dispatch v now s) = ss_hal (ui_svc (m_ui (ubus_event v now m)))"
      using Cons.prems
      by (simp_all add: ubus_event_def on_ui_def run_notes_def service_event_def case_prod_beta Let_def)
    then show ?case
      using Cons.IH[of "service_event real_dispatch v now s" "ubus_event v now m"]
        Cons.IH[of "ui_svc (m_ui (ubus_event v now m))" "ubus_event v now m"] by simp
  qed simp
  then show ?thesis by simp
qed

lemma timers_complete:
  assumes "linked_main ms m"
  shows "\<not> sys_status_has_pending_queries (ss_status (ui_svc (m_ui (request_timers now m))))"
proof -
  have "real_client.client_ok (ui_svc (m_ui m))" using assms by (simp add: linked_main_def requests_ok_def)
  from real_client.queries_complete[OF this, of "[]" now] have
    "\<not> sys_status_has_pending_queries (ss_status (fold (\<lambda>v. service_event real_dispatch v now)
        (map Ev_Timer [0..<MAX_PENDING_REQUESTS]) (ui_svc (m_ui m))))"
    unfolding append_Nil real_client.fold_events by simp
  moreover have "request_timers now m = fold (\<lambda>v. ubus_event v now) (map Ev_Timer [0..<MAX_PENDING_REQUESTS]) m"
    unfolding request_timers_def by (simp only: fold_map o_def)
  ultimately show ?thesis by (simp only: ubus_events_status not_False_eq_True)
qed

end
