(* ===== verification/Main_Start.thy ===== *)
theory Main_Start
  imports Main_Requests
begin

text \<open>
  When \<open>main\<close> reaches its loop, and what it leaves behind when it returns from it.
\<close>

definition start_succeeds :: "main_env \<Rightarrow> main_state \<Rightarrow> bool" where
  "start_succeeds e m \<longleftrightarrow>
     fst (ssd1306_init (ma_access_ok e) (ma_display_io e) (ui_world (m_ui m))) = 0 \<and>
     fst (libgpiod_init (ma_gpio e) (m_gpio m)) = 0 \<and> ma_uloop e"

lemma main_start_result:
  "start_succeeds e m \<Longrightarrow> \<exists>m'. main_start gsw e m = Inr m'"
  "\<not> start_succeeds e m \<Longrightarrow> main_start gsw e m = Inl 1"
  by (auto simp: main_start_def start_succeeds_def case_prod_beta Let_def)

text \<open>The display and the lines are there, at rest the lines are high, and ubus cannot be reached.\<close>

definition plain_start :: main_env where
  "plain_start =
     \<lparr>ma_access_ok = True, ma_display_io = (\<lambda>s. s\<lparr>g_i2c_fd := 3\<rparr>),
      ma_gpio = \<lparr>chip_ok = True, debounce_request_ok = True, debounce_unsupported = False,
        plain_request_ok = False, event_buf_ok = True, request_fd = 4, timer_create = 5,
        line_values = [1, 1, 1]\<rparr>,
      ma_ctx = Some (sys_status_init False False False False),
      ma_local = \<lparr>file_stat = [], file_temp = [], file_meminfo = [], file_net_dev = [],
        file_route = None, host_name = None, sys_uptime = None, if_addrs = None, net_now_ms = 0,
        net_now_sec = 0\<rparr>,
      ma_uloop = True,
      ma_ubus = \<lparr>time_check = 0, time_attempt = 0, connect_ok = False, lookup_ret = 0,
        lookup_id = 0, invoke_ret = 0\<rparr>,
      ma_tick = \<lparr>te_local = \<lparr>file_stat = [], file_temp = [], file_meminfo = [], file_net_dev = [],
          file_route = None, host_name = None, sys_uptime = None, if_addrs = None, net_now_ms = 0,
          net_now_sec = 0\<rparr>,
        te_hal = (\<lambda>_. \<lparr>time_check = 0, time_attempt = 0, connect_ok = False, lookup_ret = 0,
          lookup_id = 0, invoke_ret = 0\<rparr>),
        te_mem = (\<lambda>_. True), te_now = 0, te_cb_now = 0\<rparr>,
      ma_now_ms = 1000\<rparr>"

lemma plain_start_succeeds: "start_succeeds plain_start (main_statics ms)"
  by (simp add: start_succeeds_def plain_start_def main_statics_def ssd1306_init_def Let_def
      program_start_def libgpiod_init_def reset_buttons_def detect_pressed_level_def)

lemma statics_reachable: "\<exists>m. main_reachable gsw (main_statics ms) m"
  using main_start_result(1)[OF plain_start_succeeds] reach_start by blast

lemma statics_config: "config_ok (ui_world (m_ui (main_statics ms)))"
  using main_statics_fresh[of ms] by (simp add: fresh_main_def)

text \<open>A run from the statics keeps both invariants.\<close>

lemma run_inv: "main_reachable gsw (main_statics ms) m \<Longrightarrow> main_inv m"
  using reachable_inv statics_config by blast

lemma run_ui_inv: "main_reachable gsw (main_statics ms) m \<Longrightarrow> ui_inv (m_ui m)"
  using run_inv by (simp add: main_inv_def)

end
