(* ===== verification/Sample_Runs.thy ===== *)
theory Sample_Runs
  imports Main_Start Ubus_Mock
begin

text \<open>
  Short runs of the UI over the mock of ubus: concrete states that satisfy the hypotheses of
  the properties.
\<close>

definition quiet_env :: local_env where
  "quiet_env = \<lparr>file_stat = [], file_temp = [], file_meminfo = [], file_net_dev = [],
     file_route = None, host_name = None, sys_uptime = None, if_addrs = None, net_now_ms = 0,
     net_now_sec = 0\<rparr>"

type_synonym mock_ui = "svc_token ubus_mock ui_controller"

definition press_at :: "u8 \<Rightarrow> bool \<Rightarrow> u64 \<Rightarrow> mock_ui \<Rightarrow> mock_ui" where
  "press_at key long_press t ui =
     snd (ui_controller_handle_button mock_ops \<lparr>ke_hal = (), ke_mem = True, ke_cb_now = t\<rparr>
       key long_press t ui)"

definition tick_at :: "u64 \<Rightarrow> mock_ui \<Rightarrow> mock_ui" where
  "tick_at t ui =
     snd (ui_controller_tick mock_ops \<lparr>te_local = quiet_env, te_hal = (\<lambda>_. ()), te_mem = (\<lambda>_. True),
       te_now = t, te_cb_now = t\<rparr> t ui)"

definition start_ui :: mock_ui where
  "start_ui = ui_controller_init (Some (sys_status_init False False False False)) quiet_env
     \<lparr>page_ctrl = fst (boot_controller (program_start ''dropbear,uhttpd'')),
        ui_svc = \<lparr>ss_status = zero_status, g_next_request_id = 1,
          ss_hal = snd (mock_init ubus_mock_start), ss_notes = []\<rparr>,
        status_ctx = None, needs_render = False, power_on = False,
        ui_world = program_start ''dropbear,uhttpd''\<rparr>"

text \<open>Two pages on, the services page is entered, and its dialog opened with "yes" selected.\<close>

definition dialog_ui :: mock_ui where
  "dialog_ui = press_at KEY_K3 False 4100 (press_at KEY_K2 False 4000 (press_at KEY_K2 True 3000
     (tick_at 2300 (press_at KEY_K3 False 2000 (tick_at 1300 (press_at KEY_K3 False 1000 start_ui))))))"

lemma start_ui_inv: "ui_inv start_ui"
  unfolding start_ui_def by (rule ui_init_inv) (simp add: program_start_boot)

lemma dialog_ui_inv: "ui_inv dialog_ui"
  unfolding dialog_ui_def press_at_def tick_at_def
  by (intro handle_button_inv ui_tick_inv start_ui_inv)

lemma dialog_ui_confirming:
  "confirming KEY_K2 False (page_ctrl dialog_ui) (ui_world dialog_ui)"
  "config_count (ui_world dialog_ui) \<noteq> 0" "key_ready 4200 (page_ctrl dialog_ui)"
  by code_simp+

end
