(* ===== verification/Sys_Duplicates.thy ===== *)
theory Sys_Duplicates
  imports Sys_Services
begin

text \<open>
  A service that is configured twice (\<open>src/sys_status.c\<close>). Replies are matched by name, and
  the first entry with the name is found, so the replies to the queries of a later entry
  with the same name are dropped: its query stays pending, and it is never queried again.
\<close>

definition stuck :: "nat \<Rightarrow> sys_status \<Rightarrow> bool" where
  "stuck j st \<longleftrightarrow> j < service_count st \<and> service_count st \<le> length (services st) \<and>
     (\<exists>i < j. svc_name (services st ! i) = svc_name (services st ! j)) \<and>
     query_pending (services st ! j)"

text \<open>An update of another entry that keeps its name, or of the entry that keeps it pending.\<close>

lemma stuck_upd:
  assumes "stuck j st" and "\<And>v. svc_name (f v) = svc_name v"
    and "k \<noteq> j \<or> (\<forall>v. query_pending (f v) = query_pending v)"
  shows "stuck j (upd_service k f st)"
proof -
  have "map svc_name (services (upd_service k f st)) = map svc_name (services st)"
    by (rule upd_service_names) (rule assms(2))
  then have n: "svc_name (services (upd_service k f st) ! i) = svc_name (services st ! i)"
    if "i < length (services st)" for i
    using that by (metis length_map nth_map)
  from assms(1) obtain i where i: "i < j" "svc_name (services st ! i) = svc_name (services st ! j)"
    "j < length (services st)" by (auto simp: stuck_def)
  then have "svc_name (services (upd_service k f st) ! i) = svc_name (services (upd_service k f st) ! j)"
    using n[of i] n[of j] by simp
  moreover have "query_pending (services (upd_service k f st) ! j)"
    using assms(1,3) i(3) by (cases "k = j") (auto simp: stuck_def)
  ultimately show ?thesis using assms(1) i(1) by (auto simp: stuck_def simp del: upd_service_sel(1))
      (simp add: upd_service_def)
qed

lemma stuck_found_earlier:
  assumes "stuck j st"
  shows "first_index (\<lambda>s. svc_name s = n) (take (service_count st) (services st)) \<noteq> Some j"
proof
  assume "first_index (\<lambda>s. svc_name s = n) (take (service_count st) (services st)) = Some j"
  from first_index_Some[OF this] show False using assms by (auto simp: stuck_def)
qed

lemma stuck_callback:
  assumes "stuck j st"
  shows "stuck j (fst (status_callback now c st))"
proof (cases "(now, c, st)" rule: status_callback.cases)
  case (1 t n inst run code req st')
  show ?thesis
  proof (cases "first_index (\<lambda>s. svc_name s = n) (take (service_count st) (services st))")
    case None
    then show ?thesis using 1 assms by (simp add: service_query_cb_def)
  next
    case (Some k)
    then have "k \<noteq> j" using stuck_found_earlier[OF assms, of n] by auto
    then show ?thesis
      using assms Some 1
      by (auto simp: service_query_cb_def Let_def simp del: upd_service_sel intro!: stuck_upd)
  qed
next
  case (2 t n success code idx start st')
  then show ?thesis
    using assms by (auto simp: service_control_cb_def Let_def simp del: upd_service_sel
        intro!: stuck_upd split: if_splits)
qed (use assms in simp_all)

lemma stuck_callbacks: "stuck j st \<Longrightarrow> stuck j (fst (status_callbacks now cs st))"
  by (induction cs arbitrary: st) (simp_all add: case_prod_beta Let_def stuck_callback)

text \<open>Whatever the interface does, the operations keep the entry pending.\<close>

lemma stuck_query_one:
  assumes "stuck j (ss_status (snd cs))"
  shows "stuck j (ss_status (snd (query_one ops e mem now cb_now k cs)))"
proof -
  obtain sent s where cs: "cs = (sent, s)" by force
  show ?thesis
  proof (cases "query_due now (services (ss_status s) ! k) \<and> mem k")
    case False
    then show ?thesis using assms by (auto simp: query_one_def cs Let_def)
  next
    case True
    let ?f = "\<lambda>v. v\<lparr>query_pending := True, request_id := g_next_request_id s, request_time_ms := now\<rparr>"
    let ?r = "query_service_async ops (e k) (svc_name (services (ss_status s) ! k))
      (Query_Ctx (g_next_request_id s)) (ss_hal s)"
    have k: "k \<noteq> j" using True assms by (auto simp: cs stuck_def query_due_def)
    have "stuck j (upd_service k ?f (ss_status s))" using assms k by (intro stuck_upd) (simp_all add: cs)
    then have c: "stuck j (fst (status_callbacks cb_now (fst (snd ?r)) (upd_service k ?f (ss_status s))))"
      by (rule stuck_callbacks)
    then have "stuck j (upd_service k (\<lambda>v. v\<lparr>query_pending := False\<rparr>)
        (fst (status_callbacks cb_now (fst (snd ?r)) (upd_service k ?f (ss_status s)))))"
      using k by (intro stuck_upd) simp_all
    then show ?thesis
      using c True by (simp add: query_one_def cs case_prod_beta Let_def del: upd_service_sel)
  qed
qed

lemma stuck_query_all:
  assumes "stuck j (ss_status s)"
  shows "stuck j (ss_status (snd (sys_status_query_services ops e mem now cb_now s)))"
proof -
  have "stuck j (ss_status (snd cs)) \<Longrightarrow> stuck j (ss_status (snd (fold (query_one ops e mem now cb_now) ks cs)))"
    for ks cs by (induction ks arbitrary: cs) (simp_all add: stuck_query_one)
  from this[of "(0, s)"] show ?thesis using assms by (simp add: sys_status_query_services_def)
qed

lemma stuck_act: "stuck j (ss_status s) \<Longrightarrow> stuck j (ss_status (service_act ops event a s))"
  by (cases a)
    (simp_all add: stuck_query_all sys_status_control_service_def service_event_def stuck_callbacks
      case_prod_beta Let_def)

lemma stuck_run: "stuck j (ss_status s) \<Longrightarrow> stuck j (ss_status (service_run ops event as s))"
  unfolding service_run_def by (induction as arbitrary: s) (simp_all add: stuck_act)

end
