(* ===== verification/Gpio_Press.thy ===== *)
theory Gpio_Press
  imports Gpio_Libgpiod
begin

text \<open>
  Whole presses of one button over the libgpiod driver: the calls of
  \<open>read_event\<close> from the press to the release, and the events that they return.
\<close>

lemma reads_append:
  "gpiod.reads (es @ fs) s =
    (let (xs, s) = gpiod.reads es s; (ys, s) = gpiod.reads fs s in (xs @ ys, s))"
  by (induction es arbitrary: s) (simp_all add: case_prod_beta Let_def split: option.split)

text \<open>A call during a press that finds no edge, at a time when nothing is due.\<close>

definition waiting :: "u64 \<Rightarrow> bool \<Rightarrow> gpiod_env \<Rightarrow> bool" where
  "waiting tp long e \<longleftrightarrow> env_read e = Read_Error True \<and> (long \<or> env_now_ms e - tp < GPIO_LONG_PRESS_MS)"

lemma reads_waiting:
  assumes "i < GPIO_NUM_BUTTONS" and "list_all (waiting tp long) es"
    and "gpiod_calm L s" and "held i tp long s"
  shows "fst (gpiod.reads es s) = [] \<and> gpiod_calm L (snd (gpiod.reads es s)) \<and>
    held i tp long (snd (gpiod.reads es s))"
  using assms(2-4)
proof (induction es arbitrary: s)
  case (Cons e es)
  obtain s' where "libgpiod_read_event e s = ((0, None), s')" "gpiod_calm L s'" "held i tp long s'"
    using read_wait[OF Cons.prems(2) assms(1) Cons.prems(3), of e] Cons.prems(1)
    by (auto simp: waiting_def)
  then show ?case using Cons.IH[of s'] Cons.prems(1) by (simp add: case_prod_beta Let_def)
qed simp

text \<open>The calls of a press, and of one that turned long in between.\<close>

definition press_call :: "int \<Rightarrow> nat \<Rightarrow> gpiod_edge \<Rightarrow> gpiod_env \<Rightarrow> bool" where
  "press_call L i d e \<longleftrightarrow> env_read e = Read_Edges [d] \<and> edge_of i L d"

definition release_call :: "int \<Rightarrow> nat \<Rightarrow> gpiod_edge \<Rightarrow> u64 \<Rightarrow> bool \<Rightarrow> gpiod_env \<Rightarrow> bool" where
  "release_call L i d tp long e \<longleftrightarrow> env_read e = Read_Edges [d] \<and> edge_offset d = g_btn_offsets ! i \<and>
     edge_level d \<noteq> L \<and> (long \<or> env_now_ms e - tp < GPIO_LONG_PRESS_MS)"

lemma press_then_wait:
  assumes "gpiod_calm L s" and "idle s" and "i < GPIO_NUM_BUTTONS" and "press_call L i d e"
    and "list_all (waiting (edge_timestamp_ns d div 1000000) False) ws"
  shows "fst (gpiod.reads (e # ws) s) = [] \<and> gpiod_calm L (snd (gpiod.reads (e # ws) s)) \<and>
    held i (edge_timestamp_ns d div 1000000) False (snd (gpiod.reads (e # ws) s))"
proof -
  obtain s' where "libgpiod_read_event e s = ((0, None), s')" "gpiod_calm L s'"
    "held i (edge_timestamp_ns d div 1000000) False s'"
    using read_press[OF assms(1-3), of e d] assms(4) by (auto simp: press_call_def)
  then show ?thesis
    using reads_waiting[OF assms(3,5), of L s'] by (simp add: case_prod_beta Let_def)
qed

lemma release_ends:
  assumes "gpiod_calm L s" and "i < GPIO_NUM_BUTTONS" and "held i tp long s"
    and "release_call L i d tp long e"
  shows "fst (gpiod.reads [e] s) = (if long then [] else [button_event i False (edge_timestamp_ns d)]) \<and>
    gpiod_calm L (snd (gpiod.reads [e] s)) \<and> idle (snd (gpiod.reads [e] s))"
  using read_release[OF assms(1-3), of e d "edge_level d"] assms(4)
  by (auto simp: release_call_def edge_of_def)

lemma short_press:
  assumes "gpiod_calm L s" and "idle s" and "i < GPIO_NUM_BUTTONS" and "press_call L i d e"
    and "list_all (waiting (edge_timestamp_ns d div 1000000) False) ws"
    and "release_call L i d' (edge_timestamp_ns d div 1000000) False e'"
  shows "fst (gpiod.reads (e # ws @ [e']) s) = [button_event i False (edge_timestamp_ns d')] \<and>
    gpiod_calm L (snd (gpiod.reads (e # ws @ [e']) s)) \<and> idle (snd (gpiod.reads (e # ws @ [e']) s))"
  using press_then_wait[OF assms(1-5)] release_ends[OF _ assms(3) _ assms(6)]
    reads_append[of "e # ws" "[e']" s]
  by (simp only: append_Cons) (simp add: case_prod_beta Let_def del: gpiod.reads.simps)

lemma long_call:
  assumes "gpiod_calm L s" and "i < GPIO_NUM_BUTTONS" and "held i tp False s"
    and "env_now_ms e - tp \<ge> GPIO_LONG_PRESS_MS"
  shows "fst (gpiod.reads [e] s) = [button_event i True (env_now_ns e)] \<and>
    gpiod_calm L (snd (gpiod.reads [e] s)) \<and> held i tp True (snd (gpiod.reads [e] s))"
  using read_long[OF assms] by auto

lemma long_press:
  assumes "gpiod_calm L s" and "idle s" and "i < GPIO_NUM_BUTTONS" and "press_call L i d e"
    and "list_all (waiting (edge_timestamp_ns d div 1000000) False) ws"
    and "env_now_ms f - edge_timestamp_ns d div 1000000 \<ge> GPIO_LONG_PRESS_MS"
    and "list_all (waiting (edge_timestamp_ns d div 1000000) True) vs"
    and "release_call L i d' (edge_timestamp_ns d div 1000000) True e'"
  shows "fst (gpiod.reads ((e # ws) @ [f] @ vs @ [e']) s) = [button_event i True (env_now_ns f)] \<and>
    gpiod_calm L (snd (gpiod.reads ((e # ws) @ [f] @ vs @ [e']) s)) \<and>
    idle (snd (gpiod.reads ((e # ws) @ [f] @ vs @ [e']) s))"
proof -
  let ?a = "snd (gpiod.reads (e # ws) s)"
  let ?b = "snd (gpiod.reads [f] ?a)"
  let ?c = "snd (gpiod.reads vs ?b)"
  note a = press_then_wait[OF assms(1-5)]
  then have b: "fst (gpiod.reads [f] ?a) = [button_event i True (env_now_ns f)]" "gpiod_calm L ?b"
    "held i (edge_timestamp_ns d div 1000000) True ?b"
    using long_call[OF _ assms(3) _ assms(6), of L ?a] by blast+
  have c: "fst (gpiod.reads vs ?b) = []" "gpiod_calm L ?c"
    "held i (edge_timestamp_ns d div 1000000) True ?c"
    using reads_waiting[OF assms(3,7) b(2,3)] by blast+
  have "fst (gpiod.reads [e'] ?c) = []" "gpiod_calm L (snd (gpiod.reads [e'] ?c))"
    "idle (snd (gpiod.reads [e'] ?c))"
    using release_ends[OF c(2) assms(3) c(3) assms(8)] by simp_all
  then show ?thesis
    using a b(1) c(1)
    by (simp only: reads_append) (simp add: case_prod_beta Let_def del: gpiod.reads.simps)
qed

end
