(* ===== verification/Gpio_Mock.thy ===== *)
theory Gpio_Mock
  imports Gpio_Buttons
begin

text \<open>
  The GPIO driver for tests (\<open>src/hal/gpio_hal_mock.c\<close>, with eventfd and timerfd as on Linux):
  edges are injected into a queue of 64 and processed by \<open>read_event\<close>. The tracking of
  buttons is that of \<open>Gpio_Buttons\<close>; processing an edge also notes the level of its line.
\<close>

abbreviation (input) MAX_EDGE_EVENTS :: nat where "MAX_EDGE_EVENTS \<equiv> 64"

record mock_edge =
  me_line :: int
  me_falling :: bool
  me_timestamp_ns :: u64

definition zero_edge :: mock_edge where
  "zero_edge = \<lparr>me_line = 0, me_falling = False, me_timestamp_ns = 0\<rparr>"

text \<open>\<open>g_notified\<close> is the counter of the event descriptor.\<close>

record gmock_state = button_state +
  g_notify_fd :: int
  g_notify_write_fd :: int
  g_notified :: nat
  g_edges :: "mock_edge ring"
  g_line_values :: "int list"

interpretation edges: bounded_fifo MAX_EDGE_EVENTS "ring_push MAX_EDGE_EVENTS"
  "ring_pop MAX_EDGE_EVENTS" "ring_ok MAX_EDGE_EVENTS" "ring_items MAX_EDGE_EVENTS"
  by (rule ring_fifo) simp

section \<open>Operations\<close>

definition gpio_mock_reset :: "gmock_state \<Rightarrow> gmock_state" where
  "gpio_mock_reset s = (reset_buttons s)\<lparr>g_edges := (g_edges s)\<lparr>head := 0, tail := 0, count := 0\<rparr>,
     g_pending := (g_pending s)\<lparr>head := 0, tail := 0, count := 0\<rparr>\<rparr>"

definition signal_fd :: "gmock_state \<Rightarrow> gmock_state" where
  "signal_fd s = (if g_notify_write_fd s \<ge> 0 then s\<lparr>g_notified := g_notified s + 1\<rparr> else s)"

definition drain_fd :: "gmock_state \<Rightarrow> gmock_state" where
  "drain_fd s = (if g_notify_fd s < 0 then s else s\<lparr>g_notified := 0\<rparr>)"

definition push_edge :: "mock_edge \<Rightarrow> gmock_state \<Rightarrow> gmock_state" where
  "push_edge e s = s\<lparr>g_edges := ring_push MAX_EDGE_EVENTS e (g_edges s)\<rparr>"

definition pop_edge :: "gmock_state \<Rightarrow> mock_edge option \<times> gmock_state" where
  "pop_edge s = (let (e, q) = ring_pop MAX_EDGE_EVENTS (g_edges s) in (e, s\<lparr>g_edges := q\<rparr>))"

definition mock_detect_pressed_level :: "int list \<Rightarrow> int" where
  "mock_detect_pressed_level vals =
     (let zeros = length (filter (\<lambda>v. v = 0) vals); ones = length (filter (\<lambda>v. v \<noteq> 0) vals)
      in if zeros \<ge> ones then 1 else 0)"

definition mock_edge_level :: "mock_edge \<Rightarrow> int" where
  "mock_edge_level e = (if me_falling e then 0 else 1)"

text \<open>\<open>upd_ms\<close> is the time that re-arming the timer reads.\<close>

definition process_edge :: "mock_edge \<Rightarrow> u64 \<Rightarrow> gmock_state \<Rightarrow> gmock_state" where
  "process_edge e upd_ms s =
     (if me_line e < 0 \<or> me_line e \<ge> int GPIO_NUM_BUTTONS then s
      else
        let line = nat (me_line e) in
        if debounced line (me_timestamp_ns e div 1000000) s then s
        else process_line line (mock_edge_level e) (me_timestamp_ns e) upd_ms
               (s\<lparr>g_line_values := (g_line_values s)[line := mock_edge_level e]\<rparr>))"

definition gpio_mock_init :: "int \<Rightarrow> int \<Rightarrow> gmock_state \<Rightarrow> int \<times> gmock_state" where
  "gpio_mock_init event_fd timer_fd s =
     (let s = gpio_mock_reset s;
          s = s\<lparr>g_pressed_level := mock_detect_pressed_level (g_line_values s)\<rparr>;
          s = s\<lparr>g_notify_fd := -1, g_notify_write_fd := -1\<rparr>;
          s = (if g_timer_fd s \<ge> 0 then s\<lparr>g_timer_fd := -1\<rparr> else s);
          s = s\<lparr>g_notify_fd := event_fd, g_notified := 0\<rparr>;
          s = s\<lparr>g_notify_write_fd := g_notify_fd s\<rparr>;
          s = s\<lparr>g_timer_fd := timer_fd, g_timer_value := (0, 0)\<rparr>
      in if g_timer_fd s < 0 then (-1, s)
         else (if g_notify_fd s \<ge> 0 then 0 else -1, s))"

definition gpio_mock_cleanup :: "gmock_state \<Rightarrow> gmock_state" where
  "gpio_mock_cleanup s =
     (let s = s\<lparr>g_notify_fd := -1, g_notify_write_fd := -1\<rparr>;
          s = (if g_timer_fd s \<ge> 0 then s\<lparr>g_timer_fd := -1\<rparr> else s)
      in gpio_mock_reset s)"

definition gpio_mock_get_fd :: "gmock_state \<Rightarrow> int" where
  "gpio_mock_get_fd s = g_notify_fd s"

definition gpio_mock_get_timer_fd :: "gmock_state \<Rightarrow> int" where
  "gpio_mock_get_timer_fd s = g_timer_fd s"

definition gpio_mock_inject_edge :: "int \<Rightarrow> int \<Rightarrow> u64 \<Rightarrow> gmock_state \<Rightarrow> gmock_state" where
  "gpio_mock_inject_edge line falling ts s =
     signal_fd (push_edge \<lparr>me_line = line, me_falling = falling \<noteq> 0, me_timestamp_ns = ts\<rparr> s)"

definition gpio_mock_inject_press :: "int \<Rightarrow> bool \<Rightarrow> u64 \<Rightarrow> gmock_state \<Rightarrow> gmock_state" where
  "gpio_mock_inject_press line long_press now_ns s =
     (let s = gpio_mock_inject_edge line 1 now_ns s in
      if \<not> long_press then gpio_mock_inject_edge line 0 (now_ns + 100 * 1000000) s else s)"

definition gpio_mock_clear :: "u64 \<Rightarrow> gmock_state \<Rightarrow> gmock_state" where
  "gpio_mock_clear upd_ms s = drain_fd (update_long_press_timer_locked upd_ms (gpio_mock_reset s))"

section \<open>Reading events\<close>

lemma gmock_frame [simp]:
  "g_edges (update_long_press_timer_locked now s) = g_edges s"
  "g_edges (pending_push e s) = g_edges s"
  "g_edges (process_line l v ts upd s) = g_edges s"
  "g_edges (snd (pending_pop s)) = g_edges s"
  by (simp_all add: update_long_press_timer_locked_def pending_push_def process_line_def
      release_button_def pending_pop_def Let_def case_prod_beta)

lemma process_edge_queue [simp]: "g_edges (process_edge e upd s) = g_edges s"
  by (simp add: process_edge_def Let_def)

text \<open>
  The loop over the queued edges; \<open>clock k\<close> is the time that processing the \<open>k\<close>-th edge reads.
  Each round removes one edge.
\<close>

function drain_edges :: "(nat \<Rightarrow> u64) \<Rightarrow> gmock_state \<Rightarrow> gmock_state" where
  "drain_edges clock s =
     (case pop_edge s of
        (None, s) \<Rightarrow> s
      | (Some e, s) \<Rightarrow> drain_edges (\<lambda>k. clock (Suc k)) (process_edge e (clock 0) s))"
  by auto

termination
  by (relation "measure (\<lambda>(_, s). count (g_edges s))")
    (auto simp: pop_edge_def ring_pop_def split: if_splits)

declare drain_edges.simps [simp del]

record gmock_env =
  me_now_ms :: u64
  me_now_ns :: u64
  me_upd_ms :: u64
  me_clock :: "nat \<Rightarrow> u64"

definition gpio_mock_read_event ::
  "gmock_env \<Rightarrow> gmock_state \<Rightarrow> (int \<times> gpio_event option) \<times> gmock_state" where
  "gpio_mock_read_event e s =
     (let s = (if g_timer_fd s \<ge> 0
               then handle_long_press_timer_locked (me_now_ms e) (me_now_ns e) (me_upd_ms e) s
               else s)
      in case pending_pop s of
           (Some ev, s) \<Rightarrow> ((1, Some ev), s)
         | (None, s) \<Rightarrow>
             (let s = drain_edges (me_clock e) (drain_fd s); (ev, s) = pending_pop s
              in ((if ev \<noteq> None then 1 else 0, ev), s)))"

section \<open>The contract of a driver\<close>

definition gmock_inv :: "int \<Rightarrow> gmock_state \<Rightarrow> bool" where
  [wf_defs]: "gmock_inv L s \<longleftrightarrow> buttons_ok s \<and> g_pressed_level s = L \<and> ring_ok MAX_EDGE_EVENTS (g_edges s)"

definition press_edge :: "int \<Rightarrow> nat \<Rightarrow> mock_edge \<Rightarrow> bool" where
  "press_edge L i e \<longleftrightarrow> me_line e = int i \<and> mock_edge_level e = L"

text \<open>The events owed, and those that the queued edges can lead to.\<close>

definition gmock_due :: "int \<Rightarrow> nat \<Rightarrow> gmock_state \<Rightarrow> nat" where
  "gmock_due L i s = owed i s + length (filter (press_edge L i) (ring_items MAX_EDGE_EVENTS (g_edges s)))"

lemma owed_cong:
  "g_pending s' = g_pending s \<Longrightarrow> g_pressed s' = g_pressed s \<Longrightarrow> g_long_sent s' = g_long_sent s \<Longrightarrow>
   owed i s' = owed i s"
  by (simp add: owed_def)

lemma level_frame [simp]:
  "g_pressed_level (process_line l v ts upd s) = g_pressed_level s"
  "g_pressed_level (snd (pending_pop t)) = g_pressed_level t"
  by (simp_all add: process_line_def release_button_def pending_pop_def Let_def case_prod_beta)

lemma long_press_frame [simp]:
  "g_pressed_level (handle_long_press_timer_locked now ns upd s) = g_pressed_level s"
  "g_edges (handle_long_press_timer_locked now ns upd t) = g_edges t"
proof -
  have "g_pressed_level (fold (long_press_one now ns) is s) = g_pressed_level s" for "is"
    by (induction "is" arbitrary: s) (simp_all add: long_press_one_def)
  then show "g_pressed_level (handle_long_press_timer_locked now ns upd s) = g_pressed_level s"
    by (simp add: handle_long_press_timer_locked_def)
  have "g_edges (fold (long_press_one now ns) is t) = g_edges t" for "is"
    by (induction "is" arbitrary: t) (simp_all add: long_press_one_def)
  then show "g_edges (handle_long_press_timer_locked now ns upd t) = g_edges t"
    by (simp add: handle_long_press_timer_locked_def)
qed

lemma buttons_ok_lines [simp]: "buttons_ok (s\<lparr>g_line_values := v\<rparr>) = buttons_ok s"
  by (simp add: buttons_ok_def)

lemma mock_edge_inv:
  assumes "gmock_inv L s"
  shows "gmock_inv L (process_edge e upd s)"
proof -
  have "buttons_ok (process_line (nat (me_line e)) v ts upd (s\<lparr>g_line_values := w\<rparr>))"
    if "\<not> (me_line e < 0 \<or> me_line e \<ge> int GPIO_NUM_BUTTONS)" for v ts w
    using that assms by (intro process_line_ok) (auto simp: gmock_inv_def)
  then have "buttons_ok (process_edge e upd s)"
    using assms unfolding process_edge_def Let_def gmock_inv_def by (simp only: if_split) blast
  moreover have "g_pressed_level (process_edge e upd s) = g_pressed_level s"
    by (simp add: process_edge_def Let_def)
  ultimately show ?thesis using assms by (simp add: gmock_inv_def)
qed

lemma mock_edge_owed:
  assumes "gmock_inv L s" and i: "i < GPIO_NUM_BUTTONS"
  shows "owed i (process_edge e upd s) \<le> owed i s + (if press_edge L i e then 1 else 0)"
proof (cases "me_line e < 0 \<or> me_line e \<ge> int GPIO_NUM_BUTTONS")
  case True
  then show ?thesis by (auto simp: process_edge_def)
next
  case False
  let ?l = "nat (me_line e)" and ?v = "mock_edge_level e"
  let ?s = "s\<lparr>g_line_values := (g_line_values s)[?l := ?v]\<rparr>"
  have ok: "buttons_ok ?s" using assms(1) by (simp add: gmock_inv_def buttons_ok_def)
  have l: "?l < GPIO_NUM_BUTTONS" using False by auto
  have o: "owed i ?s = owed i s" by (rule owed_cong) simp_all
  have "(?l = i \<and> ?v = g_pressed_level ?s) = press_edge L i e"
    using False assms(1) by (auto simp: press_edge_def gmock_inv_def)
  then have p: "owed i (process_line ?l ?v (me_timestamp_ns e) upd ?s) \<le>
      owed i s + (if press_edge L i e then 1 else 0)"
    using process_line_owed[OF ok i l, of ?v "me_timestamp_ns e" upd] by (simp only: o)
  show ?thesis
    unfolding process_edge_def if_not_P[OF False] Let_def
    using p by (cases "debounced ?l (me_timestamp_ns e div 1000000) s") simp_all
qed

lemma pop_edge_cases:
  assumes "ring_ok MAX_EDGE_EVENTS (g_edges s)"
  obtains "pop_edge s = (None, s)" "ring_items MAX_EDGE_EVENTS (g_edges s) = []"
  | e t where "pop_edge s = (Some e, t)" "t = s\<lparr>g_edges := g_edges t\<rparr>" "ring_ok MAX_EDGE_EVENTS (g_edges t)"
      "ring_items MAX_EDGE_EVENTS (g_edges s) = e # ring_items MAX_EDGE_EVENTS (g_edges t)"
proof (cases "ring_items MAX_EDGE_EVENTS (g_edges s)")
  case Nil
  then show ?thesis using edges.pop_none[OF assms Nil] that(1) by (simp add: pop_edge_def)
next
  case (Cons e es)
  show ?thesis
    using edges.pop_some[OF assms Cons] edges.pop_ok[OF assms] Cons
    by (intro that(2)[of e "s\<lparr>g_edges := snd (ring_pop MAX_EDGE_EVENTS (g_edges s))\<rparr>"])
      (simp_all add: pop_edge_def case_prod_beta)
qed

lemma drain_edges_due:
  assumes "gmock_inv L s" and "i < GPIO_NUM_BUTTONS"
  shows "gmock_inv L (drain_edges clock s) \<and> gmock_due L i (drain_edges clock s) \<le> gmock_due L i s"
  using assms(1)
proof (induction clock s rule: drain_edges.induct)
  case (1 clock s)
  have r: "ring_ok MAX_EDGE_EVENTS (g_edges s)" using 1(2) by (simp add: gmock_inv_def)
  then show ?case
  proof (cases rule: pop_edge_cases)
    case 1
    then show ?thesis using \<open>gmock_inv L s\<close> by (simp add: drain_edges.simps[of clock s])
  next
    case (2 e t)
    have sel: "g_pending t = g_pending s" "g_pressed t = g_pressed s" "g_long_sent t = g_long_sent s"
      "buttons_ok t = buttons_ok s" "g_pressed_level t = g_pressed_level s"
      by (subst 2(2), simp add: buttons_ok_def)+
    have t: "gmock_inv L t" using \<open>gmock_inv L s\<close> 2(3) sel by (simp add: gmock_inv_def)
    let ?p = "process_edge e (clock 0) t"
    have IH: "gmock_inv L (drain_edges (\<lambda>k. clock (Suc k)) ?p) \<and>
        gmock_due L i (drain_edges (\<lambda>k. clock (Suc k)) ?p) \<le> gmock_due L i ?p"
      using "1.IH"[OF 2(1)[symmetric] refl mock_edge_inv[OF t]] .
    have "gmock_due L i ?p \<le> gmock_due L i s"
      using mock_edge_owed[OF t assms(2), of e "clock 0"] 2(4) owed_cong[OF sel(1-3), of i]
      by (simp add: gmock_due_def split: if_splits)
    then show ?thesis using IH 2(1) by (simp add: drain_edges.simps[of clock s])
  qed
qed

interpretation gmock: gpio_driver gpio_mock_read_event "gmock_inv L" "gmock_due L" "\<lambda>_ _. 0" for L
proof
  fix s :: gmock_state and e :: gmock_env
  assume inv: "gmock_inv L s"
  define h where "h = (if g_timer_fd s \<ge> 0
    then handle_long_press_timer_locked (me_now_ms e) (me_now_ns e) (me_upd_ms e) s else s)"
  define d where "d = drain_edges (me_clock e) (drain_fd (snd (pending_pop h)))"
  have h: "gmock_inv L h" "gmock_due L i h \<le> gmock_due L i s" if "i < GPIO_NUM_BUTTONS" for i
    using inv that
    by (simp_all add: h_def gmock_inv_def gmock_due_def handle_long_press_ok handle_long_press_owed)
  have inv_h: "gmock_inv L h" using h(1)[of 0] by simp
  have pop: "gmock_inv L (snd (pending_pop t))" if "gmock_inv L t" for t
    using that by (simp add: gmock_inv_def pending_pop_ok)
  have dr: "gmock_inv L (drain_fd t)" "gmock_due L i (drain_fd t) = gmock_due L i t"
    if "gmock_inv L t" for t i
    using that by (simp_all add: drain_fd_def gmock_inv_def gmock_due_def owed_def buttons_ok_def)
  have d: "gmock_inv L d" "gmock_due L i d \<le> gmock_due L i (snd (pending_pop h))"
    if "i < GPIO_NUM_BUTTONS" for i
    using drain_edges_due[OF dr(1)[OF pop[OF inv_h]] that, of "me_clock e"] dr(2)[OF pop[OF inv_h], of i]
    by (simp_all add: d_def)
  have inv_d: "gmock_inv L d" using d(1)[of 0] by simp
  have read: "gpio_mock_read_event e s = (case fst (pending_pop h) of
      Some ev \<Rightarrow> ((1, Some ev), snd (pending_pop h))
    | None \<Rightarrow> ((if fst (pending_pop d) \<noteq> None then 1 else 0, fst (pending_pop d)), snd (pending_pop d)))"
    by (simp add: gpio_mock_read_event_def h_def[symmetric] d_def Let_def case_prod_beta split: option.split)
  have ok: "buttons_ok h" "buttons_ok d" using inv_h inv_d by (simp_all add: gmock_inv_def)
  show "gmock_inv L (snd (gpio_mock_read_event e s))"
    unfolding read using pop[OF inv_h] pop[OF inv_d] by (simp split: option.split)
  have "(fst (fst (gpio_mock_read_event e s)) = 1 \<longleftrightarrow> snd (fst (gpio_mock_read_event e s)) \<noteq> None) \<and>
      fst (fst (gpio_mock_read_event e s)) \<le> 1"
    unfolding read by (simp split: option.split)
  then show "fst (gpio_mock_read_event e s) = (ret, res) \<Longrightarrow> (ret = 1 \<longleftrightarrow> res \<noteq> None) \<and> ret \<le> 1" for ret res
    by simp
  show "snd (fst (gpio_mock_read_event e s)) = Some ev \<Longrightarrow>
      \<exists>i < GPIO_NUM_BUTTONS. \<exists>l t. ev = button_event i l t" for ev
    unfolding read using pending_pop_event[OF ok(1)] pending_pop_event[OF ok(2)]
    by (simp split: option.splits)
  show "(case snd (fst (gpio_mock_read_event e s)) of Some ev \<Rightarrow> if ev_line ev = of_nat i then 1 else 0
      | None \<Rightarrow> 0) + gmock_due L i (snd (gpio_mock_read_event e s)) \<le> gmock_due L i s + 0"
    if i: "i < GPIO_NUM_BUTTONS" for i
  proof (cases "fst (pending_pop h)")
    case None
    then show ?thesis
      using pending_pop_owed[OF ok(1), of i] pending_pop_owed[OF ok(2), of i] h(2)[OF i] d(2)[OF i]
      by (simp add: read gmock_due_def)
  next
    case (Some ev)
    then show ?thesis
      using pending_pop_owed[OF ok(1), of i] h(2)[OF i] by (simp add: read gmock_due_def)
  qed
qed

end
