(* ===== verification/Ring_Queue.thy ===== *)
theory Ring_Queue
  imports Event_Ring
begin

text \<open>
  The generic ring buffer of the threaded version of the program
  (\<open>src_adr0005/ring_queue.c\<close>): a bounded queue with a policy for the full queue, an optional
  function that merges an element into one that is queued, and statistics. Elements are
  values instead of bytes; the mutex makes each operation one step.
\<close>

datatype overflow_policy = RQ_OVERWRITE_OLDEST | RQ_REJECT_NEW | RQ_COALESCE

datatype ring_queue_result = RQ_RESULT_OK | RQ_RESULT_MERGED | RQ_RESULT_DROPPED | RQ_RESULT_ERR

record ring_queue_stats =
  rq_pushes :: u64
  rq_pops :: u64
  rq_overwrites :: u64
  rq_drops :: u64
  rq_merges :: u64

text \<open>
  A merge function changes the queued element and returns true (\<open>Some\<close>), or returns false.
  \<open>events\<close> is the buffer; \<open>has_buffer\<close> says that it is not NULL.
\<close>

type_synonym 'a merge_fn = "'a \<Rightarrow> 'a \<Rightarrow> 'a option"

record 'a ring_queue = "'a ring" +
  has_buffer :: bool
  item_size :: nat
  capacity :: nat
  policy :: overflow_policy
  merge_fn :: "'a merge_fn option"
  rq_stats :: ring_queue_stats

definition zero_stats :: ring_queue_stats where
  "zero_stats = \<lparr>rq_pushes = 0, rq_pops = 0, rq_overwrites = 0, rq_drops = 0, rq_merges = 0\<rparr>"

definition zero_ring_queue :: "'a ring_queue" where
  "zero_ring_queue =
     \<lparr>events = [], head = 0, tail = 0, count = 0, has_buffer = False, item_size = 0,
      capacity = 0, policy = RQ_OVERWRITE_OLDEST, merge_fn = None, rq_stats = zero_stats\<rparr>"

section \<open>Operations\<close>

text \<open>\<open>mem_ok\<close> is whether \<open>malloc\<close> succeeds; \<open>z\<close> stands for the uninitialised elements.\<close>

definition ring_queue_init ::
  "bool \<Rightarrow> 'a \<Rightarrow> nat \<Rightarrow> nat \<Rightarrow> 'a ring_queue \<Rightarrow> int \<times> 'a ring_queue" where
  "ring_queue_init mem_ok z cap isize q =
     (if cap = 0 \<or> isize = 0 then (-1, q)
      else
        let q = zero_ring_queue
        in if \<not> mem_ok then (-1, q)
           else (0, q\<lparr>has_buffer := True, events := replicate cap z, capacity := cap, item_size := isize,
                      policy := RQ_OVERWRITE_OLDEST\<rparr>))"

definition ring_queue_destroy :: "'a ring_queue \<Rightarrow> 'a ring_queue" where
  "ring_queue_destroy q =
     q\<lparr>has_buffer := False, events := [], capacity := 0, item_size := 0, head := 0, tail := 0,
       count := 0, merge_fn := None, rq_stats := zero_stats\<rparr>"

definition ring_queue_set_overflow_policy :: "overflow_policy \<Rightarrow> 'a ring_queue \<Rightarrow> 'a ring_queue" where
  "ring_queue_set_overflow_policy p q = q\<lparr>policy := p\<rparr>"

definition ring_queue_set_merge_fn :: "'a merge_fn option \<Rightarrow> 'a ring_queue \<Rightarrow> 'a ring_queue" where
  "ring_queue_set_merge_fn f q = q\<lparr>merge_fn := f\<rparr>"

definition on_stats :: "(ring_queue_stats \<Rightarrow> ring_queue_stats) \<Rightarrow> 'a ring_queue \<Rightarrow> 'a ring_queue" where
  [simp]: "on_stats f q = q\<lparr>rq_stats := f (rq_stats q)\<rparr>"

definition item_index :: "'a ring_queue \<Rightarrow> nat \<Rightarrow> nat" where
  "item_index q i = (head q + i) mod capacity q"

text \<open>
  The loop over the queued elements, oldest first: the first one that \<open>f\<close> changes is replaced
  in its place.
\<close>

definition update_first :: "('a \<Rightarrow> 'a option) \<Rightarrow> 'a ring_queue \<Rightarrow> 'a ring_queue option" where
  "update_first f q =
     (case first_index (\<lambda>i. f (events q ! item_index q i) \<noteq> None) [0..<count q] of
        None \<Rightarrow> None
      | Some i \<Rightarrow>
          let idx = item_index q i
          in Some (q\<lparr>events := (events q)[idx := the (f (events q ! idx))]\<rparr>))"

definition ring_queue_try_merge :: "'a \<Rightarrow> 'a ring_queue \<Rightarrow> ring_queue_result \<times> 'a ring_queue" where
  "ring_queue_try_merge item q =
     (case merge_fn q of
        None \<Rightarrow> (RQ_RESULT_ERR, q)
      | Some f \<Rightarrow>
          if policy q \<noteq> RQ_COALESCE \<or> count q = 0 then (RQ_RESULT_ERR, q)
          else (case update_first (\<lambda>existing. f existing item) q of
                  Some q \<Rightarrow> (RQ_RESULT_MERGED, on_stats (\<lambda>s. s\<lparr>rq_merges := rq_merges s + 1\<rparr>) q)
                | None \<Rightarrow> (RQ_RESULT_ERR, q)))"

definition ring_queue_push :: "'a \<Rightarrow> 'a ring_queue \<Rightarrow> ring_queue_result \<times> 'a ring_queue" where
  "ring_queue_push item q =
     (if \<not> has_buffer q then (RQ_RESULT_ERR, q)
      else
        let q = on_stats (\<lambda>s. s\<lparr>rq_pushes := rq_pushes s + 1\<rparr>) q;
            (r, q) = ring_queue_try_merge item q
        in if r = RQ_RESULT_MERGED then (RQ_RESULT_MERGED, q)
           else if count q = capacity q then
             if policy q = RQ_OVERWRITE_OLDEST then
               let q = q\<lparr>events := (events q)[tail q := item]\<rparr>;
                   q = q\<lparr>tail := (tail q + 1) mod capacity q\<rparr>;
                   q = q\<lparr>head := tail q\<rparr>
               in (RQ_RESULT_OK, on_stats (\<lambda>s. s\<lparr>rq_overwrites := rq_overwrites s + 1\<rparr>) q)
             else (RQ_RESULT_DROPPED, on_stats (\<lambda>s. s\<lparr>rq_drops := rq_drops s + 1\<rparr>) q)
           else
             let q = q\<lparr>events := (events q)[tail q := item]\<rparr>;
                 q = q\<lparr>tail := (tail q + 1) mod capacity q\<rparr>
             in (RQ_RESULT_OK, q\<lparr>count := count q + 1\<rparr>))"

definition ring_queue_pop :: "'a ring_queue \<Rightarrow> 'a option \<times> 'a ring_queue" where
  "ring_queue_pop q =
     (if \<not> has_buffer q then (None, q)
      else if count q = 0 then (None, q)
      else
        let out = events q ! head q;
            q = q\<lparr>head := (head q + 1) mod capacity q\<rparr>;
            q = q\<lparr>count := count q - 1\<rparr>
        in (Some out, on_stats (\<lambda>s. s\<lparr>rq_pops := rq_pops s + 1\<rparr>) q))"

definition ring_queue_replace_first_if ::
  "('a \<Rightarrow> bool) \<Rightarrow> 'a \<Rightarrow> 'a ring_queue \<Rightarrow> bool \<times> 'a ring_queue" where
  "ring_queue_replace_first_if matches item q =
     (if \<not> has_buffer q then (False, q)
      else if count q = 0 then (False, q)
      else case update_first (\<lambda>existing. if matches existing then Some item else None) q of
             Some q \<Rightarrow> (True, q)
           | None \<Rightarrow> (False, q))"

definition ring_queue_count :: "'a ring_queue \<Rightarrow> nat" where
  "ring_queue_count q = count q"

definition ring_queue_capacity :: "'a ring_queue \<Rightarrow> nat" where
  "ring_queue_capacity q = capacity q"

definition ring_queue_get_stats :: "'a ring_queue \<Rightarrow> ring_queue_stats" where
  "ring_queue_get_stats q = rq_stats q"

section \<open>The specification\<close>

text \<open>The queue as a list, oldest first, and what the operations do to the list.\<close>

definition rq_ok :: "'a ring_queue \<Rightarrow> bool" where
  [wf_defs]: "rq_ok q \<longleftrightarrow> has_buffer q \<and> ring_ok (capacity q) (ring.truncate q)"

definition rq_items :: "'a ring_queue \<Rightarrow> 'a list" where
  "rq_items q = ring_items (capacity q) (ring.truncate q)"

definition update_list :: "('a \<Rightarrow> 'a option) \<Rightarrow> 'a list \<Rightarrow> 'a list option" where
  "update_list f xs =
     map_option (\<lambda>i. xs[i := the (f (xs ! i))]) (first_index (\<lambda>x. f x \<noteq> None) xs)"

definition merged_list :: "'a ring_queue \<Rightarrow> 'a \<Rightarrow> 'a list \<Rightarrow> 'a list option" where
  "merged_list q item xs =
     (case merge_fn q of
        Some f \<Rightarrow> if policy q = RQ_COALESCE then update_list (\<lambda>x. f x item) xs else None
      | None \<Rightarrow> None)"

definition push_spec :: "'a ring_queue \<Rightarrow> 'a \<Rightarrow> 'a list \<Rightarrow> ring_queue_result \<times> 'a list" where
  "push_spec q item xs =
     (case merged_list q item xs of
        Some ys \<Rightarrow> (RQ_RESULT_MERGED, ys)
      | None \<Rightarrow>
          if length xs < capacity q then (RQ_RESULT_OK, xs @ [item])
          else if policy q = RQ_OVERWRITE_OLDEST then (RQ_RESULT_OK, tl xs @ [item])
          else (RQ_RESULT_DROPPED, xs))"

lemma truncate_sel [simp]:
  "events (ring.truncate q) = events q" "head (ring.truncate q) = head q"
  "tail (ring.truncate q) = tail q" "count (ring.truncate q) = count q"
  by (simp_all add: ring.truncate_def)

lemma length_rq_items [simp]: "length (rq_items q) = count q"
  by (simp add: rq_items_def)

lemma rq_items_nth: "i < count q \<Longrightarrow> rq_items q ! i = events q ! item_index q i"
  by (simp add: rq_items_def ring_items_def item_index_def)

lemma rq_items_cong:
  "events q' = events q \<Longrightarrow> head q' = head q \<Longrightarrow> tail q' = tail q \<Longrightarrow> count q' = count q \<Longrightarrow>
   capacity q' = capacity q \<Longrightarrow> rq_items q' = rq_items q"
  by (simp add: rq_items_def ring_items_def)

lemma rq_ok_cong:
  "length (events q') = length (events q) \<Longrightarrow> head q' = head q \<Longrightarrow> tail q' = tail q \<Longrightarrow>
   count q' = count q \<Longrightarrow> capacity q' = capacity q \<Longrightarrow> has_buffer q' = has_buffer q \<Longrightarrow>
   rq_ok q' = rq_ok q"
  by (simp add: rq_ok_def ring_ok_def)

lemma rq_stats_frame [simp]:
  "rq_items (q\<lparr>rq_stats := s\<rparr>) = rq_items q" "rq_ok (q\<lparr>rq_stats := s\<rparr>) = rq_ok q"
  by (rule rq_items_cong rq_ok_cong; simp)+

text \<open>An update in place.\<close>

lemma item_index_inj:
  assumes "rq_ok q" and "i < count q" and "j < count q" and "item_index q i = item_index q j"
  shows "i = j"
proof -
  have "\<not> i < j" if "j < count q" "item_index q i = item_index q j" for i j
    using that assms(1) ring_slot_free[of "head q" "capacity q" i j]
    by (auto simp: rq_ok_def ring_ok_def item_index_def)
  from this[of j i] this[of i j] show ?thesis using assms by auto
qed

lemma rq_items_update:
  assumes "rq_ok q" and "i < count q"
  shows "rq_items (q\<lparr>events := (events q)[item_index q i := x]\<rparr>) = (rq_items q)[i := x]"
proof (rule nth_equalityI)
  fix j
  assume "j < length (rq_items (q\<lparr>events := (events q)[item_index q i := x]\<rparr>))"
  then have j: "j < count q" by simp
  have "item_index q i < length (events q)"
    using assms(1) by (simp add: item_index_def rq_ok_def ring_ok_def)
  then show "rq_items (q\<lparr>events := (events q)[item_index q i := x]\<rparr>) ! j = (rq_items q)[i := x] ! j"
    using j assms item_index_inj[OF assms j]
    by (auto simp: rq_items_nth nth_list_update item_index_def)
qed simp

lemma first_index_upt: "first_index P [0..<n] = Some i \<Longrightarrow> i < n \<and> P i \<and> (\<forall>j < i. \<not> P j)"
  using first_index_Some[of P "[0..<n]" i] by auto

lemma first_index_items: "first_index (\<lambda>i. P (xs ! i)) [0..<length xs] = first_index P xs"
proof (induction xs)
  case (Cons x xs)
  have "[0..<length (x # xs)] = 0 # map Suc [0..<length xs]" by (simp add: upt_conv_Cons map_Suc_upt del: upt_Suc)
  moreover have "first_index Q (map f ys) = first_index (\<lambda>y. Q (f y)) ys" for Q and f :: "nat \<Rightarrow> nat" and ys
    by (induction ys) simp_all
  ultimately show ?case using Cons.IH by (simp del: upt_Suc)
qed simp

lemma first_index_cong:
  "(\<And>x. x \<in> set xs \<Longrightarrow> P x = Q x) \<Longrightarrow> first_index P xs = first_index Q xs"
  by (induction xs) simp_all

lemma update_first_list:
  assumes "rq_ok q"
  shows "map_option rq_items (update_first f q) = update_list f (rq_items q)"
    and "update_first f q = Some q' \<Longrightarrow> rq_ok q' \<and> q' = q\<lparr>events := events q'\<rparr>"
proof -
  have e: "first_index (\<lambda>i. f (events q ! item_index q i) \<noteq> None) [0..<count q] =
      first_index (\<lambda>x. f x \<noteq> None) (rq_items q)"
  proof -
    have "first_index (\<lambda>i. f (events q ! item_index q i) \<noteq> None) [0..<count q] =
        first_index (\<lambda>i. f (rq_items q ! i) \<noteq> None) [0..<length (rq_items q)]"
      by (simp, rule first_index_cong) (simp add: rq_items_nth)
    then show ?thesis using first_index_items[of "\<lambda>x. f x \<noteq> None" "rq_items q"] by simp
  qed
  have b: "i < count q" if "first_index (\<lambda>x. f x \<noteq> None) (rq_items q) = Some i" for i
    using first_index_Some[OF that] by simp
  show "map_option rq_items (update_first f q) = update_list f (rq_items q)"
    unfolding update_first_def update_list_def e
    by (cases "first_index (\<lambda>x. f x \<noteq> None) (rq_items q)")
      (simp_all add: Let_def rq_items_update[OF assms b] rq_items_nth[OF b])
  show "update_first f q = Some q' \<Longrightarrow> rq_ok q' \<and> q' = q\<lparr>events := events q'\<rparr>"
    unfolding update_first_def e
    using assms by (auto simp: Let_def rq_ok_def ring_ok_def split: option.splits)
qed

section \<open>The operations implement the specification\<close>

lemma try_merge_spec:
  assumes "rq_ok q"
  shows "case merged_list q item (rq_items q) of
      None \<Rightarrow> ring_queue_try_merge item q = (RQ_RESULT_ERR, q)
    | Some ys \<Rightarrow> fst (ring_queue_try_merge item q) = RQ_RESULT_MERGED \<and>
        rq_ok (snd (ring_queue_try_merge item q)) \<and> rq_items (snd (ring_queue_try_merge item q)) = ys"
proof (cases "merge_fn q")
  case None
  then show ?thesis by (simp add: merged_list_def ring_queue_try_merge_def)
next
  case (Some f)
  let ?f = "\<lambda>x. f x item"
  note u = update_first_list[OF assms, where f = ?f]
  show ?thesis
  proof (cases "policy q = RQ_COALESCE \<and> count q \<noteq> 0")
    case False
    have "count q = 0 \<Longrightarrow> rq_items q = []" by (simp add: rq_items_def ring_items_def)
    then have "merged_list q item (rq_items q) = None"
      using False Some by (auto simp: merged_list_def update_list_def)
    then show ?thesis using False Some by (auto simp: ring_queue_try_merge_def)
  next
    case True
    then have m: "merged_list q item (rq_items q) = map_option rq_items (update_first ?f q)"
      using Some u(1) by (simp add: merged_list_def)
    show ?thesis
    proof (cases "update_first ?f q")
      case None
      then show ?thesis using True Some m by (simp add: ring_queue_try_merge_def)
    next
      case (Some q')
      then show ?thesis
        using True \<open>merge_fn q = Some f\<close> m u(2)[OF Some] by (simp add: ring_queue_try_merge_def)
    qed
  qed
qed

lemma merged_list_stats [simp]: "merged_list (q\<lparr>rq_stats := s\<rparr>) item xs = merged_list q item xs"
  by (simp add: merged_list_def split: option.split)

text \<open>Writing behind the last element, and over the oldest one of a full queue.\<close>

lemma append_item:
  fixes q :: "'a ring_queue" and x :: 'a
  assumes "rq_ok q" and "count q < capacity q"
  defines "q' \<equiv> q\<lparr>events := (events q)[tail q := x], tail := (tail q + 1) mod capacity q, count := count q + 1\<rparr>"
  shows "rq_ok q'" and "rq_items q' = rq_items q @ [x]"
proof -
  have "ring.truncate q' = ring_push (capacity q) x (ring.truncate q)"
    using assms(2) by (simp add: q'_def ring_push_def ring.truncate_def Let_def)
  moreover have "capacity q' = capacity q" "has_buffer q'" using assms(1) by (simp_all add: q'_def rq_ok_def)
  ultimately show "rq_ok q'" "rq_items q' = rq_items q @ [x]"
    using assms(1,2) ring_push_room[of "capacity q" "ring.truncate q" x]
    by (simp_all add: rq_ok_def rq_items_def)
qed

lemma overwrite_item:
  fixes q :: "'a ring_queue" and x :: 'a
  assumes "rq_ok q" and "count q = capacity q"
  defines "q' \<equiv> q\<lparr>events := (events q)[tail q := x], tail := (tail q + 1) mod capacity q,
    head := (tail q + 1) mod capacity q\<rparr>"
  shows "rq_ok q'" and "rq_items q' = tl (rq_items q) @ [x]"
proof -
  have "head q = tail q" using assms(1,2) by (simp add: rq_ok_def ring_ok_def)
  then have "ring.truncate q' = ring_push (capacity q) x (ring.truncate q)"
    using assms(1,2) by (simp add: q'_def ring_push_def ring.truncate_def Let_def rq_ok_def ring_ok_def)
  moreover have "capacity q' = capacity q" "has_buffer q'" using assms(1) by (simp_all add: q'_def rq_ok_def)
  ultimately show "rq_ok q'" "rq_items q' = tl (rq_items q) @ [x]"
    using assms(1,2) ring_push_contract[of "capacity q" "ring.truncate q" x]
    by (simp_all add: rq_ok_def rq_items_def)
qed

lemma push_refines:
  assumes "rq_ok q"
  shows "(fst (ring_queue_push item q), rq_items (snd (ring_queue_push item q))) =
      push_spec q item (rq_items q)"
    and "rq_ok (snd (ring_queue_push item q))"
proof -
  let ?q = "q\<lparr>rq_stats := (rq_stats q)\<lparr>rq_pushes := rq_pushes (rq_stats q) + 1\<rparr>\<rparr>"
  have ok: "rq_ok ?q" using assms by simp
  have b: "has_buffer q" using assms by (simp add: rq_ok_def)
  have le: "count q \<le> capacity q" using assms by (simp add: rq_ok_def ring_ok_def)
  note m = try_merge_spec[OF ok, of item]
  have "(fst (ring_queue_push item q), rq_items (snd (ring_queue_push item q))) =
      push_spec q item (rq_items q) \<and> rq_ok (snd (ring_queue_push item q))"
  proof (cases "merged_list q item (rq_items q)")
    case (Some ys)
    then show ?thesis using m b
      by (simp add: ring_queue_push_def push_spec_def case_prod_beta Let_def)
  next
    case None
    then have t: "ring_queue_try_merge item ?q = (RQ_RESULT_ERR, ?q)" using m by simp
    show ?thesis
    proof (cases "count q < capacity q")
      case True
      then show ?thesis
        using None t b append_item[OF ok, of item]
        by (simp add: ring_queue_push_def push_spec_def Let_def)
    next
      case False
      then have "count q = capacity q" using le by simp
      then show ?thesis
        using None t b assms overwrite_item[OF assms, of item]
        by (simp add: ring_queue_push_def push_spec_def Let_def)
    qed
  qed
  then show "(fst (ring_queue_push item q), rq_items (snd (ring_queue_push item q))) =
      push_spec q item (rq_items q)"
    and "rq_ok (snd (ring_queue_push item q))" by simp_all
qed

lemma pop_refines:
  assumes "rq_ok q"
  shows "(fst (ring_queue_pop q), rq_items (snd (ring_queue_pop q))) =
      (case rq_items q of [] \<Rightarrow> (None, []) | x # xs \<Rightarrow> (Some x, xs))"
    and "rq_ok (snd (ring_queue_pop q))"
proof -
  let ?p = "ring_pop (capacity q) (ring.truncate q)"
  have b: "has_buffer q" and r: "ring_ok (capacity q) (ring.truncate q)" using assms by (simp_all add: rq_ok_def)
  have p: "fst (ring_queue_pop q) = fst ?p" "ring.truncate (snd (ring_queue_pop q)) = snd ?p"
    "capacity (snd (ring_queue_pop q)) = capacity q" "has_buffer (snd (ring_queue_pop q))"
    using b by (simp_all add: ring_queue_pop_def ring_pop_def ring.truncate_def Let_def)
  show "rq_ok (snd (ring_queue_pop q))" using p r ring_pop_ok[OF r] by (simp add: rq_ok_def)
  show "(fst (ring_queue_pop q), rq_items (snd (ring_queue_pop q))) =
      (case rq_items q of [] \<Rightarrow> (None, []) | x # xs \<Rightarrow> (Some x, xs))"
  proof (cases "count q")
    case 0
    then show ?thesis using p by (simp add: rq_items_def ring_items_def ring_pop_def)
  next
    case (Suc n)
    then have "rq_items q = events q ! head q # rq_items (snd (ring_queue_pop q))"
      using ring_pop_some[OF r] p by (simp add: rq_items_def)
    then show ?thesis using Suc p(1) by (simp add: ring_pop_def)
  qed
qed

lemma replace_refines:
  fixes q :: "'a ring_queue" and matches item
  assumes "rq_ok q"
  defines "r \<equiv> ring_queue_replace_first_if matches item q"
  shows "(fst r, rq_items (snd r)) =
      (case first_index matches (rq_items q) of None \<Rightarrow> (False, rq_items q) | Some i \<Rightarrow> (True, (rq_items q)[i := item]))"
    and "rq_ok (snd r)"
proof -
  let ?f = "\<lambda>x. if matches x then Some item else None"
  note u = update_first_list[OF assms(1), where f = ?f]
  have l: "update_list ?f (rq_items q) =
      map_option (\<lambda>i. (rq_items q)[i := item]) (first_index matches (rq_items q))"
  proof -
    have e: "(\<lambda>x. ?f x \<noteq> None) = matches" by auto
    show ?thesis unfolding update_list_def e
      by (cases "first_index matches (rq_items q)") (auto dest: first_index_Some)
  qed
  have b: "has_buffer q" using assms(1) by (simp add: rq_ok_def)
  have z: "count q = 0 \<Longrightarrow> rq_items q = []" by (simp add: rq_items_def ring_items_def)
  have "(fst r, rq_items (snd r)) =
      (case first_index matches (rq_items q) of None \<Rightarrow> (False, rq_items q) | Some i \<Rightarrow> (True, (rq_items q)[i := item])) \<and>
      rq_ok (snd r)"
  proof (cases "count q = 0")
    case True
    then show ?thesis using assms(1) b z by (simp add: r_def ring_queue_replace_first_if_def)
  next
    case False
    show ?thesis
    proof (cases "update_first ?f q")
      case None
      then have "first_index matches (rq_items q) = None" using u(1) l by simp
      then show ?thesis using None False b assms(1) by (simp add: r_def ring_queue_replace_first_if_def)
    next
      case (Some q')
      then obtain i where "first_index matches (rq_items q) = Some i" "rq_items q' = (rq_items q)[i := item]"
        using u(1) l by (cases "first_index matches (rq_items q)") auto
      then show ?thesis using Some False b u(2)[OF Some] by (simp add: r_def ring_queue_replace_first_if_def)
    qed
  qed
  then show "(fst r, rq_items (snd r)) =
      (case first_index matches (rq_items q) of None \<Rightarrow> (False, rq_items q) | Some i \<Rightarrow> (True, (rq_items q)[i := item]))"
    and "rq_ok (snd r)" by simp_all
qed

lemma init_refines:
  assumes "0 < cap" and "0 < isize"
  shows "fst (ring_queue_init True z cap isize q) = 0" and "rq_ok (snd (ring_queue_init True z cap isize q))"
    and "rq_items (snd (ring_queue_init True z cap isize q)) = []"
    and "capacity (snd (ring_queue_init True z cap isize q)) = cap"
  using assms by (simp_all add: ring_queue_init_def zero_ring_queue_def rq_ok_def ring_ok_def rq_items_def ring_items_def Let_def)

text \<open>What the operations leave alone.\<close>

lemma update_first_frame:
  "update_first f q = Some q' \<Longrightarrow> capacity q' = capacity q \<and> policy q' = policy q \<and> merge_fn q' = merge_fn q"
  by (auto simp: update_first_def Let_def split: option.splits)

lemma ring_queue_frame [simp]:
  "capacity (snd (ring_queue_push x q)) = capacity q" "policy (snd (ring_queue_push x q)) = policy q"
  "merge_fn (snd (ring_queue_push x q)) = merge_fn q"
  "capacity (snd (ring_queue_pop q)) = capacity q" "policy (snd (ring_queue_pop q)) = policy q"
  "merge_fn (snd (ring_queue_pop q)) = merge_fn q"
  "capacity (snd (ring_queue_replace_first_if m x q)) = capacity q"
  "policy (snd (ring_queue_replace_first_if m x q)) = policy q"
  "merge_fn (snd (ring_queue_replace_first_if m x q)) = merge_fn q"
proof -
  have t: "capacity (snd (ring_queue_try_merge x q)) = capacity q \<and>
      policy (snd (ring_queue_try_merge x q)) = policy q \<and> merge_fn (snd (ring_queue_try_merge x q)) = merge_fn q"
    for q :: "'a ring_queue"
    by (auto simp: ring_queue_try_merge_def split: option.split dest: update_first_frame)
  show "capacity (snd (ring_queue_push x q)) = capacity q" "policy (snd (ring_queue_push x q)) = policy q"
    "merge_fn (snd (ring_queue_push x q)) = merge_fn q"
    using t by (simp_all add: ring_queue_push_def case_prod_beta Let_def)
  show "capacity (snd (ring_queue_replace_first_if m x q)) = capacity q"
    "policy (snd (ring_queue_replace_first_if m x q)) = policy q"
    "merge_fn (snd (ring_queue_replace_first_if m x q)) = merge_fn q"
    by (auto simp: ring_queue_replace_first_if_def split: option.split dest: update_first_frame)
qed (simp_all add: ring_queue_pop_def Let_def)

end
