(* ===== verification/App_Events.thy ===== *)
theory App_Events
  imports Ring_Queue "HOL-Library.Multiset"
begin

text \<open>
  The event queue between the event loop and the user interface of the threaded version
  (\<open>src_adr0005/event_queue.c\<close>): ticks are merged, and a full queue gives up its tick for any
  other event. This theory has the operations as each thread sees them alone; the waiting and
  waking of the threads is in \<open>Event_Wait\<close>.
\<close>

datatype app_event_type =
    EVT_NONE
  | EVT_BTN_K1_SHORT | EVT_BTN_K2_SHORT | EVT_BTN_K3_SHORT
  | EVT_BTN_K1_LONG | EVT_BTN_K2_LONG | EVT_BTN_K3_LONG
  | EVT_TICK | EVT_SHUTDOWN

record app_event =
  evt_type :: app_event_type
  evt_line :: u8
  evt_timestamp_ns :: u64
  evt_data :: u32

datatype event_queue_result = EQ_RESULT_OK | EQ_RESULT_REPLACED | EQ_RESULT_DROPPED | EQ_RESULT_ERR

record event_queue =
  eq_ring :: "app_event ring_queue"
  replaced_ticks :: u64
  dropped_critical :: u64
  eq_seq :: u64
  eq_closed :: bool

section \<open>Operations\<close>

definition event_queue_is_tick :: "app_event \<Rightarrow> bool" where
  "event_queue_is_tick event \<longleftrightarrow> evt_type event = EVT_TICK"

definition event_queue_match_tick :: "app_event \<Rightarrow> bool" where
  "event_queue_match_tick evt \<longleftrightarrow> evt_type evt = EVT_TICK"

definition event_queue_merge_tick :: "app_event merge_fn" where
  "event_queue_merge_tick ex inc =
     (if evt_type inc \<noteq> EVT_TICK then None
      else if evt_type ex \<noteq> EVT_TICK then None
      else Some (ex\<lparr>evt_data := evt_data ex + evt_data inc, evt_timestamp_ns := evt_timestamp_ns inc\<rparr>))"

text \<open>The counter that a waiting thread compares; its wake-up is a step of \<open>Event_Wait\<close>.\<close>

definition event_queue_signal :: "event_queue \<Rightarrow> event_queue" where
  "event_queue_signal q = q\<lparr>eq_seq := eq_seq q + 1\<rparr>"

definition zero_event_queue :: event_queue where
  "zero_event_queue = \<lparr>eq_ring = zero_ring_queue, replaced_ticks = 0, dropped_critical = 0,
     eq_seq = 0, eq_closed = False\<rparr>"

text \<open>\<open>sizeof(app_event_t)\<close> is 24 with the usual alignment; only that it is not 0 matters.\<close>

definition event_queue_init ::
  "bool \<Rightarrow> app_event \<Rightarrow> nat \<Rightarrow> event_queue \<Rightarrow> int \<times> event_queue" where
  "event_queue_init mem_ok z cap q =
     (if cap = 0 then (-1, q)
      else
        let q = zero_event_queue;
            (r, ring) = ring_queue_init mem_ok z cap 24 (eq_ring q);
            q = q\<lparr>eq_ring := ring\<rparr>
        in if r \<noteq> 0 then (-1, q)
           else
             let q = q\<lparr>eq_ring := ring_queue_set_overflow_policy RQ_COALESCE (eq_ring q)\<rparr>;
                 q = q\<lparr>eq_ring := ring_queue_set_merge_fn (Some event_queue_merge_tick) (eq_ring q)\<rparr>
             in (0, q\<lparr>eq_seq := 0, eq_closed := False\<rparr>))"

definition event_queue_destroy :: "event_queue \<Rightarrow> event_queue" where
  "event_queue_destroy q = zero_event_queue"

definition event_queue_close :: "event_queue \<Rightarrow> event_queue" where
  "event_queue_close q = event_queue_signal (q\<lparr>eq_closed := True\<rparr>)"

definition event_queue_push :: "app_event \<Rightarrow> event_queue \<Rightarrow> event_queue_result \<times> event_queue" where
  "event_queue_push event q =
     (let (result, ring) = ring_queue_push event (eq_ring q);
          q = q\<lparr>eq_ring := ring\<rparr>
      in if result = RQ_RESULT_OK \<or> result = RQ_RESULT_MERGED then
           (EQ_RESULT_OK, event_queue_signal q)
         else if result = RQ_RESULT_DROPPED then
           if event_queue_is_tick event then (EQ_RESULT_DROPPED, q)
           else
             let (replaced, ring) = ring_queue_replace_first_if event_queue_match_tick event (eq_ring q);
                 q = q\<lparr>eq_ring := ring\<rparr>
             in if replaced then
                  (EQ_RESULT_REPLACED, event_queue_signal (q\<lparr>replaced_ticks := replaced_ticks q + 1\<rparr>))
                else (EQ_RESULT_DROPPED, q\<lparr>dropped_critical := dropped_critical q + 1\<rparr>)
         else (EQ_RESULT_ERR, q))"

definition event_queue_try_pop :: "event_queue \<Rightarrow> app_event option \<times> event_queue" where
  "event_queue_try_pop q =
     (let (out, ring) = ring_queue_pop (eq_ring q) in (out, q\<lparr>eq_ring := ring\<rparr>))"

section \<open>The specification\<close>

definition eq_items :: "event_queue \<Rightarrow> app_event list" where
  "eq_items q = rq_items (eq_ring q)"

definition eq_ok :: "event_queue \<Rightarrow> bool" where
  [wf_defs]: "eq_ok q \<longleftrightarrow> rq_ok (eq_ring q) \<and> policy (eq_ring q) = RQ_COALESCE \<and>
     merge_fn (eq_ring q) = Some event_queue_merge_tick \<and>
     length (filter event_queue_is_tick (eq_items q)) \<le> 1"

definition eq_cap :: "event_queue \<Rightarrow> nat" where
  "eq_cap q = capacity (eq_ring q)"

text \<open>What a push does to the queued events.\<close>

definition push_event :: "nat \<Rightarrow> app_event \<Rightarrow> app_event list \<Rightarrow> event_queue_result \<times> app_event list" where
  "push_event cap e xs =
     (case first_index event_queue_is_tick xs of
        Some i \<Rightarrow>
          if event_queue_is_tick e then
            (EQ_RESULT_OK, xs[i := (xs ! i)\<lparr>evt_data := evt_data (xs ! i) + evt_data e,
               evt_timestamp_ns := evt_timestamp_ns e\<rparr>])
          else if length xs < cap then (EQ_RESULT_OK, xs @ [e])
          else (EQ_RESULT_REPLACED, xs[i := e])
      | None \<Rightarrow> if length xs < cap then (EQ_RESULT_OK, xs @ [e]) else (EQ_RESULT_DROPPED, xs))"

lemma merged_tick:
  assumes "eq_ok q"
  shows "merged_list (eq_ring q) e xs =
    (if event_queue_is_tick e
     then map_option (\<lambda>i. xs[i := (xs ! i)\<lparr>evt_data := evt_data (xs ! i) + evt_data e,
       evt_timestamp_ns := evt_timestamp_ns e\<rparr>]) (first_index event_queue_is_tick xs)
     else None)"
proof (cases "event_queue_is_tick e")
  case False
  have "first_index (\<lambda>x. event_queue_merge_tick x e \<noteq> None) xs = None"
    using False by (simp add: first_index_None event_queue_merge_tick_def event_queue_is_tick_def list_all_iff)
  then show ?thesis using False assms by (simp add: merged_list_def eq_ok_def update_list_def)
next
  case True
  then have "(\<lambda>x. event_queue_merge_tick x e \<noteq> None) = event_queue_is_tick"
    by (auto simp: event_queue_merge_tick_def event_queue_is_tick_def)
  then show ?thesis
    using True assms first_index_Some[of event_queue_is_tick xs]
    by (cases "first_index event_queue_is_tick xs")
      (auto simp: merged_list_def eq_ok_def update_list_def event_queue_merge_tick_def
        event_queue_is_tick_def)
qed

lemma push_event_refines:
  assumes "eq_ok q"
  shows "(fst (event_queue_push e q), eq_items (snd (event_queue_push e q))) = push_event (eq_cap q) e (eq_items q)"
    and "rq_ok (eq_ring (snd (event_queue_push e q)))"
    and "eq_cap (snd (event_queue_push e q)) = eq_cap q"
    and "policy (eq_ring (snd (event_queue_push e q))) = policy (eq_ring q)"
    and "merge_fn (eq_ring (snd (event_queue_push e q))) = merge_fn (eq_ring q)"
proof -
  let ?r = "ring_queue_push e (eq_ring q)"
  have ok: "rq_ok (eq_ring q)" and pol: "policy (eq_ring q) = RQ_COALESCE" using assms by (simp_all add: eq_ok_def)
  note p = push_refines[OF ok, of e] and m = merged_tick[OF assms, of e "rq_items (eq_ring q)"]
  note rep = replace_refines[OF p(2), of event_queue_match_tick e]
  have t: "event_queue_match_tick = event_queue_is_tick"
    by (simp add: fun_eq_iff event_queue_match_tick_def event_queue_is_tick_def)
  obtain r ring where r: "?r = (r, ring)" by (cases ?r)
  have "fst (event_queue_push e q) = fst (push_event (eq_cap q) e (eq_items q)) \<and>
    eq_items (snd (event_queue_push e q)) = snd (push_event (eq_cap q) e (eq_items q)) \<and>
    rq_ok (eq_ring (snd (event_queue_push e q)))"
    using p m rep pol
    by (auto simp: event_queue_push_def push_event_def push_spec_def eq_items_def eq_cap_def t r
        event_queue_signal_def Let_def case_prod_beta split: option.splits if_splits)
  then show "(fst (event_queue_push e q), eq_items (snd (event_queue_push e q))) = push_event (eq_cap q) e (eq_items q)"
    and "rq_ok (eq_ring (snd (event_queue_push e q)))" by (simp_all add: prod_eq_iff)
  show "eq_cap (snd (event_queue_push e q)) = eq_cap q"
    "policy (eq_ring (snd (event_queue_push e q))) = policy (eq_ring q)"
    "merge_fn (eq_ring (snd (event_queue_push e q))) = merge_fn (eq_ring q)"
    by (simp_all add: event_queue_push_def eq_cap_def event_queue_signal_def Let_def case_prod_beta)
qed

lemma try_pop_refines:
  assumes "eq_ok q"
  shows "fst (event_queue_try_pop q) = (case eq_items q of [] \<Rightarrow> None | x # xs \<Rightarrow> Some x)"
    and "eq_items (snd (event_queue_try_pop q)) = tl (eq_items q)"
    and "eq_ok (snd (event_queue_try_pop q))"
proof -
  have ok: "rq_ok (eq_ring q)" using assms by (simp add: eq_ok_def)
  note p = pop_refines[OF ok]
  show "fst (event_queue_try_pop q) = (case eq_items q of [] \<Rightarrow> None | x # xs \<Rightarrow> Some x)"
    and i: "eq_items (snd (event_queue_try_pop q)) = tl (eq_items q)"
    using p(1) by (auto simp: event_queue_try_pop_def eq_items_def case_prod_beta split: list.splits)
  have "length (filter event_queue_is_tick (tl (eq_items q))) \<le> length (filter event_queue_is_tick (eq_items q))"
    by (cases "eq_items q") simp_all
  then show "eq_ok (snd (event_queue_try_pop q))"
    using assms p(2) i by (auto simp: eq_ok_def event_queue_try_pop_def case_prod_beta eq_items_def)
qed

lemma init_events:
  fixes q :: event_queue and z :: app_event
  assumes "0 < cap"
  defines "q' \<equiv> snd (event_queue_init True z cap q)"
  shows "fst (event_queue_init True z cap q) = 0" and "eq_ok q'" and "eq_items q' = []" and "eq_cap q' = cap"
    and "\<not> eq_closed q'" and "eq_seq q' = 0"
proof -
  note i = init_refines[of cap 24 z "zero_ring_queue :: app_event ring_queue", OF assms(1)]
  have e: "event_queue_init True z cap q =
    (0, \<lparr>eq_ring = (snd (ring_queue_init True z cap 24 zero_ring_queue))\<lparr>policy := RQ_COALESCE,
       merge_fn := Some event_queue_merge_tick\<rparr>, replaced_ticks = 0, dropped_critical = 0,
       eq_seq = 0, eq_closed = False\<rparr>)"
    using assms(1) i by (simp add: event_queue_init_def zero_event_queue_def Let_def case_prod_beta
        ring_queue_set_overflow_policy_def ring_queue_set_merge_fn_def)
  show "fst (event_queue_init True z cap q) = 0" "\<not> eq_closed q'" "eq_seq q' = 0" by (simp_all add: q'_def e)
  show items: "eq_items q' = []" and "eq_cap q' = cap" and "eq_ok q'"
    using i by (simp_all add: q'_def e eq_items_def eq_cap_def eq_ok_def rq_ok_def rq_items_def ring_items_def
        ring_ok_def ring.truncate_def)
qed

text \<open>The first tick of a list, and the list without it.\<close>

lemma first_tick_split:
  assumes "first_index P xs = Some i"
  obtains us x vs where "xs = us @ x # vs" "P x" "\<forall>u \<in> set us. \<not> P u" "i = length us"
    "\<And>y. xs[i := y] = us @ y # vs" "xs ! i = x"
proof -
  note f = first_index_Some[OF assms]
  have x: "xs = take i xs @ xs ! i # drop (Suc i) xs" using f by (simp add: id_take_nth_drop)
  have "\<forall>u \<in> set (take i xs). \<not> P u" using f by (auto simp: in_set_conv_nth)
  then show ?thesis using that[of "take i xs" "xs ! i" "drop (Suc i) xs"] f x
    by (simp add: upd_conv_take_nth_drop)
qed

section \<open>Runs\<close>

text \<open>Events other than ticks, and the time that ticks carry.\<close>

definition critical :: "app_event list \<Rightarrow> app_event list" where
  "critical xs = filter (\<lambda>e. \<not> event_queue_is_tick e) xs"

definition tick_data :: "app_event list \<Rightarrow> u32" where
  "tick_data xs = sum_list (map evt_data (filter event_queue_is_tick xs))"

lemma critical_simps [simp]:
  "critical [] = []" "critical (xs @ ys) = critical xs @ critical ys"
  "critical (x # xs) = (if event_queue_is_tick x then critical xs else x # critical xs)"
  by (simp_all add: critical_def)

lemma tick_data_simps [simp]:
  "tick_data [] = 0" "tick_data (xs @ ys) = tick_data xs + tick_data ys"
  "tick_data (x # xs) = (if event_queue_is_tick x then evt_data x + tick_data xs else tick_data xs)"
  by (simp_all add: tick_data_def)

definition accepted :: "event_queue_result \<Rightarrow> bool" where
  "accepted r \<longleftrightarrow> r = EQ_RESULT_OK \<or> r = EQ_RESULT_REPLACED"

lemma push_event_effect:
  assumes "push_event cap e xs = (r, ys)" and "length (filter event_queue_is_tick xs) \<le> 1"
    and "length xs \<le> cap" and "0 < cap"
  shows "length (filter event_queue_is_tick ys) \<le> 1" and "length ys \<le> cap"
    and "accepted r \<Longrightarrow> mset (critical ys) = mset (critical xs) + mset (critical [e])"
    and "\<not> accepted r \<Longrightarrow> ys = xs"
    and "r = EQ_RESULT_OK \<Longrightarrow> critical ys = critical xs @ critical [e] \<and> tick_data ys = tick_data xs + tick_data [e]"
    and "r = EQ_RESULT_DROPPED \<Longrightarrow> length xs = cap \<and> list_all (\<lambda>x. \<not> event_queue_is_tick x) xs"
    and "xs \<noteq> [] \<Longrightarrow> ys \<noteq> []" and "r \<noteq> EQ_RESULT_ERR" and "accepted r \<Longrightarrow> ys \<noteq> []"
proof -
  have "length (filter event_queue_is_tick ys) \<le> 1 \<and> length ys \<le> cap \<and>
    (accepted r \<longrightarrow> mset (critical ys) = mset (critical xs) + mset (critical [e])) \<and>
    (\<not> accepted r \<longrightarrow> ys = xs) \<and>
    (r = EQ_RESULT_OK \<longrightarrow> critical ys = critical xs @ critical [e] \<and> tick_data ys = tick_data xs + tick_data [e]) \<and>
    (r = EQ_RESULT_DROPPED \<longrightarrow> length xs = cap \<and> list_all (\<lambda>x. \<not> event_queue_is_tick x) xs) \<and>
    (xs \<noteq> [] \<longrightarrow> ys \<noteq> []) \<and> r \<noteq> EQ_RESULT_ERR \<and> (accepted r \<longrightarrow> ys \<noteq> [])"
  proof (cases "first_index event_queue_is_tick xs")
    case None
    then have "list_all (\<lambda>x. \<not> event_queue_is_tick x) xs" by (simp add: first_index_None)
    moreover from this have "filter event_queue_is_tick xs = []" by (simp add: list_all_iff filter_empty_conv)
    ultimately show ?thesis using assms None by (auto simp: push_event_def accepted_def split: if_splits)
  next
    case (Some i)
    show ?thesis
    proof (rule first_tick_split[OF Some])
      fix us x vs
      assume x: "xs = us @ x # vs" "event_queue_is_tick x" "\<forall>u \<in> set us. \<not> event_queue_is_tick u"
        "i = length us" and u: "\<And>y. xs[i := y] = us @ y # vs" and n: "xs ! i = x"
      show ?thesis using assms Some x(1,2,4)
        by (auto simp: push_event_def accepted_def u n event_queue_is_tick_def split: if_splits)
    qed
  qed
  then show "length (filter event_queue_is_tick ys) \<le> 1" "length ys \<le> cap"
    "accepted r \<Longrightarrow> mset (critical ys) = mset (critical xs) + mset (critical [e])"
    "\<not> accepted r \<Longrightarrow> ys = xs"
    "r = EQ_RESULT_OK \<Longrightarrow> critical ys = critical xs @ critical [e] \<and> tick_data ys = tick_data xs + tick_data [e]"
    "r = EQ_RESULT_DROPPED \<Longrightarrow> length xs = cap \<and> list_all (\<lambda>x. \<not> event_queue_is_tick x) xs"
    "xs \<noteq> [] \<Longrightarrow> ys \<noteq> []" "r \<noteq> EQ_RESULT_ERR" "accepted r \<Longrightarrow> ys \<noteq> []" by simp_all
qed

text \<open>The operations of a run, the log of the pushes, and the events popped.\<close>

datatype eq_op = Eq_Push app_event | Eq_Pop

fun eq_run :: "eq_op list \<Rightarrow> event_queue \<Rightarrow>
    (app_event \<times> event_queue_result) list \<times> app_event list \<times> event_queue" where
  "eq_run [] q = ([], [], q)"
| "eq_run (Eq_Push e # ops) q =
     (let (r, q) = event_queue_push e q;
          (pushed, out, q) = eq_run ops q
      in ((e, r) # pushed, out, q))"
| "eq_run (Eq_Pop # ops) q =
     (let (x, q) = event_queue_try_pop q;
          (pushed, out, q) = eq_run ops q
      in (pushed, (case x of Some e \<Rightarrow> e # out | None \<Rightarrow> out), q))"

definition taken :: "(app_event \<times> event_queue_result) list \<Rightarrow> app_event list" where
  "taken pushed = map fst (filter (\<lambda>p. accepted (snd p)) pushed)"

lemma eq_ok_bounds:
  "eq_ok q \<Longrightarrow> length (eq_items q) \<le> eq_cap q \<and> 0 < eq_cap q \<and> length (filter event_queue_is_tick (eq_items q)) \<le> 1"
  by (simp add: eq_ok_def rq_ok_def ring_ok_def eq_items_def eq_cap_def)

lemma push_effect:
  assumes "eq_ok q" and "event_queue_push e q = (r, q')"
  shows "eq_ok q'" and "eq_cap q' = eq_cap q" and "push_event (eq_cap q) e (eq_items q) = (r, eq_items q')"
proof -
  note p = push_event_refines[OF assms(1), of e]
  show s: "push_event (eq_cap q) e (eq_items q) = (r, eq_items q')" and "eq_cap q' = eq_cap q"
    using p assms(2) by (simp_all add: eq_commute)
  show "eq_ok q'" using p assms push_event_effect(1)[OF s] eq_ok_bounds[OF assms(1)] by (simp add: eq_ok_def)
qed

lemma eq_run_ok:
  "eq_ok q \<Longrightarrow> eq_run ops q = (pushed, out, q') \<Longrightarrow>
   eq_ok q' \<and> eq_cap q' = eq_cap q \<and>
   mset (critical (eq_items q @ taken pushed)) = mset (critical (out @ eq_items q')) \<and>
   (EQ_RESULT_REPLACED \<notin> snd ` set pushed \<longrightarrow>
     critical (eq_items q @ taken pushed) = critical (out @ eq_items q') \<and>
     tick_data (eq_items q @ taken pushed) = tick_data (out @ eq_items q'))"
proof (induction ops arbitrary: q pushed out)
  case (Cons p ops)
  show ?case
  proof (cases p)
    case (Eq_Push e)
    obtain r q1 where q1: "event_queue_push e q = (r, q1)" by (cases "event_queue_push e q")
    obtain ps where ps: "pushed = (e, r) # ps" "eq_run ops q1 = (ps, out, q')"
      using Cons.prems(2) Eq_Push q1 by (auto split: prod.splits)
    note f = push_effect[OF Cons.prems(1) q1]
    note b = eq_ok_bounds[OF Cons.prems(1)]
    note g = push_event_effect[OF f(3), OF conjunct2[OF conjunct2[OF b]] conjunct1[OF b] conjunct1[OF conjunct2[OF b]]]
    show ?thesis
      using Cons.IH[OF f(1) ps(2)] f(2) g(3-5,8) ps(1)
      by (cases r) (auto simp: taken_def accepted_def add.assoc)
  next
    case Eq_Pop
    obtain x q1 where q1: "event_queue_try_pop q = (x, q1)" by (cases "event_queue_try_pop q")
    obtain out' where o': "out = (case x of Some e \<Rightarrow> e # out' | None \<Rightarrow> out')" "eq_run ops q1 = (pushed, out', q')"
      using Cons.prems(2) Eq_Pop q1 by (auto split: prod.splits)
    have "eq_cap q1 = eq_cap q" using q1 by (auto simp: event_queue_try_pop_def eq_cap_def case_prod_beta)
    then show ?thesis
      using try_pop_refines[OF Cons.prems(1)] q1 Cons.IH[OF _ o'(2)] o'(1)
      by (cases "eq_items q") auto
  qed
qed (simp add: taken_def)

end
