(* ===== verification/Event_Wait.thy ===== *)
theory Event_Wait
  imports App_Events
begin

text \<open>
  Two threads at the event queue (\<open>event_queue_wait\<close>, \<open>event_queue_push\<close> and
  \<open>event_queue_close\<close> of \<open>src_adr0005/event_queue.c\<close>, \<open>ui_thread_main\<close> and \<open>ui_thread_stop\<close> of
  \<open>src_adr0005/ui_thread.c\<close>): the main thread pushes events and at last stops the user
  interface thread, which waits for events. Each access to a shared variable is a step of its
  own; the operations of the ring buffer are one step, as they hold its mutex. The atomics
  are sequentially consistent (the default of C).
\<close>

section \<open>The two threads\<close>

text \<open>
  Where the user interface thread is. A number is its local \<open>seq\<close>. The states from
  \<open>Locked_Pop\<close> to \<open>Wait_Unlock\<close> hold \<open>wait_lock\<close>, except for \<open>Timed_Blocked\<close>, inside
  \<open>pthread_cond_wait\<close>, and \<open>Timed_Relock\<close>, woken up there (with true after a time-out).
\<close>

datatype wait_next = Again u64 | Return "app_event option"

datatype ui_pc =
    Ui_Loop
  | Wait_Enter
  | Wait_Pop u64
  | Wait_Closed u64
  | Wait_Lock u64
  | Locked_Pop u64
  | Locked_Closed u64
  | Locked_Seq u64
  | Locked_Reload
  | Timed_Seq u64
  | Timed_Closed u64
  | Timed_Blocked u64
  | Timed_Relock u64 bool
  | Timed_Done bool
  | Wait_Unlock wait_next
  | Wait_Return "app_event option"
  | Ui_Handle app_event
  | Ui_Exit

text \<open>Where the main thread is; the flag says that it is inside \<open>event_queue_close\<close>.\<close>

datatype main_pc =
    Main_Idle
  | Push_Ring app_event
  | Push_Replace app_event
  | Stop_Closed
  | Add_Seq bool
  | Take_Lock bool
  | Send_Signal bool
  | Drop_Lock bool
  | Joining

datatype holder = By_Ui | By_Main

record ui_sys =
  sys_eq :: event_queue
  wait_lock :: "holder option"
  ui_running :: bool
  ui_pc :: ui_pc
  main_pc :: main_pc

section \<open>The user interface thread\<close>

text \<open>
  \<open>tmo\<close> is the argument \<open>timeout_ms\<close>; \<open>woken\<close> says how a wait ends, by a wake-up without
  reason or, for a wait with a time-out, by the time-out. \<open>None\<close> means that the thread cannot
  go on.
\<close>

definition ui_lock :: "ui_pc \<Rightarrow> ui_sys \<Rightarrow> ui_sys option" where
  "ui_lock pc s = (if wait_lock s = None then Some (s\<lparr>wait_lock := Some By_Ui, ui_pc := pc\<rparr>) else None)"

definition ui_unlock :: "ui_pc \<Rightarrow> ui_sys \<Rightarrow> ui_sys" where
  "ui_unlock pc s = s\<lparr>wait_lock := None, ui_pc := pc\<rparr>"

definition ui_pop :: "(app_event \<Rightarrow> ui_pc) \<Rightarrow> ui_pc \<Rightarrow> ui_sys \<Rightarrow> ui_sys" where
  "ui_pop some_pc none_pc s =
     (let (x, q) = event_queue_try_pop (sys_eq s)
      in s\<lparr>sys_eq := q, ui_pc := (case x of Some e \<Rightarrow> some_pc e | None \<Rightarrow> none_pc)\<rparr>)"

text \<open>The loop of \<open>ui_thread_main\<close> around the waiting.\<close>

definition ui_thread_main :: "ui_pc \<Rightarrow> ui_sys \<Rightarrow> ui_pc" where
  [simp]: "ui_thread_main pc s =
     (case pc of
        Ui_Loop \<Rightarrow> if ui_running s then Wait_Enter else Ui_Exit
      | Wait_Return None \<Rightarrow> if \<not> ui_running s then Ui_Exit else Ui_Loop
      | Wait_Return (Some e) \<Rightarrow> Ui_Handle e
      | Ui_Handle e \<Rightarrow> if evt_type e = EVT_SHUTDOWN then Ui_Exit else Ui_Loop
      | pc \<Rightarrow> pc)"

fun ui_next :: "int \<Rightarrow> bool \<Rightarrow> ui_pc \<Rightarrow> ui_sys \<Rightarrow> ui_sys option" where
  "ui_next tmo w Ui_Loop s = Some (s\<lparr>ui_pc := ui_thread_main Ui_Loop s\<rparr>)"
| "ui_next tmo w Wait_Enter s = Some (s\<lparr>ui_pc := Wait_Pop (eq_seq (sys_eq s))\<rparr>)"
| "ui_next tmo w (Wait_Pop n) s = Some (ui_pop (\<lambda>e. Wait_Return (Some e)) (Wait_Closed n) s)"
| "ui_next tmo w (Wait_Closed n) s =
     Some (s\<lparr>ui_pc := (if eq_closed (sys_eq s) then Wait_Return None
                       else if tmo = 0 then Wait_Return None else Wait_Lock n)\<rparr>)"
| "ui_next tmo w (Wait_Lock n) s = ui_lock (Locked_Pop n) s"
| "ui_next tmo w (Locked_Pop n) s =
     Some (ui_pop (\<lambda>e. Wait_Unlock (Return (Some e))) (Locked_Closed n) s)"
| "ui_next tmo w (Locked_Closed n) s =
     Some (s\<lparr>ui_pc := (if eq_closed (sys_eq s) then Wait_Unlock (Return None) else Locked_Seq n)\<rparr>)"
| "ui_next tmo w (Locked_Seq n) s =
     Some (s\<lparr>ui_pc := (if eq_seq (sys_eq s) \<noteq> n then Locked_Reload else Timed_Seq n)\<rparr>)"
| "ui_next tmo w Locked_Reload s = Some (s\<lparr>ui_pc := Wait_Unlock (Again (eq_seq (sys_eq s)))\<rparr>)"
| "ui_next tmo w (Timed_Seq n) s =
     Some (s\<lparr>ui_pc := (if eq_seq (sys_eq s) = n then Timed_Closed n else Timed_Done False)\<rparr>)"
| "ui_next tmo w (Timed_Closed n) s =
     Some (if \<not> eq_closed (sys_eq s) then ui_unlock (Timed_Blocked n) s
           else s\<lparr>ui_pc := Timed_Done False\<rparr>)"
| "ui_next tmo w (Timed_Blocked n) s = Some (s\<lparr>ui_pc := Timed_Relock n (w \<and> 0 \<le> tmo)\<rparr>)"
| "ui_next tmo w (Timed_Relock n timed_out) s =
     ui_lock (if timed_out then Timed_Done True else Timed_Seq n) s"
| "ui_next tmo w (Timed_Done timed_out) s =
     Some (s\<lparr>ui_pc := Wait_Unlock (if timed_out then Return None else Again (eq_seq (sys_eq s)))\<rparr>)"
| "ui_next tmo w (Wait_Unlock nxt) s =
     Some (ui_unlock (case nxt of Again n \<Rightarrow> Wait_Pop n | Return x \<Rightarrow> Wait_Return x) s)"
| "ui_next tmo w (Wait_Return None) s =
     Some (s\<lparr>ui_pc := ui_thread_main (Wait_Return None) s\<rparr>)"
| "ui_next tmo w (Wait_Return (Some e)) s = Some (s\<lparr>ui_pc := ui_thread_main (Wait_Return (Some e)) s\<rparr>)"
| "ui_next tmo w (Ui_Handle e) s =
     Some (s\<lparr>ui_pc := ui_thread_main (Ui_Handle e) s\<rparr>)"
| "ui_next tmo w Ui_Exit s = None"

section \<open>The main thread\<close>

text \<open>The first steps of a call, the steps inside it.\<close>

definition begin_push :: "app_event \<Rightarrow> ui_sys \<Rightarrow> ui_sys" where
  "begin_push e s = s\<lparr>main_pc := Push_Ring e\<rparr>"

definition begin_stop :: "ui_sys \<Rightarrow> ui_sys" where
  "begin_stop s = s\<lparr>ui_running := False, main_pc := Stop_Closed\<rparr>"

definition push_ring :: "app_event \<Rightarrow> ui_sys \<Rightarrow> ui_sys" where
  "push_ring e s =
     (let (result, ring) = ring_queue_push e (eq_ring (sys_eq s));
          s = s\<lparr>sys_eq := (sys_eq s)\<lparr>eq_ring := ring\<rparr>\<rparr>
      in if result = RQ_RESULT_OK \<or> result = RQ_RESULT_MERGED then s\<lparr>main_pc := Add_Seq False\<rparr>
         else if result = RQ_RESULT_DROPPED then
           if event_queue_is_tick e then s\<lparr>main_pc := Main_Idle\<rparr>
           else s\<lparr>main_pc := Push_Replace e\<rparr>
         else s\<lparr>main_pc := Main_Idle\<rparr>)"

definition push_replace :: "app_event \<Rightarrow> ui_sys \<Rightarrow> ui_sys" where
  "push_replace e s =
     (let (replaced, ring) = ring_queue_replace_first_if event_queue_match_tick e (eq_ring (sys_eq s));
          q = (sys_eq s)\<lparr>eq_ring := ring\<rparr>
      in if replaced then s\<lparr>sys_eq := q\<lparr>replaced_ticks := replaced_ticks q + 1\<rparr>, main_pc := Add_Seq False\<rparr>
         else s\<lparr>sys_eq := q\<lparr>dropped_critical := dropped_critical q + 1\<rparr>, main_pc := Main_Idle\<rparr>)"

text \<open>A signal wakes the user interface thread if it is waiting then.\<close>

definition send_signal :: "bool \<Rightarrow> ui_sys \<Rightarrow> ui_sys" where
  "send_signal closing s =
     s\<lparr>ui_pc := (case ui_pc s of Timed_Blocked n \<Rightarrow> Timed_Relock n False | pc \<Rightarrow> pc),
       main_pc := Drop_Lock closing\<rparr>"

fun main_next :: "main_pc \<Rightarrow> ui_sys \<Rightarrow> ui_sys option" where
  "main_next Main_Idle s = None"
| "main_next (Push_Ring e) s = Some (push_ring e s)"
| "main_next (Push_Replace e) s = Some (push_replace e s)"
| "main_next Stop_Closed s = Some (s\<lparr>sys_eq := (sys_eq s)\<lparr>eq_closed := True\<rparr>, main_pc := Add_Seq True\<rparr>)"
| "main_next (Add_Seq closing) s =
     Some (s\<lparr>sys_eq := event_queue_signal (sys_eq s), main_pc := Take_Lock closing\<rparr>)"
| "main_next (Take_Lock closing) s =
     (if wait_lock s = None then Some (s\<lparr>wait_lock := Some By_Main, main_pc := Send_Signal closing\<rparr>)
      else None)"
| "main_next (Send_Signal closing) s = Some (send_signal closing s)"
| "main_next (Drop_Lock closing) s =
     Some (s\<lparr>wait_lock := None, main_pc := (if closing then Joining else Main_Idle)\<rparr>)"
| "main_next Joining s = None"

section \<open>Runs\<close>

text \<open>
  The threads in any order, from an empty queue on; the number counts the increments of the
  shared counter.
\<close>

inductive ui_reachable :: "int \<Rightarrow> nat \<Rightarrow> ui_sys \<Rightarrow> bool" for tmo :: int where
  start: "eq_ok q \<Longrightarrow> eq_items q = [] \<Longrightarrow> eq_seq q = 0 \<Longrightarrow> \<not> eq_closed q \<Longrightarrow>
    ui_reachable tmo 0 \<lparr>sys_eq = q, wait_lock = None, ui_running = True, ui_pc = Ui_Loop, main_pc = Main_Idle\<rparr>"
| ui: "ui_reachable tmo n s \<Longrightarrow> ui_next tmo w (ui_pc s) s = Some s' \<Longrightarrow> ui_reachable tmo n s'"
| push: "ui_reachable tmo n s \<Longrightarrow> main_pc s = Main_Idle \<Longrightarrow> ui_reachable tmo n (begin_push e s)"
| stop: "ui_reachable tmo n s \<Longrightarrow> main_pc s = Main_Idle \<Longrightarrow> ui_reachable tmo n (begin_stop s)"
| main: "ui_reachable tmo n s \<Longrightarrow> main_next (main_pc s) s = Some s' \<Longrightarrow>
    ui_reachable tmo (case main_pc s of Add_Seq c \<Rightarrow> Suc n | _ \<Rightarrow> n) s'"

section \<open>The invariant\<close>

fun holds_lock :: "ui_pc \<Rightarrow> bool" where
  "holds_lock (Locked_Pop n) = True"
| "holds_lock (Locked_Closed n) = True"
| "holds_lock (Locked_Seq n) = True"
| "holds_lock Locked_Reload = True"
| "holds_lock (Timed_Seq n) = True"
| "holds_lock (Timed_Closed n) = True"
| "holds_lock (Timed_Done b) = True"
| "holds_lock (Wait_Unlock r) = True"
| "holds_lock _ = False"

fun main_holds :: "main_pc \<Rightarrow> bool" where
  "main_holds (Send_Signal c) = True"
| "main_holds (Drop_Lock c) = True"
| "main_holds _ = False"

fun local_seq :: "ui_pc \<Rightarrow> u64 option" where
  "local_seq (Wait_Pop n) = Some n"
| "local_seq (Wait_Closed n) = Some n"
| "local_seq (Wait_Lock n) = Some n"
| "local_seq (Locked_Pop n) = Some n"
| "local_seq (Locked_Closed n) = Some n"
| "local_seq (Locked_Seq n) = Some n"
| "local_seq (Timed_Seq n) = Some n"
| "local_seq (Timed_Closed n) = Some n"
| "local_seq (Timed_Blocked n) = Some n"
| "local_seq (Timed_Relock n b) = Some n"
| "local_seq (Wait_Unlock (Again n)) = Some n"
| "local_seq _ = None"

text \<open>The queue was found empty under the lock, and not closed; the thread is about to sleep.\<close>

fun found_empty :: "ui_pc \<Rightarrow> bool" where
  "found_empty (Locked_Closed n) = True"
| "found_empty (Locked_Seq n) = True"
| "found_empty (Timed_Seq n) = True"
| "found_empty (Timed_Closed n) = True"
| "found_empty (Timed_Blocked n) = True"
| "found_empty (Timed_Relock n b) = True"
| "found_empty _ = False"

fun found_open :: "ui_pc \<Rightarrow> bool" where
  "found_open (Locked_Closed n) = False"
| "found_open pc = found_empty pc"

fun going_to_sleep :: "ui_pc \<Rightarrow> bool" where
  "going_to_sleep (Timed_Closed n) = True"
| "going_to_sleep (Timed_Blocked n) = True"
| "going_to_sleep _ = False"

fun stopping :: "main_pc \<Rightarrow> bool" where
  "stopping Stop_Closed = True"
| "stopping (Add_Seq c) = c"
| "stopping (Take_Lock c) = c"
| "stopping (Send_Signal c) = c"
| "stopping (Drop_Lock c) = c"
| "stopping Joining = True"
| "stopping _ = False"

definition lock_inv :: "ui_sys \<Rightarrow> bool" where
  [wf_defs]: "lock_inv s \<longleftrightarrow>
     wait_lock s = (if holds_lock (ui_pc s) then Some By_Ui
       else if main_holds (main_pc s) then Some By_Main else None) \<and>
     \<not> (holds_lock (ui_pc s) \<and> main_holds (main_pc s))"

definition queue_inv :: "ui_sys \<Rightarrow> bool" where
  [wf_defs]: "queue_inv s \<longleftrightarrow> eq_ok (sys_eq s) \<and>
     (\<forall>e. main_pc s = Push_Replace e \<longrightarrow> \<not> event_queue_is_tick e) \<and>
     (eq_closed (sys_eq s) \<longleftrightarrow> stopping (main_pc s) \<and> main_pc s \<noteq> Stop_Closed) \<and>
     (\<not> ui_running s \<longleftrightarrow> stopping (main_pc s))"

definition seq_inv :: "nat \<Rightarrow> ui_sys \<Rightarrow> bool" where
  [wf_defs]: "seq_inv n s \<longleftrightarrow> unat (eq_seq (sys_eq s)) = n \<and> (\<forall>m. local_seq (ui_pc s) = Some m \<longrightarrow> unat m \<le> n)"

definition wake_inv :: "ui_sys \<Rightarrow> bool" where
  [wf_defs]: "wake_inv s \<longleftrightarrow>
     (local_seq (ui_pc s) = Some (eq_seq (sys_eq s)) \<longrightarrow>
       (found_empty (ui_pc s) \<and> eq_items (sys_eq s) \<noteq> [] \<longrightarrow> (\<exists>c. main_pc s = Add_Seq c)) \<and>
       (found_open (ui_pc s) \<and> eq_closed (sys_eq s) \<longrightarrow> main_pc s = Add_Seq True)) \<and>
     (local_seq (ui_pc s) \<noteq> Some (eq_seq (sys_eq s)) \<and> going_to_sleep (ui_pc s) \<longrightarrow>
       (\<exists>c. main_pc s = Take_Lock c \<or> main_pc s = Send_Signal c))"

definition wait_inv :: "nat \<Rightarrow> ui_sys \<Rightarrow> bool" where
  [wf_defs]: "wait_inv n s \<longleftrightarrow> lock_inv s \<and> queue_inv s \<and> seq_inv n s \<and> wake_inv s"

lemma try_pop_frame [simp]:
  "eq_seq (snd (event_queue_try_pop q)) = eq_seq q" "eq_closed (snd (event_queue_try_pop q)) = eq_closed q"
  by (simp_all add: event_queue_try_pop_def case_prod_beta)

lemma lock_inv_ui: "lock_inv s \<Longrightarrow> ui_next tmo w (ui_pc s) s = Some s' \<Longrightarrow> lock_inv s'"
  by (cases "(tmo, w, ui_pc s, s)" rule: ui_next.cases)
    (clarsimp simp: lock_inv_def ui_lock_def ui_unlock_def ui_pop_def case_prod_beta
      split: if_split_asm option.split wait_next.split)+

lemma seq_inv_ui: "seq_inv n s \<Longrightarrow> ui_next tmo w (ui_pc s) s = Some s' \<Longrightarrow> seq_inv n s'"
  by (cases "(tmo, w, ui_pc s, s)" rule: ui_next.cases)
    (clarsimp simp: seq_inv_def ui_lock_def ui_unlock_def ui_pop_def case_prod_beta
      split: if_split_asm option.split wait_next.split)+

lemma queue_inv_ui: "queue_inv s \<Longrightarrow> ui_next tmo w (ui_pc s) s = Some s' \<Longrightarrow> queue_inv s'"
  by (cases "(tmo, w, ui_pc s, s)" rule: ui_next.cases)
    (clarsimp simp: queue_inv_def ui_lock_def ui_unlock_def ui_pop_def case_prod_beta try_pop_refines
      split: if_split_asm option.split wait_next.split)+

lemma wake_inv_ui:
  assumes "wake_inv s" and "queue_inv s" and "ui_next tmo w (ui_pc s) s = Some s'"
  shows "wake_inv s'"
proof (cases "\<exists>n. ui_pc s = Locked_Pop n")
  case True
  then obtain n where n: "ui_pc s = Locked_Pop n" by blast
  have ok: "eq_ok (sys_eq s)" using assms(2) by (simp add: queue_inv_def)
  show ?thesis using assms(3) n
    by (cases "eq_items (sys_eq s)")
      (auto simp: wake_inv_def ui_pop_def case_prod_beta try_pop_refines[OF ok])
next
  case False
  then show ?thesis
    using assms(1,3)
    by (cases "(tmo, w, ui_pc s, s)" rule: ui_next.cases)
      (clarsimp simp: wake_inv_def ui_lock_def ui_unlock_def ui_pop_def case_prod_beta
        split: if_split_asm option.split wait_next.split)+
qed

text \<open>The steps of the main thread.\<close>

lemma eq_ok_cong [simp]:
  "eq_ok (q\<lparr>eq_seq := n\<rparr>) = eq_ok q" "eq_ok (q\<lparr>eq_closed := b\<rparr>) = eq_ok q"
  "eq_ok (q\<lparr>replaced_ticks := r\<rparr>) = eq_ok q" "eq_ok (q\<lparr>dropped_critical := r\<rparr>) = eq_ok q"
  "eq_items (q\<lparr>eq_seq := n\<rparr>) = eq_items q" "eq_items (q\<lparr>eq_closed := b\<rparr>) = eq_items q"
  "eq_items (q\<lparr>replaced_ticks := r\<rparr>) = eq_items q" "eq_items (q\<lparr>dropped_critical := r\<rparr>) = eq_items q"
  by (simp_all add: eq_ok_def eq_items_def)

lemma push_ring_cases:
  assumes "queue_inv s" and "main_pc s = Push_Ring e"
  obtains (pushed) q where "push_ring e s = s\<lparr>sys_eq := q, main_pc := Add_Seq False\<rparr>" "eq_ok q"
      "eq_seq q = eq_seq (sys_eq s)" "eq_closed q = eq_closed (sys_eq s)"
  | (full) pc q where "push_ring e s = s\<lparr>sys_eq := q, main_pc := pc\<rparr>" "eq_ok q"
      "pc = Main_Idle \<or> pc = Push_Replace e \<and> \<not> event_queue_is_tick e" "eq_items q = eq_items (sys_eq s)"
      "eq_seq q = eq_seq (sys_eq s)" "eq_closed q = eq_closed (sys_eq s)"
proof -
  let ?q = "sys_eq s"
  have ok: "eq_ok ?q" using assms(1) by (simp add: queue_inv_def)
  have rq: "rq_ok (eq_ring ?q)" "has_buffer (eq_ring ?q)" using ok by (simp_all add: eq_ok_def rq_ok_def)
  obtain r ring where r: "ring_queue_push e (eq_ring ?q) = (r, ring)" by (cases "ring_queue_push e (eq_ring ?q)")
  note p = push_refines[OF rq(1), of e, unfolded r fst_conv snd_conv]
  note f = ring_queue_frame(1-3)[of e "eq_ring ?q", unfolded r snd_conv]
  have re: "r \<noteq> RQ_RESULT_ERR" using p(1) by (auto simp: push_spec_def split: option.splits if_splits)
  consider "r = RQ_RESULT_OK \<or> r = RQ_RESULT_MERGED" | "r = RQ_RESULT_DROPPED" using re by (cases r) auto
  then show ?thesis
  proof cases
    case 1
    have "event_queue_push e ?q = (EQ_RESULT_OK, event_queue_signal (?q\<lparr>eq_ring := ring\<rparr>))"
      using 1 r by (simp add: event_queue_push_def)
    from push_effect(1)[OF ok this] have "eq_ok (?q\<lparr>eq_ring := ring\<rparr>)" by (simp add: event_queue_signal_def)
    then show ?thesis using 1 r by (intro pushed[of "?q\<lparr>eq_ring := ring\<rparr>"]) (auto simp: push_ring_def)
  next
    case 2
    have i: "rq_items ring = rq_items (eq_ring ?q)"
      using p(1) 2 by (auto simp: push_spec_def split: option.splits if_splits)
    have "eq_ok (?q\<lparr>eq_ring := ring\<rparr>)" using ok p(2) f i by (simp add: eq_ok_def eq_items_def)
    then show ?thesis using 2 r i
      by (intro full[of "if event_queue_is_tick e then Main_Idle else Push_Replace e" "?q\<lparr>eq_ring := ring\<rparr>"])
        (auto simp: push_ring_def eq_items_def)
  qed
qed

lemma push_replace_cases:
  assumes "queue_inv s" and "main_pc s = Push_Replace e"
  obtains (replaced) q where "push_replace e s = s\<lparr>sys_eq := q, main_pc := Add_Seq False\<rparr>" "eq_ok q"
      "eq_seq q = eq_seq (sys_eq s)" "eq_closed q = eq_closed (sys_eq s)"
  | (dropped) q where "push_replace e s = s\<lparr>sys_eq := q, main_pc := Main_Idle\<rparr>" "eq_ok q"
      "eq_items q = eq_items (sys_eq s)"
      "eq_seq q = eq_seq (sys_eq s)" "eq_closed q = eq_closed (sys_eq s)"
proof -
  let ?q = "sys_eq s"
  have ok: "eq_ok ?q" and nt: "\<not> event_queue_is_tick e" using assms by (simp_all add: queue_inv_def)
  have rq: "rq_ok (eq_ring ?q)" using ok by (simp add: eq_ok_def)
  have t: "event_queue_match_tick = event_queue_is_tick"
    by (simp add: fun_eq_iff event_queue_match_tick_def event_queue_is_tick_def)
  obtain r ring where r: "ring_queue_replace_first_if event_queue_match_tick e (eq_ring ?q) = (r, ring)"
    by (cases "ring_queue_replace_first_if event_queue_match_tick e (eq_ring ?q)")
  note p = replace_refines[OF rq, of event_queue_match_tick e, unfolded r fst_conv snd_conv, unfolded t]
  note f = ring_queue_frame(7-9)[of event_queue_match_tick e "eq_ring ?q", unfolded r snd_conv]
  have "length (filter event_queue_is_tick (rq_items ring)) \<le> 1"
  proof (cases "first_index event_queue_is_tick (rq_items (eq_ring ?q))")
    case None
    then show ?thesis using p(1) ok by (simp add: eq_ok_def eq_items_def)
  next
    case (Some i)
    show ?thesis
    proof (rule first_tick_split[OF Some])
      fix us x vs
      assume "rq_items (eq_ring ?q) = us @ x # vs" "\<And>y. (rq_items (eq_ring ?q))[i := y] = us @ y # vs"
        "event_queue_is_tick x"
      then show ?thesis using p(1) ok nt Some by (simp add: eq_ok_def eq_items_def)
    qed
  qed
  then have q: "eq_ok (?q\<lparr>eq_ring := ring\<rparr>)" using ok p(2) f by (simp add: eq_ok_def eq_items_def)
  show ?thesis
  proof (cases r)
    case True
    then show ?thesis using r q by (intro replaced[of "?q\<lparr>eq_ring := ring, replaced_ticks := replaced_ticks ?q + 1\<rparr>"]) (auto simp: push_replace_def Let_def)
  next
    case False
    then have "rq_items ring = rq_items (eq_ring ?q)" using p(1) by (auto split: option.splits)
    then show ?thesis using r q False by (intro dropped[of "?q\<lparr>eq_ring := ring, dropped_critical := dropped_critical ?q + 1\<rparr>"]) (auto simp: push_replace_def Let_def eq_items_def)
  qed
qed

lemma wait_inv_ring:
  assumes "wait_inv n s" and "main_pc s = Push_Ring e"
  shows "wait_inv n (push_ring e s)"
proof -
  have q: "queue_inv s" using assms(1) by (simp add: wait_inv_def)
  show ?thesis
    by (rule push_ring_cases[OF q assms(2)])
      (use assms in \<open>auto simp: wait_inv_def lock_inv_def queue_inv_def seq_inv_def wake_inv_def\<close>)
qed

lemma wait_inv_replace:
  assumes "wait_inv n s" and "main_pc s = Push_Replace e"
  shows "wait_inv n (push_replace e s)"
proof -
  have q: "queue_inv s" using assms(1) by (simp add: wait_inv_def)
  show ?thesis
    by (rule push_replace_cases[OF q assms(2)])
      (use assms in \<open>auto simp: wait_inv_def lock_inv_def queue_inv_def seq_inv_def wake_inv_def\<close>)
qed

lemma wait_inv_add:
  assumes "wait_inv n s" and "main_pc s = Add_Seq c" and "Suc n < 2 ^ 64"
  shows "wait_inv (Suc n) (s\<lparr>sys_eq := event_queue_signal (sys_eq s), main_pc := Take_Lock c\<rparr>)"
proof -
  have n: "unat (eq_seq (sys_eq s) + 1) = Suc n"
    using assms(1,3) by (simp add: wait_inv_def seq_inv_def unat_word_ariths)
  have "local_seq (ui_pc s) \<noteq> Some (eq_seq (sys_eq s) + 1)"
    using assms(1) n by (auto simp: wait_inv_def seq_inv_def)
  then show ?thesis using assms n
    by (auto simp: wait_inv_def lock_inv_def queue_inv_def seq_inv_def wake_inv_def event_queue_signal_def)
qed

lemma wait_inv_signal:
  assumes "wait_inv n s" and "main_pc s = Send_Signal c"
  shows "wait_inv n (send_signal c s)"
  using assms
  by (cases "ui_pc s")
    (auto simp: wait_inv_def lock_inv_def queue_inv_def seq_inv_def wake_inv_def send_signal_def)

lemma wait_inv_closed:
  assumes "wait_inv n s" and "main_pc s = Stop_Closed"
  shows "wait_inv n (s\<lparr>sys_eq := (sys_eq s)\<lparr>eq_closed := True\<rparr>, main_pc := Add_Seq True\<rparr>)" (is "wait_inv n ?s")
proof -
  note a = assms(1)[unfolded wait_inv_def]
  have "lock_inv ?s" using a assms(2) by (simp add: lock_inv_def)
  moreover have "queue_inv ?s" using a assms(2) by (simp add: queue_inv_def)
  moreover have "seq_inv n ?s" using a by (simp add: seq_inv_def)
  moreover have "wake_inv ?s" using a assms(2) unfolding wake_inv_def by simp blast
  ultimately show ?thesis by (simp add: wait_inv_def)
qed

lemma wait_inv_take:
  assumes "wait_inv n s" and "main_pc s = Take_Lock c" and "wait_lock s = None"
  shows "wait_inv n (s\<lparr>wait_lock := Some By_Main, main_pc := Send_Signal c\<rparr>)" (is "wait_inv n ?s")
proof -
  note a = assms(1)[unfolded wait_inv_def]
  have "lock_inv ?s" using a assms by (simp add: lock_inv_def split: if_split_asm)
  moreover have "queue_inv ?s" using a assms(2) by (cases c) (simp_all add: queue_inv_def)
  moreover have "seq_inv n ?s" using a by (simp add: seq_inv_def)
  moreover have "wake_inv ?s" using a assms unfolding wake_inv_def lock_inv_def by simp
  ultimately show ?thesis by (simp add: wait_inv_def)
qed

lemma wait_inv_drop:
  assumes "wait_inv n s" and "main_pc s = Drop_Lock c"
  shows "wait_inv n (s\<lparr>wait_lock := None, main_pc := if c then Joining else Main_Idle\<rparr>)" (is "wait_inv n ?s")
proof -
  note a = assms(1)[unfolded wait_inv_def]
  have "lock_inv ?s" using a assms by (simp add: lock_inv_def split: if_split_asm)
  moreover have "queue_inv ?s" using a assms(2) by (cases c) (simp_all add: queue_inv_def)
  moreover have "seq_inv n ?s" using a by (simp add: seq_inv_def)
  moreover have "wake_inv ?s" using a assms unfolding wake_inv_def lock_inv_def by simp
  ultimately show ?thesis by (simp add: wait_inv_def)
qed

lemma wait_inv_main:
  assumes "wait_inv n s" and "main_next (main_pc s) s = Some s'"
    and "(case main_pc s of Add_Seq c \<Rightarrow> Suc n | _ \<Rightarrow> n) < 2 ^ 64"
  shows "wait_inv (case main_pc s of Add_Seq c \<Rightarrow> Suc n | _ \<Rightarrow> n) s'"
proof (cases "main_pc s")
  case (Take_Lock c)
  then show ?thesis using assms(2) wait_inv_take[OF assms(1) Take_Lock] by (simp split: if_split_asm)
next
  case (Drop_Lock c)
  then show ?thesis using assms(2) wait_inv_drop[OF assms(1) Drop_Lock] by simp
next
  case Stop_Closed
  then have "s' = s\<lparr>sys_eq := (sys_eq s)\<lparr>eq_closed := True\<rparr>, main_pc := Add_Seq True\<rparr>" using assms(2) by simp
  then show ?thesis using wait_inv_closed[OF assms(1) Stop_Closed] Stop_Closed by simp
next
  case (Push_Ring e)
  then show ?thesis using assms(2) wait_inv_ring[OF assms(1)] by auto
next
  case (Push_Replace e)
  then show ?thesis using assms(2) wait_inv_replace[OF assms(1)] by auto
next
  case (Add_Seq c)
  then show ?thesis using assms(2,3) wait_inv_add[OF assms(1)] by auto
next
  case (Send_Signal c)
  then show ?thesis using assms(2) wait_inv_signal[OF assms(1)] by auto
qed (use assms(2) in simp_all)

lemma wait_inv_reachable: "ui_reachable tmo n s \<Longrightarrow> n < 2 ^ 64 \<Longrightarrow> wait_inv n s"
proof (induction rule: ui_reachable.induct)
  case (ui n s w s')
  then show ?case using lock_inv_ui queue_inv_ui seq_inv_ui wake_inv_ui unfolding wait_inv_def by blast
next
  case (main n s s')
  have "n < 2 ^ 64" using main.prems by (cases "main_pc s") simp_all
  then show ?case using main wait_inv_main by blast
qed (auto simp: wait_inv_def lock_inv_def queue_inv_def seq_inv_def wake_inv_def begin_push_def begin_stop_def)

section \<open>Progress\<close>

text \<open>A sleeping thread has nothing to do.\<close>

lemma sleeping_idle:
  assumes "wait_inv n s" and "ui_pc s = Timed_Blocked m" and "main_pc s = Main_Idle \<or> main_pc s = Joining"
  shows "eq_items (sys_eq s) = [] \<and> \<not> eq_closed (sys_eq s) \<and> main_pc s = Main_Idle"
proof -
  have "eq_seq (sys_eq s) = m" using assms by (auto simp: wait_inv_def wake_inv_def)
  moreover have "wake_inv s" "queue_inv s" using assms(1) by (simp_all add: wait_inv_def)
  ultimately show ?thesis using assms(2,3)
    by (cases "main_pc s") (simp_all add: wake_inv_def queue_inv_def)
qed

text \<open>\<open>ui_leads tmo P s\<close>: on every run of the user interface thread alone, \<open>P\<close> comes to hold.\<close>

inductive ui_leads :: "int \<Rightarrow> (ui_sys \<Rightarrow> bool) \<Rightarrow> ui_sys \<Rightarrow> bool" for tmo P where
  now: "P s \<Longrightarrow> ui_leads tmo P s"
| later: "ui_next tmo w (ui_pc s) s \<noteq> None \<Longrightarrow>
    (\<And>w s'. ui_next tmo w (ui_pc s) s = Some s' \<Longrightarrow> ui_leads tmo P s') \<Longrightarrow> ui_leads tmo P s"

lemma ui_leads_rank:
  assumes "I s"
    and "\<And>s. I s \<Longrightarrow> \<not> P s \<Longrightarrow> \<exists>w. ui_next tmo w (ui_pc s) s \<noteq> None"
    and "\<And>w s s'. I s \<Longrightarrow> \<not> P s \<Longrightarrow> ui_next tmo w (ui_pc s) s = Some s' \<Longrightarrow>
      P s' \<or> I s' \<and> rank (ui_pc s') < (rank (ui_pc s) :: nat)"
  shows "ui_leads tmo P s"
  using assms(1)
proof (induction "rank (ui_pc s)" arbitrary: s rule: less_induct)
  case less
  show ?case
  proof (cases "P s")
    case False
    show ?thesis
    proof (rule ui_leads.later)
      show "ui_next tmo (SOME w. ui_next tmo w (ui_pc s) s \<noteq> None) (ui_pc s) s \<noteq> None"
        using someI_ex[OF assms(2)[OF less.prems False]] .
      show "ui_leads tmo P s'" if "ui_next tmo w (ui_pc s) s = Some s'" for w s'
        using assms(3)[OF less.prems False that] less.hyps[of s'] ui_leads.now by blast
    qed
  qed (rule ui_leads.now)
qed

text \<open>While the main thread waits for it to end, the user interface thread goes to its end.\<close>

fun stop_rank :: "ui_pc \<Rightarrow> nat" where
  "stop_rank Ui_Exit = 0"
| "stop_rank Ui_Loop = 1"
| "stop_rank (Ui_Handle e) = 2"
| "stop_rank (Wait_Return x) = 3"
| "stop_rank (Wait_Closed n) = 4"
| "stop_rank (Wait_Unlock (Return x)) = 4"
| "stop_rank (Wait_Pop n) = 5"
| "stop_rank Wait_Enter = 6"
| "stop_rank (Wait_Unlock (Again n)) = 6"
| "stop_rank Locked_Reload = 7"
| "stop_rank (Timed_Done b) = 7"
| "stop_rank (Timed_Closed n) = 8"
| "stop_rank (Timed_Seq n) = 9"
| "stop_rank (Timed_Relock n b) = 10"
| "stop_rank (Locked_Seq n) = 10"
| "stop_rank (Locked_Closed n) = 11"
| "stop_rank (Locked_Pop n) = 12"
| "stop_rank (Wait_Lock n) = 13"
| "stop_rank (Timed_Blocked n) = 14"

definition main_waits :: "main_pc \<Rightarrow> nat \<Rightarrow> ui_sys \<Rightarrow> bool" where
  "main_waits pc n s \<longleftrightarrow> wait_inv n s \<and> main_pc s = pc \<and> (pc = Main_Idle \<or> pc = Joining)"

lemma ui_next_main: "ui_next tmo w (ui_pc s) s = Some s' \<Longrightarrow> main_pc s' = main_pc s \<and> ui_running s' = ui_running s"
  by (cases "(tmo, w, ui_pc s, s)" rule: ui_next.cases)
    (clarsimp simp: ui_lock_def ui_unlock_def ui_pop_def case_prod_beta
      split: if_split_asm option.split wait_next.split)+

lemma main_waits_ui:
  assumes "main_waits pc n s" and "ui_next tmo w (ui_pc s) s = Some s'"
  shows "main_waits pc n s'"
proof -
  have "lock_inv s" "queue_inv s" "seq_inv n s" "wake_inv s" using assms(1) by (simp_all add: main_waits_def wait_inv_def)
  then show ?thesis
    using assms lock_inv_ui[OF _ assms(2)] queue_inv_ui[OF _ assms(2)] seq_inv_ui[OF _ assms(2)]
      wake_inv_ui[OF _ _ assms(2)] ui_next_main[OF assms(2)]
    by (simp add: main_waits_def wait_inv_def)
qed

lemma main_waits_enabled:
  assumes "main_waits pc n s" and "ui_pc s \<noteq> Ui_Exit"
  shows "ui_next tmo w (ui_pc s) s \<noteq> None"
proof -
  have "wait_lock s = (if holds_lock (ui_pc s) then Some By_Ui else None)"
    using assms(1) by (auto simp: main_waits_def wait_inv_def lock_inv_def)
  then show ?thesis using assms(2)
    by (cases "(tmo, w, ui_pc s, s)" rule: ui_next.cases) (simp_all add: ui_lock_def)
qed

lemma stop_rank_decreases:
  assumes "main_waits Joining n s" and "ui_next tmo w (ui_pc s) s = Some s'"
  shows "stop_rank (ui_pc s') < stop_rank (ui_pc s)"
proof -
  have "eq_closed (sys_eq s)" "\<not> ui_running s"
    using assms(1) by (auto simp: main_waits_def wait_inv_def queue_inv_def)
  then show ?thesis using assms(2)
    by (cases "(tmo, w, ui_pc s, s)" rule: ui_next.cases)
      (clarsimp simp: ui_lock_def ui_unlock_def ui_pop_def case_prod_beta
        split: if_split_asm option.split wait_next.split)+
qed

lemma stop_leads_to_exit:
  assumes "main_waits Joining n s"
  shows "ui_leads tmo (\<lambda>s. ui_pc s = Ui_Exit) s"
proof (rule ui_leads_rank[where I = "main_waits Joining n" and rank = stop_rank, OF assms])
  fix w s s'
  assume "main_waits Joining n s" "ui_next tmo w (ui_pc s) s = Some s'"
  then show "ui_pc s' = Ui_Exit \<or> main_waits Joining n s' \<and> stop_rank (ui_pc s') < stop_rank (ui_pc s)"
    using main_waits_ui stop_rank_decreases by blast
qed (use main_waits_enabled in blast)

text \<open>An event in the queue is taken while the main thread does nothing.\<close>

fun take_rank :: "ui_pc \<Rightarrow> nat" where
  "take_rank Ui_Exit = 0"
| "take_rank (Wait_Pop n) = 1"
| "take_rank Wait_Enter = 2"
| "take_rank (Wait_Unlock (Again n)) = 2"
| "take_rank (Locked_Pop n) = 2"
| "take_rank Ui_Loop = 3"
| "take_rank (Ui_Handle e) = 4"
| "take_rank (Wait_Return x) = 5"
| "take_rank (Wait_Unlock (Return x)) = 6"
| "take_rank Locked_Reload = 7"
| "take_rank (Timed_Done b) = 7"
| "take_rank (Wait_Lock n) = 7"
| "take_rank (Timed_Closed n) = 8"
| "take_rank (Wait_Closed n) = 8"
| "take_rank (Timed_Seq n) = 9"
| "take_rank (Timed_Relock n b) = 10"
| "take_rank (Locked_Seq n) = 10"
| "take_rank (Locked_Closed n) = 11"
| "take_rank (Timed_Blocked n) = 14"

definition ui_took :: "app_event \<Rightarrow> ui_sys \<Rightarrow> bool" where
  "ui_took e s \<longleftrightarrow> ui_pc s = Wait_Return (Some e) \<or> ui_pc s = Wait_Unlock (Return (Some e))"

lemma sleep_found_empty: "going_to_sleep pc \<Longrightarrow> found_empty pc"
  by (cases pc) simp_all

lemma take_rank_decreases:
  assumes "main_waits Main_Idle n s" and "eq_items (sys_eq s) = e # xs"
    and "ui_next tmo w (ui_pc s) s = Some s'"
  shows "ui_took e s' \<or> take_rank (ui_pc s') < take_rank (ui_pc s) \<and> eq_items (sys_eq s') = e # xs"
proof -
  have i: "eq_ok (sys_eq s)" "\<not> eq_closed (sys_eq s)" "ui_running s"
    using assms(1) by (auto simp: main_waits_def wait_inv_def queue_inv_def)
  have w: "found_empty (ui_pc s) \<Longrightarrow> local_seq (ui_pc s) \<noteq> Some (eq_seq (sys_eq s))"
    "\<not> going_to_sleep (ui_pc s)"
    using assms(1,2) by (auto simp: main_waits_def wait_inv_def wake_inv_def dest: sleep_found_empty)
  show ?thesis using assms(2,3) i w
    by (cases "(tmo, w, ui_pc s, s)" rule: ui_next.cases)
      (clarsimp simp: ui_lock_def ui_unlock_def ui_pop_def case_prod_beta ui_took_def try_pop_refines
        split: if_split_asm option.splits wait_next.splits)+
qed

lemma queued_leads_to_taken:
  assumes "main_waits Main_Idle n s" and "eq_items (sys_eq s) = e # xs"
  shows "ui_leads tmo (\<lambda>s. ui_took e s \<or> ui_pc s = Ui_Exit) s"
proof (rule ui_leads_rank[where I = "\<lambda>s. main_waits Main_Idle n s \<and> eq_items (sys_eq s) = e # xs"
      and rank = take_rank])
  show "main_waits Main_Idle n s \<and> eq_items (sys_eq s) = e # xs" using assms by simp
next
  fix w s s'
  assume "main_waits Main_Idle n s \<and> eq_items (sys_eq s) = e # xs" "ui_next tmo w (ui_pc s) s = Some s'"
  then show "(ui_took e s' \<or> ui_pc s' = Ui_Exit) \<or> (main_waits Main_Idle n s' \<and> eq_items (sys_eq s') = e # xs) \<and>
      take_rank (ui_pc s') < take_rank (ui_pc s)"
    using main_waits_ui take_rank_decreases by blast
qed (use main_waits_enabled in blast)

section \<open>One thread alone\<close>

text \<open>Without the other thread the steps of a push amount to \<open>event_queue_push\<close>.\<close>

fun main_steps :: "nat \<Rightarrow> ui_sys \<Rightarrow> ui_sys" where
  "main_steps 0 s = s"
| "main_steps (Suc k) s = (case main_next (main_pc s) s of Some s' \<Rightarrow> main_steps k s' | None \<Rightarrow> s)"

lemma push_steps:
  assumes "wait_lock s = None" and "main_pc s = Main_Idle"
  shows "sys_eq (main_steps 6 (begin_push e s)) = snd (event_queue_push e (sys_eq s)) \<and>
    main_pc (main_steps 6 (begin_push e s)) = Main_Idle \<and> wait_lock (main_steps 6 (begin_push e s)) = None"
  using assms
  by (simp add: begin_push_def push_ring_def push_replace_def event_queue_push_def send_signal_def
      event_queue_signal_def numeral_eq_Suc Let_def case_prod_beta)

end
