(* ===== verification/Task_Queue.thy ===== *)
theory Task_Queue
  imports Ring_Queue
begin

text \<open>
  The queue of requests to ubus in the threaded version of the program
  (\<open>src_adr0005/task_queue.c\<close>, the types of \<open>src_adr0005/hal/ubus_hal.h\<close>): a task for a
  service and action that is queued already takes the place of the queued one. Its waiting
  functions, which no other part calls, are the ones of the event queue.
\<close>

datatype ubus_action = UBUS_ACTION_START | UBUS_ACTION_STOP | UBUS_ACTION_QUERY

record ubus_task =
  task_service :: string
  task_action :: ubus_action
  task_request_id :: u32
  task_timeout_ms :: u32
  task_enqueue_ms :: u64

datatype task_queue_result = TQ_RESULT_OK | TQ_RESULT_MERGED | TQ_RESULT_DROPPED | TQ_RESULT_ERR

record task_queue_stats =
  tq_pushes :: u64
  tq_pops :: u64
  tq_drops :: u64
  tq_merges :: u64
  tq_expired :: u64

record task_queue =
  tq_ring :: "ubus_task ring_queue"
  tq_stats :: task_queue_stats
  tq_seq :: u64
  tq_closed :: bool

section \<open>Operations\<close>

text \<open>\<open>strncmp\<close> over the whole array of a service name.\<close>

definition task_queue_merge_same_service_action :: "ubus_task merge_fn" where
  "task_queue_merge_same_service_action ex inc =
     (if task_action ex = task_action inc \<and> take 32 (task_service ex) = take 32 (task_service inc)
      then Some (ex\<lparr>task_request_id := task_request_id inc, task_timeout_ms := task_timeout_ms inc,
        task_enqueue_ms := task_enqueue_ms inc\<rparr>)
      else None)"

definition task_queue_signal :: "task_queue \<Rightarrow> task_queue" where
  "task_queue_signal q = q\<lparr>tq_seq := tq_seq q + 1\<rparr>"

definition zero_task_queue :: task_queue where
  "zero_task_queue = \<lparr>tq_ring = zero_ring_queue,
     tq_stats = \<lparr>tq_pushes = 0, tq_pops = 0, tq_drops = 0, tq_merges = 0, tq_expired = 0\<rparr>,
     tq_seq = 0, tq_closed = False\<rparr>"

text \<open>\<open>sizeof(ubus_task_t)\<close> is 56 with the usual alignment; only that it is not 0 matters.\<close>

definition task_queue_init :: "bool \<Rightarrow> ubus_task \<Rightarrow> nat \<Rightarrow> task_queue \<Rightarrow> int \<times> task_queue" where
  "task_queue_init mem_ok z cap q =
     (if cap = 0 then (-1, q)
      else
        let q = zero_task_queue;
            (r, ring) = ring_queue_init mem_ok z cap 56 (tq_ring q);
            q = q\<lparr>tq_ring := ring\<rparr>
        in if r \<noteq> 0 then (-1, q)
           else
             let q = q\<lparr>tq_ring := ring_queue_set_overflow_policy RQ_COALESCE (tq_ring q)\<rparr>;
                 q = q\<lparr>tq_ring :=
                   ring_queue_set_merge_fn (Some task_queue_merge_same_service_action) (tq_ring q)\<rparr>
             in (0, q\<lparr>tq_seq := 0, tq_closed := False\<rparr>))"

definition task_queue_destroy :: "task_queue \<Rightarrow> task_queue" where
  "task_queue_destroy q = zero_task_queue"

definition task_queue_close :: "task_queue \<Rightarrow> task_queue" where
  "task_queue_close q = task_queue_signal (q\<lparr>tq_closed := True\<rparr>)"

definition on_tq_stats :: "(task_queue_stats \<Rightarrow> task_queue_stats) \<Rightarrow> task_queue \<Rightarrow> task_queue" where
  "on_tq_stats f q = q\<lparr>tq_stats := f (tq_stats q)\<rparr>"

definition task_queue_push :: "ubus_task \<Rightarrow> task_queue \<Rightarrow> task_queue_result \<times> task_queue" where
  "task_queue_push task q =
     (let (result, ring) = ring_queue_push task (tq_ring q);
          q = q\<lparr>tq_ring := ring\<rparr>
      in case result of
           RQ_RESULT_OK \<Rightarrow>
             (TQ_RESULT_OK, task_queue_signal (on_tq_stats (\<lambda>s. s\<lparr>tq_pushes := tq_pushes s + 1\<rparr>) q))
         | RQ_RESULT_MERGED \<Rightarrow>
             (TQ_RESULT_MERGED, task_queue_signal (on_tq_stats (\<lambda>s. s\<lparr>tq_merges := tq_merges s + 1\<rparr>) q))
         | RQ_RESULT_DROPPED \<Rightarrow>
             (TQ_RESULT_DROPPED, on_tq_stats (\<lambda>s. s\<lparr>tq_drops := tq_drops s + 1\<rparr>) q)
         | RQ_RESULT_ERR \<Rightarrow> (TQ_RESULT_ERR, q))"

definition task_queue_try_pop :: "task_queue \<Rightarrow> ubus_task option \<times> task_queue" where
  "task_queue_try_pop q =
     (let (out, ring) = ring_queue_pop (tq_ring q);
          q = q\<lparr>tq_ring := ring\<rparr>
      in case out of
           Some t \<Rightarrow> (Some t, on_tq_stats (\<lambda>s. s\<lparr>tq_pops := tq_pops s + 1\<rparr>) q)
         | None \<Rightarrow> (None, q))"

definition task_queue_is_expired :: "ubus_task \<Rightarrow> u64 \<Rightarrow> bool" where
  "task_queue_is_expired task now_ms =
     (if task_timeout_ms task = 0 then False
      else now_ms - task_enqueue_ms task > ucast (task_timeout_ms task))"

definition task_queue_get_stats :: "task_queue \<Rightarrow> task_queue_stats" where
  "task_queue_get_stats q = tq_stats q"

section \<open>The specification\<close>

text \<open>
  The queue as a list. A name fits its array, as all names are stored with \<open>strncpy\<close> into
  zeroed arrays of 32 bytes.
\<close>

definition tq_items :: "task_queue \<Rightarrow> ubus_task list" where
  "tq_items q = rq_items (tq_ring q)"

definition tq_cap :: "task_queue \<Rightarrow> nat" where
  "tq_cap q = capacity (tq_ring q)"

definition task_key :: "ubus_task \<Rightarrow> string \<times> ubus_action" where
  "task_key t = (task_service t, task_action t)"

definition task_wf :: "ubus_task \<Rightarrow> bool" where
  [wf_defs]: "task_wf t \<longleftrightarrow> length (task_service t) < 32"

definition tq_ok :: "task_queue \<Rightarrow> bool" where
  [wf_defs]: "tq_ok q \<longleftrightarrow> rq_ok (tq_ring q) \<and> policy (tq_ring q) = RQ_COALESCE \<and>
     merge_fn (tq_ring q) = Some task_queue_merge_same_service_action \<and>
     list_all task_wf (tq_items q) \<and> distinct (map task_key (tq_items q))"

definition push_task :: "nat \<Rightarrow> ubus_task \<Rightarrow> ubus_task list \<Rightarrow> task_queue_result \<times> ubus_task list" where
  "push_task cap t xs =
     (case first_index (\<lambda>x. task_key x = task_key t) xs of
        Some i \<Rightarrow> (TQ_RESULT_MERGED, xs[i := t])
      | None \<Rightarrow> if length xs < cap then (TQ_RESULT_OK, xs @ [t]) else (TQ_RESULT_DROPPED, xs))"

lemma merge_task:
  assumes "task_wf x" and "task_wf t"
  shows "task_queue_merge_same_service_action x t = (if task_key x = task_key t then Some t else None)"
proof -
  have "take 32 (task_service x) = task_service x" "take 32 (task_service t) = task_service t"
    using assms by (simp_all add: task_wf_def)
  then show ?thesis by (simp add: task_queue_merge_same_service_action_def task_key_def)
qed

lemma merged_task:
  assumes "tq_ok q" and "task_wf t"
  shows "merged_list (tq_ring q) t (tq_items q) =
    map_option (\<lambda>i. (tq_items q)[i := t]) (first_index (\<lambda>x. task_key x = task_key t) (tq_items q))"
proof -
  let ?f = "\<lambda>x. task_queue_merge_same_service_action x t"
  have f: "first_index (\<lambda>x. ?f x \<noteq> None) (tq_items q) = first_index (\<lambda>x. task_key x = task_key t) (tq_items q)"
    by (rule first_index_cong) (use assms in \<open>auto simp: tq_ok_def list_all_iff merge_task\<close>)
  have "update_list ?f (tq_items q) =
      map_option (\<lambda>i. (tq_items q)[i := t]) (first_index (\<lambda>x. task_key x = task_key t) (tq_items q))"
  proof (cases "first_index (\<lambda>x. task_key x = task_key t) (tq_items q)")
    case None
    then show ?thesis using f by (simp add: update_list_def)
  next
    case (Some i)
    have "?f (tq_items q ! i) = Some t"
      using first_index_Some[OF Some] assms by (simp add: tq_ok_def list_all_length merge_task)
    then show ?thesis using f Some by (simp add: update_list_def)
  qed
  then show ?thesis using assms(1) by (simp add: merged_list_def tq_ok_def)
qed

lemma push_task_refines:
  assumes "tq_ok q" and "task_wf t"
  shows "(fst (task_queue_push t q), tq_items (snd (task_queue_push t q))) = push_task (tq_cap q) t (tq_items q)"
    and "tq_ok (snd (task_queue_push t q))" and "tq_cap (snd (task_queue_push t q)) = tq_cap q"
proof -
  have rq: "rq_ok (tq_ring q)" and pol: "policy (tq_ring q) = RQ_COALESCE" using assms(1) by (simp_all add: tq_ok_def)
  note p = push_refines[OF rq, of t] and m = merged_task[OF assms, unfolded tq_items_def]
  obtain r ring where r: "ring_queue_push t (tq_ring q) = (r, ring)" by (cases "ring_queue_push t (tq_ring q)")
  note f = ring_queue_frame(1-3)[of t "tq_ring q", unfolded r snd_conv]
  have ring: "tq_ring (snd (task_queue_push t q)) = ring"
    by (cases r) (simp_all add: task_queue_push_def r task_queue_signal_def on_tq_stats_def)
  show eq: "(fst (task_queue_push t q), tq_items (snd (task_queue_push t q))) = push_task (tq_cap q) t (tq_items q)"
    using p m pol
    by (auto simp: task_queue_push_def push_task_def push_spec_def tq_items_def tq_cap_def r
        task_queue_signal_def on_tq_stats_def split: option.splits if_splits)
  show "tq_cap (snd (task_queue_push t q)) = tq_cap q"
    using f ring by (simp add: tq_cap_def)
  have "list_all task_wf (snd (push_task (tq_cap q) t (tq_items q))) \<and>
      distinct (map task_key (snd (push_task (tq_cap q) t (tq_items q))))"
  proof (cases "first_index (\<lambda>x. task_key x = task_key t) (tq_items q)")
    case None
    then have "\<forall>x \<in> set (tq_items q). task_key x \<noteq> task_key t" by (simp add: first_index_None list_all_iff)
    then show ?thesis using assms None by (auto simp: push_task_def list_all_iff tq_ok_def)
  next
    case (Some i)
    then have i: "i < length (tq_items q)" "map task_key (tq_items q) ! i = task_key t"
      using first_index_Some[OF Some] by simp_all
    then have "map task_key ((tq_items q)[i := t]) = map task_key (tq_items q)"
      by (metis list_update_id map_update)
    then show ?thesis using Some assms i
      by (auto simp: push_task_def tq_ok_def list_all_iff dest: subsetD[OF set_update_subset_insert])
  qed
  then have "list_all task_wf (tq_items (snd (task_queue_push t q))) \<and>
      distinct (map task_key (tq_items (snd (task_queue_push t q))))"
    using eq by (simp add: prod_eq_iff)
  then show "tq_ok (snd (task_queue_push t q))"
    using p(2) r ring f assms(1) by (simp add: tq_ok_def)
qed

lemma pop_task_refines:
  assumes "tq_ok q"
  shows "fst (task_queue_try_pop q) = (case tq_items q of [] \<Rightarrow> None | x # xs \<Rightarrow> Some x)"
    and "tq_items (snd (task_queue_try_pop q)) = tl (tq_items q)"
    and "tq_ok (snd (task_queue_try_pop q))" and "tq_cap (snd (task_queue_try_pop q)) = tq_cap q"
proof -
  have rq: "rq_ok (tq_ring q)" using assms by (simp add: tq_ok_def)
  obtain r ring where r: "ring_queue_pop (tq_ring q) = (r, ring)" by (cases "ring_queue_pop (tq_ring q)")
  note p = pop_refines[OF rq, unfolded r fst_conv snd_conv]
  note f = ring_queue_frame(4-6)[of "tq_ring q", unfolded r snd_conv]
  show "fst (task_queue_try_pop q) = (case tq_items q of [] \<Rightarrow> None | x # xs \<Rightarrow> Some x)"
    "tq_items (snd (task_queue_try_pop q)) = tl (tq_items q)"
    "tq_cap (snd (task_queue_try_pop q)) = tq_cap q"
    "tq_ok (snd (task_queue_try_pop q))"
    using p f assms
    by (auto simp: task_queue_try_pop_def r tq_items_def tq_cap_def tq_ok_def on_tq_stats_def
        list_all_iff split: list.splits option.splits)
qed

lemma init_tasks:
  fixes q :: task_queue and z :: ubus_task
  assumes "0 < cap"
  defines "q' \<equiv> snd (task_queue_init True z cap q)"
  shows "fst (task_queue_init True z cap q) = 0" and "tq_ok q'" and "tq_items q' = []" and "tq_cap q' = cap"
proof -
  note i = init_refines[of cap 56 z "zero_ring_queue :: ubus_task ring_queue", OF assms(1)]
  have e: "task_queue_init True z cap q =
    (0, zero_task_queue\<lparr>tq_ring := (snd (ring_queue_init True z cap 56 zero_ring_queue))\<lparr>policy := RQ_COALESCE,
       merge_fn := Some task_queue_merge_same_service_action\<rparr>\<rparr>)"
    using assms(1) i by (simp add: task_queue_init_def zero_task_queue_def Let_def case_prod_beta
        ring_queue_set_overflow_policy_def ring_queue_set_merge_fn_def)
  show "fst (task_queue_init True z cap q) = 0" by (simp add: e)
  show "tq_items q' = []" and "tq_cap q' = cap" and "tq_ok q'"
    using i by (simp_all add: q'_def e tq_items_def tq_cap_def tq_ok_def rq_ok_def rq_items_def ring_items_def
        ring_ok_def ring.truncate_def)
qed

section \<open>Runs\<close>

text \<open>Which tasks were pushed and not dropped, oldest first.\<close>

datatype tq_op = Tq_Push ubus_task | Tq_Pop

fun tq_run :: "tq_op list \<Rightarrow> task_queue \<Rightarrow> ubus_task list \<times> ubus_task list \<times> task_queue" where
  "tq_run [] q = ([], [], q)"
| "tq_run (Tq_Push t # ops) q =
     (let (r, q) = task_queue_push t q;
          (kept, out, q) = tq_run ops q
      in (if r = TQ_RESULT_OK \<or> r = TQ_RESULT_MERGED then t # kept else kept, out, q))"
| "tq_run (Tq_Pop # ops) q =
     (let (x, q) = task_queue_try_pop q;
          (kept, out, q) = tq_run ops q
      in (kept, (case x of Some t \<Rightarrow> t # out | None \<Rightarrow> out), q))"

fun ops_wf :: "tq_op list \<Rightarrow> bool" where
  "ops_wf [] = True"
| "ops_wf (Tq_Push t # ops) = (task_wf t \<and> ops_wf ops)"
| "ops_wf (Tq_Pop # ops) = ops_wf ops"

definition latest :: "string \<times> ubus_action \<Rightarrow> ubus_task list \<Rightarrow> ubus_task option" where
  "latest k ts = List.find (\<lambda>t. task_key t = k) (rev ts)"

text \<open>Every queued task is the latest of its kind, and was pushed.\<close>

definition up_to_date :: "ubus_task list \<Rightarrow> task_queue \<Rightarrow> bool" where
  "up_to_date pushed q \<longleftrightarrow> (\<forall>t \<in> set (tq_items q). latest (task_key t) pushed = Some t)"

lemma latest_snoc [simp]: "latest k (ts @ [t]) = (if task_key t = k then Some t else latest k ts)"
  by (simp add: latest_def)

lemma push_up_to_date:
  assumes "tq_ok q" and "task_wf t" and "up_to_date pushed q" and "task_queue_push t q = (r, q')"
  shows "up_to_date (if r = TQ_RESULT_OK \<or> r = TQ_RESULT_MERGED then pushed @ [t] else pushed) q'"
proof (cases "first_index (\<lambda>x. task_key x = task_key t) (tq_items q)")
  case None
  then have "\<forall>x \<in> set (tq_items q). task_key x \<noteq> task_key t" by (auto simp: first_index_None list_all_iff)
  then show ?thesis
    using push_task_refines(1)[OF assms(1,2)] assms(3,4) None
    by (auto simp: up_to_date_def push_task_def split: if_splits)
next
  case (Some i)
  note i = first_index_Some[OF Some]
  have d: "distinct (map task_key (tq_items q))" using assms(1) by (simp add: tq_ok_def)
  have x: "x = t \<or> x \<in> set (tq_items q) \<and> task_key x \<noteq> task_key t"
    if mem: "x \<in> set ((tq_items q)[i := t])" for x
  proof -
    obtain j where "j < length ((tq_items q)[i := t])" "(tq_items q)[i := t] ! j = x"
      using mem unfolding in_set_conv_nth by blast
    then have j: "j < length (tq_items q)" "x = (tq_items q)[i := t] ! j" by simp_all
    show ?thesis
    proof (cases "j = i")
      case False
      then have "task_key (tq_items q ! j) \<noteq> task_key (tq_items q ! i)"
        using d i j by (metis distinct_map inj_on_eq_iff nth_eq_iff_index_eq nth_mem)
      then show ?thesis using False i j by simp
    qed (use j in simp)
  qed
  have "r = TQ_RESULT_MERGED" "tq_items q' = (tq_items q)[i := t]"
    using push_task_refines(1)[OF assms(1,2)] assms(4) Some by (simp_all add: push_task_def)
  then show ?thesis using assms(3) x by (fastforce simp: up_to_date_def)
qed

lemma tq_run_ok:
  "tq_ok q \<Longrightarrow> ops_wf ops \<Longrightarrow> up_to_date before q \<Longrightarrow> tq_run ops q = (kept, out, q') \<Longrightarrow>
   tq_ok q' \<and> tq_cap q' = tq_cap q \<and> up_to_date (before @ kept) q'"
proof (induction ops arbitrary: q before kept out)
  case (Cons p ops)
  show ?case
  proof (cases p)
    case (Tq_Push t)
    obtain r q1 where q1: "task_queue_push t q = (r, q1)" by (cases "task_queue_push t q")
    have wf: "task_wf t" "ops_wf ops" using Cons.prems(2) Tq_Push by simp_all
    obtain ks where ks: "tq_run ops q1 = (ks, out, q')"
      "kept = (if r = TQ_RESULT_OK \<or> r = TQ_RESULT_MERGED then t # ks else ks)"
      using Cons.prems(4) Tq_Push q1 by (auto split: prod.splits)
    show ?thesis
      using Cons.IH[OF _ wf(2) push_up_to_date[OF Cons.prems(1) wf(1) Cons.prems(3) q1] ks(1)]
        push_task_refines(2,3)[OF Cons.prems(1) wf(1)] q1 ks(2) by auto
  next
    case Tq_Pop
    obtain x q1 where q1: "task_queue_try_pop q = (x, q1)" by (cases "task_queue_try_pop q")
    obtain out' where o': "tq_run ops q1 = (kept, out', q')"
      using Cons.prems(4) Tq_Pop q1 by (auto split: prod.splits)
    note pop = pop_task_refines[OF Cons.prems(1), unfolded q1 snd_conv]
    have "up_to_date before q1"
      using Cons.prems(3) pop(2) by (cases "tq_items q") (auto simp: up_to_date_def)
    then show ?thesis using Cons.IH[OF pop(3) _ _ o'] Cons.prems(2) Tq_Pop pop(4) by simp
  qed
qed simp

end
