(* ===== verification/Result_Queue.thy ===== *)
theory Result_Queue
  imports Task_Queue
begin

text \<open>
  The queue of results of ubus requests in the threaded version of the program
  (\<open>src_adr0005/result_queue.c\<close>): it refuses new results when it is full, except in the place of
  a result that nobody waits for any more. Its waiting functions, which no other part calls,
  are the ones of the event queue.
\<close>

record ubus_result =
  res_service :: string
  res_action :: ubus_action
  res_success :: bool
  res_error_code :: int
  res_request_id :: u32
  res_installed :: bool
  res_running :: bool

datatype result_queue_result = RQ_OK | RQ_DROPPED | RQ_ERR

record result_queue_stats =
  resq_pushes :: u64
  resq_pops :: u64
  resq_drops :: u64
  resq_drops_abandoned :: u64

abbreviation (input) RESULT_QUEUE_MAX_ABANDONED :: nat where "RESULT_QUEUE_MAX_ABANDONED \<equiv> 16"

record result_queue =
  resq_ring :: "ubus_result ring_queue"
  resq_stats :: result_queue_stats
  resq_seq :: u64
  resq_closed :: bool
  abandoned_ids :: "u32 list"
  abandoned_count :: nat

section \<open>Operations\<close>

definition result_queue_signal :: "result_queue \<Rightarrow> result_queue" where
  "result_queue_signal q = q\<lparr>resq_seq := resq_seq q + 1\<rparr>"

definition result_queue_is_abandoned :: "u32 \<Rightarrow> result_queue \<Rightarrow> bool" where
  "result_queue_is_abandoned rid q \<longleftrightarrow> list_ex (\<lambda>i. abandoned_ids q ! i = rid) [0..<abandoned_count q]"

definition result_queue_match_abandoned :: "result_queue \<Rightarrow> ubus_result \<Rightarrow> bool" where
  "result_queue_match_abandoned q res \<longleftrightarrow> result_queue_is_abandoned (res_request_id res) q"

definition zero_result_queue :: result_queue where
  "zero_result_queue = \<lparr>resq_ring = zero_ring_queue,
     resq_stats = \<lparr>resq_pushes = 0, resq_pops = 0, resq_drops = 0, resq_drops_abandoned = 0\<rparr>,
     resq_seq = 0, resq_closed = False,
     abandoned_ids = replicate RESULT_QUEUE_MAX_ABANDONED 0, abandoned_count = 0\<rparr>"

text \<open>\<open>sizeof(ubus_result_t)\<close> is 52 with the usual alignment; only that it is not 0 matters.\<close>

definition result_queue_init :: "bool \<Rightarrow> ubus_result \<Rightarrow> nat \<Rightarrow> result_queue \<Rightarrow> int \<times> result_queue" where
  "result_queue_init mem_ok z cap q =
     (if cap = 0 then (-1, q)
      else
        let q = zero_result_queue;
            (r, ring) = ring_queue_init mem_ok z cap 52 (resq_ring q);
            q = q\<lparr>resq_ring := ring\<rparr>
        in if r \<noteq> 0 then (-1, q)
           else
             let q = q\<lparr>resq_ring := ring_queue_set_overflow_policy RQ_REJECT_NEW (resq_ring q)\<rparr>
             in (0, q\<lparr>resq_seq := 0, resq_closed := False\<rparr>))"

definition result_queue_destroy :: "result_queue \<Rightarrow> result_queue" where
  "result_queue_destroy q = zero_result_queue"

definition result_queue_close :: "result_queue \<Rightarrow> result_queue" where
  "result_queue_close q = result_queue_signal (q\<lparr>resq_closed := True\<rparr>)"

definition on_resq_stats :: "(result_queue_stats \<Rightarrow> result_queue_stats) \<Rightarrow> result_queue \<Rightarrow> result_queue" where
  "on_resq_stats f q = q\<lparr>resq_stats := f (resq_stats q)\<rparr>"

definition result_queue_push :: "ubus_result \<Rightarrow> result_queue \<Rightarrow> result_queue_result \<times> result_queue" where
  "result_queue_push res q =
     (if result_queue_is_abandoned (res_request_id res) q then
        (RQ_DROPPED, on_resq_stats (\<lambda>s. s\<lparr>resq_drops_abandoned := resq_drops_abandoned s + 1\<rparr>) q)
      else
        let (r, ring) = ring_queue_push res (resq_ring q);
            q = q\<lparr>resq_ring := ring\<rparr>
        in if r = RQ_RESULT_OK then
             (RQ_OK, result_queue_signal (on_resq_stats (\<lambda>s. s\<lparr>resq_pushes := resq_pushes s + 1\<rparr>) q))
           else if r = RQ_RESULT_DROPPED then
             let (replaced, ring) = ring_queue_replace_first_if (result_queue_match_abandoned q) res (resq_ring q);
                 q = q\<lparr>resq_ring := ring\<rparr>
             in if replaced then
                  (RQ_OK, result_queue_signal (on_resq_stats (\<lambda>s. s\<lparr>resq_pushes := resq_pushes s + 1,
                     resq_drops_abandoned := resq_drops_abandoned s + 1\<rparr>) q))
                else (RQ_DROPPED, on_resq_stats (\<lambda>s. s\<lparr>resq_drops := resq_drops s + 1\<rparr>) q)
           else (RQ_ERR, q))"

definition result_queue_try_pop :: "result_queue \<Rightarrow> ubus_result option \<times> result_queue" where
  "result_queue_try_pop q =
     (let (out, ring) = ring_queue_pop (resq_ring q);
          q = q\<lparr>resq_ring := ring\<rparr>
      in case out of
           Some t \<Rightarrow> (Some t, on_resq_stats (\<lambda>s. s\<lparr>resq_pops := resq_pops s + 1\<rparr>) q)
         | None \<Rightarrow> (None, q))"

definition result_queue_mark_abandoned :: "u32 \<Rightarrow> result_queue \<Rightarrow> result_queue" where
  "result_queue_mark_abandoned rid q =
     (if abandoned_count q < RESULT_QUEUE_MAX_ABANDONED then
        if list_ex (\<lambda>i. abandoned_ids q ! i = rid) [0..<abandoned_count q] then q
        else q\<lparr>abandoned_ids := (abandoned_ids q)[abandoned_count q := rid],
               abandoned_count := abandoned_count q + 1\<rparr>
      else q)"

definition result_queue_clear_abandoned :: "u32 \<Rightarrow> result_queue \<Rightarrow> result_queue" where
  "result_queue_clear_abandoned rid q =
     (case first_index (\<lambda>i. abandoned_ids q ! i = rid) [0..<abandoned_count q] of
        None \<Rightarrow> q
      | Some i \<Rightarrow>
          let q = q\<lparr>abandoned_ids := (abandoned_ids q)[i := abandoned_ids q ! (abandoned_count q - 1)]\<rparr>
          in q\<lparr>abandoned_count := abandoned_count q - 1\<rparr>)"

definition result_queue_get_stats :: "result_queue \<Rightarrow> result_queue_stats" where
  "result_queue_get_stats q = resq_stats q"

section \<open>The specification\<close>

definition resq_items :: "result_queue \<Rightarrow> ubus_result list" where
  "resq_items q = rq_items (resq_ring q)"

definition resq_cap :: "result_queue \<Rightarrow> nat" where
  "resq_cap q = capacity (resq_ring q)"

text \<open>The abandoned requests as a list without repetition.\<close>

definition abandoned :: "result_queue \<Rightarrow> u32 list" where
  "abandoned q = take (abandoned_count q) (abandoned_ids q)"

definition resq_ok :: "result_queue \<Rightarrow> bool" where
  [wf_defs]: "resq_ok q \<longleftrightarrow> rq_ok (resq_ring q) \<and> policy (resq_ring q) = RQ_REJECT_NEW \<and>
     length (abandoned_ids q) = RESULT_QUEUE_MAX_ABANDONED \<and>
     abandoned_count q \<le> RESULT_QUEUE_MAX_ABANDONED \<and> distinct (abandoned q)"

definition push_result :: "nat \<Rightarrow> u32 set \<Rightarrow> ubus_result \<Rightarrow> ubus_result list \<Rightarrow> result_queue_result \<times> ubus_result list" where
  "push_result cap ids res xs =
     (if res_request_id res \<in> ids then (RQ_DROPPED, xs)
      else if length xs < cap then (RQ_OK, xs @ [res])
      else case first_index (\<lambda>x. res_request_id x \<in> ids) xs of
             Some i \<Rightarrow> (RQ_OK, xs[i := res])
           | None \<Rightarrow> (RQ_DROPPED, xs))"

lemma is_abandoned_iff:
  assumes "resq_ok q"
  shows "result_queue_is_abandoned rid q \<longleftrightarrow> rid \<in> set (abandoned q)"
  using assms by (auto simp: result_queue_is_abandoned_def abandoned_def resq_ok_def list_ex_iff in_set_conv_nth)

lemma push_result_refines:
  assumes "resq_ok q"
  shows "(fst (result_queue_push res q), resq_items (snd (result_queue_push res q))) =
      push_result (resq_cap q) (set (abandoned q)) res (resq_items q)"
    and "resq_ok (snd (result_queue_push res q))" and "resq_cap (snd (result_queue_push res q)) = resq_cap q"
    and "abandoned (snd (result_queue_push res q)) = abandoned q"
proof -
  have rq: "rq_ok (resq_ring q)" and pol: "policy (resq_ring q) = RQ_REJECT_NEW" using assms by (simp_all add: resq_ok_def)
  obtain r ring where r: "ring_queue_push res (resq_ring q) = (r, ring)" by (cases "ring_queue_push res (resq_ring q)")
  note p = push_refines[OF rq, of res, unfolded r fst_conv snd_conv]
  note f = ring_queue_frame(1-3)[of res "resq_ring q", unfolded r snd_conv]
  have ab: "result_queue_match_abandoned (q\<lparr>resq_ring := ring\<rparr>) = (\<lambda>x. res_request_id x \<in> set (abandoned q))"
    using is_abandoned_iff[OF assms]
    by (simp add: fun_eq_iff result_queue_match_abandoned_def result_queue_is_abandoned_def)
  let ?m = "\<lambda>x. res_request_id x \<in> set (abandoned q)"
  obtain b ring' where b: "ring_queue_replace_first_if ?m res ring = (b, ring')"
    by (cases "ring_queue_replace_first_if ?m res ring")
  note g = replace_refines[OF p(2), of ?m res, unfolded b fst_conv snd_conv]
  note h = ring_queue_frame(7-9)[of ?m res ring, unfolded b snd_conv]
  have m: "merged_list (resq_ring q) res xs = None" for xs
    using pol by (simp add: merged_list_def split: option.split)
  have l: "length (rq_items (resq_ring q)) = count (resq_ring q)" by simp
  note defs = result_queue_push_def r ab b is_abandoned_iff[OF assms] push_result_def resq_items_def resq_cap_def
    result_queue_signal_def on_resq_stats_def Let_def
  have fr: "abandoned_ids (snd (result_queue_push res q)) = abandoned_ids q"
    "abandoned_count (snd (result_queue_push res q)) = abandoned_count q"
    by (simp_all add: result_queue_push_def Let_def case_prod_beta result_queue_signal_def on_resq_stats_def)
  show "(fst (result_queue_push res q), resq_items (snd (result_queue_push res q))) =
      push_result (resq_cap q) (set (abandoned q)) res (resq_items q)"
    using p(1) g(1) pol
    by (auto simp: defs push_spec_def m split: if_splits option.splits)
  show "resq_cap (snd (result_queue_push res q)) = resq_cap q"
    using f(1) h(1) by (simp add: defs)
  show ab': "abandoned (snd (result_queue_push res q)) = abandoned q"
    by (simp add: fr abandoned_def)
  show "resq_ok (snd (result_queue_push res q))"
    using assms p(2) g(2) f h ab' unfolding resq_ok_def by (simp add: fr) (simp add: defs)
qed

lemma pop_result_refines:
  assumes "resq_ok q"
  shows "fst (result_queue_try_pop q) = (case resq_items q of [] \<Rightarrow> None | x # xs \<Rightarrow> Some x)"
    and "resq_items (snd (result_queue_try_pop q)) = tl (resq_items q)"
    and "resq_ok (snd (result_queue_try_pop q))" and "resq_cap (snd (result_queue_try_pop q)) = resq_cap q"
    and "abandoned (snd (result_queue_try_pop q)) = abandoned q"
proof -
  have rq: "rq_ok (resq_ring q)" using assms by (simp add: resq_ok_def)
  obtain r ring where r: "ring_queue_pop (resq_ring q) = (r, ring)" by (cases "ring_queue_pop (resq_ring q)")
  note p = pop_refines[OF rq, unfolded r fst_conv snd_conv]
  note f = ring_queue_frame(4-6)[of "resq_ring q", unfolded r snd_conv]
  show "fst (result_queue_try_pop q) = (case resq_items q of [] \<Rightarrow> None | x # xs \<Rightarrow> Some x)"
    "resq_items (snd (result_queue_try_pop q)) = tl (resq_items q)"
    "resq_cap (snd (result_queue_try_pop q)) = resq_cap q"
    "abandoned (snd (result_queue_try_pop q)) = abandoned q"
    "resq_ok (snd (result_queue_try_pop q))"
    using p f assms
    by (auto simp: result_queue_try_pop_def r resq_items_def resq_cap_def resq_ok_def on_resq_stats_def
        abandoned_def split: list.splits option.splits)
qed

lemma mark_abandoned_spec:
  fixes q :: result_queue and rid :: u32
  assumes "resq_ok q"
  defines "q' \<equiv> result_queue_mark_abandoned rid q"
  shows "resq_ok q'"
    and "set (abandoned q') = (if length (abandoned q) < RESULT_QUEUE_MAX_ABANDONED
      then insert rid (set (abandoned q)) else set (abandoned q))"
    and "resq_items q' = resq_items q"
proof -
  have ex: "list_ex (\<lambda>i. abandoned_ids q ! i = rid) [0..<abandoned_count q] \<longleftrightarrow> rid \<in> set (abandoned q)"
    using is_abandoned_iff[OF assms(1)] by (simp add: result_queue_is_abandoned_def)
  have l: "length (abandoned q) = abandoned_count q" "length (abandoned_ids q) = 16"
    using assms(1) by (simp_all add: abandoned_def resq_ok_def)
  have t: "take (Suc (abandoned_count q)) ((abandoned_ids q)[abandoned_count q := rid]) = abandoned q @ [rid]"
    if "abandoned_count q < 16"
    using that l by (simp add: take_Suc_conv_app_nth abandoned_def)
  show "resq_items q' = resq_items q" by (simp add: q'_def result_queue_mark_abandoned_def resq_items_def)
  have "resq_ok q' \<and> set (abandoned q') = (if length (abandoned q) < RESULT_QUEUE_MAX_ABANDONED
      then insert rid (set (abandoned q)) else set (abandoned q))"
  proof (cases "abandoned_count q < 16 \<and> rid \<notin> set (abandoned q)")
    case True
    then have q': "q' = q\<lparr>abandoned_ids := (abandoned_ids q)[abandoned_count q := rid],
        abandoned_count := abandoned_count q + 1\<rparr>"
      using ex by (simp add: q'_def result_queue_mark_abandoned_def)
    have "abandoned q' = abandoned q @ [rid]" using True t by (simp add: q' abandoned_def)
    then show ?thesis using True assms(1) l by (simp add: q' resq_ok_def)
  next
    case False
    then have "q' = q" using ex by (auto simp: q'_def result_queue_mark_abandoned_def)
    then show ?thesis using False assms(1) l by auto
  qed
  then show "resq_ok q'" and "set (abandoned q') = (if length (abandoned q) < RESULT_QUEUE_MAX_ABANDONED
      then insert rid (set (abandoned q)) else set (abandoned q))" by simp_all
qed

lemma clear_abandoned_spec:
  fixes q :: result_queue and rid :: u32
  assumes "resq_ok q"
  defines "q' \<equiv> result_queue_clear_abandoned rid q"
  shows "resq_ok q'" and "set (abandoned q') = set (abandoned q) - {rid}"
    and "resq_items q' = resq_items q"
proof -
  let ?n = "abandoned_count q"
  have l: "length (abandoned q) = ?n" "length (abandoned_ids q) = 16" "?n \<le> 16"
    using assms(1) by (simp_all add: abandoned_def resq_ok_def)
  have d: "distinct (abandoned q)" using assms(1) by (simp add: resq_ok_def)
  show "resq_items q' = resq_items q"
    by (simp add: q'_def result_queue_clear_abandoned_def resq_items_def Let_def split: option.split)
  have f: "first_index (\<lambda>i. abandoned_ids q ! i = rid) [0..<?n] = first_index (\<lambda>x. x = rid) (abandoned q)"
  proof -
    have "first_index (\<lambda>i. abandoned_ids q ! i = rid) [0..<?n] =
        first_index (\<lambda>i. abandoned q ! i = rid) [0..<length (abandoned q)]"
      using l by (simp add: abandoned_def) (rule first_index_cong, simp)
    then show ?thesis using first_index_items[of "\<lambda>x. x = rid" "abandoned q"] by simp
  qed
  have "resq_ok q' \<and> set (abandoned q') = set (abandoned q) - {rid}"
  proof (cases "first_index (\<lambda>x. x = rid) (abandoned q)")
    case None
    then have "q' = q" "rid \<notin> set (abandoned q)"
      using f by (simp_all add: q'_def result_queue_clear_abandoned_def)
        (auto simp: first_index_None list_all_iff)
    then show ?thesis using assms(1) by simp
  next
    case (Some i)
    note i = first_index_Some[OF Some]
    have q': "q' = q\<lparr>abandoned_ids := (abandoned_ids q)[i := abandoned_ids q ! (?n - 1)], abandoned_count := ?n - 1\<rparr>"
      using f Some by (simp add: q'_def result_queue_clear_abandoned_def Let_def)
    obtain us x where ux: "abandoned q = us @ [x]" using i l by (cases "abandoned q" rule: rev_cases) auto
    have n: "?n = Suc (length us)" using ux l by simp
    have x: "abandoned_ids q ! (?n - 1) = x"
    proof -
      have "abandoned q ! (?n - 1) = x" using ux n by simp
      then show ?thesis using n by (simp add: abandoned_def)
    qed
    have ab: "abandoned q' = take (length us) ((abandoned q)[i := x])"
      using n x by (simp add: q' abandoned_def take_update_swap)
    have "abandoned q' = (if i < length us then us[i := x] else us)"
      using ab i l n by (auto simp: ux list_update_append)
    moreover have "i < length us \<Longrightarrow> us ! i = rid" using i by (simp add: ux nth_append)
    moreover have "\<not> i < length us \<Longrightarrow> x = rid" using i n l by (simp add: ux nth_append split: if_splits)
    moreover have "distinct (us @ [x])" using d ux by simp
    ultimately have "distinct (abandoned q') \<and> set (abandoned q') = set (abandoned q) - {rid}"
      by (auto simp: ux distinct_list_update set_update_distinct)
    then show ?thesis using assms(1) l by (simp add: q' resq_ok_def)
  qed
  then show "resq_ok q'" and "set (abandoned q') = set (abandoned q) - {rid}" by simp_all
qed

lemma init_results:
  fixes q :: result_queue and z :: ubus_result
  assumes "0 < cap"
  defines "q' \<equiv> snd (result_queue_init True z cap q)"
  shows "fst (result_queue_init True z cap q) = 0" and "resq_ok q'" and "resq_items q' = []"
    and "resq_cap q' = cap" and "abandoned q' = []"
proof -
  note i = init_refines[of cap 52 z "zero_ring_queue :: ubus_result ring_queue", OF assms(1)]
  have e: "result_queue_init True z cap q =
    (0, zero_result_queue\<lparr>resq_ring := (snd (ring_queue_init True z cap 52 zero_ring_queue))\<lparr>policy := RQ_REJECT_NEW\<rparr>\<rparr>)"
    using assms(1) i by (simp add: result_queue_init_def zero_result_queue_def Let_def case_prod_beta
        ring_queue_set_overflow_policy_def)
  show "fst (result_queue_init True z cap q) = 0" by (simp add: e)
  show "resq_items q' = []" and "resq_cap q' = cap" and "abandoned q' = []" and "resq_ok q'"
    using i by (simp_all add: q'_def e resq_items_def resq_cap_def resq_ok_def rq_ok_def rq_items_def ring_items_def
        ring_ok_def ring.truncate_def abandoned_def zero_result_queue_def)
qed

end
