(* ===== verification/Ubus_Worker.thy ===== *)
theory Ubus_Worker
  imports Result_Queue
begin

text \<open>
  The thread that carries out requests to ubus in the threaded version of the program
  (\<open>src_adr0005/ubus_thread.c\<close>): it takes tasks from one queue and puts one result per task into
  the other; when it is stopped it answers the tasks that are left with an error.
  \<open>poll\<close> and the descriptor that ends it early only decide when the thread looks at its queue.
\<close>

abbreviation (input) ETIMEDOUT :: int where "ETIMEDOUT \<equiv> 110"
abbreviation (input) ENOTSUP :: int where "ENOTSUP \<equiv> 95"
abbreviation (input) ECANCELED :: int where "ECANCELED \<equiv> 125"

section \<open>Results\<close>

definition failed_result :: "ubus_task \<Rightarrow> int \<Rightarrow> ubus_result" where
  "failed_result task code =
     \<lparr>res_service = bounded_copy 32 (task_service task), res_action = task_action task, res_success = False,
      res_error_code = code, res_request_id = task_request_id task, res_installed = False,
      res_running = False\<rparr>"

text \<open>
  The result of a task at time \<open>now_ms\<close>; \<open>invoke\<close> is the call of the ubus interface, if there
  is one, with the result it fills in.
\<close>

definition task_result :: "(ubus_task \<Rightarrow> ubus_result) option \<Rightarrow> u64 \<Rightarrow> ubus_task \<Rightarrow> ubus_result" where
  "task_result invoke now_ms task =
     (if task_queue_is_expired task now_ms then failed_result task (- ETIMEDOUT)
      else case invoke of
             Some f \<Rightarrow> f task
           | None \<Rightarrow> failed_result task (- ENOTSUP))"

definition process_task ::
  "(ubus_task \<Rightarrow> ubus_result) option \<Rightarrow> u64 \<Rightarrow> ubus_task \<Rightarrow> result_queue \<Rightarrow> result_queue" where
  "process_task invoke now_ms task rq = snd (result_queue_push (task_result invoke now_ms task) rq)"

text \<open>The ubus interface as the thread sees it.\<close>

type_synonym ubus_invoke = "(ubus_task \<Rightarrow> ubus_result) option"

text \<open>An interface that copies the service name and the identifier of the task.\<close>

definition echoes :: "ubus_invoke \<Rightarrow> bool" where
  "echoes invoke \<longleftrightarrow> (\<forall>f. invoke = Some f \<longrightarrow>
     (\<forall>t. task_wf t \<longrightarrow> res_service (f t) = task_service t \<and> res_request_id (f t) = task_request_id t))"

lemma task_result_echo:
  assumes "echoes invoke" and "task_wf t"
  shows "res_service (task_result invoke now_ms t) = task_service t \<and>
    res_request_id (task_result invoke now_ms t) = task_request_id t"
  using assms by (auto simp: task_result_def failed_result_def echoes_def task_wf_def bounded_copy_fits split: option.split)

text \<open>
  What the thread needs of an implementation of the interface, a function of the environment, the
  task and its own state: the result is about the task.
\<close>

locale ubus_backend =
  fixes invoke :: "'e \<Rightarrow> ubus_task \<Rightarrow> 's \<Rightarrow> ubus_result \<times> 's"
  assumes service: "res_service (fst (invoke e t s)) = bounded_copy 32 (task_service t)"
    and action: "res_action (fst (invoke e t s)) = task_action t"
    and request: "res_request_id (fst (invoke e t s)) = task_request_id t"
    and verdict: "res_success (fst (invoke e t s)) \<longleftrightarrow> res_error_code (fst (invoke e t s)) = 0"
begin

lemma backend_echoes: "echoes (Some (\<lambda>t. fst (invoke e t s)))"
  by (simp add: echoes_def task_wf_def service request bounded_copy_fits)

lemma backend_result:
  "res_action (task_result (Some (\<lambda>t. fst (invoke e t s))) now_ms t) = task_action t"
  "res_success (task_result (Some (\<lambda>t. fst (invoke e t s))) now_ms t) \<longleftrightarrow>
   res_error_code (task_result (Some (\<lambda>t. fst (invoke e t s))) now_ms t) = 0"
  by (simp_all add: task_result_def failed_result_def action verdict)

end

section \<open>The thread\<close>

lemma try_pop_measure:
  "task_queue_try_pop tq = (Some t, tq') \<Longrightarrow> count (tq_ring tq') < count (tq_ring tq)"
  by (auto simp: task_queue_try_pop_def ring_queue_pop_def on_tq_stats_def Let_def
      split: if_splits)

text \<open>
  The loop over the queued tasks, without the pushes of other threads in between; \<open>now\<close> is the
  clock, read once per task.
\<close>

function run_tasks ::
  "(ubus_task \<Rightarrow> ubus_result) option \<Rightarrow> (ubus_task \<Rightarrow> u64) \<Rightarrow> task_queue \<Rightarrow> result_queue \<Rightarrow>
   task_queue \<times> result_queue" where
  "run_tasks invoke now tq rq =
     (case task_queue_try_pop tq of
        (None, tq) \<Rightarrow> (tq, rq)
      | (Some task, tq) \<Rightarrow> run_tasks invoke now tq (process_task invoke (now task) task rq))"
  by auto
termination
  by (relation "measure (\<lambda>(invoke, now, tq, rq). count (tq_ring tq))") (simp, simp, metis try_pop_measure)

function cancel_tasks :: "task_queue \<Rightarrow> result_queue \<Rightarrow> task_queue \<times> result_queue" where
  "cancel_tasks tq rq =
     (case task_queue_try_pop tq of
        (None, tq) \<Rightarrow> (tq, rq)
      | (Some task, tq) \<Rightarrow>
          cancel_tasks tq (snd (result_queue_push (failed_result task (- ECANCELED)) rq)))"
  by auto
termination
  by (relation "measure (\<lambda>(tq, rq). count (tq_ring tq))") (simp, simp, metis try_pop_measure)

declare run_tasks.simps [simp del] cancel_tasks.simps [simp del]

text \<open>
  One round per element of the list: the queue is drained, then the thread waits, while another
  thread may change the queues (\<open>f\<close>). When \<open>running\<close> is false the rest is cancelled.
\<close>

fun ubus_thread_main ::
  "(ubus_task \<Rightarrow> ubus_result) option \<Rightarrow>
   ((ubus_task \<Rightarrow> u64) \<times> (task_queue \<times> result_queue \<Rightarrow> task_queue \<times> result_queue)) list \<Rightarrow>
   task_queue \<times> result_queue \<Rightarrow> task_queue \<times> result_queue" where
  "ubus_thread_main invoke [] (tq, rq) = cancel_tasks tq rq"
| "ubus_thread_main invoke ((now, f) # rounds) (tq, rq) =
     ubus_thread_main invoke rounds (f (run_tasks invoke now tq rq))"

section \<open>One result per task\<close>

definition push_results :: "nat \<Rightarrow> u32 set \<Rightarrow> ubus_result list \<Rightarrow> ubus_result list \<Rightarrow> ubus_result list" where
  "push_results cap ids rs xs = fold (\<lambda>r xs. snd (push_result cap ids r xs)) rs xs"

lemma pop_nil:
  assumes "tq_ok tq" and "tq_items tq = []"
  obtains tq' where "task_queue_try_pop tq = (None, tq')" "tq_items tq' = []" "tq_ok tq'" "tq_cap tq' = tq_cap tq"
  using pop_task_refines[OF assms(1)] assms(2) by (cases "task_queue_try_pop tq") auto

lemma pop_cons:
  assumes "tq_ok tq" and "tq_items tq = t # ts"
  obtains tq' where "task_queue_try_pop tq = (Some t, tq')" "tq_items tq' = ts" "tq_ok tq'" "tq_cap tq' = tq_cap tq"
  using pop_task_refines[OF assms(1)] assms(2) by (cases "task_queue_try_pop tq") auto

lemma run_tasks_spec:
  assumes "tq_ok tq" and "resq_ok rq" and "run_tasks invoke now tq rq = (tq', rq')"
  shows "tq_ok tq' \<and> tq_items tq' = [] \<and> tq_cap tq' = tq_cap tq \<and> resq_ok rq' \<and> resq_cap rq' = resq_cap rq \<and>
    abandoned rq' = abandoned rq \<and>
    resq_items rq' = push_results (resq_cap rq) (set (abandoned rq))
      (map (\<lambda>t. task_result invoke (now t) t) (tq_items tq)) (resq_items rq)"
  using assms
proof (induction "tq_items tq" arbitrary: tq rq)
  case Nil
  obtain t where "task_queue_try_pop tq = (None, t)" "tq_items t = []" "tq_ok t" "tq_cap t = tq_cap tq"
    using pop_nil[OF Nil.prems(1)] Nil.hyps by metis
  then show ?case using Nil.prems Nil.hyps
    by (auto simp: run_tasks.simps[of invoke now tq rq] push_results_def)
next
  case (Cons t ts)
  obtain tq1 where tq1: "task_queue_try_pop tq = (Some t, tq1)" "tq_items tq1 = ts" "tq_ok tq1" "tq_cap tq1 = tq_cap tq"
    using pop_cons[OF Cons.prems(1)] Cons.hyps(2) by metis
  let ?rq = "process_task invoke (now t) t rq"
  note p = push_result_refines[OF Cons.prems(2), of "task_result invoke (now t) t", folded process_task_def]
  have "run_tasks invoke now tq1 ?rq = (tq', rq')"
    using Cons.prems(3) tq1(1) by (simp add: run_tasks.simps[of invoke now tq rq])
  from Cons.hyps(1)[OF tq1(2)[symmetric] tq1(3) p(2) this] tq1 p
  show ?case by (simp add: push_results_def Cons.hyps(2)[symmetric] prod_eq_iff)
qed

lemma cancel_tasks_spec:
  assumes "tq_ok tq" and "resq_ok rq" and "cancel_tasks tq rq = (tq', rq')"
  shows "tq_ok tq' \<and> tq_items tq' = [] \<and> resq_ok rq' \<and> resq_cap rq' = resq_cap rq \<and> abandoned rq' = abandoned rq \<and>
    resq_items rq' = push_results (resq_cap rq) (set (abandoned rq))
      (map (\<lambda>t. failed_result t (- ECANCELED)) (tq_items tq)) (resq_items rq)"
  using assms
proof (induction "tq_items tq" arbitrary: tq rq)
  case Nil
  obtain t where "task_queue_try_pop tq = (None, t)" "tq_items t = []" "tq_ok t"
    using pop_nil[OF Nil.prems(1)] Nil.hyps by metis
  then show ?case using Nil.prems Nil.hyps
    by (auto simp: cancel_tasks.simps[of tq rq] push_results_def)
next
  case (Cons t ts)
  obtain tq1 where tq1: "task_queue_try_pop tq = (Some t, tq1)" "tq_items tq1 = ts" "tq_ok tq1"
    using pop_cons[OF Cons.prems(1)] Cons.hyps(2) by metis
  note p = push_result_refines[OF Cons.prems(2), of "failed_result t (- ECANCELED)"]
  have "cancel_tasks tq1 (snd (result_queue_push (failed_result t (- ECANCELED)) rq)) = (tq', rq')"
    using Cons.prems(3) tq1(1) by (simp add: cancel_tasks.simps[of tq rq])
  from Cons.hyps(1)[OF tq1(2)[symmetric] tq1(3) p(2) this] tq1 p
  show ?case by (simp add: push_results_def Cons.hyps(2)[symmetric] prod_eq_iff)
qed

text \<open>With room for all of them, and none given up, the results come in the order of the tasks.\<close>

lemma push_results_room:
  "length xs + length rs \<le> cap \<Longrightarrow> \<forall>r \<in> set rs. res_request_id r \<notin> ids \<Longrightarrow>
   push_results cap ids rs xs = xs @ rs"
  by (induction rs arbitrary: xs) (simp_all add: push_results_def push_result_def)

end
