(* ===== verification/Threaded_Status.thy ===== *)
theory Threaded_Status
  imports Ubus_Worker Status_Types
begin

text \<open>
  Service status over the two queues of the threaded version of the program
  (\<open>sys_status_request_services\<close> and \<open>sys_status_process_results\<close> of
  \<open>src_adr0005/sys_status.c\<close>), and its interplay with the thread that carries out the requests.
  \<open>update_service\<close> changes one element of the array of services.
\<close>

abbreviation (input) SERVICE_QUERY_TIMEOUT_MS :: u64 where "SERVICE_QUERY_TIMEOUT_MS \<equiv> 5000"

definition update_service :: "nat \<Rightarrow> (service_status \<Rightarrow> service_status) \<Rightarrow> sys_status \<Rightarrow> sys_status" where
  "update_service i f st = st\<lparr>services := (services st)[i := f (services st ! i)]\<rparr>"

section \<open>Requests\<close>

text \<open>The list of services is filled once, from the configuration.\<close>

definition fill_services :: "service_config \<Rightarrow> sys_status \<Rightarrow> sys_status" where
  "fill_services cfg st =
     (if service_count st = 0 \<and> length cfg > 0 then
        (fold (\<lambda>i. update_service i (\<lambda>s. s\<lparr>svc_name := bounded_copy SERVICE_NAME_MAX_LEN (cfg ! i),
             installed := False, running := False, query_pending := False, status_valid := False,
             request_time_ms := 0, last_update_ms := 0\<rparr>)) [0..<min (length cfg) MAX_SERVICES] st)
        \<lparr>service_count := length cfg\<rparr>
      else st)"

text \<open>
  The loop body for service \<open>i\<close>, over the status, \<open>next_request_id\<close> and the task queue.
  \<open>enqueue_time_ms\<close> is not set: the task is zeroed.
\<close>

definition request_service ::
  "u64 \<Rightarrow> nat \<Rightarrow> sys_status \<times> u32 \<times> task_queue \<Rightarrow> sys_status \<times> u32 \<times> task_queue" where
  "request_service now_ms i x =
     (let (st, next, tq) = x;
          svc = services st ! i
      in if query_pending svc \<and> \<not> now_ms - request_time_ms svc > SERVICE_QUERY_TIMEOUT_MS then (st, next, tq)
         else
           let st = (if query_pending svc
                     then update_service i (\<lambda>s. s\<lparr>query_pending := False, status_valid := False\<rparr>) st
                     else st);
               task = \<lparr>task_service = bounded_copy 32 (svc_name (services st ! i)),
                 task_action = UBUS_ACTION_QUERY, task_request_id = next, task_timeout_ms = 2000,
                 task_enqueue_ms = 0\<rparr>;
               (r, tq) = task_queue_push task tq
           in if r = TQ_RESULT_OK then
                (update_service i (\<lambda>s. s\<lparr>query_pending := True, request_id := task_request_id task,
                   request_time_ms := now_ms\<rparr>) st, next + 1, tq)
              else (st, next + 1, tq))"

definition sys_status_request_services ::
  "service_config \<Rightarrow> u64 \<Rightarrow> sys_status \<times> u32 \<times> task_queue \<Rightarrow> sys_status \<times> u32 \<times> task_queue" where
  "sys_status_request_services cfg now_sec x =
     (let (st, next, tq) = x;
          now_ms = now_sec * 1000;
          st = fill_services cfg st
      in fold (request_service now_ms) [0..<service_count st] (st, next, tq))"

section \<open>Results\<close>

definition store_result :: "u64 \<Rightarrow> ubus_result \<Rightarrow> int \<times> sys_status \<Rightarrow> int \<times> sys_status" where
  "store_result now_ms res x =
     (let (cnt, st) = x in
      case first_index (\<lambda>s. request_id s = res_request_id res \<and> query_pending s)
             (take (service_count st) (services st)) of
        None \<Rightarrow> (cnt, st)
      | Some i \<Rightarrow>
          (cnt + 1, update_service i (\<lambda>s.
             let s = s\<lparr>query_pending := False\<rparr> in
             if res_success res
             then s\<lparr>installed := res_installed res, running := res_running res, status_valid := True,
                    last_update_ms := now_ms\<rparr>
             else s\<lparr>status_valid := False\<rparr>) st))"

lemma result_pop_measure:
  "result_queue_try_pop rq = (Some r, rq') \<Longrightarrow> count (resq_ring rq') < count (resq_ring rq)"
  by (auto simp: result_queue_try_pop_def ring_queue_pop_def on_resq_stats_def Let_def split: if_splits)

function process_results :: "u64 \<Rightarrow> int \<times> sys_status \<Rightarrow> result_queue \<Rightarrow> (int \<times> sys_status) \<times> result_queue" where
  "process_results now_ms x rq =
     (case result_queue_try_pop rq of
        (None, rq) \<Rightarrow> (x, rq)
      | (Some r, rq) \<Rightarrow> process_results now_ms (store_result now_ms r x) rq)"
  by auto
termination
  by (relation "measure (\<lambda>(now_ms, x, rq). count (resq_ring rq))") (simp, simp, metis result_pop_measure)

declare process_results.simps [simp del]

definition sys_status_process_results ::
  "u64 \<Rightarrow> sys_status \<Rightarrow> result_queue \<Rightarrow> int \<times> sys_status \<times> result_queue" where
  "sys_status_process_results now_sec st rq =
     (let ((cnt, st), rq) = process_results (now_sec * 1000) (0, st) rq in (cnt, st, rq))"

section \<open>Both threads\<close>

text \<open>
  The shared state: the user interface thread calls the two functions above, whose loop bodies
  the other thread may interleave with; the worker has taken at most one task.
\<close>

record threads =
  th_status :: sys_status
  next_request_id :: u32
  th_tasks :: task_queue
  th_results :: result_queue
  th_busy :: "ubus_task option"

text \<open>
  \<open>clock\<close> are the times the worker may read, \<open>hal\<close> the ubus interfaces it may call; the number
  counts the requests.
\<close>

inductive threads_step ::
  "service_config \<Rightarrow> (u64 \<Rightarrow> bool) \<Rightarrow> (ubus_invoke \<Rightarrow> bool) \<Rightarrow> nat \<Rightarrow> threads \<Rightarrow> threads \<Rightarrow> bool"
  for cfg clock hal where
  fill: "threads_step cfg clock hal 0 s (s\<lparr>th_status := fill_services cfg (th_status s)\<rparr>)"
| request: "i < service_count (th_status s) \<Longrightarrow>
    request_service now_ms i (th_status s, next_request_id s, th_tasks s) = (st, next, tq) \<Longrightarrow>
    threads_step cfg clock hal 1 s (s\<lparr>th_status := st, next_request_id := next, th_tasks := tq\<rparr>)"
| result: "result_queue_try_pop (th_results s) = (Some r, rq) \<Longrightarrow>
    threads_step cfg clock hal 0 s
      (s\<lparr>th_status := snd (store_result now_ms r (0, th_status s)), th_results := rq\<rparr>)"
| take_task: "th_busy s = None \<Longrightarrow> task_queue_try_pop (th_tasks s) = (Some t, tq) \<Longrightarrow>
    threads_step cfg clock hal 0 s (s\<lparr>th_tasks := tq, th_busy := Some t\<rparr>)"
| finish_task: "th_busy s = Some t \<Longrightarrow> clock now_ms \<Longrightarrow> hal invoke \<Longrightarrow>
    threads_step cfg clock hal 0 s
      (s\<lparr>th_results := process_task invoke now_ms t (th_results s), th_busy := None\<rparr>)"

text \<open>The state in which the threads start, with queues of 16 elements.\<close>

definition threads_start :: "ubus_task \<Rightarrow> ubus_result \<Rightarrow> threads" where
  "threads_start z r =
     \<lparr>th_status = zero_status, next_request_id = 1,
      th_tasks = snd (task_queue_init True z 16 zero_task_queue),
      th_results = snd (result_queue_init True r 16 zero_result_queue), th_busy = None\<rparr>"

inductive threads_reachable ::
  "service_config \<Rightarrow> (u64 \<Rightarrow> bool) \<Rightarrow> (ubus_invoke \<Rightarrow> bool) \<Rightarrow> nat \<Rightarrow> threads \<Rightarrow> bool"
  for cfg clock hal where
  start: "threads_reachable cfg clock hal 0 (threads_start z r)"
| step: "threads_reachable cfg clock hal n s \<Longrightarrow> threads_step cfg clock hal k s s' \<Longrightarrow>
    threads_reachable cfg clock hal (n + k) s'"

section \<open>Every query expires\<close>

definition never_enqueued :: "ubus_task \<Rightarrow> bool" where
  "never_enqueued t \<longleftrightarrow> task_enqueue_ms t = 0 \<and> task_timeout_ms t = 2000"

definition expiry_inv :: "threads \<Rightarrow> bool" where
  [wf_defs]: "expiry_inv s \<longleftrightarrow>
     tq_ok (th_tasks s) \<and> list_all never_enqueued (tq_items (th_tasks s)) \<and>
     pred_option never_enqueued (th_busy s) \<and>
     resq_ok (th_results s) \<and> list_all (\<lambda>r. \<not> res_success r) (resq_items (th_results s)) \<and>
     list_all (\<lambda>v. \<not> status_valid v) (services (th_status s))"

lemma never_enqueued_expired:
  "never_enqueued t \<Longrightarrow> 2000 < now_ms \<Longrightarrow> task_queue_is_expired t now_ms"
  by (simp add: never_enqueued_def task_queue_is_expired_def)

lemma push_task_set: "set (snd (push_task cap t xs)) \<subseteq> insert t (set xs)"
  by (auto simp: push_task_def split: option.splits if_splits dest: subsetD[OF set_update_subset_insert])

lemma push_result_set: "set (snd (push_result cap ids r xs)) \<subseteq> insert r (set xs)"
  by (auto simp: push_result_def split: option.splits if_splits dest: subsetD[OF set_update_subset_insert])

lemma push_task_all:
  assumes "tq_ok q" and "task_wf t" and "task_queue_push t q = (r, q')" and "list_all P (tq_items q)" and "P t"
  shows "tq_ok q'" and "list_all P (tq_items q')"
proof -
  have "tq_items q' = snd (push_task (tq_cap q) t (tq_items q))"
    using push_task_refines(1)[OF assms(1,2)] assms(3) by (simp add: prod_eq_iff)
  then show "list_all P (tq_items q')"
    using push_task_set[of "tq_cap q" t "tq_items q"] assms(4,5) by (auto simp: list_all_iff)
  show "tq_ok q'" using push_task_refines(2)[OF assms(1,2)] assms(3) by simp
qed

lemma pop_task_all:
  assumes "tq_ok q" and "task_queue_try_pop q = (Some t, q')" and "list_all P (tq_items q)"
  shows "tq_ok q'" and "list_all P (tq_items q')" and "P t"
  using pop_task_refines[OF assms(1)] assms(2,3) by (cases "tq_items q"; simp)+

lemma process_task_all:
  assumes "resq_ok q" and "list_all P (resq_items q)" and "P (task_result invoke now_ms t)"
  shows "resq_ok (process_task invoke now_ms t q)" and "list_all P (resq_items (process_task invoke now_ms t q))"
proof -
  note r = push_result_refines[OF assms(1), of "task_result invoke now_ms t", folded process_task_def]
  have "resq_items (process_task invoke now_ms t q) =
      snd (push_result (resq_cap q) (set (abandoned q)) (task_result invoke now_ms t) (resq_items q))"
    using r(1) by (simp add: prod_eq_iff)
  then show "list_all P (resq_items (process_task invoke now_ms t q))"
    using push_result_set[of "resq_cap q" "set (abandoned q)" "task_result invoke now_ms t" "resq_items q"]
      assms(2,3) by (auto simp: list_all_iff)
  show "resq_ok (process_task invoke now_ms t q)" by (rule r(2))
qed

lemma pop_result_all:
  assumes "resq_ok q" and "result_queue_try_pop q = (Some r, q')" and "list_all P (resq_items q)"
  shows "resq_ok q'" and "list_all P (resq_items q')" and "P r"
  using pop_result_refines[OF assms(1)] assms(2,3) by (cases "resq_items q"; simp)+

lemma update_service_all:
  "list_all P (services st) \<Longrightarrow> (\<And>v. P v \<Longrightarrow> P (f v)) \<Longrightarrow> list_all P (services (update_service i f st))"
  by (cases "i < length (services st)")
    (simp_all add: update_service_def list_all_nthD list_all_update list_update_beyond)

lemma fill_services_all:
  assumes "list_all P (services st)"
    and "\<And>v n. P v \<Longrightarrow> P (v\<lparr>svc_name := n, installed := False, running := False, query_pending := False,
      status_valid := False, request_time_ms := 0, last_update_ms := 0\<rparr>)"
  shows "list_all P (services (fill_services cfg st))"
proof -
  have "list_all P (services (fold (\<lambda>i. update_service i (\<lambda>s. s\<lparr>svc_name := bounded_copy SERVICE_NAME_MAX_LEN (cfg ! i),
      installed := False, running := False, query_pending := False, status_valid := False,
      request_time_ms := 0, last_update_ms := 0\<rparr>)) ks st))" for ks
    using assms(1)
  proof (induction ks arbitrary: st)
    case (Cons i ks)
    show ?case unfolding fold.simps comp_apply
      by (rule Cons.IH, rule update_service_all[OF Cons.prems]) (use assms(2) in simp)
  qed simp
  then show ?thesis using assms(1) by (simp add: fill_services_def)
qed

lemma request_expiry:
  assumes "tq_ok tq" and "list_all never_enqueued (tq_items tq)" and "list_all (\<lambda>v. \<not> status_valid v) (services st)"
    and "request_service now_ms i (st, next, tq) = (st', next', tq')"
  shows "tq_ok tq' \<and> list_all never_enqueued (tq_items tq') \<and> list_all (\<lambda>v. \<not> status_valid v) (services st')"
proof -
  let ?st = "if query_pending (services st ! i)
    then update_service i (\<lambda>s. s\<lparr>query_pending := False, status_valid := False\<rparr>) st else st"
  let ?t = "\<lparr>task_service = bounded_copy 32 (svc_name (services ?st ! i)), task_action = UBUS_ACTION_QUERY,
    task_request_id = next, task_timeout_ms = 2000, task_enqueue_ms = 0\<rparr>"
  obtain r q where q: "task_queue_push ?t tq = (r, q)" by (cases "task_queue_push ?t tq")
  have t: "task_wf ?t" "never_enqueued ?t"
    using length_bounded_copy[of 32] by (simp_all add: task_wf_def never_enqueued_def)
  have st: "list_all (\<lambda>v. \<not> status_valid v) (services ?st)"
    using assms(3) by (simp add: update_service_all)
  then have "list_all (\<lambda>v. \<not> status_valid v) (services (update_service i f ?st))"
    if "\<And>v. status_valid (f v) = status_valid v" for f
    using that by (simp add: update_service_all)
  then show ?thesis
    using assms st push_task_all[OF assms(1) t(1) q assms(2) t(2)] q
    by (auto simp: request_service_def Let_def split: if_splits)
qed

lemma expiry_step:
  assumes "expiry_inv s" and "threads_step cfg clock hal k s s'" and "\<And>n. clock n \<Longrightarrow> 2000 < n"
  shows "expiry_inv s'"
  using assms(2)
proof cases
  case fill
  then show ?thesis using assms(1) by (simp add: expiry_inv_def fill_services_all)
next
  case (request i now_ms st nxt tq)
  then show ?thesis using assms(1) request_expiry[OF _ _ _ request(4)] by (simp add: expiry_inv_def)
next
  case (result r rq now_ms)
  have "list_all (\<lambda>v. \<not> status_valid v) (services (snd (store_result now_ms r (0, th_status s))))"
    if "\<not> res_success r"
    using that assms(1)
    by (auto simp: store_result_def expiry_inv_def Let_def intro: update_service_all split: option.split)
  then show ?thesis
    using result assms(1) pop_result_all[OF _ result(3), where P = "\<lambda>r. \<not> res_success r"]
    by (simp add: expiry_inv_def)
next
  case (take_task t tq)
  then show ?thesis using assms(1) pop_task_all[OF _ take_task(4), where P = never_enqueued] by (simp add: expiry_inv_def)
next
  case (finish_task t now_ms invoke)
  have "\<not> res_success (task_result invoke now_ms t)"
    using assms(1) finish_task assms(3) never_enqueued_expired
    by (simp add: expiry_inv_def task_result_def failed_result_def)
  then show ?thesis
    using finish_task assms(1) process_task_all[of "th_results s" "\<lambda>r. \<not> res_success r"]
    by (simp add: expiry_inv_def)
qed

lemma expiry_reachable:
  assumes "threads_reachable cfg clock hal n s" and "\<And>n. clock n \<Longrightarrow> 2000 < n"
  shows "expiry_inv s"
  using assms(1)
proof (induction rule: threads_reachable.induct)
  case (start z r)
  then show ?case
    using init_tasks[of 16 z zero_task_queue] init_results[of 16 r zero_result_queue]
    by (simp add: threads_start_def expiry_inv_def zero_status_def zero_service_def list_all_iff)
next
  case (step n s k s')
  then show ?case using expiry_step assms(2) by blast
qed

section \<open>Replies reach the service that asked\<close>

text \<open>The requests under way, as pairs of service and identifier.\<close>

definition under_way :: "threads \<Rightarrow> (string \<times> u32) set" where
  "under_way s =
     (\<lambda>t. (task_service t, task_request_id t)) ` (set (tq_items (th_tasks s)) \<union> set_option (th_busy s)) \<union>
     (\<lambda>r. (res_service r, res_request_id r)) ` set (resq_items (th_results s))"

definition route_inv :: "threads \<Rightarrow> bool" where
  [wf_defs]: "route_inv s \<longleftrightarrow>
     tq_ok (th_tasks s) \<and> resq_ok (th_results s) \<and> pred_option task_wf (th_busy s) \<and>
     list_all (\<lambda>v. length (svc_name v) < 32) (services (th_status s)) \<and>
     (\<forall>p \<in> under_way s. snd p < next_request_id s) \<and>
     (\<forall>v \<in> set (services (th_status s)). query_pending v \<longrightarrow>
        request_id v < next_request_id s \<and>
        (\<forall>p \<in> under_way s. snd p = request_id v \<longrightarrow> fst p = svc_name v))"

lemma route_inv_less:
  assumes "route_inv s" and "tq_ok (th_tasks s')" and "resq_ok (th_results s')" and "pred_option task_wf (th_busy s')"
    and "list_all (\<lambda>v. length (svc_name v) < 32) (services (th_status s'))"
    and "under_way s' \<subseteq> under_way s" and "next_request_id s' = next_request_id s"
    and "\<And>v. v \<in> set (services (th_status s')) \<Longrightarrow> query_pending v \<Longrightarrow> v \<in> set (services (th_status s))"
  shows "route_inv s'"
  using assms unfolding route_inv_def by (simp, blast)

lemma update_service_mem:
  "v \<in> set (services (update_service i f st)) \<Longrightarrow>
   v \<in> set (services st) \<or> i < length (services st) \<and> v = f (services st ! i)"
  by (cases "i < length (services st)")
    (auto simp: update_service_def list_update_beyond dest: subsetD[OF set_update_subset_insert])

lemma fill_services_pending:
  "v \<in> set (services (fill_services cfg st)) \<Longrightarrow> query_pending v \<Longrightarrow> v \<in> set (services st)"
proof -
  have "v \<in> set (services st)"
    if "v \<in> set (services (fold (\<lambda>i. update_service i (\<lambda>s. s\<lparr>svc_name := bounded_copy SERVICE_NAME_MAX_LEN (cfg ! i),
      installed := False, running := False, query_pending := False, status_valid := False,
      request_time_ms := 0, last_update_ms := 0\<rparr>)) ks st))" and "query_pending v" for ks
    using that
  proof (induction ks arbitrary: st)
    case (Cons i ks)
    from Cons.IH[OF Cons.prems(1)[unfolded fold.simps comp_apply] Cons.prems(2)]
    show ?case using Cons.prems(2) by (auto dest: update_service_mem)
  qed simp
  then show "v \<in> set (services (fill_services cfg st)) \<Longrightarrow> query_pending v \<Longrightarrow> v \<in> set (services st)"
    by (auto simp: fill_services_def split: if_splits)
qed

lemma fill_services_names:
  "list_all (\<lambda>v. length (svc_name v) < 32) (services st) \<Longrightarrow>
   list_all (\<lambda>v. length (svc_name v) < 32) (services (fill_services cfg st))"
proof -
  assume st: "list_all (\<lambda>v. length (svc_name v) < 32) (services st)"
  have "list_all (\<lambda>v. length (svc_name v) < 32)
    (services (fold (\<lambda>i. update_service i (\<lambda>s. s\<lparr>svc_name := bounded_copy SERVICE_NAME_MAX_LEN (cfg ! i),
      installed := False, running := False, query_pending := False, status_valid := False,
      request_time_ms := 0, last_update_ms := 0\<rparr>)) ks st))" for ks
    using st
  proof (induction ks arbitrary: st)
    case (Cons i ks)
    show ?case unfolding fold.simps comp_apply
      by (rule Cons.IH, rule update_service_all[OF Cons.prems]) (simp add: length_bounded_copy)
  qed simp
  then show ?thesis using st by (simp add: fill_services_def)
qed

lemma route_request:
  assumes "route_inv s" and "unat (next_request_id s) + 1 < 2 ^ 32"
    and "request_service now_ms i (th_status s, next_request_id s, th_tasks s) = (st', next', tq')"
    and "i < length (services (th_status s))"
  shows "route_inv (s\<lparr>th_status := st', next_request_id := next', th_tasks := tq'\<rparr>)"
    and "next' = next_request_id s \<or> next' = next_request_id s + 1"
proof -
  define st0 where "st0 = (if query_pending (services (th_status s) ! i)
    then update_service i (\<lambda>s. s\<lparr>query_pending := False, status_valid := False\<rparr>) (th_status s) else th_status s)"
  let ?n = "next_request_id s"
  let ?t = "\<lparr>task_service = bounded_copy 32 (svc_name (services st0 ! i)), task_action = UBUS_ACTION_QUERY,
    task_request_id = ?n, task_timeout_ms = 2000, task_enqueue_ms = 0\<rparr>"
  obtain r q where q: "task_queue_push ?t (th_tasks s) = (r, q)" by (cases "task_queue_push ?t (th_tasks s)")
  have eq: "request_service now_ms i (th_status s, ?n, th_tasks s) =
    (if query_pending (services (th_status s) ! i) \<and>
        \<not> now_ms - request_time_ms (services (th_status s) ! i) > SERVICE_QUERY_TIMEOUT_MS
     then (th_status s, ?n, th_tasks s)
     else if r = TQ_RESULT_OK
       then (update_service i (\<lambda>s. s\<lparr>query_pending := True, request_id := ?n, request_time_ms := now_ms\<rparr>) st0, ?n + 1, q)
       else (st0, ?n + 1, q))"
    unfolding request_service_def Let_def prod.case st0_def[symmetric] q by simp
  have ok: "tq_ok (th_tasks s)" using assms(1) by (simp add: route_inv_def)
  have wf: "task_wf ?t" using length_bounded_copy[of 32] by (simp add: task_wf_def)
  have items: "set (tq_items q) \<subseteq> insert ?t (set (tq_items (th_tasks s)))" "tq_ok q"
    using push_task_refines(1,2)[OF ok wf] q push_task_set[of "tq_cap (th_tasks s)" ?t "tq_items (th_tasks s)"]
    by (simp_all add: prod_eq_iff)
  have len: "length (services st0) = length (services (th_status s))" by (simp add: st0_def update_service_def)
  have names: "list_all (\<lambda>v. length (svc_name v) < 32) (services st0)"
    using assms(1) by (simp add: st0_def route_inv_def update_service_all)
  then have nm: "length (svc_name (services st0 ! i)) < 32" using assms(4) len by (simp add: list_all_length)
  have old: "v \<in> set (services (th_status s))" if "v \<in> set (services st0)" "query_pending v" for v
    using that by (auto simp: st0_def split: if_splits dest!: update_service_mem)
  have lt: "?n < ?n + 1" using assms(2) by (simp add: word_less_nat_alt unat_word_ariths)
  let ?s = "\<lambda>st. s\<lparr>th_status := st, next_request_id := ?n + 1, th_tasks := q\<rparr>"
  have uw: "p \<in> under_way (?s st) \<Longrightarrow> p \<in> under_way s \<or> p = (svc_name (services st0 ! i), ?n)" for p st
    using items(1) nm by (auto simp: under_way_def bounded_copy_fits)
  have small: "p \<in> under_way s \<Longrightarrow> snd p < ?n" for p using assms(1) by (simp add: route_inv_def)
  have pend: "v \<in> set (services (th_status s)) \<Longrightarrow> query_pending v \<Longrightarrow> request_id v < ?n \<and>
      (\<forall>p \<in> under_way s. snd p = request_id v \<longrightarrow> fst p = svc_name v)" for v
    using assms(1) by (simp add: route_inv_def)
  have base: "route_inv (?s st)"
    if "list_all (\<lambda>v. length (svc_name v) < 32) (services st)"
      "\<And>v. v \<in> set (services st) \<Longrightarrow> query_pending v \<Longrightarrow>
        v \<in> set (services (th_status s)) \<or> request_id v = ?n \<and> svc_name v = svc_name (services st0 ! i)" for st
    unfolding route_inv_def
  proof (intro conjI ballI impI)
    show "snd p < next_request_id (?s st)" if "p \<in> under_way (?s st)" for p
      using uw[OF that] small lt by fastforce
    fix v assume v: "v \<in> set (services (th_status (?s st)))" "query_pending v"
    then have c: "v \<in> set (services (th_status s)) \<or> request_id v = ?n \<and> svc_name v = svc_name (services st0 ! i)"
      using \<open>\<And>v. v \<in> set (services st) \<Longrightarrow> _ \<Longrightarrow> _\<close> by simp
    then show "request_id v < next_request_id (?s st)" using pend[OF _ v(2)] lt by fastforce
    show "fst p = svc_name v" if p: "p \<in> under_way (?s st)" "snd p = request_id v" for p
      using uw[OF p(1)] c pend[OF _ v(2)] small p(2) by fastforce
  qed (use that assms(1) items(2) in \<open>simp_all add: route_inv_def\<close>)
  let ?skip = "query_pending (services (th_status s) ! i) \<and>
    \<not> now_ms - request_time_ms (services (th_status s) ! i) > SERVICE_QUERY_TIMEOUT_MS"
  show "route_inv (s\<lparr>th_status := st', next_request_id := next', th_tasks := tq'\<rparr>)"
  proof (cases ?skip)
    case True
    then have "st' = th_status s \<and> next' = ?n \<and> tq' = th_tasks s" using assms(3) by (simp add: eq)
    then show ?thesis using assms(1) by simp
  next
    case skip: False
    show ?thesis
    proof (cases "r = TQ_RESULT_OK")
      case False
      then have "st' = st0" "next' = ?n + 1" "tq' = q" using assms(3) skip by (simp_all add: eq)
      then show ?thesis using base[OF names] old by simp
    next
      case True
      then have 3: "st' = update_service i (\<lambda>s. s\<lparr>query_pending := True, request_id := ?n, request_time_ms := now_ms\<rparr>) st0"
        "next' = ?n + 1" "tq' = q" using assms(3) skip by (simp_all add: eq)
      have "v \<in> set (services (th_status s)) \<or> request_id v = ?n \<and> svc_name v = svc_name (services st0 ! i)"
        if "v \<in> set (services st')" "query_pending v" for v
        using update_service_mem[OF that(1)[unfolded 3]] old that(2) by auto
      moreover have "list_all (\<lambda>v. length (svc_name v) < 32) (services st')"
        using names by (simp add: 3 update_service_all)
      ultimately show ?thesis using base[of st'] 3(2,3) by simp
    qed
  qed
  show "next' = next_request_id s \<or> next' = next_request_id s + 1"
    using assms(3) by (cases ?skip; cases "r = TQ_RESULT_OK") (simp_all add: eq)
qed

lemma store_result_pending:
  "v \<in> set (services (snd (store_result now_ms r (c, st)))) \<Longrightarrow> query_pending v \<Longrightarrow> v \<in> set (services st)"
  by (auto simp: store_result_def Let_def split: option.splits if_splits dest!: update_service_mem)

lemma store_result_names:
  "list_all (\<lambda>v. length (svc_name v) < 32) (services st) \<Longrightarrow>
   list_all (\<lambda>v. length (svc_name v) < 32) (services (snd (store_result now_ms r (c, st))))"
  by (auto simp: store_result_def Let_def intro: update_service_all split: option.splits)

definition route_count :: "nat \<Rightarrow> threads \<Rightarrow> bool" where
  "route_count n s \<longleftrightarrow> route_inv s \<and> unat (next_request_id s) \<le> n + 1 \<and>
     service_count (th_status s) \<le> length (services (th_status s)) \<and> length (services (th_status s)) = MAX_SERVICES"

lemma length_update_service [simp]:
  "length (services (update_service i f st)) = length (services st)"
  "service_count (update_service i f st) = service_count st"
  by (simp_all add: update_service_def)

lemma length_fold_update [simp]:
  "length (services (fold (\<lambda>i. update_service i (f i)) ks st)) = length (services st)"
  by (induction ks arbitrary: st) simp_all

lemma service_counts:
  "length (services (fill_services cfg st)) = length (services st)"
  "length cfg \<le> MAX_SERVICES \<Longrightarrow> service_count st \<le> MAX_SERVICES \<Longrightarrow> service_count (fill_services cfg st) \<le> MAX_SERVICES"
  "length (services (snd (store_result now_ms r (c, st)))) = length (services st)"
  "service_count (snd (store_result now_ms r (c, st))) = service_count st"
  by (auto simp: fill_services_def store_result_def Let_def split: option.split)

lemma request_counts:
  assumes "request_service now_ms i (st, n, tq) = (st', n', tq')"
  shows "length (services st') = length (services st) \<and> service_count st' = service_count st"
proof -
  define x where "x = request_service now_ms i (st, n, tq)"
  have "length (services (fst x)) = length (services st) \<and> service_count (fst x) = service_count st"
    by (simp add: x_def request_service_def Let_def case_prod_beta)
  then show ?thesis using assms by (simp add: x_def)
qed

lemma route_step:
  assumes "route_count n s" and "threads_step cfg clock hal k s s'" and "n + 2 < 2 ^ 32"
    and "length cfg \<le> MAX_SERVICES" and "\<And>f. hal f \<Longrightarrow> echoes f"
  shows "route_count (n + k) s'"
proof -
  have inv: "route_inv s" and lim: "unat (next_request_id s) + 1 < 2 ^ 32"
    and len: "service_count (th_status s) \<le> 8" "length (services (th_status s)) = 8"
    and n: "unat (next_request_id s) \<le> n + 1"
    using assms(1,3) by (simp_all add: route_count_def)
  note i = inv[unfolded route_inv_def]
  show ?thesis using assms(2)
  proof cases
    case fill
    have "route_inv s'"
      by (rule route_inv_less[OF inv])
        (use fill i in \<open>auto simp: fill_services_names under_way_def intro: fill_services_pending\<close>)
    then show ?thesis using fill n len assms(4) service_counts by (simp add: route_count_def)
  next
    case (request i now_ms st nxt tq)
    then have "i < length (services (th_status s))" using len by simp
    note r = route_request[OF inv lim request(4) this]
    have "unat nxt \<le> n + 2"
      using r(2) n lim by (auto simp: unat_word_ariths)
    then show ?thesis using request r(1) n len request_counts[OF request(4)] by (simp add: route_count_def)
  next
    case (result r rq now_ms)
    note p = pop_result_refines[OF conjunct1[OF conjunct2[OF i]], unfolded result(3) fst_conv snd_conv]
    have "set (resq_items rq) \<subseteq> set (resq_items (th_results s))"
      using p(2) by (cases "resq_items (th_results s)") auto
    then have "route_inv s'"
      by (intro route_inv_less[OF inv])
        (use result i p(3) in \<open>auto simp: store_result_names under_way_def intro: store_result_pending\<close>)
    then show ?thesis using result n len service_counts by (simp add: route_count_def)
  next
    case (take_task t tq)
    note p = pop_task_refines[OF conjunct1[OF i], unfolded take_task(4) fst_conv snd_conv]
    have q: "tq_items (th_tasks s) = t # tq_items tq" using p(1,2) by (cases "tq_items (th_tasks s)") auto
    then have "task_wf t" using i by (simp add: tq_ok_def)
    then have "route_inv s'"
      by (intro route_inv_less[OF inv]) (use take_task i p(3) q in \<open>auto simp: under_way_def\<close>)
    then show ?thesis using take_task n len by (simp add: route_count_def)
  next
    case (finish_task t now_ms invoke)
    have t: "task_wf t" using i finish_task by simp
    note e = task_result_echo[OF assms(5)[OF finish_task(5)] t, of now_ms]
    note p = push_result_refines[OF conjunct1[OF conjunct2[OF i]], of "task_result invoke now_ms t", folded process_task_def]
    have "set (resq_items (process_task invoke now_ms t (th_results s))) \<subseteq>
        insert (task_result invoke now_ms t) (set (resq_items (th_results s)))"
      using p(1) push_result_set[of "resq_cap (th_results s)" "set (abandoned (th_results s))"
          "task_result invoke now_ms t" "resq_items (th_results s)"] by (simp add: prod_eq_iff)
    then have "under_way s' \<subseteq> under_way s"
      using finish_task e by (fastforce simp: under_way_def)
    then have "route_inv s'"
      by (intro route_inv_less[OF inv]) (use finish_task i p(2) in auto)
    then show ?thesis using finish_task n len by (simp add: route_count_def)
  qed
qed

lemma route_reachable:
  assumes "threads_reachable cfg clock hal n s" and "n + 2 < 2 ^ 32"
    and "length cfg \<le> MAX_SERVICES" and "\<And>f. hal f \<Longrightarrow> echoes f"
  shows "route_count n s"
  using assms(1,2)
proof (induction rule: threads_reachable.induct)
  case (start z r)
  then show ?case
    using init_tasks[of 16 z zero_task_queue] init_results[of 16 r zero_result_queue]
    by (simp add: threads_start_def route_count_def route_inv_def zero_status_def zero_service_def list_all_iff
        under_way_def)
next
  case (step n s k s')
  have "n + 2 < 2 ^ 32" using step.prems by simp
  then show ?case using route_step[OF step.IH step.hyps(2) _ assms(3,4)] by simp
qed

end
