(* ===== verification/Ubus_Sync.thy ===== *)
theory Ubus_Sync
  imports Ubus_Worker
begin

text \<open>
  The ubus interface of the threaded version of the program, over libubus
  (\<open>src_adr0005/hal/ubus_hal_real.c\<close>) and its mock (\<open>src_adr0005/hal/ubus_hal_mock.c\<close>). The calls
  block; a request that fails for a reason of the connection is tried once more over a new one.
  libubus is third-party code: what its calls return is the environment of an operation, and
  the sequence of calls made is recorded. \<open>LIB_STATUS_X\<close> is the code \<open>UBUS_STATUS_X\<close>.
\<close>

abbreviation (input) BACKOFF_BASE :: int where "BACKOFF_BASE \<equiv> 1"
abbreviation (input) BACKOFF_MAX :: int where "BACKOFF_MAX \<equiv> 60"

datatype lib_status =
    LIB_STATUS_OK
  | LIB_STATUS_CONNECTION_FAILED
  | LIB_STATUS_NO_DATA
  | LIB_STATUS_TIMEOUT
  | LIB_STATUS_OTHER

text \<open>
  The calls into libubus: \<open>ubus_connect\<close> and whether it gives a context, \<open>ubus_free\<close>,
  \<open>ubus_lookup_id\<close> and the id it finds, \<open>ubus_invoke\<close> with the id, the method and its result.
\<close>

datatype lib_call =
    Lib_Connect bool
  | Lib_Free
  | Lib_Lookup "u32 option"
  | Lib_Invoke u32 string lib_status

text \<open>The statics of the module; \<open>sync_ub\<close> records an undefined shift, \<open>sync_log\<close> the calls.\<close>

record ubus_sync =
  sync_ctx :: bool
  sync_rc_id :: u32
  sync_failures :: int
  sync_successes :: int
  sync_last_attempt :: int
  sync_ub :: bool
  sync_log :: "lib_call list"

definition sync_start :: ubus_sync where
  "sync_start = \<lparr>sync_ctx = False, sync_rc_id = 0, sync_failures = 0, sync_successes = 0,
     sync_last_attempt = 0, sync_ub = False, sync_log = []\<rparr>"

text \<open>
  An attribute of a reply: a table with the value of its boolean field \<open>running\<close>, if it has
  one, or something else.
\<close>

datatype rc_attr = Rc_Table "bool option" | Rc_Other

text \<open>
  The environment of one attempt: the two readings of the clock, whether a context can be had,
  whether \<open>rc\<close> is found and under which id, and the messages that the callback is given and
  the status of the call.
\<close>

record sync_env =
  at_check :: int
  at_connect :: int
  can_connect :: bool
  rc_found :: bool
  rc_id :: u32
  rc_replies :: "rc_attr list list"
  rc_status :: lib_status

definition lib :: "lib_call \<Rightarrow> ubus_sync \<Rightarrow> ubus_sync" where
  "lib c h = h\<lparr>sync_log := sync_log h @ [c]\<rparr>"

section \<open>Replies\<close>

text \<open>The first table of a message says that the service is installed, and may say that it runs.\<close>

fun rc_list_cb :: "rc_attr list \<Rightarrow> bool \<times> bool \<Rightarrow> bool \<times> bool" where
  "rc_list_cb [] q = q"
| "rc_list_cb (Rc_Other # msg) q = rc_list_cb msg q"
| "rc_list_cb (Rc_Table r # msg) q = (True, if r = Some True then True else snd q)"

section \<open>The connection\<close>

definition sync_reset_connection :: "ubus_sync \<Rightarrow> ubus_sync" where
  "sync_reset_connection h =
     (let h = (if sync_ctx h then (lib Lib_Free h)\<lparr>sync_ctx := False\<rparr> else h)
      in h\<lparr>sync_rc_id := 0\<rparr>)"

text \<open>\<open>None\<close> when the shift of the \<open>int\<close> 1 is undefined.\<close>

definition sync_backoff_delay :: "int \<Rightarrow> int option" where
  "sync_backoff_delay failures =
     (if failures = 0 then Some 0
      else if failures - 1 < 0 \<or> 31 \<le> failures - 1 then None
      else
        let delay = BACKOFF_BASE * 2 ^ nat (failures - 1)
        in Some (if delay > BACKOFF_MAX then BACKOFF_MAX else delay))"

definition sync_connect :: "sync_env \<Rightarrow> ubus_sync \<Rightarrow> int \<times> ubus_sync" where
  "sync_connect e h =
     (let h = lib (Lib_Connect (can_connect e)) (h\<lparr>sync_last_attempt := at_connect e\<rparr>);
          h = h\<lparr>sync_ctx := can_connect e\<rparr>
      in if \<not> sync_ctx h
         then (-1, h\<lparr>sync_rc_id := 0, sync_failures := sync_failures h + 1, sync_successes := 0\<rparr>)
         else (0, h\<lparr>sync_failures := 0\<rparr>))"

definition sync_ensure_context :: "sync_env \<Rightarrow> ubus_sync \<Rightarrow> int \<times> ubus_sync" where
  "sync_ensure_context e h =
     (if sync_ctx h then (0, h)
      else if sync_failures h > 0 then
        (case sync_backoff_delay (sync_failures h) of
           None \<Rightarrow> sync_connect e (h\<lparr>sync_ub := True\<rparr>)
         | Some delay \<Rightarrow>
             if at_check e - sync_last_attempt h < delay then (-1, h) else sync_connect e h)
      else sync_connect e h)"

definition sync_ensure_rc_id :: "sync_env \<Rightarrow> ubus_sync \<Rightarrow> int \<times> ubus_sync" where
  "sync_ensure_rc_id e h =
     (let (r, h) = sync_ensure_context e h in
      if r < 0 then (-1, h)
      else if sync_rc_id h \<noteq> 0 then (0, h)
      else
        let h = lib (Lib_Lookup (if rc_found e then Some (rc_id e) else None)) h
        in if \<not> rc_found e then (-1, sync_reset_connection h)
           else (0, h\<lparr>sync_rc_id := rc_id e\<rparr>))"

definition is_connection_error :: "lib_status \<Rightarrow> bool" where
  "is_connection_error ret \<longleftrightarrow>
     ret = LIB_STATUS_CONNECTION_FAILED \<or> ret = LIB_STATUS_NO_DATA \<or> ret = LIB_STATUS_TIMEOUT"

section \<open>Requests\<close>

text \<open>
  The code of \<open>query_service\<close> and \<open>action_service\<close> from the label \<open>retry\<close> on, which differs in the
  method and in the callback for the replies; the number is \<open>retries\<close>, which also selects the
  environment of the attempt.
\<close>

fun retry_request ::
  "string \<Rightarrow> (rc_attr list \<Rightarrow> bool \<times> bool \<Rightarrow> bool \<times> bool) \<Rightarrow> (nat \<Rightarrow> sync_env) \<Rightarrow> nat \<Rightarrow> bool \<times> bool \<Rightarrow>
   ubus_sync \<Rightarrow> int \<times> (bool \<times> bool) \<times> ubus_sync" where
  "retry_request meth cb env retries q h =
     (let e = env retries; (r, h) = sync_ensure_rc_id e h in
      if r < 0 then (-1, q, h)
      else
        let ret = rc_status e;
            h = lib (Lib_Invoke (sync_rc_id h) meth ret) h;
            q = fold cb (rc_replies e) q
        in if ret \<noteq> LIB_STATUS_OK \<and> is_connection_error ret \<and> retries > 0
           then retry_request meth cb env (retries - 1) q (sync_reset_connection h)
           else (if ret \<noteq> LIB_STATUS_OK then -1 else 0, q, h))"

declare retry_request.simps [simp del]

definition query_service ::
  "(nat \<Rightarrow> sync_env) \<Rightarrow> string \<Rightarrow> bool \<times> bool \<Rightarrow> ubus_sync \<Rightarrow> int \<times> (bool \<times> bool) \<times> ubus_sync" where
  "query_service env name q h =
     (if name = [] then (-1, q, h) else retry_request ''list'' rc_list_cb env 1 (False, False) h)"

definition action_service ::
  "(nat \<Rightarrow> sync_env) \<Rightarrow> string \<Rightarrow> string \<Rightarrow> ubus_sync \<Rightarrow> int \<times> ubus_sync" where
  "action_service env name action h =
     (if name = [] \<or> action = [] then (-1, h)
      else let (r, _, h) = retry_request ''init'' (\<lambda>_ q. q) env 1 (False, False) h in (r, h))"

definition sync_real_init :: "sync_env \<Rightarrow> ubus_sync \<Rightarrow> int \<times> ubus_sync" where
  "sync_real_init e h = sync_ensure_context e h"

definition sync_real_cleanup :: "ubus_sync \<Rightarrow> ubus_sync" where
  "sync_real_cleanup h =
     (if sync_ctx h then (lib Lib_Free h)\<lparr>sync_ctx := False, sync_rc_id := 0\<rparr> else h)"

definition sync_real_invoke ::
  "(nat \<Rightarrow> sync_env) \<Rightarrow> ubus_task \<Rightarrow> ubus_sync \<Rightarrow> ubus_result \<times> ubus_sync" where
  "sync_real_invoke env task h =
     (let (ret, q, h) =
        (case task_action task of
           UBUS_ACTION_QUERY \<Rightarrow> query_service env (task_service task) (False, False) h
         | UBUS_ACTION_START \<Rightarrow>
             (let (ret, h) = action_service env (task_service task) ''start'' h in (ret, (False, False), h))
         | UBUS_ACTION_STOP \<Rightarrow>
             (let (ret, h) = action_service env (task_service task) ''stop'' h in (ret, (False, False), h)))
      in (\<lparr>res_service = bounded_copy 32 (task_service task), res_action = task_action task,
            res_success = (ret = 0), res_error_code = ret, res_request_id = task_request_id task,
            res_installed = fst q, res_running = snd q\<rparr>, h))"

section \<open>The mock\<close>

record sync_mock =
  mock_fail_count :: int
  mock_call_count :: int

definition sync_mock_reset :: "sync_mock \<Rightarrow> sync_mock" where
  "sync_mock_reset m = m\<lparr>mock_fail_count := 0, mock_call_count := 0\<rparr>"

definition sync_mock_set_fail_count :: "int \<Rightarrow> sync_mock \<Rightarrow> sync_mock" where
  "sync_mock_set_fail_count n m = m\<lparr>mock_fail_count := n\<rparr>"

definition sync_mock_init :: "sync_mock \<Rightarrow> int \<times> sync_mock" where
  "sync_mock_init m = (0, m\<lparr>mock_call_count := 0\<rparr>)"

definition sync_mock_cleanup :: "sync_mock \<Rightarrow> sync_mock" where
  "sync_mock_cleanup m = m\<lparr>mock_call_count := 0\<rparr>"

definition sync_mock_invoke :: "ubus_task \<Rightarrow> sync_mock \<Rightarrow> ubus_result \<times> sync_mock" where
  "sync_mock_invoke task m =
     (let m = m\<lparr>mock_call_count := mock_call_count m + 1\<rparr>;
          res = \<lparr>res_service = bounded_copy 32 (task_service task), res_action = task_action task,
            res_success = False, res_error_code = 0, res_request_id = task_request_id task,
            res_installed = False, res_running = False\<rparr>
      in if mock_fail_count m > 0 then
           (res\<lparr>res_success := False, res_error_code := -1\<rparr>, m\<lparr>mock_fail_count := mock_fail_count m - 1\<rparr>)
         else
           let res = res\<lparr>res_success := True, res_error_code := 0\<rparr>
           in (if task_action task = UBUS_ACTION_QUERY
               then res\<lparr>res_installed := True, res_running := True\<rparr> else res, m))"

section \<open>The contract of libubus\<close>

text \<open>
  What libubus asks of its caller: one context at a time, freed before the next is made, and
  requests only with the id last looked up on it. \<open>None\<close> is a call that breaks this.
\<close>

datatype lib_state = Closed | Open | Ready u32

fun lib_next :: "lib_call \<Rightarrow> lib_state \<Rightarrow> lib_state option" where
  "lib_next (Lib_Connect ok) Closed = Some (if ok then Open else Closed)"
| "lib_next (Lib_Connect ok) _ = None"
| "lib_next c Closed = None"
| "lib_next Lib_Free _ = Some Closed"
| "lib_next (Lib_Lookup (Some i)) _ = Some (Ready i)"
| "lib_next (Lib_Lookup None) s = Some s"
| "lib_next (Lib_Invoke i m r) (Ready j) = (if i = j then Some (Ready j) else None)"
| "lib_next (Lib_Invoke i m r) Open = None"

fun lib_run :: "lib_call list \<Rightarrow> lib_state \<Rightarrow> lib_state option" where
  "lib_run [] s = Some s"
| "lib_run (c # cs) s = Option.bind (lib_next c s) (lib_run cs)"

lemma lib_run_append [simp]: "lib_run (xs @ ys) s = Option.bind (lib_run xs s) (lib_run ys)"
proof (induction xs arbitrary: s)
  case (Cons c cs)
  then show ?case by (cases "lib_next c s") simp_all
qed simp

text \<open>The statics agree with the state of the library that the calls made so far lead to.\<close>

definition sync_ok :: "ubus_sync \<Rightarrow> bool" where
  [wf_defs]: "sync_ok h \<longleftrightarrow>
     (case lib_run (sync_log h) Closed of
        None \<Rightarrow> False
      | Some Closed \<Rightarrow> \<not> sync_ctx h \<and> sync_rc_id h = 0
      | Some Open \<Rightarrow> sync_ctx h \<and> sync_rc_id h = 0
      | Some (Ready i) \<Rightarrow> sync_ctx h \<and> sync_rc_id h = i)"

lemma sync_ok_reset: "sync_ok h \<Longrightarrow> sync_ok (sync_reset_connection h)"
  by (auto simp: sync_ok_def sync_reset_connection_def lib_def Let_def split: option.splits lib_state.splits)

lemma sync_ok_cleanup: "sync_ok h \<Longrightarrow> sync_ok (sync_real_cleanup h) \<and> \<not> sync_ctx (sync_real_cleanup h)"
  by (auto simp: sync_ok_def sync_real_cleanup_def lib_def split: option.splits lib_state.splits)

lemma sync_ok_connect:
  "sync_ok h \<Longrightarrow> \<not> sync_ctx h \<Longrightarrow> sync_connect e h = (r, h') \<Longrightarrow> sync_ok h' \<and> (r \<ge> 0 \<longrightarrow> sync_ctx h')"
  by (auto simp: sync_ok_def sync_connect_def lib_def Let_def split: option.splits lib_state.splits if_splits)

lemma sync_ok_context:
  assumes "sync_ok h" and "sync_ensure_context e h = (r, h')"
  shows "sync_ok h' \<and> (r \<ge> 0 \<longrightarrow> sync_ctx h')"
proof (cases "sync_ctx h")
  case False
  have ub: "sync_ok (h\<lparr>sync_ub := True\<rparr>)"
    using assms(1) by (simp add: sync_ok_def split: option.splits lib_state.splits)
  have "r = -1 \<and> h' = h \<or> sync_connect e h = (r, h') \<or> sync_connect e (h\<lparr>sync_ub := True\<rparr>) = (r, h')"
    using assms(2) False unfolding sync_ensure_context_def by (simp split: if_splits option.splits)
  then show ?thesis
    using assms(1) sync_ok_connect[OF assms(1) False] sync_ok_connect[OF ub] False by fastforce
qed (use assms in \<open>simp add: sync_ensure_context_def\<close>)

lemma sync_ok_ctx:
  assumes "sync_ok h" and "sync_ctx h"
  obtains "lib_run (sync_log h) Closed = Some Open" "sync_rc_id h = 0"
  | "lib_run (sync_log h) Closed = Some (Ready (sync_rc_id h))"
  using assms by (auto simp: sync_ok_def split: option.splits lib_state.splits)

lemma sync_ok_lookup:
  assumes "sync_ok h" and "sync_ctx h" and "sync_rc_id h = 0"
  shows "sync_ok (lib (Lib_Lookup None) h)"
    and "sync_ok ((lib (Lib_Lookup (Some i)) h)\<lparr>sync_rc_id := i\<rparr>)"
    and "lib_run (sync_log (lib (Lib_Lookup (Some i)) h)) Closed = Some (Ready i)"
  by (rule sync_ok_ctx[OF assms(1,2)]; use assms(2,3) in \<open>simp add: sync_ok_def lib_def\<close>)+

lemma sync_ok_rc_id:
  assumes "sync_ok h" and "sync_ensure_rc_id e h = (r, h')"
  shows "sync_ok h' \<and> (r \<ge> 0 \<longrightarrow> lib_run (sync_log h') Closed = Some (Ready (sync_rc_id h')))"
proof -
  obtain r1 h1 where c: "sync_ensure_context e h = (r1, h1)" by (cases "sync_ensure_context e h")
  note ok = sync_ok_context[OF assms(1) c]
  consider "r1 < 0" | "\<not> r1 < 0" "sync_rc_id h1 \<noteq> 0" | "\<not> r1 < 0" "sync_rc_id h1 = 0" by blast
  then show ?thesis
  proof cases
    case 2
    then have "lib_run (sync_log h1) Closed = Some (Ready (sync_rc_id h1))"
      using sync_ok_ctx[of h1] ok by (metis not_less)
    then show ?thesis using assms(2) c ok 2 by (simp add: sync_ensure_rc_id_def)
  next
    case 3
    then have l: "sync_ok h1" "sync_ctx h1" using ok by simp_all
    show ?thesis using assms(2) c 3 sync_ok_lookup[OF l 3(2)] sync_ok_reset[OF sync_ok_lookup(1)[OF l 3(2)]]
      by (auto simp: sync_ensure_rc_id_def Let_def split: if_splits)
  qed (use assms(2) c ok in \<open>simp add: sync_ensure_rc_id_def\<close>)
qed

lemma sync_ok_invoke:
  assumes "sync_ok h" and "lib_run (sync_log h) Closed = Some (Ready (sync_rc_id h))"
  shows "sync_ok (lib (Lib_Invoke (sync_rc_id h) m st) h)"
  using assms by (simp add: sync_ok_def lib_def)

text \<open>The ways an attempt can go.\<close>

lemma retry_request_cases:
  assumes "retry_request meth cb env n q h = (r, q', h')"
  obtains h1 where "sync_ensure_rc_id (env n) h = (-1, h1)" "r = -1" "h' = h1"
  | h1 where "sync_ensure_rc_id (env n) h = (0, h1)" "is_connection_error (rc_status (env n))" "n > 0"
      "retry_request meth cb env (n - 1) (fold cb (rc_replies (env n)) q)
         (sync_reset_connection (lib (Lib_Invoke (sync_rc_id h1) meth (rc_status (env n))) h1)) = (r, q', h')"
  | h1 where "sync_ensure_rc_id (env n) h = (0, h1)"
      "r = (if rc_status (env n) = LIB_STATUS_OK then 0 else -1)"
      "h' = lib (Lib_Invoke (sync_rc_id h1) meth (rc_status (env n))) h1"
proof -
  obtain r1 h1 where c: "sync_ensure_rc_id (env n) h = (r1, h1)" by (cases "sync_ensure_rc_id (env n) h")
  have "r1 = -1 \<or> r1 = 0"
    using c by (auto simp: sync_ensure_rc_id_def Let_def split: prod.splits if_splits)
  then show thesis
    using that c assms
    by (cases "rc_status (env n) \<noteq> LIB_STATUS_OK \<and> is_connection_error (rc_status (env n)) \<and> n > 0")
      (auto simp: retry_request.simps[of meth cb env n q h] Let_def simp del: if_not_P)
qed

lemma retry_request_ok: "sync_ok h \<Longrightarrow> retry_request meth cb env n q h = (r, q', h') \<Longrightarrow> sync_ok h'"
proof (induction n arbitrary: q h)
  case (Suc n)
  from Suc.prems(2) show ?case
  proof (cases rule: retry_request_cases)
    case (2 h1)
    note ok = sync_ok_rc_id[OF Suc.prems(1) 2(1)]
    show ?thesis by (rule Suc.IH[OF _ 2(4)[simplified]]) (use ok in \<open>simp add: sync_ok_invoke sync_ok_reset\<close>)
  qed (use sync_ok_rc_id[OF Suc.prems(1)] in \<open>auto intro: sync_ok_invoke\<close>)
next
  case 0
  from 0(2) show ?case
    by (cases rule: retry_request_cases) (use sync_ok_rc_id[OF 0(1)] in \<open>auto intro: sync_ok_invoke\<close>)
qed

lemma sync_ok_real_invoke:
  assumes "sync_ok h" and "sync_real_invoke env t h = (r, h')"
  shows "sync_ok h'"
  using assms retry_request_ok[OF assms(1)]
  by (auto simp: sync_real_invoke_def query_service_def action_service_def split: ubus_action.splits prod.splits if_splits)

section \<open>At most one repetition\<close>

text \<open>The results of the requests among the calls.\<close>

fun invoke_results :: "lib_call list \<Rightarrow> lib_status list" where
  "invoke_results [] = []"
| "invoke_results (Lib_Invoke i m st # cs) = st # invoke_results cs"
| "invoke_results (_ # cs) = invoke_results cs"

lemma invoke_results_append [simp]: "invoke_results (xs @ ys) = invoke_results xs @ invoke_results ys"
  by (induction xs rule: invoke_results.induct) simp_all

text \<open>\<open>h'\<close> makes further calls, whose requests have the results \<open>rs\<close>.\<close>

definition log_adds :: "ubus_sync \<Rightarrow> ubus_sync \<Rightarrow> lib_status list \<Rightarrow> bool" where
  "log_adds h h' rs \<longleftrightarrow> (\<exists>cs. sync_log h' = sync_log h @ cs \<and> invoke_results cs = rs)"

lemma log_adds_trans: "log_adds h h1 rs \<Longrightarrow> log_adds h1 h2 rs' \<Longrightarrow> log_adds h h2 (rs @ rs')"
  by (auto simp: log_adds_def)

lemma log_adds_simps:
  "log_adds h h []" "log_adds h (lib (Lib_Invoke i m st) h) [st]"
  "log_adds h (sync_reset_connection h) []"
  by (auto simp: log_adds_def sync_reset_connection_def lib_def Let_def)

lemma log_adds_connect: "log_adds h (snd (sync_connect e h)) []"
  by (auto simp: log_adds_def sync_connect_def lib_def Let_def)

lemma log_adds_context: "log_adds h (snd (sync_ensure_context e h)) []"
  using log_adds_connect[of h e] log_adds_connect[of "h\<lparr>sync_ub := True\<rparr>" e]
  by (simp add: sync_ensure_context_def log_adds_simps(1) log_adds_def split: option.split)

lemma log_adds_rc_id:
  assumes "sync_ensure_rc_id e h = (r, h')"
  shows "log_adds h h' []"
proof -
  obtain r1 h1 where c: "sync_ensure_context e h = (r1, h1)" by (cases "sync_ensure_context e h")
  then obtain cs where "sync_log h1 = sync_log h @ cs" "invoke_results cs = []"
    using log_adds_context[of h e] by (auto simp: log_adds_def)
  then show ?thesis using assms c
    by (auto simp: sync_ensure_rc_id_def log_adds_def sync_reset_connection_def lib_def Let_def split: if_splits)
qed

definition outcome :: "nat \<Rightarrow> lib_status list \<Rightarrow> int \<Rightarrow> bool" where
  "outcome n rs ret \<longleftrightarrow> length rs \<le> n \<and> list_all is_connection_error (butlast rs) \<and>
     ret = (if rs \<noteq> [] \<and> last rs = LIB_STATUS_OK then 0 else -1)"

lemma outcome_repeat:
  "outcome n rs ret \<Longrightarrow> is_connection_error st \<Longrightarrow> outcome (Suc n) (st # rs) ret"
  by (auto simp: outcome_def is_connection_error_def)

lemma outcome_none: "outcome n [] (-1)"
  by (simp add: outcome_def)

lemma outcome_last: "outcome (Suc n) [st] (if st = LIB_STATUS_OK then 0 else -1)"
  by (simp add: outcome_def)

lemma retry_request_outcome:
  "retry_request meth cb env n q h = (r, q', h') \<Longrightarrow> \<exists>rs. log_adds h h' rs \<and> outcome (Suc n) rs r"
proof (induction n arbitrary: q h)
  case (Suc n)
  from Suc.prems show ?case
  proof (cases rule: retry_request_cases)
    case (1 h1)
    show ?thesis unfolding 1(2,3) using log_adds_rc_id[OF 1(1)] outcome_none by blast
  next
    case (2 h1)
    let ?st = "rc_status (env (Suc n))"
    obtain rs where rs: "log_adds (sync_reset_connection (lib (Lib_Invoke (sync_rc_id h1) meth ?st) h1)) h' rs"
      "outcome (Suc n) rs r"
      using Suc.IH[OF 2(4)[simplified]] by blast
    have "log_adds h h' (?st # rs)"
      using log_adds_trans[OF log_adds_rc_id[OF 2(1)]
          log_adds_trans[OF log_adds_simps(2) log_adds_trans[OF log_adds_simps(3) rs(1)]]] by simp
    then show ?thesis using outcome_repeat[OF rs(2) 2(2)] by blast
  next
    case (3 h1)
    show ?thesis unfolding 3(2,3)
      using log_adds_trans[OF log_adds_rc_id[OF 3(1)] log_adds_simps(2)] outcome_last by (metis append_Nil)
  qed
next
  case 0
  from 0 show ?case
  proof (cases rule: retry_request_cases)
    case (1 h1)
    show ?thesis unfolding 1(2,3) using log_adds_rc_id[OF 1(1)] outcome_none by blast
  next
    case (3 h1)
    show ?thesis unfolding 3(2,3)
      using log_adds_trans[OF log_adds_rc_id[OF 3(1)] log_adds_simps(2)] outcome_last by (metis append_Nil)
  qed simp
qed

lemma real_invoke_outcome:
  assumes "sync_real_invoke env t h = (res, h')"
  obtains ret rs where "log_adds h h' rs" "outcome 2 rs ret" "res_success res \<longleftrightarrow> ret = 0"
proof -
  have "\<exists>rs ret. log_adds h h' rs \<and> outcome 2 rs ret \<and> (res_success res \<longleftrightarrow> ret = 0)"
  proof (cases "task_service t = []")
    case True
    then have "h' = h \<and> res_success res = False"
      using assms by (auto simp: sync_real_invoke_def query_service_def action_service_def split: ubus_action.splits)
    then show ?thesis using log_adds_simps(1) outcome_none by (metis zero_neq_neg_one)
  next
    case False
    then obtain meth cb r q' where a: "retry_request meth cb env 1 (False, False) h = (r, q', h')" "res_success res \<longleftrightarrow> r = 0"
      using assms
      by (auto simp: sync_real_invoke_def query_service_def action_service_def split: ubus_action.splits prod.splits)
    then show ?thesis using retry_request_outcome[OF a(1)] by (auto simp: numeral_2_eq_2)
  qed
  then show thesis using that by blast
qed

section \<open>Both are backends of the worker\<close>

interpretation sync: ubus_backend sync_real_invoke
  by unfold_locales
    (auto simp: sync_real_invoke_def Let_def case_prod_beta split: ubus_action.split)

interpretation mock: ubus_backend "\<lambda>_ :: unit. sync_mock_invoke"
  by unfold_locales (simp_all add: sync_mock_invoke_def Let_def)

text \<open>
  The interfaces a program is linked with: the real one, in any state of its connection and any
  environment, the mock, or none.
\<close>

inductive program_hal :: "ubus_invoke \<Rightarrow> bool" where
  real: "program_hal (Some (\<lambda>t. fst (sync_real_invoke env t h)))"
| mock: "program_hal (Some (\<lambda>t. fst (sync_mock_invoke t m)))"
| none: "program_hal None"

lemma program_hal_echoes: "program_hal f \<Longrightarrow> echoes f"
proof (induction rule: program_hal.induct)
  case (mock m)
  show ?case by (rule mock.backend_echoes)
qed (rule sync.backend_echoes, simp add: echoes_def)

section \<open>Runs of the interface\<close>

datatype sync_op = Sync_Init sync_env | Sync_Invoke "nat \<Rightarrow> sync_env" ubus_task | Sync_Cleanup

fun sync_step :: "sync_op \<Rightarrow> ubus_sync \<Rightarrow> ubus_sync" where
  "sync_step (Sync_Init e) h = snd (sync_real_init e h)"
| "sync_step (Sync_Invoke env t) h = snd (sync_real_invoke env t h)"
| "sync_step Sync_Cleanup h = sync_real_cleanup h"

lemma sync_ok_step: "sync_ok h \<Longrightarrow> sync_ok (sync_step op h)"
proof (cases op)
  case (Sync_Init e)
  show "sync_ok h \<Longrightarrow> ?thesis"
    using sync_ok_context[of h e] Sync_Init by (cases "sync_ensure_context e h") (simp add: sync_real_init_def)
next
  case (Sync_Invoke env t)
  show "sync_ok h \<Longrightarrow> ?thesis"
    using sync_ok_real_invoke[of h env t] Sync_Invoke by (cases "sync_real_invoke env t h") simp
qed (simp add: sync_ok_cleanup)

lemma sync_ok_run: "sync_ok (fold sync_step ops sync_start)"
proof -
  have "sync_ok h \<Longrightarrow> sync_ok (fold sync_step ops h)" for h
    by (induction ops arbitrary: h) (simp_all add: sync_ok_step)
  then show ?thesis by (simp add: sync_ok_def sync_start_def)
qed

end
