(* ===== verification/Event_Loop.thy ===== *)
theory Event_Loop
  imports App_Events Gpio_Buttons
begin

text \<open>
  The event loop of the threaded version of the program (\<open>src_adr0005/event_loop.c\<close>): the main
  thread waits for button edges, a timer and a control descriptor, and pushes events for the user
  interface thread. The control descriptor carries requests of the other thread and of the
  signal handler: a flag is stored first, then the descriptor is written.
\<close>

section \<open>State\<close>

text \<open>
  The fields of \<open>event_loop_t\<close>, with the queue that \<open>queue\<close> points to (\<open>queue_linked\<close>: it is not
  NULL) and what the kernel keeps: the value of the control descriptor and the timer's first
  expiry and interval as pairs of seconds and nanoseconds.
\<close>

record event_loop =
  el_queue :: event_queue
  queue_linked :: bool
  gpio_fd :: int
  event_fd :: int
  timer_fd :: int
  el_running :: bool
  shutdown_requested :: bool
  pending_tick_ms :: int
  el_tick_ms :: int
  event_fd_value :: nat
  timer_value :: "int \<times> int"
  timer_interval :: "int \<times> int"

abbreviation (input) MAX_GPIO_EVENTS_PER_POLL :: nat where "MAX_GPIO_EVENTS_PER_POLL \<equiv> 16"

section \<open>Operations\<close>

fun to_app_event_type :: "gpio_event_type \<Rightarrow> app_event_type" where
  "to_app_event_type GPIO_EVT_BTN_K1_SHORT = EVT_BTN_K1_SHORT"
| "to_app_event_type GPIO_EVT_BTN_K2_SHORT = EVT_BTN_K2_SHORT"
| "to_app_event_type GPIO_EVT_BTN_K3_SHORT = EVT_BTN_K3_SHORT"
| "to_app_event_type GPIO_EVT_BTN_K1_LONG = EVT_BTN_K1_LONG"
| "to_app_event_type GPIO_EVT_BTN_K2_LONG = EVT_BTN_K2_LONG"
| "to_app_event_type GPIO_EVT_BTN_K3_LONG = EVT_BTN_K3_LONG"
| "to_app_event_type _ = EVT_NONE"

text \<open>\<open>ok\<close> is whether \<open>timerfd_settime\<close> succeeds.\<close>

definition event_loop_apply_tick :: "bool \<Rightarrow> int \<Rightarrow> event_loop \<Rightarrow> int \<times> event_loop" where
  "event_loop_apply_tick ok tick_ms loop =
     (let interval = (if tick_ms > 0 then (c_div tick_ms 1000, c_rem tick_ms 1000 * 1000000) else (0, 0));
          val = (if tick_ms > 0 then interval else (0, 0))
      in if \<not> ok then (-1, loop)
         else (0, loop\<lparr>timer_interval := interval, timer_value := val, el_tick_ms := tick_ms\<rparr>))"

definition event_loop_cleanup :: "event_loop \<Rightarrow> event_loop" where
  "event_loop_cleanup loop =
     loop\<lparr>timer_fd := -1, event_fd := -1, gpio_fd := -1, queue_linked := False\<rparr>"

text \<open>
  \<open>button_fd\<close>, \<open>efd\<close> and \<open>tfd\<close> are what \<open>get_fd\<close>, \<open>eventfd\<close> and \<open>timerfd_create\<close> return.
\<close>

definition event_loop_init :: "int \<Rightarrow> int \<Rightarrow> int \<Rightarrow> event_queue \<Rightarrow> int \<times> event_loop" where
  "event_loop_init button_fd efd tfd q =
     (let loop = \<lparr>el_queue = q, queue_linked = True, gpio_fd = button_fd, event_fd = efd, timer_fd = tfd, el_running = False,
            shutdown_requested = False, pending_tick_ms = -1, el_tick_ms = 0, event_fd_value = 0,
            timer_value = (0, 0), timer_interval = (0, 0)\<rparr>
      in if efd < 0 \<or> tfd < 0 then (-1, event_loop_cleanup loop) else (0, loop))"

definition push_loop :: "app_event \<Rightarrow> event_loop \<Rightarrow> event_loop" where
  "push_loop evt loop = loop\<lparr>el_queue := snd (event_queue_push evt (el_queue loop))\<rparr>"

text \<open>The results of the calls of \<open>wait_event\<close>, each with the event and the time read after it.\<close>

fun gpio_events :: "nat \<Rightarrow> (int \<times> gpio_event \<times> u64) list \<Rightarrow> event_loop \<Rightarrow> event_loop" where
  "gpio_events handled [] loop = loop"
| "gpio_events handled ((ret, gpio_evt, now) # calls) loop =
     (if handled < MAX_GPIO_EVENTS_PER_POLL \<and> ret > 0 then
        let evt = \<lparr>evt_type = to_app_event_type (ev_type gpio_evt), evt_line = ev_line gpio_evt,
                   evt_timestamp_ns = now, evt_data = 0\<rparr>
        in gpio_events (handled + 1) calls (if evt_type evt \<noteq> EVT_NONE then push_loop evt loop else loop)
      else loop)"

definition event_loop_handle_gpio :: "(int \<times> gpio_event \<times> u64) list \<Rightarrow> event_loop \<Rightarrow> event_loop" where
  "event_loop_handle_gpio calls loop = gpio_events 0 calls loop"

text \<open>\<open>expirations\<close> is what was read from the timer, \<open>None\<close> if reading failed.\<close>

definition event_loop_handle_timer :: "u64 option \<Rightarrow> u64 \<Rightarrow> event_loop \<Rightarrow> event_loop" where
  "event_loop_handle_timer expirations now loop =
     (case expirations of
        None \<Rightarrow> loop
      | Some n \<Rightarrow> push_loop \<lparr>evt_type = EVT_TICK, evt_line = 0, evt_timestamp_ns = now, evt_data = ucast n\<rparr> loop)"

text \<open>The three parts of \<open>event_loop_handle_control\<close>: reading the descriptor resets it.\<close>

definition control_read :: "event_loop \<Rightarrow> event_loop" where
  "control_read loop = loop\<lparr>event_fd_value := 0\<rparr>"

definition control_tick :: "bool \<Rightarrow> event_loop \<Rightarrow> event_loop" where
  "control_tick ok loop =
     (let pending_tick = pending_tick_ms loop;
          loop = loop\<lparr>pending_tick_ms := -1\<rparr>
      in if pending_tick \<ge> 0 then snd (event_loop_apply_tick ok pending_tick loop) else loop)"

definition control_shutdown :: "u64 \<Rightarrow> event_loop \<Rightarrow> event_loop" where
  "control_shutdown now loop =
     (if shutdown_requested loop then
        (push_loop \<lparr>evt_type = EVT_SHUTDOWN, evt_line = 0, evt_timestamp_ns = now, evt_data = 0\<rparr> loop)
          \<lparr>el_running := False\<rparr>
      else loop)"

definition event_loop_handle_control :: "bool \<Rightarrow> u64 \<Rightarrow> event_loop \<Rightarrow> event_loop" where
  "event_loop_handle_control ok now loop = control_shutdown now (control_tick ok (control_read loop))"

text \<open>The two halves of a request from outside.\<close>

definition write_event_fd :: "event_loop \<Rightarrow> event_loop" where
  "write_event_fd loop = (if event_fd loop \<ge> 0 then loop\<lparr>event_fd_value := event_fd_value loop + 1\<rparr> else loop)"

definition event_loop_request_tick :: "int \<Rightarrow> event_loop \<Rightarrow> event_loop" where
  "event_loop_request_tick tick_ms loop = write_event_fd (loop\<lparr>pending_tick_ms := tick_ms\<rparr>)"

definition event_loop_request_shutdown :: "event_loop \<Rightarrow> event_loop" where
  "event_loop_request_shutdown loop = write_event_fd (loop\<lparr>shutdown_requested := True\<rparr>)"

section \<open>The loop\<close>

text \<open>
  What one call of \<open>poll\<close> returns: an error, or which descriptors are ready, with what the
  handlers then read. The control descriptor is ready when its value is not 0.
\<close>

record poll_env =
  gpio_ready :: bool
  gpio_calls :: "(int \<times> gpio_event \<times> u64) list"
  timer_ready :: bool
  timer_read :: "u64 option"
  timer_now :: u64
  settime_ok :: bool
  control_now :: u64

datatype poll_result = Poll_Error bool | Poll_Ready poll_env

definition loop_round :: "poll_env \<Rightarrow> event_loop \<Rightarrow> event_loop" where
  "loop_round e loop =
     (let control_ready = event_fd_value loop > 0;
          loop = (if gpio_fd loop \<ge> 0 \<and> gpio_ready e then event_loop_handle_gpio (gpio_calls e) loop else loop);
          loop = (if timer_ready e then event_loop_handle_timer (timer_read e) (timer_now e) loop else loop)
      in if control_ready then event_loop_handle_control (settime_ok e) (control_now e) loop else loop)"

text \<open>
  The loop over a list of polls, each preceded by what the other thread and signals did; \<open>None\<close>
  when the list ends first. The flag of an error says whether it was \<open>EINTR\<close>.
\<close>

fun loop_rounds :: "((event_loop \<Rightarrow> event_loop) \<times> poll_result) list \<Rightarrow> event_loop \<Rightarrow> (int \<times> event_loop) option" where
  "loop_rounds es loop =
     (if \<not> el_running loop then Some (0, loop)
      else case es of
             [] \<Rightarrow> None
           | (f, Poll_Error eintr) # es \<Rightarrow> if eintr then loop_rounds es (f loop) else Some (-1, f loop)
           | (f, Poll_Ready e) # es \<Rightarrow> loop_rounds es (loop_round e (f loop)))"

declare loop_rounds.simps [simp del]

definition event_loop_run ::
  "((event_loop \<Rightarrow> event_loop) \<times> poll_result) list \<Rightarrow> event_loop \<Rightarrow> (int \<times> event_loop) option" where
  "event_loop_run es loop =
     (if event_fd loop < 0 \<or> timer_fd loop < 0 then Some (-1, loop)
      else loop_rounds es (loop\<lparr>el_running := True\<rparr>))"

section \<open>Requests from outside\<close>

text \<open>
  The steps of \<open>event_loop_handle_control\<close> in any order with the halves of requests: how many
  requests have stored their flag and not yet written the descriptor.
\<close>

datatype loop_pc = At_Poll | At_Read | At_Exchange | At_Shutdown | Loop_Ended

record loop_sys =
  ls_loop :: event_loop
  ls_pc :: loop_pc
  tick_writers :: nat
  shutdown_writers :: nat

inductive loop_step :: "loop_sys \<Rightarrow> loop_sys \<Rightarrow> bool" where
  other: "ls_pc s = At_Poll \<Longrightarrow> l = event_loop_handle_gpio calls (ls_loop s) \<or>
    l = event_loop_handle_timer n now (ls_loop s) \<Longrightarrow> loop_step s (s\<lparr>ls_loop := l\<rparr>)"
| ready: "ls_pc s = At_Poll \<Longrightarrow> event_fd_value (ls_loop s) > 0 \<Longrightarrow> loop_step s (s\<lparr>ls_pc := At_Read\<rparr>)"
| read_fd: "ls_pc s = At_Read \<Longrightarrow>
    loop_step s (s\<lparr>ls_loop := control_read (ls_loop s), ls_pc := At_Exchange\<rparr>)"
| exchange: "ls_pc s = At_Exchange \<Longrightarrow>
    loop_step s (s\<lparr>ls_loop := control_tick ok (ls_loop s), ls_pc := At_Shutdown\<rparr>)"
| check_shutdown: "ls_pc s = At_Shutdown \<Longrightarrow> l = control_shutdown now (ls_loop s) \<Longrightarrow>
    loop_step s (s\<lparr>ls_loop := l, ls_pc := (if el_running l then At_Poll else Loop_Ended)\<rparr>)"
| tick_store: "0 \<le> tick_ms \<Longrightarrow>
    loop_step s (s\<lparr>ls_loop := (ls_loop s)\<lparr>pending_tick_ms := tick_ms\<rparr>, tick_writers := tick_writers s + 1\<rparr>)"
| tick_write: "tick_writers s > 0 \<Longrightarrow>
    loop_step s (s\<lparr>ls_loop := write_event_fd (ls_loop s), tick_writers := tick_writers s - 1\<rparr>)"
| shutdown_store:
    "loop_step s (s\<lparr>ls_loop := (ls_loop s)\<lparr>shutdown_requested := True\<rparr>, shutdown_writers := shutdown_writers s + 1\<rparr>)"
| shutdown_write: "shutdown_writers s > 0 \<Longrightarrow>
    loop_step s (s\<lparr>ls_loop := write_event_fd (ls_loop s), shutdown_writers := shutdown_writers s - 1\<rparr>)"

inductive_cases loop_stepE: "loop_step s s'"

inductive loop_reachable :: "loop_sys \<Rightarrow> bool" where
  start: "event_loop_init button_fd efd tfd q = (0, l) \<Longrightarrow>
    loop_reachable \<lparr>ls_loop = l\<lparr>el_running := True\<rparr>, ls_pc = At_Poll, tick_writers = 0, shutdown_writers = 0\<rparr>"
| step: "loop_reachable s \<Longrightarrow> loop_step s s' \<Longrightarrow> loop_reachable s'"

definition request_inv :: "loop_sys \<Rightarrow> bool" where
  [wf_defs]: "request_inv s \<longleftrightarrow>
     event_fd (ls_loop s) \<ge> 0 \<and>
     (el_running (ls_loop s) \<longleftrightarrow> ls_pc s \<noteq> Loop_Ended) \<and>
     (ls_pc s = At_Read \<longrightarrow> event_fd_value (ls_loop s) > 0) \<and>
     (el_running (ls_loop s) \<and> pending_tick_ms (ls_loop s) \<ge> 0 \<longrightarrow>
        event_fd_value (ls_loop s) > 0 \<or> tick_writers s > 0 \<or> ls_pc s = At_Exchange) \<and>
     (el_running (ls_loop s) \<and> shutdown_requested (ls_loop s) \<longrightarrow>
        event_fd_value (ls_loop s) > 0 \<or> shutdown_writers s > 0 \<or> ls_pc s = At_Exchange \<or> ls_pc s = At_Shutdown)"

text \<open>The handlers of buttons and timer only change the queue.\<close>

lemma push_loop_frame: "push_loop e l = l\<lparr>el_queue := el_queue (push_loop e l)\<rparr>"
  by (simp add: push_loop_def)

lemma gpio_events_frame: "gpio_events n calls l = l\<lparr>el_queue := el_queue (gpio_events n calls l)\<rparr>"
proof (induction n calls l rule: gpio_events.induct)
  case (2 handled ret gpio_evt now calls loop)
  let ?e = "\<lparr>evt_type = to_app_event_type (ev_type gpio_evt), evt_line = ev_line gpio_evt,
    evt_timestamp_ns = now, evt_data = 0\<rparr>"
  let ?l = "if evt_type ?e \<noteq> EVT_NONE then push_loop ?e loop else loop"
  show ?case
  proof (cases "handled < MAX_GPIO_EVENTS_PER_POLL \<and> ret > 0")
    case True
    then have "gpio_events (handled + 1) calls ?l = ?l\<lparr>el_queue := el_queue (gpio_events (handled + 1) calls ?l)\<rparr>"
      using "2.IH" by (simp only: refl HOL.simp_thms)
    moreover have "?l\<lparr>el_queue := q\<rparr> = loop\<lparr>el_queue := q\<rparr>" for q by (simp add: push_loop_def)
    ultimately have "gpio_events (handled + 1) calls ?l = loop\<lparr>el_queue := el_queue (gpio_events (handled + 1) calls ?l)\<rparr>"
      by simp
    then show ?thesis using True by (simp add: Let_def)
  qed (auto simp: Let_def)
qed simp

lemma handlers_frame:
  assumes "l' = event_loop_handle_gpio calls l \<or> l' = event_loop_handle_timer n now l"
  shows "l' = l\<lparr>el_queue := el_queue l'\<rparr>"
  using assms gpio_events_frame[of 0 calls l]
  by (auto simp: event_loop_handle_gpio_def event_loop_handle_timer_def push_loop_def split: option.splits)

lemma request_inv_step:
  assumes "request_inv s" and "loop_step s s'"
  shows "request_inv s'"
  using assms(2)
proof cases
  case (other l calls n now)
  obtain q where "l = (ls_loop s)\<lparr>el_queue := q\<rparr>" using handlers_frame[OF other(3)] ..
  then show ?thesis using assms(1) other(1,2) by (simp add: request_inv_def)
next
  case (exchange ok)
  then show ?thesis using assms(1)
    by (simp add: request_inv_def control_tick_def event_loop_apply_tick_def Let_def)
next
  case (check_shutdown l now)
  then show ?thesis using assms(1)
    by (auto simp: request_inv_def control_shutdown_def push_loop_def)
qed (use assms(1) in \<open>auto simp: request_inv_def control_read_def write_event_fd_def\<close>)

lemma request_inv_reachable: "loop_reachable s \<Longrightarrow> request_inv s"
proof (induction rule: loop_reachable.induct)
  case (start button_fd efd tfd q l)
  then show ?case by (auto simp: event_loop_init_def request_inv_def Let_def split: if_splits)
next
  case (step s s')
  then show ?case using request_inv_step by blast
qed

text \<open>The timer of a tick runs with its period.\<close>

definition period_ms :: "int \<times> int \<Rightarrow> int" where
  "period_ms t = fst t * 1000 + snd t div 1000000"

lemma apply_tick_period:
  assumes "0 \<le> tick_ms"
  shows "period_ms (timer_interval (snd (event_loop_apply_tick True tick_ms loop))) = tick_ms"
    and "period_ms (timer_value (snd (event_loop_apply_tick True tick_ms loop))) = tick_ms"
  using assms by (simp_all add: event_loop_apply_tick_def period_ms_def c_div_def c_rem_def sgn_if Let_def)

end
