(* ===== verification/Threaded_Start.thy ===== *)
theory Threaded_Start
  imports Event_Wait Threaded_Status Ubus_Sync Event_Loop
begin

text \<open>
  How the threaded version of the program starts and ends (\<open>main\<close> of \<open>src_adr0005/main.c\<close>, and
  the starting and stopping of the ubus thread in \<open>src_adr0005/ubus_thread.c\<close>): three queues, the
  event loop and two threads are set up on top of the hardware interfaces, each failure
  releases what is there already, and the end releases everything.
\<close>

section \<open>The ubus thread\<close>

text \<open>\<open>efd\<close> is what \<open>eventfd\<close> returns, \<open>created\<close> whether the thread can be created.\<close>

record worker =
  wakeup_fd :: int
  wk_running :: bool

definition ubus_thread_init :: "int \<Rightarrow> worker \<Rightarrow> int \<times> worker" where
  "ubus_thread_init efd ut =
     (let ut = \<lparr>wakeup_fd = efd, wk_running = False\<rparr>
      in if wakeup_fd ut < 0 then (-1, ut) else (0, ut))"

definition ubus_thread_start :: "bool \<Rightarrow> worker \<Rightarrow> int \<times> worker" where
  "ubus_thread_start created ut =
     (if wk_running ut then (-1, ut)
      else if \<not> created then (-1, ut\<lparr>wk_running := False\<rparr>)
      else (0, ut\<lparr>wk_running := True\<rparr>))"

section \<open>The program\<close>

datatype resource =
    Gpio
  | Display
  | Ubus
  | Event_Queue
  | Task_Queue
  | Result_Queue
  | Status_Ctx
  | Loop_Fds
  | Worker_Fd
  | Worker_Thread
  | Ui_Thread

text \<open>What is set up and released; \<open>Down Ubus\<close> is the call of \<open>cleanup\<close>, with a context or without.\<close>

datatype main_action = Up resource | Down resource

text \<open>
  The outcome of the calls that \<open>main\<close> makes: of the hardware interfaces (display and ubus may be
  absent), of the allocations, and of the descriptors and threads.
\<close>

record start_env =
  se_gpio :: bool
  se_display :: "bool option"
  se_ubus :: "sync_env option"
  se_event_mem :: bool
  se_task_mem :: bool
  se_result_mem :: bool
  se_status :: bool
  se_gpio_fd :: int
  se_event_fd :: int
  se_timer_fd :: int
  se_worker_fd :: int
  se_worker :: bool
  se_ui :: bool

record app =
  app_log :: "main_action list"
  app_ubus :: ubus_sync
  app_events :: event_queue
  app_tasks :: task_queue
  app_results :: result_queue
  app_status :: bool
  app_loop :: event_loop
  app_worker :: worker

definition up :: "resource \<Rightarrow> app \<Rightarrow> app" where
  "up r a = a\<lparr>app_log := app_log a @ [Up r]\<rparr>"

definition down :: "resource \<Rightarrow> app \<Rightarrow> app" where
  "down r a = a\<lparr>app_log := app_log a @ [Down r]\<rparr>"

definition ubus_thread_stop :: "app \<Rightarrow> app" where
  "ubus_thread_stop a =
     (if \<not> wk_running (app_worker a) then a
      else down Worker_Thread (a\<lparr>app_worker := (app_worker a)\<lparr>wk_running := False\<rparr>\<rparr>))"

definition ubus_thread_destroy :: "app \<Rightarrow> app" where
  "ubus_thread_destroy a =
     (let a = (if wk_running (app_worker a) then ubus_thread_stop a else a)
      in if wakeup_fd (app_worker a) \<ge> 0
         then down Worker_Fd (a\<lparr>app_worker := (app_worker a)\<lparr>wakeup_fd := -1\<rparr>\<rparr>) else a)"

definition cleanup_interfaces :: "start_env \<Rightarrow> app \<Rightarrow> app" where
  "cleanup_interfaces e a =
     (let a = (if se_ubus e \<noteq> None then down Ubus (a\<lparr>app_ubus := sync_real_cleanup (app_ubus a)\<rparr>) else a);
          a = (if se_display e \<noteq> None then down Display a else a)
      in down Gpio a)"

text \<open>The releases that the failure branches and the end of \<open>main\<close> share, from the last on.\<close>

definition release_events :: "start_env \<Rightarrow> app \<Rightarrow> app" where
  "release_events e a =
     cleanup_interfaces e (down Event_Queue (a\<lparr>app_events := event_queue_destroy (app_events a)\<rparr>))"

definition release_tasks :: "start_env \<Rightarrow> app \<Rightarrow> app" where
  "release_tasks e a =
     release_events e (down Task_Queue (a\<lparr>app_tasks := task_queue_destroy (app_tasks a)\<rparr>))"

definition release_results :: "start_env \<Rightarrow> app \<Rightarrow> app" where
  "release_results e a =
     release_tasks e (down Result_Queue (a\<lparr>app_results := result_queue_destroy (app_results a)\<rparr>))"

definition release_status :: "start_env \<Rightarrow> app \<Rightarrow> app" where
  "release_status e a = release_results e (if app_status a then down Status_Ctx a else a)"

definition release_loop :: "start_env \<Rightarrow> app \<Rightarrow> app" where
  "release_loop e a =
     release_status e (down Loop_Fds (a\<lparr>app_loop := event_loop_cleanup (app_loop a)\<rparr>))"

text \<open>
  \<open>main\<close> up to the start of the event loop, one function per call that may fail; \<open>Inl\<close> is the exit
  code of a failed start. \<open>z\<close>, \<open>t\<close> and \<open>r\<close> are what the memory of the queues holds at first.
\<close>

type_synonym start_result = "(int + unit) \<times> app"

definition and_then :: "start_result \<Rightarrow> (app \<Rightarrow> start_result) \<Rightarrow> start_result" where
  "and_then x f = (case x of (Inl c, a) \<Rightarrow> (Inl c, a) | (Inr _, a) \<Rightarrow> f a)"

definition start_hal :: "start_env \<Rightarrow> app \<Rightarrow> start_result" where
  "start_hal e a =
     (if \<not> se_gpio e then (Inl 1, a)
      else
        let a = up Gpio a
        in if se_display e = Some False then (Inl 1, down Gpio a)
           else
             let a = (if se_display e \<noteq> None then up Display a else a)
             in case se_ubus e of
                  None \<Rightarrow> (Inr (), a)
                | Some env \<Rightarrow> (Inr (), up Ubus (a\<lparr>app_ubus := snd (sync_real_init env (app_ubus a))\<rparr>)))"

definition start_events :: "app_event \<Rightarrow> start_env \<Rightarrow> app \<Rightarrow> start_result" where
  "start_events z e a =
     (let (ret, q) = event_queue_init (se_event_mem e) z 32 (app_events a);
          a = a\<lparr>app_events := q\<rparr>
      in if ret \<noteq> 0 then (Inl 1, cleanup_interfaces e a) else (Inr (), up Event_Queue a))"

definition start_tasks :: "ubus_task \<Rightarrow> start_env \<Rightarrow> app \<Rightarrow> start_result" where
  "start_tasks t e a =
     (let (ret, q) = task_queue_init (se_task_mem e) t 16 (app_tasks a);
          a = a\<lparr>app_tasks := q\<rparr>
      in if ret \<noteq> 0 then (Inl 1, release_events e a) else (Inr (), up Task_Queue a))"

definition start_results :: "ubus_result \<Rightarrow> start_env \<Rightarrow> app \<Rightarrow> start_result" where
  "start_results r e a =
     (let (ret, q) = result_queue_init (se_result_mem e) r 16 (app_results a);
          a = a\<lparr>app_results := q\<rparr>
      in if ret \<noteq> 0 then (Inl 1, release_tasks e a) else (Inr (), up Result_Queue a))"

definition start_loop :: "start_env \<Rightarrow> app \<Rightarrow> start_result" where
  "start_loop e a =
     (let a = (if se_status e then up Status_Ctx (a\<lparr>app_status := True\<rparr>) else a\<lparr>app_status := False\<rparr>);
          (ret, loop) = event_loop_init (se_gpio_fd e) (se_event_fd e) (se_timer_fd e) (app_events a);
          a = a\<lparr>app_loop := loop\<rparr>
      in if ret \<noteq> 0 then (Inl 1, release_status e a) else (Inr (), up Loop_Fds a))"

definition start_worker :: "start_env \<Rightarrow> app \<Rightarrow> start_result" where
  "start_worker e a =
     (let (ret, ut) = ubus_thread_init (se_worker_fd e) (app_worker a);
          a = a\<lparr>app_worker := ut\<rparr>
      in if ret \<noteq> 0 then (Inl 1, release_loop e a)
         else
           let a = up Worker_Fd a;
               (ret, ut) = ubus_thread_start (se_worker e) (app_worker a);
               a = a\<lparr>app_worker := ut\<rparr>
           in if ret \<noteq> 0 then (Inl 1, release_loop e (ubus_thread_destroy a))
              else (Inr (), up Worker_Thread a))"

definition start_ui_thread :: "start_env \<Rightarrow> app \<Rightarrow> start_result" where
  "start_ui_thread e a =
     (if \<not> se_ui e then (Inl 1, release_loop e (ubus_thread_destroy (ubus_thread_stop a)))
      else (Inr (), up Ui_Thread a))"

definition threaded_start ::
  "app_event \<Rightarrow> ubus_task \<Rightarrow> ubus_result \<Rightarrow> start_env \<Rightarrow> app \<Rightarrow> start_result" where
  "threaded_start z t r e a =
     and_then (and_then (and_then (and_then (and_then (and_then (start_hal e a)
       (start_events z e)) (start_tasks t e)) (start_results r e)) (start_loop e)) (start_worker e)) (start_ui_thread e)"

text \<open>From the end of the event loop on, which returned \<open>rc\<close>.\<close>

definition threaded_stop :: "start_env \<Rightarrow> int \<Rightarrow> app \<Rightarrow> int \<times> app" where
  "threaded_stop e rc a =
     (let a = down Ui_Thread (a\<lparr>app_events := event_queue_close (app_events a)\<rparr>);
          a = a\<lparr>app_tasks := task_queue_close (app_tasks a)\<rparr>;
          a = a\<lparr>app_results := result_queue_close (app_results a)\<rparr>;
          a = ubus_thread_stop a;
          a = ubus_thread_destroy a
      in (if rc = 0 then 0 else 1, release_loop e a))"

section \<open>Everything is released\<close>

text \<open>
  The resources holds after a sequence of actions, the last one first; each is released while it
  is the last one holds. \<open>None\<close> is a release out of order.
\<close>

fun holding :: "main_action list \<Rightarrow> resource list \<Rightarrow> resource list option" where
  "holding [] rs = Some rs"
| "holding (Up r # acts) rs = holding acts (r # rs)"
| "holding (Down r # acts) rs = (case rs of r' # rs' \<Rightarrow> if r = r' then holding acts rs' else None | [] \<Rightarrow> None)"

lemma holding_append [simp]: "holding (xs @ ys) rs = Option.bind (holding xs rs) (holding ys)"
  by (induction xs rs rule: holding.induct) (auto split: list.split)

definition holds :: "app \<Rightarrow> resource list option" where
  "holds a = holding (app_log a) []"

lemma held_up [simp]: "holds (up r a) = map_option (\<lambda>rs. r # rs) (holds a)"
  by (cases "holding (app_log a) []") (simp_all add: holds_def up_def)

lemma held_down: "holds a = Some (r # rs) \<Longrightarrow> holds (down r a) = Some rs"
  by (simp add: holds_def down_def)

lemma held_frame [simp]:
  "holds (a\<lparr>app_ubus := u\<rparr>) = holds a" "holds (a\<lparr>app_events := q\<rparr>) = holds a"
  "holds (a\<lparr>app_tasks := t\<rparr>) = holds a" "holds (a\<lparr>app_results := r\<rparr>) = holds a"
  "holds (a\<lparr>app_status := b\<rparr>) = holds a" "holds (a\<lparr>app_loop := l\<rparr>) = holds a"
  "holds (a\<lparr>app_worker := w\<rparr>) = holds a"
  by (simp_all add: holds_def)

lemma up_down_frame [simp]:
  "app_ubus (up r a) = app_ubus a" "app_ubus (down r a) = app_ubus a"
  "app_events (up r a) = app_events a" "app_events (down r a) = app_events a"
  "app_tasks (up r a) = app_tasks a" "app_tasks (down r a) = app_tasks a"
  "app_results (up r a) = app_results a" "app_results (down r a) = app_results a"
  "app_status (up r a) = app_status a" "app_status (down r a) = app_status a"
  "app_loop (up r a) = app_loop a" "app_loop (down r a) = app_loop a"
  "app_worker (up r a) = app_worker a" "app_worker (down r a) = app_worker a"
  by (simp_all add: up_def down_def)

text \<open>The resources of the hardware interfaces, and of the status context.\<close>

definition hal_held :: "start_env \<Rightarrow> resource list" where
  "hal_held e = (if se_ubus e \<noteq> None then [Ubus] else []) @ (if se_display e \<noteq> None then [Display] else []) @ [Gpio]"

definition status_held :: "app \<Rightarrow> resource list" where
  "status_held a = (if app_status a then [Status_Ctx] else [])"

definition app_held :: "start_env \<Rightarrow> app \<Rightarrow> resource list" where
  "app_held e a = status_held a @ [Result_Queue, Task_Queue, Event_Queue] @ hal_held e"

lemma release_hal: "holds a = Some (hal_held e) \<Longrightarrow> holds (cleanup_interfaces e a) = Some []"
  by (cases "se_ubus e"; cases "se_display e") (simp_all add: cleanup_interfaces_def hal_held_def held_down)

lemma release_events_held:
  "holds a = Some (Event_Queue # hal_held e) \<Longrightarrow> holds (release_events e a) = Some []"
  by (simp add: release_events_def release_hal held_down)

lemma release_tasks_held:
  "holds a = Some (Task_Queue # Event_Queue # hal_held e) \<Longrightarrow> holds (release_tasks e a) = Some []"
  by (simp add: release_tasks_def release_events_held held_down)

lemma release_status_held: "holds a = Some (app_held e a) \<Longrightarrow> holds (release_status e a) = Some []"
  by (simp add: release_status_def release_results_def release_tasks_held held_down app_held_def status_held_def)

lemma release_loop_held: "holds a = Some (Loop_Fds # app_held e a) \<Longrightarrow> holds (release_loop e a) = Some []"
  using release_status_held[of "down Loop_Fds (a\<lparr>app_loop := event_loop_cleanup (app_loop a)\<rparr>)" e]
  by (simp add: release_loop_def held_down app_held_def status_held_def)

section \<open>What a start establishes\<close>

text \<open>A failed start exits with 1 and holds nothing; otherwise the next part finds \<open>Q\<close>.\<close>

definition start_post :: "(app \<Rightarrow> bool) \<Rightarrow> start_result \<Rightarrow> bool" where
  "start_post Q x \<longleftrightarrow> (case x of (Inl c, a) \<Rightarrow> c = 1 \<and> holds a = Some [] | (Inr _, a) \<Rightarrow> Q a)"

lemma start_post_then:
  "start_post Q x \<Longrightarrow> (\<And>a. Q a \<Longrightarrow> start_post R (f a)) \<Longrightarrow> start_post R (and_then x f)"
  by (cases x; cases "fst x") (auto simp: start_post_def and_then_def)

lemma start_post_mono: "start_post Q x \<Longrightarrow> (\<And>a. Q a \<Longrightarrow> R a) \<Longrightarrow> start_post R x"
  by (cases x; cases "fst x") (auto simp: start_post_def)

definition queues_fresh :: "app \<Rightarrow> bool" where
  "queues_fresh a \<longleftrightarrow>
     eq_ok (app_events a) \<and> eq_items (app_events a) = [] \<and> eq_seq (app_events a) = 0 \<and> \<not> eq_closed (app_events a) \<and>
     tq_ok (app_tasks a) \<and> tq_items (app_tasks a) = [] \<and>
     resq_ok (app_results a) \<and> resq_items (app_results a) = []"

definition app_ready :: "start_env \<Rightarrow> app \<Rightarrow> bool" where
  "app_ready e a \<longleftrightarrow>
     holds a = Some (Ui_Thread # Worker_Thread # Worker_Fd # Loop_Fds # app_held e a) \<and>
     sync_ok (app_ubus a) \<and> queues_fresh a \<and> 0 \<le> event_fd (app_loop a) \<and> 0 \<le> timer_fd (app_loop a) \<and>
     wk_running (app_worker a) \<and> 0 \<le> wakeup_fd (app_worker a)"

lemma start_hal_post:
  assumes "holds a = Some []" and "sync_ok (app_ubus a)"
  shows "start_post (\<lambda>a. holds a = Some (hal_held e) \<and> sync_ok (app_ubus a)) (start_hal e a)"
proof -
  have s: "sync_ok (snd (sync_real_init env (app_ubus a)))" for env
    using sync_ok_step[OF assms(2), of "Sync_Init env"] by simp
  then show ?thesis using assms
    by (cases "se_gpio e"; cases "se_display e"; cases "se_ubus e"; cases "se_display e = Some False")
      (simp_all add: start_post_def hal_held_def start_hal_def held_down)
qed

lemma start_events_post:
  assumes "holds a = Some (hal_held e)" and "sync_ok (app_ubus a)"
  shows "start_post (\<lambda>a. holds a = Some (Event_Queue # hal_held e) \<and> sync_ok (app_ubus a) \<and>
    eq_ok (app_events a) \<and> eq_items (app_events a) = [] \<and> eq_seq (app_events a) = 0 \<and> \<not> eq_closed (app_events a))
    (start_events z e a)"
proof (cases "se_event_mem e")
  case True
  then show ?thesis using assms init_events[of 32 z "app_events a"]
    by (simp add: start_post_def start_events_def case_prod_beta Let_def)
next
  case False
  then have "fst (event_queue_init (se_event_mem e) z 32 (app_events a)) \<noteq> 0"
    by (simp add: event_queue_init_def ring_queue_init_def)
  then show ?thesis using assms
    by (simp add: start_post_def start_events_def case_prod_beta Let_def release_hal)
qed

lemma start_tasks_post:
  assumes "holds a = Some (Event_Queue # hal_held e)"
  shows "start_post (\<lambda>b. holds b = Some (Task_Queue # Event_Queue # hal_held e) \<and> app_ubus b = app_ubus a \<and>
    app_events b = app_events a \<and> tq_ok (app_tasks b) \<and> tq_items (app_tasks b) = []) (start_tasks t e a)"
proof (cases "se_task_mem e")
  case True
  then show ?thesis using assms init_tasks[of 16 t "app_tasks a"]
    by (simp add: start_post_def start_tasks_def case_prod_beta Let_def)
next
  case False
  then have "fst (task_queue_init (se_task_mem e) t 16 (app_tasks a)) \<noteq> 0"
    by (simp add: task_queue_init_def ring_queue_init_def)
  then show ?thesis using assms
    by (simp add: start_post_def start_tasks_def case_prod_beta Let_def release_events_held)
qed

lemma start_results_post:
  assumes "holds a = Some (Task_Queue # Event_Queue # hal_held e)"
  shows "start_post (\<lambda>b. holds b = Some (Result_Queue # Task_Queue # Event_Queue # hal_held e) \<and>
    app_ubus b = app_ubus a \<and> app_events b = app_events a \<and> app_tasks b = app_tasks a \<and>
    resq_ok (app_results b) \<and> resq_items (app_results b) = []) (start_results r e a)"
proof (cases "se_result_mem e")
  case True
  then show ?thesis using assms init_results[of 16 r "app_results a"]
    by (simp add: start_post_def start_results_def case_prod_beta Let_def)
next
  case False
  then have "fst (result_queue_init (se_result_mem e) r 16 (app_results a)) \<noteq> 0"
    by (simp add: result_queue_init_def ring_queue_init_def)
  then show ?thesis using assms
    by (simp add: start_post_def start_results_def case_prod_beta Let_def release_tasks_held)
qed

lemma start_loop_post:
  assumes "holds a = Some (Result_Queue # Task_Queue # Event_Queue # hal_held e)" and "queues_fresh a"
    and "sync_ok (app_ubus a)"
  shows "start_post (\<lambda>b. holds b = Some (Loop_Fds # app_held e b) \<and> queues_fresh b \<and> sync_ok (app_ubus b) \<and>
    0 \<le> event_fd (app_loop b) \<and> 0 \<le> timer_fd (app_loop b)) (start_loop e a)"
proof -
  define b where "b = (if se_status e then up Status_Ctx (a\<lparr>app_status := True\<rparr>) else a\<lparr>app_status := False\<rparr>)"
  have b: "holds b = Some (app_held e b)" "queues_fresh b" "sync_ok (app_ubus b)"
    using assms by (simp_all add: b_def app_held_def status_held_def queues_fresh_def)
  show ?thesis
  proof (cases "se_event_fd e < 0 \<or> se_timer_fd e < 0")
    case True
    then show ?thesis
      using b release_status_held[of "b\<lparr>app_loop := snd (event_loop_init (se_gpio_fd e) (se_event_fd e) (se_timer_fd e) (app_events b))\<rparr>" e]
      by (simp add: start_post_def start_loop_def case_prod_beta Let_def b_def[symmetric] event_loop_init_def
          app_held_def status_held_def)
  next
    case False
    then show ?thesis using b
      by (simp add: start_post_def start_loop_def case_prod_beta Let_def b_def[symmetric] event_loop_init_def
          app_held_def status_held_def queues_fresh_def)
  qed
qed

text \<open>With the worker: its descriptor, then its thread.\<close>

definition loop_up :: "start_env \<Rightarrow> app \<Rightarrow> bool" where
  "loop_up e a \<longleftrightarrow> queues_fresh a \<and> sync_ok (app_ubus a) \<and> 0 \<le> event_fd (app_loop a) \<and> 0 \<le> timer_fd (app_loop a)"

definition worker_held :: "start_env \<Rightarrow> app \<Rightarrow> bool" where
  "worker_held e a \<longleftrightarrow> 0 \<le> wakeup_fd (app_worker a) \<and>
     holds a = Some ((if wk_running (app_worker a) then [Worker_Thread] else []) @ Worker_Fd # Loop_Fds # app_held e a)"

lemma worker_stop_held: "worker_held e a \<Longrightarrow> worker_held e (ubus_thread_stop a)"
  by (auto simp: worker_held_def ubus_thread_stop_def held_down app_held_def status_held_def)

lemma worker_stop_stops: "\<not> wk_running (app_worker (ubus_thread_stop a))"
  by (simp add: ubus_thread_stop_def)

lemma worker_destroy_held:
  assumes "worker_held e a"
  shows "holds (release_loop e (ubus_thread_destroy a)) = Some []"
proof -
  let ?b = "ubus_thread_stop a"
  have b: "0 \<le> wakeup_fd (app_worker ?b)" "holds ?b = Some (Worker_Fd # Loop_Fds # app_held e ?b)"
    using worker_stop_held[OF assms] worker_stop_stops[of a] by (simp_all add: worker_held_def)
  have "ubus_thread_destroy a = down Worker_Fd (?b\<lparr>app_worker := (app_worker ?b)\<lparr>wakeup_fd := -1\<rparr>\<rparr>)"
    using b(1) by (cases "wk_running (app_worker a)") (simp_all add: ubus_thread_destroy_def ubus_thread_stop_def)
  then show ?thesis using b
    by (intro release_loop_held) (simp add: held_down app_held_def status_held_def)
qed

lemma start_worker_post:
  assumes "holds a = Some (Loop_Fds # app_held e a)" and "loop_up e a"
  shows "start_post (\<lambda>b. worker_held e b \<and> wk_running (app_worker b) \<and> loop_up e b) (start_worker e a)"
proof (cases "se_worker_fd e < 0")
  case True
  then show ?thesis
    using assms release_loop_held[of "a\<lparr>app_worker := \<lparr>wakeup_fd = se_worker_fd e, wk_running = False\<rparr>\<rparr>" e]
    by (simp add: start_post_def start_worker_def ubus_thread_init_def app_held_def status_held_def)
next
  case False
  let ?a = "(up Worker_Fd (a\<lparr>app_worker := \<lparr>wakeup_fd = se_worker_fd e, wk_running = False\<rparr>\<rparr>))"
  have w: "worker_held e ?a" using assms(1) False by (simp add: worker_held_def app_held_def status_held_def)
  have f: "start_worker e a = (if se_worker e then (Inr (), up Worker_Thread (?a\<lparr>app_worker := (app_worker ?a)\<lparr>wk_running := True\<rparr>\<rparr>))
      else (Inl 1, release_loop e (ubus_thread_destroy (?a\<lparr>app_worker := (app_worker ?a)\<lparr>wk_running := False\<rparr>\<rparr>))))"
    using False by (simp add: start_worker_def ubus_thread_init_def ubus_thread_start_def)
  have "worker_held e (?a\<lparr>app_worker := (app_worker ?a)\<lparr>wk_running := False\<rparr>\<rparr>)"
    using w by (simp add: worker_held_def app_held_def status_held_def)
  from worker_destroy_held[OF this] show ?thesis using w assms(2) unfolding f
    by (simp add: start_post_def worker_held_def loop_up_def queues_fresh_def app_held_def status_held_def)
qed

lemma start_ui_post:
  assumes "worker_held e a" and "wk_running (app_worker a)" and "loop_up e a"
  shows "start_post (app_ready e) (start_ui_thread e a)"
  using assms worker_destroy_held[OF worker_stop_held[OF assms(1)]]
  by (simp add: start_post_def start_ui_thread_def app_ready_def worker_held_def loop_up_def queues_fresh_def app_held_def
      status_held_def)

lemma threaded_start_post:
  assumes "holds a = Some []" and "sync_ok (app_ubus a)"
  shows "start_post (app_ready e) (threaded_start z t r e a)"
proof -
  let ?fresh = "\<lambda>a. eq_ok (app_events a) \<and> eq_items (app_events a) = [] \<and> eq_seq (app_events a) = 0 \<and> \<not> eq_closed (app_events a)"
  let ?q1 = "\<lambda>a. holds a = Some (Event_Queue # hal_held e) \<and> sync_ok (app_ubus a) \<and> ?fresh a"
  let ?q2 = "\<lambda>a. holds a = Some (Task_Queue # Event_Queue # hal_held e) \<and> sync_ok (app_ubus a) \<and> ?fresh a \<and>
    tq_ok (app_tasks a) \<and> tq_items (app_tasks a) = []"
  let ?q3 = "\<lambda>a. holds a = Some (Result_Queue # Task_Queue # Event_Queue # hal_held e) \<and> sync_ok (app_ubus a) \<and> queues_fresh a"
  let ?q4 = "\<lambda>a. holds a = Some (Loop_Fds # app_held e a) \<and> loop_up e a"
  let ?q5 = "\<lambda>a. worker_held e a \<and> wk_running (app_worker a) \<and> loop_up e a"
  have q1: "start_post ?q1 (and_then (start_hal e a) (start_events z e))" (is "start_post _ ?x")
    by (rule start_post_then[OF start_hal_post[OF assms]]) (simp only: start_events_post)
  have q2: "start_post ?q2 (and_then ?x (start_tasks t e))" (is "start_post _ ?y")
    by (rule start_post_then[OF q1], rule start_post_mono[OF start_tasks_post]) simp_all
  have q3: "start_post ?q3 (and_then ?y (start_results r e))" (is "start_post _ ?z")
    by (rule start_post_then[OF q2], rule start_post_mono[OF start_results_post]) (simp_all add: queues_fresh_def)
  have q4: "start_post ?q4 (and_then ?z (start_loop e))" (is "start_post _ ?v")
    by (rule start_post_then[OF q3], rule start_post_mono[OF start_loop_post]) (simp_all add: loop_up_def)
  have q5: "start_post ?q5 (and_then ?v (start_worker e))"
    by (rule start_post_then[OF q4], rule start_worker_post) simp_all
  show ?thesis unfolding threaded_start_def
    by (rule start_post_then[OF q5], rule start_ui_post) simp_all
qed

text \<open>The end, from any state in which the same resources are holds.\<close>

lemma threaded_stop_held:
  assumes "holds a = Some (Ui_Thread # Worker_Thread # Worker_Fd # Loop_Fds # app_held e a)"
    and "wk_running (app_worker a)" and "0 \<le> wakeup_fd (app_worker a)"
  shows "holds (snd (threaded_stop e rc a)) = Some []"
proof -
  let ?a = "(down Ui_Thread (a\<lparr>app_events := event_queue_close (app_events a)\<rparr>))
    \<lparr>app_tasks := task_queue_close (app_tasks a), app_results := result_queue_close (app_results a)\<rparr>"
  have "worker_held e ?a"
    using assms by (simp add: worker_held_def held_down app_held_def status_held_def)
  from worker_destroy_held[OF worker_stop_held[OF this]] show ?thesis by (simp add: threaded_stop_def)
qed

end
