(* ===== verification/Ui_Tick.thy ===== *)
theory Ui_Tick
  imports App_Events
begin

text \<open>
  When the user interface thread of the threaded version asks for ticks
  (\<open>src_adr0005/ui_thread.c\<close>): quickly after a key and during an animation, once a second while
  the screen is on, not at all while it is off. What the controller decides about an event (is
  the screen on, is an animation running, is there a status to update) is an argument, which
  \<open>Thr_Ui\<close> supplies; the waiting for events is in \<open>Event_Wait\<close>.
\<close>

abbreviation (input) UI_ANIM_TICK_MS :: int where "UI_ANIM_TICK_MS \<equiv> 50"
abbreviation (input) UI_IDLE_TICK_MS :: int where "UI_IDLE_TICK_MS \<equiv> 1000"
abbreviation (input) UI_DEFAULT_ANIM_TICKS :: int where "UI_DEFAULT_ANIM_TICKS \<equiv> 10"

text \<open>
  The fields that the thread keeps for ticks. \<open>ut_requests\<close> is the list of the calls of
  \<open>event_loop_request_tick\<close>, \<open>ut_updates\<close> the number of status updates.
\<close>

record ui_thread =
  ut_loop :: bool
  ut_tick_ms :: int
  anim_ticks_left :: int
  tick_active :: bool
  ut_requests :: "int list"
  ut_updates :: nat

record ui_view =
  view_power_on :: bool
  view_animating :: bool
  view_status :: bool

section \<open>Operations\<close>

definition ui_thread_is_button_event :: "app_event_type \<Rightarrow> bool" where
  "ui_thread_is_button_event type \<longleftrightarrow>
     type = EVT_BTN_K1_SHORT \<or> type = EVT_BTN_K2_SHORT \<or> type = EVT_BTN_K3_SHORT \<or>
     type = EVT_BTN_K1_LONG \<or> type = EVT_BTN_K2_LONG \<or> type = EVT_BTN_K3_LONG"

definition ui_thread_apply_tick :: "int \<Rightarrow> ui_thread \<Rightarrow> ui_thread" where
  "ui_thread_apply_tick tick_ms ui =
     (if \<not> ut_loop ui then ui
      else if tick_ms = ut_tick_ms ui then ui
      else ui\<lparr>ut_requests := ut_requests ui @ [tick_ms], ut_tick_ms := tick_ms\<rparr>)"

definition ui_thread_stop_tick :: "ui_thread \<Rightarrow> ui_thread" where
  "ui_thread_stop_tick ui =
     (if \<not> ut_loop ui \<or> \<not> tick_active ui then ui
      else (ui_thread_apply_tick 0 ui)\<lparr>tick_active := False, anim_ticks_left := 0\<rparr>)"

definition ui_thread_start_tick :: "ui_thread \<Rightarrow> ui_thread" where
  "ui_thread_start_tick ui =
     (if \<not> ut_loop ui then ui
      else ui_thread_apply_tick UI_ANIM_TICK_MS
             (ui\<lparr>tick_active := True, anim_ticks_left := UI_DEFAULT_ANIM_TICKS\<rparr>))"

definition ui_thread_switch_idle_tick :: "ui_thread \<Rightarrow> ui_thread" where
  "ui_thread_switch_idle_tick ui =
     (if \<not> ut_loop ui then ui
      else ui_thread_apply_tick UI_IDLE_TICK_MS (ui\<lparr>tick_active := True, anim_ticks_left := 0\<rparr>))"

text \<open>The part of \<open>ui_thread_default_handle\<close> for a tick.\<close>

definition ui_thread_tick :: "app_event \<Rightarrow> ui_view \<Rightarrow> ui_thread \<Rightarrow> ui_thread" where
  "ui_thread_tick event v ui =
     (if view_animating v then
        let ui = ui\<lparr>anim_ticks_left := UI_DEFAULT_ANIM_TICKS\<rparr>
        in if ut_tick_ms ui \<noteq> UI_ANIM_TICK_MS then ui_thread_apply_tick UI_ANIM_TICK_MS ui else ui
      else
        let step = (if evt_data event \<noteq> 0 then evt_data event else 1);
            ui = (if anim_ticks_left ui > 0 then
                    if sint step \<ge> anim_ticks_left ui
                    then ui_thread_switch_idle_tick (ui\<lparr>anim_ticks_left := 0\<rparr>)
                    else ui\<lparr>anim_ticks_left := anim_ticks_left ui - sint step\<rparr>
                  else ui)
        in if anim_ticks_left ui = 0 \<and> view_status v then ui\<lparr>ut_updates := ut_updates ui + 1\<rparr> else ui)"

text \<open>The controller has handled the event and rendered; \<open>v\<close> is its state then.\<close>

definition ui_thread_default_handle :: "app_event \<Rightarrow> ui_view \<Rightarrow> ui_thread \<Rightarrow> ui_thread" where
  "ui_thread_default_handle event v ui =
     (if \<not> ut_loop ui then ui
      else if evt_type event = EVT_SHUTDOWN then ui_thread_stop_tick ui
      else if \<not> view_power_on v then ui_thread_stop_tick ui
      else if evt_type event = EVT_TICK \<and> tick_active ui then ui_thread_tick event v ui
      else if ui_thread_is_button_event (evt_type event) then ui_thread_start_tick ui
      else ui)"

text \<open>The state in which the thread starts (\<open>ui_thread_setup\<close>, \<open>ui_thread_start_default\<close>).\<close>

definition ui_thread_start_default :: "bool \<Rightarrow> ui_thread" where
  "ui_thread_start_default has_loop =
     (let ui = \<lparr>ut_loop = has_loop, ut_tick_ms = 0, anim_ticks_left = 0, tick_active = False,
                ut_requests = [], ut_updates = 0\<rparr>
      in if ut_loop ui then ui_thread_switch_idle_tick ui else ui)"

section \<open>Ticks while the screen is on\<close>

fun handle_all :: "(app_event \<times> ui_view) list \<Rightarrow> ui_thread \<Rightarrow> ui_thread" where
  "handle_all [] ui = ui"
| "handle_all ((e, v) # evs) ui = handle_all evs (ui_thread_default_handle e v ui)"

text \<open>
  What the controller does: the screen turns on by a key only, and a shutdown turns it off. The
  expirations that a tick carries are fewer than \<open>2^31\<close>.
\<close>

fun screen_by_key :: "bool \<Rightarrow> (app_event \<times> ui_view) list \<Rightarrow> bool" where
  "screen_by_key on [] = True"
| "screen_by_key on ((e, v) # evs) =
     ((view_power_on v \<longrightarrow> on \<or> ui_thread_is_button_event (evt_type e)) \<and>
      (evt_type e = EVT_SHUTDOWN \<longrightarrow> \<not> view_power_on v) \<and>
      0 \<le> sint (evt_data e) \<and> screen_by_key (view_power_on v) evs)"

definition tick_inv :: "bool \<Rightarrow> ui_thread \<Rightarrow> bool" where
  [wf_defs]: "tick_inv on ui \<longleftrightarrow> ut_loop ui \<and> (on \<longleftrightarrow> tick_active ui) \<and>
     ut_tick_ms ui = (if \<not> tick_active ui then 0 else if anim_ticks_left ui > 0 then UI_ANIM_TICK_MS else UI_IDLE_TICK_MS) \<and>
     0 \<le> anim_ticks_left ui \<and> anim_ticks_left ui \<le> UI_DEFAULT_ANIM_TICKS \<and>
     ut_requests ui \<noteq> [] \<and> last (ut_requests ui) = ut_tick_ms ui"

lemma tick_inv_tick:
  assumes "tick_inv True ui" and "0 \<le> sint (evt_data e)"
  shows "tick_inv True (ui_thread_tick e v ui)"
proof -
  have "0 \<le> sint (if evt_data e \<noteq> 0 then evt_data e else 1)" using assms(2) by simp
  then show ?thesis using assms(1)
    by (auto simp: ui_thread_tick_def tick_inv_def ui_thread_apply_tick_def ui_thread_switch_idle_tick_def Let_def
        split: if_splits)
qed

lemma tick_inv_handle:
  assumes "tick_inv on ui" and "screen_by_key on [(e, v)]"
  shows "tick_inv (view_power_on v) (ui_thread_default_handle e v ui)"
proof -
  have l: "ut_loop ui" using assms(1) by (simp add: tick_inv_def)
  show ?thesis
  proof (cases "view_power_on v")
    case False
    then have "ui_thread_default_handle e v ui = ui_thread_stop_tick ui"
      using l by (simp add: ui_thread_default_handle_def)
    then show ?thesis using assms(1) False
      by (auto simp: ui_thread_stop_tick_def tick_inv_def ui_thread_apply_tick_def)
  next
    case True
    then have ns: "evt_type e \<noteq> EVT_SHUTDOWN" using assms(2) by auto
    consider (tick) "evt_type e = EVT_TICK" "on" | (key) "ui_thread_is_button_event (evt_type e)"
      | (none) "evt_type e \<noteq> EVT_TICK" "\<not> ui_thread_is_button_event (evt_type e)" "on"
      using assms(2) True by (auto simp: ui_thread_is_button_event_def)
    then show ?thesis
    proof cases
      case tick
      then have "ui_thread_default_handle e v ui = ui_thread_tick e v ui"
        using assms(1) True by (simp add: ui_thread_default_handle_def tick_inv_def)
      then show ?thesis using tick_inv_tick[of ui e v] assms True tick by simp
    next
      case key
      then have "evt_type e \<noteq> EVT_TICK" by (auto simp: ui_thread_is_button_event_def)
      then have "ui_thread_default_handle e v ui = ui_thread_start_tick ui"
        using key True ns l by (simp add: ui_thread_default_handle_def)
      then show ?thesis using assms(1) True
        by (auto simp: ui_thread_start_tick_def tick_inv_def ui_thread_apply_tick_def)
    next
      case none
      then have "ui_thread_default_handle e v ui = ui"
        using True ns by (simp add: ui_thread_default_handle_def)
      then show ?thesis using assms(1) True none by simp
    qed
  qed
qed

lemma tick_inv_all:
  "tick_inv on ui \<Longrightarrow> screen_by_key on evs \<Longrightarrow>
   tick_inv (if evs = [] then on else view_power_on (snd (last evs))) (handle_all evs ui)"
proof (induction evs arbitrary: on ui)
  case (Cons p evs)
  obtain e v where p: "p = (e, v)" by (cases p)
  have "tick_inv (view_power_on v) (ui_thread_default_handle e v ui)"
    by (rule tick_inv_handle[OF Cons.prems(1)]) (use Cons.prems(2) p in simp)
  then show ?case using Cons.IH[of "view_power_on v" "ui_thread_default_handle e v ui"] Cons.prems(2) p
    by (cases "evs = []") simp_all
qed simp

lemma tick_inv_start: "tick_inv True (ui_thread_start_default True)"
  by (simp add: ui_thread_start_default_def ui_thread_switch_idle_tick_def ui_thread_apply_tick_def tick_inv_def)

end
