(* ===== verification/Threaded_Program.thy ===== *)
theory Threaded_Program
  imports Threaded_Start Ui_Tick
begin

text \<open>
  The properties of the threaded version of the program (\<open>src_adr0005\<close>): the event queue
  between the event loop and the user interface thread, the queues to and from the thread that
  calls ubus, and the requests to the event loop.
\<close>

section \<open>Sample states\<close>

definition sample_event :: "app_event_type \<Rightarrow> app_event" where
  "sample_event t = \<lparr>evt_type = t, evt_line = 0, evt_timestamp_ns = 0, evt_data = 1\<rparr>"

definition sample_queue :: "nat \<Rightarrow> event_queue" where
  "sample_queue cap = snd (event_queue_init True (sample_event EVT_NONE) cap zero_event_queue)"

definition ui_start :: ui_sys where
  "ui_start = \<lparr>sys_eq = sample_queue 2, wait_lock = None, ui_running = True, ui_pc = Ui_Loop,
     main_pc = Main_Idle\<rparr>"

fun ui_steps :: "int \<Rightarrow> nat \<Rightarrow> ui_sys \<Rightarrow> ui_sys" where
  "ui_steps tmo 0 s = s"
| "ui_steps tmo (Suc k) s = (case ui_next tmo False (ui_pc s) s of Some s' \<Rightarrow> ui_steps tmo k s' | None \<Rightarrow> s)"

fun main_adds :: "nat \<Rightarrow> ui_sys \<Rightarrow> nat" where
  "main_adds 0 s = 0"
| "main_adds (Suc k) s =
     (case main_next (main_pc s) s of
        Some s' \<Rightarrow> (case main_pc s of Add_Seq c \<Rightarrow> Suc (main_adds k s') | _ \<Rightarrow> main_adds k s')
      | None \<Rightarrow> 0)"

lemma ui_steps_reachable: "ui_reachable tmo n s \<Longrightarrow> ui_reachable tmo n (ui_steps tmo k s)"
  by (induction k arbitrary: s) (auto split: option.split intro: ui_reachable.ui)

lemma main_steps_reachable: "ui_reachable tmo n s \<Longrightarrow> ui_reachable tmo (n + main_adds k s) (main_steps k s)"
proof (induction k arbitrary: n s)
  case (Suc k)
  show ?case
  proof (cases "main_next (main_pc s) s")
    case (Some s')
    from Suc.IH[OF ui_reachable.main[OF Suc.prems Some]] show ?thesis
      using Some by (cases "main_pc s") simp_all
  qed (use Suc.prems in simp)
qed simp

lemma ui_start_reachable: "ui_reachable tmo 0 ui_start"
  unfolding ui_start_def
  using init_events[of 2 "sample_event EVT_NONE" zero_event_queue]
  by (intro ui_reachable.start) (simp_all add: sample_queue_def)

text \<open>The user interface thread asleep, then with an event pushed, or asked to stop.\<close>

definition ui_asleep :: ui_sys where
  "ui_asleep = ui_steps (-1) 10 ui_start"

definition ui_pushed :: ui_sys where
  "ui_pushed = main_steps 6 (begin_push (sample_event EVT_BTN_K1_SHORT) ui_asleep)"

definition ui_stopped :: ui_sys where
  "ui_stopped = main_steps 6 (begin_stop ui_asleep)"

lemma ui_asleep: "ui_reachable (-1) 0 ui_asleep" "main_pc ui_asleep = Main_Idle" "ui_pc ui_asleep = Timed_Blocked 0"
  unfolding ui_asleep_def by (rule ui_steps_reachable[OF ui_start_reachable]) code_simp+

lemma ui_pushed:
  "ui_reachable (-1) 1 ui_pushed" "main_pc ui_pushed = Main_Idle"
  "eq_items (sys_eq ui_pushed) = [sample_event EVT_BTN_K1_SHORT]"
proof -
  have "main_adds 6 (begin_push (sample_event EVT_BTN_K1_SHORT) ui_asleep) = 1" by code_simp
  then show "ui_reachable (-1) 1 ui_pushed"
    using main_steps_reachable[OF ui_reachable.push[OF ui_asleep(1,2)], of 6 "sample_event EVT_BTN_K1_SHORT"]
    by (simp add: ui_pushed_def)
qed code_simp+

lemma ui_stopped: "ui_reachable (-1) 1 ui_stopped" "main_pc ui_stopped = Joining"
proof -
  have "main_adds 6 (begin_stop ui_asleep) = 1" by code_simp
  then show "ui_reachable (-1) 1 ui_stopped"
    using main_steps_reachable[OF ui_reachable.stop[OF ui_asleep(1,2)], of 6] by (simp add: ui_stopped_def)
qed code_simp

section \<open>The event queue\<close>

text \<open>C9
  No wake-up is lost: whenever the user interface thread sleeps in \<open>event_queue_wait\<close> and the
  main thread is not inside a call on the queue, the queue is empty and open. This holds for every
  interleaving of the accesses of the two threads, as long as fewer than \<open>2^64\<close> signals were sent.\<close>

theorem no_lost_wakeup:
  assumes "ui_reachable tmo n s" and "n < 2 ^ 64"
    and "ui_pc s = Timed_Blocked m" and "main_pc s = Main_Idle \<or> main_pc s = Joining"
  shows "eq_items (sys_eq s) = [] \<and> \<not> eq_closed (sys_eq s) \<and> main_pc s = Main_Idle"
  by (rule sleeping_idle[OF wait_inv_reachable[OF assms(1,2)] assms(3,4)])

theorem no_lost_wakeup_witness: "eq_items (sys_eq ui_asleep) = [] \<and> \<not> eq_closed (sys_eq ui_asleep)"
  using no_lost_wakeup[OF ui_asleep(1) _ ui_asleep(3)] ui_asleep(2) by simp

text \<open>C10
  Stopping ends: once the main thread waits in \<open>ui_thread_stop\<close> for the user interface thread,
  that thread is never blocked and every one of its runs reaches its end, wherever it was.\<close>

theorem stop_joins:
  assumes "ui_reachable tmo n s" and "n < 2 ^ 64" and "main_pc s = Joining"
  shows "ui_leads tmo (\<lambda>s. ui_pc s = Ui_Exit) s"
  using assms by (intro stop_leads_to_exit[of n]) (simp add: main_waits_def wait_inv_reachable)

theorem stop_joins_witness: "ui_leads (-1) (\<lambda>s. ui_pc s = Ui_Exit) ui_stopped"
  using stop_joins[OF ui_stopped(1) _ ui_stopped(2)] by simp

text \<open>C11
  A queued event is taken: when the main thread has finished a push and the queue holds an
  event, every run of the user interface thread from there takes the first event of the
  queue (or ends, after a shutdown event), wherever that thread was.\<close>

theorem queued_event_taken:
  assumes "ui_reachable tmo n s" and "n < 2 ^ 64" and "main_pc s = Main_Idle" and "eq_items (sys_eq s) = e # xs"
  shows "ui_leads tmo (\<lambda>s. ui_took e s \<or> ui_pc s = Ui_Exit) s"
  using assms by (intro queued_leads_to_taken[of n]) (simp_all add: main_waits_def wait_inv_reachable)

theorem queued_event_taken_witness:
  "ui_leads (-1) (\<lambda>s. ui_took (sample_event EVT_BTN_K1_SHORT) s \<or> ui_pc s = Ui_Exit) ui_pushed"
  using queued_event_taken[OF ui_pushed(1) _ ui_pushed(2,3)] by simp

text \<open>C12
  Over any run of pushes and pops on a new queue, the events other than ticks that were accepted
  are exactly the ones popped and the ones still queued, each once, and at most one tick is
  queued. As long as no event took the place of a tick they come out in the order in which
  they went in, and the expirations that the accepted ticks carry add up.\<close>

theorem events_conserved:
  assumes "0 < cap" and "event_queue_init True z cap q0 = (0, q)" and "eq_run ops q = (pushed, out, q')"
  shows "mset (critical (taken pushed)) = mset (critical (out @ eq_items q')) \<and>
    length (filter event_queue_is_tick (eq_items q')) \<le> 1 \<and> length (eq_items q') \<le> cap \<and>
    (EQ_RESULT_REPLACED \<notin> snd ` set pushed \<longrightarrow>
      critical (taken pushed) = critical (out @ eq_items q') \<and>
      tick_data (taken pushed) = tick_data (out @ eq_items q'))"
proof -
  have q: "eq_ok q" "eq_items q = []" "eq_cap q = cap"
    using init_events[OF assms(1), of z q0] assms(2) by simp_all
  show ?thesis using eq_run_ok[OF q(1) assms(3)] eq_ok_bounds[of q'] q(2,3) by simp
qed

definition sample_ops :: "eq_op list" where
  "sample_ops = [Eq_Push (sample_event EVT_TICK), Eq_Push (sample_event EVT_BTN_K1_SHORT),
     Eq_Push (sample_event EVT_BTN_K2_SHORT), Eq_Push (sample_event EVT_BTN_K3_SHORT), Eq_Pop]"

theorem events_conserved_witness:
  "mset (critical (taken (fst (eq_run sample_ops (sample_queue 2))))) =
     mset [sample_event EVT_BTN_K1_SHORT, sample_event EVT_BTN_K2_SHORT]"
proof -
  let ?r = "eq_run sample_ops (sample_queue 2)"
  have i: "event_queue_init True (sample_event EVT_NONE) 2 zero_event_queue = (0, sample_queue 2)"
    using init_events(1)[of 2 "sample_event EVT_NONE" zero_event_queue]
    by (simp add: sample_queue_def prod_eq_iff)
  have r: "?r = (fst ?r, fst (snd ?r), snd (snd ?r))" by simp
  have "critical (fst (snd ?r) @ eq_items (snd (snd ?r))) =
      [sample_event EVT_BTN_K2_SHORT, sample_event EVT_BTN_K1_SHORT]" by code_simp
  then show ?thesis using events_conserved[OF _ i r] by (simp add: add_mset_commute)
qed

text \<open>
  A button or shutdown event is refused only by a queue that is full of such events.\<close>

theorem refused_only_when_full:
  assumes "eq_ok q" and "\<not> event_queue_is_tick e"
  shows "fst (event_queue_push e q) = EQ_RESULT_DROPPED \<longleftrightarrow>
    length (eq_items q) = eq_cap q \<and> list_all (\<lambda>x. \<not> event_queue_is_tick x) (eq_items q)"
proof -
  have "fst (event_queue_push e q) = fst (push_event (eq_cap q) e (eq_items q))"
    using push_event_refines(1)[OF assms(1), of e] by (simp add: prod_eq_iff)
  then show ?thesis using assms(2) eq_ok_bounds[OF assms(1)]
    by (auto simp: push_event_def first_index_None[symmetric] split: option.split)
qed

lemma sample_queue_ok: "eq_ok (sample_queue 2)"
  using init_events(2)[of 2] by (simp add: sample_queue_def)

theorem refused_only_when_full_witness:
  "fst (event_queue_push (sample_event EVT_BTN_K1_SHORT) (sample_queue 2)) \<noteq> EQ_RESULT_DROPPED"
proof -
  have "eq_items (sample_queue 2) = []" "eq_cap (sample_queue 2) = 2"
    using init_events[of 2] by (simp_all add: sample_queue_def)
  then show ?thesis
    using refused_only_when_full[OF sample_queue_ok, of "sample_event EVT_BTN_K1_SHORT"]
    by (simp add: sample_event_def event_queue_is_tick_def)
qed

text \<open>
  An event can overtake older ones: pushed into a full queue whose oldest element is a tick,
  it takes the place of that tick and is the next event to be popped, before all events that
  were in the queue already. Two keys pressed in quick succession are then handled in the
  wrong order.\<close>

theorem event_overtakes:
  assumes "eq_ok q" and "eq_items q = t # xs" and "length (t # xs) = eq_cap q"
    and "event_queue_is_tick t" and "\<not> event_queue_is_tick e"
  shows "fst (event_queue_push e q) = EQ_RESULT_REPLACED \<and>
    fst (event_queue_try_pop (snd (event_queue_push e q))) = Some e \<and>
    eq_items (snd (event_queue_try_pop (snd (event_queue_push e q)))) = xs"
proof -
  obtain r q' where p: "event_queue_push e q = (r, q')" by (cases "event_queue_push e q")
  note f = push_effect[OF assms(1) p]
  have "r = EQ_RESULT_REPLACED" "eq_items q' = e # xs"
    using f(3) assms(2-5) by (simp_all add: push_event_def)
  then show ?thesis using try_pop_refines[OF f(1)] by (simp add: p)
qed

definition overtaken_queue :: event_queue where
  "overtaken_queue = snd (event_queue_push (sample_event EVT_BTN_K1_SHORT)
     (snd (event_queue_push (sample_event EVT_TICK) (sample_queue 2))))"

theorem event_overtakes_witness:
  "fst (event_queue_try_pop (snd (event_queue_push (sample_event EVT_BTN_K2_SHORT) overtaken_queue))) =
     Some (sample_event EVT_BTN_K2_SHORT)"
proof -
  have ok: "eq_ok overtaken_queue"
    unfolding overtaken_queue_def by (intro push_effect(1)[OF _ prod.collapse[symmetric]] sample_queue_ok)
  have "eq_items overtaken_queue = [sample_event EVT_TICK, sample_event EVT_BTN_K1_SHORT]" by code_simp
  moreover have "eq_cap overtaken_queue = 2" by code_simp
  ultimately show ?thesis
    using event_overtakes[OF ok, of "sample_event EVT_TICK" _ "sample_event EVT_BTN_K2_SHORT"]
    by (simp add: sample_event_def event_queue_is_tick_def)
qed

section \<open>Requests to ubus\<close>

text \<open>
  At most one task per service and action is queued, and it is the latest one of its kind that
  was accepted, over any run of pushes and pops on a new queue.\<close>

theorem latest_task_wins:
  assumes "0 < cap" and "task_queue_init True z cap q0 = (0, q)" and "ops_wf ops"
    and "tq_run ops q = (kept, out, q')"
  shows "distinct (map task_key (tq_items q')) \<and> length (tq_items q') \<le> cap \<and>
    (\<forall>t \<in> set (tq_items q'). latest (task_key t) kept = Some t)"
proof -
  have q: "tq_ok q" "tq_items q = []" "tq_cap q = cap"
    using init_tasks[OF assms(1), of z q0] assms(2) by simp_all
  then have "up_to_date [] q" by (simp add: up_to_date_def)
  from tq_run_ok[OF q(1) assms(3) this assms(4)] show ?thesis
    using q(3) by (auto simp: tq_ok_def up_to_date_def rq_ok_def ring_ok_def tq_items_def tq_cap_def)
qed

definition sample_task :: "string \<Rightarrow> u32 \<Rightarrow> ubus_task" where
  "sample_task name n = \<lparr>task_service = name, task_action = UBUS_ACTION_QUERY, task_request_id = n,
     task_timeout_ms = 2000, task_enqueue_ms = 0\<rparr>"

definition sample_tasks :: task_queue where
  "sample_tasks = snd (task_queue_init True (sample_task [] 0) 16 zero_task_queue)"

theorem latest_task_wins_witness:
  "distinct (map task_key (tq_items (snd (snd (tq_run
     [Tq_Push (sample_task ''uhttpd'' 1), Tq_Push (sample_task ''dropbear'' 2),
      Tq_Push (sample_task ''uhttpd'' 3)] sample_tasks)))))"
proof -
  let ?ops = "[Tq_Push (sample_task ''uhttpd'' 1), Tq_Push (sample_task ''dropbear'' 2),
      Tq_Push (sample_task ''uhttpd'' 3)]"
  have i: "task_queue_init True (sample_task [] 0) 16 zero_task_queue = (0, sample_tasks)"
    using init_tasks(1)[of 16 "sample_task [] 0" zero_task_queue] by (simp add: sample_tasks_def prod_eq_iff)
  have wf: "ops_wf ?ops" by (simp add: task_wf_def sample_task_def)
  have "tq_run ?ops sample_tasks =
      (fst (tq_run ?ops sample_tasks), fst (snd (tq_run ?ops sample_tasks)), snd (snd (tq_run ?ops sample_tasks)))"
    by simp
  from latest_task_wins[OF _ i wf this] show ?thesis by simp
qed

text \<open>C15
  Every task is answered: with room for the results, the worker's loop empties the task queue
  and appends one result per task, in the order of the tasks, with a time-out for those that
  have expired; and at the end of the thread the tasks that are left are answered with
  \<open>ECANCELED\<close>.\<close>

theorem tasks_answered:
  assumes "tq_ok tq" and "resq_ok rq" and "abandoned rq = []"
    and "length (resq_items rq) + length (tq_items tq) \<le> resq_cap rq"
  shows "tq_items (fst (run_tasks invoke now tq rq)) = [] \<and>
    resq_items (snd (run_tasks invoke now tq rq)) =
      resq_items rq @ map (\<lambda>t. task_result invoke (now t) t) (tq_items tq) \<and>
    tq_items (fst (ubus_thread_main invoke [] (tq, rq))) = [] \<and>
    resq_items (snd (ubus_thread_main invoke [] (tq, rq))) =
      resq_items rq @ map (\<lambda>t. failed_result t (- ECANCELED)) (tq_items tq)"
proof -
  note r = run_tasks_spec[OF assms(1,2) prod.collapse[symmetric], of invoke now]
  note c = cancel_tasks_spec[OF assms(1,2) prod.collapse[symmetric]]
  have p: "push_results (resq_cap rq) (set (abandoned rq)) (map f (tq_items tq)) (resq_items rq) =
      resq_items rq @ map f (tq_items tq)" for f
    using assms(3,4) by (intro push_results_room) simp_all
  show ?thesis using r c by (simp add: p)
qed

definition sample_results :: result_queue where
  "sample_results = snd (result_queue_init True (failed_result (sample_task [] 0) 0) 16 zero_result_queue)"

lemma sample_queues_ok: "tq_ok sample_tasks" "resq_ok sample_results"
  using init_tasks[of 16] init_results[of 16] by (simp_all add: sample_tasks_def sample_results_def)

theorem tasks_answered_witness:
  "resq_items (snd (run_tasks None (\<lambda>t. 3000) (snd (task_queue_push (sample_task ''uhttpd'' 1) sample_tasks)) sample_results)) =
     [failed_result (sample_task ''uhttpd'' 1) (- ETIMEDOUT)]"
proof -
  let ?tq = "snd (task_queue_push (sample_task ''uhttpd'' 1) sample_tasks)"
  have ok: "tq_ok ?tq"
    by (rule push_task_refines(2)[OF sample_queues_ok(1)]) (simp add: task_wf_def sample_task_def)
  have i: "tq_items ?tq = [sample_task ''uhttpd'' 1]" by code_simp
  have r: "abandoned sample_results = []" "resq_items sample_results = []" "resq_cap sample_results = 16"
    using init_results[of 16] by (simp_all add: sample_results_def)
  show ?thesis
    using tasks_answered[OF ok sample_queues_ok(2) r(1), of None "\<lambda>t. 3000"] r i
    by (simp add: task_result_def task_queue_is_expired_def sample_task_def)
qed

text \<open>Steps of both threads on concrete states.\<close>

definition do_request :: "u64 \<Rightarrow> nat \<Rightarrow> threads \<Rightarrow> threads" where
  "do_request now_ms i s =
     (let (st, n, tq) = request_service now_ms i (th_status s, next_request_id s, th_tasks s)
      in s\<lparr>th_status := st, next_request_id := n, th_tasks := tq\<rparr>)"

definition do_task :: "ubus_invoke \<Rightarrow> u64 \<Rightarrow> threads \<Rightarrow> threads" where
  "do_task invoke now_ms s =
     (case task_queue_try_pop (th_tasks s) of
        (Some t, tq) \<Rightarrow> s\<lparr>th_tasks := tq, th_results := process_task invoke now_ms t (th_results s), th_busy := None\<rparr>
      | (None, tq) \<Rightarrow> s)"

lemma do_request_reachable:
  assumes "threads_reachable cfg clock hal n s" and "i < service_count (th_status s)"
  shows "threads_reachable cfg clock hal (n + 1) (do_request now_ms i s)"
  using threads_reachable.step[OF assms(1) threads_step.request[OF assms(2)], of now_ms]
  by (cases "request_service now_ms i (th_status s, next_request_id s, th_tasks s)") (simp add: do_request_def)

lemma do_task_reachable:
  assumes "threads_reachable cfg clock hal n s" and "th_busy s = None" and "clock now_ms" and "hal invoke"
  shows "threads_reachable cfg clock hal n (do_task invoke now_ms s)"
proof (cases "task_queue_try_pop (th_tasks s)")
  case (Pair x tq)
  show ?thesis
  proof (cases x)
    case (Some t)
    let ?s = "s\<lparr>th_tasks := tq, th_busy := Some t\<rparr>"
    have "threads_step cfg clock hal 0 s ?s" using assms(2) Pair Some by (intro threads_step.take_task) simp_all
    from threads_reachable.step[OF assms(1) this] have r: "threads_reachable cfg clock hal n ?s" by simp
    have "threads_step cfg clock hal 0 ?s
        (?s\<lparr>th_results := process_task invoke now_ms t (th_results ?s), th_busy := None\<rparr>)"
      using assms(3,4) by (intro threads_step.finish_task) simp_all
    from threads_reachable.step[OF r this] show ?thesis using Pair Some by (simp add: do_task_def)
  qed (use assms(1) Pair in \<open>simp add: do_task_def\<close>)
qed

definition sample_threads :: "ubus_invoke \<Rightarrow> u64 \<Rightarrow> threads" where
  "sample_threads invoke now_ms =
     (let s = threads_start (sample_task [] 0) (failed_result (sample_task [] 0) 0);
          s = s\<lparr>th_status := fill_services [''uhttpd''] (th_status s)\<rparr>
      in do_task invoke now_ms (do_request 1000 0 s))"

lemma sample_threads_reachable:
  assumes "clock now_ms" and "hal invoke"
  shows "threads_reachable [''uhttpd''] clock hal 1 (sample_threads invoke now_ms)"
proof -
  let ?s = "threads_start (sample_task [] 0) (failed_result (sample_task [] 0) 0)"
  let ?f = "?s\<lparr>th_status := fill_services [''uhttpd''] (th_status ?s)\<rparr>"
  have f: "threads_reachable [''uhttpd''] clock hal 0 ?f"
    using threads_reachable.step[OF threads_reachable.start threads_step.fill] by simp
  have "0 < service_count (th_status ?f)" "th_busy (do_request 1000 0 ?f) = None"
    by (simp_all add: threads_start_def fill_services_def zero_status_def do_request_def case_prod_beta)
  then show ?thesis
    using do_task_reachable[where invoke = invoke, OF do_request_reachable[OF f, of 0 1000] _ assms]
    by (simp add: sample_threads_def Let_def)
qed

text \<open>C13
  Replies reach the service that asked: whenever the user interface thread pops a result whose
  identifier a service is waiting for, the result is about the service of that name. This
  holds for every interleaving of the two threads, for fewer than \<open>2^32 - 2\<close> requests, with the real
  ubus interface, whatever libubus answers, as well as with the mock.\<close>

theorem replies_reach_asker:
  assumes "threads_reachable cfg clock program_hal n s" and "n + 2 < 2 ^ 32" and "length cfg \<le> MAX_SERVICES"
    and "fst (result_queue_try_pop (th_results s)) = Some r"
    and "v \<in> set (services (th_status s))" and "query_pending v" and "request_id v = res_request_id r"
  shows "res_service r = svc_name v"
proof -
  have inv: "route_inv s" using route_reachable[OF assms(1-3) program_hal_echoes] by (simp add: route_count_def)
  then have "resq_ok (th_results s)" by (simp add: route_inv_def)
  then have "r \<in> set (resq_items (th_results s))"
    using pop_result_refines(1)[of "th_results s"] assms(4) by (auto split: list.splits)
  then have "(res_service r, res_request_id r) \<in> under_way s" by (auto simp: under_way_def)
  moreover have "\<forall>p \<in> under_way s. snd p = request_id v \<longrightarrow> fst p = svc_name v"
    using inv assms(5,6) by (simp add: route_inv_def)
  ultimately show ?thesis using assms(7) by auto
qed

definition sample_env :: sync_env where
  "sample_env = \<lparr>at_check = 1000, at_connect = 0, can_connect = True, rc_found = True, rc_id = 7,
     rc_replies = [[Rc_Other, Rc_Table (Some True)]], rc_status = LIB_STATUS_OK\<rparr>"

definition real_reply :: "ubus_task \<Rightarrow> ubus_result" where
  "real_reply t = fst (sync_real_invoke (\<lambda>_. sample_env) t sync_start)"

theorem replies_reach_asker_witness:
  "res_service (the (fst (result_queue_try_pop (th_results (sample_threads (Some real_reply) 1500))))) = ''uhttpd''"
proof -
  let ?s = "sample_threads (Some real_reply) 1500"
  let ?r = "the (fst (result_queue_try_pop (th_results ?s)))"
  let ?v = "services (th_status ?s) ! 0"
  have "program_hal (Some (\<lambda>t. fst (sync_real_invoke (\<lambda>_. sample_env) t sync_start)))"
    by (rule program_hal.real)
  then have h: "program_hal (Some real_reply)" by (simp add: real_reply_def[abs_def])
  have r: "threads_reachable [''uhttpd''] (\<lambda>n. n = 1500) program_hal 1 ?s"
    by (rule sample_threads_reachable) (simp_all add: h)
  have p: "fst (result_queue_try_pop (th_results ?s)) = Some ?r" by code_simp
  have v: "?v \<in> set (services (th_status ?s))"
  proof -
    have "0 < length (services (th_status ?s))" by code_simp
    then show ?thesis by simp
  qed
  have q: "query_pending ?v" "request_id ?v = res_request_id ?r" by code_simp+
  have n: "svc_name ?v = ''uhttpd''" by code_simp
  show ?thesis using replies_reach_asker[OF r _ _ p v q] by (simp only: n) simp
qed

text \<open>C14
  Every status query of the threaded version expires: \<open>sys_status_request_services\<close> gives its tasks a
  time-out of two seconds but never sets the time at which they were queued, so that the worker
  takes each for expired once the system has been up for two seconds. No service status ever
  becomes valid, whatever the ubus interface would answer.\<close>

theorem queries_expire:
  assumes "threads_reachable cfg clock hal n s" and "\<And>t. clock t \<Longrightarrow> 2000 < t"
  shows "list_all (\<lambda>v. \<not> status_valid v) (services (th_status s)) \<and>
    list_all (\<lambda>r. \<not> res_success r) (resq_items (th_results s))"
  using expiry_reachable[OF assms] by (simp add: expiry_inv_def)

theorem queries_expire_witness:
  "resq_items (th_results (sample_threads (Some real_reply) 60000)) \<noteq> [] \<and>
   list_all (\<lambda>r. \<not> res_success r) (resq_items (th_results (sample_threads (Some real_reply) 60000)))"
proof -
  let ?s = "sample_threads (Some real_reply) 60000"
  have "threads_reachable [''uhttpd''] (\<lambda>n. 2000 < n) (\<lambda>f. True) 1 ?s"
    by (rule sample_threads_reachable) simp_all
  from queries_expire[OF this] have "list_all (\<lambda>r. \<not> res_success r) (resq_items (th_results ?s))" by simp
  moreover have "length (resq_items (th_results ?s)) = 1" by code_simp
  ultimately show ?thesis by auto
qed

text \<open>
  A query that is merged into a queued one is forgotten: the queued task gets the new
  identifier, but the service does not start to wait for it, so that the answer of the task
  changes no service (no service is waiting for that fresh identifier).\<close>

theorem merged_query_forgotten:
  assumes "tq_ok tq" and "\<not> query_pending (services st ! i)"
    and "(bounded_copy 32 (svc_name (services st ! i)), UBUS_ACTION_QUERY) \<in> task_key ` set (tq_items tq)"
    and "list_all (\<lambda>v. query_pending v \<longrightarrow> request_id v \<noteq> next) (services st)"
    and "request_service now_ms i (st, next, tq) = (st', next', tq')"
  shows "st' = st \<and>
    (\<exists>t \<in> set (tq_items tq'). task_service t = bounded_copy 32 (svc_name (services st ! i)) \<and>
       task_request_id t = next) \<and>
    (\<forall>r now cnt. res_request_id r = next \<longrightarrow> store_result now r (cnt, st') = (cnt, st'))"
proof -
  let ?t = "\<lparr>task_service = bounded_copy 32 (svc_name (services st ! i)), task_action = UBUS_ACTION_QUERY,
    task_request_id = next, task_timeout_ms = 2000, task_enqueue_ms = 0\<rparr>"
  have wf: "task_wf ?t" using length_bounded_copy[of 32] by (simp add: task_wf_def)
  have "first_index (\<lambda>x. task_key x = task_key ?t) (tq_items tq) \<noteq> None"
    using assms(3) by (auto simp: first_index_None list_all_iff task_key_def)
  then obtain j where j: "first_index (\<lambda>x. task_key x = task_key ?t) (tq_items tq) = Some j" by blast
  then have "j < length (tq_items tq)" using first_index_Some by blast
  then have "?t \<in> set ((tq_items tq)[j := ?t])" by (rule set_update_memI)
  moreover have "fst (task_queue_push ?t tq) = TQ_RESULT_MERGED"
    "tq_items (snd (task_queue_push ?t tq)) = (tq_items tq)[j := ?t]"
    using push_task_refines(1)[OF assms(1) wf] j by (simp_all add: push_task_def)
  moreover from this have "st' = st \<and> tq' = snd (task_queue_push ?t tq)"
    using assms(2,5) by (auto simp: request_service_def Let_def case_prod_beta)
  moreover have "first_index (\<lambda>s. request_id s = next \<and> query_pending s) (take (service_count st) (services st)) = None"
    using assms(4) by (auto simp: first_index_None list_all_iff dest: in_set_takeD)
  then have "res_request_id r = next \<Longrightarrow> store_result now r (cnt, st) = (cnt, st)" for r now cnt
    by (simp add: store_result_def)
  ultimately show ?thesis by force
qed

definition waiting_tasks :: task_queue where
  "waiting_tasks = snd (task_queue_push (sample_task ''uhttpd'' 1) sample_tasks)"

definition one_service :: sys_status where
  "one_service = fill_services [''uhttpd''] zero_status"

theorem merged_query_forgotten_witness:
  "fst (request_service 9000 0 (one_service, 2, waiting_tasks)) = one_service"
proof -
  let ?r = "request_service 9000 0 (one_service, 2, waiting_tasks)"
  have ok: "tq_ok waiting_tasks"
    unfolding waiting_tasks_def
    by (rule push_task_refines(2)[OF sample_queues_ok(1)]) (simp add: task_wf_def sample_task_def)
  have "tq_items waiting_tasks = [sample_task ''uhttpd'' 1]" by code_simp
  moreover have "svc_name (services one_service ! 0) = ''uhttpd''" by code_simp
  ultimately have k: "(bounded_copy 32 (svc_name (services one_service ! 0)), UBUS_ACTION_QUERY) \<in>
      task_key ` set (tq_items waiting_tasks)"
    by (simp add: task_key_def sample_task_def bounded_copy_def)
  have n: "\<not> query_pending (services one_service ! 0)"
    "list_all (\<lambda>v. query_pending v \<longrightarrow> request_id v \<noteq> 2) (services one_service)" by code_simp+
  have "?r = (fst ?r, fst (snd ?r), snd (snd ?r))" by simp
  from merged_query_forgotten[OF ok n(1) k n(2) this] show ?thesis by simp
qed

section \<open>Requests to the event loop\<close>

text \<open>C16
  A request to the event loop is not lost: when the loop is about to poll and no request is
  half-way between its two writes, then a stored tick or shutdown request that has not been
  served leaves the control descriptor readable, so that \<open>poll\<close> returns. This holds for every
  interleaving of requests from the other thread and from signal handlers with the steps of
  \<open>event_loop_handle_control\<close>.\<close>

theorem loop_request_kept:
  assumes "loop_reachable s" and "ls_pc s = At_Poll" and "tick_writers s = 0" and "shutdown_writers s = 0"
    and "0 \<le> pending_tick_ms (ls_loop s) \<or> shutdown_requested (ls_loop s)"
  shows "event_fd_value (ls_loop s) > 0"
  using request_inv_reachable[OF assms(1)] assms(2-5) by (auto simp: request_inv_def)

definition fresh_loop :: event_loop where
  "fresh_loop = (snd (event_loop_init 3 4 5 (sample_queue 2)))\<lparr>el_running := True\<rparr>"

definition requested_loop :: loop_sys where
  "requested_loop = \<lparr>ls_loop = event_loop_request_shutdown fresh_loop, ls_pc = At_Poll, tick_writers = 0,
     shutdown_writers = 0\<rparr>"

lemma requested_loop_reachable: "loop_reachable requested_loop"
proof -
  let ?s = "\<lparr>ls_loop = fresh_loop, ls_pc = At_Poll, tick_writers = 0, shutdown_writers = 0\<rparr>"
  let ?t = "?s\<lparr>ls_loop := fresh_loop\<lparr>shutdown_requested := True\<rparr>, shutdown_writers := 1\<rparr>"
  have "fst (event_loop_init 3 4 5 (sample_queue 2)) = 0" by (simp add: event_loop_init_def)
  then have "loop_reachable ?s"
    unfolding fresh_loop_def by (intro loop_reachable.start) (simp add: prod_eq_iff)
  from loop_reachable.step[OF this loop_step.shutdown_store] have "loop_reachable ?t" by simp
  from loop_reachable.step[OF this loop_step.shutdown_write] show ?thesis
    by (simp add: requested_loop_def event_loop_request_shutdown_def)
qed

theorem loop_request_kept_witness: "event_fd_value (ls_loop requested_loop) > 0"
proof -
  have "ls_pc requested_loop = At_Poll" "tick_writers requested_loop = 0" "shutdown_writers requested_loop = 0"
    "shutdown_requested (ls_loop requested_loop)"
    by (simp_all add: requested_loop_def event_loop_request_shutdown_def write_event_fd_def)
  then show ?thesis using loop_request_kept[OF requested_loop_reachable] by simp
qed

text \<open>
  Ticks follow the screen: after any events, the timer that the user interface thread asked for
  last is off exactly when the screen is off, and otherwise runs every 50 ms while the ticks
  of an animation are counted down and every second after that, provided that the screen
  turns on by a key only.\<close>

theorem ticks_follow_screen:
  assumes "screen_by_key True evs" and "evs \<noteq> []"
  defines "ui \<equiv> handle_all evs (ui_thread_start_default True)"
  shows "ut_requests ui \<noteq> [] \<and>
    last (ut_requests ui) = (if \<not> view_power_on (snd (last evs)) then 0
      else if anim_ticks_left ui > 0 then UI_ANIM_TICK_MS else UI_IDLE_TICK_MS)"
  using tick_inv_all[OF tick_inv_start assms(1)] assms(2) by (simp add: ui_def tick_inv_def)

definition lit :: ui_view where
  "lit = \<lparr>view_power_on = True, view_animating = False, view_status = True\<rparr>"

theorem ticks_follow_screen_witness:
  "last (ut_requests (handle_all ((sample_event EVT_BTN_K1_SHORT, lit) # replicate 10 (sample_event EVT_TICK, lit))
     (ui_thread_start_default True))) = UI_IDLE_TICK_MS"
proof -
  let ?evs = "(sample_event EVT_BTN_K1_SHORT, lit) # replicate 10 (sample_event EVT_TICK, lit)"
  have s: "screen_by_key True ?evs" by code_simp
  have "anim_ticks_left (handle_all ?evs (ui_thread_start_default True)) = 0" by code_simp
  moreover have "view_power_on (snd (last ?evs))" by (simp add: lit_def)
  ultimately show ?thesis using ticks_follow_screen[OF s] by (simp del: handle_all.simps)
qed

text \<open>C22
  The real ubus interface of the threaded version respects the contract of libubus, for every
  sequence of initialisations, requests and cleanups and whatever the library answers: it makes
  a context only when it has none, frees each one once, uses no freed context, and sends
  requests only with the identifier last looked up on the present context. Its statics agree
  with the library, and after a cleanup no context is left.\<close>

theorem libubus_contract:
  "let h = fold sync_step ops sync_start in
   (\<exists>s. lib_run (sync_log h) Closed = Some s \<and> (s = Closed \<longleftrightarrow> \<not> sync_ctx h)) \<and>
   lib_run (sync_log (sync_real_cleanup h)) Closed = Some Closed"
proof -
  let ?h = "fold sync_step ops sync_start"
  have "sync_ok ?h" by (rule sync_ok_run)
  then show ?thesis using sync_ok_cleanup[of ?h]
    by (auto simp: sync_ok_def Let_def split: option.splits lib_state.splits)
qed

text \<open>
  A request of the threaded version is sent at most twice, and the second time only after an
  error of the connection; it is reported as successful exactly when the last sending was.\<close>

theorem request_sent_twice:
  "let (res, h') = sync_real_invoke env t h in
   \<exists>cs. sync_log h' = sync_log h @ cs \<and> length (invoke_results cs) \<le> 2 \<and>
     list_all is_connection_error (butlast (invoke_results cs)) \<and>
     (res_success res \<longleftrightarrow> invoke_results cs \<noteq> [] \<and> last (invoke_results cs) = LIB_STATUS_OK)"
proof -
  obtain res h' where r: "sync_real_invoke env t h = (res, h')" by (cases "sync_real_invoke env t h")
  then obtain ret rs where rs: "log_adds h h' rs" "outcome 2 rs ret" "res_success res \<longleftrightarrow> ret = 0"
    by (rule real_invoke_outcome)
  from rs(1) obtain cs where "sync_log h' = sync_log h @ cs" "invoke_results cs = rs" by (auto simp: log_adds_def)
  then show ?thesis using rs(2,3) r by (auto simp: outcome_def intro!: exI[of _ cs])
qed

text \<open>C23
  The threaded version releases what it holds: a start that fails anywhere exits with 1 and has
  released everything it had set up, in the reverse order; otherwise the queues are empty and
  well formed, the threads start in the state from which their runs were studied, and the end of
  \<open>main\<close> releases everything in the reverse order, whatever happened to the queues, the loop and
  the ubus connection in between.\<close>

theorem threaded_releases:
  assumes "app_log a = []" and "app_ubus a = sync_start"
  shows "case threaded_start z t r e a of
      (Inl c, b) \<Rightarrow> c = 1 \<and> holds b = Some []
    | (Inr _, b) \<Rightarrow> queues_fresh b \<and>
        ui_reachable tmo 0 \<lparr>sys_eq = app_events b, wait_lock = None, ui_running = True, ui_pc = Ui_Loop,
          main_pc = Main_Idle\<rparr> \<and>
        (\<forall>u ev ta re lo rc. holds (snd (threaded_stop e rc
           (b\<lparr>app_ubus := u, app_events := ev, app_tasks := ta, app_results := re, app_loop := lo\<rparr>))) = Some [])"
proof -
  have "start_post (app_ready e) (threaded_start z t r e a)"
    by (rule threaded_start_post) (use assms in \<open>simp_all add: holds_def sync_ok_def sync_start_def\<close>)
  moreover have "queues_fresh b \<and> ui_reachable tmo 0 \<lparr>sys_eq = app_events b, wait_lock = None, ui_running = True,
      ui_pc = Ui_Loop, main_pc = Main_Idle\<rparr> \<and> (\<forall>u ev ta re lo rc. holds (snd (threaded_stop e rc
        (b\<lparr>app_ubus := u, app_events := ev, app_tasks := ta, app_results := re, app_loop := lo\<rparr>))) = Some [])"
    if "app_ready e b" for b
    using that threaded_stop_held ui_reachable.start
    by (simp add: app_ready_def queues_fresh_def app_held_def status_held_def)
  ultimately show ?thesis by (auto simp: start_post_def split: prod.split sum.split)
qed

definition sample_start :: start_env where
  "sample_start = \<lparr>se_gpio = True, se_display = Some True, se_ubus = Some sample_env, se_event_mem = True,
     se_task_mem = True, se_result_mem = True, se_status = True, se_gpio_fd = 4, se_event_fd = 5,
     se_timer_fd = 6, se_worker_fd = 7, se_worker = True, se_ui = True\<rparr>"

definition sample_app :: app where
  "sample_app = \<lparr>app_log = [], app_ubus = sync_start, app_events = zero_event_queue,
     app_tasks = zero_task_queue, app_results = zero_result_queue, app_status = False,
     app_loop = snd (event_loop_init (-1) (-1) (-1) zero_event_queue),
     app_worker = \<lparr>wakeup_fd = -1, wk_running = False\<rparr>\<rparr>"

definition no_event :: app_event where
  "no_event = \<lparr>evt_type = EVT_NONE, evt_line = 0, evt_timestamp_ns = 0, evt_data = 0\<rparr>"

theorem threaded_releases_witness:
  "let start = (\<lambda>e. threaded_start no_event (sample_task [] 0) (failed_result (sample_task [] 0) 0) e sample_app) in
   fst (start (sample_start\<lparr>se_worker := False\<rparr>)) = Inl 1 \<and>
   holds (snd (start (sample_start\<lparr>se_worker := False\<rparr>))) = Some [] \<and>
   holds (snd (threaded_stop sample_start 0 (snd (start sample_start)))) = Some []"
proof -
  let ?start = "\<lambda>e. threaded_start no_event (sample_task [] 0) (failed_result (sample_task [] 0) 0) e sample_app"
  have a: "app_log sample_app = []" "app_ubus sample_app = sync_start" by (simp_all add: sample_app_def)
  note rel = threaded_releases[OF a, where z = no_event and t = "sample_task [] 0" and r = "failed_result (sample_task [] 0) 0" and tmo = 0]
  have f: "fst (?start (sample_start\<lparr>se_worker := False\<rparr>)) = Inl 1" by code_simp
  have s: "fst (?start sample_start) = Inr ()" by code_simp
  have "holds (snd (?start (sample_start\<lparr>se_worker := False\<rparr>))) = Some []"
    using rel[of "sample_start\<lparr>se_worker := False\<rparr>"] f by (simp add: case_prod_beta)
  moreover have "holds (snd (threaded_stop sample_start 0 (snd (?start sample_start)))) = Some []"
  proof -
    let ?b = "snd (?start sample_start)"
    have "\<forall>u ev ta re lo rc. holds (snd (threaded_stop sample_start rc
           (?b\<lparr>app_ubus := u, app_events := ev, app_tasks := ta, app_results := re, app_loop := lo\<rparr>))) = Some []"
      using rel[of sample_start] s by (simp add: case_prod_beta)
    from this[rule_format, where rc = 0 and u = "app_ubus ?b" and ev = "app_events ?b" and ta = "app_tasks ?b"
      and re = "app_results ?b" and lo = "app_loop ?b"]
    show ?thesis by simp
  qed
  ultimately show ?thesis using f by (simp add: Let_def)
qed

text \<open>The back-off delay of the interface overflows after 32 refused connections.\<close>

theorem sync_backoff_overflows:
  "let h = fold sync_step (replicate 33 (Sync_Init (sample_env\<lparr>can_connect := False\<rparr>))) sync_start in
   sync_ub h \<and> lib_run (sync_log h) Closed = Some Closed"
  by code_simp

end
