(* ===== verification/Thr_Controller.thy ===== *)
theory Thr_Controller
  imports Page_Render
begin

text \<open>
  Pages and the page controller of the threaded version of the program
  (\<open>src_adr0005/page.h\<close>, \<open>src_adr0005/page_controller.c\<close>), an earlier form of that of the main
  program: enter mode has no time-out, the screen sleeps in every mode, and pages are drawn
  without an offset, and a slide takes 200 ms. Key codes, modes, screen states and animations are those of the main program. The
  drawing functions declared in \<open>page_controller.c\<close> take \<open>int\<close> coordinates, of which u8g2
  keeps 16 bits.
\<close>

record 'w thr_page =
  tp_name :: string
  tp_can_enter :: bool
  tp_init :: "('w \<Rightarrow> 'w) option"
  tp_destroy :: "('w \<Rightarrow> 'w) option"
  tp_get_title :: "(sys_status option \<Rightarrow> string option) option"
  tp_render :: "(metrics \<Rightarrow> sys_status option \<Rightarrow> page_mode \<Rightarrow> 'w \<Rightarrow> 'w) option"
  tp_on_key :: "(u8 \<Rightarrow> bool \<Rightarrow> page_mode \<Rightarrow> 'w \<Rightarrow> bool \<times> 'w) option"
  tp_on_enter :: "('w \<Rightarrow> 'w) option"
  tp_on_exit :: "('w \<Rightarrow> 'w) option"

record 'w thr_controller =
  tc_screen_state :: screen_state
  tc_last_activity_ms :: u64
  tc_current_page :: int
  tc_page_count :: int
  tc_page_mode :: page_mode
  tc_anim :: anim_state
  tc_idle_timeout_ms :: u32
  tc_pages :: "'w thr_page option list"

text \<open>\<open>anim.c\<close> is that of the main program, but for the duration of a slide in \<open>anim.h\<close>.\<close>

abbreviation (input) THR_SLIDE_DURATION_MS :: u64 where "THR_SLIDE_DURATION_MS \<equiv> 200"

definition thr_anim_is_complete :: "anim_state \<Rightarrow> u64 \<Rightarrow> bool" where
  "thr_anim_is_complete a now_ms =
     (let elapsed = now_ms - start_ms a
      in case anim_ty a of
           ANIM_NONE \<Rightarrow> True
         | ANIM_SLIDE_LEFT \<Rightarrow> elapsed \<ge> THR_SLIDE_DURATION_MS
         | ANIM_SLIDE_RIGHT \<Rightarrow> elapsed \<ge> THR_SLIDE_DURATION_MS
         | ANIM_TITLE_SHAKE \<Rightarrow> elapsed \<ge> ANIM_SHAKE_DURATION_MS
         | ANIM_ENTER_MODE \<Rightarrow> elapsed \<ge> ANIM_MODE_DURATION_MS
         | ANIM_EXIT_MODE \<Rightarrow> elapsed \<ge> ANIM_MODE_DURATION_MS)"

section \<open>Start and end\<close>

definition thr_init_page :: "'w thr_page option \<Rightarrow> 'w \<Rightarrow> 'w" where
  "thr_init_page p w = (case p of None \<Rightarrow> w | Some p \<Rightarrow> call_opt (tp_init p) w)"

definition thr_controller_init ::
  "'w thr_page option list \<Rightarrow> int \<Rightarrow> 'w \<Rightarrow> 'w thr_controller \<times> 'w" where
  "thr_controller_init pgs cnt w =
     (\<lparr>tc_screen_state = SCREEN_ON, tc_last_activity_ms = 0,
       tc_current_page = (if cnt > 1 then 1 else 0), tc_page_count = cnt,
       tc_page_mode = PAGE_MODE_VIEW,
       tc_anim = \<lparr>anim_ty = ANIM_NONE, start_ms = 0, from_page = 0, to_page = 0\<rparr>,
       tc_idle_timeout_ms = DEFAULT_IDLE_TIMEOUT_MS, tc_pages = pgs\<rparr>,
      fold (\<lambda>i. thr_init_page (pgs ! i)) [0..<nat cnt] w)"

definition thr_destroy_page :: "'w thr_page option \<Rightarrow> 'w \<Rightarrow> 'w" where
  "thr_destroy_page p w = (case p of None \<Rightarrow> w | Some p \<Rightarrow> call_opt (tp_destroy p) w)"

definition thr_controller_destroy :: "'w thr_controller \<Rightarrow> 'w \<Rightarrow> 'w" where
  "thr_controller_destroy pc w =
     fold (\<lambda>i. thr_destroy_page (tc_pages pc ! i)) [0..<nat (tc_page_count pc)] w"

section \<open>Keys\<close>

definition thr_start_animation :: "anim_type \<Rightarrow> u64 \<Rightarrow> 'w thr_controller \<Rightarrow> 'w thr_controller" where
  [step_defs]: "thr_start_animation ty now_ms pc =
     pc\<lparr>tc_anim := (tc_anim pc)\<lparr>anim_ty := ty, start_ms := now_ms\<rparr>\<rparr>"

definition thr_switch_page :: "int \<Rightarrow> u64 \<Rightarrow> 'w thr_controller \<Rightarrow> 'w thr_controller" where
  "thr_switch_page direction now_ms pc =
     (if tc_page_count pc \<le> 1 then pc
      else if anim_ty (tc_anim pc) \<noteq> ANIM_NONE then pc
      else
        let new_page = tc_current_page pc + direction;
            new_page = (if new_page < 0 then tc_page_count pc - 1 else new_page);
            new_page = (if new_page \<ge> tc_page_count pc then 0 else new_page);
            pc = pc\<lparr>tc_anim := (tc_anim pc)\<lparr>from_page := tc_current_page pc, to_page := new_page\<rparr>\<rparr>
        in if direction > 0 then thr_start_animation ANIM_SLIDE_LEFT now_ms pc
           else thr_start_animation ANIM_SLIDE_RIGHT now_ms pc)"

text \<open>\<open>pc->pages[pc->current_page]\<close>.\<close>

definition thr_current :: "'w thr_controller \<Rightarrow> 'w thr_page option" where
  "thr_current pc = tc_pages pc ! nat (tc_current_page pc)"

definition thr_try_enter_mode ::
  "u64 \<Rightarrow> 'w thr_controller \<Rightarrow> 'w \<Rightarrow> bool \<times> 'w thr_controller \<times> 'w" where
  "thr_try_enter_mode now_ms pc w =
     (if tc_page_mode pc = PAGE_MODE_ENTER then
        let pc = thr_start_animation ANIM_EXIT_MODE now_ms (pc\<lparr>tc_page_mode := PAGE_MODE_VIEW\<rparr>)
        in (True, pc, case thr_current pc of None \<Rightarrow> w | Some page \<Rightarrow> call_opt (tp_on_exit page) w)
      else case thr_current pc of
        None \<Rightarrow> (False, pc, w)
      | Some page \<Rightarrow>
          if tp_can_enter page then
            (True, thr_start_animation ANIM_ENTER_MODE now_ms (pc\<lparr>tc_page_mode := PAGE_MODE_ENTER\<rparr>),
             call_opt (tp_on_enter page) w)
          else (True, thr_start_animation ANIM_TITLE_SHAKE now_ms pc, w))"

definition thr_on_key ::
  "'w thr_page option \<Rightarrow> u8 \<Rightarrow> bool \<Rightarrow> page_mode \<Rightarrow> 'w \<Rightarrow> bool \<times> 'w" where
  "thr_on_key page key long_press mode w =
     (case page of
        None \<Rightarrow> (False, w)
      | Some p \<Rightarrow> (case tp_on_key p of None \<Rightarrow> (False, w) | Some f \<Rightarrow> f key long_press mode w))"

text \<open>
  The block for enter mode, and the one for view mode, which the code skips in enter mode.
\<close>

definition thr_key_enter ::
  "u8 \<Rightarrow> bool \<Rightarrow> u64 \<Rightarrow> 'w thr_controller \<Rightarrow> 'w \<Rightarrow> bool \<times> 'w thr_controller \<times> 'w" where
  "thr_key_enter key long_press now_ms pc w =
     (case thr_current pc of
        None \<Rightarrow> (False, pc, w)
      | Some page \<Rightarrow>
          if tp_on_key page = None then (False, pc, w)
          else if key = KEY_K2 \<and> long_press then thr_try_enter_mode now_ms pc w
          else let (handled, w) = thr_on_key (Some page) key long_press (tc_page_mode pc) w
               in (handled, pc, w))"

definition thr_key_view ::
  "u8 \<Rightarrow> bool \<Rightarrow> u64 \<Rightarrow> 'w thr_controller \<Rightarrow> 'w \<Rightarrow> bool \<times> 'w thr_controller \<times> 'w" where
  "thr_key_view key long_press now_ms pc w =
     (if key = KEY_K1 \<and> \<not> long_press then (True, thr_switch_page (-1) now_ms pc, w)
      else if key = KEY_K3 \<and> \<not> long_press then (True, thr_switch_page 1 now_ms pc, w)
      else if key = KEY_K2 \<and> long_press then thr_try_enter_mode now_ms pc w
      else if key = KEY_K2 \<and> tc_current_page pc = 0 then (True, pc\<lparr>tc_screen_state := SCREEN_OFF\<rparr>, w)
      else let (handled, w) = thr_on_key (thr_current pc) key long_press (tc_page_mode pc) w
           in (handled, pc, w))"

definition thr_handle_key ::
  "u8 \<Rightarrow> bool \<Rightarrow> u64 \<Rightarrow> 'w thr_controller \<Rightarrow> 'w \<Rightarrow> bool \<times> 'w thr_controller \<times> 'w" where
  "thr_handle_key key long_press now_ms pc w =
     (let pc = pc\<lparr>tc_last_activity_ms := now_ms\<rparr> in
      if tc_screen_state pc = SCREEN_OFF then (True, pc\<lparr>tc_screen_state := SCREEN_ON\<rparr>, w)
      else if anim_ty (tc_anim pc) \<noteq> ANIM_NONE \<and> \<not> thr_anim_is_complete (tc_anim pc) now_ms
      then (False, pc, w)
      else
        let pc = pc\<lparr>tc_anim := (tc_anim pc)\<lparr>anim_ty := ANIM_NONE\<rparr>\<rparr> in
        if tc_page_mode pc = PAGE_MODE_ENTER then thr_key_enter key long_press now_ms pc w
        else thr_key_view key long_press now_ms pc w)"

section \<open>Ticks\<close>

definition thr_auto_off :: "u64 \<Rightarrow> 'w thr_controller \<Rightarrow> bool \<times> 'w thr_controller" where
  "thr_auto_off now_ms pc =
     (if tc_screen_state pc = SCREEN_ON \<and> tc_idle_timeout_ms pc > 0 \<and>
         now_ms - tc_last_activity_ms pc \<ge> ucast (tc_idle_timeout_ms pc)
      then (True, pc\<lparr>tc_screen_state := SCREEN_OFF\<rparr>) else (False, pc))"

definition thr_tick_animation :: "u64 \<Rightarrow> 'w thr_controller \<Rightarrow> bool \<times> 'w thr_controller" where
  "thr_tick_animation now_ms pc =
     (if anim_ty (tc_anim pc) \<noteq> ANIM_NONE then
        (True,
         if thr_anim_is_complete (tc_anim pc) now_ms then
           let pc = (if anim_ty (tc_anim pc) = ANIM_SLIDE_LEFT \<or> anim_ty (tc_anim pc) = ANIM_SLIDE_RIGHT
                     then pc\<lparr>tc_current_page := to_page (tc_anim pc)\<rparr> else pc)
           in pc\<lparr>tc_anim := (tc_anim pc)\<lparr>anim_ty := ANIM_NONE\<rparr>\<rparr>
         else pc)
      else (False, pc))"

definition thr_tick :: "u64 \<Rightarrow> 'w thr_controller \<Rightarrow> bool \<times> 'w thr_controller" where
  "thr_tick now_ms pc =
     (let pc = (if tc_last_activity_ms pc = 0 then pc\<lparr>tc_last_activity_ms := now_ms\<rparr> else pc);
          (r1, pc) = thr_auto_off now_ms pc;
          (r2, pc) = thr_tick_animation now_ms pc
      in (r1 \<or> r2, pc))"

definition thr_is_screen_on :: "'w thr_controller \<Rightarrow> bool" where
  [step_defs]: "thr_is_screen_on pc \<longleftrightarrow> tc_screen_state pc = SCREEN_ON"

definition thr_is_animating :: "'w thr_controller \<Rightarrow> bool" where
  [step_defs]: "thr_is_animating pc \<longleftrightarrow> anim_ty (tc_anim pc) \<noteq> ANIM_NONE"

definition thr_set_idle_timeout :: "u32 \<Rightarrow> 'w thr_controller \<Rightarrow> 'w thr_controller" where
  [step_defs]: "thr_set_idle_timeout timeout_ms pc = pc\<lparr>tc_idle_timeout_ms := timeout_ms\<rparr>"

section \<open>Well-formed states\<close>

text \<open>
  The current page is a registered page; a slide starts at it and runs to a registered page,
  in view mode; in enter mode at most the enter animation runs and the page supports the mode.
\<close>

definition thr_wf :: "'w thr_controller \<Rightarrow> bool" where
  [wf_defs]: "thr_wf pc \<longleftrightarrow>
     tc_page_count pc = int (length (tc_pages pc)) \<and>
     0 \<le> tc_current_page pc \<and> tc_current_page pc < tc_page_count pc \<and>
     (is_slide (anim_ty (tc_anim pc)) \<longrightarrow>
        tc_page_mode pc = PAGE_MODE_VIEW \<and> from_page (tc_anim pc) = tc_current_page pc \<and>
        0 \<le> to_page (tc_anim pc) \<and> to_page (tc_anim pc) < tc_page_count pc) \<and>
     (tc_page_mode pc = PAGE_MODE_ENTER \<longrightarrow>
        anim_ty (tc_anim pc) \<in> {ANIM_NONE, ANIM_ENTER_MODE} \<and>
        (\<exists>p. thr_current pc = Some p \<and> tp_can_enter p))"

definition thr_key_base :: "u64 \<Rightarrow> 'w thr_controller \<Rightarrow> 'w thr_controller" where
  "thr_key_base now_ms pc = pc\<lparr>tc_last_activity_ms := now_ms, tc_anim := (tc_anim pc)\<lparr>anim_ty := ANIM_NONE\<rparr>\<rparr>"

definition thr_ready :: "u64 \<Rightarrow> 'w thr_controller \<Rightarrow> bool" where
  "thr_ready now_ms pc \<longleftrightarrow> tc_screen_state pc = SCREEN_ON \<and>
     (anim_ty (tc_anim pc) = ANIM_NONE \<or> thr_anim_is_complete (tc_anim pc) now_ms)"

lemma thr_key_base_sel [simp]:
  "tc_screen_state (thr_key_base t pc) = tc_screen_state pc"
  "tc_current_page (thr_key_base t pc) = tc_current_page pc"
  "tc_page_count (thr_key_base t pc) = tc_page_count pc"
  "tc_page_mode (thr_key_base t pc) = tc_page_mode pc"
  "tc_pages (thr_key_base t pc) = tc_pages pc"
  "tc_idle_timeout_ms (thr_key_base t pc) = tc_idle_timeout_ms pc"
  "tc_last_activity_ms (thr_key_base t pc) = t"
  "anim_ty (tc_anim (thr_key_base t pc)) = ANIM_NONE"
  "thr_current (thr_key_base t pc) = thr_current pc"
  by (simp_all add: thr_key_base_def thr_current_def)

lemma thr_handle_key_paths:
  "tc_screen_state pc = SCREEN_OFF \<Longrightarrow> thr_handle_key key lp t pc w =
     (True, pc\<lparr>tc_last_activity_ms := t, tc_screen_state := SCREEN_ON\<rparr>, w)"
  "tc_screen_state pc = SCREEN_ON \<Longrightarrow> \<not> thr_ready t pc \<Longrightarrow>
     thr_handle_key key lp t pc w = (False, pc\<lparr>tc_last_activity_ms := t\<rparr>, w)"
  "thr_ready t pc \<Longrightarrow> tc_page_mode pc = PAGE_MODE_ENTER \<Longrightarrow>
     thr_handle_key key lp t pc w = thr_key_enter key lp t (thr_key_base t pc) w"
  "thr_ready t pc \<Longrightarrow> tc_page_mode pc = PAGE_MODE_VIEW \<Longrightarrow>
     thr_handle_key key lp t pc w = thr_key_view key lp t (thr_key_base t pc) w"
  by (auto simp: thr_handle_key_def thr_ready_def thr_key_base_def Let_def)

lemma thr_handle_key_cases:
  obtains (off) "tc_screen_state pc = SCREEN_OFF"
  | (busy) "tc_screen_state pc = SCREEN_ON" "\<not> thr_ready t pc"
  | (enter) "thr_ready t pc" "tc_screen_state pc = SCREEN_ON" "tc_page_mode pc = PAGE_MODE_ENTER"
  | (view) "thr_ready t pc" "tc_screen_state pc = SCREEN_ON" "tc_page_mode pc = PAGE_MODE_VIEW"
  by (cases "tc_screen_state pc"; cases "thr_ready t pc"; cases "tc_page_mode pc") simp_all

text \<open>The fields that keys and ticks leave alone.\<close>

lemma thr_current_cong [simp]:
  "thr_current (pc\<lparr>tc_anim := a\<rparr>) = thr_current pc" "thr_current (pc\<lparr>tc_page_mode := m\<rparr>) = thr_current pc"
  "thr_current (pc\<lparr>tc_screen_state := s\<rparr>) = thr_current pc"
  "thr_current (pc\<lparr>tc_last_activity_ms := t\<rparr>) = thr_current pc"
  "thr_current (pc\<lparr>tc_idle_timeout_ms := i\<rparr>) = thr_current pc"
  by (simp_all add: thr_current_def)

lemma thr_animation_sel [simp]:
  "tc_pages (thr_start_animation a t pc) = tc_pages pc"
  "tc_page_count (thr_start_animation a t pc) = tc_page_count pc"
  "tc_current_page (thr_start_animation a t pc) = tc_current_page pc"
  "tc_page_mode (thr_start_animation a t pc) = tc_page_mode pc"
  "tc_screen_state (thr_start_animation a t pc) = tc_screen_state pc"
  "tc_last_activity_ms (thr_start_animation a t pc) = tc_last_activity_ms pc"
  "tc_idle_timeout_ms (thr_start_animation a t pc) = tc_idle_timeout_ms pc"
  "anim_ty (tc_anim (thr_start_animation a t pc)) = a"
  "start_ms (tc_anim (thr_start_animation a t pc)) = t"
  "from_page (tc_anim (thr_start_animation a t pc)) = from_page (tc_anim pc)"
  "to_page (tc_anim (thr_start_animation a t pc)) = to_page (tc_anim pc)"
  "thr_current (thr_start_animation a t pc) = thr_current pc"
  by (simp_all add: thr_start_animation_def)

lemma thr_switch_sel [simp]:
  "tc_pages (thr_switch_page d t pc) = tc_pages pc"
  "tc_page_count (thr_switch_page d t pc) = tc_page_count pc"
  "tc_current_page (thr_switch_page d t pc) = tc_current_page pc"
  "tc_page_mode (thr_switch_page d t pc) = tc_page_mode pc"
  "tc_screen_state (thr_switch_page d t pc) = tc_screen_state pc"
  "tc_last_activity_ms (thr_switch_page d t pc) = tc_last_activity_ms pc"
  "tc_idle_timeout_ms (thr_switch_page d t pc) = tc_idle_timeout_ms pc"
  by (simp_all add: thr_switch_page_def Let_def)

lemma thr_enter_sel [simp]:
  "tc_pages (fst (snd (thr_try_enter_mode t pc w))) = tc_pages pc"
  "tc_page_count (fst (snd (thr_try_enter_mode t pc w))) = tc_page_count pc"
  "tc_current_page (fst (snd (thr_try_enter_mode t pc w))) = tc_current_page pc"
  "tc_screen_state (fst (snd (thr_try_enter_mode t pc w))) = tc_screen_state pc"
  "tc_last_activity_ms (fst (snd (thr_try_enter_mode t pc w))) = tc_last_activity_ms pc"
  "tc_idle_timeout_ms (fst (snd (thr_try_enter_mode t pc w))) = tc_idle_timeout_ms pc"
  by (simp_all add: thr_try_enter_mode_def Let_def split: option.split)

lemma thr_key_sel [simp]:
  "tc_pages (fst (snd (thr_handle_key key lp t pc w))) = tc_pages pc"
  "tc_page_count (fst (snd (thr_handle_key key lp t pc w))) = tc_page_count pc"
  "tc_current_page (fst (snd (thr_handle_key key lp t pc w))) = tc_current_page pc"
  "tc_last_activity_ms (fst (snd (thr_handle_key key lp t pc w))) = t"
  "tc_idle_timeout_ms (fst (snd (thr_handle_key key lp t pc w))) = tc_idle_timeout_ms pc"
  by (cases rule: thr_handle_key_cases[where pc = pc and t = t];
      simp add: thr_handle_key_paths thr_key_enter_def thr_key_view_def case_prod_beta split: option.split)+

text \<open>Every operation keeps the state well-formed.\<close>

lemma thr_base_wf: "thr_wf pc \<Longrightarrow> thr_wf (thr_key_base t pc)"
  by (auto simp: thr_wf_def)

lemma thr_switch_wf:
  assumes "thr_wf pc" and "tc_page_mode pc = PAGE_MODE_VIEW"
  shows "thr_wf (thr_switch_page d t pc)"
  using assms by (auto simp: thr_switch_page_def thr_wf_def Let_def)

lemma thr_enter_wf:
  assumes "thr_wf pc" and "anim_ty (tc_anim pc) = ANIM_NONE"
  shows "thr_wf (fst (snd (thr_try_enter_mode t pc w)))"
  using assms by (auto simp: thr_try_enter_mode_def thr_wf_def Let_def split: option.split)

lemma thr_handle_key_wf:
  assumes "thr_wf pc"
  shows "thr_wf (fst (snd (thr_handle_key key lp t pc w)))"
proof (cases rule: thr_handle_key_cases[where pc = pc and t = t])
  case off
  then show ?thesis using assms by (auto simp: thr_handle_key_paths thr_wf_def)
next
  case busy
  then show ?thesis using assms by (auto simp: thr_handle_key_paths thr_wf_def)
next
  case enter
  then show ?thesis using thr_base_wf[OF assms, of t] thr_enter_wf[OF thr_base_wf[OF assms, of t]]
    by (auto simp: thr_handle_key_paths thr_key_enter_def case_prod_beta split: option.split)
next
  case view
  have "thr_wf ((thr_key_base t pc)\<lparr>tc_screen_state := SCREEN_OFF\<rparr>)"
    using thr_base_wf[OF assms, of t] by (auto simp: thr_wf_def)
  then show ?thesis
    using view thr_base_wf[OF assms, of t] thr_enter_wf[OF thr_base_wf[OF assms, of t]]
      thr_switch_wf[OF thr_base_wf[OF assms, of t]]
    by (auto simp: thr_handle_key_paths thr_key_view_def case_prod_beta)
qed

lemma thr_auto_off_sel [simp]:
  "tc_pages (snd (thr_auto_off t pc)) = tc_pages pc"
  "tc_page_mode (snd (thr_auto_off t pc)) = tc_page_mode pc"
  "tc_anim (snd (thr_auto_off t pc)) = tc_anim pc"
  "tc_last_activity_ms (snd (thr_auto_off t pc)) = tc_last_activity_ms pc"
  "tc_idle_timeout_ms (snd (thr_auto_off t pc)) = tc_idle_timeout_ms pc"
  by (simp_all add: thr_auto_off_def)

lemma thr_tick_animation_sel [simp]:
  "tc_pages (snd (thr_tick_animation t pc)) = tc_pages pc"
  "tc_page_mode (snd (thr_tick_animation t pc)) = tc_page_mode pc"
  "tc_screen_state (snd (thr_tick_animation t pc)) = tc_screen_state pc"
  "tc_last_activity_ms (snd (thr_tick_animation t pc)) = tc_last_activity_ms pc"
  "tc_idle_timeout_ms (snd (thr_tick_animation t pc)) = tc_idle_timeout_ms pc"
  by (simp_all add: thr_tick_animation_def Let_def)

lemma thr_tick_sel [simp]:
  "tc_pages (snd (thr_tick t pc)) = tc_pages pc"
  "tc_page_mode (snd (thr_tick t pc)) = tc_page_mode pc"
  "tc_idle_timeout_ms (snd (thr_tick t pc)) = tc_idle_timeout_ms pc"
  "tc_last_activity_ms (snd (thr_tick t pc)) =
     (if tc_last_activity_ms pc = 0 then t else tc_last_activity_ms pc)"
  by (simp_all add: thr_tick_def Let_def case_prod_beta)

lemma thr_tick_wf:
  assumes "thr_wf pc"
  shows "thr_wf (snd (thr_tick t pc))"
proof -
  let ?a = "if tc_last_activity_ms pc = 0 then pc\<lparr>tc_last_activity_ms := t\<rparr> else pc"
  have "thr_wf ?a" using assms by (auto simp: thr_wf_def)
  then have "thr_wf (snd (thr_auto_off t ?a))" by (auto simp: thr_auto_off_def thr_wf_def)
  then have "thr_wf (snd (thr_tick_animation t (snd (thr_auto_off t ?a))))"
    by (auto simp: thr_tick_animation_def thr_wf_def thr_current_def Let_def)
  then show ?thesis by (simp add: thr_tick_def Let_def case_prod_beta)
qed

text \<open>When a tick turns the screen off.\<close>

lemma thr_tick_screen:
  "tc_screen_state (snd (thr_tick t pc)) =
     (if 0 < tc_idle_timeout_ms pc \<and> tc_last_activity_ms pc \<noteq> 0 \<and>
         ucast (tc_idle_timeout_ms pc) \<le> t - tc_last_activity_ms pc
      then SCREEN_OFF else tc_screen_state pc)"
proof -
  have "\<not> ucast (tc_idle_timeout_ms pc) \<le> (0::u64)" if "0 < tc_idle_timeout_ms pc"
    using that by (simp add: word_le_nat_alt word_less_nat_alt)
  then show ?thesis
    using screen_state.exhaust[of "tc_screen_state pc"]
    by (auto simp: thr_tick_def Let_def case_prod_beta thr_auto_off_def)
qed

text \<open>A key changes the world by at most one call of the current page.\<close>

lemma thr_handle_key_world:
  assumes "P w" and key: "\<And>p kf m. thr_current pc = Some p \<Longrightarrow> tp_on_key p = Some kf \<Longrightarrow> P (snd (kf key lp m w))"
    and mode: "\<And>p f. thr_current pc = Some p \<Longrightarrow> tp_on_enter p = Some f \<or> tp_on_exit p = Some f \<Longrightarrow> P (f w)"
  shows "P (snd (snd (thr_handle_key key lp t pc w)))"
proof -
  have k: "P (snd (thr_on_key (thr_current pc) key lp m w))" for m
    using assms(1) key by (auto simp: thr_on_key_def split: option.split)
  have "P (call_opt (tp_on_enter p) w)" "P (call_opt (tp_on_exit p) w)" if "thr_current pc = Some p" for p
    using mode[OF that] assms(1) by (cases "tp_on_enter p"; cases "tp_on_exit p"; simp)+
  then have "P (snd (snd (thr_try_enter_mode t (thr_key_base t pc) w)))"
    using assms(1) by (auto simp: thr_try_enter_mode_def Let_def split: option.split)
  then show ?thesis
    using assms(1) k
    by (cases rule: thr_handle_key_cases[where pc = pc and t = t]; cases "thr_current pc")
      (simp_all add: thr_handle_key_paths thr_key_enter_def thr_key_view_def case_prod_beta)
qed

text \<open>What turns the screen off reports that it must be drawn.\<close>

lemma thr_quiet_screen:
  "\<not> fst (thr_tick t pc) \<Longrightarrow> tc_screen_state (snd (thr_tick t pc)) = tc_screen_state pc"
  "\<not> fst (thr_handle_key key lp t pc w) \<Longrightarrow>
     tc_screen_state (fst (snd (thr_handle_key key lp t pc w))) = tc_screen_state pc"
proof -
  show "\<not> fst (thr_tick t pc) \<Longrightarrow> tc_screen_state (snd (thr_tick t pc)) = tc_screen_state pc"
    by (auto simp: thr_tick_def Let_def case_prod_beta thr_auto_off_def split: if_splits)
  show "\<not> fst (thr_handle_key key lp t pc w) \<Longrightarrow>
      tc_screen_state (fst (snd (thr_handle_key key lp t pc w))) = tc_screen_state pc"
    by (cases rule: thr_handle_key_cases[where pc = pc and t = t]; cases "thr_current pc")
      (auto simp: thr_handle_key_paths thr_key_enter_def thr_key_view_def case_prod_beta split: if_splits)
qed

section \<open>The contract of the pages\<close>

text \<open>
  What the controller relies on: page code keeps the invariant of the page modules, all pages
  are there, and a page that can be entered takes keys (without a key handler it could not be left).
\<close>

definition thr_ok :: "'w thr_page option list \<Rightarrow> ('w \<Rightarrow> bool) \<Rightarrow> 'w thr_controller \<Rightarrow> 'w \<Rightarrow> bool" where
  [wf_defs]: "thr_ok pgs winv pc w \<longleftrightarrow> tc_pages pc = pgs \<and> thr_wf pc \<and> winv w"

locale thr_page_set =
  fixes pgs :: "'w thr_page option list"
    and winv :: "'w \<Rightarrow> bool"
    and boot :: "'w \<Rightarrow> bool"
  assumes boot_init: "boot w \<Longrightarrow> winv (fold (\<lambda>i. thr_init_page (pgs ! i)) [0..<length pgs] w)"
    and key_inv: "\<lbrakk>i < length pgs; pgs ! i = Some p; tp_on_key p = Some kf; winv w\<rbrakk> \<Longrightarrow> winv (snd (kf k l m w))"
    and enter_inv: "\<lbrakk>i < length pgs; pgs ! i = Some p; tp_on_enter p = Some f; winv w\<rbrakk> \<Longrightarrow> winv (f w)"
    and exit_inv: "\<lbrakk>i < length pgs; pgs ! i = Some p; tp_on_exit p = Some f; winv w\<rbrakk> \<Longrightarrow> winv (f w)"
    and render_inv:
      "\<lbrakk>i < length pgs; pgs ! i = Some p; tp_render p = Some rf; winv w\<rbrakk> \<Longrightarrow> winv (rf gsw st m w)"
    and enterable: "\<lbrakk>i < length pgs; pgs ! i = Some p; tp_can_enter p\<rbrakk> \<Longrightarrow> tp_on_key p \<noteq> None"
    and some_page: "pgs \<noteq> []"
begin

lemma current_ok:
  assumes "thr_ok pgs winv pc w"
  shows "nat (tc_current_page pc) < length pgs" and "thr_current pc = pgs ! nat (tc_current_page pc)"
  using assms by (auto simp: thr_ok_def thr_wf_def thr_current_def)

lemma init_ok:
  "boot w \<Longrightarrow> (case thr_controller_init pgs (int (length pgs)) w of (pc, w') \<Rightarrow> thr_ok pgs winv pc w')"
  using boot_init some_page
  by (auto simp: thr_controller_init_def thr_ok_def thr_wf_def Suc_le_eq)

lemma handle_key_ok:
  assumes "thr_ok pgs winv pc w"
  shows "thr_ok pgs winv (fst (snd (thr_handle_key key lp t pc w))) (snd (snd (thr_handle_key key lp t pc w)))"
proof -
  note c = current_ok[OF assms]
  have w: "winv w" "tc_pages pc = pgs" "thr_wf pc" using assms by (simp_all add: thr_ok_def)
  have "winv (snd (snd (thr_handle_key key lp t pc w)))"
    by (rule thr_handle_key_world)
      (use w(1) c key_inv[OF c(1)] enter_inv[OF c(1)] exit_inv[OF c(1)] in auto)
  then show ?thesis using w thr_handle_key_wf[OF w(3)] by (simp add: thr_ok_def)
qed

lemma tick_ok: "thr_ok pgs winv pc w \<Longrightarrow> thr_ok pgs winv (snd (thr_tick t pc)) w"
  by (simp add: thr_ok_def thr_tick_wf)

text \<open>Enter mode can be left: a long press of K2 that finds no animation running leaves it.\<close>

lemma enter_left:
  assumes "thr_ok pgs winv pc w" and "thr_ready t pc" and "tc_page_mode pc = PAGE_MODE_ENTER"
  shows "tc_page_mode (fst (snd (thr_handle_key KEY_K2 True t pc w))) = PAGE_MODE_VIEW"
proof -
  note c = current_ok[OF assms(1)]
  obtain p where p: "thr_current pc = Some p" "tp_can_enter p"
    using assms(1,3) by (auto simp: thr_ok_def thr_wf_def)
  then have "tp_on_key p \<noteq> None" using enterable[OF c(1)] c(2) by simp
  then show ?thesis
    using assms(2,3) p by (auto simp: thr_handle_key_paths thr_key_enter_def thr_try_enter_mode_def Let_def)
qed

end

end
