(* ===== verification/Thr_Pages.thy ===== *)
theory Thr_Pages
  imports Thr_Controller Pages
begin

text \<open>
  The four pages of the threaded version of the program (\<open>src_adr0005/pages\<close>) and its drawing
  of the screen (\<open>page_controller_render\<close> of \<open>src_adr0005/page_controller.c\<close>). A read beyond the
  arrays of the services page is recorded as undefined behaviour. The configuration of services
  and the display driver are those of the main program.
\<close>

definition thr_draw_str :: "int \<Rightarrow> int \<Rightarrow> string \<Rightarrow> u8g2 \<Rightarrow> u8g2" where
  [step_defs]: "thr_draw_str x y s u = u8g2_do (U8g2_DrawStr (word_of_int x) (word_of_int y) s) u"

section \<open>Home, gateway and network\<close>

definition thr_format_uptime :: "u32 \<Rightarrow> nat \<Rightarrow> string" where
  "thr_format_uptime t buflen =
     (let days = t div 86400;
          hours = (t mod 86400) div 3600;
          mins = (t mod 3600) div 60
      in bounded_copy buflen
           (if days > 0 then dec_nat (unat days) @ ''d '' @ dec_nat (unat hours) @ ''h''
            else dec_nat (unat hours) @ ''h '' @ dec_nat (unat mins) @ ''m''))"

definition thr_format_speed_bps :: "u64 \<Rightarrow> nat \<Rightarrow> string" where
  "thr_format_speed_bps bytes_per_sec buflen =
     (let bits_per_sec = bytes_per_sec * 8
      in bounded_copy buflen
           (if bits_per_sec \<ge> 1000000 then
              fmt_fixed 1 (f64_div (f64_of_u64 bits_per_sec) 1000000) @ ''Mb/s''
            else if bits_per_sec \<ge> 1000 then
              fmt_fixed 1 (f64_div (f64_of_u64 bits_per_sec) 1000) @ ''Kb/s''
            else dec_nat (unat bits_per_sec) @ ''b/s''))"

definition thr_home_get_title :: "sys_status option \<Rightarrow> string option" where
  "thr_home_get_title status =
     (case status of
        Some st \<Rightarrow> if hostname st \<noteq> [] then Some (hostname st) else Some ''NanoHat''
      | None \<Rightarrow> Some ''NanoHat'')"

definition thr_home_draw :: "sys_status option \<Rightarrow> u8g2 \<Rightarrow> u8g2" where
  "thr_home_draw status u =
     (let u = u8g2_SetFont font_content u
      in case status of
           None \<Rightarrow>
             thr_draw_str MARGIN_LEFT LINE3_Y ''RUN: --''
               (thr_draw_str MARGIN_LEFT LINE2_Y ''MEM: --''
                 (thr_draw_str MARGIN_LEFT LINE1_Y (''CPU: --    --'' @ degree_C) u))
         | Some st \<Rightarrow>
             (let buf = bounded_copy 32 (''CPU:'' @ fmt_width 3 (cpu_usage st) @ ''%   '' @
                          fmt_width 2 (cpu_temp st) @ degree_C);
                  u = thr_draw_str MARGIN_LEFT LINE1_Y buf u;
                  mem_used_mb = (mem_total_kb st - mem_available_kb st) div 1024;
                  mem_total_mb = mem_total_kb st div 1024;
                  buf = bounded_copy 32 (''MEM:'' @ dec_nat (unat mem_used_mb) @ ''M / '' @
                          dec_nat (unat mem_total_mb) @ ''M'');
                  u = thr_draw_str MARGIN_LEFT LINE2_Y buf u;
                  buf = bounded_copy 32 (''RUN:'' @ thr_format_uptime (uptime_sec st) 16)
              in thr_draw_str MARGIN_LEFT LINE3_Y buf u))"

definition thr_home_render ::
  "metrics \<Rightarrow> sys_status option \<Rightarrow> page_mode \<Rightarrow> 'a disp_world_scheme \<Rightarrow> 'a disp_world_scheme" where
  "thr_home_render gsw status mode w = on_u8g2 (thr_home_draw status) w"

definition thr_page_home :: "'a disp_world_scheme thr_page" where
  "thr_page_home = \<lparr>tp_name = ''Home'', tp_can_enter = False, tp_init = None, tp_destroy = None,
     tp_get_title = Some thr_home_get_title, tp_render = Some thr_home_render, tp_on_key = None,
     tp_on_enter = None, tp_on_exit = None\<rparr>"

text \<open>The lines of a transfer rate.\<close>

definition thr_draw_speeds :: "sys_status \<Rightarrow> u8g2 \<Rightarrow> u8g2" where
  "thr_draw_speeds st u =
     (let u = thr_draw_str MARGIN_LEFT LINE2_Y
                (bounded_copy 32 (''RX: '' @ thr_format_speed_bps (rx_speed st) 16)) u
      in thr_draw_str MARGIN_LEFT LINE3_Y
           (bounded_copy 32 (''TX: '' @ thr_format_speed_bps (tx_speed st) 16)) u)"

definition thr_no_status :: "u8g2 \<Rightarrow> u8g2" where
  "thr_no_status u =
     thr_draw_str MARGIN_LEFT LINE3_Y ''TX: --''
       (thr_draw_str MARGIN_LEFT LINE2_Y ''RX: --''
         (thr_draw_str MARGIN_LEFT LINE1_Y ''IP: --'' u))"

definition thr_gateway_get_title :: "sys_status option \<Rightarrow> string option" where
  "thr_gateway_get_title status = Some ''Gateway''"

definition thr_gateway_draw :: "sys_status option \<Rightarrow> u8g2 \<Rightarrow> u8g2" where
  "thr_gateway_draw status u =
     (let u = u8g2_SetFont font_content u
      in case status of
           None \<Rightarrow> thr_no_status u
         | Some st \<Rightarrow>
             thr_draw_speeds st (thr_draw_str MARGIN_LEFT LINE1_Y
               (bounded_copy 32 (''IP: '' @ (if gateway st \<noteq> [] then gateway st else ''--''))) u))"

definition thr_gateway_render ::
  "metrics \<Rightarrow> sys_status option \<Rightarrow> page_mode \<Rightarrow> 'a disp_world_scheme \<Rightarrow> 'a disp_world_scheme" where
  "thr_gateway_render gsw status mode w = on_u8g2 (thr_gateway_draw status) w"

definition thr_page_gateway :: "'a disp_world_scheme thr_page" where
  "thr_page_gateway = \<lparr>tp_name = ''Gateway'', tp_can_enter = False, tp_init = None, tp_destroy = None,
     tp_get_title = Some thr_gateway_get_title, tp_render = Some thr_gateway_render, tp_on_key = None,
     tp_on_enter = None, tp_on_exit = None\<rparr>"

definition thr_network_get_title :: "sys_status option \<Rightarrow> string option" where
  "thr_network_get_title status = Some ''Network''"

definition thr_network_draw :: "sys_status option \<Rightarrow> u8g2 \<Rightarrow> u8g2" where
  "thr_network_draw status u =
     (let u = u8g2_SetFont font_content u
      in case status of
           None \<Rightarrow> thr_no_status u
         | Some st \<Rightarrow>
             thr_draw_speeds st (thr_draw_str MARGIN_LEFT LINE1_Y
               (bounded_copy 32 (''IP: '' @ (if ip_addr st \<noteq> [] then ip_addr st else ''No IP''))) u))"

definition thr_network_render ::
  "metrics \<Rightarrow> sys_status option \<Rightarrow> page_mode \<Rightarrow> 'a disp_world_scheme \<Rightarrow> 'a disp_world_scheme" where
  "thr_network_render gsw status mode w = on_u8g2 (thr_network_draw status) w"

definition thr_page_network :: "'a disp_world_scheme thr_page" where
  "thr_page_network = \<lparr>tp_name = ''Network'', tp_can_enter = False, tp_init = None, tp_destroy = None,
     tp_get_title = Some thr_network_get_title, tp_render = Some thr_network_render, tp_on_key = None,
     tp_on_enter = None, tp_on_exit = None\<rparr>"

section \<open>Services\<close>

text \<open>
  The statics of \<open>page_services.c\<close>. Nothing writes \<open>ui_states\<close> after the start: starting and
  stopping services was not written yet (a comment in the code says so). \<open>g_task_queue\<close> is the
  pointer, of which only being NULL matters.
\<close>

record thr_services =
  ts_selected_index :: int
  ts_scroll_offset :: int
  ts_ui_states :: "svc_ui_state list"
  ts_state_change_ms :: "u64 list"
  ts_pending_request_id :: "u32 list"

record thr_world = disp_world +
  thr_svc :: thr_services
  g_task_queue_set :: bool

definition page_services_set_task_queue :: "bool \<Rightarrow> 'a thr_world_scheme \<Rightarrow> 'a thr_world_scheme" where
  "page_services_set_task_queue tq w = w\<lparr>g_task_queue_set := tq\<rparr>"

definition thr_services_init :: "'a thr_world_scheme \<Rightarrow> 'a thr_world_scheme" where
  "thr_services_init w = w\<lparr>thr_svc :=
     \<lparr>ts_selected_index = 0, ts_scroll_offset = 0,
      ts_ui_states = replicate MAX_SERVICES SVC_UI_STOPPED,
      ts_state_change_ms = replicate MAX_SERVICES 0,
      ts_pending_request_id = replicate MAX_SERVICES 0\<rparr>\<rparr>"

definition thr_services_get_title :: "sys_status option \<Rightarrow> string option" where
  "thr_services_get_title status = Some ''Services''"

text \<open>The blinking of all services follows the time of the first, as the code does.\<close>

definition thr_service_icon :: "thr_services \<Rightarrow> service_status \<Rightarrow> svc_ui_state \<Rightarrow> u64 \<Rightarrow> string" where
  "thr_service_icon s svc ui_state now_ms =
     (if ui_state = SVC_UI_STARTING \<or> ui_state = SVC_UI_STOPPING then
        let elapsed = now_ms - ts_state_change_ms s ! 0;
            phase = c_rem (c_int_of_u64 (elapsed div ANIM_BLINK_PERIOD_MS)) 2
        in if phase = 0 then (if ui_state = SVC_UI_STARTING then ''>'' else ''#'') else '' ''
      else if ui_state = SVC_UI_ERROR then ''?''
      else if \<not> status_valid svc then ''?''
      else if running svc then ''>'' else ''#'')"

definition thr_service_line ::
  "metrics \<Rightarrow> int \<Rightarrow> string \<Rightarrow> string \<Rightarrow> bool \<Rightarrow> page_mode \<Rightarrow> u8g2 \<Rightarrow> u8g2" where
  "thr_service_line gsw y name icon is_selected mode u =
     (let inverted = is_selected \<and> mode = PAGE_MODE_ENTER;
          u = (if inverted then
                 u8g2_do (U8g2_SetDrawColor 0)
                   (u8g2_do (U8g2_DrawBox 0 (word_of_int (y - 12)) 128 14) (u8g2_do (U8g2_SetDrawColor 1) u))
               else u);
          u = u8g2_SetFont font_content u;
          u = thr_draw_str MARGIN_LEFT y (bounded_copy 32 name) u;
          icon_width = u8g2_GetStrWidth gsw u icon;
          u = thr_draw_str (SCREEN_WIDTH - MARGIN_RIGHT - icon_width) y icon u
      in if inverted then u8g2_do (U8g2_SetDrawColor 1) u else u)"

text \<open>The loop over the visible lines; \<open>now_ms\<close> is 0 in the code.\<close>

fun thr_service_lines ::
  "metrics \<Rightarrow> sys_status \<Rightarrow> thr_services \<Rightarrow> page_mode \<Rightarrow> (int \<times> int) list \<Rightarrow> u8g2 \<Rightarrow> u8g2" where
  "thr_service_lines gsw st s mode [] u = u"
| "thr_service_lines gsw st s mode ((i, y) # lines) u =
     (if ts_scroll_offset s + i < int (service_count st) then
        let svc_idx = ts_scroll_offset s + i
        in if svc_idx < 0 \<or> int (length (services st)) \<le> svc_idx \<or> int (length (ts_ui_states s)) \<le> svc_idx
           then u8g2_undefined u
           else
             let svc = services st ! nat svc_idx;
                 icon = thr_service_icon s svc (ts_ui_states s ! nat svc_idx) 0
             in thr_service_lines gsw st s mode lines
                  (thr_service_line gsw y (svc_name svc) icon (svc_idx = ts_selected_index s) mode u)
      else u)"

definition thr_scroll_marks :: "int \<Rightarrow> thr_services \<Rightarrow> u8g2 \<Rightarrow> u8g2" where
  "thr_scroll_marks cnt s u =
     (let u = u8g2_SetFont font_small u;
          u = (if ts_scroll_offset s > 0 then thr_draw_str (SCREEN_WIDTH - 10) 12 ''^'' u else u)
      in if ts_scroll_offset s + VISIBLE_LINES < cnt
         then thr_draw_str (SCREEN_WIDTH - 10) (SCREEN_HEIGHT - 2) ''v'' u else u)"

definition thr_services_draw ::
  "metrics \<Rightarrow> sys_status option \<Rightarrow> page_mode \<Rightarrow> thr_services \<Rightarrow> u8g2 \<Rightarrow> u8g2" where
  "thr_services_draw gsw status mode s u =
     (case status of
        None \<Rightarrow> thr_draw_str MARGIN_LEFT LINE2_Y ''Loading...'' (u8g2_SetFont font_content u)
      | Some st \<Rightarrow>
          if service_count st = 0
          then thr_draw_str MARGIN_LEFT LINE2_Y ''No services'' (u8g2_SetFont font_content u)
          else
            let u = thr_service_lines gsw st s mode [(0, LINE1_Y), (1, LINE2_Y), (2, LINE3_Y)] u
            in if mode = PAGE_MODE_ENTER \<and> int (service_count st) > VISIBLE_LINES
               then thr_scroll_marks (int (service_count st)) s u else u)"

definition thr_services_render ::
  "metrics \<Rightarrow> sys_status option \<Rightarrow> page_mode \<Rightarrow> 'a thr_world_scheme \<Rightarrow> 'a thr_world_scheme" where
  "thr_services_render gsw status mode w = on_u8g2 (thr_services_draw gsw status mode (thr_svc w)) w"

definition thr_ensure_visible :: "int \<Rightarrow> thr_services \<Rightarrow> thr_services" where
  "thr_ensure_visible cnt s =
     (let scroll = (if ts_selected_index s < ts_scroll_offset s then ts_selected_index s
                    else if ts_selected_index s \<ge> ts_scroll_offset s + VISIBLE_LINES
                    then ts_selected_index s - VISIBLE_LINES + 1 else ts_scroll_offset s);
          max_scroll = cnt - VISIBLE_LINES;
          max_scroll = (if max_scroll < 0 then 0 else max_scroll);
          scroll = (if scroll > max_scroll then max_scroll else scroll);
          scroll = (if scroll < 0 then 0 else scroll)
      in s\<lparr>ts_scroll_offset := scroll\<rparr>)"

definition thr_services_on_key ::
  "u8 \<Rightarrow> bool \<Rightarrow> page_mode \<Rightarrow> 'a thr_world_scheme \<Rightarrow> bool \<times> 'a thr_world_scheme" where
  "thr_services_on_key key long_press mode w =
     (if mode \<noteq> PAGE_MODE_ENTER then (False, w)
      else
        let (cfg, w) = service_config_get w; cnt = int (length cfg); s = thr_svc w in
        if cnt = 0 then (False, w)
        else if key = KEY_K1 \<and> \<not> long_press then
          let i = ts_selected_index s - 1; i = (if i < 0 then cnt - 1 else i)
          in (True, w\<lparr>thr_svc := thr_ensure_visible cnt (s\<lparr>ts_selected_index := i\<rparr>)\<rparr>)
        else if key = KEY_K3 \<and> \<not> long_press then
          let i = ts_selected_index s + 1; i = (if i \<ge> cnt then 0 else i)
          in (True, w\<lparr>thr_svc := thr_ensure_visible cnt (s\<lparr>ts_selected_index := i\<rparr>)\<rparr>)
        else if key = KEY_K2 \<and> \<not> long_press \<and> g_task_queue_set w then (True, w)
        else (False, w))"

definition thr_services_on_enter :: "'a thr_world_scheme \<Rightarrow> 'a thr_world_scheme" where
  "thr_services_on_enter w = w\<lparr>thr_svc := (thr_svc w)\<lparr>ts_selected_index := 0, ts_scroll_offset := 0\<rparr>\<rparr>"

definition thr_services_on_exit :: "'a thr_world_scheme \<Rightarrow> 'a thr_world_scheme" where
  "thr_services_on_exit w = w"

definition thr_page_services :: "'a thr_world_scheme thr_page" where
  "thr_page_services = \<lparr>tp_name = ''Services'', tp_can_enter = True, tp_init = Some thr_services_init,
     tp_destroy = None, tp_get_title = Some thr_services_get_title,
     tp_render = Some thr_services_render, tp_on_key = Some thr_services_on_key,
     tp_on_enter = Some thr_services_on_enter, tp_on_exit = Some thr_services_on_exit\<rparr>"

definition thr_pages_get_list :: "'a thr_world_scheme thr_page option list" where
  "thr_pages_get_list =
     [Some thr_page_home, Some thr_page_network, Some thr_page_gateway, Some thr_page_services]"

section \<open>The screen\<close>

abbreviation (input) ENTER_IND_X :: int where "ENTER_IND_X \<equiv> 108"

definition thr_title_x ::
  "metrics \<Rightarrow> 'w thr_controller \<Rightarrow> string \<Rightarrow> int \<Rightarrow> u64 \<Rightarrow> u8g2 \<Rightarrow> int \<times> u8g2" where
  "thr_title_x gsw pc title x_offset now_ms u =
     (let (title_x, u) =
        (if anim_ty (tc_anim pc) = ANIM_ENTER_MODE \<or> anim_ty (tc_anim pc) = ANIM_EXIT_MODE then
           let progress = anim_progress (start_ms (tc_anim pc)) now_ms ANIM_MODE_DURATION_MS;
               progress = ease_in_out_quad progress;
               u = u8g2_SetFont font_title u;
               title_width = u8g2_GetStrWidth gsw u title;
               center_x = c_div (SCREEN_WIDTH - title_width) 2
           in (if anim_ty (tc_anim pc) = ANIM_ENTER_MODE
               then TITLE_X + c_int_of_float (f32_mul (f32_of_int (center_x - TITLE_X)) progress)
               else center_x + c_int_of_float (f32_mul (f32_of_int (TITLE_X - center_x)) progress), u)
         else if tc_page_mode pc = PAGE_MODE_ENTER then
           let u = u8g2_SetFont font_title u;
               title_width = u8g2_GetStrWidth gsw u title
           in (c_div (SCREEN_WIDTH - title_width) 2, u)
         else (TITLE_X + x_offset, u))
      in if anim_ty (tc_anim pc) = ANIM_TITLE_SHAKE
         then (title_x + anim_shake_offset
                 (anim_progress (start_ms (tc_anim pc)) now_ms ANIM_SHAKE_DURATION_MS), u)
         else (title_x, u))"

definition thr_page_title :: "'w thr_page \<Rightarrow> sys_status option \<Rightarrow> string" where
  "thr_page_title page status =
     (case tp_get_title page of
        None \<Rightarrow> tp_name page
      | Some f \<Rightarrow> (case f status of None \<Rightarrow> tp_name page | Some t \<Rightarrow> t))"

definition thr_indicators ::
  "metrics \<Rightarrow> 'w thr_controller \<Rightarrow> 'w thr_page \<Rightarrow> int \<Rightarrow> u8g2 \<Rightarrow> u8g2" where
  "thr_indicators gsw pc page x_offset u =
     (if tc_page_mode pc = PAGE_MODE_VIEW \<and> anim_ty (tc_anim pc) \<noteq> ANIM_ENTER_MODE then
        let page_ind = bounded_copy 8 (dec_int (tc_current_page pc + 1) @ ''/'' @ dec_int (tc_page_count pc));
            u = u8g2_SetFont font_small u;
            ind_width = u8g2_GetStrWidth gsw u page_ind;
            u = thr_draw_str (PAGE_IND_X - ind_width + x_offset) PAGE_IND_Y page_ind u
        in if tp_can_enter page then thr_draw_str (ENTER_IND_X + x_offset) PAGE_IND_Y ''<-'' u else u
      else u)"

definition thr_title_bar ::
  "metrics \<Rightarrow> 'w thr_controller \<Rightarrow> sys_status option \<Rightarrow> int \<Rightarrow> int \<Rightarrow> u64 \<Rightarrow> u8g2 \<Rightarrow> u8g2" where
  "thr_title_bar gsw pc status page_idx x_offset now_ms u =
     (if page_idx < 0 \<or> page_idx \<ge> tc_page_count pc then u
      else case tc_pages pc ! nat page_idx of
        None \<Rightarrow> u
      | Some page \<Rightarrow>
          (let title = thr_page_title page status;
               (title_x, u) = thr_title_x gsw pc title x_offset now_ms u;
               u = u8g2_SetFont font_title u;
               u = thr_draw_str title_x TITLE_Y title u;
               u = thr_indicators gsw pc page x_offset u
           in u8g2_do (U8g2_DrawHLine (word_of_int x_offset) (word_of_int TITLE_LINE_Y) 128) u))"

definition thr_page_content ::
  "metrics \<Rightarrow> 'a disp_world_scheme thr_controller \<Rightarrow> sys_status option \<Rightarrow> int \<Rightarrow> int \<Rightarrow>
   'a disp_world_scheme \<Rightarrow> 'a disp_world_scheme" where
  "thr_page_content gsw pc status page_idx x_offset w =
     (if page_idx < 0 \<or> page_idx \<ge> tc_page_count pc then w
      else case tc_pages pc ! nat page_idx of
        None \<Rightarrow> w
      | Some page \<Rightarrow>
          (case tp_render page of
             None \<Rightarrow> w
           | Some render \<Rightarrow>
               let w = on_u8g2 (u8g2_do (U8g2_SetClipWindow x_offset CONTENT_Y_START
                         (x_offset + SCREEN_WIDTH) SCREEN_HEIGHT)) w;
                   w = render gsw status (tc_page_mode pc) w
               in on_u8g2 (u8g2_do U8g2_SetMaxClipWindow) w))"

definition thr_render_page ::
  "metrics \<Rightarrow> 'a disp_world_scheme thr_controller \<Rightarrow> sys_status option \<Rightarrow> int \<Rightarrow> int \<Rightarrow> u64 \<Rightarrow>
   'a disp_world_scheme \<Rightarrow> 'a disp_world_scheme" where
  "thr_render_page gsw pc status page_idx x_offset now_ms w =
     thr_page_content gsw pc status page_idx x_offset
       (on_u8g2 (thr_title_bar gsw pc status page_idx x_offset now_ms) w)"

definition thr_controller_render ::
  "metrics \<Rightarrow> 'a disp_world_scheme thr_controller \<Rightarrow> sys_status option \<Rightarrow> u64 \<Rightarrow>
   'a disp_world_scheme \<Rightarrow> 'a disp_world_scheme" where
  "thr_controller_render gsw pc status now_ms w =
     (if anim_ty (tc_anim pc) = ANIM_SLIDE_LEFT \<or> anim_ty (tc_anim pc) = ANIM_SLIDE_RIGHT then
        let progress = anim_progress (start_ms (tc_anim pc)) now_ms THR_SLIDE_DURATION_MS;
            out_offset = anim_slide_offset progress (anim_ty (tc_anim pc)) True;
            in_offset = anim_slide_offset progress (anim_ty (tc_anim pc)) False;
            w = thr_render_page gsw pc status (from_page (tc_anim pc)) out_offset now_ms w
        in thr_render_page gsw pc status (to_page (tc_anim pc)) in_offset now_ms w
      else thr_render_page gsw pc status (tc_current_page pc) 0 now_ms w)"

section \<open>The contract holds\<close>

text \<open>The selection is a configured service and one of the three visible lines.\<close>

definition thr_services_ok :: "int \<Rightarrow> thr_services \<Rightarrow> bool" where
  [wf_defs]: "thr_services_ok n s \<longleftrightarrow>
     length (ts_ui_states s) = MAX_SERVICES \<and> length (ts_state_change_ms s) = MAX_SERVICES \<and>
     0 \<le> ts_selected_index s \<and> ts_selected_index s < max n 1 \<and>
     0 \<le> ts_scroll_offset s \<and> ts_scroll_offset s \<le> ts_selected_index s \<and>
     ts_selected_index s < ts_scroll_offset s + VISIBLE_LINES"

definition thr_pages_inv :: "'a thr_world_scheme \<Rightarrow> bool" where
  [wf_defs]: "thr_pages_inv w \<longleftrightarrow> config_ok w \<and> thr_services_ok (int (config_count w)) (thr_svc w)"

lemma thr_ensure_visible_ok:
  "thr_services_ok n s \<Longrightarrow> 0 \<le> i \<Longrightarrow> i < n \<Longrightarrow>
   thr_services_ok n (thr_ensure_visible n (s\<lparr>ts_selected_index := i\<rparr>))"
  by (auto simp: thr_ensure_visible_def thr_services_ok_def Let_def)

lemma config_get_thr [simp]:
  "thr_svc (snd (service_config_get w)) = thr_svc w"
  "g_task_queue_set (snd (service_config_get w)) = g_task_queue_set w"
  by (simp_all add: service_config_get_def Let_def)

lemma config_cong:
  "config_ok (w\<lparr>thr_svc := s\<rparr>) = config_ok w" "config_count (w\<lparr>thr_svc := s\<rparr>) = config_count w"
  "config_ok (w'\<lparr>g_u8g2 := u\<rparr>) = config_ok w'" "config_count (w'\<lparr>g_u8g2 := u\<rparr>) = config_count w'"
  by (simp_all add: config_ok_def config_count_def)

lemma thr_services_key_ok:
  assumes "thr_pages_inv w"
  shows "thr_pages_inv (snd (thr_services_on_key k l m w))"
proof -
  obtain cfg w1 where g: "service_config_get w = (cfg, w1)" by (cases "service_config_get w")
  have ok: "config_ok w" "thr_services_ok (int (config_count w)) (thr_svc w)"
    using assms by (simp_all add: thr_pages_inv_def)
  note c = service_config_get_ok[OF ok(1)]
  have w1: "config_ok w1" "config_count w1 = config_count w" "length cfg = config_count w" "thr_svc w1 = thr_svc w"
    using c g config_get_thr(1)[of w] by (simp_all add: config_count_def)
  let ?n = "int (config_count w)"
  have w1_ok: "thr_pages_inv w1" using ok(2) w1 by (simp add: thr_pages_inv_def)
  have upd: "thr_pages_inv (w1\<lparr>thr_svc := thr_ensure_visible ?n (thr_svc w\<lparr>ts_selected_index := i\<rparr>)\<rparr>)"
    if "0 \<le> i" "i < ?n" for i
    using thr_ensure_visible_ok[OF ok(2) that] w1 by (simp add: thr_pages_inv_def config_cong)
  have sel: "0 \<le> ts_selected_index (thr_svc w)" "config_count w \<noteq> 0 \<Longrightarrow> ts_selected_index (thr_svc w) < ?n"
    using ok(2) by (simp_all add: thr_services_ok_def)
  consider (idle) "m \<noteq> PAGE_MODE_ENTER \<or> config_count w = 0" | (up) "k = KEY_K1" "\<not> l" "m = PAGE_MODE_ENTER" "config_count w \<noteq> 0"
    | (down) "k = KEY_K3" "\<not> l" "m = PAGE_MODE_ENTER" "config_count w \<noteq> 0"
    | (other) "k \<noteq> KEY_K1 \<and> k \<noteq> KEY_K3 \<or> l" "m = PAGE_MODE_ENTER" "config_count w \<noteq> 0" by blast
  then show ?thesis
  proof cases
    case idle
    then show ?thesis using assms w1_ok w1(3) by (auto simp: thr_services_on_key_def g)
  next
    case up
    then show ?thesis using upd sel w1_ok w1(3,4) by (simp add: thr_services_on_key_def g Let_def)
  next
    case down
    then show ?thesis using upd sel w1_ok w1(3,4) by (simp add: thr_services_on_key_def g Let_def)
  next
    case other
    then show ?thesis using w1_ok w1(3) by (auto simp: thr_services_on_key_def g Let_def)
  qed
qed

lemma thr_services_steps_ok:
  assumes "thr_pages_inv w"
  shows "thr_pages_inv (thr_services_on_enter w)" and "thr_pages_inv (thr_services_on_exit w)"
    and "thr_pages_inv (on_u8g2 f w)"
  using assms
  by (simp_all add: thr_services_on_enter_def thr_services_on_exit_def thr_pages_inv_def config_cong
      thr_services_ok_def on_u8g2_def)

lemmas thr_page_records =
  thr_page_home_def thr_page_network_def thr_page_gateway_def thr_page_services_def

lemma thr_pages_nth:
  "thr_pages_get_list ! 0 = Some thr_page_home" "thr_pages_get_list ! Suc 0 = Some thr_page_network"
  "thr_pages_get_list ! 2 = Some thr_page_gateway" "thr_pages_get_list ! 3 = Some thr_page_services"
  by (simp_all add: thr_pages_get_list_def)

lemma length_thr_pages [simp]: "length thr_pages_get_list = 4"
  by (simp add: thr_pages_get_list_def)

lemma thr_page_cases: "i < (4 :: nat) \<Longrightarrow> i = 0 \<or> i = Suc 0 \<or> i = 2 \<or> i = 3"
  by auto

lemmas thr_render_defs =
  thr_home_render_def thr_network_render_def thr_gateway_render_def thr_services_render_def

interpretation thr_app: thr_page_set thr_pages_get_list thr_pages_inv config_ok
proof (unfold_locales, goal_cases)
  case (1 w)
  have "fold (\<lambda>i. thr_init_page (thr_pages_get_list ! i)) [0..<4] w = thr_services_init w"
    by (simp add: upt_rec[of _ 4] thr_init_page_def thr_pages_get_list_def thr_page_records eval_nat_numeral)
  then show ?case using 1 by (simp add: thr_pages_inv_def thr_services_init_def config_cong thr_services_ok_def)
next
  case (2 i p kf w k l m)
  then show ?case by (auto dest!: thr_page_cases simp: thr_pages_nth thr_page_records thr_services_key_ok)
next
  case (3 i p f w)
  then show ?case by (auto dest!: thr_page_cases simp: thr_pages_nth thr_page_records thr_services_steps_ok)
next
  case (4 i p f w)
  then show ?case by (auto dest!: thr_page_cases simp: thr_pages_nth thr_page_records thr_services_steps_ok)
next
  case (5 i p rf w gsw st m)
  then show ?case
    by (auto dest!: thr_page_cases simp: thr_pages_nth thr_page_records thr_render_defs thr_services_steps_ok)
next
  case (6 i p)
  then show ?case by (auto dest!: thr_page_cases simp: thr_pages_nth thr_page_records)
qed (simp add: thr_pages_get_list_def)

section \<open>Drawing\<close>

text \<open>The display is on when the last power command said so.\<close>

definition power_command :: "u8g2_call \<Rightarrow> bool \<Rightarrow> bool" where
  "power_command c on = (case c of U8g2_SetPowerSave n \<Rightarrow> n = 0 | _ \<Rightarrow> on)"

definition display_lit :: "u8g2_call list \<Rightarrow> bool" where
  "display_lit calls = fold power_command calls False"

lemma display_lit_append: "display_lit (calls @ [c]) = power_command c (display_lit calls)"
  by (simp add: display_lit_def)

text \<open>Drawing leaves the power alone and reads nothing out of range.\<close>

definition ink :: "u8g2 \<Rightarrow> u8g2 \<Rightarrow> bool" where
  "ink u v \<longleftrightarrow> display_lit (u8g2_calls v) = display_lit (u8g2_calls u) \<and> u8g2_ub v = u8g2_ub u"

lemma ink_refl: "ink u u"
  by (simp add: ink_def)

lemma ink_trans: "ink u v \<Longrightarrow> ink v w \<Longrightarrow> ink u w"
  by (simp add: ink_def)

lemma ink_do:
  assumes "ink u v" and "\<And>on. power_command c on = on"
  shows "ink u (u8g2_do c v)"
  using assms by (simp add: ink_def display_lit_append)

lemma ink_calls:
  assumes "ink u v"
  shows "ink u (u8g2_SetFont f v)" "ink u (thr_draw_str x y s v)" "ink u (u8g2_do (U8g2_SetDrawColor n) v)"
    "ink u (u8g2_do (U8g2_DrawBox a b c d) v)" "ink u (u8g2_do (U8g2_DrawHLine a b c) v)"
    "ink u (u8g2_do (U8g2_SetClipWindow i j k l) v)" "ink u (u8g2_do U8g2_SetMaxClipWindow v)"
proof -
  have "u8g2_ub (u8g2_SetFont f v) = u8g2_ub v"
    "display_lit (u8g2_calls (u8g2_SetFont f v)) = display_lit (u8g2_calls v)"
    by (simp_all add: display_lit_append power_command_def)
  then show "ink u (u8g2_SetFont f v)" using assms by (simp add: ink_def)
qed (simp_all add: thr_draw_str_def ink_do[OF assms] power_command_def)

lemmas ink_rules = ink_refl ink_calls

lemma ink_branch: "(b \<Longrightarrow> ink u v) \<Longrightarrow> (\<not> b \<Longrightarrow> ink u w) \<Longrightarrow> ink u (if b then v else w)"
  by simp

lemma ink_pages:
  "ink u (thr_home_draw st u)" "ink u (thr_gateway_draw st u)" "ink u (thr_network_draw st u)"
  "ink u (thr_scroll_marks n s u)"
  by (cases st; simp add: thr_home_draw_def thr_gateway_draw_def thr_network_draw_def thr_no_status_def
      thr_draw_speeds_def thr_scroll_marks_def Let_def ink_rules ink_branch)+

lemma ink_service_line: "ink u (thr_service_line gsw y name icon sel mode u)"
  unfolding thr_service_line_def Let_def by (intro ink_branch ink_rules)

definition draws :: "(u8g2 \<Rightarrow> u8g2) \<Rightarrow> bool" where
  "draws f \<longleftrightarrow> (\<forall>u. ink u (f u))"

lemma ink_lines:
  assumes "status_wf st" and "length (ts_ui_states s) = MAX_SERVICES" and "0 \<le> ts_scroll_offset s"
    and "list_all (\<lambda>l. 0 \<le> fst l) lines"
  shows "ink u (thr_service_lines gsw st s mode lines u)"
  using assms
proof (induction lines arbitrary: u)
  case (Cons l lines)
  obtain i y where l: "l = (i, y)" by (cases l)
  let ?k = "ts_scroll_offset s + i"
  show ?case
  proof (cases "?k < int (service_count st)")
    case True
    then have r: "\<not> (?k < 0 \<or> int (length (services st)) \<le> ?k \<or> int (length (ts_ui_states s)) \<le> ?k)"
      using Cons.prems l by (auto simp: status_wf_def)
    let ?v = "thr_service_line gsw y (svc_name (services st ! nat ?k))
      (thr_service_icon s (services st ! nat ?k) (ts_ui_states s ! nat ?k) 0) (?k = ts_selected_index s) mode u"
    have "thr_service_lines gsw st s mode (l # lines) u = thr_service_lines gsw st s mode lines ?v"
      using True r by (simp only: l thr_service_lines.simps if_True if_False Let_def)
    then show ?thesis
      using ink_trans[OF ink_service_line Cons.IH[of ?v]] Cons.prems by simp
  qed (simp add: l ink_refl)
qed (simp add: ink_refl)

lemma draws_services:
  assumes "pred_option status_wf st" and "thr_services_ok n s"
  shows "draws (thr_services_draw gsw st mode s)"
proof (cases st)
  case None
  then show ?thesis by (simp add: thr_services_draw_def draws_def ink_rules)
next
  case (Some stat)
  have l: "ink u (thr_service_lines gsw stat s mode [(0, LINE1_Y), (1, LINE2_Y), (2, LINE3_Y)] u)" for u
    by (rule ink_lines) (use assms Some in \<open>simp_all add: thr_services_ok_def\<close>)
  show ?thesis
    unfolding draws_def thr_services_draw_def Some option.case Let_def
    by (intro allI ink_branch ink_rules l ink_trans[OF l ink_pages(4)])
qed

lemma draws_title_bar: "draws (thr_title_bar gsw pc st i x now)"
proof -
  have t: "ink u (snd (thr_title_x gsw pc title x now u))" for title u
    unfolding thr_title_x_def Let_def by (simp add: case_prod_beta ink_rules)
  have n: "ink u (thr_indicators gsw pc page x u)" for page u
    unfolding thr_indicators_def Let_def by (intro ink_branch ink_rules)
  have "ink u (u8g2_do (U8g2_DrawHLine a b c) (thr_indicators gsw pc page x
      (thr_draw_str d TITLE_Y title (u8g2_SetFont font_title (snd (thr_title_x gsw pc title x now u))))))" for u a b c page d title
    by (rule ink_calls(5)) (rule ink_trans[OF ink_calls(2)[OF ink_calls(1)[OF t]] n])
  then show ?thesis
    by (simp add: draws_def thr_title_bar_def Let_def case_prod_beta ink_refl split: option.split)
qed

lemma draws_rules: "draws (u8g2_do (U8g2_SetClipWindow i j k l))" "draws (u8g2_do U8g2_SetMaxClipWindow)"
  "draws (thr_home_draw st)" "draws (thr_gateway_draw st)" "draws (thr_network_draw st)"
  by (simp_all add: draws_def ink_rules ink_pages)

text \<open>What a picture leaves alone.\<close>

definition same_ink :: "'a disp_world_scheme \<Rightarrow> 'a disp_world_scheme \<Rightarrow> bool" where
  "same_ink w w' \<longleftrightarrow> ink (g_u8g2 w) (g_u8g2 w') \<and> disp_initialized w' = disp_initialized w"

lemma same_ink_refl: "same_ink w w"
  by (simp add: same_ink_def ink_refl)

lemma same_ink_trans: "same_ink w w' \<Longrightarrow> same_ink w' w'' \<Longrightarrow> same_ink w w''"
  by (auto simp: same_ink_def intro: ink_trans)

lemma same_ink_on: "draws f \<Longrightarrow> same_ink w (on_u8g2 f w)"
  by (simp add: same_ink_def on_u8g2_def draws_def)

lemma same_ink_page:
  assumes "i < 4" and "thr_pages_get_list ! i = Some p" and "tp_render p = Some rf"
    and "thr_pages_inv w" and "pred_option status_wf st"
  shows "same_ink w (rf gsw st m w)"
proof -
  have "draws (thr_services_draw gsw st m (thr_svc w))"
    using draws_services[OF assms(5)] assms(4) by (auto simp: thr_pages_inv_def)
  then show ?thesis using assms(1-3)
    by (auto dest!: thr_page_cases simp: thr_pages_nth thr_page_records thr_render_defs same_ink_on draws_rules)
qed

lemma same_ink_content:
  assumes "tc_pages pc = thr_pages_get_list" and "tc_page_count pc = 4" and "thr_pages_inv w" and "pred_option status_wf st"
  shows "same_ink w (thr_page_content gsw pc st i x w) \<and> thr_pages_inv (thr_page_content gsw pc st i x w)"
proof (cases "i < 0 \<or> i \<ge> 4 \<or> tc_pages pc ! nat i = None")
  case True
  then have "thr_page_content gsw pc st i x w = w"
    using assms(1,2) by (auto simp: thr_page_content_def)
  then show ?thesis using assms(3) by (simp add: same_ink_refl)
next
  case False
  then obtain p where pi: "tc_pages pc ! nat i = Some p" and i: "nat i < 4" "\<not> i < 0" "\<not> i \<ge> 4"
    by fastforce
  have p: "thr_pages_get_list ! nat i = Some p" using pi assms(1) by simp
  let ?w1 = "on_u8g2 (u8g2_do (U8g2_SetClipWindow x CONTENT_Y_START (x + SCREEN_WIDTH) SCREEN_HEIGHT)) w"
  have inv: "thr_pages_inv ?w1" using assms(3) by (rule thr_services_steps_ok(3))
  show ?thesis
  proof (cases "tp_render p")
    case None
    then have "thr_page_content gsw pc st i x w = w"
      using i pi assms(2) by (simp add: thr_page_content_def)
    then show ?thesis using assms(3) by (simp add: same_ink_refl)
  next
    case (Some rf)
    let ?w2 = "rf gsw st (tc_page_mode pc) ?w1"
    have c: "thr_page_content gsw pc st i x w = on_u8g2 (u8g2_do U8g2_SetMaxClipWindow) ?w2"
      using i pi assms(2) Some by (simp add: thr_page_content_def)
    have "same_ink w ?w2"
      by (rule same_ink_trans[OF same_ink_on[OF draws_rules(1)] same_ink_page[OF i(1) p Some inv assms(4)]])
    moreover have "thr_pages_inv ?w2" by (rule thr_app.render_inv[OF _ p Some inv]) (use i in simp)
    ultimately show ?thesis
      unfolding c by (blast intro: same_ink_trans same_ink_on draws_rules thr_services_steps_ok(3))
  qed
qed

lemma same_ink_controller:
  assumes "thr_ok thr_pages_get_list thr_pages_inv pc w" and "pred_option status_wf st"
  shows "same_ink w (thr_controller_render gsw pc st now w) \<and> thr_pages_inv (thr_controller_render gsw pc st now w)"
proof -
  have pc: "tc_pages pc = thr_pages_get_list" "tc_page_count pc = 4" and w: "thr_pages_inv w"
    using assms(1) by (simp_all add: thr_ok_def thr_wf_def)
  have p: "same_ink v (thr_render_page gsw pc st i x now v) \<and> thr_pages_inv (thr_render_page gsw pc st i x now v)"
    if "thr_pages_inv v" for i x v
    using same_ink_content[OF pc thr_services_steps_ok(3)[OF that] assms(2)]
      same_ink_trans[OF same_ink_on[OF draws_title_bar]] unfolding thr_render_page_def by blast
  have two: "same_ink w (thr_render_page gsw pc st j y now (thr_render_page gsw pc st i x now w)) \<and>
    thr_pages_inv (thr_render_page gsw pc st j y now (thr_render_page gsw pc st i x now w))" for i j x y
    using p[OF w, of i x] p[OF conjunct2[OF p[OF w, of i x]], of j y] by (blast intro: same_ink_trans)
  show ?thesis
    unfolding thr_controller_render_def Let_def using two p[OF w] by (simp only: split: if_split) simp
qed

text \<open>Keys do not draw.\<close>

lemma config_get_display [simp]:
  "g_u8g2 (snd (service_config_get w)) = g_u8g2 w"
  "disp_initialized (snd (service_config_get w)) = disp_initialized w"
  by (simp_all add: service_config_get_def Let_def)

lemma thr_services_on_key_display:
  "g_u8g2 (snd (thr_services_on_key k l m w)) = g_u8g2 w"
  "disp_initialized (snd (thr_services_on_key k l m w)) = disp_initialized w"
  by (simp_all add: thr_services_on_key_def Let_def case_prod_beta)

lemma thr_handle_key_display:
  fixes w :: "'a thr_world_scheme" and t :: u64 and key :: u8 and lp :: bool
  assumes "thr_ok thr_pages_get_list thr_pages_inv pc w"
  defines "w' \<equiv> snd (snd (thr_handle_key key lp t pc w))"
  shows "g_u8g2 w' = g_u8g2 w \<and> disp_initialized w' = disp_initialized w"
proof -
  have c: "nat (tc_current_page pc) < 4" "thr_current pc = thr_pages_get_list ! nat (tc_current_page pc)"
    using thr_app.current_ok[OF assms(1)] by simp_all
  show ?thesis
    unfolding w'_def
    by (rule thr_handle_key_world)
      (use c in \<open>auto dest!: thr_page_cases simp: thr_pages_nth thr_page_records thr_services_on_key_display
        thr_services_on_enter_def thr_services_on_exit_def\<close>)
qed

end
