(* ===== verification/Event_Times.thy ===== *)
theory Event_Times
  imports App_Events
begin

text \<open>
  The order of time in the event queue (\<open>src_adr0005/event_queue.c\<close>). Merging gives the tick in
  the queue the time of the newest one, and a full queue lets an event overtake others, so that
  events are not taken out in the order of their time. What remains true is that a tick is
  never older than an event taken out before it.
\<close>

abbreviation (input) not_older :: "app_event \<Rightarrow> app_event \<Rightarrow> bool" where
  "not_older y x \<equiv> event_queue_is_tick x \<longrightarrow> evt_timestamp_ns y \<le> evt_timestamp_ns x"

definition newest_ticks :: "app_event list \<Rightarrow> bool" where
  "newest_ticks xs \<longleftrightarrow> sorted_wrt not_older xs"

definition until :: "u64 \<Rightarrow> app_event list \<Rightarrow> bool" where
  "until t xs \<longleftrightarrow> (\<forall>x \<in> set xs. evt_timestamp_ns x \<le> t)"

text \<open>The times of the pushes of a run do not decrease.\<close>

fun pushes_ordered :: "u64 \<Rightarrow> eq_op list \<Rightarrow> bool" where
  "pushes_ordered t [] = True"
| "pushes_ordered t (Eq_Push e # ops) = (t \<le> evt_timestamp_ns e \<and> pushes_ordered (evt_timestamp_ns e) ops)"
| "pushes_ordered t (Eq_Pop # ops) = pushes_ordered t ops"

lemma newest_append:
  "newest_ticks (xs @ [e]) \<longleftrightarrow> newest_ticks xs \<and> (\<forall>y \<in> set xs. not_older y e)"
  by (simp add: newest_ticks_def sorted_wrt_append)

lemma push_newest:
  assumes "newest_ticks (ds @ xs)" and "until t (ds @ xs)" and "t \<le> evt_timestamp_ns e"
    and "length (filter event_queue_is_tick xs) \<le> 1" and "push_event cap e xs = (r, ys)"
  shows "newest_ticks (ds @ ys)" and "until (evt_timestamp_ns e) (ds @ ys)"
proof -
  have u: "evt_timestamp_ns y \<le> evt_timestamp_ns e" if "y \<in> set (ds @ xs)" for y
    using assms(2,3) that by (fastforce simp: until_def elim: order_trans)
  have app: "newest_ticks (ds @ xs @ [e])" "until (evt_timestamp_ns e) (ds @ xs @ [e])"
    using newest_append[of "ds @ xs" e] assms(1) u by (auto simp: until_def)
  have same: "newest_ticks (ds @ xs)" "until (evt_timestamp_ns e) (ds @ xs)"
    using assms(1) u by (simp_all add: until_def)
  have "newest_ticks (ds @ ys) \<and> until (evt_timestamp_ns e) (ds @ ys)"
  proof (cases "first_index event_queue_is_tick xs")
    case None
    then show ?thesis using assms(5) app same by (auto simp: push_event_def split: if_splits)
  next
    case (Some i)
    show ?thesis
    proof (rule first_tick_split[OF Some])
      fix us x vs
      assume x: "xs = us @ x # vs" "event_queue_is_tick x" and s: "\<And>y. xs[i := y] = us @ y # vs" and n: "xs ! i = x"
      have v: "\<not> event_queue_is_tick y" if "y \<in> set vs" for y
        using assms(4) x that by (auto simp: filter_empty_conv)
      have upd: "newest_ticks (ds @ us @ z # vs)" "until (evt_timestamp_ns e) (ds @ us @ z # vs)"
        if "evt_timestamp_ns z = evt_timestamp_ns e" for z
        using assms(1) u x(1) v that
        by (auto simp: newest_ticks_def sorted_wrt_append until_def)
      show ?thesis
        using assms(5) Some app same upd[of e]
          upd[of "x\<lparr>evt_data := evt_data x + evt_data e, evt_timestamp_ns := evt_timestamp_ns e\<rparr>"]
        by (auto simp: push_event_def s n split: if_splits)
    qed
  qed
  then show "newest_ticks (ds @ ys)" "until (evt_timestamp_ns e) (ds @ ys)" by simp_all
qed

lemma run_newest:
  "\<lbrakk>eq_ok q; newest_ticks (ds @ eq_items q); until t (ds @ eq_items q); pushes_ordered t ops;
    eq_run ops q = (pushed, out, q')\<rbrakk> \<Longrightarrow> newest_ticks (ds @ out @ eq_items q')"
proof (induction ops arbitrary: q ds t pushed out)
  case (Cons p ops)
  show ?case
  proof (cases p)
    case (Eq_Push e)
    obtain r q1 where q1: "event_queue_push e q = (r, q1)" by (cases "event_queue_push e q")
    obtain ps where ps: "eq_run ops q1 = (ps, out, q')"
      using Cons.prems(5) Eq_Push q1 by (auto split: prod.splits)
    note f = push_effect[OF Cons.prems(1) q1]
    have t: "t \<le> evt_timestamp_ns e" "pushes_ordered (evt_timestamp_ns e) ops"
      using Cons.prems(4) Eq_Push by simp_all
    note g = push_newest[OF Cons.prems(2,3) t(1) _ f(3)]
    show ?thesis
      using Cons.IH[OF f(1) g(1,2) t(2) ps] eq_ok_bounds[OF Cons.prems(1)] by simp
  next
    case Eq_Pop
    obtain x q1 where q1: "event_queue_try_pop q = (x, q1)" by (cases "event_queue_try_pop q")
    obtain out' where o': "out = (case x of Some e \<Rightarrow> e # out' | None \<Rightarrow> out')" "eq_run ops q1 = (pushed, out', q')"
      using Cons.prems(5) Eq_Pop q1 by (auto split: prod.splits)
    note p = try_pop_refines[OF Cons.prems(1)]
    have ok: "eq_ok q1" "eq_items q1 = tl (eq_items q)" using p q1 by simp_all
    have t: "pushes_ordered t ops" using Cons.prems(4) Eq_Pop by simp
    show ?thesis
    proof (cases "eq_items q")
      case Nil
      then have "x = None" using p(1) q1 by simp
      then show ?thesis using Cons.IH[OF ok(1) _ _ t o'(2), of ds] Cons.prems(2,3) Nil ok(2) o'(1) by simp
    next
      case (Cons y ys)
      then have "x = Some y" using p(1) q1 by simp
      then show ?thesis
        using Cons.IH[OF ok(1) _ _ t o'(2), of "ds @ [y]"] Cons.prems(2,3) Cons ok(2) o'(1) by simp
    qed
  qed
qed simp

text \<open>From an empty queue: a tick is not older than what was taken out before it.\<close>

lemma taken_before_tick:
  assumes "eq_ok q" and "eq_items q = []" and "pushes_ordered t ops"
    and "eq_run ops q = (pushed, xs @ e # ys, q')" and "event_queue_is_tick e" and "x \<in> set xs"
  shows "evt_timestamp_ns x \<le> evt_timestamp_ns e"
proof -
  have "newest_ticks ((xs @ e # ys) @ eq_items q')"
    using run_newest[OF assms(1) _ _ assms(3,4), of "[]"] assms(2) by (simp add: newest_ticks_def until_def)
  then show ?thesis using assms(5,6) by (simp add: newest_ticks_def sorted_wrt_append)
qed

text \<open>What is taken out has the time of a push.\<close>

lemma push_times:
  assumes "push_event cap e xs = (r, ys)"
  shows "evt_timestamp_ns ` set ys \<subseteq> insert (evt_timestamp_ns e) (evt_timestamp_ns ` set xs)"
proof (cases "first_index event_queue_is_tick xs")
  case None
  then show ?thesis using assms by (auto simp: push_event_def split: if_splits)
next
  case (Some i)
  have "evt_timestamp_ns ` set (xs[i := z]) \<subseteq> insert (evt_timestamp_ns z) (evt_timestamp_ns ` set xs)" for z
    using set_update_subset_insert[of xs i z] by auto
  from this[of e] this[of "(xs ! i)\<lparr>evt_data := evt_data (xs ! i) + evt_data e, evt_timestamp_ns := evt_timestamp_ns e\<rparr>"]
  show ?thesis using assms Some by (auto simp: push_event_def split: if_splits)
qed

lemma run_since:
  "\<lbrakk>eq_ok q; \<forall>x \<in> set (eq_items q). l \<le> evt_timestamp_ns x; l \<le> t; pushes_ordered t ops;
    eq_run ops q = (pushed, out, q')\<rbrakk> \<Longrightarrow> \<forall>x \<in> set out. l \<le> evt_timestamp_ns x"
proof (induction ops arbitrary: q t pushed out)
  case (Cons p ops)
  show ?case
  proof (cases p)
    case (Eq_Push e)
    obtain r q1 where q1: "event_queue_push e q = (r, q1)" by (cases "event_queue_push e q")
    obtain ps where ps: "eq_run ops q1 = (ps, out, q')"
      using Cons.prems(5) Eq_Push q1 by (auto split: prod.splits)
    note f = push_effect[OF Cons.prems(1) q1]
    have t: "l \<le> evt_timestamp_ns e" "pushes_ordered (evt_timestamp_ns e) ops"
      using Cons.prems(3,4) Eq_Push by auto
    have "\<forall>x \<in> set (eq_items q1). l \<le> evt_timestamp_ns x"
      using push_times[OF f(3)] Cons.prems(2) t(1) by (auto simp: subset_iff image_iff)
    then show ?thesis using Cons.IH[OF f(1) _ t ps] by simp
  next
    case Eq_Pop
    obtain x q1 where q1: "event_queue_try_pop q = (x, q1)" by (cases "event_queue_try_pop q")
    obtain out' where o': "out = (case x of Some e \<Rightarrow> e # out' | None \<Rightarrow> out')" "eq_run ops q1 = (pushed, out', q')"
      using Cons.prems(5) Eq_Pop q1 by (auto split: prod.splits)
    note p = try_pop_refines[OF Cons.prems(1)]
    have ok: "eq_ok q1" "eq_items q1 = tl (eq_items q)" using p q1 by simp_all
    have t: "pushes_ordered t ops" using Cons.prems(4) Eq_Pop by simp
    have "\<forall>x \<in> set out'. l \<le> evt_timestamp_ns x"
      using Cons.IH[OF ok(1) _ Cons.prems(3) t o'(2)] ok(2) Cons.prems(2) by (cases "eq_items q") simp_all
    then show ?thesis using p(1) q1 o'(1) Cons.prems(2) by (cases "eq_items q") simp_all
  qed
qed simp

end
