(* ===== verification/Thr_Ui.thy ===== *)
theory Thr_Ui
  imports Thr_Pages Threaded_Status Ui_Tick Event_Times
begin

text \<open>
  The user interface thread of the threaded version of the program: the controller
  (\<open>src_adr0005/ui_controller.c\<close>) with the page controller, the pages and the display, and the
  handler of the thread (\<open>src_adr0005/ui_thread.c\<close>) that renders after each event and asks for
  ticks. The results of queries that have arrived are in \<open>tu_results\<close>; the clock that dates them is an
  argument.
\<close>

section \<open>State\<close>

text \<open>\<open>tu_status\<close> is the pair of pointers to the status and its context, which are set together.\<close>

record thr_ui =
  tu_power_on :: bool
  tu_last_event :: app_event_type
  tu_tick_count :: u64
  tu_needs_render :: bool
  tu_last_input_ns :: u64
  tu_idle_timeout_ms :: u32
  tu_last_event_ms :: u64
  tu_page_ctrl :: "thr_world thr_controller"
  tu_status :: "sys_status option"
  tu_world :: thr_world
  tu_results :: result_queue

section \<open>Operations\<close>

definition ns_to_ms :: "u64 \<Rightarrow> u64" where
  "ns_to_ms ns = ns div 1000000"

fun event_to_key :: "app_event_type \<Rightarrow> u8" where
  "event_to_key EVT_BTN_K1_SHORT = KEY_K1"
| "event_to_key EVT_BTN_K1_LONG = KEY_K1"
| "event_to_key EVT_BTN_K2_SHORT = KEY_K2"
| "event_to_key EVT_BTN_K2_LONG = KEY_K2"
| "event_to_key EVT_BTN_K3_SHORT = KEY_K3"
| "event_to_key EVT_BTN_K3_LONG = KEY_K3"
| "event_to_key _ = 0"

definition is_long_press :: "app_event_type \<Rightarrow> bool" where
  "is_long_press type \<longleftrightarrow> type = EVT_BTN_K1_LONG \<or> type = EVT_BTN_K2_LONG \<or> type = EVT_BTN_K3_LONG"

text \<open>\<open>is_button_event\<close> of the controller is the same test as that of the thread.\<close>

definition is_button_event :: "app_event_type \<Rightarrow> bool" where
  "is_button_event type \<longleftrightarrow>
     type = EVT_BTN_K1_SHORT \<or> type = EVT_BTN_K2_SHORT \<or> type = EVT_BTN_K3_SHORT \<or>
     type = EVT_BTN_K1_LONG \<or> type = EVT_BTN_K2_LONG \<or> type = EVT_BTN_K3_LONG"

text \<open>\<open>access_ok\<close> and \<open>init_io\<close> are what initialising the display meets; its result is ignored.\<close>

definition thr_ui_init ::
  "bool \<Rightarrow> (i2c_state \<Rightarrow> i2c_state) \<Rightarrow> thr_world \<Rightarrow> result_queue \<Rightarrow> thr_ui" where
  "thr_ui_init access_ok init_io w rq =
     (let w = snd (ssd1306_init access_ok init_io w);
          (pc, w) = thr_controller_init thr_pages_get_list (int (length (thr_pages_get_list :: thr_world thr_page option list))) w;
          pc = thr_set_idle_timeout 30000 pc
      in \<lparr>tu_power_on = True, tu_last_event = EVT_NONE, tu_tick_count = 0, tu_needs_render = True,
          tu_last_input_ns = 0, tu_idle_timeout_ms = 30000, tu_last_event_ms = 0, tu_page_ctrl = pc,
          tu_status = None, tu_world = w, tu_results = rq\<rparr>)"

definition thr_ui_set_status :: "sys_status option \<Rightarrow> thr_ui \<Rightarrow> thr_ui" where
  "thr_ui_set_status status ui = ui\<lparr>tu_status := status\<rparr>"

text \<open>The three kinds of events; \<open>now_sec\<close> is the time that dates results.\<close>

definition thr_event_tick :: "u64 \<Rightarrow> app_event \<Rightarrow> u64 \<Rightarrow> thr_ui \<Rightarrow> thr_ui" where
  "thr_event_tick now_sec event now_ms ui =
     (let step = (if evt_data event \<noteq> 0 then evt_data event else 1);
          ui = ui\<lparr>tu_tick_count := tu_tick_count ui + ucast step\<rparr>;
          ui = (case tu_status ui of
                  None \<Rightarrow> ui
                | Some st \<Rightarrow>
                    let (_, st, rq) = sys_status_process_results now_sec st (tu_results ui)
                    in ui\<lparr>tu_status := Some st, tu_results := rq\<rparr>);
          (r, pc) = thr_tick now_ms (tu_page_ctrl ui);
          ui = ui\<lparr>tu_page_ctrl := pc, tu_needs_render := tu_needs_render ui \<or> r\<rparr>
      in ui\<lparr>tu_power_on := thr_is_screen_on pc\<rparr>)"

definition thr_event_key :: "app_event \<Rightarrow> u64 \<Rightarrow> thr_ui \<Rightarrow> thr_ui" where
  "thr_event_key event now_ms ui =
     (let key = event_to_key (evt_type event);
          long_press = is_long_press (evt_type event);
          (r, pc, w) = thr_handle_key key long_press now_ms (tu_page_ctrl ui) (tu_world ui);
          ui = ui\<lparr>tu_page_ctrl := pc, tu_world := w, tu_needs_render := tu_needs_render ui \<or> r\<rparr>
      in ui\<lparr>tu_power_on := thr_is_screen_on pc\<rparr>)"

definition thr_handle_event :: "u64 \<Rightarrow> app_event \<Rightarrow> thr_ui \<Rightarrow> thr_ui" where
  "thr_handle_event now_sec event ui =
     (let now_ms = ns_to_ms (evt_timestamp_ns event);
          ui = ui\<lparr>tu_last_event := evt_type event, tu_last_event_ms := now_ms\<rparr>;
          ui = (if evt_type event = EVT_TICK then thr_event_tick now_sec event now_ms ui
                else if evt_type event = EVT_SHUTDOWN then ui\<lparr>tu_power_on := False\<rparr>
                else if is_button_event (evt_type event) then thr_event_key event now_ms ui
                else ui)
      in if tu_power_on ui then ui\<lparr>tu_needs_render := True\<rparr> else ui)"

definition thr_ui_render :: "metrics \<Rightarrow> thr_ui \<Rightarrow> bool \<times> thr_ui" where
  "thr_ui_render gsw ui =
     (if \<not> tu_needs_render ui then (False, ui)
      else if \<not> tu_power_on ui then
        (True, ui\<lparr>tu_world := ssd1306_set_power False (tu_world ui), tu_needs_render := False\<rparr>)
      else case ssd1306_get_u8g2 (tu_world ui) of
        None \<Rightarrow> (False, ui\<lparr>tu_needs_render := False\<rparr>)
      | Some _ \<Rightarrow>
          let w = ssd1306_clear_buffer (tu_world ui);
              w = thr_controller_render gsw (tu_page_ctrl ui) (tu_status ui) (tu_last_event_ms ui) w;
              w = ssd1306_send_buffer w;
              w = ssd1306_set_power True w
          in (True, ui\<lparr>tu_world := w, tu_needs_render := False\<rparr>))"

section \<open>The thread\<close>

definition ui_view_of :: "thr_ui \<Rightarrow> ui_view" where
  "ui_view_of ui = \<lparr>view_power_on = tu_power_on ui, view_animating = thr_is_animating (tu_page_ctrl ui),
     view_status = tu_status ui \<noteq> None\<rparr>"

text \<open>The first two calls of \<open>ui_thread_default_handle\<close>, and the rest, which is in \<open>Ui_Tick\<close>.\<close>

definition thr_show :: "metrics \<Rightarrow> u64 \<Rightarrow> app_event \<Rightarrow> thr_ui \<Rightarrow> thr_ui" where
  "thr_show gsw now_sec event ui = snd (thr_ui_render gsw (thr_handle_event now_sec event ui))"

text \<open>
  The environment of an event: the clock, what the other thread has done to the queue of results
  since the last event, and what updating the status does when the handler asks for it
  (\<open>sys_status_update_local\<close> and \<open>sys_status_request_services\<close>).
\<close>

record thr_env =
  te_now_sec :: u64
  te_results :: "result_queue \<Rightarrow> result_queue"
  te_update :: "sys_status \<Rightarrow> sys_status"

definition thr_default_handle ::
  "metrics \<Rightarrow> thr_env \<times> app_event \<Rightarrow> thr_ui \<times> ui_thread \<Rightarrow> thr_ui \<times> ui_thread" where
  "thr_default_handle gsw x s =
     (let (env, event) = x; (ui, ut) = s;
          ui = ui\<lparr>tu_results := te_results env (tu_results ui)\<rparr>;
          ui = thr_show gsw (te_now_sec env) event ui;
          ut' = ui_thread_default_handle event (ui_view_of ui) ut;
          ui = (if ut_updates ut' > ut_updates ut
                then ui\<lparr>tu_status := map_option (te_update env) (tu_status ui)\<rparr> else ui)
      in (ui, ut'))"

text \<open>
  How the thread starts (\<open>ui_thread_start_default\<close>): the first picture before any event. The
  status is set by the main thread afterwards.
\<close>

definition thr_start ::
  "metrics \<Rightarrow> bool \<Rightarrow> (i2c_state \<Rightarrow> i2c_state) \<Rightarrow> thr_world \<Rightarrow> result_queue \<Rightarrow> sys_status option \<Rightarrow> thr_ui \<times> ui_thread" where
  "thr_start gsw access_ok init_io w rq status =
     (thr_ui_set_status status (snd (thr_ui_render gsw (thr_ui_init access_ok init_io w rq))),
      ui_thread_start_default True)"

definition thr_run :: "metrics \<Rightarrow> (thr_env \<times> app_event) list \<Rightarrow> thr_ui \<times> ui_thread \<Rightarrow> thr_ui \<times> ui_thread" where
  "thr_run gsw evs s = fold (thr_default_handle gsw) evs s"

section \<open>The invariant\<close>

definition thr_ui_ok :: "thr_ui \<Rightarrow> bool" where
  [wf_defs]: "thr_ui_ok ui \<longleftrightarrow>
     thr_ok thr_pages_get_list thr_pages_inv (tu_page_ctrl ui) (tu_world ui) \<and>
     tc_idle_timeout_ms (tu_page_ctrl ui) = 30000 \<and> pred_option status_wf (tu_status ui) \<and>
     (tu_power_on ui \<longleftrightarrow> tc_screen_state (tu_page_ctrl ui) = SCREEN_ON)"

lemma thr_display_ok:
  assumes "thr_pages_inv w"
  shows "thr_pages_inv (ssd1306_set_power on w)" "thr_pages_inv (ssd1306_send_buffer w)"
    "thr_pages_inv (ssd1306_clear_buffer w)"
  using assms by (simp_all add: ssd1306_defs thr_services_steps_ok(3))

lemma thr_ui_render_sel [simp]:
  "tu_page_ctrl (snd (thr_ui_render gsw ui)) = tu_page_ctrl ui"
  "tu_power_on (snd (thr_ui_render gsw ui)) = tu_power_on ui"
  "tu_status (snd (thr_ui_render gsw ui)) = tu_status ui"
  "tu_needs_render (snd (thr_ui_render gsw ui)) = False"
  by (simp_all add: thr_ui_render_def Let_def split: option.split)

lemma thr_ui_render_ok:
  assumes "thr_ui_ok ui"
  shows "thr_ui_ok (snd (thr_ui_render gsw ui))"
proof -
  have w: "thr_pages_inv (tu_world ui)" "tc_pages (tu_page_ctrl ui) = thr_pages_get_list" "thr_wf (tu_page_ctrl ui)"
    and st: "pred_option status_wf (tu_status ui)"
    using assms by (simp_all add: thr_ui_ok_def thr_ok_def)
  have "thr_pages_inv (thr_controller_render gsw (tu_page_ctrl ui) (tu_status ui) t (ssd1306_clear_buffer (tu_world ui)))" for t
    by (rule conjunct2[OF same_ink_controller[OF _ st]]) (use w thr_display_ok(3)[OF w(1)] in \<open>simp add: thr_ok_def\<close>)
  then have "thr_pages_inv (tu_world (snd (thr_ui_render gsw ui)))"
    using w(1) by (auto simp: thr_ui_render_def Let_def split: option.split intro!: thr_display_ok)
  then show ?thesis using assms by (simp add: thr_ui_ok_def thr_ok_def)
qed

lemma thr_event_tick_sel [simp]:
  "tu_page_ctrl (thr_event_tick now_sec e t ui) = snd (thr_tick t (tu_page_ctrl ui))"
  "tu_world (thr_event_tick now_sec e t ui) = tu_world ui"
  "tu_power_on (thr_event_tick now_sec e t ui) \<longleftrightarrow> thr_is_screen_on (snd (thr_tick t (tu_page_ctrl ui)))"
  by (simp_all add: thr_event_tick_def Let_def case_prod_beta split: option.split)

lemma thr_event_key_sel [simp]:
  "tu_page_ctrl (thr_event_key e t ui) =
     fst (snd (thr_handle_key (event_to_key (evt_type e)) (is_long_press (evt_type e)) t (tu_page_ctrl ui) (tu_world ui)))"
  "tu_world (thr_event_key e t ui) =
     snd (snd (thr_handle_key (event_to_key (evt_type e)) (is_long_press (evt_type e)) t (tu_page_ctrl ui) (tu_world ui)))"
  "tu_power_on (thr_event_key e t ui) \<longleftrightarrow> thr_is_screen_on (tu_page_ctrl (thr_event_key e t ui))"
  by (simp_all add: thr_event_key_def Let_def case_prod_beta)

text \<open>What an event other than the shutdown does to controller, pages and power.\<close>

definition event_effect :: "app_event \<Rightarrow> thr_world thr_controller \<times> thr_world \<Rightarrow> thr_world thr_controller \<times> thr_world" where
  "event_effect e pw =
     (let t = ns_to_ms (evt_timestamp_ns e); (pc, w) = pw
      in if evt_type e = EVT_TICK then (snd (thr_tick t pc), w)
         else if is_button_event (evt_type e)
         then snd (thr_handle_key (event_to_key (evt_type e)) (is_long_press (evt_type e)) t pc w)
         else (pc, w))"

lemma thr_handle_event_effect:
  fixes now_sec :: u64
  assumes "thr_ui_ok ui" and "evt_type e \<noteq> EVT_SHUTDOWN"
  defines "ui' \<equiv> thr_handle_event now_sec e ui"
  shows "(tu_page_ctrl ui', tu_world ui') = event_effect e (tu_page_ctrl ui, tu_world ui)"
    and "tu_power_on ui' \<longleftrightarrow> tc_screen_state (tu_page_ctrl ui') = SCREEN_ON"
proof -
  have p: "tu_power_on ui \<longleftrightarrow> tc_screen_state (tu_page_ctrl ui) = SCREEN_ON"
    using assms(1) by (simp add: thr_ui_ok_def)
  show "(tu_page_ctrl ui', tu_world ui') = event_effect e (tu_page_ctrl ui, tu_world ui)"
    using assms(2) by (simp add: ui'_def thr_handle_event_def event_effect_def Let_def)
  show "tu_power_on ui' \<longleftrightarrow> tc_screen_state (tu_page_ctrl ui') = SCREEN_ON"
    using assms(2) p by (simp add: ui'_def thr_handle_event_def Let_def thr_is_screen_on_def)
qed

lemma event_effect_ok:
  assumes "thr_ok thr_pages_get_list thr_pages_inv pc w" and "tc_idle_timeout_ms pc = 30000"
    and "event_effect e (pc, w) = (pc', w')"
  shows "thr_ok thr_pages_get_list thr_pages_inv pc' w'" and "tc_idle_timeout_ms pc' = 30000"
proof -
  have "thr_ok thr_pages_get_list thr_pages_inv pc' w' \<and> tc_idle_timeout_ms pc' = 30000"
    using assms(3)[symmetric] assms(1,2) thr_app.tick_ok[OF assms(1)] thr_app.handle_key_ok[OF assms(1)]
    by (auto simp: event_effect_def Let_def prod_eq_iff split: if_splits)
  then show "thr_ok thr_pages_get_list thr_pages_inv pc' w'" "tc_idle_timeout_ms pc' = 30000" by simp_all
qed

lemma process_results_wf:
  "status_wf (snd x) \<Longrightarrow> status_wf (snd (fst (process_results t x rq)))"
proof (induction t x rq rule: process_results.induct)
  case (1 t x rq)
  obtain r rq1 where q: "result_queue_try_pop rq = (r, rq1)" by (cases "result_queue_try_pop rq")
  show ?case
  proof (cases r)
    case None
    then show ?thesis using 1(2) q by (subst process_results.simps) simp
  next
    case (Some res)
    have "status_wf (snd (store_result t res x))"
      using 1(2) by (auto simp: store_result_def update_service_def status_wf_def Let_def split: prod.split option.split)
    then show ?thesis using 1(1)[OF q[symmetric, unfolded Some] refl] Some q
      by (subst process_results.simps) simp
  qed
qed

lemma thr_event_tick_status:
  "pred_option status_wf (tu_status ui) \<Longrightarrow> pred_option status_wf (tu_status (thr_event_tick now_sec e t ui))"
  using process_results_wf[of "(0, the (tu_status ui))" "now_sec * 1000" "tu_results ui"]
  by (cases "tu_status ui")
    (simp_all add: thr_event_tick_def sys_status_process_results_def Let_def case_prod_beta)

lemma thr_handle_event_ok:
  assumes "thr_ui_ok ui" and "evt_type e \<noteq> EVT_SHUTDOWN"
  shows "thr_ui_ok (thr_handle_event now_sec e ui)"
proof -
  note h = thr_handle_event_effect[OF assms, of now_sec]
  have "thr_ok thr_pages_get_list thr_pages_inv (tu_page_ctrl ui) (tu_world ui)"
    "tc_idle_timeout_ms (tu_page_ctrl ui) = 30000" and st: "pred_option status_wf (tu_status ui)"
    using assms(1) by (simp_all add: thr_ui_ok_def)
  from event_effect_ok[OF this(1,2) h(1)[symmetric]] 
  have *: "thr_ok thr_pages_get_list thr_pages_inv (tu_page_ctrl (thr_handle_event now_sec e ui)) (tu_world (thr_handle_event now_sec e ui))"
    "tc_idle_timeout_ms (tu_page_ctrl (thr_handle_event now_sec e ui)) = 30000" by simp_all
  have "pred_option status_wf (tu_status (thr_handle_event now_sec e ui))"
    using st thr_event_tick_status assms(2)
    by (simp add: thr_handle_event_def thr_event_key_def Let_def case_prod_beta)
  then show ?thesis using * h(2) by (simp add: thr_ui_ok_def)
qed

lemma thr_show_ok:
  "thr_ui_ok ui \<Longrightarrow> evt_type e \<noteq> EVT_SHUTDOWN \<Longrightarrow> thr_ui_ok (thr_show gsw now_sec e ui)"
  by (simp add: thr_show_def thr_ui_render_ok thr_handle_event_ok)

text \<open>The screen turns on by a key only.\<close>

lemma power_by_key:
  assumes "thr_ui_ok ui" and "evt_type e \<noteq> EVT_SHUTDOWN" and "tu_power_on (thr_show gsw now_sec e ui)"
  shows "tu_power_on ui \<or> ui_thread_is_button_event (evt_type e)"
proof -
  have "tu_power_on (thr_handle_event now_sec e ui)" using assms(3) by (simp add: thr_show_def)
  then show ?thesis using assms(1,2)
    by (auto simp: thr_handle_event_def Let_def thr_is_screen_on_def thr_ui_ok_def thr_tick_screen
        is_button_event_def ui_thread_is_button_event_def split: if_splits)
qed

section \<open>What is on the display\<close>

text \<open>
  Between two events everything that changed has been drawn, the display is on exactly when the
  screen is, and nothing undefined was read.
\<close>

definition thr_shown :: "thr_ui \<Rightarrow> bool" where
  [wf_defs]: "thr_shown ui \<longleftrightarrow> thr_ui_ok ui \<and> \<not> tu_needs_render ui \<and> \<not> u8g2_ub (g_u8g2 (tu_world ui)) \<and>
     (disp_initialized (tu_world ui) \<longrightarrow> (display_lit (u8g2_calls (g_u8g2 (tu_world ui))) \<longleftrightarrow> tu_power_on ui))"

lemma display_ops:
  "u8g2_ub (g_u8g2 (ssd1306_set_power on w)) = u8g2_ub (g_u8g2 w)"
  "u8g2_ub (g_u8g2 (ssd1306_send_buffer w)) = u8g2_ub (g_u8g2 w)"
  "u8g2_ub (g_u8g2 (ssd1306_clear_buffer w)) = u8g2_ub (g_u8g2 w)"
  "disp_initialized w \<Longrightarrow> display_lit (u8g2_calls (g_u8g2 (ssd1306_set_power on w))) \<longleftrightarrow> on"
  by (simp_all add: ssd1306_defs on_u8g2_def display_lit_append power_command_def)

lemma render_shows:
  assumes "thr_ui_ok ui" and "\<not> u8g2_ub (g_u8g2 (tu_world ui))" and "tu_power_on ui \<longrightarrow> tu_needs_render ui"
    and "\<not> tu_needs_render ui \<Longrightarrow> disp_initialized (tu_world ui) \<Longrightarrow>
      (display_lit (u8g2_calls (g_u8g2 (tu_world ui))) \<longleftrightarrow> tu_power_on ui)"
  shows "thr_shown (snd (thr_ui_render gsw ui))"
proof -
  let ?w = "tu_world ui" and ?ui' = "snd (thr_ui_render gsw ui)"
  let ?c = "ssd1306_clear_buffer ?w"
  let ?d = "thr_controller_render gsw (tu_page_ctrl ui) (tu_status ui) (tu_last_event_ms ui) ?c"
  have "thr_ok thr_pages_get_list thr_pages_inv (tu_page_ctrl ui) ?c" "pred_option status_wf (tu_status ui)"
    using assms(1) by (simp_all add: thr_ui_ok_def thr_ok_def thr_display_ok(3))
  then have d: "same_ink ?c ?d" using same_ink_controller by blast
  consider (quiet) "\<not> tu_needs_render ui" | (off) "tu_needs_render ui" "\<not> tu_power_on ui"
    | (dark) "tu_needs_render ui" "tu_power_on ui" "\<not> disp_initialized ?w"
    | (draw) "tu_needs_render ui" "tu_power_on ui" "disp_initialized ?w" by blast
  then have "\<not> u8g2_ub (g_u8g2 (tu_world ?ui')) \<and>
    (disp_initialized (tu_world ?ui') \<longrightarrow> (display_lit (u8g2_calls (g_u8g2 (tu_world ?ui'))) \<longleftrightarrow> tu_power_on ui))"
  proof cases
    case quiet
    then show ?thesis using assms by (simp add: thr_ui_render_def)
  next
    case off
    then show ?thesis using assms(2) by (simp add: thr_ui_render_def display_ops)
  next
    case dark
    then show ?thesis using assms(2) by (simp add: thr_ui_render_def ssd1306_get_u8g2_def)
  next
    case draw
    have "tu_world ?ui' = ssd1306_set_power True (ssd1306_send_buffer ?d)"
      using draw by (simp add: thr_ui_render_def ssd1306_get_u8g2_def Let_def)
    moreover have "disp_initialized ?d" "u8g2_ub (g_u8g2 ?d) = u8g2_ub (g_u8g2 ?w)"
      using d draw(3) by (simp_all add: same_ink_def ink_def display_ops)
    ultimately show ?thesis using draw(2) assms(2) by (simp add: display_ops)
  qed
  then show ?thesis using thr_ui_render_ok[OF assms(1)] by (simp add: thr_shown_def)
qed

text \<open>An event that needs no picture did not change the power.\<close>

lemma quiet_event:
  assumes "thr_ui_ok ui" and "evt_type e \<noteq> EVT_SHUTDOWN" and "\<not> tu_needs_render (thr_handle_event now_sec e ui)"
  shows "tu_power_on (thr_handle_event now_sec e ui) = tu_power_on ui"
proof -
  let ?t = "ns_to_ms (evt_timestamp_ns e)"
  have "tc_screen_state (tu_page_ctrl (thr_handle_event now_sec e ui)) = tc_screen_state (tu_page_ctrl ui)"
  proof (cases "evt_type e = EVT_TICK")
    case True
    let ?u = "ui\<lparr>tu_last_event := EVT_TICK, tu_last_event_ms := ?t\<rparr>"
    have "\<not> tu_needs_render (thr_event_tick now_sec e ?t ?u)"
      using assms(3) True by (auto simp: thr_handle_event_def Let_def split: if_splits)
    then have "\<not> fst (thr_tick ?t (tu_page_ctrl ui))"
      by (auto simp: thr_event_tick_def Let_def case_prod_beta split: option.splits)
    then show ?thesis using True thr_quiet_screen(1) by (simp add: thr_handle_event_def Let_def)
  next
    case False
    let ?u = "ui\<lparr>tu_last_event := evt_type e, tu_last_event_ms := ?t\<rparr>"
    show ?thesis
    proof (cases "is_button_event (evt_type e)")
      case True
      have "\<not> tu_needs_render (thr_event_key e ?t ?u)"
        using assms(2,3) False True by (auto simp: thr_handle_event_def Let_def split: if_splits)
      then have "\<not> fst (thr_handle_key (event_to_key (evt_type e)) (is_long_press (evt_type e)) ?t (tu_page_ctrl ui) (tu_world ui))"
        by (auto simp: thr_event_key_def Let_def case_prod_beta)
      then show ?thesis using assms(2) False True thr_quiet_screen(2) by (simp add: thr_handle_event_def Let_def)
    qed (use assms(2) False in \<open>simp add: thr_handle_event_def Let_def\<close>)
  qed
  then show ?thesis
    using assms(1) thr_handle_event_effect(2)[OF assms(1,2)] by (simp add: thr_ui_ok_def)
qed

lemma thr_event_display:
  assumes "thr_ui_ok ui" and "evt_type e \<noteq> EVT_SHUTDOWN"
  shows "g_u8g2 (tu_world (thr_handle_event now_sec e ui)) = g_u8g2 (tu_world ui) \<and>
    disp_initialized (tu_world (thr_handle_event now_sec e ui)) = disp_initialized (tu_world ui)"
proof -
  have "thr_ok thr_pages_get_list thr_pages_inv (tu_page_ctrl ui) (tu_world ui)"
    using assms(1) by (simp add: thr_ui_ok_def)
  from thr_handle_key_display[OF this] show ?thesis
    using assms(2) by (simp add: thr_handle_event_def Let_def)
qed

lemma show_shown:
  assumes "thr_shown ui" and "evt_type e \<noteq> EVT_SHUTDOWN"
  shows "thr_shown (thr_show gsw now_sec e ui)"
  unfolding thr_show_def
proof (rule render_shows)
  have ok: "thr_ui_ok ui" using assms(1) by (simp add: thr_shown_def)
  note d = thr_event_display[OF ok assms(2), of now_sec]
  show "thr_ui_ok (thr_handle_event now_sec e ui)" by (rule thr_handle_event_ok[OF ok assms(2)])
  show "\<not> u8g2_ub (g_u8g2 (tu_world (thr_handle_event now_sec e ui)))"
    using d assms(1) by (simp add: thr_shown_def)
  show "tu_power_on (thr_handle_event now_sec e ui) \<longrightarrow> tu_needs_render (thr_handle_event now_sec e ui)"
    by (simp add: thr_handle_event_def Let_def)
  show "display_lit (u8g2_calls (g_u8g2 (tu_world (thr_handle_event now_sec e ui)))) \<longleftrightarrow>
      tu_power_on (thr_handle_event now_sec e ui)"
    if "\<not> tu_needs_render (thr_handle_event now_sec e ui)" "disp_initialized (tu_world (thr_handle_event now_sec e ui))"
    using quiet_event[OF ok assms(2) that(1)] d that(2) assms(1) by (simp add: thr_shown_def)
qed

text \<open>
  The shutdown event turns the power off in the controller, but asks for no picture, so that
  the display stays as it was.
\<close>

lemma shutdown_shows_nothing:
  assumes "thr_shown ui" and "evt_type e = EVT_SHUTDOWN"
  shows "\<not> tu_power_on (thr_show gsw now_sec e ui) \<and> tu_world (thr_show gsw now_sec e ui) = tu_world ui"
  using assms by (simp add: thr_show_def thr_handle_event_def thr_ui_render_def Let_def thr_shown_def)

section \<open>Runs\<close>

text \<open>
  The thread between two events: besides the above, its ticks follow the screen, and while an
  animation runs the quick ticks are not counted down.
\<close>

definition thr_sys_ok :: "thr_ui \<times> ui_thread \<Rightarrow> bool" where
  [wf_defs]: "thr_sys_ok s \<longleftrightarrow> thr_shown (fst s) \<and> tick_inv (tu_power_on (fst s)) (snd s) \<and>
     (tu_power_on (fst s) \<and> thr_is_animating (tu_page_ctrl (fst s)) \<longrightarrow> anim_ticks_left (snd s) > 0)"

text \<open>Events that the event loop pushes before the shutdown.\<close>

definition plain_event :: "app_event \<Rightarrow> bool" where
  "plain_event e \<longleftrightarrow> evt_type e \<noteq> EVT_SHUTDOWN \<and> 0 \<le> sint (evt_data e)"

definition plain :: "thr_env \<times> app_event \<Rightarrow> bool" where
  "plain x \<longleftrightarrow> plain_event (snd x) \<and> (\<forall>st. status_wf st \<longrightarrow> status_wf (te_update (fst x) st))"

text \<open>What surrounds the drawing of an event changes neither the controller nor the display.\<close>

lemma thr_default_handle_fst:
  "\<exists>rq upd. fst (thr_default_handle gsw (env, e) (ui, ut)) =
     (let ui = thr_show gsw (te_now_sec env) e (ui\<lparr>tu_results := rq\<rparr>)
      in ui\<lparr>tu_status := map_option upd (tu_status ui)\<rparr>)"
proof -
  let ?r = "te_results env (tu_results ui)"
  let ?u = "thr_show gsw (te_now_sec env) e (ui\<lparr>tu_results := ?r\<rparr>)"
  let ?b = "ut_updates ut < ut_updates (ui_thread_default_handle e (ui_view_of ?u) ut)"
  have "fst (thr_default_handle gsw (env, e) (ui, ut)) =
      ?u\<lparr>tu_status := map_option (if ?b then te_update env else id) (tu_status ?u)\<rparr>"
    by (simp add: thr_default_handle_def Let_def option.map_id)
  then show ?thesis unfolding Let_def by (intro exI)
qed

lemma thr_shown_cong:
  "thr_shown ui \<Longrightarrow> thr_shown (ui\<lparr>tu_results := rq\<rparr>)"
  "thr_shown ui \<Longrightarrow> (\<And>st. status_wf st \<Longrightarrow> status_wf (upd st)) \<Longrightarrow>
     thr_shown (ui\<lparr>tu_status := map_option upd (tu_status ui)\<rparr>)"
  by (auto simp: thr_shown_def thr_ui_ok_def pred_option_def)

lemma handle_animating:
  assumes "tick_inv on ut" and "view_power_on v" and "view_animating v"
    and "evt_type e \<noteq> EVT_SHUTDOWN"
    and "evt_type e = EVT_TICK \<and> on \<or> ui_thread_is_button_event (evt_type e)"
  shows "anim_ticks_left (ui_thread_default_handle e v ut) > 0"
proof (cases "evt_type e = EVT_TICK \<and> on")
  case True
  then show ?thesis using assms(1-3)
    by (simp add: ui_thread_default_handle_def tick_inv_def ui_thread_tick_def ui_thread_apply_tick_def Let_def)
next
  case False
  then have "ui_thread_is_button_event (evt_type e)" "evt_type e \<noteq> EVT_TICK"
    using assms(5) by (auto simp: ui_thread_is_button_event_def)
  then show ?thesis using assms(1-4)
    by (simp add: ui_thread_default_handle_def tick_inv_def ui_thread_start_tick_def ui_thread_apply_tick_def)
qed

lemma thr_sys_step:
  assumes "thr_sys_ok s" and "plain (env, e)"
  shows "thr_sys_ok (thr_default_handle gsw (env, e) s)"
proof -
  obtain ui0 ut where s: "s = (ui0, ut)" by (cases s)
  define ui where "ui = ui0\<lparr>tu_results := te_results env (tu_results ui0)\<rparr>"
  let ?ui = "thr_show gsw (te_now_sec env) e ui"
  let ?v = "ui_view_of ?ui"
  have ns: "evt_type e \<noteq> EVT_SHUTDOWN" and data: "0 \<le> sint (evt_data e)"
    and upd: "\<And>st. status_wf st \<Longrightarrow> status_wf (te_update env st)"
    using assms(2) by (simp_all add: plain_def plain_event_def)
  have sh: "thr_shown ui" and ti: "tick_inv (tu_power_on ui) ut"
    and an: "tu_power_on ui \<and> thr_is_animating (tu_page_ctrl ui) \<Longrightarrow> anim_ticks_left ut > 0"
    using assms(1) s thr_shown_cong(1) by (simp_all add: thr_sys_ok_def ui_def)
  have ok: "thr_ui_ok ui" using sh by (simp add: thr_shown_def)
  have key: "tu_power_on ?ui \<Longrightarrow> tu_power_on ui \<or> ui_thread_is_button_event (evt_type e)"
    using power_by_key[OF ok ns] .
  have "screen_by_key (tu_power_on ui) [(e, ?v)]"
    using key ns data by (simp add: ui_view_of_def)
  from tick_inv_handle[OF ti this] have "tick_inv (tu_power_on ?ui) (ui_thread_default_handle e ?v ut)"
    by (simp add: ui_view_of_def)
  moreover have "anim_ticks_left (ui_thread_default_handle e ?v ut) > 0"
    if on: "tu_power_on ?ui" and a: "thr_is_animating (tu_page_ctrl ?ui)"
  proof (cases "evt_type e = EVT_TICK \<or> ui_thread_is_button_event (evt_type e)")
    case True
    then have "evt_type e = EVT_TICK \<and> tu_power_on ui \<or> ui_thread_is_button_event (evt_type e)"
      using key[OF on] by auto
    from handle_animating[OF ti _ _ ns this] show ?thesis using on a by (simp add: ui_view_of_def)
  next
    case False
    then have b: "\<not> is_button_event (evt_type e)" by (simp add: is_button_event_def ui_thread_is_button_event_def)
    have "tu_page_ctrl ?ui = tu_page_ctrl ui" "tu_power_on ?ui = tu_power_on ui"
      using False b ns by (simp_all add: thr_show_def thr_handle_event_def Let_def)
    moreover have "ui_thread_default_handle e ?v ut = ut"
      using False ns on by (simp add: ui_thread_default_handle_def ui_view_of_def)
    ultimately show ?thesis using an on a by simp
  qed
  moreover have "thr_shown ?ui" by (rule show_shown[OF sh ns])
  moreover from this have "thr_shown (?ui\<lparr>tu_status := map_option (te_update env) (tu_status ?ui)\<rparr>)"
    using upd by (rule thr_shown_cong(2))
  ultimately show ?thesis
    using s by (simp add: thr_sys_ok_def thr_default_handle_def Let_def flip: ui_def)
qed

lemma thr_sys_run:
  "thr_sys_ok s \<Longrightarrow> list_all plain evs \<Longrightarrow> thr_sys_ok (thr_run gsw evs s)"
proof (induction evs arbitrary: s)
  case (Cons x evs)
  obtain n e where x: "x = (n, e)" by (cases x)
  show ?case using Cons.IH[OF thr_sys_step[OF Cons.prems(1), of n e gsw]] Cons.prems(2)
    by (simp add: thr_run_def x)
qed (simp add: thr_run_def)

text \<open>The statics before the start: the configuration unparsed, nothing drawn, the display off.\<close>

definition thr_statics :: "string \<Rightarrow> thr_world" where
  "thr_statics ms = \<lparr>MONITORED_SERVICES = ms, g_config = [], g_config_initialized = False,
     g_u8g2 = \<lparr>u8g2_font = None, u8g2_calls = [], u8g2_ub = False\<rparr>,
     g_i2c = \<lparr>g_i2c_fd = -1, i2c_buffer = replicate I2C_BUFFER_SIZE 0, buf_idx = 0, i2c_writes = []\<rparr>,
     disp_initialized = False,
     thr_svc = \<lparr>ts_selected_index = 0, ts_scroll_offset = 0,
       ts_ui_states = replicate MAX_SERVICES SVC_UI_STOPPED, ts_state_change_ms = replicate MAX_SERVICES 0,
       ts_pending_request_id = replicate MAX_SERVICES 0\<rparr>,
     g_task_queue_set = False\<rparr>"

lemma thr_init_world:
  "fold (\<lambda>i. thr_init_page (thr_pages_get_list ! i)) [0..<4] w = thr_services_init w"
  by (simp add: upt_rec[of _ 4] thr_init_page_def thr_pages_get_list_def thr_page_records eval_nat_numeral)

lemma thr_start_ok:
  assumes "pred_option status_wf st"
  shows "thr_sys_ok (thr_start gsw ok init_io (thr_statics ms) rq st)"
proof -
  let ?w = "snd (ssd1306_init ok init_io (thr_statics ms))"
  let ?ui = "thr_ui_init ok init_io (thr_statics ms) rq"
  have w: "config_ok ?w" "\<not> u8g2_ub (g_u8g2 ?w)"
    by (simp_all add: ssd1306_init_def thr_statics_def on_u8g2_def config_ok_def Let_def)
  have init: "thr_controller_init thr_pages_get_list (int (length (thr_pages_get_list :: thr_world thr_page option list))) ?w =
      (tu_page_ctrl ?ui, tu_world ?ui)"
    by (simp add: thr_ui_init_def thr_controller_init_def thr_set_idle_timeout_def Let_def)
  have "thr_ok thr_pages_get_list thr_pages_inv (tu_page_ctrl ?ui) (tu_world ?ui)"
    using thr_app.init_ok[OF w(1)] init by simp
  moreover have "tc_idle_timeout_ms (tu_page_ctrl ?ui) = 30000" "tu_power_on ?ui" "tu_status ?ui = None"
    "tu_needs_render ?ui" "tc_screen_state (tu_page_ctrl ?ui) = SCREEN_ON"
    by (simp_all add: thr_ui_init_def thr_controller_init_def thr_set_idle_timeout_def Let_def)
  ultimately have ok: "thr_ui_ok ?ui" by (simp add: thr_ui_ok_def)
  have "g_u8g2 (tu_world ?ui) = g_u8g2 ?w"
    by (simp add: thr_ui_init_def thr_controller_init_def thr_init_world thr_services_init_def Let_def)
  then have "thr_shown (snd (thr_ui_render gsw ?ui))"
    using render_shows[OF ok] w(2) \<open>tu_needs_render ?ui\<close> by simp
  moreover have "thr_shown (thr_ui_set_status st ui)" if "thr_shown ui" for ui
    using that assms by (simp add: thr_shown_def thr_ui_ok_def thr_ui_set_status_def)
  ultimately have "thr_shown (thr_ui_set_status st (snd (thr_ui_render gsw ?ui)))" by blast
  moreover have "\<not> thr_is_animating (tu_page_ctrl ?ui)"
    by (simp add: thr_ui_init_def thr_controller_init_def thr_set_idle_timeout_def thr_is_animating_def Let_def)
  ultimately show ?thesis
    using tick_inv_start \<open>tu_power_on ?ui\<close>
    by (simp add: thr_sys_ok_def thr_start_def thr_ui_set_status_def)
qed

section \<open>Sleeping\<close>

text \<open>The time of the last key; before the first key, of the first tick; in milliseconds.\<close>

definition last_input :: "app_event list \<Rightarrow> u64" where
  "last_input es =
     (case filter (is_button_event \<circ> evt_type) es of
        k # ks \<Rightarrow> ns_to_ms (evt_timestamp_ns (last (k # ks)))
      | [] \<Rightarrow> (case filter event_queue_is_tick es of
                  t # _ \<Rightarrow> ns_to_ms (evt_timestamp_ns t)
                | [] \<Rightarrow> 0))"

lemma last_input_snoc:
  assumes "\<forall>x \<in> set es. ns_to_ms (evt_timestamp_ns x) \<noteq> 0"
  shows "last_input (es @ [e]) =
    (if is_button_event (evt_type e) then ns_to_ms (evt_timestamp_ns e)
     else if event_queue_is_tick e \<and> last_input es = 0 then ns_to_ms (evt_timestamp_ns e)
     else last_input es)"
proof (cases "filter (is_button_event \<circ> evt_type) es")
  case Nil
  show ?thesis
  proof (cases "filter event_queue_is_tick es")
    case (Cons t ts)
    then have "t \<in> set (filter event_queue_is_tick es)" by simp
    then have "t \<in> set es" by simp
    then show ?thesis using Nil Cons assms by (auto simp: last_input_def)
  qed (use Nil in \<open>auto simp: last_input_def\<close>)
next
  case (Cons k ks)
  then have "last (k # ks) \<in> set (filter (is_button_event \<circ> evt_type) es)" by (metis last_in_set list.distinct(1))
  then have "last (k # ks) \<in> set es" by simp
  then show ?thesis using Cons assms by (auto simp: last_input_def)
qed

lemma show_activity:
  assumes "thr_ui_ok ui" and "evt_type e \<noteq> EVT_SHUTDOWN"
  shows "tc_last_activity_ms (tu_page_ctrl (thr_show gsw now_sec e ui)) =
    (if is_button_event (evt_type e) then ns_to_ms (evt_timestamp_ns e)
     else if event_queue_is_tick e \<and> tc_last_activity_ms (tu_page_ctrl ui) = 0 then ns_to_ms (evt_timestamp_ns e)
     else tc_last_activity_ms (tu_page_ctrl ui))"
  using assms by (auto simp: thr_show_def thr_handle_event_def Let_def event_queue_is_tick_def is_button_event_def)

lemma run_activity:
  assumes "thr_sys_ok s" and "tc_last_activity_ms (tu_page_ctrl (fst s)) = 0"
    and "list_all plain evs" and "\<forall>x \<in> set evs. ns_to_ms (evt_timestamp_ns (snd x)) \<noteq> 0"
  shows "tc_last_activity_ms (tu_page_ctrl (fst (thr_run gsw evs s))) = last_input (map snd evs)"
  using assms(3,4)
proof (induction evs rule: rev_induct)
  case Nil
  then show ?case using assms(2) by (simp add: thr_run_def last_input_def)
next
  case (snoc x evs)
  obtain n e where x: "x = (n, e)" by (cases x)
  obtain ui ut where r: "thr_run gsw evs s = (ui, ut)" by (cases "thr_run gsw evs s")
  have "thr_sys_ok (thr_run gsw evs s)"
    by (rule thr_sys_run[OF assms(1)]) (use snoc.prems(1) in simp)
  then have ok: "thr_ui_ok (ui\<lparr>tu_results := rq\<rparr>)" for rq
    using r by (simp add: thr_sys_ok_def thr_shown_def thr_ui_ok_def)
  have ns: "evt_type e \<noteq> EVT_SHUTDOWN" using snoc.prems(1) x by (simp add: plain_def plain_event_def)
  have "thr_run gsw (evs @ [x]) s = thr_default_handle gsw (n, e) (ui, ut)" using r x by (simp add: thr_run_def)
  moreover obtain rq upd where "fst (thr_default_handle gsw (n, e) (ui, ut)) =
      (let ui = thr_show gsw (te_now_sec n) e (ui\<lparr>tu_results := rq\<rparr>)
       in ui\<lparr>tu_status := map_option upd (tu_status ui)\<rparr>)"
    using thr_default_handle_fst by blast
  ultimately have "tu_page_ctrl (fst (thr_run gsw (evs @ [x]) s)) =
      tu_page_ctrl (thr_show gsw (te_now_sec n) e (ui\<lparr>tu_results := rq\<rparr>))"
    by (simp add: Let_def)
  then show ?case
    using show_activity[OF ok ns, of gsw "te_now_sec n"] last_input_snoc[of "map snd evs" e] snoc.IH snoc.prems x r
    by simp
qed

text \<open>Time in milliseconds as a number.\<close>

lemma unat_ns_to_ms: "unat (ns_to_ms t) = unat t div 1000000"
  by (simp add: ns_to_ms_def unat_div)

lemma thr_tick_sleeps:
  assumes "thr_ui_ok ui" and "evt_type e = EVT_TICK" and "ns_to_ms (evt_timestamp_ns e) \<noteq> 0"
    and "tc_last_activity_ms (tu_page_ctrl (thr_show gsw n e ui)) \<le> ns_to_ms (evt_timestamp_ns e)"
  shows "tu_power_on (thr_show gsw n e ui) \<longleftrightarrow> tu_power_on ui \<and>
    unat (evt_timestamp_ns e) div 1000000 <
      unat (tc_last_activity_ms (tu_page_ctrl (thr_show gsw n e ui))) + 30000"
proof -
  let ?t = "ns_to_ms (evt_timestamp_ns e)" and ?l = "tc_last_activity_ms (tu_page_ctrl ui)"
  have p: "tu_power_on (thr_show gsw n e ui) \<longleftrightarrow>
      tu_power_on ui \<and> \<not> (?l \<noteq> 0 \<and> 30000 \<le> ?t - ?l)"
    using assms(1,2) by (simp add: thr_show_def thr_handle_event_def Let_def thr_is_screen_on_def thr_tick_screen
        thr_ui_ok_def)
  have a: "tc_last_activity_ms (tu_page_ctrl (thr_show gsw n e ui)) = (if ?l = 0 then ?t else ?l)"
    using show_activity[OF assms(1), of e gsw n] assms(2) by (simp add: event_queue_is_tick_def is_button_event_def)
  show ?thesis
  proof (cases "?l = 0")
    case True
    then show ?thesis using p a by (simp add: unat_ns_to_ms)
  next
    case False
    then have "?l \<le> ?t" using a assms(4) by simp
    then have "30000 \<le> ?t - ?l \<longleftrightarrow> 30000 \<le> unat ?t - unat ?l"
      by (simp add: word_le_nat_alt unat_diff_le)
    moreover have "unat ?l \<le> unat ?t" using \<open>?l \<le> ?t\<close> by (simp add: word_le_nat_alt)
    ultimately show ?thesis using p a False by (auto simp: unat_ns_to_ms)
  qed
qed

lemma ns_to_ms_mono: "a \<le> b \<Longrightarrow> ns_to_ms a \<le> ns_to_ms b"
  by (simp add: word_le_nat_alt unat_ns_to_ms div_le_mono)

lemma ns_to_ms_pos: "1000000 \<le> t \<Longrightarrow> ns_to_ms t \<noteq> 0"
proof
  assume "1000000 \<le> t" "ns_to_ms t = 0"
  then have "1000000 \<le> unat t" "unat t div 1000000 = 0"
    using unat_ns_to_ms[of t] by (simp_all add: word_le_nat_alt)
  then show False by (simp add: div_eq_0_iff)
qed

lemma last_input_le:
  assumes "\<forall>x \<in> set es. evt_timestamp_ns x \<le> t"
  shows "last_input es \<le> ns_to_ms t"
proof -
  have m: "ns_to_ms (evt_timestamp_ns x) \<le> ns_to_ms t" if "x \<in> set es" for x
    using assms that by (simp add: ns_to_ms_mono)
  have f: "x \<in> set es" if "x \<in> set (filter P es)" for x P using that by simp
  show ?thesis
  proof (cases "filter (is_button_event \<circ> evt_type) es")
    case Nil
    then show ?thesis using m f[of _ event_queue_is_tick]
      by (cases "filter event_queue_is_tick es") (simp_all add: last_input_def)
  next
    case (Cons k ks)
    then have "last (k # ks) \<in> set es" using f[of "last (k # ks)"] by (metis last_in_set list.distinct(1))
    then show ?thesis using m Cons by (simp add: last_input_def)
  qed
qed

lemma thr_start_activity:
  "tc_last_activity_ms (tu_page_ctrl (fst (thr_start gsw ok init_io w rq st))) = 0"
  by (simp add: thr_start_def thr_ui_set_status_def thr_ui_init_def thr_controller_init_def
      thr_set_idle_timeout_def Let_def)

end
