(* ===== verification/Thr_Interface.thy ===== *)
theory Thr_Interface
  imports Thr_Ui
begin

text \<open>
  The properties of the user interface of the threaded version of the program
  (\<open>src_adr0005\<close>): what is on the display, when ticks come, and when the screen sleeps.
\<close>

section \<open>Samples\<close>

definition sample_metrics :: metrics where
  "sample_metrics f s = 6 * int (length s)"

definition thr_sample_env :: thr_env where
  "thr_sample_env = \<lparr>te_now_sec = 0, te_results = id, te_update = id\<rparr>"

definition thr_event :: "app_event_type \<Rightarrow> u64 \<Rightarrow> app_event" where
  "thr_event ty ns = \<lparr>evt_type = ty, evt_line = 0, evt_timestamp_ns = ns, evt_data = 1\<rparr>"

abbreviation thr_sample_start :: "thr_ui \<times> ui_thread" where
  "thr_sample_start \<equiv> thr_start sample_metrics False id (thr_statics ''dropbear,uhttpd'') zero_result_queue (Some zero_status)"

lemma zero_status_ok: "pred_option status_wf (Some zero_status)"
  by (simp add: zero_status_def status_wf_def)

section \<open>The display and the ticks\<close>



text \<open>C18
  The screen sleeps after 30 seconds without a key, and not before. For any pushes into the
  event queue with times that do not decrease, and any calls that take events out: when a tick
  is taken out and handled, the screen is on afterwards exactly when it was on and fewer than
  30000 ms have passed since the last key handled (or since the first tick, before any key).
  Neither merged ticks nor events that overtake others make the screen sleep early.\<close>

theorem sleeps_when_idle:
  fixes gsw :: metrics and ok :: bool and init_io :: "i2c_state \<Rightarrow> i2c_state" and ms :: string
    and rq :: result_queue
  assumes "0 < cap" and "pushes_ordered 1000000 ops"
    and "eq_run ops (snd (event_queue_init True z cap q0)) = (pushed, map snd evs @ e # later, q)"
    and "list_all plain evs" and "pred_option status_wf st" and "evt_type e = EVT_TICK"
  defines "ui \<equiv> fst (thr_run gsw evs (thr_start gsw ok init_io (thr_statics ms) rq st))"
  shows "tu_power_on (thr_show gsw now_sec e ui) \<longleftrightarrow> tu_power_on ui \<and>
    unat (evt_timestamp_ns e) div 1000000 < unat (last_input (map snd evs @ [e])) + 30000"
proof -
  let ?q = "snd (event_queue_init True z cap q0)"
  have q: "eq_ok ?q" "eq_items ?q = []" using init_events[OF assms(1)] by simp_all
  have sys: "thr_sys_ok (thr_start gsw ok init_io (thr_statics ms) rq st)" by (rule thr_start_ok[OF assms(5)])
  have ui: "thr_ui_ok ui"
    using thr_sys_run[OF sys assms(4)] by (simp add: ui_def thr_sys_ok_def thr_shown_def)
  have t: "\<forall>x \<in> set (map snd evs @ e # later). 1000000 \<le> evt_timestamp_ns x"
    by (rule run_since[OF q(1) _ order_refl assms(2,3)]) (simp add: q(2))
  then have nz: "\<forall>x \<in> set (map snd evs @ [e]). ns_to_ms (evt_timestamp_ns x) \<noteq> 0" by (auto simp: ns_to_ms_pos)
  have act: "tc_last_activity_ms (tu_page_ctrl ui) = last_input (map snd evs)"
    unfolding ui_def by (rule run_activity[OF sys thr_start_activity assms(4)]) (use nz in auto)
  have l: "tc_last_activity_ms (tu_page_ctrl (thr_show gsw now_sec e ui)) = last_input (map snd evs @ [e])"
    using show_activity[OF ui, of e gsw now_sec] last_input_snoc[of "map snd evs" e] act assms(6) nz by auto
  have "\<forall>x \<in> set (map snd evs @ [e]). evt_timestamp_ns x \<le> evt_timestamp_ns e"
    using taken_before_tick[OF q assms(2,3)] assms(6) by (auto simp: event_queue_is_tick_def)
  then have "last_input (map snd evs @ [e]) \<le> ns_to_ms (evt_timestamp_ns e)" by (rule last_input_le)
  then show ?thesis using thr_tick_sleeps[OF ui assms(6), of gsw now_sec] nz l by simp
qed

definition idle_ops :: "eq_op list" where
  "idle_ops = [Eq_Push (thr_event EVT_BTN_K3_SHORT 2000000000), Eq_Pop, Eq_Push (thr_event EVT_TICK 40000000000), Eq_Pop]"

theorem sleeps_when_idle_witness:
  "\<not> tu_power_on (thr_show sample_metrics 0 (thr_event EVT_TICK 40000000000)
     (fst (thr_run sample_metrics [(thr_sample_env, thr_event EVT_BTN_K3_SHORT 2000000000)] thr_sample_start)))"
proof -
  let ?k = "thr_event EVT_BTN_K3_SHORT 2000000000" and ?e = "thr_event EVT_TICK 40000000000"
  let ?q = "snd (event_queue_init True ?k 4 zero_event_queue)"
  have out: "fst (snd (eq_run idle_ops ?q)) = [?k, ?e]" by code_simp
  have r: "eq_run idle_ops ?q = (fst (eq_run idle_ops ?q), map snd [(thr_sample_env, ?k)] @ ?e # [], snd (snd (eq_run idle_ops ?q)))"
    by (simp add: out prod_eq_iff)
  have o: "pushes_ordered 1000000 idle_ops" by code_simp
  have p: "list_all plain [(thr_sample_env, ?k)]" by (simp add: plain_def plain_event_def thr_event_def thr_sample_env_def)
  have "last_input (map snd [(thr_sample_env, ?k)] @ [?e]) = 2000" by code_simp
  then have "\<not> unat (evt_timestamp_ns ?e) div 1000000 < unat (last_input (map snd [(thr_sample_env, ?k)] @ [?e])) + 30000"
    by (simp only:) (simp add: thr_event_def)
  moreover have "0 < (4::nat)" "evt_type ?e = EVT_TICK" by (simp_all add: thr_event_def)
  ultimately show ?thesis
    using sleeps_when_idle[OF _ o r p zero_status_ok, where gsw = sample_metrics and ok = False and init_io = id
        and ms = "''dropbear,uhttpd''" and rq = zero_result_queue and now_sec = 0]
    by blast
qed

section \<open>Keys\<close>

text \<open>
  A key that comes after a slide has run its 200 ms, but before a tick, drops the switch to the
  next page: the animation is over and the page is not changed. It acts on the old page.
\<close>

theorem threaded_key_drops_switch:
  fixes t :: u64 and w :: 'w
  assumes "thr_ready t pc" and "is_slide (anim_ty (tc_anim pc))" and "tc_page_mode pc = PAGE_MODE_VIEW"
    and "tc_page_count pc > 1"
  defines "pc' \<equiv> fst (snd (thr_handle_key KEY_K3 False t pc w))"
  shows "tc_current_page pc' = tc_current_page pc \<and> from_page (tc_anim pc') = tc_current_page pc"
  using assms(1-4) by (simp add: pc'_def thr_handle_key_paths thr_key_view_def thr_switch_page_def
      thr_start_animation_def Let_def)

text \<open>
  Enter mode can always be left: on a lit screen without a running animation, a long press of K2
  in enter mode returns to view mode, whatever happened before.
\<close>

theorem threaded_enter_mode_left:
  fixes gsw :: metrics and ok :: bool and init_io :: "i2c_state \<Rightarrow> i2c_state" and ms :: string
    and rq :: result_queue
  assumes "list_all plain evs" and "pred_option status_wf st"
  defines "ui \<equiv> fst (thr_run gsw evs (thr_start gsw ok init_io (thr_statics ms) rq st))"
  assumes "tc_page_mode (tu_page_ctrl ui) = PAGE_MODE_ENTER"
    and "thr_ready (ns_to_ms (evt_timestamp_ns e)) (tu_page_ctrl ui)" and "evt_type e = EVT_BTN_K2_LONG"
  shows "tc_page_mode (tu_page_ctrl (thr_show gsw now_sec e ui)) = PAGE_MODE_VIEW"
proof -
  have "thr_sys_ok (thr_run gsw evs (thr_start gsw ok init_io (thr_statics ms) rq st))"
    by (rule thr_sys_run[OF thr_start_ok[OF assms(2)] assms(1)])
  then have "thr_ok thr_pages_get_list thr_pages_inv (tu_page_ctrl ui) (tu_world ui)"
    by (simp add: thr_sys_ok_def thr_shown_def thr_ui_ok_def ui_def)
  from thr_app.enter_left[OF this assms(5,4)] assms(6) show ?thesis
    by (simp add: thr_show_def thr_handle_event_def is_button_event_def is_long_press_def Let_def)
qed

section \<open>Shutdown\<close>

text \<open>
  The shutdown event turns the power off, but no picture follows: a lit display stays lit until
  the driver is cleaned up at the end of the program.
\<close>

theorem threaded_shutdown_stays_lit:
  fixes gsw :: metrics and ok :: bool and init_io :: "i2c_state \<Rightarrow> i2c_state" and ms :: string
    and rq :: result_queue
  assumes "list_all plain evs" and "pred_option status_wf st" and "evt_type e = EVT_SHUTDOWN"
  defines "ui \<equiv> fst (thr_run gsw evs (thr_start gsw ok init_io (thr_statics ms) rq st))"
  shows "\<not> tu_power_on (thr_show gsw now_sec e ui) \<and> tu_world (thr_show gsw now_sec e ui) = tu_world ui"
proof -
  have "thr_sys_ok (thr_run gsw evs (thr_start gsw ok init_io (thr_statics ms) rq st))"
    by (rule thr_sys_run[OF thr_start_ok[OF assms(2)] assms(1)])
  then have "thr_shown ui" by (simp add: thr_sys_ok_def ui_def)
  from shutdown_shows_nothing[OF this assms(3)] show ?thesis .
qed

end
