(* ===== verification/Thr_Local.thy ===== *)
theory Thr_Local
  imports Sys_Frame Thr_Interface
begin

text \<open>
  The update of the status that the user interface thread of the threaded version asks for
  (\<open>src_adr0005/sys_status.c\<close>): its local part, from \<open>/proc\<close> and system calls, and the requests to the
  services. CPU, memory and uptime are updated by the same code as in the current version
  (\<open>Sys_Local\<close>); the functions that write strings copy them with \<open>strncpy\<close>, and the services
  are not filled here.
\<close>

section \<open>State\<close>

text \<open>
  The context: the queues it was given, the next identifier, and the fields for CPU, network and
  files, which are those of the current version.
\<close>

record thr_status_ctx =
  sx_task_queue :: bool
  sx_result_queue :: bool
  sx_next_request_id :: u32
  sx_local :: sys_status_ctx

text \<open>\<open>mem\<close> is whether the context can be allocated, the other flags are the results of \<open>fopen\<close>.\<close>

definition thr_status_init ::
  "bool \<Rightarrow> bool \<Rightarrow> bool \<Rightarrow> bool \<Rightarrow> bool \<Rightarrow> bool \<Rightarrow> bool \<Rightarrow> thr_status_ctx option" where
  "thr_status_init mem tq rq open_stat open_net open_mem open_temp =
     (if \<not> mem then None
      else Some \<lparr>sx_task_queue = tq, sx_result_queue = rq, sx_next_request_id = 1,
        sx_local = sys_status_init open_stat open_net open_mem open_temp\<rparr>)"

text \<open>The files that are open are closed, then the context is freed.\<close>

definition thr_status_cleanup :: "thr_status_ctx option \<Rightarrow> thr_status_ctx option" where
  "thr_status_cleanup ctx =
     map_option (\<lambda>c. c\<lparr>sx_local := (sx_local c)\<lparr>fp_stat := False, fp_net := False, fp_mem := False, fp_temp := False\<rparr>\<rparr>) ctx"

text \<open>
  \<open>strncpy (buf, s, n)\<close> into a buffer of \<open>n + 1\<close> bytes whose last byte is zero, as it is in
  all buffers here: they start zeroed, and nothing else writes a last byte that is not zero.
\<close>

definition strncpy_into :: "nat \<Rightarrow> string \<Rightarrow> string" where
  "strncpy_into n src = take n src"

section \<open>The local update\<close>

definition thr_update_hostname :: "local_env \<Rightarrow> sys_status \<Rightarrow> sys_status" where
  "thr_update_hostname e st =
     (case host_name e of
        Some name \<Rightarrow> st\<lparr>hostname := bounded_copy HOSTNAME_MAX_LEN name\<rparr>
      | None \<Rightarrow> st\<lparr>hostname := strncpy_into (HOSTNAME_MAX_LEN - 1) ''Unknown''\<rparr>)"

definition thr_update_ip_addr :: "local_env \<Rightarrow> sys_status \<Rightarrow> sys_status" where
  "thr_update_ip_addr e st =
     (let st = st\<lparr>ip_addr := []\<rparr> in
      case if_addrs e of
        None \<Rightarrow> st\<lparr>ip_addr := strncpy_into (IP_ADDR_MAX_LEN - 1) ''No IP''\<rparr>
      | Some addrs \<Rightarrow>
          let st = st\<lparr>ip_addr := by_priority [''br-lan'', ''eth0'', ''wlan0''] addrs (ip_addr st)\<rparr>;
              st = (if ip_addr st = [] then
                      (case find_inet (\<lambda>a. \<not> ifa_loopback a) addrs of
                         None \<Rightarrow> st | Some s \<Rightarrow> st\<lparr>ip_addr := s\<rparr>)
                    else st)
          in if ip_addr st = [] then st\<lparr>ip_addr := strncpy_into (IP_ADDR_MAX_LEN - 1) ''No IP''\<rparr> else st)"

text \<open>The search of the routing table for the default route.\<close>

fun thr_route_loop :: "string list \<Rightarrow> sys_status_ctx \<times> sys_status \<Rightarrow> sys_status_ctx \<times> sys_status" where
  "thr_route_loop [] x = x"
| "thr_route_loop (line # lines) (ctx, st) =
     (case sscanf [Scan_Word 15, Scan_Ws, Scan_Hex, Scan_Ws, Scan_Hex] line of
        [V_Str iface, V_Hex dest, V_Hex gw] \<Rightarrow>
          if dest = 0
          then (ctx\<lparr>cached_gw_iface := strncpy_into 15 iface\<rparr>,
                if gw \<noteq> 0 then st\<lparr>gateway := gateway_string gw\<rparr> else st)
          else thr_route_loop lines (ctx, st)
      | _ \<Rightarrow> thr_route_loop lines (ctx, st))"

definition thr_refresh_gateway ::
  "local_env \<Rightarrow> sys_status_ctx \<times> sys_status \<Rightarrow> sys_status_ctx \<times> sys_status" where
  "thr_refresh_gateway e x =
     (let (ctx, st) = x in
      if cached_gw_iface ctx = [] \<or> net_now_sec e - gw_cache_time ctx \<ge> 30 then
        let (ctx, st) = (ctx\<lparr>cached_gw_iface := []\<rparr>, st\<lparr>gateway := []\<rparr>);
            (ctx, st) = (case file_route e of
                           None \<Rightarrow> (ctx, st)
                         | Some text \<Rightarrow> thr_route_loop (drop 1 (file_lines 254 text)) (ctx, st));
            ctx = (if cached_gw_iface ctx = [] then ctx\<lparr>cached_gw_iface := strncpy_into 15 ''eth0''\<rparr> else ctx);
            st = (if gateway st = [] then st\<lparr>gateway := strncpy_into (IP_ADDR_MAX_LEN - 1) ''--''\<rparr> else st)
        in (ctx\<lparr>gw_cache_time := net_now_sec e\<rparr>, st)
      else (ctx, st))"

definition thr_update_network_stats ::
  "local_env \<Rightarrow> sys_status_ctx \<times> sys_status \<Rightarrow> sys_status_ctx \<times> sys_status" where
  "thr_update_network_stats e x =
     (let (ctx, st) = x in
      if \<not> fp_net ctx then (ctx, st)
      else
        let now_ms = net_now_ms e;
            (ctx, st) = thr_refresh_gateway e (ctx, st);
            st = dev_loop (cached_gw_iface ctx) (file_lines 254 (file_net_dev e)) st;
            st = (if prev_net_time_ms ctx > 0 \<and> now_ms > prev_net_time_ms ctx then
                    let elapsed_ms = now_ms - prev_net_time_ms ctx;
                        st = st\<lparr>rx_speed := net_speed (rx_speed st) (rx_bytes st) (prev_rx_bytes ctx) elapsed_ms\<rparr>
                    in st\<lparr>tx_speed := net_speed (tx_speed st) (tx_bytes st) (prev_tx_bytes ctx) elapsed_ms\<rparr>
                  else st)
        in (ctx\<lparr>prev_rx_bytes := rx_bytes st, prev_tx_bytes := tx_bytes st, prev_net_time_ms := now_ms\<rparr>, st))"

definition thr_update_local ::
  "local_env \<Rightarrow> thr_status_ctx \<Rightarrow> sys_status \<Rightarrow> thr_status_ctx \<times> sys_status" where
  "thr_update_local e ctx st =
     (let (lc, st) = update_cpu_usage e (sx_local ctx) st;
          st = update_cpu_temp e lc st;
          st = update_memory e lc st;
          st = thr_update_hostname e st;
          st = update_uptime e st;
          st = thr_update_ip_addr e st;
          (lc, st) = thr_update_network_stats e (lc, st)
      in (ctx\<lparr>sx_local := lc\<rparr>, st))"

section \<open>The same as in the current version\<close>

lemma thr_update_hostname_eq: "thr_update_hostname = update_hostname"
  by (auto simp: fun_eq_iff thr_update_hostname_def update_hostname_def strncpy_into_def bounded_copy_def
      split: option.split)

lemma thr_update_ip_addr_eq: "thr_update_ip_addr e st = update_ip_addr e st"
  by (simp add: thr_update_ip_addr_def update_ip_addr_def strncpy_into_def bounded_copy_def Let_def
      split: option.split)

lemma thr_route_loop_eq: "thr_route_loop lines (ctx, st) = route_loop lines ctx st"
  by (induction lines ctx st rule: route_loop.induct)
    (simp_all add: strncpy_into_def bounded_copy_def split: list.split scan_val.split)

lemma thr_refresh_gateway_eq: "thr_refresh_gateway e (ctx, st) = refresh_gateway e ctx st"
  by (simp add: thr_refresh_gateway_def refresh_gateway_def thr_route_loop_eq strncpy_into_def Let_def
      cong: if_cong option.case_cong)

lemma thr_update_network_eq: "thr_update_network_stats e (ctx, st) = update_network_stats e ctx st"
  by (simp add: thr_update_network_stats_def update_network_stats_def thr_refresh_gateway_eq Let_def)

text \<open>Once the services are there, the local update is that of the current version.\<close>

theorem thr_update_local_same:
  assumes "service_count st \<noteq> 0" and "thr_update_local e ctx st = (ctx', st')"
  shows "sys_status_update_local e (sx_local ctx) st w = (sx_local ctx', st', w)"
  using assms
  by (auto simp: thr_update_local_def sys_status_update_local_def thr_update_hostname_eq thr_update_ip_addr_eq
      thr_update_network_eq Let_def split: prod.splits)

section \<open>What the thread does for an update\<close>

text \<open>
  The two calls of \<open>ui_thread_default_handle\<close>: the local update and the requests to the services
  of the configuration \<open>cfg\<close>, which need the task queue.
\<close>

definition thr_status_update ::
  "local_env \<Rightarrow> service_config \<Rightarrow> u64 \<Rightarrow> thr_status_ctx \<times> task_queue \<Rightarrow> sys_status \<Rightarrow>
   (thr_status_ctx \<times> task_queue) \<times> sys_status" where
  "thr_status_update e cfg now_sec x st =
     (let (ctx, tq) = x;
          (ctx, st) = thr_update_local e ctx st
      in if \<not> sx_task_queue ctx then ((ctx, tq), st)
         else let (st, nxt, tq) = sys_status_request_services cfg now_sec (st, sx_next_request_id ctx, tq)
              in ((ctx\<lparr>sx_next_request_id := nxt\<rparr>, tq), st))"

lemma thr_update_local_services: "same_services st (snd (thr_update_local e ctx st))"
  using update_parts_services
  by (simp add: thr_update_local_def thr_update_hostname_eq thr_update_ip_addr_eq thr_update_network_eq
      case_prod_beta Let_def)

lemma update_service_wf: "status_wf st \<Longrightarrow> status_wf (update_service i f st)"
  by (simp add: status_wf_def update_service_def)

lemma fill_services_wf:
  assumes "status_wf st" and "length cfg \<le> MAX_SERVICES"
  shows "status_wf (fill_services cfg st)"
proof -
  have "status_wf (fold (\<lambda>i. update_service i (f i)) is st)" for f "is"
    using assms(1) by (induction "is" arbitrary: st) (simp_all add: update_service_wf)
  then show ?thesis using assms by (simp add: fill_services_def status_wf_def)
qed

lemma request_service_wf: "status_wf (fst x) \<Longrightarrow> status_wf (fst (request_service now i x))"
  by (cases x) (simp add: request_service_def Let_def update_service_wf split: prod.split)

lemma request_services_wf:
  assumes "status_wf st" and "length cfg \<le> MAX_SERVICES"
  shows "status_wf (fst (sys_status_request_services cfg now_sec (st, nxt, tq)))"
proof -
  have "status_wf (fst (fold (request_service now) is x))" if "status_wf (fst x)" for now "is" x
    using that by (induction "is" arbitrary: x) (simp_all add: request_service_wf)
  then show ?thesis using fill_services_wf[OF assms] by (simp add: sys_status_request_services_def Let_def)
qed

lemma thr_status_update_wf:
  assumes "status_wf st" and "length cfg \<le> MAX_SERVICES"
  shows "status_wf (snd (thr_status_update e cfg now_sec x st))"
proof -
  have "status_wf (snd (thr_update_local e (fst x) st))"
    using thr_update_local_services[of st e "fst x"] assms(1) by (simp add: status_wf_def)
  then show ?thesis
    using request_services_wf[OF _ assms(2), of "snd (thr_update_local e (fst x) st)"]
    by (simp add: thr_status_update_def case_prod_beta Let_def)
qed

text \<open>So the properties of the interface hold with this update.\<close>

theorem real_update_plain:
  assumes "length cfg \<le> MAX_SERVICES" and "plain_event e"
  shows "plain (\<lparr>te_now_sec = t, te_results = f, te_update = (\<lambda>st. snd (thr_status_update le cfg now_sec x st))\<rparr>, e)"
  using assms by (simp add: plain_def thr_status_update_wf)

end
