(* ===== verification/Thr_Buttons.thy ===== *)
theory Thr_Buttons
  imports Gpio_Libgpiod
begin

text \<open>
  Button tracking of the GPIO drivers of the threaded version of the program (the functions of the
  same names in \<open>src_adr0005/hal/gpio_hal_libgpiod.c\<close> and \<open>src_adr0005/hal/gpio_hal_mock.c\<close>):
  an event is reported when a button is released, short or long by the time it was held. What
  the queue of events holds after any edges is specified by a scan of the edges, and the tracking
  is related to that of the current version.
\<close>

section \<open>State and operations\<close>

record thr_buttons =
  tb_pressed_level :: int
  tb_use_soft_debounce :: bool
  tb_press_time_ms :: "u64 list"
  tb_last_edge_ms :: "u64 list"
  tb_pressed :: "bool list"
  tb_pending :: "gpio_event ring"

definition tb_push :: "gpio_event \<Rightarrow> 'a thr_buttons_scheme \<Rightarrow> 'a thr_buttons_scheme" where
  "tb_push event s = s\<lparr>tb_pending := ring_push MAX_PENDING_EVENTS event (tb_pending s)\<rparr>"

definition tb_pop :: "'a thr_buttons_scheme \<Rightarrow> gpio_event option \<times> 'a thr_buttons_scheme" where
  "tb_pop s = (let (event, q) = ring_pop MAX_PENDING_EVENTS (tb_pending s) in (event, s\<lparr>tb_pending := q\<rparr>))"

definition tb_reset :: "'a thr_buttons_scheme \<Rightarrow> 'a thr_buttons_scheme" where
  "tb_reset s =
     s\<lparr>tb_press_time_ms := replicate GPIO_NUM_BUTTONS 0, tb_last_edge_ms := replicate GPIO_NUM_BUTTONS 0,
       tb_pressed := replicate GPIO_NUM_BUTTONS False, tb_pending := ring_empty MAX_PENDING_EVENTS zero_event\<rparr>"

text \<open>An edge of button \<open>line\<close> to the level \<open>new_value\<close>: the debounce test, a press, a release.\<close>

definition tb_debounced :: "nat \<Rightarrow> u64 \<Rightarrow> 'a thr_buttons_scheme \<Rightarrow> bool" where
  "tb_debounced line now_ms s \<longleftrightarrow> tb_use_soft_debounce s \<and> tb_last_edge_ms s ! line \<noteq> 0 \<and>
     now_ms - tb_last_edge_ms s ! line < GPIO_DEBOUNCE_MS"

definition tb_release :: "nat \<Rightarrow> u64 \<Rightarrow> 'a thr_buttons_scheme \<Rightarrow> 'a thr_buttons_scheme" where
  "tb_release line ts s =
     (let s = s\<lparr>tb_pressed := (tb_pressed s)[line := False]\<rparr>;
          elapsed = ts div 1000000 - tb_press_time_ms s ! line
      in tb_push (button_event line (elapsed \<ge> GPIO_LONG_PRESS_MS) ts) s)"

definition tb_line :: "nat \<Rightarrow> int \<Rightarrow> u64 \<Rightarrow> 'a thr_buttons_scheme \<Rightarrow> 'a thr_buttons_scheme" where
  "tb_line line new_value ts s =
     (let now_ms = ts div 1000000 in
      if tb_debounced line now_ms s then s
      else
        let s = s\<lparr>tb_last_edge_ms := (tb_last_edge_ms s)[line := now_ms]\<rparr> in
        if new_value = tb_pressed_level s then
          s\<lparr>tb_pressed := (tb_pressed s)[line := True], tb_press_time_ms := (tb_press_time_ms s)[line := now_ms]\<rparr>
        else if tb_pressed s ! line then tb_release line ts s
        else s)"

section \<open>The same tracking as in the current version\<close>

text \<open>
  Seen as the state of a driver of the current version that has no timer, every operation is
  that of the current version.
\<close>

definition as_buttons :: "'a thr_buttons_scheme \<Rightarrow> button_state" where
  "as_buttons s = \<lparr>g_timer_fd = -1, g_timer_value = (0, 0), g_pressed_level = tb_pressed_level s,
     g_use_soft_debounce = tb_use_soft_debounce s, g_press_time_ms = tb_press_time_ms s,
     g_last_edge_ms = tb_last_edge_ms s, g_pressed = tb_pressed s,
     g_long_sent = replicate GPIO_NUM_BUTTONS False, g_pending = tb_pending s\<rparr>"

lemma as_buttons_steps:
  "as_buttons (tb_push e s) = pending_push e (as_buttons s)"
  "as_buttons (tb_reset s) = reset_buttons (as_buttons s)"
  "as_buttons (snd (tb_pop s)) = snd (pending_pop (as_buttons s))"
  "fst (tb_pop s) = fst (pending_pop (as_buttons s))"
  "as_buttons (tb_release line ts s) = release_button line ts upd (as_buttons s)"
  by (simp_all add: as_buttons_def tb_push_def pending_push_def tb_reset_def reset_buttons_def
      tb_pop_def pending_pop_def tb_release_def release_button_def case_prod_beta Let_def)

lemma no_long_sent: "(replicate GPIO_NUM_BUTTONS False)[i := False] = replicate GPIO_NUM_BUTTONS False"
  by (rule list_update_id[THEN subst, of "\<lambda>x. (replicate GPIO_NUM_BUTTONS False)[i := False] = x" _ i])
    (cases "i < GPIO_NUM_BUTTONS", simp_all add: list_update_beyond)

theorem thr_buttons_as_current:
  "as_buttons (tb_line line v ts s) = process_line line v ts upd (as_buttons s)"
proof -
  have d: "debounced line (ts div 1000000) (as_buttons s) = tb_debounced line (ts div 1000000) s"
    by (simp add: debounced_def tb_debounced_def as_buttons_def)
  have e: "as_buttons (s\<lparr>tb_last_edge_ms := x\<rparr>) = (as_buttons s)\<lparr>g_last_edge_ms := x\<rparr>" for x
    by (simp add: as_buttons_def)
  have p: "as_buttons (s\<lparr>tb_last_edge_ms := x, tb_pressed := y, tb_press_time_ms := z\<rparr>) =
    (as_buttons s)\<lparr>g_last_edge_ms := x, g_pressed := y, g_press_time_ms := z,
      g_long_sent := (g_long_sent (as_buttons s))[line := False]\<rparr>" for x y z
    by (simp only: as_buttons_def button_state.update_convs button_state.select_convs
        thr_buttons.update_convs thr_buttons.select_convs no_long_sent) simp
  have [simp]: "g_pressed (as_buttons s) = tb_pressed s" "g_pressed_level (as_buttons s) = tb_pressed_level s"
    "g_timer_fd (as_buttons s) = -1" "g_last_edge_ms (as_buttons s) = tb_last_edge_ms s"
    "g_press_time_ms (as_buttons s) = tb_press_time_ms s"
    by (simp_all add: as_buttons_def)
  show ?thesis
    by (simp add: tb_line_def process_line_def d Let_def p as_buttons_steps(5)[where upd = upd] e)
qed

definition tb_ok :: "'a thr_buttons_scheme \<Rightarrow> bool" where
  [wf_defs]: "tb_ok s \<longleftrightarrow> buttons_ok (as_buttons s)"

lemma tb_ok_steps:
  "tb_ok s \<Longrightarrow> line < GPIO_NUM_BUTTONS \<Longrightarrow> tb_ok (tb_line line v ts s)"
  "tb_ok s \<Longrightarrow> tb_ok (snd (tb_pop s))"
  "tb_ok (tb_reset t)"
proof -
  show "tb_ok s \<Longrightarrow> line < GPIO_NUM_BUTTONS \<Longrightarrow> tb_ok (tb_line line v ts s)"
    by (simp add: tb_ok_def thr_buttons_as_current[where upd = 0] process_line_ok)
  show "tb_ok s \<Longrightarrow> tb_ok (snd (tb_pop s))" by (simp add: tb_ok_def as_buttons_steps pending_pop_ok)
  show "tb_ok (tb_reset t)" by (simp add: tb_ok_def as_buttons_steps reset_buttons_def buttons_ok_def)
qed

lemma tb_ok_parts:
  assumes "tb_ok s"
  shows "length (tb_press_time_ms s) = GPIO_NUM_BUTTONS" "length (tb_last_edge_ms s) = GPIO_NUM_BUTTONS"
    "length (tb_pressed s) = GPIO_NUM_BUTTONS" "ring_ok MAX_PENDING_EVENTS (tb_pending s)"
  using assms by (simp_all add: tb_ok_def buttons_ok_def as_buttons_def)

lemma tb_ok_cong:
  "as_buttons s = as_buttons t \<Longrightarrow> tb_ok s = tb_ok t"
  by (simp add: tb_ok_def)

section \<open>What is queued after any edges\<close>

text \<open>
  The specification: an edge of a line to a level at a time. A button that is held since some
  time gives, when it is released, one event, long if it was held for 600 ms.
\<close>

type_synonym line_edge = "nat \<times> int \<times> u64"

fun press_events :: "int \<Rightarrow> line_edge list \<Rightarrow> u64 option list \<Rightarrow> gpio_event list \<times> u64 option list" where
  "press_events L [] since = ([], since)"
| "press_events L ((line, v, ts) # es) since =
     (if v = L then press_events L es (since[line := Some (ts div 1000000)])
      else case since ! line of
             None \<Rightarrow> press_events L es since
           | Some t \<Rightarrow>
               let (evs, since) = press_events L es (since[line := None])
               in (button_event line (ts div 1000000 - t \<ge> GPIO_LONG_PRESS_MS) ts # evs, since))"

text \<open>Debouncing in software drops the edges that follow an accepted one of their line within 30 ms.\<close>

fun undebounced :: "u64 list \<Rightarrow> line_edge list \<Rightarrow> line_edge list" where
  "undebounced lst [] = []"
| "undebounced lst ((line, v, ts) # es) =
     (if lst ! line \<noteq> 0 \<and> ts div 1000000 - lst ! line < GPIO_DEBOUNCE_MS then undebounced lst es
      else (line, v, ts) # undebounced (lst[line := ts div 1000000]) es)"

definition accepted_edges :: "'a thr_buttons_scheme \<Rightarrow> line_edge list \<Rightarrow> line_edge list" where
  "accepted_edges s es = (if tb_use_soft_debounce s then undebounced (tb_last_edge_ms s) es else es)"

definition held_since :: "'a thr_buttons_scheme \<Rightarrow> u64 option list" where
  "held_since s = map (\<lambda>i. if tb_pressed s ! i then Some (tb_press_time_ms s ! i) else None) [0..<GPIO_NUM_BUTTONS]"

fun tb_edge :: "line_edge \<Rightarrow> 'a thr_buttons_scheme \<Rightarrow> 'a thr_buttons_scheme" where
  "tb_edge (line, v, ts) s = tb_line line v ts s"

definition newest :: "nat \<Rightarrow> 'b list \<Rightarrow> 'b list" where
  "newest n xs = drop (length xs - n) xs"

lemma newest_all [simp]: "length xs \<le> n \<Longrightarrow> newest n xs = xs"
  by (simp add: newest_def)

lemma newest_newest: "newest n (newest n xs @ ys) = newest n (xs @ ys)"
  by (cases "length xs \<le> n") (simp_all add: newest_def add.commute)

lemma tb_line_sel [simp]:
  "tb_pressed_level (tb_line line v ts s) = tb_pressed_level s"
  "tb_use_soft_debounce (tb_line line v ts s) = tb_use_soft_debounce s"
  "thr_buttons.more (tb_line line v ts s) = thr_buttons.more s"
  by (simp_all add: tb_line_def tb_release_def tb_push_def Let_def)

lemma tb_line_debounced: "tb_debounced line (ts div 1000000) s \<Longrightarrow> tb_line line v ts s = s"
  by (simp add: tb_line_def)

lemma held_since_nth: "i < GPIO_NUM_BUTTONS \<Longrightarrow>
  held_since s ! i = (if tb_pressed s ! i then Some (tb_press_time_ms s ! i) else None)"
  by (simp add: held_since_def)

lemma held_since_update:
  assumes "i < GPIO_NUM_BUTTONS" and "length (tb_pressed s) = GPIO_NUM_BUTTONS"
    and "length (tb_press_time_ms s) = GPIO_NUM_BUTTONS"
  shows "tb_pressed t = (tb_pressed s)[i := True] \<Longrightarrow> tb_press_time_ms t = (tb_press_time_ms s)[i := x] \<Longrightarrow>
      held_since t = (held_since s)[i := Some x]"
    and "tb_pressed t = (tb_pressed s)[i := False] \<Longrightarrow> tb_press_time_ms t = tb_press_time_ms s \<Longrightarrow>
      held_since t = (held_since s)[i := None]"
  using assms by (auto intro!: nth_equalityI simp: held_since_def nth_list_update)

text \<open>One accepted edge.\<close>

lemma tb_line_step:
  fixes s :: "'a thr_buttons_scheme" and v :: int
  assumes "tb_ok s" and "line < GPIO_NUM_BUTTONS" and "\<not> tb_debounced line (ts div 1000000) s"
  defines "s' \<equiv> tb_line line v ts s"
  shows "tb_last_edge_ms s' = (tb_last_edge_ms s)[line := ts div 1000000]"
    and "v = tb_pressed_level s \<Longrightarrow> tb_pending s' = tb_pending s \<and>
      held_since s' = (held_since s)[line := Some (ts div 1000000)]"
    and "v \<noteq> tb_pressed_level s \<Longrightarrow> held_since s ! line = None \<Longrightarrow> tb_pending s' = tb_pending s \<and>
      held_since s' = held_since s"
    and "v \<noteq> tb_pressed_level s \<Longrightarrow> held_since s ! line = Some t \<Longrightarrow>
      tb_pending s' = ring_push MAX_PENDING_EVENTS
        (button_event line (ts div 1000000 - t \<ge> GPIO_LONG_PRESS_MS) ts) (tb_pending s) \<and>
      held_since s' = (held_since s)[line := None]"
proof -
  note len = tb_ok_parts[OF assms(1)]
  have s': "s' = (let s = s\<lparr>tb_last_edge_ms := (tb_last_edge_ms s)[line := ts div 1000000]\<rparr> in
        if v = tb_pressed_level s then
          s\<lparr>tb_pressed := (tb_pressed s)[line := True], tb_press_time_ms := (tb_press_time_ms s)[line := ts div 1000000]\<rparr>
        else if tb_pressed s ! line then tb_release line ts s else s)"
    using assms(3) by (simp add: s'_def tb_line_def Let_def)
  show "tb_last_edge_ms s' = (tb_last_edge_ms s)[line := ts div 1000000]"
    by (simp add: s' tb_release_def tb_push_def Let_def)
  show "v = tb_pressed_level s \<Longrightarrow> tb_pending s' = tb_pending s \<and>
      held_since s' = (held_since s)[line := Some (ts div 1000000)]"
    using held_since_update(1)[OF assms(2) len(3,1), of s'] by (simp add: s')
  have h: "held_since s ! line = (if tb_pressed s ! line then Some (tb_press_time_ms s ! line) else None)"
    by (rule held_since_nth[OF assms(2)])
  show "v \<noteq> tb_pressed_level s \<Longrightarrow> held_since s ! line = None \<Longrightarrow> tb_pending s' = tb_pending s \<and>
      held_since s' = held_since s"
    using h by (simp add: s' held_since_def split: if_splits)
  show "v \<noteq> tb_pressed_level s \<Longrightarrow> held_since s ! line = Some t \<Longrightarrow>
      tb_pending s' = ring_push MAX_PENDING_EVENTS
        (button_event line (ts div 1000000 - t \<ge> GPIO_LONG_PRESS_MS) ts) (tb_pending s) \<and>
      held_since s' = (held_since s)[line := None]"
    using h held_since_update(2)[OF assms(2) len(3,1), of s']
    by (simp add: s' tb_release_def tb_push_def Let_def split: if_splits)
qed

lemma accepted_edges_step:
  assumes "line < GPIO_NUM_BUTTONS" and "tb_ok s"
  shows "accepted_edges s ((line, v, ts) # es) =
    (if tb_debounced line (ts div 1000000) s then accepted_edges s es
     else (line, v, ts) # accepted_edges (tb_line line v ts s) es)"
  using tb_line_step(1)[OF assms(2,1)]
  by (auto simp: accepted_edges_def tb_debounced_def)

text \<open>After any edges: the last 32 of the events queued before and the events of the presses.\<close>

lemma tb_edges_refine:
  assumes "tb_ok s" and "list_all (\<lambda>(line, _). line < GPIO_NUM_BUTTONS) es"
  defines "r \<equiv> press_events (tb_pressed_level s) (accepted_edges s es) (held_since s)"
  shows "tb_ok (fold tb_edge es s)"
    and "ring_items MAX_PENDING_EVENTS (tb_pending (fold tb_edge es s)) =
      newest MAX_PENDING_EVENTS (ring_items MAX_PENDING_EVENTS (tb_pending s) @ fst r)"
    and "held_since (fold tb_edge es s) = snd r"
proof -
  have "tb_ok (fold tb_edge es s) \<and>
    ring_items MAX_PENDING_EVENTS (tb_pending (fold tb_edge es s)) =
      newest MAX_PENDING_EVENTS (ring_items MAX_PENDING_EVENTS (tb_pending s) @
        fst (press_events (tb_pressed_level s) (accepted_edges s es) (held_since s))) \<and>
    held_since (fold tb_edge es s) = snd (press_events (tb_pressed_level s) (accepted_edges s es) (held_since s))"
    using assms(1,2)
  proof (induction es arbitrary: s)
    case Nil
    then have "length (ring_items MAX_PENDING_EVENTS (tb_pending s)) \<le> MAX_PENDING_EVENTS"
      using pending.items_le tb_ok_parts(4) by blast
    then show ?case using Nil by (simp add: accepted_edges_def)
  next
    case (Cons e es)
    obtain line v ts where e: "e = (line, v, ts)" by (cases e)
    have line: "line < GPIO_NUM_BUTTONS" using Cons.prems(2) by (simp add: e)
    let ?s = "tb_line line v ts s"
    have ok: "tb_ok ?s" by (rule tb_ok_steps(1)[OF Cons.prems(1) line])
    have es: "list_all (\<lambda>(line, _). line < GPIO_NUM_BUTTONS) es" using Cons.prems(2) by simp
    note IH = Cons.IH[OF ok es]
    note acc = accepted_edges_step[OF line Cons.prems(1), of v ts es]
    show ?case
    proof (cases "tb_debounced line (ts div 1000000) s")
      case True
      then show ?thesis using IH acc by (simp add: e tb_line_debounced)
    next
      case False
      note step = tb_line_step[OF Cons.prems(1) line False, of v]
      note push = pending.push_window[OF tb_ok_parts(4)[OF Cons.prems(1)]]
      consider "v = tb_pressed_level s" | "v \<noteq> tb_pressed_level s" "held_since s ! line = None"
        | t where "v \<noteq> tb_pressed_level s" "held_since s ! line = Some t" by auto
      then show ?thesis
      proof cases
        case 1
        then show ?thesis using IH acc step(2) False by (simp add: e)
      next
        case 2
        then show ?thesis using IH acc step(3) False by (simp add: e)
      next
        case (3 t)
        have "ring_items MAX_PENDING_EVENTS (tb_pending ?s) = newest MAX_PENDING_EVENTS
            (ring_items MAX_PENDING_EVENTS (tb_pending s) @ [button_event line (ts div 1000000 - t \<ge> GPIO_LONG_PRESS_MS) ts])"
          using step(4)[OF 3] push by (simp add: newest_def)
        then show ?thesis
          using IH acc step(4)[OF 3] False 3 by (simp add: e Let_def case_prod_beta newest_newest)
      qed
    qed
  qed
  then show "tb_ok (fold tb_edge es s)"
    "ring_items MAX_PENDING_EVENTS (tb_pending (fold tb_edge es s)) =
      newest MAX_PENDING_EVENTS (ring_items MAX_PENDING_EVENTS (tb_pending s) @ fst r)"
    "held_since (fold tb_edge es s) = snd r"
    by (simp_all add: r_def)
qed

end
