(* ===== verification/Thr_Gpio.thy ===== *)
theory Thr_Gpio
  imports Thr_Buttons Gpio_Mock Event_Loop
begin

text \<open>
  The GPIO drivers of the threaded version of the program (\<open>src_adr0005/hal/gpio_hal_libgpiod.c\<close> and
  \<open>src_adr0005/hal/gpio_hal_mock.c\<close>), whose \<open>wait_event\<close> waits for the next event of a button, and
  the loop of \<open>event_loop_handle_gpio\<close> (\<open>src_adr0005/event_loop.c\<close>) that calls it. What the clock,
  \<open>poll\<close> and libgpiod return is the environment of a call, one round per turn of its loop; a call
  that does not return is \<open>None\<close>.
\<close>

section \<open>The driver over libgpiod\<close>

text \<open>The request of the lines has a descriptor; of the other objects only their existence is kept.\<close>

record thr_gpiod = thr_buttons +
  tg_chip :: bool
  tg_request :: "int option"
  tg_event_buf :: bool

text \<open>Initialisation meets the same calls as that of the current version, but for the timer.\<close>

definition thr_gpiod_init :: "gpiod_init_env \<Rightarrow> thr_gpiod \<Rightarrow> int \<times> thr_gpiod" where
  "thr_gpiod_init e s =
     (let s = (tb_reset s)\<lparr>tg_chip := chip_ok e\<rparr> in
      if \<not> tg_chip s then (-1, s)
      else
        let s = s\<lparr>tg_request := (if debounce_request_ok e then Some (request_fd e) else None)\<rparr>;
            s = (if tg_request s = None \<and> debounce_unsupported e
                 then s\<lparr>tg_request := (if plain_request_ok e then Some (request_fd e) else None),
                        tb_use_soft_debounce := True\<rparr>
                 else s\<lparr>tb_use_soft_debounce := False\<rparr>)
        in if tg_request s = None then (-1, s\<lparr>tg_chip := False\<rparr>)
           else
             let s = s\<lparr>tg_event_buf := event_buf_ok e\<rparr> in
             if \<not> tg_event_buf s then (-1, s\<lparr>tg_request := None, tg_chip := False\<rparr>)
             else
               let s = s\<lparr>tb_pressed_level := detect_pressed_level (line_values e)\<rparr> in
               if tb_pressed_level s < 0
               then (-1, s\<lparr>tg_event_buf := False, tg_request := None, tg_chip := False\<rparr>)
               else (0, s))"

definition thr_gpiod_cleanup :: "thr_gpiod \<Rightarrow> thr_gpiod" where
  "thr_gpiod_cleanup s =
     tb_reset (s\<lparr>tg_event_buf := False, tg_request := None, tg_chip := False\<rparr>)"

definition thr_gpiod_get_fd :: "thr_gpiod \<Rightarrow> int" where
  "thr_gpiod_get_fd s = (case tg_request s of None \<Rightarrow> -1 | Some fd \<Rightarrow> fd)"

definition thr_process_edge_event :: "gpiod_edge \<Rightarrow> 'a thr_buttons_scheme \<Rightarrow> 'a thr_buttons_scheme" where
  "thr_process_edge_event d s =
     (case first_index (\<lambda>b. b = edge_offset d) g_btn_offsets of
        None \<Rightarrow> s
      | Some line \<Rightarrow> tb_line line (edge_level d) (edge_timestamp_ns d) s)"

text \<open>
  A round: the clock, what waiting at most so many milliseconds returns, and what reading the
  edges returns, \<open>None\<close> if it blocks.
\<close>

record thr_round =
  tr_now_ms :: u64
  tr_ready :: "int \<Rightarrow> int"
  tr_read :: "edge_read option"

definition wait_for_edge_event :: "int \<Rightarrow> int \<Rightarrow> thr_round \<Rightarrow> int" where
  "wait_for_edge_event fd timeout_ms r =
     (if fd \<ge> 0 then let pret = tr_ready r timeout_ms in if pret \<le> 0 then pret else 1
      else tr_ready r timeout_ms)"

text \<open>The result of \<open>read_and_process_edges\<close>, with the edges it has read.\<close>

definition read_and_process_edges ::
  "thr_round \<Rightarrow> 'a thr_buttons_scheme \<Rightarrow> ((int \<times> gpio_event option) \<times> gpiod_edge list \<times> 'a thr_buttons_scheme) option" where
  "read_and_process_edges r s =
     (case tr_read r of
        None \<Rightarrow> None
      | Some (Read_Error _) \<Rightarrow> Some ((-1, None), [], s)
      | Some (Read_Edges edges) \<Rightarrow>
          let (ev, s) = tb_pop (fold thr_process_edge_event edges s)
          in Some ((if ev \<noteq> None then 1 else 0, ev), edges, s))"

text \<open>How long to wait: \<open>None\<close> if the time is over.\<close>

definition effective_wait :: "int \<Rightarrow> u64 \<Rightarrow> u64 \<Rightarrow> int option" where
  "effective_wait timeout_ms start_ms now_ms =
     (if timeout_ms \<ge> 0 then
        let elapsed_total = now_ms - start_ms
        in if elapsed_total \<ge> word_of_int timeout_ms then None
           else Some (uint (word_of_int timeout_ms - elapsed_total))
      else Some timeout_ms)"

fun thr_wait_loop ::
  "int \<Rightarrow> int \<Rightarrow> u64 \<Rightarrow> thr_round list \<Rightarrow> 'a thr_buttons_scheme \<Rightarrow>
   ((int \<times> gpio_event option) \<times> gpiod_edge list \<times> 'a thr_buttons_scheme) option" where
  "thr_wait_loop fd timeout_ms start_ms rounds s =
     (case tb_pop s of
        (Some ev, s) \<Rightarrow> Some ((1, Some ev), [], s)
      | (None, s) \<Rightarrow>
          (case rounds of
             [] \<Rightarrow> None
           | r # rounds \<Rightarrow>
               if timeout_ms = 0 then read_and_process_edges r s
               else (case effective_wait timeout_ms start_ms (tr_now_ms r) of
                       None \<Rightarrow> Some ((0, None), [], s)
                     | Some effective_timeout \<Rightarrow>
                         let wait_ret = wait_for_edge_event fd effective_timeout r in
                         if wait_ret \<le> 0 then Some ((wait_ret, None), [], s)
                         else (case read_and_process_edges r s of
                                 None \<Rightarrow> None
                               | Some ((processed, ev), edges, s) \<Rightarrow>
                                   if processed < 0 then Some ((-1, None), edges, s)
                                   else if processed > 0 then Some ((1, ev), edges, s)
                                   else map_option (\<lambda>(res, later, s). (res, edges @ later, s))
                                          (thr_wait_loop fd timeout_ms start_ms rounds s)))))"

declare thr_wait_loop.simps [simp del]

text \<open>A call, with the rounds it may take, and its result with the edges it has read.\<close>

record thr_call =
  wc_timeout_ms :: int
  wc_start_ms :: u64
  wc_rounds :: "thr_round list"

definition thr_gpiod_wait_event ::
  "thr_call \<Rightarrow> thr_gpiod \<Rightarrow> ((int \<times> gpio_event option) \<times> gpiod_edge list \<times> thr_gpiod) option" where
  "thr_gpiod_wait_event c s =
     (case tg_request s of
        None \<Rightarrow> Some ((-1, None), [], s)
      | Some fd \<Rightarrow> thr_wait_loop fd (wc_timeout_ms c) (wc_start_ms c) (wc_rounds c) s)"

section \<open>The driver for tests\<close>

text \<open>
  Edges are injected into a queue and processed by \<open>wait_event\<close>. \<open>tm_closed\<close> are the descriptors for
  which \<open>close\<close> has been called.
\<close>

record thr_gmock = thr_buttons +
  tm_notify_fd :: int
  tm_notify_write_fd :: int
  tm_notified :: nat
  tm_edges :: "mock_edge ring"
  tm_line_values :: "int list"
  tm_hw_debounce :: bool
  tm_closed :: "int list"

definition thr_mock_reset :: "thr_gmock \<Rightarrow> thr_gmock" where
  "thr_mock_reset s =
     s\<lparr>tb_press_time_ms := replicate GPIO_NUM_BUTTONS 0, tb_last_edge_ms := replicate GPIO_NUM_BUTTONS 0,
       tb_pressed := replicate GPIO_NUM_BUTTONS False,
       tm_edges := (tm_edges s)\<lparr>head := 0, tail := 0, count := 0\<rparr>,
       tb_pending := (tb_pending s)\<lparr>head := 0, tail := 0, count := 0\<rparr>\<rparr>"

definition thr_mock_signal :: "thr_gmock \<Rightarrow> thr_gmock" where
  "thr_mock_signal s = (if tm_notify_write_fd s \<ge> 0 then s\<lparr>tm_notified := tm_notified s + 1\<rparr> else s)"

definition thr_mock_drain :: "thr_gmock \<Rightarrow> thr_gmock" where
  "thr_mock_drain s = (if tm_notify_fd s < 0 then s else s\<lparr>tm_notified := 0\<rparr>)"

definition thr_mock_push_edge :: "mock_edge \<Rightarrow> thr_gmock \<Rightarrow> thr_gmock" where
  "thr_mock_push_edge e s = s\<lparr>tm_edges := ring_push MAX_EDGE_EVENTS e (tm_edges s)\<rparr>"

definition thr_mock_pop_edge :: "thr_gmock \<Rightarrow> mock_edge option \<times> thr_gmock" where
  "thr_mock_pop_edge s = (let (e, q) = ring_pop MAX_EDGE_EVENTS (tm_edges s) in (e, s\<lparr>tm_edges := q\<rparr>))"

definition thr_mock_process :: "mock_edge \<Rightarrow> thr_gmock \<Rightarrow> thr_gmock" where
  "thr_mock_process e s =
     (if me_line e < 0 \<or> me_line e \<ge> int GPIO_NUM_BUTTONS then s
      else
        let line = nat (me_line e) in
        if tb_debounced line (me_timestamp_ns e div 1000000) s then s
        else tb_line line (mock_edge_level e) (me_timestamp_ns e)
               (s\<lparr>tm_line_values := (tm_line_values s)[line := mock_edge_level e]\<rparr>))"

text \<open>Closing the descriptors, at the start and at the end.\<close>

definition thr_mock_close :: "thr_gmock \<Rightarrow> thr_gmock" where
  "thr_mock_close s =
     (let s = (if tm_notify_fd s \<ge> 0
               then s\<lparr>tm_closed := tm_closed s @ [tm_notify_fd s], tm_notify_fd := -1\<rparr> else s)
      in if tm_notify_write_fd s \<ge> 0 \<and> tm_notify_write_fd s \<noteq> tm_notify_fd s
         then s\<lparr>tm_closed := tm_closed s @ [tm_notify_write_fd s], tm_notify_write_fd := -1\<rparr> else s)"

text \<open>\<open>efd\<close> is what \<open>eventfd\<close> returns.\<close>

definition thr_mock_init :: "int \<Rightarrow> thr_gmock \<Rightarrow> int \<times> thr_gmock" where
  "thr_mock_init efd s =
     (let s = thr_mock_reset s;
          s = s\<lparr>tb_pressed_level := mock_detect_pressed_level (tm_line_values s)\<rparr>;
          s = s\<lparr>tb_use_soft_debounce := \<not> tm_hw_debounce s\<rparr>;
          s = thr_mock_close s;
          s = s\<lparr>tm_notify_fd := efd, tm_notified := 0\<rparr>;
          s = s\<lparr>tm_notify_write_fd := tm_notify_fd s\<rparr>
      in (if tm_notify_fd s \<ge> 0 then 0 else -1, s))"

definition thr_mock_cleanup :: "thr_gmock \<Rightarrow> thr_gmock" where
  "thr_mock_cleanup s = thr_mock_reset (thr_mock_close s)"

definition thr_mock_inject_edge :: "int \<Rightarrow> bool \<Rightarrow> u64 \<Rightarrow> thr_gmock \<Rightarrow> thr_gmock" where
  "thr_mock_inject_edge line falling ts s =
     thr_mock_signal (thr_mock_push_edge \<lparr>me_line = line, me_falling = falling, me_timestamp_ns = ts\<rparr> s)"

definition thr_mock_set_line_value :: "int \<Rightarrow> int \<Rightarrow> thr_gmock \<Rightarrow> thr_gmock" where
  "thr_mock_set_line_value line v s =
     (if line < 0 \<or> line \<ge> int GPIO_NUM_BUTTONS then s
      else s\<lparr>tm_line_values := (tm_line_values s)[nat line := (if v \<noteq> 0 then 1 else 0)]\<rparr>)"

definition thr_mock_clear_events :: "thr_gmock \<Rightarrow> thr_gmock" where
  "thr_mock_clear_events s =
     thr_mock_drain (s\<lparr>tm_edges := (tm_edges s)\<lparr>head := 0, tail := 0, count := 0\<rparr>,
                      tb_pending := (tb_pending s)\<lparr>head := 0, tail := 0, count := 0\<rparr>\<rparr>)"

definition thr_mock_pending_count :: "thr_gmock \<Rightarrow> nat" where
  "thr_mock_pending_count s = ring.count (tm_edges s)"

definition thr_mock_get_fd :: "thr_gmock \<Rightarrow> int" where
  "thr_mock_get_fd s = tm_notify_fd s"

definition thr_mock_set_debounce :: "bool \<Rightarrow> thr_gmock \<Rightarrow> thr_gmock" where
  "thr_mock_set_debounce supported s =
     s\<lparr>tm_hw_debounce := supported, tb_use_soft_debounce := \<not> supported\<rparr>"

lemma thr_mock_process_edges [simp]: "tm_edges (thr_mock_process e s) = tm_edges s"
  by (simp add: thr_mock_process_def tb_line_def tb_release_def tb_push_def Let_def)

function thr_mock_drain_edges :: "thr_gmock \<Rightarrow> thr_gmock" where
  "thr_mock_drain_edges s =
     (case thr_mock_pop_edge s of
        (None, s) \<Rightarrow> s
      | (Some e, s) \<Rightarrow> thr_mock_drain_edges (thr_mock_process e s))"
  by auto

termination
  by (relation "measure (\<lambda>s. ring.count (tm_edges s))")
    (auto simp: thr_mock_pop_edge_def ring_pop_def split: if_splits)

declare thr_mock_drain_edges.simps [simp del]

text \<open>A round: the clock, what \<open>poll\<close> returns, and what other threads have done meanwhile.\<close>

record thr_mock_round =
  mr_now_ms :: u64
  mr_ready :: "int \<Rightarrow> int"
  mr_inject :: "thr_gmock \<Rightarrow> thr_gmock"

fun thr_mock_wait_event ::
  "int \<Rightarrow> u64 \<Rightarrow> thr_mock_round list \<Rightarrow> thr_gmock \<Rightarrow> ((int \<times> gpio_event option) \<times> thr_gmock) option" where
  "thr_mock_wait_event timeout_ms start_ms rounds s =
     (case tb_pop s of
        (Some ev, s) \<Rightarrow> Some ((1, Some ev), s)
      | (None, s) \<Rightarrow>
          if tm_notify_fd s < 0 then Some ((-1, None), s)
          else
            (case rounds of
               [] \<Rightarrow> None
             | r # rounds \<Rightarrow>
                 (case effective_wait timeout_ms start_ms (mr_now_ms r) of
                    None \<Rightarrow> Some ((0, None), s)
                  | Some effective_timeout \<Rightarrow>
                      let ret = mr_ready r effective_timeout; s = mr_inject r s in
                      if ret = 0 then Some ((0, None), s)
                      else if ret < 0 then Some ((-1, None), s)
                      else
                        (case tb_pop (thr_mock_drain_edges (thr_mock_drain s)) of
                           (Some ev, s) \<Rightarrow> Some ((1, Some ev), s)
                         | (None, s) \<Rightarrow> thr_mock_wait_event timeout_ms start_ms rounds s))))"

declare thr_mock_wait_event.simps [simp del]

section \<open>The loop that takes events from a driver\<close>

text \<open>
  \<open>wait_event\<close> is called until it has no event, or 16 times. Given the environments of the calls and
  the times read after them, the result is the list of the calls that returned, and the state of
  the driver, \<open>None\<close> if the next call does not return.
\<close>

fun gpio_poll ::
  "('e \<Rightarrow> 's \<Rightarrow> ((int \<times> gpio_event option) \<times> 's) option) \<Rightarrow> nat \<Rightarrow> ('e \<times> u64) list \<Rightarrow> 's \<Rightarrow>
   (int \<times> gpio_event \<times> u64) list \<times> 's option" where
  "gpio_poll wait_event handled es s =
     (if handled \<ge> MAX_GPIO_EVENTS_PER_POLL then ([], Some s)
      else case es of
             [] \<Rightarrow> ([], None)
           | (e, now) # es \<Rightarrow>
               (case wait_event e s of
                  None \<Rightarrow> ([], None)
                | Some ((ret, ev), s) \<Rightarrow>
                    let call = (ret, case ev of Some v \<Rightarrow> v | None \<Rightarrow> zero_event, now) in
                    if ret > 0 then
                      let (calls, s) = gpio_poll wait_event (handled + 1) es s in (call # calls, s)
                    else ([call], Some s)))"

declare gpio_poll.simps [simp del]

end
