(* ===== verification/Thr_Presses.thy ===== *)
theory Thr_Presses
  imports Thr_Gpio
begin

text \<open>
  What the GPIO drivers of the threaded version report: every press that the driver over libgpiod
  reads gives its event, and none is dropped; what the loop of the main thread relies on is the
  locale \<open>thr_gpio_driver\<close>, which both drivers implement.
\<close>

section \<open>Edges and events\<close>

definition line_edges :: "gpiod_edge list \<Rightarrow> line_edge list" where
  "line_edges ds = concat (map (\<lambda>d.
     case first_index (\<lambda>b. b = edge_offset d) g_btn_offsets of
       None \<Rightarrow> []
     | Some line \<Rightarrow> [(line, edge_level d, edge_timestamp_ns d)]) ds)"

lemma line_edges_append [simp]: "line_edges (ds @ ds') = line_edges ds @ line_edges ds'"
  by (simp add: line_edges_def)

lemma line_edges_Nil [simp]: "line_edges [] = []"
  by (simp add: line_edges_def)

lemma line_edges_ok: "list_all (\<lambda>(line, _). line < GPIO_NUM_BUTTONS) (line_edges ds)"
  by (induction ds) (auto simp: line_edges_def dest!: btn_line split: option.splits)

lemma length_line_edges: "length (line_edges ds) \<le> length ds"
  by (induction ds) (simp_all add: line_edges_def split: option.split)

lemma process_edges_fold: "fold thr_process_edge_event ds s = fold tb_edge (line_edges ds) s"
  by (induction ds arbitrary: s) (simp_all add: line_edges_def thr_process_edge_event_def split: option.split)

text \<open>The events of edges, in the state in which they arrive.\<close>

definition events_of :: "'a thr_buttons_scheme \<Rightarrow> line_edge list \<Rightarrow> gpio_event list" where
  "events_of s es = fst (press_events (tb_pressed_level s) (accepted_edges s es) (held_since s))"

lemma press_events_append:
  "press_events L (xs @ ys) h =
     (let (evs, h) = press_events L xs h; (evs', h) = press_events L ys h in (evs @ evs', h))"
  by (induction L xs h rule: press_events.induct)
    (simp_all add: Let_def case_prod_beta split: option.split)

lemma accepted_edges_append:
  assumes "tb_ok s" and "list_all (\<lambda>(line, _). line < GPIO_NUM_BUTTONS) xs"
  shows "accepted_edges s (xs @ ys) = accepted_edges s xs @ accepted_edges (fold tb_edge xs s) ys"
  using assms
proof (induction xs arbitrary: s)
  case Nil
  then show ?case by (simp add: accepted_edges_def)
next
  case (Cons x xs)
  obtain line v ts where x: "x = (line, v, ts)" by (cases x)
  have line: "line < GPIO_NUM_BUTTONS" using Cons.prems(2) by (simp add: x)
  have "accepted_edges (tb_line line v ts s) (xs @ ys) =
      accepted_edges (tb_line line v ts s) xs @ accepted_edges (fold tb_edge xs (tb_line line v ts s)) ys"
    using Cons.prems by (intro Cons.IH tb_ok_steps(1)[OF _ line]) simp_all
  then show ?case
    using accepted_edges_step[OF line Cons.prems(1), of v ts]
    by (cases "tb_debounced line (ts div 1000000) s") (simp_all add: x tb_line_debounced)
qed

lemma fold_tb_edge_level [simp]: "tb_pressed_level (fold tb_edge es s) = tb_pressed_level s"
proof (induction es arbitrary: s)
  case (Cons e es)
  then show ?case by (cases e) simp
qed simp

lemma events_of_append:
  assumes "tb_ok s" and "list_all (\<lambda>(line, _). line < GPIO_NUM_BUTTONS) xs"
  shows "events_of s (xs @ ys) = events_of s xs @ events_of (fold tb_edge xs s) ys"
  using tb_edges_refine(3)[OF assms]
  by (simp add: events_of_def accepted_edges_append[OF assms] press_events_append Let_def case_prod_beta)

lemma length_press_events: "length (fst (press_events L es h)) \<le> length es"
  by (induction L es h rule: press_events.induct) (auto simp: Let_def case_prod_beta split: option.split)

lemma length_undebounced: "length (undebounced lst es) \<le> length es"
  by (induction lst es rule: undebounced.induct) auto

lemma length_events_of: "length (events_of s es) \<le> length es"
  using length_press_events[of "tb_pressed_level s" "accepted_edges s es" "held_since s"]
    length_undebounced[of "tb_last_edge_ms s" es]
  by (auto simp: events_of_def accepted_edges_def split: if_splits)

text \<open>The events do not depend on the queue.\<close>

lemma tb_pop_sel [simp]:
  "tb_pressed_level (snd (tb_pop s)) = tb_pressed_level s"
  "tb_use_soft_debounce (snd (tb_pop s)) = tb_use_soft_debounce s"
  "tb_press_time_ms (snd (tb_pop s)) = tb_press_time_ms s"
  "tb_last_edge_ms (snd (tb_pop s)) = tb_last_edge_ms s"
  "tb_pressed (snd (tb_pop s)) = tb_pressed s"
  "thr_buttons.more (snd (tb_pop s)) = thr_buttons.more s"
  by (simp_all add: tb_pop_def case_prod_beta)

lemma held_since_pop [simp]: "held_since (snd (tb_pop s)) = held_since s"
  unfolding held_since_def tb_pop_sel ..

lemma events_of_pop [simp]: "events_of (snd (tb_pop s)) es = events_of s es"
  by (simp add: events_of_def accepted_edges_def)

abbreviation queued :: "'a thr_buttons_scheme \<Rightarrow> gpio_event list" where
  "queued s \<equiv> ring_items MAX_PENDING_EVENTS (tb_pending s)"

lemma tb_pop_result:
  assumes "tb_ok s"
  shows "queued s = [] \<Longrightarrow> tb_pop s = (None, s)"
    and "queued s = ev # evs \<Longrightarrow> fst (tb_pop s) = Some ev \<and> queued (snd (tb_pop s)) = evs"
  using pending.pop_none[OF tb_ok_parts(4)[OF assms]] pending.pop_some[OF tb_ok_parts(4)[OF assms]]
  by (simp_all add: tb_pop_def case_prod_beta)

lemma tb_pop_cases:
  assumes "tb_ok s"
  obtains (quiet) "queued s = []" "tb_pop s = (None, s)"
  | (event) ev where "fst (tb_pop s) = Some ev" "queued s = ev # queued (snd (tb_pop s))"
  using tb_pop_result[OF assms] by (cases "queued s") simp_all

lemma tb_pop_event:
  assumes "tb_ok s" and "fst (tb_pop s) = Some ev"
  shows "\<exists>i < GPIO_NUM_BUTTONS. \<exists>l t. ev = button_event i l t"
  using assms pending_pop_event[of "as_buttons s" ev] by (simp add: tb_ok_def as_buttons_steps)

section \<open>No event is lost\<close>

definition tb_alike :: "'a thr_buttons_scheme \<Rightarrow> 'b thr_buttons_scheme \<Rightarrow> bool" where
  "tb_alike s t \<longleftrightarrow> tb_pressed_level s = tb_pressed_level t \<and>
     tb_use_soft_debounce s = tb_use_soft_debounce t \<and> tb_press_time_ms s = tb_press_time_ms t \<and>
     tb_last_edge_ms s = tb_last_edge_ms t \<and> tb_pressed s = tb_pressed t"

lemma tb_alike_line: "tb_alike s t \<Longrightarrow> tb_alike (tb_line line v ts s) (tb_line line v ts t)"
  by (simp add: tb_alike_def tb_line_def tb_debounced_def tb_release_def tb_push_def Let_def)

lemma tb_alike_fold: "tb_alike s t \<Longrightarrow> tb_alike (fold tb_edge es s) (fold tb_edge es t)"
proof (induction es arbitrary: s t)
  case (Cons e es)
  then show ?case by (cases e) (simp add: tb_alike_line)
qed simp

lemma tb_alike_trans: "tb_alike s t \<Longrightarrow> tb_alike t u \<Longrightarrow> tb_alike s u"
  by (simp add: tb_alike_def)

lemma tb_alike_pop: "tb_alike (snd (tb_pop s)) s"
  by (simp add: tb_alike_def)

lemma events_of_alike:
  assumes "tb_alike s t"
  shows "events_of s es = events_of t es"
proof -
  have h: "held_since s = held_since t"
    unfolding held_since_def using assms by (simp add: tb_alike_def)
  show ?thesis using assms by (simp add: events_of_def accepted_edges_def tb_alike_def h)
qed

text \<open>libgpiod returns no more than the 16 edges that the code asks for.\<close>

definition reads_small :: "thr_round list \<Rightarrow> bool" where
  "reads_small rs \<longleftrightarrow> list_all (\<lambda>r. \<forall>ds. tr_read r = Some (Read_Edges ds) \<longrightarrow> length ds \<le> 16) rs"

abbreviation one_event :: "gpio_event option \<Rightarrow> gpio_event list" where
  "one_event ev \<equiv> (case ev of None \<Rightarrow> [] | Some v \<Rightarrow> [v])"

text \<open>What a part of a call from \<open>s\<close> to \<open>s'\<close> that reads \<open>ds\<close> and reports \<open>ev\<close> does.\<close>

definition waited ::
  "'a thr_buttons_scheme \<Rightarrow> int \<Rightarrow> gpio_event option \<Rightarrow> gpiod_edge list \<Rightarrow> 'a thr_buttons_scheme \<Rightarrow> bool" where
  "waited s ret ev ds s' \<longleftrightarrow> tb_ok s' \<and> thr_buttons.more s' = thr_buttons.more s \<and>
     (ret = 1 \<longleftrightarrow> ev \<noteq> None) \<and> ret \<le> 1 \<and> tb_alike s' (fold tb_edge (line_edges ds) s) \<and>
     (\<forall>v. ev = Some v \<longrightarrow> (\<exists>i < GPIO_NUM_BUTTONS. \<exists>l t. v = button_event i l t)) \<and>
     one_event ev @ queued s' = queued s @ events_of s (line_edges ds)"

lemma events_of_Nil [simp]: "events_of s [] = []"
  by (simp add: events_of_def accepted_edges_def)

lemma fold_tb_edge_more [simp]: "thr_buttons.more (fold tb_edge es s) = thr_buttons.more s"
proof (induction es arbitrary: s)
  case (Cons e es)
  then show ?case by (cases e) simp
qed simp

lemma waited_nothing: "tb_ok s \<Longrightarrow> ret \<le> 0 \<Longrightarrow> waited s ret None [] s"
  by (simp add: waited_def tb_alike_def)

lemma waited_pop:
  assumes "tb_ok s" and "tb_pop s = (Some ev, s')"
  shows "waited s 1 (Some ev) [] s'"
proof -
  have s': "s' = snd (tb_pop s)" and ev: "fst (tb_pop s) = Some ev" by (simp_all add: assms(2))
  have "queued s = ev # queued s'"
    using assms(1) by (cases rule: tb_pop_cases) (simp_all add: assms(2))
  then show ?thesis using tb_pop_event[OF assms(1) ev] tb_ok_steps(2)[OF assms(1)]
    by (simp add: waited_def s' tb_alike_pop)
qed

lemma read_edges:
  assumes "tb_ok s" and "queued s = []" and "tr_read r = Some (Read_Edges ds)" and "length ds \<le> 16"
  defines "f \<equiv> fold tb_edge (line_edges ds) s"
  shows "read_and_process_edges r s =
      Some ((if fst (tb_pop f) \<noteq> None then 1 else 0, fst (tb_pop f)), ds, snd (tb_pop f))"
    and "tb_ok f" and "queued f = events_of s (line_edges ds)"
proof -
  show "read_and_process_edges r s =
      Some ((if fst (tb_pop f) \<noteq> None then 1 else 0, fst (tb_pop f)), ds, snd (tb_pop f))"
    using assms(3) by (simp add: read_and_process_edges_def case_prod_beta process_edges_fold Let_def f_def)
  note refine = tb_edges_refine(1,2)[OF assms(1) line_edges_ok, of ds]
  show "tb_ok f" using refine(1) by (simp add: f_def)
  have "length (events_of s (line_edges ds)) \<le> MAX_PENDING_EVENTS"
    using length_events_of[of s "line_edges ds"] length_line_edges[of ds] assms(4) by simp
  then show "queued f = events_of s (line_edges ds)"
    using refine(2) assms(2) by (simp add: events_of_def f_def)
qed

lemma waited_read:
  assumes "tb_ok s" and "queued s = []" and "reads_small [r]"
    and "read_and_process_edges r s = Some ((ret, ev), ds, s')"
  shows "waited s ret ev ds s'"
proof (cases "\<exists>edges. tr_read r = Some (Read_Edges edges)")
  case False
  then obtain b where "tr_read r = Some (Read_Error b)"
    using assms(4) by (cases "tr_read r"; cases "the (tr_read r)") (auto simp: read_and_process_edges_def)
  then show ?thesis
    using assms(1,4) by (auto simp: read_and_process_edges_def intro!: waited_nothing)
next
  case True
  then obtain edges where edges: "tr_read r = Some (Read_Edges edges)" by blast
  let ?f = "fold tb_edge (line_edges edges) s"
  have "length edges \<le> 16" using assms(3) edges by (simp add: reads_small_def)
  note f = read_edges[OF assms(1,2) edges this]
  have r: "ds = edges" "s' = snd (tb_pop ?f)" "ev = fst (tb_pop ?f)" "ret = (if ev \<noteq> None then 1 else 0)"
    using assms(4) f(1) by auto
  have "one_event ev @ queued s' = queued ?f"
    using f(2) by (cases rule: tb_pop_cases) (simp_all add: r)
  then show ?thesis
    using tb_ok_steps(2)[OF f(2)] tb_pop_event[OF f(2)] tb_alike_pop[of ?f] assms(2) f(3)
    by (simp add: waited_def r)
qed

lemma waited_then:
  assumes "tb_ok s" and "waited s ret None ds s1" and "waited s1 ret' ev ds' s2"
  shows "waited s ret' ev (ds @ ds') s2"
proof -
  have a: "tb_alike s1 (fold tb_edge (line_edges ds) s)" using assms(2) by (simp add: waited_def)
  have "tb_alike s2 (fold tb_edge (line_edges ds') s1)" using assms(3) by (simp add: waited_def)
  then have "tb_alike s2 (fold tb_edge (line_edges (ds @ ds')) s)"
    using tb_alike_trans[OF _ tb_alike_fold[OF a]] by simp
  moreover have "events_of s (line_edges (ds @ ds')) = events_of s (line_edges ds) @ events_of s1 (line_edges ds')"
    using events_of_append[OF assms(1) line_edges_ok] events_of_alike[OF a] by simp
  ultimately show ?thesis using assms(2,3) by (simp add: waited_def)
qed

lemma reads_small_Cons: "reads_small (r # rs) \<longleftrightarrow> reads_small [r] \<and> reads_small rs"
  by (simp add: reads_small_def)

lemma waited_loop:
  assumes "tb_ok s" and "reads_small rs" and "thr_wait_loop fd tmo st rs s = Some ((ret, ev), ds, s')"
  shows "waited s ret ev ds s'"
  using assms
proof (induction rs arbitrary: s ret ev ds s')
  case Nil
  then show ?case
    by (auto simp: thr_wait_loop.simps[of fd tmo st "[]"] waited_pop split: prod.splits option.splits)
next
  case (Cons r rs)
  note small = Cons.prems(2)[unfolded reads_small_Cons[of r rs]]
  from Cons.prems(1) show ?case
  proof (cases rule: tb_pop_cases)
    case (event v)
    then obtain s1 where s1: "tb_pop s = (Some v, s1)" by (cases "tb_pop s") simp
    then show ?thesis
      using Cons.prems(1,3) by (auto simp: thr_wait_loop.simps[of fd tmo st "r # rs"] intro!: waited_pop)
  next
    case quiet
    note read = waited_read[OF Cons.prems(1) quiet(1) conjunct1[OF small]]
    note loop = Cons.prems(3)[unfolded thr_wait_loop.simps[of fd tmo st "r # rs"], simplified quiet(2) prod.case option.case list.case]
    show ?thesis
    proof (cases "tmo = 0")
      case True
      then show ?thesis using loop read by simp
    next
      case False
      show ?thesis
      proof (cases "effective_wait tmo st (tr_now_ms r)")
        case None
        then show ?thesis using loop False Cons.prems(1) by (auto intro!: waited_nothing)
      next
        case (Some eff)
        show ?thesis
        proof (cases "wait_for_edge_event fd eff r \<le> 0")
          case True
          then show ?thesis using loop False Some Cons.prems(1) by (auto intro!: waited_nothing)
        next
          case False
          then obtain p v ds1 s1 where r: "read_and_process_edges r s = Some ((p, v), ds1, s1)"
            using loop \<open>tmo \<noteq> 0\<close> Some by (auto split: option.splits)
          note w = read[OF r]
          consider "p < 0" | "p > 0" | "p = 0" by linarith
          then show ?thesis
          proof cases
            case 1
            then have "ret = -1" "ev = None" "ds = ds1" "s' = s1"
              using loop \<open>tmo \<noteq> 0\<close> Some False r by auto
            then show ?thesis using w 1 by (auto simp: waited_def)
          next
            case 2
            then show ?thesis using loop \<open>tmo \<noteq> 0\<close> Some False r w by (auto simp: waited_def)
          next
            case 3
            then have n: "v = None" using w by (auto simp: waited_def)
            obtain ds2 where l: "thr_wait_loop fd tmo st rs s1 = Some ((ret, ev), ds2, s')" "ds = ds1 @ ds2"
              using loop \<open>tmo \<noteq> 0\<close> Some False r 3 by auto
            have "tb_ok s1" using w by (simp add: waited_def)
            from Cons.IH[OF this conjunct2[OF small] l(1)] show ?thesis
              using waited_then[OF Cons.prems(1) w[unfolded n]] by (simp add: l(2))
          qed
        qed
      qed
    qed
  qed
qed

text \<open>A sequence of calls: the events returned and the edges read, \<open>None\<close> if one does not return.\<close>

fun thr_gpiod_calls :: "thr_call list \<Rightarrow> thr_gpiod \<Rightarrow> (gpio_event list \<times> gpiod_edge list \<times> thr_gpiod) option" where
  "thr_gpiod_calls [] s = Some ([], [], s)"
| "thr_gpiod_calls (c # cs) s =
     (case thr_gpiod_wait_event c s of
        None \<Rightarrow> None
      | Some ((_, ev), ds, s) \<Rightarrow>
          map_option (\<lambda>(evs, ds', s). (one_event ev @ evs, ds @ ds', s)) (thr_gpiod_calls cs s))"

lemma waited_call:
  assumes "tb_ok s" and "reads_small (wc_rounds c)" and "thr_gpiod_wait_event c s = Some ((ret, ev), ds, s')"
  shows "waited s ret ev ds s'"
proof (cases "tg_request s")
  case None
  then have "ret = -1" "ev = None" "ds = []" "s' = s" using assms(3) by (auto simp: thr_gpiod_wait_event_def)
  then show ?thesis using assms(1) by (simp add: waited_nothing)
next
  case (Some fd)
  have "thr_wait_loop fd (wc_timeout_ms c) (wc_start_ms c) (wc_rounds c) s = Some ((ret, ev), ds, s')"
    using assms(3) Some by (simp add: thr_gpiod_wait_event_def)
  then show ?thesis by (rule waited_loop[OF assms(1,2)])
qed

lemma calls_exact:
  assumes "tb_ok s" and "list_all (\<lambda>c. reads_small (wc_rounds c)) cs" and "thr_gpiod_calls cs s = Some (evs, ds, s')"
  shows "evs @ queued s' = queued s @ events_of s (line_edges ds) \<and> tb_ok s' \<and>
    thr_buttons.more s' = thr_buttons.more s"
  using assms
proof (induction cs arbitrary: s evs ds)
  case (Cons c cs)
  obtain ret ev ds1 s1 where c: "thr_gpiod_wait_event c s = Some ((ret, ev), ds1, s1)"
    using Cons.prems(3) by (auto split: option.splits)
  obtain evs2 ds2 where cs: "thr_gpiod_calls cs s1 = Some (evs2, ds2, s')" "evs = one_event ev @ evs2" "ds = ds1 @ ds2"
    using Cons.prems(3) c by auto
  have w: "waited s ret ev ds1 s1"
    by (rule waited_call[OF Cons.prems(1) _ c]) (use Cons.prems(2) in simp)
  then have ok: "tb_ok s1" and a: "tb_alike s1 (fold tb_edge (line_edges ds1) s)"
    and e: "one_event ev @ queued s1 = queued s @ events_of s (line_edges ds1)"
    and m: "thr_buttons.more s1 = thr_buttons.more s"
    by (simp_all add: waited_def)
  have "evs2 @ queued s' = queued s1 @ events_of s1 (line_edges ds2) \<and> tb_ok s' \<and>
      thr_buttons.more s' = thr_buttons.more s1"
    by (rule Cons.IH[OF ok _ cs(1)]) (use Cons.prems(2) in simp)
  moreover have "events_of s (line_edges ds) = events_of s (line_edges ds1) @ events_of s1 (line_edges ds2)"
    using events_of_append[OF Cons.prems(1) line_edges_ok] events_of_alike[OF a] by (simp add: cs(3))
  ultimately show ?case using e m by (simp add: cs(2))
qed simp

section \<open>Start and end\<close>

lemma thr_gpiod_init_cases:
  obtains (failed) "fst (thr_gpiod_init e s) = -1" "\<not> tg_chip (snd (thr_gpiod_init e s))"
      "tg_request (snd (thr_gpiod_init e s)) = None \<or> tg_request (snd (thr_gpiod_init e s)) = tg_request s \<and> \<not> chip_ok e"
  | (started) "fst (thr_gpiod_init e s) = 0" "tg_chip (snd (thr_gpiod_init e s))"
      "tg_request (snd (thr_gpiod_init e s)) = Some (request_fd e)" "tg_event_buf (snd (thr_gpiod_init e s))"
      "tb_pressed_level (snd (thr_gpiod_init e s)) = detect_pressed_level (line_values e)"
      "tb_use_soft_debounce (snd (thr_gpiod_init e s)) = (\<not> debounce_request_ok e)"
      "snd (thr_gpiod_init e s) = (tb_reset s)\<lparr>tg_chip := True, tg_request := Some (request_fd e),
        tb_use_soft_debounce := \<not> debounce_request_ok e, tg_event_buf := True,
        tb_pressed_level := detect_pressed_level (line_values e)\<rparr>"
proof (cases "fst (thr_gpiod_init e s) = 0")
  case True
  then have "chip_ok e" "event_buf_ok e" "\<not> detect_pressed_level (line_values e) < 0"
    "debounce_request_ok e \<or> debounce_unsupported e \<and> plain_request_ok e"
    by (auto simp: thr_gpiod_init_def Let_def split: if_splits)
  then have "snd (thr_gpiod_init e s) = (tb_reset s)\<lparr>tg_chip := True, tg_request := Some (request_fd e),
        tb_use_soft_debounce := \<not> debounce_request_ok e, tg_event_buf := True,
        tb_pressed_level := detect_pressed_level (line_values e)\<rparr>"
    by (cases "debounce_request_ok e") (simp_all add: thr_gpiod_init_def Let_def)
  then show ?thesis using True by (intro started) simp_all
next
  case False
  then show ?thesis
    by (intro failed) (auto simp: thr_gpiod_init_def tb_reset_def Let_def split: if_splits)
qed

text \<open>After a successful start nothing is held and nothing queued; a failed one keeps no object of the library.\<close>

lemma thr_gpiod_started:
  assumes "thr_gpiod_init e s0 = (0, s)"
  shows "tb_ok s" "queued s = []" "held_since s = [None, None, None]" "tb_last_edge_ms s = [0, 0, 0]"
    "tb_pressed_level s = detect_pressed_level (line_values e)"
    "tb_use_soft_debounce s = (\<not> debounce_request_ok e)" "tg_request s = Some (request_fd e)"
proof -
  have s: "s = (tb_reset s0)\<lparr>tg_chip := True, tg_request := Some (request_fd e),
        tb_use_soft_debounce := \<not> debounce_request_ok e, tg_event_buf := True,
        tb_pressed_level := detect_pressed_level (line_values e)\<rparr>"
    by (cases rule: thr_gpiod_init_cases[of e s0]) (simp_all add: assms)
  then show "tb_ok s" using tb_ok_steps(3)[of s0] by (simp add: tb_ok_def buttons_ok_def as_buttons_def)
  have p: "tb_pressed s = replicate GPIO_NUM_BUTTONS False" by (simp add: s tb_reset_def)
  show "held_since s = [None, None, None]"
    unfolding held_since_def p by (simp add: upt_rec numeral_nat)
  show "queued s = []" "tb_last_edge_ms s = [0, 0, 0]" "tb_pressed_level s = detect_pressed_level (line_values e)"
    "tb_use_soft_debounce s = (\<not> debounce_request_ok e)" "tg_request s = Some (request_fd e)"
    by (simp_all add: s tb_reset_def numeral_nat)
qed

section \<open>The interface\<close>

text \<open>What the loop puts into the event queue.\<close>

definition gpio_app_event :: "int \<times> gpio_event \<times> u64 \<Rightarrow> app_event" where
  "gpio_app_event c = (case c of (_, v, now) \<Rightarrow>
     \<lparr>evt_type = to_app_event_type (ev_type v), evt_line = ev_line v, evt_timestamp_ns = now, evt_data = 0\<rparr>)"

lemma button_app_event: "i < GPIO_NUM_BUTTONS \<Longrightarrow> to_app_event_type (ev_type (button_event i l t)) \<noteq> EVT_NONE"
  by (auto simp: button_event_def to_button_event_def numeral_nat less_Suc_eq split: nat.split)

lemma gpio_events_push:
  assumes "n + length calls \<le> MAX_GPIO_EVENTS_PER_POLL"
    and "list_all (\<lambda>(ret, v, _). ret > 0 \<and> (\<exists>i < GPIO_NUM_BUTTONS. \<exists>l t. v = button_event i l t)) calls"
    and "later = [] \<or> fst (later ! 0) \<le> 0"
  shows "gpio_events n (calls @ later) loop = fold push_loop (map gpio_app_event calls) loop"
  using assms
proof (induction calls arbitrary: n loop)
  case Nil
  then show ?case by (cases later) (auto simp: case_prod_beta)
next
  case (Cons c calls)
  obtain ret v now where c: "c = (ret, v, now)" by (cases c)
  have "to_app_event_type (ev_type v) \<noteq> EVT_NONE"
    using Cons.prems(2) button_app_event by (auto simp: c)
  then show ?case using Cons by (simp add: c gpio_app_event_def)
qed

lemma poll_shape:
  "\<exists>got later. fst (gpio_poll wait n es s) = got @ later \<and> list_all (\<lambda>(ret, _). ret > 0) got \<and>
    (later = [] \<or> (\<exists>c. later = [c] \<and> fst c \<le> 0))"
proof (induction es arbitrary: n s)
  case Nil
  then show ?case by (simp add: gpio_poll.simps[of wait n "[]"])
next
  case (Cons x es)
  obtain e now where x: "x = (e, now)" by (cases x)
  note def = gpio_poll.simps[of wait n "(e, now) # es" s]
  have "fst (gpio_poll wait n (x # es) s) = [] \<or>
      (\<exists>c. fst (gpio_poll wait n (x # es) s) = [c] \<and> fst c \<le> 0) \<or>
      (\<exists>ret c t. ret > 0 \<and> fst (gpio_poll wait n (x # es) s) = (ret, c) # fst (gpio_poll wait (n + 1) es t))"
  proof (cases "wait e s")
    case None
    then show ?thesis by (simp add: def x)
  next
    case (Some a)
    obtain ret ev t where "a = ((ret, ev), t)" by (cases a) auto
    then show ?thesis using Some by (cases "ret > 0") (auto simp: def x Let_def case_prod_beta)
  qed
  then consider "fst (gpio_poll wait n (x # es) s) = []"
    | c where "fst (gpio_poll wait n (x # es) s) = [c]" "fst c \<le> 0"
    | ret c t where "ret > 0" "fst (gpio_poll wait n (x # es) s) = (ret, c) # fst (gpio_poll wait (n + 1) es t)"
    by blast
  then show ?case
  proof cases
    case (3 ret c t)
    obtain got later where "fst (gpio_poll wait (n + 1) es t) = got @ later"
      "list_all (\<lambda>(ret, _). ret > 0) got" "later = [] \<or> (\<exists>c. later = [c] \<and> fst c \<le> 0)"
      using Cons.IH by blast
    then show ?thesis using 3 by (intro exI[of _ "(ret, c) # got"] exI[of _ later]) simp
  next
    case (2 c)
    then show ?thesis by (intro exI[of _ "[]"] exI[of _ "[c]"]) simp
  qed auto
qed

text \<open>
  What the loop relies on: \<open>wait_event\<close> returns 1 exactly with an event, which is one of the three
  buttons.
\<close>

locale thr_gpio_driver =
  fixes wait_event :: "'e \<Rightarrow> 's \<Rightarrow> ((int \<times> gpio_event option) \<times> 's) option"
    and inv :: "'s \<Rightarrow> bool"
    and env_ok :: "'e \<Rightarrow> bool"
  assumes wait: "inv s \<Longrightarrow> env_ok e \<Longrightarrow> wait_event e s = Some ((ret, ev), s') \<Longrightarrow>
      inv s' \<and> (ret = 1 \<longleftrightarrow> ev \<noteq> None) \<and> ret \<le> 1 \<and>
      (\<forall>v. ev = Some v \<longrightarrow> (\<exists>i < GPIO_NUM_BUTTONS. \<exists>l t. v = button_event i l t))"
begin

lemma poll_calls:
  assumes "inv s" and "list_all (\<lambda>(e, _). env_ok e) es"
    and "gpio_poll wait_event n es s = (calls, s')" and "n \<le> MAX_GPIO_EVENTS_PER_POLL"
  shows "pred_option inv s' \<and> n + length (filter (\<lambda>(ret, _). ret > 0) calls) \<le> MAX_GPIO_EVENTS_PER_POLL \<and>
    list_all (\<lambda>(ret, v, _). ret > 0 \<longrightarrow> (\<exists>i < GPIO_NUM_BUTTONS. \<exists>l t. v = button_event i l t)) calls"
  using assms
proof (induction es arbitrary: n s calls)
  case Nil
  then show ?case by (auto simp: gpio_poll.simps[of wait_event n "[]"] split: if_splits)
next
  case (Cons x es)
  obtain e now where x: "x = (e, now)" by (cases x)
  note def = gpio_poll.simps[of wait_event n "x # es" s]
  consider "n \<ge> MAX_GPIO_EVENTS_PER_POLL" | "n < MAX_GPIO_EVENTS_PER_POLL" "wait_event e s = None"
    | ret ev t where "n < MAX_GPIO_EVENTS_PER_POLL" "wait_event e s = Some ((ret, ev), t)"
    by (cases "n < MAX_GPIO_EVENTS_PER_POLL"; cases "wait_event e s") (auto simp: not_less)
  then show ?case
  proof cases
    case 1
    then show ?thesis using Cons.prems def by auto
  next
    case 2
    then show ?thesis using Cons.prems def by (auto simp: x)
  next
    case (3 ret ev t)
    have "env_ok e" using Cons.prems(2) by (simp add: x)
    note w = wait[OF Cons.prems(1) this 3(2)]
    show ?thesis
    proof (cases "ret > 0")
      case False
      then show ?thesis using Cons.prems def 3 w by (auto simp: x)
    next
      case True
      then have r: "ret = 1" and "ev \<noteq> None" using w by auto
      then obtain v where v: "ev = Some v" by blast
      obtain cs where cs: "gpio_poll wait_event (n + 1) es t = (cs, s')" "calls = (1, v, now) # cs"
        using Cons.prems(3) def 3 r v by (auto simp: x Let_def split: prod.splits)
      have n: "n + 1 \<le> MAX_GPIO_EVENTS_PER_POLL" using 3(1) by simp
      show ?thesis
        using Cons.IH[OF conjunct1[OF w] _ cs(1) n] Cons.prems(2) w by (simp add: cs(2) v)
    qed
  qed
qed

text \<open>Every event taken, at most 16, is put into the event queue, in order.\<close>

lemma poll_queues:
  assumes "inv s" and "list_all (\<lambda>(e, _). env_ok e) es"
  defines "calls \<equiv> fst (gpio_poll wait_event 0 es s)"
  defines "got \<equiv> filter (\<lambda>(ret, _). ret > 0) calls"
  shows "length got \<le> MAX_GPIO_EVENTS_PER_POLL \<and>
    event_loop_handle_gpio calls loop = fold push_loop (map gpio_app_event got) loop"
proof -
  obtain s' where "gpio_poll wait_event 0 es s = (calls, s')" by (cases "gpio_poll wait_event 0 es s") (simp add: calls_def)
  note c = poll_calls[OF assms(1,2) this]
  obtain xs ys where x: "calls = xs @ ys" "list_all (\<lambda>(ret, _). ret > 0) xs" "ys = [] \<or> (\<exists>c. ys = [c] \<and> fst c \<le> 0)"
    using poll_shape[of wait_event 0 es s] by (auto simp: calls_def)
  have "filter (\<lambda>(ret, _). ret > 0) xs = xs" "filter (\<lambda>(ret, _). ret > 0) ys = []"
    using x(2,3) by (auto simp: filter_id_conv list_all_iff)
  then have t: "got = xs" by (simp add: got_def x(1))
  have "length xs \<le> MAX_GPIO_EVENTS_PER_POLL" using c t by (simp add: got_def)
  moreover have "list_all (\<lambda>(ret, v, _). ret > 0 \<and> (\<exists>i < GPIO_NUM_BUTTONS. \<exists>l t. v = button_event i l t)) xs"
    using c x(1,2) by (fastforce simp: list_all_iff)
  moreover have "ys = [] \<or> fst (ys ! 0) \<le> 0" using x(3) by auto
  ultimately show ?thesis
    using gpio_events_push[of 0 xs ys loop] by (simp add: t event_loop_handle_gpio_def x(1))
qed

end

section \<open>Both drivers implement the interface\<close>

definition thr_gpiod_wait :: "thr_call \<Rightarrow> thr_gpiod \<Rightarrow> ((int \<times> gpio_event option) \<times> thr_gpiod) option" where
  "thr_gpiod_wait c s = map_option (\<lambda>(res, _, s). (res, s)) (thr_gpiod_wait_event c s)"

interpretation tgpiod: thr_gpio_driver thr_gpiod_wait tb_ok "\<lambda>c. reads_small (wc_rounds c)"
proof
  fix s s' :: thr_gpiod and c ret ev
  assume a: "tb_ok s" "reads_small (wc_rounds c)" "thr_gpiod_wait c s = Some ((ret, ev), s')"
  then obtain ds where "thr_gpiod_wait_event c s = Some ((ret, ev), ds, s')"
    by (auto simp: thr_gpiod_wait_def)
  from waited_call[OF a(1,2) this] show "tb_ok s' \<and> (ret = 1 \<longleftrightarrow> ev \<noteq> None) \<and> ret \<le> 1 \<and>
      (\<forall>v. ev = Some v \<longrightarrow> (\<exists>i < GPIO_NUM_BUTTONS. \<exists>l t. v = button_event i l t))"
    by (simp add: waited_def)
qed

definition thr_mock_ok :: "thr_gmock \<Rightarrow> bool" where
  [wf_defs]: "thr_mock_ok s \<longleftrightarrow> tb_ok s \<and> ring_ok MAX_EDGE_EVENTS (tm_edges s)"

text \<open>What other threads do keeps the state consistent, as the operations of the driver do.\<close>

definition thr_mock_env :: "int \<times> u64 \<times> thr_mock_round list \<Rightarrow> bool" where
  "thr_mock_env e \<longleftrightarrow> list_all (\<lambda>r. \<forall>s. thr_mock_ok s \<longrightarrow> thr_mock_ok (mr_inject r s)) (snd (snd e))"

definition thr_mock_wait ::
  "int \<times> u64 \<times> thr_mock_round list \<Rightarrow> thr_gmock \<Rightarrow> ((int \<times> gpio_event option) \<times> thr_gmock) option" where
  "thr_mock_wait e s = (case e of (tmo, st, rounds) \<Rightarrow> thr_mock_wait_event tmo st rounds s)"

lemma tb_ok_same:
  "tb_ok s \<Longrightarrow> tb_alike s' s \<Longrightarrow> tb_pending s' = tb_pending s \<Longrightarrow> tb_ok s'"
  by (simp add: tb_ok_def buttons_ok_def as_buttons_def tb_alike_def)

lemma thr_mock_ok_same:
  "thr_mock_ok s \<Longrightarrow> tb_alike s' s \<Longrightarrow> tb_pending s' = tb_pending s \<Longrightarrow> ring_ok MAX_EDGE_EVENTS (tm_edges s') \<Longrightarrow>
   thr_mock_ok s'"
  using tb_ok_same[of s s'] by (simp add: thr_mock_ok_def)

lemma thr_mock_inject_ok:
  assumes "thr_mock_ok s"
  shows "thr_mock_ok (thr_mock_inject_edge line falling ts s)"
proof -
  have "thr_mock_ok (thr_mock_push_edge e s)" for e
    by (rule thr_mock_ok_same[OF assms])
      (use assms in \<open>simp_all add: thr_mock_push_edge_def tb_alike_def edges.push_ok thr_mock_ok_def\<close>)
  moreover have "thr_mock_ok t \<Longrightarrow> thr_mock_ok (t\<lparr>tm_notified := n\<rparr>)" for t n
    by (rule thr_mock_ok_same[of t]) (simp_all add: tb_alike_def thr_mock_ok_def)
  ultimately show ?thesis by (simp add: thr_mock_inject_edge_def thr_mock_signal_def)
qed

lemma thr_mock_pop_ok:
  "thr_mock_ok s \<Longrightarrow> thr_mock_ok (snd (tb_pop s))"
  "thr_mock_ok s \<Longrightarrow> thr_mock_ok (snd (thr_mock_pop_edge s))"
  "thr_mock_ok s \<Longrightarrow> thr_mock_ok (thr_mock_drain s)"
proof -
  show "thr_mock_ok s \<Longrightarrow> thr_mock_ok (snd (tb_pop s))"
    using tb_ok_steps(2)[of s] by (simp add: thr_mock_ok_def tb_pop_def case_prod_beta)
  show "thr_mock_ok s \<Longrightarrow> thr_mock_ok (snd (thr_mock_pop_edge s))"
    by (rule thr_mock_ok_same[of s])
      (simp_all add: thr_mock_pop_edge_def case_prod_beta tb_alike_def edges.pop_ok thr_mock_ok_def)
  show "thr_mock_ok s \<Longrightarrow> thr_mock_ok (thr_mock_drain s)"
    by (rule thr_mock_ok_same[of s]) (simp_all add: thr_mock_drain_def tb_alike_def thr_mock_ok_def)
qed

lemma thr_mock_process_ok:
  assumes "thr_mock_ok s"
  shows "thr_mock_ok (thr_mock_process e s)"
proof -
  have "tb_ok (s\<lparr>tm_line_values := v\<rparr>)" for v
    by (rule tb_ok_same[of s]) (use assms in \<open>simp_all add: thr_mock_ok_def tb_alike_def\<close>)
  then have "tb_ok (thr_mock_process e s)"
    using assms by (auto simp: thr_mock_process_def Let_def thr_mock_ok_def intro!: tb_ok_steps(1))
  then show ?thesis using assms by (simp add: thr_mock_ok_def)
qed

lemma thr_mock_drain_edges_ok: "thr_mock_ok s \<Longrightarrow> thr_mock_ok (thr_mock_drain_edges s)"
proof (induction s rule: thr_mock_drain_edges.induct)
  case (1 s)
  obtain o' t where t: "thr_mock_pop_edge s = (o', t)" by force
  have ok: "thr_mock_ok t" using thr_mock_pop_ok(2)[OF "1.prems"] by (simp add: t)
  show ?case
  proof (cases o')
    case None
    then show ?thesis using ok t by (simp add: thr_mock_drain_edges.simps[of s])
  next
    case (Some e)
    then show ?thesis using "1.IH"[of o' t e] ok t thr_mock_process_ok
      by (simp add: thr_mock_drain_edges.simps[of s])
  qed
qed

lemma thr_mock_event:
  assumes "thr_mock_ok s" and "tb_pop s = (Some ev, s')"
  shows "thr_mock_ok s'" "\<exists>i < GPIO_NUM_BUTTONS. \<exists>l t. ev = button_event i l t"
  using thr_mock_pop_ok(1)[OF assms(1)] tb_pop_event[of s ev] assms by (simp_all add: thr_mock_ok_def)

lemma thr_mock_wait_ok:
  assumes "thr_mock_ok s" and "list_all (\<lambda>r. \<forall>s. thr_mock_ok s \<longrightarrow> thr_mock_ok (mr_inject r s)) rs"
    and "thr_mock_wait_event tmo st rs s = Some ((ret, ev), s')"
  shows "thr_mock_ok s' \<and> (ret = 1 \<longleftrightarrow> ev \<noteq> None) \<and> ret \<le> 1 \<and>
      (\<forall>v. ev = Some v \<longrightarrow> (\<exists>i < GPIO_NUM_BUTTONS. \<exists>l t. v = button_event i l t))"
  using assms
proof (induction rs arbitrary: s)
  case Nil
  obtain p t where t: "tb_pop s = (p, t)" by force
  then have "thr_mock_ok t" using thr_mock_pop_ok(1)[OF Nil.prems(1)] by simp
  then show ?case using Nil.prems t thr_mock_event(2)[OF Nil.prems(1)]
    by (cases p) (auto simp: thr_mock_wait_event.simps[of tmo st "[]"] split: if_splits)
next
  case (Cons r rs)
  obtain p t where t: "tb_pop s = (p, t)" by force
  then have ok: "thr_mock_ok t" using thr_mock_pop_ok(1)[OF Cons.prems(1)] by simp
  note call = Cons.prems(3)[unfolded thr_mock_wait_event.simps[of tmo st "r # rs"]]
  show ?case
  proof (cases "p = None \<and> \<not> tm_notify_fd t < 0")
    case False
    then show ?thesis using call t ok thr_mock_event(2)[OF Cons.prems(1)] by (cases p) auto
  next
    case True
    show ?thesis
    proof (cases "effective_wait tmo st (mr_now_ms r)")
      case None
      then show ?thesis using call True t ok by auto
    next
      case (Some eff)
      let ?s = "mr_inject r t"
      have inj: "thr_mock_ok ?s" using Cons.prems(2) ok by simp
      then have drained: "thr_mock_ok (thr_mock_drain_edges (thr_mock_drain ?s))"
        by (intro thr_mock_drain_edges_ok thr_mock_pop_ok(3))
      show ?thesis
      proof (cases "mr_ready r eff \<le> 0")
        case le: True
        have "(ret, ev) = ((if mr_ready r eff = 0 then 0 else -1), None) \<and> s' = ?s"
          using call True t Some le by (auto simp: Let_def split: if_splits)
        then show ?thesis using inj by auto
      next
        case gt: False
        obtain q u where u: "tb_pop (thr_mock_drain_edges (thr_mock_drain ?s)) = (q, u)" by force
        show ?thesis
        proof (cases q)
          case None
          have "thr_mock_ok u" using thr_mock_pop_ok(1)[OF drained] u by simp
          moreover have "thr_mock_wait_event tmo st rs u = Some ((ret, ev), s')"
            using call True t Some gt u None by (simp add: Let_def)
          ultimately show ?thesis using Cons.IH Cons.prems(2) by simp
        next
          case ev: (Some v)
          have "(ret, ev) = (1, Some v) \<and> s' = u" using call True t Some gt u ev by (simp add: Let_def)
          then show ?thesis using thr_mock_event[OF drained] u ev by auto
        qed
      qed
    qed
  qed
qed

interpretation tmock: thr_gpio_driver thr_mock_wait thr_mock_ok thr_mock_env
proof
  fix s s' and e :: "int \<times> u64 \<times> thr_mock_round list" and ret ev
  assume a: "thr_mock_ok s" "thr_mock_env e" "thr_mock_wait e s = Some ((ret, ev), s')"
  obtain tmo st rs where e: "e = (tmo, st, rs)" by (cases e)
  have b: "list_all (\<lambda>r. \<forall>s. thr_mock_ok s \<longrightarrow> thr_mock_ok (mr_inject r s)) rs"
    using a(2) by (simp add: thr_mock_env_def e)
  have c: "thr_mock_wait_event tmo st rs s = Some ((ret, ev), s')" using a(3) by (simp add: thr_mock_wait_def e)
  show "thr_mock_ok s' \<and> (ret = 1 \<longleftrightarrow> ev \<noteq> None) \<and> ret \<le> 1 \<and>
      (\<forall>v. ev = Some v \<longrightarrow> (\<exists>i < GPIO_NUM_BUTTONS. \<exists>l t. v = button_event i l t))"
    by (rule thr_mock_wait_ok[OF a(1) b c])
qed

text \<open>So the loop queues what the driver over libgpiod reports, whatever has happened before.\<close>

theorem gpiod_poll_queues:
  assumes "thr_gpiod_init e s0 = (0, s)" and "list_all (\<lambda>c. reads_small (wc_rounds c)) cs"
    and "thr_gpiod_calls cs s = Some (evs, ds, s1)" and "list_all (\<lambda>(c, _). reads_small (wc_rounds c)) es"
  defines "calls \<equiv> fst (gpio_poll thr_gpiod_wait 0 es s1)"
  defines "got \<equiv> filter (\<lambda>(ret, _). ret > 0) calls"
  shows "length got \<le> MAX_GPIO_EVENTS_PER_POLL \<and>
    event_loop_handle_gpio calls loop = fold push_loop (map gpio_app_event got) loop"
proof -
  have "tb_ok s1" using calls_exact[OF thr_gpiod_started(1)[OF assms(1)] assms(2,3)] by simp
  from tgpiod.poll_queues[OF this assms(4)] show ?thesis unfolding calls_def got_def .
qed

section \<open>Waiting in time\<close>

text \<open>
  A call with a time-out never waits beyond its deadline: it either ends, or waits for exactly
  the rest of its time, which is positive and at most the whole.
\<close>

theorem threaded_wait_in_time:
  assumes "0 \<le> timeout_ms" and "timeout_ms < 2 ^ 31" and "effective_wait timeout_ms start_ms now_ms = Some eff"
  shows "0 < eff \<and> eff \<le> timeout_ms \<and> now_ms + word_of_int eff = start_ms + word_of_int timeout_ms"
proof -
  let ?t = "word_of_int timeout_ms :: u64"
  have t: "uint ?t = timeout_ms" using assms(1,2) by (simp add: uint_word_of_int)
  have lt: "now_ms - start_ms < ?t" and eff: "eff = uint (?t - (now_ms - start_ms))"
    using assms by (simp_all add: effective_wait_def Let_def not_le split: if_splits)
  have "eff = uint ?t - uint (now_ms - start_ms)"
    unfolding eff using lt by (intro uint_sub_lem[THEN iffD1]) (simp add: word_less_def)
  moreover have "uint (now_ms - start_ms) < uint ?t" using lt by (simp add: word_less_def)
  moreover have "0 \<le> uint (now_ms - start_ms)" by simp
  ultimately have "0 < eff \<and> eff \<le> timeout_ms" unfolding t by linarith
  moreover have "word_of_int eff = ?t - (now_ms - start_ms)" by (simp add: eff)
  ultimately show ?thesis by simp
qed

text \<open>
  With a time-out of 0 the test driver returns before it looks at the injected edges, so that
  \<open>event_loop_handle_gpio\<close>, which always uses 0, never takes an event from it.
\<close>

theorem mock_zero_wait_ignores_edges:
  assumes "queued s = []" and "tb_ok s" and "0 \<le> tm_notify_fd s"
  shows "thr_mock_wait_event 0 start_ms (r # rs) s = Some ((0, None), s)"
  using tb_pop_result(1)[OF assms(2,1)] assms(3)
  by (simp add: thr_mock_wait_event.simps[of 0 start_ms "r # rs"] effective_wait_def)

text \<open>
  The two descriptors of the test driver are one, which is closed twice: the second test compares
  with the descriptor that the first has just set to -1.
\<close>

theorem mock_closes_twice:
  assumes "0 \<le> efd" and "thr_mock_init efd s0 = (0, s)"
  shows "tm_closed (thr_mock_cleanup s) = tm_closed s @ [efd, efd]"
proof -
  have "tm_notify_fd s = efd" "tm_notify_write_fd s = efd"
    using assms by (auto simp: thr_mock_init_def Let_def)
  then show ?thesis using assms(1) by (simp add: thr_mock_cleanup_def thr_mock_close_def thr_mock_reset_def)
qed

section \<open>The loop over a driver\<close>

text \<open>
  The calls after a read that completed events: they return the events one by one, and when the
  last is taken the next call reads again.
\<close>

lemma wait_zero:
  assumes "tb_ok s" and "tg_request s = Some fd" and "wc_timeout_ms c = 0"
  shows "queued s = v # vs \<Longrightarrow> \<exists>t. thr_gpiod_wait c s = Some ((1, Some v), t) \<and> tb_ok t \<and>
      tg_request t = Some fd \<and> queued t = vs"
    and "queued s = [] \<Longrightarrow> wc_rounds c = r # rs \<Longrightarrow>
      thr_gpiod_wait c s = map_option (\<lambda>(res, _, s). (res, s)) (read_and_process_edges r s)"
proof -
  show "\<exists>t. thr_gpiod_wait c s = Some ((1, Some v), t) \<and> tb_ok t \<and> tg_request t = Some fd \<and> queued t = vs"
    if q: "queued s = v # vs"
  proof -
    obtain t where t: "tb_pop s = (Some v, t)" using tb_pop_result(2)[OF assms(1) q] by (cases "tb_pop s") simp
    have "tb_ok t" "queued t = vs" using tb_ok_steps(2)[OF assms(1)] tb_pop_result(2)[OF assms(1) q] t by simp_all
    moreover have "tg_request t = Some fd"
      using assms(2) t by (auto simp: tb_pop_def case_prod_beta)
    ultimately show ?thesis
      using t assms(2) by (simp add: thr_gpiod_wait_def thr_gpiod_wait_event_def thr_wait_loop.simps[of fd "wc_timeout_ms c"])
  qed
  show "thr_gpiod_wait c s = map_option (\<lambda>(res, _, s). (res, s)) (read_and_process_edges r s)"
    if "queued s = []" "wc_rounds c = r # rs"
    using tb_pop_result(1)[OF assms(1) that(1)] assms(2,3) that(2)
    by (simp add: thr_gpiod_wait_def thr_gpiod_wait_event_def thr_wait_loop.simps[of fd 0 "wc_start_ms c" "r # rs" s])
qed

definition blocks :: "thr_call \<Rightarrow> bool" where
  "blocks c \<longleftrightarrow> wc_timeout_ms c = 0 \<and> (\<forall>r rs. wc_rounds c = r # rs \<longrightarrow> tr_read r = None)"

lemma wait_blocks:
  assumes "tb_ok s" and "tg_request s = Some fd" and "blocks c" and "queued s = []"
  shows "thr_gpiod_wait c s = None"
proof (cases "wc_rounds c")
  case Nil
  then show ?thesis
    using tb_pop_result(1)[OF assms(1,4)] assms(2)
    by (simp add: thr_gpiod_wait_def thr_gpiod_wait_event_def thr_wait_loop.simps[of fd _ _ "[]"])
next
  case (Cons r rs)
  have z: "wc_timeout_ms c = 0" and "tr_read r = None" using assms(3) Cons by (simp_all add: blocks_def)
  then show ?thesis
    using wait_zero(2)[OF assms(1,2) z assms(4) Cons] by (simp add: read_and_process_edges_def)
qed

lemma poll_drains:
  assumes "tb_ok s" and "tg_request s = Some fd" and "list_all (\<lambda>(c, _). blocks c) es"
    and "n + length (queued s) < MAX_GPIO_EVENTS_PER_POLL" and "length (queued s) \<le> length es"
  shows "map (\<lambda>(ret, v, _). (ret, v)) (fst (gpio_poll thr_gpiod_wait n es s)) = map (Pair 1) (queued s) \<and>
    snd (gpio_poll thr_gpiod_wait n es s) = None"
  using assms
proof (induction es arbitrary: n s)
  case Nil
  then have "queued s = []" by (simp del: length_ring_items)
  then show ?case using Nil.prems(4) by (simp add: gpio_poll.simps[of thr_gpiod_wait n "[]"])
next
  case (Cons x es)
  obtain c now where x: "x = (c, now)" by (cases x)
  have b: "blocks c" using Cons.prems(3) by (simp add: x)
  note def = gpio_poll.simps[of thr_gpiod_wait n "(c, now) # es" s]
  show ?case
  proof (cases "queued s")
    case Nil
    then show ?thesis using wait_blocks[OF Cons.prems(1,2) b Nil] Cons.prems(4) by (simp add: def x)
  next
    case (Cons v vs)
    have "wc_timeout_ms c = 0" using b by (simp add: blocks_def)
    from wait_zero(1)[OF Cons.prems(1,2) this Cons] obtain t where
      t: "thr_gpiod_wait c s = Some ((1, Some v), t)" "tb_ok t" "tg_request t = Some fd" "queued t = vs" by blast
    have "map (\<lambda>(ret, v, _). (ret, v)) (fst (gpio_poll thr_gpiod_wait (n + 1) es t)) = map (Pair 1) (queued t) \<and>
        snd (gpio_poll thr_gpiod_wait (n + 1) es t) = None"
      using Cons.prems(3-5) Cons t(4) by (intro Cons.IH[OF t(2,3)]) simp_all
    then show ?thesis using Cons Cons.prems(4) t by (auto simp: def x Let_def split: prod.splits)
  qed
qed

section \<open>The properties\<close>

text \<open>C19
  No press is lost, and none is invented. After a successful start of the driver over libgpiod,
  and any calls of \<open>wait_event\<close> with any time-outs, the events returned and those still queued are
  exactly the events of the edges read: for each release of a button that was pressed one event, in
  order, long if the button was held for 600 ms or more; with debouncing in software, after
  dropping the edges within 30 ms of an accepted edge of the same button. The queue of 32
  events never overflows, since edges are read, at most 16 at a time, only when it is empty.\<close>

theorem threaded_presses_exact:
  assumes "thr_gpiod_init e s0 = (0, s)" and "list_all (\<lambda>c. reads_small (wc_rounds c)) cs"
    and "thr_gpiod_calls cs s = Some (evs, ds, s')"
  defines "es \<equiv> line_edges ds"
  shows "evs @ ring_items MAX_PENDING_EVENTS (tb_pending s') =
    fst (press_events (detect_pressed_level (line_values e))
      (if debounce_request_ok e then es else undebounced [0, 0, 0] es) [None, None, None])"
proof -
  note st = thr_gpiod_started[OF assms(1)]
  show ?thesis using calls_exact[OF st(1) assms(2,3)] st by (simp add: events_of_def accepted_edges_def es_def)
qed

definition gpiod_zeroed :: thr_gpiod where
  "gpiod_zeroed = \<lparr>tb_pressed_level = 0, tb_use_soft_debounce = False, tb_press_time_ms = [],
     tb_last_edge_ms = [], tb_pressed = [], tb_pending = ring_empty MAX_PENDING_EVENTS zero_event,
     tg_chip = False, tg_request = None, tg_event_buf = False\<rparr>"

definition gpiod_lines_high :: gpiod_init_env where
  "gpiod_lines_high = \<lparr>chip_ok = True, debounce_request_ok = True, debounce_unsupported = False,
     plain_request_ok = True, event_buf_ok = True, request_fd = 5, timer_create = -1, line_values = [1, 1, 1]\<rparr>"

definition read_call :: "int \<Rightarrow> gpiod_edge list \<Rightarrow> thr_call" where
  "read_call tmo ds = \<lparr>wc_timeout_ms = tmo, wc_start_ms = 0,
     wc_rounds = [\<lparr>tr_now_ms = 0, tr_ready = (\<lambda>_. 1), tr_read = Some (Read_Edges ds)\<rparr>]\<rparr>"

definition k1_edge :: "bool \<Rightarrow> u64 \<Rightarrow> gpiod_edge" where
  "k1_edge falling ns = \<lparr>edge_offset = 0, edge_falling = falling, edge_timestamp_ns = ns, edge_now_ms = 0\<rparr>"

text \<open>K1 is pressed for 700 ms; the driver is asked at the press and at the release.\<close>

definition k1_calls :: "thr_call list" where
  "k1_calls = [read_call 0 [k1_edge True 1000000000], read_call 1000 [k1_edge False 1700000000]]"

theorem threaded_presses_exact_witness:
  "\<exists>s'. thr_gpiod_calls k1_calls (snd (thr_gpiod_init gpiod_lines_high gpiod_zeroed)) =
      Some ([button_event 0 True 1700000000], [k1_edge True 1000000000, k1_edge False 1700000000], s') \<and>
    ring_items MAX_PENDING_EVENTS (tb_pending s') = []"
proof -
  let ?s = "snd (thr_gpiod_init gpiod_lines_high gpiod_zeroed)"
  have i: "thr_gpiod_init gpiod_lines_high gpiod_zeroed = (0, ?s)" by code_simp
  have r: "list_all (\<lambda>c. reads_small (wc_rounds c)) k1_calls"
    by (simp add: k1_calls_def read_call_def reads_small_def)
  have "map_option (\<lambda>(evs, ds, _). (evs, ds)) (thr_gpiod_calls k1_calls ?s) =
    Some ([button_event 0 True 1700000000], [k1_edge True 1000000000, k1_edge False 1700000000])" by code_simp
  then obtain s' where c: "thr_gpiod_calls k1_calls ?s =
      Some ([button_event 0 True 1700000000], [k1_edge True 1000000000, k1_edge False 1700000000], s')"
    by auto
  have "fst (press_events (detect_pressed_level (line_values gpiod_lines_high))
      (if debounce_request_ok gpiod_lines_high then line_edges [k1_edge True 1000000000, k1_edge False 1700000000]
       else undebounced [0, 0, 0] (line_edges [k1_edge True 1000000000, k1_edge False 1700000000])) [None, None, None]) =
    [button_event 0 True 1700000000]" by code_simp
  then show ?thesis using threaded_presses_exact[OF i r c] c by simp
qed



end
