(* ===== verification/Thr_Press_Page.thy ===== *)
theory Thr_Press_Page
  imports Thr_Presses Thr_Interface
begin

text \<open>
  From the edge to the page: a press of a button on its way through the threaded version of the
  program (\<open>src_adr0005\<close>), from the lines (\<open>hal/gpio_hal_libgpiod.c\<close>) over the loop of the main
  thread (\<open>event_loop.c\<close>) and the event queue (\<open>event_queue.c\<close>) to the controller of the
  user interface thread (\<open>ui_controller.c\<close>, \<open>page_controller.c\<close>).
\<close>

section \<open>The loop and the queue\<close>

text \<open>One event read, and nothing after it: it is the only call that returns.\<close>

lemma poll_one_event:
  assumes "tb_ok s" and "tg_request s = Some fd" and "queued s = []"
    and "wc_timeout_ms c = 0" and "wc_rounds c = r # rs" and "tr_read r = Some (Read_Edges ds)"
    and "length ds \<le> 16" and "list_all (\<lambda>(c, _). blocks c) es" and "events_of s (line_edges ds) = [v]"
  shows "fst (gpio_poll thr_gpiod_wait 0 ((c, now) # es) s) = [(1, v, now)]"
proof -
  let ?f = "fold tb_edge (line_edges ds) s"
  let ?t = "snd (tb_pop ?f)"
  note f = read_edges[OF assms(1,3,6,7)]
  have q: "fst (tb_pop ?f) = Some v" "queued ?t = []"
    using tb_pop_result(2)[OF f(2), of v "[]"] f(3) assms(9) by simp_all
  have w: "thr_gpiod_wait c s = Some ((1, Some v), ?t)"
    using wait_zero(2)[OF assms(1,2,4,3,5)] f(1) q(1) by simp
  have "thr_buttons.more ?t = thr_buttons.more s" by simp
  then have "tg_request ?t = Some fd" using assms(2) by (cases ?t; cases s) simp
  from poll_drains[OF tb_ok_steps(2)[OF f(2)] this assms(8), of 1] have "fst (gpio_poll thr_gpiod_wait 1 es ?t) = []"
    by (simp add: q(2))
  then show ?thesis
    by (auto simp: gpio_poll.simps[of thr_gpiod_wait 0 "(c, now) # es"] w Let_def split: prod.splits)
qed

lemma push_to_empty:
  assumes "eq_ok q" and "eq_items q = []"
  shows "eq_items (snd (event_queue_push e q)) = [e]" and "eq_ok (snd (event_queue_push e q))"
proof -
  note p = push_event_refines[OF assms(1), of e]
  have "0 < eq_cap q" using assms(1) by (simp add: eq_ok_def rq_ok_def ring_ok_def eq_cap_def)
  then show i: "eq_items (snd (event_queue_push e q)) = [e]"
    using p(1) assms(2) by (simp add: push_event_def)
  show "eq_ok (snd (event_queue_push e q))"
    using p(2,4,5) assms(1) by (simp add: eq_ok_def i)
qed

section \<open>The page\<close>

text \<open>A slide that is finished by a tick.\<close>

lemma slide_finished:
  assumes "thr_ready t pc" and "tc_page_mode pc = PAGE_MODE_VIEW" and "thr_wf pc" and "tc_page_count pc > 1"
    and "key = KEY_K1 \<and> d = -1 \<or> key = KEY_K3 \<and> d = 1" and "200 \<le> t' - t"
  shows "tc_current_page (snd (thr_tick t' (fst (snd (thr_handle_key key False t pc w))))) =
    (tc_current_page pc + d) mod tc_page_count pc"
proof -
  have c: "0 \<le> tc_current_page pc" "tc_current_page pc < tc_page_count pc" using assms(3) by (simp_all add: thr_wf_def)
  have m: "(tc_page_count pc) mod (tc_page_count pc) = 0" "(-1) mod (tc_page_count pc) = tc_page_count pc - 1"
    using assms(4) by (simp_all add: zmod_minus1)
  have "tc_current_page pc + d = -1 \<or> tc_current_page pc + d = tc_page_count pc \<or>
    0 \<le> tc_current_page pc + d \<and> tc_current_page pc + d < tc_page_count pc" using assms(5) c by auto
  then have d: "(tc_current_page pc + d) mod tc_page_count pc =
    (if tc_current_page pc + d < 0 then tc_page_count pc - 1
     else if tc_current_page pc + d \<ge> tc_page_count pc then 0 else tc_current_page pc + d)"
    using m assms(4) by (auto simp: mod_pos_pos_trivial)
  show ?thesis
    using assms(1,2,4-6) c unfolding d
    by (auto simp: thr_handle_key_paths thr_key_view_def thr_switch_page_def thr_start_animation_def Let_def
        thr_tick_def case_prod_beta thr_tick_animation_def thr_anim_is_complete_def thr_auto_off_def)
qed

text \<open>C21
  A press turns the page. Whatever has happened before, when the interface is lit, in view mode
  and no animation is running, and the event queue is empty: a short press of K1 or K3 that the
  driver reads reaches the event queue as its only event, and after that event and a tick at
  least 200 ms later the page is the one before or after it, cyclically.\<close>

theorem press_turns_page:
  fixes gsw :: metrics and ok :: bool and init_io :: "i2c_state \<Rightarrow> i2c_state" and ms :: string
    and rq :: result_queue
  assumes "thr_gpiod_init ie s0 = (0, s)" and "list_all (\<lambda>c. reads_small (wc_rounds c)) cs"
    and "thr_gpiod_calls cs s = Some (evs0, ds0, s1)" and "ring_items MAX_PENDING_EVENTS (tb_pending s1) = []"
    and "wc_timeout_ms c = 0" and "wc_rounds c = r # rs" and "tr_read r = Some (Read_Edges ds)"
    and "length ds \<le> 16" and "list_all (\<lambda>(c, _). blocks c) es"
    and "events_of s1 (line_edges ds) = [button_event line False ts]"
    and "line = 0 \<and> d = -1 \<or> line = 2 \<and> d = 1"
    and "eq_ok (el_queue loop)" and "eq_items (el_queue loop) = []"
    and "list_all plain evs" and "pred_option status_wf st"
  defines "ui \<equiv> fst (thr_run gsw evs (thr_start gsw ok init_io (thr_statics ms) rq st))"
  assumes "thr_ready (ns_to_ms now) (tu_page_ctrl ui)" and "tc_page_mode (tu_page_ctrl ui) = PAGE_MODE_VIEW"
    and "evt_type tick = EVT_TICK" and "200 \<le> ns_to_ms (evt_timestamp_ns tick) - ns_to_ms now"
  defines "q \<equiv> el_queue (event_loop_handle_gpio (fst (gpio_poll thr_gpiod_wait 0 ((c, now) # es) s1)) loop)"
  shows "\<exists>e. fst (event_queue_try_pop q) = Some e \<and> eq_items (snd (event_queue_try_pop q)) = [] \<and>
    tc_current_page (tu_page_ctrl (thr_show gsw t2 tick (thr_show gsw t1 e ui))) =
      (tc_current_page (tu_page_ctrl ui) + d) mod 4"
proof -
  note start = thr_gpiod_started[OF assms(1)]
  have ok: "tb_ok s1" and "thr_buttons.more s1 = thr_buttons.more s"
    using calls_exact[OF start(1) assms(2,3)] by simp_all
  then have fd: "tg_request s1 = Some (request_fd ie)" using start(7) by (cases s1; cases s) simp
  let ?v = "button_event line False ts"
  let ?e = "gpio_app_event (1, ?v, now)"
  have "fst (gpio_poll thr_gpiod_wait 0 ((c, now) # es) s1) = [(1, ?v, now)]"
    by (rule poll_one_event[OF ok fd assms(4-10)])
  moreover have "line < GPIO_NUM_BUTTONS" using assms(11) by auto
  ultimately have q: "q = snd (event_queue_push ?e (el_queue loop))"
    using button_app_event[of line False ts]
    by (simp add: q_def event_loop_handle_gpio_def push_loop_def gpio_app_event_def)
  note pushed = push_to_empty[OF assms(12,13), of ?e, folded q]
  have e: "evt_type ?e \<in> {EVT_BTN_K1_SHORT, EVT_BTN_K3_SHORT}" "evt_timestamp_ns ?e = now"
    "event_to_key (evt_type ?e) = KEY_K1 \<and> d = -1 \<or> event_to_key (evt_type ?e) = KEY_K3 \<and> d = 1"
    using assms(11) by (auto simp: gpio_app_event_def button_event_def to_button_event_def numeral_nat)
  have "thr_sys_ok (thr_run gsw evs (thr_start gsw ok init_io (thr_statics ms) rq st))"
    by (rule thr_sys_run[OF thr_start_ok[OF assms(15)] assms(14)])
  then have w: "thr_wf (tu_page_ctrl ui)" "tc_pages (tu_page_ctrl ui) = thr_pages_get_list"
    by (simp_all add: thr_sys_ok_def thr_shown_def thr_ui_ok_def thr_ok_def ui_def)
  then have n: "tc_page_count (tu_page_ctrl ui) = 4" by (simp add: thr_wf_def thr_pages_get_list_def)
  let ?ui = "thr_show gsw t1 ?e ui"
  have k: "\<not> is_long_press (evt_type ?e)" "is_button_event (evt_type ?e)" "evt_type ?e \<noteq> EVT_TICK" "evt_type ?e \<noteq> EVT_SHUTDOWN"
    using e(1) by (auto simp: is_long_press_def is_button_event_def)
  have "tu_page_ctrl ?ui = fst (snd (thr_handle_key (event_to_key (evt_type ?e)) False (ns_to_ms now) (tu_page_ctrl ui) (tu_world
      (ui\<lparr>tu_last_event := evt_type ?e, tu_last_event_ms := ns_to_ms now\<rparr>))))"
    using k e(2) by (simp add: thr_show_def thr_handle_event_def Let_def)
  moreover have "tu_page_ctrl (thr_show gsw t2 tick ?ui) = snd (thr_tick (ns_to_ms (evt_timestamp_ns tick)) (tu_page_ctrl ?ui))"
    using assms(19) by (simp add: thr_show_def thr_handle_event_def Let_def)
  ultimately have "tc_current_page (tu_page_ctrl (thr_show gsw t2 tick ?ui)) = (tc_current_page (tu_page_ctrl ui) + d) mod 4"
    using slide_finished[OF assms(17,18) w(1) _ e(3) assms(20)] n by simp
  moreover have "fst (event_queue_try_pop q) = Some ?e" "eq_items (snd (event_queue_try_pop q)) = []"
    using try_pop_refines(1,2)[OF pushed(2)] pushed(1) by simp_all
  ultimately show ?thesis by blast
qed

text \<open>From the network page, the second of four, K3 leads to the third.\<close>

definition open_loop :: event_loop where
  "open_loop = snd (event_loop_init 5 6 7 (snd (event_queue_init True (thr_event EVT_NONE 0) 4 zero_event_queue)))"

definition k3_read :: "gpiod_edge list" where
  "k3_read = [\<lparr>edge_offset = 3, edge_falling = True, edge_timestamp_ns = 1000000000, edge_now_ms = 0\<rparr>,
     \<lparr>edge_offset = 3, edge_falling = False, edge_timestamp_ns = 1100000000, edge_now_ms = 0\<rparr>]"

theorem press_turns_page_witness:
  "\<exists>e. tc_current_page (tu_page_ctrl (thr_show sample_metrics 0 (thr_event EVT_TICK 1400000000)
      (thr_show sample_metrics 0 e (fst thr_sample_start)))) = 2"
proof -
  let ?s = "snd (thr_gpiod_init gpiod_lines_high gpiod_zeroed)"
  let ?c = "read_call 0 k3_read"
  let ?ui = "fst (thr_run sample_metrics [] thr_sample_start)"
  have i: "thr_gpiod_init gpiod_lines_high gpiod_zeroed = (0, ?s)" by code_simp
  have n: "list_all (\<lambda>c. reads_small (wc_rounds c)) []" by simp
  have c: "thr_gpiod_calls [] ?s = Some ([], [], ?s)" by simp
  have q: "ring_items MAX_PENDING_EVENTS (tb_pending ?s) = []" by code_simp
  have r: "wc_timeout_ms ?c = 0" "wc_rounds ?c = [\<lparr>tr_now_ms = 0, tr_ready = (\<lambda>_. 1), tr_read = Some (Read_Edges k3_read)\<rparr>]"
    "tr_read \<lparr>tr_now_ms = 0, tr_ready = (\<lambda>_. 1), tr_read = Some (Read_Edges k3_read)\<rparr> = Some (Read_Edges k3_read)"
    "length k3_read \<le> 16" by (simp_all add: read_call_def k3_read_def)
  have b: "list_all (\<lambda>(c, _). blocks c) []" by simp
  have e: "events_of ?s (line_edges k3_read) = [button_event 2 False 1100000000]" by code_simp
  have l: "eq_ok (el_queue open_loop)" "eq_items (el_queue open_loop) = []"
    using init_events(2,3)[of 4 "thr_event EVT_NONE 0" zero_event_queue] by (simp_all add: open_loop_def event_loop_init_def)
  have p: "list_all plain []" by simp
  have u: "thr_ready (ns_to_ms 1100000000) (tu_page_ctrl ?ui)" "tc_page_mode (tu_page_ctrl ?ui) = PAGE_MODE_VIEW"
    "tc_current_page (tu_page_ctrl ?ui) = 1" by code_simp+
  have t: "evt_type (thr_event EVT_TICK 1400000000) = EVT_TICK"
    "200 \<le> ns_to_ms (evt_timestamp_ns (thr_event EVT_TICK 1400000000)) - ns_to_ms 1100000000"
    by (simp_all add: thr_event_def ns_to_ms_def)
  have d: "(2::nat) = 0 \<and> (1::int) = -1 \<or> (2::nat) = 2 \<and> (1::int) = 1" by simp
  from press_turns_page[OF i n c q r b e d l p zero_status_ok u(1,2) t] u(3)
  show ?thesis by (auto simp: thr_run_def)
qed

end
