(* ===== verification/Old_Buttons.thy ===== *)
theory Old_Buttons
  imports Prelude
begin

text \<open>
  The button driver of the first version of the program (\<open>src_old/gpio_button.c\<close>), over the sysfs
  files of three GPIO lines. One call of \<open>gpio_button_wait\<close> waits for edges or a time-out and reports
  at most one event: a short press at the release, a long one while the button is held.
  What \<open>poll\<close>, the clock and the value files give is the environment of a call.
\<close>

abbreviation (input) NUM_BUTTONS :: nat where "NUM_BUTTONS \<equiv> 3"
abbreviation (input) OLD_LONG_PRESS_MS :: u64 where "OLD_LONG_PRESS_MS \<equiv> 600"
abbreviation (input) OLD_DEBOUNCE_MS :: u64 where "OLD_DEBOUNCE_MS \<equiv> 30"

datatype old_event =
    BTN_NONE
  | BTN_K1_PRESS
  | BTN_K2_PRESS
  | BTN_K3_PRESS
  | BTN_K1_LONG_PRESS
  | BTN_K2_LONG_PRESS
  | BTN_K3_LONG_PRESS

text \<open>The conversions of \<open>BTN_K1_PRESS + i\<close> and \<open>BTN_K1_LONG_PRESS + i\<close> for a button \<open>i\<close>.\<close>

definition press_event :: "nat \<Rightarrow> old_event" where
  "press_event i = (if i = 0 then BTN_K1_PRESS else if i = 1 then BTN_K2_PRESS else BTN_K3_PRESS)"

definition long_event :: "nat \<Rightarrow> old_event" where
  "long_event i = (if i = 0 then BTN_K1_LONG_PRESS else if i = 1 then BTN_K2_LONG_PRESS else BTN_K3_LONG_PRESS)"

text \<open>The arrays of the driver, one record per button, and the level of a pressed button.\<close>

record old_button =
  btn_fd :: int
  btn_press_time :: u64
  btn_pressed :: bool
  btn_long_reported :: bool
  btn_last_edge_ms :: u64

record old_buttons =
  buttons :: "old_button list"
  pressed_value :: char

definition upd_button :: "nat \<Rightarrow> (old_button \<Rightarrow> old_button) \<Rightarrow> old_button list \<Rightarrow> old_button list" where
  "upd_button i f bs = bs[i := f (bs ! i)]"

section \<open>Values\<close>

text \<open>\<open>rd i\<close> is the character that reading the value file of button \<open>i\<close> gives, \<open>None\<close> if it fails.\<close>

definition gpio_read_value :: "(nat \<Rightarrow> char option) \<Rightarrow> old_button list \<Rightarrow> nat \<Rightarrow> char" where
  "gpio_read_value rd bs i =
     (if i \<ge> NUM_BUTTONS \<or> btn_fd (bs ! i) < 0 then CHR ''1''
      else case rd i of None \<Rightarrow> CHR ''1'' | Some v \<Rightarrow> v)"

definition detect_pressed_value :: "(nat \<Rightarrow> char option) \<Rightarrow> old_button list \<Rightarrow> char" where
  "detect_pressed_value rd bs =
     (let zeros = length (filter (\<lambda>i. gpio_read_value rd bs i = CHR ''0'') [0..<NUM_BUTTONS]);
          ones = NUM_BUTTONS - zeros
      in if zeros \<ge> ones then CHR ''1'' else CHR ''0'')"

section \<open>Start and end\<close>

definition gpio_button_cleanup :: "old_buttons \<Rightarrow> old_buttons" where
  "gpio_button_cleanup g =
     g\<lparr>buttons := map (\<lambda>b. \<lparr>btn_fd = (if btn_fd b \<ge> 0 then -1 else btn_fd b), btn_press_time = 0,
         btn_pressed = False, btn_long_reported = False, btn_last_edge_ms = 0\<rparr>) (buttons g)\<rparr>"

text \<open>
  The set-up of button \<open>i\<close>: \<open>prepared i\<close> is whether the line could be exported and given direction
  and edge, \<open>fds i\<close> what opening its value file returns.
\<close>

fun open_buttons :: "(nat \<Rightarrow> bool) \<Rightarrow> (nat \<Rightarrow> int) \<Rightarrow> nat list \<Rightarrow> old_buttons \<Rightarrow> bool \<times> old_buttons" where
  "open_buttons prepared fds [] g = (True, g)"
| "open_buttons prepared fds (i # is') g =
     (if \<not> prepared i then (False, g)
      else
        let g = g\<lparr>buttons := upd_button i (\<lambda>b. b\<lparr>btn_fd := fds i\<rparr>) (buttons g)\<rparr>
        in if btn_fd (buttons g ! i) < 0 then (False, g) else open_buttons prepared fds is' g)"

definition init_button :: "u64 \<Rightarrow> bool \<Rightarrow> old_button \<Rightarrow> old_button" where
  "init_button now p b =
     b\<lparr>btn_pressed := p, btn_press_time := (if p then now else 0), btn_long_reported := False,
       btn_last_edge_ms := 0\<rparr>"

definition gpio_button_init ::
  "(nat \<Rightarrow> bool) \<Rightarrow> (nat \<Rightarrow> int) \<Rightarrow> (nat \<Rightarrow> char option) \<Rightarrow> u64 \<Rightarrow> old_buttons \<Rightarrow> int \<times> old_buttons" where
  "gpio_button_init prepared fds rd now g =
     (let (ok, g) = open_buttons prepared fds [0..<NUM_BUTTONS] g in
      if \<not> ok then (-1, gpio_button_cleanup g)
      else
        let pv = detect_pressed_value rd (buttons g);
            bs = fold (\<lambda>i bs. upd_button i (init_button now (gpio_read_value rd bs i = pv)) bs)
              [0..<NUM_BUTTONS] (buttons g)
        in (0, \<lparr>buttons = bs, pressed_value = pv\<rparr>))"

section \<open>Waiting\<close>

datatype old_poll = Poll_Failed | Poll_Interrupted | Poll_Timeout | Poll_Edges "nat set"

record wait_env =
  we_now :: u64
  we_poll :: old_poll
  we_after :: u64
  we_read :: "nat \<Rightarrow> char option"

text \<open>The time-out given to \<open>poll\<close>: no later than the moment a held button becomes a long press.\<close>

definition effective_timeout :: "u64 \<Rightarrow> int \<Rightarrow> old_button list \<Rightarrow> int" where
  "effective_timeout now timeout_ms bs =
     fold (\<lambda>b t.
       if btn_pressed b \<and> \<not> btn_long_reported b then
         let elapsed = now - btn_press_time b
         in if elapsed < OLD_LONG_PRESS_MS then
              let remaining = int (unat (OLD_LONG_PRESS_MS - elapsed))
              in if t < 0 \<or> remaining < t then remaining else t
            else t
       else t) bs timeout_ms"

text \<open>The body of the loop over the edges, for button \<open>i\<close> with an event.\<close>

definition handle_edge ::
  "u64 \<Rightarrow> bool \<Rightarrow> nat \<Rightarrow> old_button list \<times> old_event \<Rightarrow> old_button list \<times> old_event" where
  "handle_edge now currently_pressed i x =
     (let (bs, result) = x; b = bs ! i in
      if btn_last_edge_ms b \<noteq> 0 \<and> now - btn_last_edge_ms b < OLD_DEBOUNCE_MS then (bs, result)
      else
        let bs = upd_button i (\<lambda>b. b\<lparr>btn_last_edge_ms := now\<rparr>) bs in
        if currently_pressed then
          (if \<not> btn_pressed b
           then (upd_button i (\<lambda>b. b\<lparr>btn_pressed := True, btn_press_time := now, btn_long_reported := False\<rparr>) bs, result)
           else (bs, result))
        else if btn_pressed b then
          (upd_button i (\<lambda>b. b\<lparr>btn_pressed := False\<rparr>) bs,
           if \<not> btn_long_reported b \<and> result = BTN_NONE then press_event i else result)
        else (bs, if result = BTN_NONE then press_event i else result))"

text \<open>The body of the loop over the long presses.\<close>

definition check_long :: "u64 \<Rightarrow> nat \<Rightarrow> old_button list \<times> old_event \<Rightarrow> old_button list \<times> old_event" where
  "check_long now i x =
     (let (bs, result) = x; b = bs ! i in
      if btn_pressed b \<and> \<not> btn_long_reported b \<and> now - btn_press_time b \<ge> OLD_LONG_PRESS_MS
      then (upd_button i (\<lambda>b. b\<lparr>btn_long_reported := True\<rparr>) bs, long_event i)
      else (bs, result))"

text \<open>The result has the time-out passed to \<open>poll\<close> in front.\<close>

definition gpio_button_wait :: "wait_env \<Rightarrow> int \<Rightarrow> old_buttons \<Rightarrow> int \<times> old_event \<times> old_buttons" where
  "gpio_button_wait e timeout_ms g =
     (let timeout = effective_timeout (we_now e) timeout_ms (buttons g) in
      if we_poll e = Poll_Failed then (timeout, BTN_NONE, g)
      else
        let now = we_after e;
            ready = (case we_poll e of Poll_Edges is' \<Rightarrow> is' | _ \<Rightarrow> {});
            x = fold (\<lambda>i x. if i \<in> ready
                            then handle_edge now (gpio_read_value (we_read e) (fst x) i = pressed_value g) i x
                            else x) [0..<NUM_BUTTONS] (buttons g, BTN_NONE);
            (bs, result) = fold (check_long now) [0..<NUM_BUTTONS] x
        in (timeout, result, g\<lparr>buttons := bs\<rparr>))"

section \<open>One button\<close>

text \<open>Three buttons, of which at most button \<open>i\<close> is pressed.\<close>

definition only_button :: "nat \<Rightarrow> old_buttons \<Rightarrow> bool" where
  [wf_defs]: "only_button i g \<longleftrightarrow> length (buttons g) = 3 \<and> i < 3 \<and> (\<forall>j < 3. j \<noteq> i \<longrightarrow> \<not> btn_pressed (buttons g ! j))"

definition with_button :: "nat \<Rightarrow> old_button \<Rightarrow> old_buttons \<Rightarrow> old_buttons" where
  "with_button i b g = g\<lparr>buttons := (buttons g)[i := b]\<rparr>"

lemma only_with [simp]: "only_button i g \<Longrightarrow> only_button i (with_button i b g)"
  by (simp add: only_button_def with_button_def)

lemma with_button_simps [simp]:
  "with_button i b (with_button i c g) = with_button i b g"
  "only_button i g \<Longrightarrow> buttons (with_button i b g) ! i = b"
  "pressed_value (with_button i b g) = pressed_value g"
  by (simp_all add: with_button_def only_button_def)

text \<open>An edge, and the check for a long press, as functions of the one button.\<close>

definition edge_button :: "u64 \<Rightarrow> bool \<Rightarrow> old_button \<Rightarrow> old_button \<times> bool" where
  "edge_button now p b =
     (if btn_last_edge_ms b \<noteq> 0 \<and> now - btn_last_edge_ms b < OLD_DEBOUNCE_MS then (b, False)
      else if p then
        (if btn_pressed b then (b\<lparr>btn_last_edge_ms := now\<rparr>, False)
         else (b\<lparr>btn_last_edge_ms := now, btn_pressed := True, btn_press_time := now, btn_long_reported := False\<rparr>, False))
      else if btn_pressed b then (b\<lparr>btn_last_edge_ms := now, btn_pressed := False\<rparr>, \<not> btn_long_reported b)
      else (b\<lparr>btn_last_edge_ms := now\<rparr>, True))"

definition long_button :: "u64 \<Rightarrow> old_button \<Rightarrow> old_button \<times> bool" where
  "long_button now b =
     (if btn_pressed b \<and> \<not> btn_long_reported b \<and> now - btn_press_time b \<ge> OLD_LONG_PRESS_MS
      then (b\<lparr>btn_long_reported := True\<rparr>, True) else (b, False))"

lemma upt_three: "[0..<3] = [0, 1, 2 :: nat]"
  by (simp add: upt_rec)

lemma less_three: "i < 3 \<longleftrightarrow> i = 0 \<or> i = 1 \<or> i = (2 :: nat)"
  by auto

lemma check_others:
  assumes "only_button i g"
  shows "fold (check_long now) [0..<3] (buttons g, r) = check_long now i (buttons g, r)"
proof -
  have other: "j < 3 \<Longrightarrow> j \<noteq> i \<Longrightarrow> check_long now j (buttons g, r) = (buttons g, r)" for j r
    using assms by (simp add: only_button_def check_long_def)
  have after: "j < 3 \<Longrightarrow> j \<noteq> i \<Longrightarrow> check_long now j (check_long now i (buttons g, r)) = check_long now i (buttons g, r)" for j
    using assms by (simp add: only_button_def check_long_def upd_button_def Let_def)
  have "i = 0 \<or> i = 1 \<or> i = 2" using assms by (auto simp: only_button_def less_three)
  then show ?thesis using other[of _ r] after by (elim disjE) (simp_all add: upt_three)
qed

lemma upd_button_twice [simp]: "i < length bs \<Longrightarrow> upd_button i f (upd_button i h bs) = upd_button i (\<lambda>b. f (h b)) bs"
  by (simp add: upd_button_def)

lemma buttons_with: "buttons (with_button i (f (buttons g ! i)) g) = upd_button i f (buttons g)"
  by (simp add: with_button_def upd_button_def)

lemma handle_edge_button:
  assumes "only_button i g" and "edge_button now p (buttons g ! i) = (b, ev)"
  shows "handle_edge now p i (buttons g, BTN_NONE) =
    (buttons (with_button i b g), if ev then press_event i else BTN_NONE)"
proof -
  let ?b = "buttons g ! i"
  have i: "i < length (buttons g)" using assms(1) by (simp add: only_button_def)
  have self: "buttons (with_button i ?b g) = buttons g" by (simp add: with_button_def)
  show ?thesis
  proof (cases "btn_last_edge_ms ?b \<noteq> 0 \<and> now - btn_last_edge_ms ?b < OLD_DEBOUNCE_MS")
    case True
    then show ?thesis using assms(2) self by (simp add: handle_edge_def edge_button_def)
  next
    case False
    then show ?thesis using assms(2) i unfolding handle_edge_def edge_button_def Let_def
      by (cases p; cases "btn_pressed ?b") (simp_all only: if_False if_True if_not_P split, auto simp: buttons_with[symmetric] upd_button_def with_button_def)
  qed
qed

lemma check_long_button:
  assumes "only_button i g" and "long_button now (buttons g ! i) = (b, ev)"
  shows "check_long now i (buttons g, r) = (buttons (with_button i b g), if ev then long_event i else r)"
  using assms
  by (auto simp: check_long_def long_button_def with_button_def upd_button_def Let_def split: if_splits)

text \<open>A wait that an edge of the button ends, and one without an edge.\<close>

definition reads_pressed :: "wait_env \<Rightarrow> nat \<Rightarrow> old_buttons \<Rightarrow> bool" where
  "reads_pressed e i g \<longleftrightarrow> gpio_read_value (we_read e) (buttons g) i = pressed_value g"

lemma fold_skip [simp]: "fold (\<lambda>i x. x) xs y = y"
  by (induction xs) simp_all

lemma wait_result:
  assumes "we_poll e \<noteq> Poll_Failed"
    and "fold (\<lambda>i x. if i \<in> (case we_poll e of Poll_Edges is' \<Rightarrow> is' | _ \<Rightarrow> {})
        then handle_edge (we_after e) (gpio_read_value (we_read e) (fst x) i = pressed_value g) i x else x)
      [0..<3] (buttons g, BTN_NONE) = x"
    and "fold (check_long (we_after e)) [0..<3] x = (bs, r)"
  shows "snd (gpio_button_wait e tmo g) = (r, g\<lparr>buttons := bs\<rparr>)"
  using assms by (simp add: gpio_button_wait_def Let_def)

lemma wait_edge:
  assumes "only_button i g" and "we_poll e = Poll_Edges {i}"
    and "edge_button (we_after e) (reads_pressed e i g) (buttons g ! i) = (b, ev)"
    and "long_button (we_after e) b = (c, lg)"
  shows "snd (gpio_button_wait e tmo g) =
    (if lg then long_event i else if ev then press_event i else BTN_NONE, with_button i c g)"
proof -
  have c: "g\<lparr>buttons := buttons (with_button i c g)\<rparr> = with_button i c g" by (simp add: with_button_def)
  have "fold (\<lambda>j x. if j \<in> {i} then handle_edge (we_after e) (gpio_read_value (we_read e) (fst x) j = pressed_value g) j x else x)
      [0..<3] (buttons g, BTN_NONE) = handle_edge (we_after e) (reads_pressed e i g) i (buttons g, BTN_NONE)"
    using assms(1) by (auto simp: upt_three less_three only_button_def reads_pressed_def)
  also have "\<dots> = (buttons (with_button i b g), if ev then press_event i else BTN_NONE)"
    by (rule handle_edge_button[OF assms(1,3)])
  finally have x: "fold (\<lambda>j x. if j \<in> {i} then handle_edge (we_after e) (gpio_read_value (we_read e) (fst x) j = pressed_value g) j x else x)
      [0..<3] (buttons g, BTN_NONE) = (buttons (with_button i b g), if ev then press_event i else BTN_NONE)" .
  have y: "fold (check_long (we_after e)) [0..<3] (buttons (with_button i b g), r) =
      (buttons (with_button i c g), if lg then long_event i else r)" for r
    using check_others[OF only_with[OF assms(1)]] check_long_button[OF only_with[OF assms(1)], of _ b c lg] assms(1,4)
    by simp
  show ?thesis
    using wait_result[where x = "(buttons (with_button i b g), if ev then press_event i else BTN_NONE)", OF _ _ y]
      x assms(2) c by simp
qed

lemma wait_quiet:
  assumes "only_button i g" and "we_poll e = Poll_Timeout \<or> we_poll e = Poll_Interrupted"
    and "long_button (we_after e) (buttons g ! i) = (c, lg)"
  shows "snd (gpio_button_wait e tmo g) = (if lg then long_event i else BTN_NONE, with_button i c g)"
proof -
  have c: "g\<lparr>buttons := buttons (with_button i c g)\<rparr> = with_button i c g" by (simp add: with_button_def)
  have "fold (check_long (we_after e)) [0..<3] (buttons g, BTN_NONE) =
      (buttons (with_button i c g), if lg then long_event i else BTN_NONE)"
    by (simp only: check_others[OF assms(1)] check_long_button[OF assms(1,3)])
  from wait_result[OF _ _ this] show ?thesis using assms(2) c by auto
qed

text \<open>The time-out lets no held button pass the moment of its long press.\<close>

lemma effective_timeout_bound:
  assumes "b \<in> set bs" and "btn_pressed b" and "\<not> btn_long_reported b" and "now - btn_press_time b < OLD_LONG_PRESS_MS"
  shows "0 \<le> effective_timeout now tmo bs \<and>
    effective_timeout now tmo bs \<le> int (unat (OLD_LONG_PRESS_MS - (now - btn_press_time b)))"
proof -
  let ?R = "int (unat (OLD_LONG_PRESS_MS - (now - btn_press_time b)))"
  let ?f = "\<lambda>b t. if btn_pressed b \<and> \<not> btn_long_reported b then
         let elapsed = now - btn_press_time b
         in if elapsed < OLD_LONG_PRESS_MS then
              let remaining = int (unat (OLD_LONG_PRESS_MS - elapsed))
              in if t < 0 \<or> remaining < t then remaining else t
            else t
       else t"
  have keep: "0 \<le> ?f c t \<and> ?f c t \<le> ?R" if "0 \<le> t" "t \<le> ?R" for c t using that by (simp add: Let_def)
  have hit: "0 \<le> ?f b t \<and> ?f b t \<le> ?R" for t using assms(2-4) by (simp add: Let_def)
  have after: "0 \<le> t \<Longrightarrow> t \<le> ?R \<Longrightarrow> 0 \<le> fold ?f cs t \<and> fold ?f cs t \<le> ?R" for cs t
  proof (induction cs arbitrary: t)
    case (Cons c cs)
    have "0 \<le> ?f c t \<and> ?f c t \<le> ?R" by (rule keep[OF Cons.prems])
    then show ?case unfolding fold.simps comp_apply using Cons.IH by blast
  qed simp
  have "b \<in> set cs \<Longrightarrow> 0 \<le> fold ?f cs t \<and> fold ?f cs t \<le> ?R" for cs t
  proof (induction cs arbitrary: t)
    case (Cons c cs)
    show ?case
    proof (cases "b = c")
      case True
      then show ?thesis unfolding fold.simps comp_apply using hit after by blast
    next
      case False
      then show ?thesis unfolding fold.simps comp_apply using Cons by simp
    qed
  qed simp
  then show ?thesis using assms(1) unfolding effective_timeout_def by blast
qed

section \<open>Presses\<close>

text \<open>
  Waits that an edge of button \<open>i\<close> ends, at time \<open>t\<close> and with level \<open>v\<close>, and waits that time out; and
  the events of a sequence of waits.
\<close>

definition edge_wait :: "nat \<Rightarrow> char \<Rightarrow> u64 \<Rightarrow> wait_env" where
  "edge_wait i v t = \<lparr>we_now = t, we_poll = Poll_Edges {i}, we_after = t, we_read = (\<lambda>_. Some v)\<rparr>"

definition quiet_wait :: "u64 \<Rightarrow> wait_env" where
  "quiet_wait t = \<lparr>we_now = t, we_poll = Poll_Timeout, we_after = t, we_read = (\<lambda>_. None)\<rparr>"

fun waits :: "int \<Rightarrow> wait_env list \<Rightarrow> old_buttons \<Rightarrow> old_event list" where
  "waits tmo [] g = []"
| "waits tmo (e # es) g = (case gpio_button_wait e tmo g of (_, r, g) \<Rightarrow> r # waits tmo es g)"

declare waits.simps(2) [simp del]

lemma waits_edge:
  assumes "only_button i g" and "0 \<le> btn_fd (buttons g ! i)"
    and "edge_button t (v = pressed_value g) (buttons g ! i) = (b, ev)" and "long_button t b = (c, lg)"
  shows "waits tmo (edge_wait i v t # es) g =
    (if lg then long_event i else if ev then press_event i else BTN_NONE) # waits tmo es (with_button i c g)"
proof -
  have "reads_pressed (edge_wait i v t) i g \<longleftrightarrow> v = pressed_value g"
    using assms(1,2) by (simp add: reads_pressed_def gpio_read_value_def edge_wait_def only_button_def)
  then have "snd (gpio_button_wait (edge_wait i v t) tmo g) =
      (if lg then long_event i else if ev then press_event i else BTN_NONE, with_button i c g)"
    using assms by (intro wait_edge) (simp_all add: edge_wait_def)
  then show ?thesis by (cases "gpio_button_wait (edge_wait i v t) tmo g") (simp add: waits.simps)
qed

lemma waits_quiet:
  assumes "only_button i g" and "long_button t (buttons g ! i) = (c, lg)"
  shows "waits tmo (quiet_wait t # es) g = (if lg then long_event i else BTN_NONE) # waits tmo es (with_button i c g)"
proof -
  have "snd (gpio_button_wait (quiet_wait t) tmo g) = (if lg then long_event i else BTN_NONE, with_button i c g)"
    using assms by (intro wait_quiet) (simp_all add: quiet_wait_def)
  then show ?thesis by (cases "gpio_button_wait (quiet_wait t) tmo g") (simp add: waits.simps)
qed

text \<open>A button at rest, and after an accepted press edge at \<open>t\<close>.\<close>

definition rest_button :: "old_button \<Rightarrow> bool" where
  [wf_defs]: "rest_button b \<longleftrightarrow> 0 \<le> btn_fd b \<and> \<not> btn_pressed b \<and> btn_last_edge_ms b = 0"

definition held_button :: "u64 \<Rightarrow> bool \<Rightarrow> old_button \<Rightarrow> old_button" where
  "held_button t reported b =
     b\<lparr>btn_last_edge_ms := t, btn_pressed := True, btn_press_time := t, btn_long_reported := reported\<rparr>"

lemma held_button_fd [simp]: "btn_fd (held_button t l b) = btn_fd b"
  by (simp add: held_button_def)

lemma press_state:
  assumes "only_button i g" and "rest_button (buttons g ! i)"
  shows "snd (gpio_button_wait (edge_wait i (pressed_value g) t) tmo g) =
    (BTN_NONE, with_button i (held_button t False (buttons g ! i)) g)"
proof -
  let ?b = "held_button t False (buttons g ! i)" let ?e = "edge_wait i (pressed_value g) t"
  have "reads_pressed ?e i g"
    using assms by (simp add: reads_pressed_def gpio_read_value_def edge_wait_def only_button_def rest_button_def)
  then have "edge_button (we_after ?e) (reads_pressed ?e i g) (buttons g ! i) = (?b, False)"
    using assms(2) by (simp add: rest_button_def edge_button_def held_button_def edge_wait_def)
  moreover have "long_button (we_after ?e) ?b = (?b, False)"
    by (simp add: long_button_def held_button_def edge_wait_def)
  ultimately show ?thesis using wait_edge[OF assms(1), of ?e ?b False ?b False] by (simp add: edge_wait_def)
qed

lemma waits_press:
  assumes "only_button i g" and "rest_button (buttons g ! i)"
  shows "waits tmo (edge_wait i (pressed_value g) t # es) g =
    BTN_NONE # waits tmo es (with_button i (held_button t False (buttons g ! i)) g)"
  using press_state[OF assms, of t tmo]
  by (cases "gpio_button_wait (edge_wait i (pressed_value g) t) tmo g") (simp add: waits.simps)

lemma wait_timeout: "fst (gpio_button_wait e tmo g) = effective_timeout (we_now e) tmo (buttons g)"
  by (simp add: gpio_button_wait_def Let_def split: prod.split)

text \<open>The ends of a press: a release in time, a wait while it is held, a release that is too early.\<close>

lemma waits_release:
  assumes "only_button i g" and "0 \<le> btn_fd b" and "v \<noteq> pressed_value g" and "30 \<le> u - t"
  shows "waits tmo (edge_wait i v u # es) (with_button i (held_button t l b) g) =
    (if l then BTN_NONE else press_event i) #
      waits tmo es (with_button i ((held_button t l b)\<lparr>btn_last_edge_ms := u, btn_pressed := False\<rparr>) g)"
proof -
  let ?g = "with_button i (held_button t l b) g" let ?c = "(held_button t l b)\<lparr>btn_last_edge_ms := u, btn_pressed := False\<rparr>"
  have "edge_button u (v = pressed_value ?g) (buttons ?g ! i) = (?c, \<not> l)"
    using assms by (simp add: edge_button_def held_button_def not_less[symmetric])
  moreover have "long_button u ?c = (?c, False)" by (simp add: long_button_def held_button_def)
  moreover have "0 \<le> btn_fd (buttons ?g ! i)" using assms by simp
  ultimately show ?thesis using waits_edge[OF only_with[OF assms(1)]] by fastforce
qed

lemma waits_bounce:
  assumes "only_button i g" and "0 \<le> btn_fd b" and "t \<noteq> 0" and "u - t < 30"
  shows "waits tmo (edge_wait i v u # es) (with_button i (held_button t l b) g) =
    BTN_NONE # waits tmo es (with_button i (held_button t l b) g)"
proof -
  let ?b = "held_button t l b" let ?g = "with_button i ?b g"
  have "edge_button u (v = pressed_value ?g) (buttons ?g ! i) = (?b, False)"
    using assms by (simp add: edge_button_def held_button_def)
  moreover have "u - t < 600" using assms(4) by (rule less_trans) simp
  then have "long_button u ?b = (?b, False)" by (simp add: long_button_def held_button_def not_le)
  moreover have "0 \<le> btn_fd (buttons ?g ! i)" using assms by simp
  ultimately show ?thesis using waits_edge[OF only_with[OF assms(1)]] by fastforce
qed

lemma waits_held:
  assumes "only_button i g" and "600 \<le> w - t"
  shows "waits tmo (quiet_wait w # es) (with_button i (held_button t False b) g) =
    long_event i # waits tmo es (with_button i (held_button t True b) g)"
proof -
  let ?g = "with_button i (held_button t False b) g"
  have "long_button w (buttons ?g ! i) = (held_button t True b, True)"
    using assms by (simp add: long_button_def held_button_def)
  from waits_quiet[OF only_with[OF assms(1)] this] show ?thesis by simp
qed

lemma waits_again:
  assumes "only_button i g" and "0 \<le> btn_fd b" and "v \<noteq> pressed_value g" and "30 \<le> t' - t" and "30 \<le> u' - t'"
  shows "waits tmo [edge_wait i (pressed_value g) t', edge_wait i v u'] (with_button i (held_button t True b) g) =
    [BTN_NONE, BTN_NONE]"
proof -
  let ?b = "held_button t True b" let ?c = "?b\<lparr>btn_last_edge_ms := t'\<rparr>" let ?d = "?c\<lparr>btn_last_edge_ms := u', btn_pressed := False\<rparr>"
  have c: "edge_button t' True ?b = (?c, False)" "long_button t' ?c = (?c, False)"
    using assms(4) by (simp_all add: edge_button_def long_button_def held_button_def leD)
  have d: "edge_button u' False ?c = (?d, False)" "long_button u' ?d = (?d, False)"
    using assms(5) by (simp_all add: edge_button_def long_button_def held_button_def leD)
  show ?thesis
    using waits_edge[OF only_with[OF assms(1)], where b = ?c and c = ?c and ev = False and lg = False and v = "pressed_value g" and t = t']
      waits_edge[OF only_with[OF assms(1)], where b = ?d and c = ?d and ev = False and lg = False and v = v and t = u']
      assms(1-3) c d by simp
qed

end
