(* ===== verification/Old_Main.thy ===== *)
theory Old_Main
  imports Old_Buttons C_Float
begin

text \<open>
  The user interface of the first version of the program (\<open>src_old/main.c\<close>): four pages, the menu of
  the services page, the animation of the title, and the loop that waits for a button until
  the next deadline. The list of services is \<open>sys_status.services\<close> up to \<open>service_count\<close>. Drawing
  is recorded as the number of pictures sent; the slides are in \<open>Old_Slide\<close>.
\<close>

abbreviation (input) MENU_TIMEOUT_MS :: u64 where "MENU_TIMEOUT_MS \<equiv> 10000"
abbreviation (input) FRAME_INTERVAL_MS :: u64 where "FRAME_INTERVAL_MS \<equiv> 100"
abbreviation (input) FRAME_INTERVAL_ANIM_MS :: u64 where "FRAME_INTERVAL_ANIM_MS \<equiv> 16"
abbreviation (input) STATUS_UPDATE_MS :: u64 where "STATUS_UPDATE_MS \<equiv> 1000"
abbreviation (input) SERVICE_REFRESH_MS :: u64 where "SERVICE_REFRESH_MS \<equiv> 5000"
abbreviation (input) OLD_PAGE_COUNT :: nat where "OLD_PAGE_COUNT \<equiv> 4"
abbreviation (input) OLD_PAGE_NETWORK :: nat where "OLD_PAGE_NETWORK \<equiv> 1"
abbreviation (input) OLD_PAGE_SERVICES :: nat where "OLD_PAGE_SERVICES \<equiv> 2"
abbreviation (input) OLD_MAX_SERVICES :: nat where "OLD_MAX_SERVICES \<equiv> 4"
abbreviation (input) TITLE_ANIM_ENTER_FRAMES :: nat where "TITLE_ANIM_ENTER_FRAMES \<equiv> 5"
abbreviation (input) TITLE_ANIM_REJECT_FRAMES :: nat where "TITLE_ANIM_REJECT_FRAMES \<equiv> 11"

datatype title_anim = TITLE_ANIM_NONE | TITLE_ANIM_ENTER | TITLE_ANIM_REJECT

definition reject_offsets :: "int list" where
  "reject_offsets = [35, 35, 35, -18, -18, 12, 12, -6, 3, 0, 0]"

record old_service =
  os_name :: string
  os_running :: bool

record old_main =
  om_page :: nat
  om_services :: "old_service list"
  display_on :: bool
  menu_active :: bool
  menu_selected :: nat
  menu_last_input_ms :: u64
  title_anim_type :: title_anim
  anim_frame :: nat
  anim_target_x :: int
  dirty :: bool
  next_frame_ms :: u64
  next_status_ms :: u64
  next_service_ms :: u64
  om_buttons :: old_buttons
  om_drawn :: nat
  om_slides :: "(nat \<times> nat \<times> int) list"

definition mark_dirty :: "old_main \<Rightarrow> old_main" where
  [step_defs]: "mark_dirty m = m\<lparr>dirty := True\<rparr>"

definition is_animating :: "old_main \<Rightarrow> bool" where
  "is_animating m \<longleftrightarrow> title_anim_type m \<noteq> TITLE_ANIM_NONE"

section \<open>The title\<close>

definition get_title_anim_offset :: "old_main \<Rightarrow> int" where
  "get_title_anim_offset m =
     (case title_anim_type m of
        TITLE_ANIM_NONE \<Rightarrow> 0
      | TITLE_ANIM_REJECT \<Rightarrow>
          if anim_frame m < TITLE_ANIM_REJECT_FRAMES then reject_offsets ! anim_frame m else 0
      | TITLE_ANIM_ENTER \<Rightarrow>
          let t = f32_div (f32_of_int (int (anim_frame m))) (f32_of_int (int TITLE_ANIM_ENTER_FRAMES))
          in c_int_of_float (f32_mul t (f32_of_int (anim_target_x m))))"

text \<open>Where a title of width \<open>w\<close> is drawn (\<open>draw_header\<close>), and the centre the menu title aims at.\<close>

definition centered_x :: "int \<Rightarrow> int" where
  "centered_x w = (let x = c_div (128 - w) 2 in if x < 0 then 0 else x)"

definition title_x :: "bool \<Rightarrow> int \<Rightarrow> old_main \<Rightarrow> int" where
  "title_x centered w m =
     (let base_x = (if centered then centered_x w else 0);
          x = base_x + get_title_anim_offset m
      in if x < 0 then 0 else x)"

definition advance_title_anim :: "old_main \<Rightarrow> bool \<times> old_main" where
  "advance_title_anim m =
     (if title_anim_type m = TITLE_ANIM_NONE then (False, m)
      else
        let m = m\<lparr>anim_frame := anim_frame m + 1\<rparr>;
            max_frames = (if title_anim_type m = TITLE_ANIM_ENTER then TITLE_ANIM_ENTER_FRAMES else TITLE_ANIM_REJECT_FRAMES)
        in if anim_frame m \<ge> max_frames then (False, m\<lparr>title_anim_type := TITLE_ANIM_NONE, anim_frame := 0\<rparr>)
           else (True, m))"

definition start_title_anim :: "title_anim \<Rightarrow> int \<Rightarrow> old_main \<Rightarrow> old_main" where
  [step_defs]: "start_title_anim type target_x m =
     mark_dirty (m\<lparr>title_anim_type := type, anim_frame := 0, anim_target_x := target_x\<rparr>)"

text \<open>Drawing the menu puts a selection behind the last service back to the first one.\<close>

definition draw_current_page :: "old_main \<Rightarrow> old_main" where
  "draw_current_page m =
     (if \<not> display_on m then m
      else
        let m = (if om_page m = OLD_PAGE_SERVICES \<and> menu_active m \<and> om_services m \<noteq> [] \<and>
                    menu_selected m \<ge> length (om_services m)
                 then m\<lparr>menu_selected := 0\<rparr> else m)
        in m\<lparr>om_drawn := om_drawn m + 1\<rparr>)"

section \<open>Buttons\<close>

definition page_supports_menu :: "nat \<Rightarrow> bool" where
  "page_supports_menu page \<longleftrightarrow> page = OLD_PAGE_SERVICES"

text \<open>
  The environment of a button: the clock, the services that an update finds, whether an action on
  a service succeeds, and the width of the title of the menu.
\<close>

record button_env =
  he_now :: u64
  he_services :: "old_service list"
  he_action_ok :: bool
  he_title_w :: int

definition menu_touch :: "u64 \<Rightarrow> old_main \<Rightarrow> old_main" where
  [step_defs]: "menu_touch now m = m\<lparr>menu_last_input_ms := now\<rparr>"

definition menu_enter :: "button_env \<Rightarrow> old_main \<Rightarrow> old_main" where
  [step_defs]: "menu_enter e m =
     (menu_touch (he_now e) (m\<lparr>menu_active := True, menu_selected := 0\<rparr>))\<lparr>om_services := he_services e\<rparr>"

definition menu_exit :: "old_main \<Rightarrow> old_main" where
  [step_defs]: "menu_exit m = m\<lparr>menu_active := False\<rparr>"

definition toggle_display :: "old_main \<Rightarrow> old_main" where
  [step_defs]: "toggle_display m =
     (let m = m\<lparr>display_on := \<not> display_on m\<rparr>
      in if display_on m then mark_dirty m else m\<lparr>title_anim_type := TITLE_ANIM_NONE\<rparr>)"

definition transition :: "nat \<Rightarrow> nat \<Rightarrow> int \<Rightarrow> old_main \<Rightarrow> old_main" where
  [step_defs]: "transition old new direction m =
     (if \<not> display_on m then m else m\<lparr>om_slides := om_slides m @ [(old, new, direction)]\<rparr>)"

text \<open>A button while the menu is open.\<close>

definition handle_menu_button :: "button_env \<Rightarrow> old_event \<Rightarrow> old_main \<Rightarrow> old_main" where
  "handle_menu_button e event m =
     (let cnt = length (om_services m);
          m = (if cnt > 0 \<and> menu_selected m \<ge> cnt then m\<lparr>menu_selected := 0\<rparr> else m)
      in case event of
           BTN_K1_PRESS \<Rightarrow>
             if cnt > 0 then mark_dirty (menu_touch (he_now e) (m\<lparr>menu_selected := (menu_selected m + cnt - 1) mod cnt\<rparr>)) else m
         | BTN_K3_PRESS \<Rightarrow>
             if cnt > 0 then mark_dirty (menu_touch (he_now e) (m\<lparr>menu_selected := (menu_selected m + 1) mod cnt\<rparr>)) else m
         | BTN_K2_PRESS \<Rightarrow>
             if cnt > 0 then
               let svc = om_services m ! menu_selected m;
                   m = (if he_action_ok e
                        then m\<lparr>om_services := (om_services m)[menu_selected m := svc\<lparr>os_running := \<not> os_running svc\<rparr>]\<rparr>
                        else m)
               in mark_dirty (menu_touch (he_now e) m)
             else m
         | BTN_K2_LONG_PRESS \<Rightarrow> mark_dirty (menu_exit m)
         | _ \<Rightarrow> m)"

definition go_to_page :: "button_env \<Rightarrow> nat \<Rightarrow> int \<Rightarrow> old_main \<Rightarrow> old_main" where
  "go_to_page e new_page direction m =
     (let old_page = om_page m;
          m = m\<lparr>om_page := new_page\<rparr>;
          m = (if om_page m = OLD_PAGE_SERVICES \<or> old_page = OLD_PAGE_SERVICES
               then m\<lparr>om_services := he_services e\<rparr> else m)
      in transition old_page new_page direction m)"

definition old_handle_button :: "button_env \<Rightarrow> old_event \<Rightarrow> old_main \<Rightarrow> old_main" where
  "old_handle_button e event m =
     (if \<not> display_on m then toggle_display m
      else if menu_active m then handle_menu_button e event m
      else case event of
             BTN_K1_PRESS \<Rightarrow>
               go_to_page e (if om_page m > 0 then om_page m - 1 else OLD_PAGE_COUNT - 1) (-1) m
           | BTN_K3_PRESS \<Rightarrow> go_to_page e ((om_page m + 1) mod OLD_PAGE_COUNT) 1 m
           | BTN_K2_PRESS \<Rightarrow> toggle_display m
           | BTN_K2_LONG_PRESS \<Rightarrow>
               if page_supports_menu (om_page m)
               then mark_dirty (start_title_anim TITLE_ANIM_ENTER (centered_x (he_title_w e)) (menu_enter e m))
               else mark_dirty (start_title_anim TITLE_ANIM_REJECT 0 m)
           | _ \<Rightarrow> m)"

section \<open>The loop\<close>

text \<open>\<open>int64_t\<close> differences of deadlines, the smallest of them clamped to 0 and 1000.\<close>

definition loop_timeout :: "u64 \<Rightarrow> old_main \<Rightarrow> int" where
  "loop_timeout now_ms m =
     (let timeout = sint (next_frame_ms m - now_ms);
          status_wait = sint (next_status_ms m - now_ms);
          timeout = (if status_wait < timeout then status_wait else timeout);
          service_wait = sint (next_service_ms m - now_ms);
          timeout = (if om_page m = OLD_PAGE_SERVICES \<and> service_wait < timeout then service_wait else timeout);
          menu_wait = sint (menu_last_input_ms m + MENU_TIMEOUT_MS - now_ms);
          timeout = (if menu_active m \<and> menu_wait < timeout then menu_wait else timeout);
          timeout = (if timeout < 0 then 0 else timeout)
      in if timeout > 1000 then 1000 else timeout)"

definition timed_tasks :: "u64 \<Rightarrow> old_service list \<Rightarrow> old_main \<Rightarrow> old_main" where
  "timed_tasks now_ms svcs m =
     (let m = (if now_ms \<ge> next_status_ms m
               then (mark_dirty m)\<lparr>next_status_ms := now_ms + STATUS_UPDATE_MS\<rparr> else m);
          m = (if om_page m = OLD_PAGE_SERVICES \<and> now_ms \<ge> next_service_ms m
               then (mark_dirty (m\<lparr>om_services := svcs\<rparr>))\<lparr>next_service_ms := now_ms + SERVICE_REFRESH_MS\<rparr> else m)
      in if menu_active m \<and> now_ms \<ge> menu_last_input_ms m + MENU_TIMEOUT_MS
         then mark_dirty (menu_exit m) else m)"

text \<open>The loop that moves the next frame past the present; \<open>None\<close> if it does not end.\<close>

partial_function (option) catch_up :: "u64 \<Rightarrow> u64 \<Rightarrow> u64 \<Rightarrow> u64 option" where
  "catch_up frame_interval now_ms frame_ms =
     (if frame_ms \<le> now_ms then catch_up frame_interval now_ms (frame_ms + frame_interval) else Some frame_ms)"

definition render_frame :: "u64 \<Rightarrow> old_main \<Rightarrow> old_main option" where
  "render_frame now_ms m =
     (if dirty m \<or> is_animating m then
        let m = (if next_frame_ms m > now_ms + FRAME_INTERVAL_ANIM_MS then m\<lparr>next_frame_ms := now_ms\<rparr> else m)
        in if now_ms \<ge> next_frame_ms m then
             let m = (if display_on m
                      then (let (more, m) = advance_title_anim (draw_current_page m) in if more then mark_dirty m else m)
                      else m);
                 m = m\<lparr>dirty := False\<rparr>;
                 frame_interval = (if is_animating m then FRAME_INTERVAL_ANIM_MS else FRAME_INTERVAL_MS)
             in map_option (\<lambda>t. m\<lparr>next_frame_ms := t\<rparr>)
                  (catch_up frame_interval now_ms (next_frame_ms m + frame_interval))
           else Some m
      else Some (m\<lparr>next_frame_ms := now_ms + 10000\<rparr>))"

text \<open>One round: the wait for a button, its handling, the tasks that are due, and the picture.\<close>

record round_env =
  re_start :: u64
  re_wait :: wait_env
  re_button :: button_env
  re_now :: u64
  re_services :: "old_service list"

definition main_round :: "round_env \<Rightarrow> old_main \<Rightarrow> old_main option" where
  "main_round e m =
     (let (_, event, bs) = gpio_button_wait (re_wait e) (loop_timeout (re_start e) m) (om_buttons m);
          m = m\<lparr>om_buttons := bs\<rparr>;
          m = (if event \<noteq> BTN_NONE then old_handle_button (re_button e) event m else m)
      in render_frame (re_now e) (timed_tasks (re_now e) (re_services e) m))"

text \<open>The state in which the loop starts, with the pictures drawn before it.\<close>

definition main_begin :: "u64 \<Rightarrow> old_service list \<Rightarrow> old_buttons \<Rightarrow> old_main" where
  "main_begin now_ms svcs bs =
     (draw_current_page \<lparr>om_page = OLD_PAGE_NETWORK, om_services = svcs, display_on = True, menu_active = False,
        menu_selected = 0, menu_last_input_ms = 0, title_anim_type = TITLE_ANIM_NONE, anim_frame = 0, anim_target_x = 0,
        dirty = True, next_frame_ms = now_ms + FRAME_INTERVAL_MS, next_status_ms = now_ms + STATUS_UPDATE_MS,
        next_service_ms = now_ms + SERVICE_REFRESH_MS, om_buttons = bs, om_drawn = 0, om_slides = []\<rparr>)
       \<lparr>dirty := False\<rparr>"

section \<open>The state of the interface\<close>

text \<open>
  The menu is open only on its page with the screen on, indices are in range, and no animation
  runs while the screen is off.
\<close>

definition old_inv :: "old_main \<Rightarrow> bool" where
  [wf_defs]: "old_inv m \<longleftrightarrow>
     om_page m < OLD_PAGE_COUNT \<and> length (om_services m) \<le> OLD_MAX_SERVICES \<and>
     menu_selected m < OLD_MAX_SERVICES \<and>
     (menu_active m \<longrightarrow> om_page m = OLD_PAGE_SERVICES \<and> display_on m) \<and>
     (title_anim_type m = TITLE_ANIM_ENTER \<longrightarrow> anim_frame m < TITLE_ANIM_ENTER_FRAMES) \<and>
     (title_anim_type m = TITLE_ANIM_REJECT \<longrightarrow> anim_frame m < TITLE_ANIM_REJECT_FRAMES) \<and>
     (\<not> display_on m \<longrightarrow> title_anim_type m = TITLE_ANIM_NONE)"

lemma mod_less_four: "0 < c \<Longrightarrow> c \<le> 4 \<Longrightarrow> k mod c < (4 :: nat)"
  using mod_less_divisor[of c k] by linarith

lemma menu_button_inv: "old_inv m \<Longrightarrow> menu_active m \<Longrightarrow> old_inv (handle_menu_button e event m)"
  by (cases event) (auto simp: old_inv_def handle_menu_button_def Let_def mark_dirty_def menu_touch_def menu_exit_def
      mod_less_four)

lemma go_to_page_inv:
  "old_inv m \<Longrightarrow> \<not> menu_active m \<Longrightarrow> p < OLD_PAGE_COUNT \<Longrightarrow> length (he_services e) \<le> OLD_MAX_SERVICES \<Longrightarrow>
   old_inv (go_to_page e p d m)"
  by (simp add: old_inv_def go_to_page_def transition_def Let_def)

lemma old_handle_button_inv:
  assumes "old_inv m" and "length (he_services e) \<le> OLD_MAX_SERVICES"
  shows "old_inv (old_handle_button e event m)"
proof -
  have p: "om_page m < 4" using assms(1) by (simp add: old_inv_def)
  then have prev: "(if om_page m > 0 then om_page m - 1 else OLD_PAGE_COUNT - 1) < OLD_PAGE_COUNT" by auto
  consider "\<not> display_on m" | "display_on m" "menu_active m" | "display_on m" "\<not> menu_active m" by blast
  then show ?thesis
  proof cases
    case 1
    then show ?thesis using assms(1) by (simp add: old_handle_button_def old_inv_def step_defs Let_def)
  next
    case 2
    then show ?thesis using assms(1) by (simp add: old_handle_button_def menu_button_inv)
  next
    case 3
    then show ?thesis using assms p
      by (cases event)
        (simp_all add: old_handle_button_def go_to_page_inv prev,
         simp_all add: old_inv_def step_defs Let_def page_supports_menu_def)
  qed
qed

lemma timed_tasks_inv:
  "old_inv m \<Longrightarrow> length svcs \<le> OLD_MAX_SERVICES \<Longrightarrow> old_inv (timed_tasks now svcs m)"
  by (simp add: timed_tasks_def old_inv_def step_defs Let_def)

lemma draw_inv: "old_inv m \<Longrightarrow> old_inv (draw_current_page m)"
  by (auto simp: draw_current_page_def old_inv_def Let_def)

lemma advance_inv: "old_inv m \<Longrightarrow> advance_title_anim m = (b, m') \<Longrightarrow> old_inv m'"
  by (cases "title_anim_type m") (auto simp: advance_title_anim_def old_inv_def Let_def split: if_splits)

text \<open>The picture of a frame: what is drawn, and the animation one step further.\<close>

definition drawn :: "old_main \<Rightarrow> old_main" where
  "drawn m =
     (if display_on m then (let (more, m) = advance_title_anim (draw_current_page m) in if more then mark_dirty m else m)
      else m)\<lparr>dirty := False\<rparr>"

lemma drawn_inv: "old_inv m \<Longrightarrow> old_inv (drawn m)"
  using advance_inv[OF draw_inv, of m]
  by (cases "advance_title_anim (draw_current_page m)") (auto simp: drawn_def mark_dirty_def old_inv_def)

lemma drawn_next: "drawn (m\<lparr>next_frame_ms := f\<rparr>) = (drawn m)\<lparr>next_frame_ms := f\<rparr>"
proof -
  have d: "draw_current_page (m\<lparr>next_frame_ms := f\<rparr>) = (draw_current_page m)\<lparr>next_frame_ms := f\<rparr>"
    by (simp add: draw_current_page_def Let_def)
  have a: "advance_title_anim (k\<lparr>next_frame_ms := f\<rparr>) =
      (let (b, k) = advance_title_anim k in (b, k\<lparr>next_frame_ms := f\<rparr>))" for k
    by (simp add: advance_title_anim_def Let_def)
  show ?thesis
    by (cases "advance_title_anim (draw_current_page m)") (simp add: drawn_def d a mark_dirty_def)
qed

definition frame_interval :: "old_main \<Rightarrow> u64" where
  "frame_interval m = (if is_animating m then FRAME_INTERVAL_ANIM_MS else FRAME_INTERVAL_MS)"

lemma render_frame_eq:
  "render_frame now m =
     (if dirty m \<or> is_animating m then
        let f = (if next_frame_ms m > now + FRAME_INTERVAL_ANIM_MS then now else next_frame_ms m)
        in if now \<ge> f
           then map_option (\<lambda>t. (drawn m)\<lparr>next_frame_ms := t\<rparr>) (catch_up (frame_interval (drawn m)) now (f + frame_interval (drawn m)))
           else Some m
      else Some (m\<lparr>next_frame_ms := now + 10000\<rparr>))"
proof -
  have a: "is_animating (k\<lparr>next_frame_ms := f\<rparr>) = is_animating k" for k f by (simp add: is_animating_def)
  have n: "next_frame_ms (drawn k) = next_frame_ms k" for k
    by (cases "advance_title_anim (draw_current_page k)")
      (auto simp: drawn_def advance_title_anim_def draw_current_page_def mark_dirty_def Let_def split: if_splits)
  have r: "render_frame now m =
     (if dirty m \<or> is_animating m then
        let k = (if next_frame_ms m > now + FRAME_INTERVAL_ANIM_MS then m\<lparr>next_frame_ms := now\<rparr> else m)
        in if now \<ge> next_frame_ms k
           then map_option (\<lambda>t. (drawn k)\<lparr>next_frame_ms := t\<rparr>) (catch_up (frame_interval (drawn k)) now (next_frame_ms (drawn k) + frame_interval (drawn k)))
           else Some k
      else Some (m\<lparr>next_frame_ms := now + 10000\<rparr>))"
    by (simp only: render_frame_def drawn_def frame_interval_def Let_def)
  show ?thesis
    by (simp add: r n drawn_next frame_interval_def a Let_def)
qed

section \<open>Deadlines\<close>

lemma unat_plus_small: "unat a + unat b < 2 ^ 64 \<Longrightarrow> unat (a + b :: u64) = unat a + unat b"
  by (simp add: unat_word_ariths)

text \<open>The clock is far from its end.\<close>

abbreviation (input) early :: "u64 \<Rightarrow> bool" where "early now \<equiv> unat now < 2 ^ 62"

lemma catch_up_returns:
  assumes "0 < unat d" and "unat now + unat d < 2 ^ 64" and "unat f \<le> unat now + unat d"
  shows "\<exists>t. catch_up d now f = Some t \<and> now < t \<and> unat t \<le> unat now + unat d"
  using assms(3)
proof (induction "Suc (unat now) - unat f" arbitrary: f rule: less_induct)
  case less
  show ?case
  proof (cases "f \<le> now")
    case True
    then have f: "unat f \<le> unat now" by (simp add: word_le_nat_alt)
    then have s: "unat (f + d) = unat f + unat d" using assms(2) by (intro unat_plus_small) linarith
    have "Suc (unat now) - unat (f + d) < Suc (unat now) - unat f" using s assms(1) f by linarith
    from less.hyps[OF this] show ?thesis using True s f by (subst catch_up.simps) simp
  next
    case False
    then have "catch_up d now f = Some f" by (subst catch_up.simps) simp
    then show ?thesis using less.prems False by (simp add: not_le)
  qed
qed

text \<open>
  What holds of the deadlines when a time \<open>now\<close> is read, and what a round makes of it: every
  deadline lies ahead, and a picture that is to be drawn is due within 16 ms.
\<close>

definition times_ok :: "u64 \<Rightarrow> old_main \<Rightarrow> bool" where
  [wf_defs]: "times_ok now m \<longleftrightarrow>
     unat (next_frame_ms m) \<le> unat now + 10000 \<and> unat (next_status_ms m) \<le> unat now + 1000 \<and>
     unat (next_service_ms m) \<le> unat now + 5000 \<and> menu_last_input_ms m \<le> now"

definition tasks_ahead :: "u64 \<Rightarrow> old_main \<Rightarrow> bool" where
  [wf_defs]: "tasks_ahead now m \<longleftrightarrow>
     now < next_status_ms m \<and> (om_page m = OLD_PAGE_SERVICES \<longrightarrow> now < next_service_ms m) \<and>
     (menu_active m \<longrightarrow> now < menu_last_input_ms m + MENU_TIMEOUT_MS)"

definition frame_ahead :: "u64 \<Rightarrow> old_main \<Rightarrow> bool" where
  [wf_defs]: "frame_ahead now m \<longleftrightarrow>
     now < next_frame_ms m \<and> (dirty m \<or> is_animating m \<longrightarrow> next_frame_ms m \<le> now + FRAME_INTERVAL_ANIM_MS)"

lemma times_later: "times_ok now m \<Longrightarrow> now \<le> now' \<Longrightarrow> times_ok now' m"
  by (auto simp: times_ok_def word_le_nat_alt)

lemma handle_button_times:
  assumes "times_ok now m" and "he_now e \<le> now"
  shows "times_ok now (old_handle_button e event m)"
  using assms
  by (cases event) (auto simp: old_handle_button_def handle_menu_button_def go_to_page_def times_ok_def step_defs Let_def)

lemma timed_tasks_times:
  assumes "times_ok now m" and "early now"
  shows "times_ok now (timed_tasks now svcs m) \<and> tasks_ahead now (timed_tasks now svcs m)"
proof -
  have k: "unat (now + 1000) = unat now + 1000" "unat (now + 5000) = unat now + 5000"
    using assms(2) by (simp_all add: unat_plus_small)
  then have "now < now + 1000" "now < now + 5000" by (simp_all add: word_less_nat_alt)
  then show ?thesis using assms(1) k
    by (auto simp: timed_tasks_def times_ok_def tasks_ahead_def step_defs Let_def not_le)
qed

lemma drawn_frame:
  "next_status_ms (drawn m) = next_status_ms m" "next_service_ms (drawn m) = next_service_ms m"
  "menu_last_input_ms (drawn m) = menu_last_input_ms m" "menu_active (drawn m) = menu_active m"
  "om_page (drawn m) = om_page m" "\<not> dirty (drawn m)" "om_services (drawn m) = om_services m"
  "display_on (drawn m) = display_on m"
  by (auto simp: drawn_def advance_title_anim_def draw_current_page_def mark_dirty_def Let_def split: if_splits prod.splits)

lemma render_frame_ahead:
  assumes "times_ok now m" and "tasks_ahead now m" and "early now"
  shows "\<exists>m'. render_frame now m = Some m' \<and> times_ok now m' \<and> tasks_ahead now m' \<and> frame_ahead now m' \<and>
    (old_inv m \<longrightarrow> old_inv m')"
proof -
  have k: "unat (now + 16) = unat now + 16" "unat (now + 100) = unat now + 100" "unat (now + 10000) = unat now + 10000"
    using assms(3) by (simp_all add: unat_plus_small)
  show ?thesis
  proof (cases "dirty m \<or> is_animating m")
    case False
    then show ?thesis using assms k
      by (auto simp: render_frame_eq times_ok_def tasks_ahead_def frame_ahead_def is_animating_def old_inv_def word_less_nat_alt)
  next
    case True
    let ?f = "if next_frame_ms m > now + FRAME_INTERVAL_ANIM_MS then now else next_frame_ms m"
    let ?d = "frame_interval (drawn m)"
    show ?thesis
    proof (cases "?f \<le> now")
      case late: True
      have d: "unat ?d = 16 \<or> unat ?d = 100" "is_animating (drawn m) \<longrightarrow> unat ?d = 16"
        by (simp_all add: frame_interval_def)
      have f: "unat ?f \<le> unat now" using late by (simp add: word_le_nat_alt)
      have sum: "unat (?f + ?d) = unat ?f + unat ?d"
        using f d(1) assms(3) by (intro unat_plus_small) (elim disjE; simp)
      obtain t where t: "catch_up ?d now (?f + ?d) = Some t" "now < t" "unat t \<le> unat now + unat ?d"
        using catch_up_returns[of ?d now "?f + ?d"] d(1) f assms(3) sum by fastforce
      have "render_frame now m = Some ((drawn m)\<lparr>next_frame_ms := t\<rparr>)"
        using True late t(1) by (simp add: render_frame_eq Let_def)
      moreover have "times_ok now ((drawn m)\<lparr>next_frame_ms := t\<rparr>)"
        using assms(1) t(3) d(1) by (auto simp: times_ok_def drawn_frame)
      moreover have "frame_ahead now ((drawn m)\<lparr>next_frame_ms := t\<rparr>)"
        using t d(2) k(1) by (auto simp: frame_ahead_def drawn_frame is_animating_def word_le_nat_alt)
      moreover have "tasks_ahead now ((drawn m)\<lparr>next_frame_ms := t\<rparr>)"
        using assms(2) by (simp add: tasks_ahead_def drawn_frame)
      moreover have "old_inv m \<longrightarrow> old_inv ((drawn m)\<lparr>next_frame_ms := t\<rparr>)"
        using drawn_inv[of m] by (simp add: old_inv_def)
      ultimately show ?thesis by blast
    next
      case False
      then have "now < next_frame_ms m" "next_frame_ms m \<le> now + 16" by (simp_all add: not_le split: if_splits)
      then show ?thesis using True False assms
        by (simp add: render_frame_eq Let_def frame_ahead_def)
    qed
  qed
qed

text \<open>With every deadline ahead the loop waits, and not for longer than a second.\<close>

lemma sint_ahead:
  assumes "now < (x :: u64)" and "unat x \<le> unat now + 10000"
  shows "sint (x - now) = int (unat x - unat now)"
proof -
  have u: "unat (x - now) = unat x - unat now" using assms(1) by (simp add: unat_diff_le)
  have i: "uint (x - now) = int (unat x - unat now)" by (simp only: u[symmetric] uint_nat)
  have "signed_take_bit 63 (uint (x - now)) = uint (x - now)"
    unfolding i using assms(2) by (intro signed_take_bit_int_eq_self) simp_all
  then show ?thesis by (simp add: sint_uint i)
qed

lemma timeout_ahead:
  assumes "times_ok now m" and "tasks_ahead now m" and "frame_ahead now m" and "early now"
  shows "1 \<le> loop_timeout now m \<and> loop_timeout now m \<le> 1000 \<and>
    (dirty m \<or> is_animating m \<longrightarrow> loop_timeout now m \<le> 16)"
proof -
  have "unat (menu_last_input_ms m) \<le> unat now" using assms(1) by (simp add: times_ok_def word_le_nat_alt)
  then have menu: "unat (menu_last_input_ms m + MENU_TIMEOUT_MS) \<le> unat now + 10000"
    using assms(4) by (simp add: unat_plus_small)
  have pos: "1 \<le> sint (x - now)" if "now < x" "unat x \<le> unat now + 10000" for x
  proof -
    have "1 \<le> unat x - unat now" using that(1) by (simp add: word_less_nat_alt)
    then show ?thesis unfolding sint_ahead[OF that] by linarith
  qed
  have "unat (now + 16) = unat now + 16" using assms(4) by (simp add: unat_plus_small)
  then have frame: "dirty m \<or> is_animating m \<Longrightarrow> sint (next_frame_ms m - now) \<le> 16"
    using assms(1,3) sint_ahead[of now "next_frame_ms m"] by (simp add: times_ok_def frame_ahead_def word_le_nat_alt le_diff_conv)
  show ?thesis
    using pos[of "next_frame_ms m"] pos[of "next_status_ms m"] pos[of "next_service_ms m"] pos[OF _ menu] frame assms(1-3)
    by (auto simp: loop_timeout_def times_ok_def tasks_ahead_def frame_ahead_def Let_def)
qed

section \<open>Runs\<close>

text \<open>
  The program from its start on; the time is the last one read. The clock does not go back, and
  an update finds at most four services.
\<close>

definition round_ok :: "u64 \<Rightarrow> round_env \<Rightarrow> bool" where
  "round_ok now e \<longleftrightarrow> now \<le> re_start e \<and> re_start e \<le> he_now (re_button e) \<and> he_now (re_button e) \<le> re_now e \<and>
     early (re_now e) \<and> length (he_services (re_button e)) \<le> OLD_MAX_SERVICES \<and> length (re_services e) \<le> OLD_MAX_SERVICES"

inductive old_reachable :: "u64 \<Rightarrow> old_main \<Rightarrow> bool" where
  start: "early now \<Longrightarrow> length svcs \<le> OLD_MAX_SERVICES \<Longrightarrow> old_reachable now (main_begin now svcs bs)"
| round: "old_reachable now m \<Longrightarrow> round_ok now e \<Longrightarrow> main_round e m = Some m' \<Longrightarrow> old_reachable (re_now e) m'"

definition head_ok :: "u64 \<Rightarrow> old_main \<Rightarrow> bool" where
  [wf_defs]: "head_ok now m \<longleftrightarrow>
     early now \<and> old_inv m \<and> times_ok now m \<and> tasks_ahead now m \<and> frame_ahead now m"

lemma main_round_ok:
  assumes "head_ok now m" and "round_ok now e"
  shows "\<exists>m'. main_round e m = Some m' \<and> head_ok (re_now e) m'"
proof -
  obtain x event bs where w: "gpio_button_wait (re_wait e) (loop_timeout (re_start e) m) (om_buttons m) = (x, event, bs)"
    by (cases "gpio_button_wait (re_wait e) (loop_timeout (re_start e) m) (om_buttons m)") blast
  let ?m = "m\<lparr>om_buttons := bs\<rparr>"
  let ?h = "if event \<noteq> BTN_NONE then old_handle_button (re_button e) event ?m else ?m"
  let ?t = "timed_tasks (re_now e) (re_services e) ?h"
  have l: "now \<le> re_now e" "he_now (re_button e) \<le> re_now e" "early (re_now e)"
    using assms(2) by (auto simp: round_ok_def)
  have i: "old_inv ?m" using assms(1) by (simp add: head_ok_def old_inv_def)
  have "times_ok now ?m" using assms(1) by (simp add: head_ok_def times_ok_def)
  then have "times_ok (re_now e) ?h" using times_later[OF _ l(1)] handle_button_times[OF _ l(2)] by simp
  then have t: "times_ok (re_now e) ?t" "tasks_ahead (re_now e) ?t" using timed_tasks_times[OF _ l(3)] by simp_all
  have "old_inv ?h" using old_handle_button_inv[OF i] i assms(2) by (simp add: round_ok_def)
  then have "old_inv ?t" using timed_tasks_inv assms(2) by (simp add: round_ok_def)
  moreover have "main_round e m = render_frame (re_now e) ?t" by (simp add: main_round_def w)
  ultimately show ?thesis using render_frame_ahead[OF t l(3)] l(3) by (auto simp: head_ok_def)
qed

lemma main_begin_ok:
  assumes "early now" and "length svcs \<le> OLD_MAX_SERVICES"
  shows "head_ok now (main_begin now svcs bs)"
proof -
  have "unat (now + 100) = unat now + 100" "unat (now + 1000) = unat now + 1000" "unat (now + 5000) = unat now + 5000"
    using assms(1) by (simp_all add: unat_plus_small)
  then show ?thesis using assms
    by (simp add: head_ok_def main_begin_def draw_current_page_def old_inv_def times_ok_def tasks_ahead_def frame_ahead_def
        is_animating_def word_less_nat_alt)
qed

lemma old_reachable_ok: "old_reachable now m \<Longrightarrow> head_ok now m"
proof (induction rule: old_reachable.induct)
  case (round now m e m')
  then show ?case using main_round_ok[OF round.IH round.hyps(2)] by simp
qed (rule main_begin_ok)

section \<open>The title of the menu\<close>

text \<open>While it is animated, the offset of the title is at least one column, for a centre of at least six.\<close>

lemma enter_ratio:
  assumes "k \<in> {1, 2, 3, 4}"
  shows "3 / 16 \<le> f32_div (f32_of_int (int k)) (f32_of_int (int TITLE_ANIM_ENTER_FRAMES))"
proof -
  have "3 / 16 \<le> f32_div (f32_of_int 1) (f32_of_int 5)" "3 / 16 \<le> f32_div (f32_of_int 2) (f32_of_int 5)"
    "3 / 16 \<le> f32_div (f32_of_int 3) (f32_of_int 5)" "3 / 16 \<le> f32_div (f32_of_int 4) (f32_of_int 5)" by code_simp+
  then show ?thesis using assms by auto
qed

lemma enter_offset:
  assumes "title_anim_type m = TITLE_ANIM_ENTER" and "anim_frame m \<in> {1, 2, 3, 4}"
    and "6 \<le> anim_target_x m" and "anim_target_x m \<le> 64"
  shows "1 \<le> get_title_anim_offset m"
proof -
  let ?t = "f32_div (f32_of_int (int (anim_frame m))) (f32_of_int (int TITLE_ANIM_ENTER_FRAMES))"
  have c: "f32_of_int (anim_target_x m) = of_int (anim_target_x m)"
    using assms(3,4) unfolding f32_of_int_def by (intro fround_of_int) simp
  have "pow2 0 \<le> 3 / 16 * (6 :: rat)" by simp
  also have "\<dots> \<le> ?t * of_int (anim_target_x m)"
    using enter_ratio[OF assms(2)] assms(3) by (intro mult_mono) simp_all
  finally have "pow2 0 \<le> f32_mul ?t (f32_of_int (anim_target_x m))"
    unfolding f32_mul_def c by (rule fround_ge_pow2) simp
  then show ?thesis using assms(1) by (simp add: get_title_anim_offset_def c_int_of_float_def Let_def)
qed

text \<open>Entering the menu, and the pictures that follow.\<close>

lemma enter_menu:
  assumes "display_on m" and "\<not> menu_active m" and "om_page m = OLD_PAGE_SERVICES"
  shows "old_handle_button e BTN_K2_LONG_PRESS m =
    m\<lparr>menu_active := True, menu_selected := 0, menu_last_input_ms := he_now e, om_services := he_services e,
      title_anim_type := TITLE_ANIM_ENTER, anim_frame := 0, anim_target_x := centered_x (he_title_w e), dirty := True\<rparr>"
  using assms by (simp add: old_handle_button_def page_supports_menu_def step_defs)

lemma drawn_enter:
  assumes "display_on m" and "title_anim_type m = TITLE_ANIM_ENTER"
  shows "title_anim_type (drawn m) = (if Suc (anim_frame m) \<ge> 5 then TITLE_ANIM_NONE else TITLE_ANIM_ENTER)"
    and "anim_frame (drawn m) = (if Suc (anim_frame m) \<ge> 5 then 0 else Suc (anim_frame m))"
    and "anim_target_x (drawn m) = anim_target_x m"
  using assms
  by (auto simp: drawn_def advance_title_anim_def draw_current_page_def mark_dirty_def Let_def split: prod.splits if_splits)

lemma drawn_pow:
  assumes "display_on m" and "title_anim_type m = TITLE_ANIM_ENTER" and "anim_frame m = 0" and "k < 5"
  shows "title_anim_type ((drawn ^^ k) m) = TITLE_ANIM_ENTER \<and> anim_frame ((drawn ^^ k) m) = k \<and>
    anim_target_x ((drawn ^^ k) m) = anim_target_x m \<and> display_on ((drawn ^^ k) m)"
  using assms(4)
proof (induction k)
  case (Suc k)
  then have s: "title_anim_type ((drawn ^^ k) m) = TITLE_ANIM_ENTER" "anim_frame ((drawn ^^ k) m) = k"
    "anim_target_x ((drawn ^^ k) m) = anim_target_x m" "display_on ((drawn ^^ k) m)" by simp_all
  show ?case using drawn_enter[OF s(4,1)] s Suc.prems by (simp add: drawn_frame)
qed (use assms in simp)

end
