(* ===== verification/Old_Slide.thy ===== *)
theory Old_Slide
  imports Prelude
begin

text \<open>
  The slide from one page to the next in the first version of the program
  (\<open>transition_to_page\<close> of \<open>src_old/main.c\<close>): eight frames, each put together in the buffer of the
  display by copying parts of the rows of two rendered pages. A buffer has eight rows of 128
  bytes. Copying beyond the end of a buffer is \<open>None\<close>.
\<close>

abbreviation (input) TRANSITION_FRAMES :: nat where "TRANSITION_FRAMES \<equiv> 8"
abbreviation (input) BUFFER_BYTES :: nat where "BUFFER_BYTES \<equiv> 1024"

text \<open>\<open>memcpy (dst + d, src + s, n)\<close>.\<close>

definition copy_bytes :: "u8 list \<Rightarrow> nat \<Rightarrow> u8 list \<Rightarrow> nat \<Rightarrow> nat \<Rightarrow> u8 list option" where
  "copy_bytes dst d src s n =
     (if d + n \<le> length dst \<and> s + n \<le> length src
      then Some (take d dst @ take n (drop s src) @ drop (d + n) dst) else None)"

definition slide_row :: "int \<Rightarrow> nat \<Rightarrow> u8 list \<Rightarrow> u8 list \<Rightarrow> nat \<Rightarrow> u8 list \<Rightarrow> u8 list option" where
  "slide_row direction offset buf_from buf_to page display_buf =
     (let page_offset = page * 128 in
      if direction > 0 then
        Option.bind (copy_bytes display_buf page_offset buf_from (page_offset + offset) (128 - offset))
          (\<lambda>display_buf. copy_bytes display_buf (page_offset + (128 - offset)) buf_to page_offset offset)
      else
        Option.bind (copy_bytes display_buf page_offset buf_to (page_offset + (128 - offset)) offset)
          (\<lambda>display_buf. copy_bytes display_buf (page_offset + offset) buf_from page_offset (128 - offset)))"

definition slide_frame :: "int \<Rightarrow> nat \<Rightarrow> u8 list \<Rightarrow> u8 list \<Rightarrow> u8 list \<Rightarrow> u8 list option" where
  "slide_frame direction offset buf_from buf_to display_buf =
     fold (\<lambda>page d. Option.bind d (slide_row direction offset buf_from buf_to page)) [0..<8] (Some display_buf)"

text \<open>The frames sent to the display, in order; none when it is off.\<close>

fun slide_frames :: "int \<Rightarrow> nat list \<Rightarrow> u8 list \<Rightarrow> u8 list \<Rightarrow> u8 list \<Rightarrow> u8 list list option" where
  "slide_frames direction [] buf_from buf_to display_buf = Some []"
| "slide_frames direction (frame # frames) buf_from buf_to display_buf =
     (let step = 128 div TRANSITION_FRAMES; offset = frame * step in
      Option.bind (slide_frame direction offset buf_from buf_to display_buf)
        (\<lambda>display_buf. map_option (\<lambda>sent. display_buf # sent)
           (slide_frames direction frames buf_from buf_to display_buf)))"

definition transition_to_page :: "bool \<Rightarrow> int \<Rightarrow> u8 list \<Rightarrow> u8 list \<Rightarrow> u8 list \<Rightarrow> u8 list list option" where
  "transition_to_page display_on direction buf_from buf_to display_buf =
     (if \<not> display_on then Some []
      else slide_frames direction [1..<Suc TRANSITION_FRAMES] buf_from buf_to display_buf)"

section \<open>Rows\<close>

definition row :: "nat \<Rightarrow> u8 list \<Rightarrow> u8 list" where
  "row p buf = take 128 (drop (p * 128) buf)"

lemma length_row: "length buf = BUFFER_BYTES \<Longrightarrow> p < 8 \<Longrightarrow> length (row p buf) = 128"
  by (simp add: row_def)

text \<open>A page slid out of the screen by \<open>k\<close> columns, followed by the other one.\<close>

definition window :: "nat \<Rightarrow> u8 list \<Rightarrow> u8 list \<Rightarrow> u8 list" where
  "window k left right = take 128 (drop k (left @ right))"

definition slide_spec :: "int \<Rightarrow> nat \<Rightarrow> u8 list \<Rightarrow> u8 list \<Rightarrow> u8 list" where
  "slide_spec direction offset left right =
     (if direction > 0 then window offset left right else window (128 - offset) right left)"

lemma window_split:
  assumes "length left = 128" and "k \<le> 128"
  shows "window k left right = drop k left @ take k right"
  using assms by (simp add: window_def)

lemma take_drop_left:
  assumes "Q + n \<le> P" and "P \<le> length buf"
  shows "take n (drop Q (take P buf @ xs)) = take n (drop Q buf)"
proof -
  have "take n (drop Q (take P buf @ xs)) = take n (drop Q (take P buf))"
    using assms by simp
  also have "\<dots> = take n (take (P - Q) (drop Q buf))" by (simp only: drop_take)
  also have "\<dots> = take n (drop Q buf)" using assms(1) by (simp add: min_def)
  finally show ?thesis .
qed

lemma take_drop_right:
  assumes "P + m \<le> Q" and "length mid = m" and "P \<le> length buf"
  shows "take n (drop Q (take P buf @ mid @ drop (P + m) buf)) = take n (drop Q buf)"
  using assms by simp

lemma row_replaced:
  assumes "length mid = 128" and "p * 128 + 128 \<le> length buf"
  shows "row q (take (p * 128) buf @ mid @ drop (p * 128 + 128) buf) = (if q = p then mid else row q buf)"
proof -
  consider "q = p" | "q < p" | "p < q" by linarith
  then show ?thesis
  proof cases
    case 1
    then show ?thesis using assms by (simp add: row_def)
  next
    case 2
    then have "q * 128 + 128 \<le> p * 128" by simp
    then show ?thesis unfolding row_def using assms 2 take_drop_left[of "q * 128" 128 "p * 128" buf] by simp
  next
    case 3
    then have "p * 128 + 128 \<le> q * 128" by simp
    then show ?thesis unfolding row_def using assms 3 take_drop_right[of "p * 128" 128 "q * 128" mid buf 128] by simp
  qed
qed

lemma copy_two:
  assumes "length dst = n" and "d + (a + b) \<le> n" and "s + a \<le> length src" and "t + b \<le> length src'"
  shows "Option.bind (copy_bytes dst d src s a) (\<lambda>dst. copy_bytes dst (d + a) src' t b) =
    Some (take d dst @ (take a (drop s src) @ take b (drop t src')) @ drop (d + (a + b)) dst)"
  using assms by (simp add: copy_bytes_def add.commute add.left_commute)

lemma slide_row_spec:
  assumes "length buf_from = BUFFER_BYTES" and "length buf_to = BUFFER_BYTES" and "length display_buf = BUFFER_BYTES"
    and "p < 8" and "offset \<le> 128"
  shows "slide_row direction offset buf_from buf_to p display_buf =
    Some (take (p * 128) display_buf @ slide_spec direction offset (row p buf_from) (row p buf_to) @
      drop (p * 128 + 128) display_buf)"
proof -
  have p: "p * 128 + 128 \<le> 1024" using assms(4) by simp
  have l: "length (row p buf_from) = 128" "length (row p buf_to) = 128" using length_row assms by auto
  have w1: "window offset (row p buf_from) (row p buf_to) =
      take (128 - offset) (drop (p * 128 + offset) buf_from) @ take offset (drop (p * 128) buf_to)"
    unfolding window_split[OF l(1) assms(5)] using assms(5) by (simp add: row_def drop_take add.commute)
  have w2: "window (128 - offset) (row p buf_to) (row p buf_from) =
      take offset (drop (p * 128 + (128 - offset)) buf_to) @ take (128 - offset) (drop (p * 128) buf_from)"
    unfolding window_split[OF l(2) diff_le_self] using assms(5) by (simp add: row_def drop_take add.commute)
  have e: "128 - offset + offset = 128" "offset + (128 - offset) = 128" using assms(5) by simp_all
  show ?thesis
    using copy_two[OF assms(3), of "p * 128" "128 - offset" offset "p * 128 + offset" buf_from "p * 128" buf_to]
      copy_two[OF assms(3), of "p * 128" offset "128 - offset" "p * 128 + (128 - offset)" buf_to "p * 128" buf_from]
      p assms(1,2,5)
    unfolding slide_row_def slide_spec_def w1 w2 Let_def e by simp
qed

section \<open>Frames\<close>

lemma length_spec:
  "length left = 128 \<Longrightarrow> length right = 128 \<Longrightarrow> offset \<le> 128 \<Longrightarrow> length (slide_spec direction offset left right) = 128"
  by (simp add: slide_spec_def window_split)

lemma slide_rows:
  assumes "length buf_from = BUFFER_BYTES" and "length buf_to = BUFFER_BYTES" and "length buf = BUFFER_BYTES"
    and "offset \<le> 128" and "n \<le> 8"
  shows "\<exists>d. fold (\<lambda>page d. Option.bind d (slide_row direction offset buf_from buf_to page)) [0..<n] (Some buf) = Some d \<and>
    length d = BUFFER_BYTES \<and>
    (\<forall>q < 8. row q d = (if q < n then slide_spec direction offset (row q buf_from) (row q buf_to) else row q buf))"
  using assms(5)
proof (induction n)
  case 0
  then show ?case using assms(3) by simp
next
  case (Suc n)
  then obtain d where d: "fold (\<lambda>page d. Option.bind d (slide_row direction offset buf_from buf_to page)) [0..<n] (Some buf) = Some d"
    "length d = BUFFER_BYTES"
    "\<forall>q < 8. row q d = (if q < n then slide_spec direction offset (row q buf_from) (row q buf_to) else row q buf)" by auto
  let ?m = "slide_spec direction offset (row n buf_from) (row n buf_to)"
  let ?d = "take (n * 128) d @ ?m @ drop (n * 128 + 128) d"
  have n: "n < 8" "n * 128 + 128 \<le> length d" using Suc.prems d(2) by simp_all
  have m: "length ?m = 128" using length_spec length_row assms(1,2,4) n(1) by blast
  have "slide_row direction offset buf_from buf_to n d = Some ?d"
    by (rule slide_row_spec[OF assms(1,2) d(2) n(1) assms(4)])
  moreover have "length ?d = BUFFER_BYTES" using m n d(2) by simp
  moreover have "\<forall>q < 8. row q ?d = (if q < Suc n then slide_spec direction offset (row q buf_from) (row q buf_to) else row q buf)"
    using row_replaced[OF m n(2)] d(3) by (simp add: less_Suc_eq)
  ultimately show ?case using d(1) by simp
qed

lemma slide_frame_spec:
  assumes "length buf_from = BUFFER_BYTES" and "length buf_to = BUFFER_BYTES" and "length buf = BUFFER_BYTES"
    and "offset \<le> 128"
  obtains d where "slide_frame direction offset buf_from buf_to buf = Some d" "length d = BUFFER_BYTES"
    "\<forall>q < 8. row q d = slide_spec direction offset (row q buf_from) (row q buf_to)"
  using slide_rows[OF assms, of 8 direction] by (auto simp: slide_frame_def)

lemma slide_frames_spec:
  assumes "length buf_from = BUFFER_BYTES" and "length buf_to = BUFFER_BYTES"
  shows "length buf = BUFFER_BYTES \<Longrightarrow> list_all (\<lambda>k. k \<le> 8) frames \<Longrightarrow>
    \<exists>sent. slide_frames direction frames buf_from buf_to buf = Some sent \<and>
      list_all2 (\<lambda>k d. length d = BUFFER_BYTES \<and>
        (\<forall>q < 8. row q d = slide_spec direction (k * 16) (row q buf_from) (row q buf_to))) frames sent"
proof (induction frames arbitrary: buf)
  case (Cons k frames)
  have "k * 16 \<le> 128" using Cons.prems(2) by simp
  then obtain d where d: "slide_frame direction (k * 16) buf_from buf_to buf = Some d" "length d = BUFFER_BYTES"
    "\<forall>q < 8. row q d = slide_spec direction (k * 16) (row q buf_from) (row q buf_to)"
    using slide_frame_spec[OF assms Cons.prems(1)] by metis
  then show ?case using Cons.IH[OF d(2)] Cons.prems(2) by auto
qed simp

text \<open>A buffer is determined by its rows.\<close>

lemma rows_eq:
  assumes "length b = BUFFER_BYTES" and "length c = BUFFER_BYTES" and "\<forall>q < 8. row q b = row q c"
  shows "b = c"
proof (rule nth_equalityI)
  show "length b = length c" using assms(1,2) by simp
  fix i assume "i < length b"
  then have q: "i div 128 < 8" using assms(1) by (simp add: less_mult_imp_div_less)
  have at: "x ! i = row (i div 128) x ! (i mod 128)" if "length x = BUFFER_BYTES" for x
    using that \<open>i < length b\<close> assms(1) by (simp add: row_def)
  show "b ! i = c ! i" using at[OF assms(1)] at[OF assms(2)] assms(3) q by simp
qed

end
