(* ===== verification/Old_Ubus.thy ===== *)
theory Old_Ubus
  imports Old_Main Ubus_Sync
begin

text \<open>
  The ubus calls of the first version of the program (\<open>src_old/ubus_service.c\<close>) and the list of
  services it shows (\<open>sys_status_update_services\<close> of \<open>src_old/sys_status.c\<close>). As in \<open>Ubus_Sync\<close>,
  what libubus returns is the environment of an operation and the calls made are recorded.
\<close>

section \<open>State\<close>

record old_ubus =
  ou_ctx :: bool
  ou_service_id :: u32
  ou_rc_id :: u32
  ou_log :: "lib_call list"

definition old_ubus_start :: old_ubus where
  "old_ubus_start = \<lparr>ou_ctx = False, ou_service_id = 0, ou_rc_id = 0, ou_log = []\<rparr>"

text \<open>
  Whether a context can be had, the ids of the objects \<open>service\<close> and \<open>rc\<close> if they are found, and
  the status and the messages of a call with the given id, method and arguments.
\<close>

record bus_env =
  be_connect :: bool
  be_service :: "u32 option"
  be_rc :: "u32 option"
  be_invoke :: "u32 \<Rightarrow> string \<Rightarrow> string list \<Rightarrow> lib_status \<times> rc_attr list option list"

definition old_lib :: "lib_call \<Rightarrow> old_ubus \<Rightarrow> old_ubus" where
  "old_lib c h = h\<lparr>ou_log := ou_log h @ [c]\<rparr>"

section \<open>The connection\<close>

definition ensure_service_id :: "bus_env \<Rightarrow> old_ubus \<Rightarrow> int \<times> old_ubus" where
  "ensure_service_id e h =
     (let h = (if \<not> ou_ctx h then (old_lib (Lib_Connect (be_connect e)) h)\<lparr>ou_ctx := be_connect e\<rparr> else h) in
      if \<not> ou_ctx h then (-1, h\<lparr>ou_service_id := 0\<rparr>)
      else if ou_service_id h \<noteq> 0 then (0, h)
      else
        let h = old_lib (Lib_Lookup (be_service e)) h in
        case be_service e of
          None \<Rightarrow> (-1, (old_lib Lib_Free h)\<lparr>ou_ctx := False, ou_service_id := 0\<rparr>)
        | Some i \<Rightarrow> (0, h\<lparr>ou_service_id := i\<rparr>))"

definition ubus_service_init :: "bus_env \<Rightarrow> old_ubus \<Rightarrow> int \<times> old_ubus" where
  "ubus_service_init e h = ensure_service_id e h"

definition ubus_service_cleanup :: "old_ubus \<Rightarrow> old_ubus" where
  "ubus_service_cleanup h =
     (if ou_ctx h then (old_lib Lib_Free h)\<lparr>ou_ctx := False, ou_service_id := 0\<rparr> else h)"

definition old_ensure_rc_id :: "bus_env \<Rightarrow> old_ubus \<Rightarrow> int \<times> old_ubus" where
  "old_ensure_rc_id e h =
     (let h = (if \<not> ou_ctx h then (old_lib (Lib_Connect (be_connect e)) h)\<lparr>ou_ctx := be_connect e\<rparr> else h) in
      if \<not> ou_ctx h then (-1, h\<lparr>ou_rc_id := 0\<rparr>)
      else if ou_rc_id h \<noteq> 0 then (0, h)
      else
        let h = old_lib (Lib_Lookup (be_rc e)) h in
        case be_rc e of
          None \<Rightarrow> (-1, (old_lib Lib_Free h)\<lparr>ou_ctx := False, ou_rc_id := 0\<rparr>)
        | Some i \<Rightarrow> (0, h\<lparr>ou_rc_id := i\<rparr>))"

section \<open>Requests\<close>

text \<open>A message of the reply: its first table tells that the service is installed, and if it runs.\<close>

fun scan_tables :: "rc_attr list \<Rightarrow> bool \<times> bool \<Rightarrow> bool \<times> bool" where
  "scan_tables [] q = q"
| "scan_tables (Rc_Other # msg) q = scan_tables msg q"
| "scan_tables (Rc_Table r # msg) q = (True, if r = Some True then True else snd q)"

definition old_rc_list_cb :: "rc_attr list option \<Rightarrow> bool \<times> bool \<Rightarrow> bool \<times> bool" where
  "old_rc_list_cb msg q = (case msg of None \<Rightarrow> q | Some attrs \<Rightarrow> scan_tables attrs q)"

text \<open>The result, what \<open>installed\<close> and \<open>running\<close> hold, and the state.\<close>

definition ubus_service_status :: "bus_env \<Rightarrow> string \<Rightarrow> bool \<times> bool \<Rightarrow> old_ubus \<Rightarrow> int \<times> (bool \<times> bool) \<times> old_ubus" where
  "ubus_service_status e name q h =
     (if name = [] then (-1, q, h)
      else
        let q = (False, False); (r, h) = old_ensure_rc_id e h in
        if r < 0 then (-1, q, h)
        else
          let (ret, msgs) = be_invoke e (ou_rc_id h) ''list'' [name];
              h = old_lib (Lib_Invoke (ou_rc_id h) ''list'' ret) h;
              q = fold old_rc_list_cb msgs q
          in (if ret \<noteq> LIB_STATUS_OK then -1 else 0, q, h))"

definition ubus_service_running :: "bus_env \<Rightarrow> string \<Rightarrow> bool \<Rightarrow> old_ubus \<Rightarrow> int \<times> bool \<times> old_ubus" where
  "ubus_service_running e name r h =
     (let (ret, q, h) = ubus_service_status e name (False, r) h in (ret, snd q, h))"

definition ubus_service_action :: "bus_env \<Rightarrow> string \<Rightarrow> string \<Rightarrow> old_ubus \<Rightarrow> int \<times> old_ubus" where
  "ubus_service_action e name action h =
     (if name = [] \<or> action = [] then (-1, h)
      else
        let (r, h) = old_ensure_rc_id e h in
        if r < 0 then (-1, h)
        else
          let (ret, _) = be_invoke e (ou_rc_id h) ''init'' [name, action];
              h = old_lib (Lib_Invoke (ou_rc_id h) ''init'' ret) h
          in (if ret \<noteq> LIB_STATUS_OK then -1 else 0, h))"

section \<open>The list of services\<close>

text \<open>An entry of the list has the name shown and the name in ubus.\<close>

record old_entry = old_service +
  os_ubus_name :: string

definition old_service_table :: "(string \<times> string) list" where
  "old_service_table =
     [(''xray_core'', ''xray_core''), (''dropbear'', ''dropbear''), (''uhttpd'', ''uhttpd''), (''dockerd'', ''dockerd'')]"

definition old_entry_of :: "string \<times> string \<Rightarrow> bool \<Rightarrow> old_entry" where
  "old_entry_of s r = \<lparr>os_name = bounded_copy 16 (fst s), os_running = r, os_ubus_name = bounded_copy 16 (snd s)\<rparr>"

text \<open>The loop over the table; \<open>i\<close> is the index, which selects the environment of the call.\<close>

fun services_loop ::
  "(nat \<Rightarrow> bus_env) \<Rightarrow> nat \<Rightarrow> (string \<times> string) list \<Rightarrow> old_entry list \<Rightarrow> old_ubus \<Rightarrow> old_entry list \<times> old_ubus" where
  "services_loop env i [] acc h = (acc, h)"
| "services_loop env i (s # table) acc h =
     (if length acc < OLD_MAX_SERVICES then
        let (r, (installed, running), h) = ubus_service_status (env i) (snd s) (False, False) h in
        if r < 0 then services_loop env (i + 1) table acc h
        else if \<not> installed then services_loop env (i + 1) table acc h
        else services_loop env (i + 1) table (acc @ [old_entry_of s running]) h
      else (acc, h))"

definition old_update_services :: "(nat \<Rightarrow> bus_env) \<Rightarrow> old_ubus \<Rightarrow> old_entry list \<times> old_ubus" where
  "old_update_services env h = services_loop env 0 old_service_table [] h"

text \<open>What the interface sees of the list.\<close>

definition shown_services :: "old_entry list \<Rightarrow> old_service list" where
  "shown_services = map (\<lambda>s. \<lparr>os_name = os_name s, os_running = os_running s\<rparr>)"

lemma services_loop_length: "length acc \<le> OLD_MAX_SERVICES \<Longrightarrow> length (fst (services_loop env i table acc h)) \<le> OLD_MAX_SERVICES"
  by (induction env i table acc h rule: services_loop.induct) (auto split: prod.splits)

text \<open>The bound that the interface relies on.\<close>

lemma update_services_bound: "length (shown_services (fst (old_update_services env h))) \<le> OLD_MAX_SERVICES"
  using services_loop_length[of "[]"] by (simp add: old_update_services_def shown_services_def)

section \<open>The list is what the bus answers\<close>

text \<open>Connected, with the id of \<open>rc\<close> known.\<close>

definition steady :: "u32 \<Rightarrow> old_ubus \<Rightarrow> bool" where
  [wf_defs]: "steady i h \<longleftrightarrow> ou_ctx h \<and> ou_rc_id h = i \<and> i \<noteq> 0"

lemma steady_lib [simp]: "steady i (old_lib c h) = steady i h"
  by (simp add: steady_def old_lib_def)

lemma steady_ensure: "steady i h \<Longrightarrow> old_ensure_rc_id e h = (0, h)"
  by (simp add: steady_def old_ensure_rc_id_def)

text \<open>The entry for one line of the table, if the bus reports the service.\<close>

definition answered_entry :: "u32 \<Rightarrow> bus_env \<Rightarrow> string \<times> string \<Rightarrow> old_entry option" where
  "answered_entry i e s =
     (let (ret, msgs) = be_invoke e i ''list'' [snd s]; q = fold old_rc_list_cb msgs (False, False)
      in if ret = LIB_STATUS_OK \<and> fst q then Some (old_entry_of s (snd q)) else None)"

lemma status_steady:
  assumes "steady i h" and "name \<noteq> []"
  obtains h' where "steady i h'" "ubus_service_status e name q h =
    (if fst (be_invoke e i ''list'' [name]) \<noteq> LIB_STATUS_OK then -1 else 0,
     fold old_rc_list_cb (snd (be_invoke e i ''list'' [name])) (False, False), h')"
proof
  have i: "ou_rc_id h = i" using assms(1) by (simp add: steady_def)
  show "steady i (old_lib (Lib_Invoke i ''list'' (fst (be_invoke e i ''list'' [name]))) h)" using assms(1) by simp
  show "ubus_service_status e name q h =
    (if fst (be_invoke e i ''list'' [name]) \<noteq> LIB_STATUS_OK then -1 else 0,
     fold old_rc_list_cb (snd (be_invoke e i ''list'' [name])) (False, False),
     old_lib (Lib_Invoke i ''list'' (fst (be_invoke e i ''list'' [name]))) h)"
    using assms(2) by (simp add: ubus_service_status_def steady_ensure[OF assms(1)] i split: prod.split)
qed

fun bus_list :: "u32 \<Rightarrow> (nat \<Rightarrow> bus_env) \<Rightarrow> nat \<Rightarrow> (string \<times> string) list \<Rightarrow> old_entry list" where
  "bus_list i env k [] = []"
| "bus_list i env k (s # table) =
     (case answered_entry i (env k) s of None \<Rightarrow> [] | Some x \<Rightarrow> [x]) @ bus_list i env (k + 1) table"

lemma services_loop_answered:
  "steady i h \<Longrightarrow> length acc + length table \<le> OLD_MAX_SERVICES \<Longrightarrow> \<forall>s \<in> set table. snd s \<noteq> [] \<Longrightarrow>
   fst (services_loop env k table acc h) = acc @ bus_list i env k table \<and> steady i (snd (services_loop env k table acc h))"
proof (induction table arbitrary: k acc h)
  case (Cons s table)
  have l: "length acc < OLD_MAX_SERVICES" using Cons.prems(2) by simp
  have "snd s \<noteq> []" using Cons.prems(3) by simp
  then obtain h' where h': "steady i h'" "ubus_service_status (env k) (snd s) (False, False) h =
    (if fst (be_invoke (env k) i ''list'' [snd s]) \<noteq> LIB_STATUS_OK then -1 else 0,
     fold old_rc_list_cb (snd (be_invoke (env k) i ''list'' [snd s])) (False, False), h')"
    using status_steady[OF Cons.prems(1)] by blast
  have step: "services_loop env k (s # table) acc h =
      services_loop env (k + 1) table (acc @ (case answered_entry i (env k) s of None \<Rightarrow> [] | Some x \<Rightarrow> [x])) h'"
    using l h'(2) by (auto simp: answered_entry_def Let_def split: prod.split)
  have "length (acc @ (case answered_entry i (env k) s of None \<Rightarrow> [] | Some x \<Rightarrow> [x])) + length table \<le> OLD_MAX_SERVICES"
    using Cons.prems(2) by (simp split: option.split)
  from Cons.IH[OF h'(1) this] show ?case using Cons.prems(3) unfolding step by (simp del: services_loop.simps)
qed simp

lemma update_services_answered:
  assumes "steady i h"
  shows "fst (old_update_services env h) = bus_list i env 0 old_service_table"
    and "steady i (snd (old_update_services env h))"
  using services_loop_answered[OF assms, of "[]" old_service_table env 0]
  by (simp_all add: old_update_services_def old_service_table_def)

section \<open>The contract of libubus\<close>

definition old_ubus_ok :: "old_ubus \<Rightarrow> bool" where
  [wf_defs]: "old_ubus_ok h \<longleftrightarrow>
     (case lib_run (ou_log h) Closed of
        None \<Rightarrow> False
      | Some s \<Rightarrow> (ou_ctx h \<longleftrightarrow> s \<noteq> Closed) \<and> (ou_rc_id h \<noteq> 0 \<longrightarrow> s = Ready (ou_rc_id h)))"

lemma old_ok_init: "old_ubus_ok (snd (ubus_service_init e old_ubus_start))"
  by (auto simp: ubus_service_init_def ensure_service_id_def old_ubus_start_def old_ubus_ok_def old_lib_def Let_def
      split: option.split)

lemma old_ok_cases:
  assumes "old_ubus_ok h"
  obtains "\<not> ou_ctx h" "lib_run (ou_log h) Closed = Some Closed" "ou_rc_id h = 0"
  | "ou_ctx h" "lib_run (ou_log h) Closed = Some Open" "ou_rc_id h = 0"
  | i where "ou_ctx h" "lib_run (ou_log h) Closed = Some (Ready i)" "ou_rc_id h = 0 \<or> ou_rc_id h = i"
proof -
  obtain s where s: "lib_run (ou_log h) Closed = Some s" "ou_ctx h \<longleftrightarrow> s \<noteq> Closed" "ou_rc_id h \<noteq> 0 \<longrightarrow> s = Ready (ou_rc_id h)"
    using assms by (auto simp: old_ubus_ok_def split: option.splits)
  show ?thesis
  proof (cases s)
    case Closed
    then show ?thesis using s that(1) by auto
  next
    case Open
    then show ?thesis using s that(2) by auto
  next
    case (Ready i)
    then show ?thesis using s that(3)[of i] by auto
  qed
qed

lemma old_ok_rc_id:
  assumes "old_ubus_ok h" and "old_ensure_rc_id e h = (r, h')"
  shows "old_ubus_ok h' \<and> (0 \<le> r \<longrightarrow> lib_run (ou_log h') Closed = Some (Ready (ou_rc_id h')) \<and> ou_ctx h')"
  using assms(2)
  by (cases rule: old_ok_cases[OF assms(1)])
    (auto simp: old_ensure_rc_id_def old_ubus_ok_def old_lib_def Let_def split: option.splits if_splits)

lemma old_ok_invoke:
  "lib_run (ou_log h) Closed = Some (Ready (ou_rc_id h)) \<Longrightarrow> ou_ctx h \<Longrightarrow>
   old_ubus_ok (old_lib (Lib_Invoke (ou_rc_id h) m ret) h)"
  by (simp add: old_ubus_ok_def old_lib_def)

lemma old_ok_status:
  assumes "old_ubus_ok h"
  shows "old_ubus_ok (snd (snd (ubus_service_status e name q h)))"
proof -
  obtain r h1 where h1: "old_ensure_rc_id e h = (r, h1)" by (cases "old_ensure_rc_id e h")
  show ?thesis using old_ok_rc_id[OF assms h1] old_ok_invoke[of h1] assms
    by (simp add: ubus_service_status_def h1 case_prod_beta Let_def)
qed

lemma old_ok_action:
  assumes "old_ubus_ok h"
  shows "old_ubus_ok (snd (ubus_service_action e name a h))"
proof -
  obtain r h1 where h1: "old_ensure_rc_id e h = (r, h1)" by (cases "old_ensure_rc_id e h")
  show ?thesis using old_ok_rc_id[OF assms h1] old_ok_invoke[of h1] assms
    by (simp add: ubus_service_action_def h1 case_prod_beta Let_def)
qed

lemma old_ok_loop: "old_ubus_ok h \<Longrightarrow> old_ubus_ok (snd (services_loop env i table acc h))"
proof (induction table arbitrary: i acc h)
  case (Cons s table)
  obtain r installed running h1 where h1: "ubus_service_status (env i) (snd s) (False, False) h = (r, (installed, running), h1)"
    by (metis prod.exhaust)
  show ?case using Cons.IH[of h1] Cons.prems old_ok_status[OF Cons.prems, of "env i" "snd s" "(False, False)"]
    by (simp add: h1)
qed simp

lemma old_ok_cleanup:
  assumes "old_ubus_ok h"
  shows "lib_run (ou_log (ubus_service_cleanup h)) Closed = Some Closed \<and> \<not> ou_ctx (ubus_service_cleanup h)"
  by (cases rule: old_ok_cases[OF assms]) (simp_all add: ubus_service_cleanup_def old_lib_def)

section \<open>Runs\<close>

text \<open>What the program does with the module between its initialisation and the end.\<close>

datatype old_ubus_op = Old_Update "nat \<Rightarrow> bus_env" | Old_Action bus_env string string

fun old_ubus_step :: "old_ubus_op \<Rightarrow> old_ubus \<Rightarrow> old_ubus" where
  "old_ubus_step (Old_Update env) h = snd (old_update_services env h)"
| "old_ubus_step (Old_Action e name action) h = snd (ubus_service_action e name action h)"

lemma old_ok_step: "old_ubus_ok h \<Longrightarrow> old_ubus_ok (old_ubus_step op h)"
  by (cases op) (simp_all add: old_ok_action old_update_services_def old_ok_loop)

lemma old_ok_run: "old_ubus_ok h \<Longrightarrow> old_ubus_ok (fold old_ubus_step ops h)"
  by (induction ops arbitrary: h) (simp_all add: old_ok_step)

lemma steady_step: "steady i h \<Longrightarrow> steady i (old_ubus_step op h)"
  by (cases op) (simp_all add: ubus_service_action_def steady_ensure update_services_answered case_prod_beta Let_def)

lemma steady_run: "steady i h \<Longrightarrow> steady i (fold old_ubus_step ops h)"
  by (induction ops arbitrary: h) (simp_all add: steady_step)

text \<open>No call with the id succeeds any more.\<close>

definition gone :: "u32 \<Rightarrow> bus_env \<Rightarrow> bool" where
  "gone i e \<longleftrightarrow> (\<forall>m args. fst (be_invoke e i m args) \<noteq> LIB_STATUS_OK)"

lemma bus_list_gone: "\<forall>k. gone i (env k) \<Longrightarrow> bus_list i env k table = []"
proof (induction table arbitrary: k)
  case (Cons s table)
  have "fst (be_invoke (env k) i ''list'' [snd s]) \<noteq> LIB_STATUS_OK" using Cons.prems by (simp add: gone_def)
  then have "answered_entry i (env k) s = None" by (simp add: answered_entry_def case_prod_beta Let_def)
  then show ?case using Cons by simp
qed simp

end
