(* ===== verification/Old_Status.thy ===== *)
theory Old_Status
  imports Sys_Local Sys_Format
begin

text \<open>
  The system information of the first version of the program (\<open>src_old/sys_status.c\<close>). Every
  update starts from an empty status; speeds are measured in whole seconds of \<open>time\<close>. The files
  and system calls are the environment \<open>local_env\<close> of the current version, in which
  \<open>net_now_sec\<close> is the result of \<open>time\<close>. The list of services is in \<open>Old_Ubus\<close>.
\<close>

section \<open>State\<close>

record old_status =
  ob_cpu_usage :: f32
  ob_cpu_temp :: f32
  ob_mem_total :: u64
  ob_mem_free :: u64
  ob_mem_available :: u64
  ob_ip_addr :: string
  ob_hostname :: string
  ob_uptime :: u32
  ob_rx_bytes :: u64
  ob_tx_bytes :: u64
  ob_rx_speed :: u64
  ob_tx_speed :: u64

text \<open>The statics of the module.\<close>

record old_readings =
  or_stat :: bool
  or_net :: bool
  or_mem :: bool
  or_temp :: bool
  or_prev_idle :: u64
  or_prev_total :: u64
  or_prev_rx_bytes :: u64
  or_prev_tx_bytes :: u64
  or_prev_net_time :: int
  or_closed :: bool

definition old_readings_start :: old_readings where
  "old_readings_start = \<lparr>or_stat = False, or_net = False, or_mem = False, or_temp = False, or_prev_idle = 0,
     or_prev_total = 0, or_prev_rx_bytes = 0, or_prev_tx_bytes = 0, or_prev_net_time = 0,
     or_closed = False\<rparr>"

text \<open>
  The flags are the results of \<open>fopen\<close>. The end closes the files that are open, but keeps the
  pointers: \<open>or_closed\<close> records that they dangle.
\<close>

definition old_sys_status_init :: "bool \<Rightarrow> bool \<Rightarrow> bool \<Rightarrow> bool \<Rightarrow> old_readings \<Rightarrow> old_readings" where
  "old_sys_status_init open_stat open_net open_mem open_temp c =
     c\<lparr>or_stat := open_stat, or_net := open_net, or_mem := open_mem, or_temp := open_temp, or_closed := False\<rparr>"

definition old_sys_status_cleanup :: "old_readings \<Rightarrow> old_readings" where
  "old_sys_status_cleanup c = (if or_stat c \<or> or_net c \<or> or_mem c \<or> or_temp c then c\<lparr>or_closed := True\<rparr> else c)"

section \<open>CPU and memory\<close>

definition old_cleared :: "old_status \<Rightarrow> old_status" where
  "old_cleared st = st\<lparr>ob_cpu_usage := 0, ob_cpu_temp := 0, ob_mem_total := 0, ob_mem_free := 0,
     ob_mem_available := 0, ob_ip_addr := [], ob_hostname := [], ob_uptime := 0, ob_rx_bytes := 0, ob_tx_bytes := 0,
     ob_rx_speed := 0, ob_tx_speed := 0\<rparr>"

definition old_cpu :: "local_env \<Rightarrow> old_readings \<times> old_status \<Rightarrow> old_readings \<times> old_status" where
  "old_cpu e x =
     (let (c, st) = x in
      if \<not> or_stat c then (c, st)
      else case fgets 256 (file_stat e) of
        None \<Rightarrow> (c, st)
      | Some (line, _) \<Rightarrow>
          (case sscanf cpu_format line of
             [V_U64 user, V_U64 nice, V_U64 system, V_U64 idle, V_U64 iowait, V_U64 irq, V_U64 softirq] \<Rightarrow>
               let total = user + nice + system + idle + iowait + irq + softirq;
                   idle_all = idle + iowait;
                   st = (if or_prev_total c > 0 then
                           let total_diff = total - or_prev_total c; idle_diff = idle_all - or_prev_idle c
                           in if total_diff > 0
                              then st\<lparr>ob_cpu_usage := f32_mul 100 (f32_sub 1 (f32_div (f32_of_u64 idle_diff) (f32_of_u64 total_diff)))\<rparr>
                              else st
                         else st)
               in (c\<lparr>or_prev_total := total, or_prev_idle := idle_all\<rparr>, st)
           | _ \<Rightarrow> (c, st)))"

definition old_temp :: "local_env \<Rightarrow> old_readings \<Rightarrow> old_status \<Rightarrow> old_status" where
  "old_temp e c st =
     (if \<not> or_temp c then st
      else case sscanf [Scan_Int] (file_temp e) of
        [V_Int temp] \<Rightarrow> st\<lparr>ob_cpu_temp := f32_div (f32_of_int temp) 1000\<rparr>
      | _ \<Rightarrow> st)"

fun old_mem_loop :: "string list \<Rightarrow> nat \<Rightarrow> old_status \<Rightarrow> old_status" where
  "old_mem_loop [] found st = st"
| "old_mem_loop (line # lines) found st =
     (if found < 3 then
        if take 9 line = ''MemTotal:'' then
          old_mem_loop lines (found + 1) (st\<lparr>ob_mem_total := scan_field 9 line (ob_mem_total st)\<rparr>)
        else if take 8 line = ''MemFree:'' then
          old_mem_loop lines (found + 1) (st\<lparr>ob_mem_free := scan_field 8 line (ob_mem_free st)\<rparr>)
        else if take 13 line = ''MemAvailable:'' then
          old_mem_loop lines (found + 1) (st\<lparr>ob_mem_available := scan_field 13 line (ob_mem_available st)\<rparr>)
        else old_mem_loop lines found st
      else st)"

definition old_memory :: "local_env \<Rightarrow> old_readings \<Rightarrow> old_status \<Rightarrow> old_status" where
  "old_memory e c st = (if \<not> or_mem c then st else old_mem_loop (file_lines 126 (file_meminfo e)) 0 st)"

section \<open>Host name, uptime and address\<close>

definition old_hostname :: "local_env \<Rightarrow> old_status \<Rightarrow> old_status" where
  "old_hostname e st =
     (case host_name e of
        Some name \<Rightarrow> st\<lparr>ob_hostname := bounded_copy 32 name\<rparr>
      | None \<Rightarrow> st\<lparr>ob_hostname := bounded_copy 32 ''Unknown''\<rparr>)"

definition old_uptime :: "local_env \<Rightarrow> old_status \<Rightarrow> old_status" where
  "old_uptime e st = (case sys_uptime e of Some up \<Rightarrow> st\<lparr>ob_uptime := word_of_int up\<rparr> | None \<Rightarrow> st)"

definition old_ip :: "local_env \<Rightarrow> old_status \<Rightarrow> old_status" where
  "old_ip e st =
     (let st = (case if_addrs e of
                  None \<Rightarrow> st
                | Some addrs \<Rightarrow>
                    let st = st\<lparr>ob_ip_addr := by_priority [''br-lan'', ''eth0'', ''wlan0''] addrs (ob_ip_addr st)\<rparr>
                    in if ob_ip_addr st = [] then
                         (case find_inet (\<lambda>a. \<not> ifa_loopback a) addrs of None \<Rightarrow> st | Some s \<Rightarrow> st\<lparr>ob_ip_addr := s\<rparr>)
                       else st)
      in if ob_ip_addr st = [] then st\<lparr>ob_ip_addr := ''No IP''\<rparr> else st)"

section \<open>Traffic\<close>

text \<open>
  The interface of the default route, \<open>%15s %x\<close>. Without one the loop over three names takes the
  first in any case.
\<close>

fun old_route_loop :: "string list \<Rightarrow> string" where
  "old_route_loop [] = []"
| "old_route_loop (line # lines) =
     (case sscanf [Scan_Word 15, Scan_Ws, Scan_Hex] line of
        [V_Str iface, V_Hex dest] \<Rightarrow> if dest = 0 then bounded_copy 16 iface else old_route_loop lines
      | _ \<Rightarrow> old_route_loop lines)"

definition old_gw_iface :: "local_env \<Rightarrow> string" where
  "old_gw_iface e =
     (let gw_iface = (case file_route e of None \<Rightarrow> [] | Some text \<Rightarrow> old_route_loop (drop 1 (file_lines 254 text)))
      in if gw_iface = [] then bounded_copy 16 (hd [''br-lan'', ''eth0'', ''wlan0'']) else gw_iface)"

fun old_dev_loop :: "string \<Rightarrow> string list \<Rightarrow> old_status \<Rightarrow> old_status" where
  "old_dev_loop gw_iface [] st = st"
| "old_dev_loop gw_iface (line # lines) st =
     (case blank_colon line of
        None \<Rightarrow> old_dev_loop gw_iface lines st
      | Some line \<Rightarrow>
          (case sscanf dev_format (dropWhile (\<lambda>c. c = CHR '' '') line) of
             [V_Str iface, V_U64 rx, V_U64 tx] \<Rightarrow>
               if iface = gw_iface then st\<lparr>ob_rx_bytes := rx, ob_tx_bytes := tx\<rparr>
               else old_dev_loop gw_iface lines st
           | _ \<Rightarrow> old_dev_loop gw_iface lines st))"

text \<open>The division of a \<open>uint64_t\<close> by a \<open>time_t\<close>, which is positive, is unsigned.\<close>

definition old_speed :: "u64 \<Rightarrow> u64 \<Rightarrow> int \<Rightarrow> u64" where
  "old_speed bytes prev elapsed = (if bytes > prev then (bytes - prev) div word_of_int elapsed else 0)"

definition old_network :: "local_env \<Rightarrow> old_readings \<times> old_status \<Rightarrow> old_readings \<times> old_status" where
  "old_network e x =
     (let (c, st) = x;
          gw_iface = old_gw_iface e;
          st = (if or_net c \<and> gw_iface \<noteq> [] then old_dev_loop gw_iface (file_lines 254 (file_net_dev e)) st else st);
          now = net_now_sec e;
          st = (if or_prev_net_time c > 0 \<and> now > or_prev_net_time c then
                  let elapsed = now - or_prev_net_time c
                  in st\<lparr>ob_rx_speed := old_speed (ob_rx_bytes st) (or_prev_rx_bytes c) elapsed,
                        ob_tx_speed := old_speed (ob_tx_bytes st) (or_prev_tx_bytes c) elapsed\<rparr>
                else st)
      in (c\<lparr>or_prev_rx_bytes := ob_rx_bytes st, or_prev_tx_bytes := ob_tx_bytes st, or_prev_net_time := now\<rparr>, st))"

definition old_update_basic :: "local_env \<Rightarrow> old_readings \<times> old_status \<Rightarrow> old_readings \<times> old_status" where
  "old_update_basic e x =
     (let (c, st) = x;
          st = old_cleared st;
          (c, st) = old_cpu e (c, st);
          st = old_temp e c st;
          st = old_memory e c st;
          st = old_hostname e st;
          st = old_uptime e st;
          st = old_ip e st
      in old_network e (c, st))"

section \<open>Printing\<close>

definition old_format_uptime :: "u32 \<Rightarrow> nat \<Rightarrow> string" where
  "old_format_uptime uptime buflen =
     (let days = uptime div 86400; hours = (uptime mod 86400) div 3600; mins = (uptime mod 3600) div 60 in
      bounded_copy buflen
        (if days > 0 then dec_nat (unat days) @ ''d '' @ dec_nat (unat hours) @ ''h''
         else dec_nat (unat hours) @ ''h '' @ dec_nat (unat mins) @ ''m''))"

definition old_units :: "string list" where
  "old_units = [''B'', ''K'', ''M'', ''G'', ''T'']"

function old_scale :: "rat \<Rightarrow> nat \<Rightarrow> rat \<times> nat" where
  "old_scale sz unit = (if sz \<ge> 1024 \<and> unit < 4 then old_scale (f64_div sz 1024) (unit + 1) else (sz, unit))"
  by pat_completeness auto
termination by (relation "measure (\<lambda>(sz, unit). 4 - unit)") auto

declare old_scale.simps [simp del]

definition old_format_bytes :: "u64 \<Rightarrow> nat \<Rightarrow> string" where
  "old_format_bytes bytes buflen =
     (let (sz, unit) = old_scale (f64_of_u64 bytes) 0 in
      bounded_copy buflen
        (if unit = 0 then dec_nat (unat bytes) @ old_units ! unit else fmt_fixed 1 sz @ old_units ! unit))"

section \<open>Nothing is kept from the previous status\<close>

lemma old_cleared_same: "old_cleared st = old_cleared st'" for st st' :: old_status
  by (simp add: old_cleared_def)

lemma update_basic_fresh: "old_update_basic e (c, st) = old_update_basic e (c, st')" for st st' :: old_status
  by (simp add: old_update_basic_def old_cleared_same[of st st'])

section \<open>The address is that of the current version\<close>

lemma old_ip_current: "ob_ip_addr st = [] \<Longrightarrow> ob_ip_addr (old_ip e st) = ip_addr (update_ip_addr e sys)"
  by (simp add: old_ip_def update_ip_addr_def bounded_copy_def Let_def split: option.split)

lemma ob_ip_kept [simp]:
  "ob_ip_addr (snd (old_cpu e x)) = ob_ip_addr (snd x)"
  "ob_ip_addr (old_temp e c st) = ob_ip_addr st"
  "ob_ip_addr (old_memory e c st) = ob_ip_addr st"
  "ob_ip_addr (old_hostname e st) = ob_ip_addr st"
  "ob_ip_addr (old_uptime e st) = ob_ip_addr st"
  "ob_ip_addr (snd (old_network e x)) = ob_ip_addr (snd x)"
proof -
  have "ob_ip_addr (old_mem_loop ls k st) = ob_ip_addr st" for ls k and st :: old_status
    by (induction ls k st rule: old_mem_loop.induct) simp_all
  then show "ob_ip_addr (old_memory e c st) = ob_ip_addr st" by (simp add: old_memory_def)
  have "ob_ip_addr (old_dev_loop g ls st) = ob_ip_addr st" for g ls and st :: old_status
    by (induction g ls st rule: old_dev_loop.induct) (simp_all split: option.split list.split scan_val.split)
  then show "ob_ip_addr (snd (old_network e x)) = ob_ip_addr (snd x)"
    by (simp add: old_network_def case_prod_beta Let_def)
qed (auto simp: old_cpu_def old_temp_def old_hostname_def old_uptime_def case_prod_beta Let_def
    split: option.split list.split scan_val.split)

text \<open>Both versions show the same address on the same system.\<close>

lemma update_basic_ip: "ob_ip_addr (snd (old_update_basic e (c, st))) = ip_addr (update_ip_addr e sys)" for st :: old_status
  by (cases "old_cpu e (c, old_cleared st)")
    (use ob_ip_kept(1)[of e "(c, old_cleared st)"] in
      \<open>simp add: old_update_basic_def old_ip_current old_cleared_def\<close>)

section \<open>Speeds\<close>

text \<open>The counters that an update reads: zero if the interface has no line.\<close>

fun dev_counters :: "string \<Rightarrow> string list \<Rightarrow> u64 \<times> u64" where
  "dev_counters gw_iface [] = (0, 0)"
| "dev_counters gw_iface (line # lines) =
     (case blank_colon line of
        None \<Rightarrow> dev_counters gw_iface lines
      | Some line \<Rightarrow>
          (case sscanf dev_format (dropWhile (\<lambda>c. c = CHR '' '') line) of
             [V_Str iface, V_U64 rx, V_U64 tx] \<Rightarrow> if iface = gw_iface then (rx, tx) else dev_counters gw_iface lines
           | _ \<Rightarrow> dev_counters gw_iface lines))"

definition counters :: "local_env \<Rightarrow> u64 \<times> u64" where
  "counters e = dev_counters (old_gw_iface e) (file_lines 254 (file_net_dev e))"

lemma old_dev_loop_counters:
  "ob_rx_bytes st = 0 \<Longrightarrow> ob_tx_bytes st = 0 \<Longrightarrow>
   old_dev_loop g ls st = st\<lparr>ob_rx_bytes := fst (dev_counters g ls), ob_tx_bytes := snd (dev_counters g ls)\<rparr>"
  for st :: old_status
  by (induction g ls st rule: old_dev_loop.induct) (simp_all split: option.split list.split scan_val.split)

lemma old_gw_nonempty: "old_gw_iface e \<noteq> []"
  by (simp add: old_gw_iface_def bounded_copy_def Let_def)

text \<open>The part of an update before the network.\<close>

definition before_network :: "local_env \<Rightarrow> old_readings \<Rightarrow> old_readings \<times> old_status" where
  "before_network e c =
     (let (c, st) = old_cpu e (c, old_cleared undefined)
      in (c, old_ip e (old_uptime e (old_hostname e (old_memory e c (old_temp e c st))))))"

lemma update_basic_parts: "old_update_basic e (c, st) = old_network e (before_network e c)" for st :: old_status
  by (simp add: old_update_basic_def before_network_def old_cleared_same[of st undefined] case_prod_beta Let_def)

definition quiet :: "old_status \<Rightarrow> bool" where
  "quiet st \<longleftrightarrow> ob_rx_bytes st = 0 \<and> ob_tx_bytes st = 0 \<and> ob_rx_speed st = 0 \<and> ob_tx_speed st = 0"

lemma before_network_quiet: "quiet (snd (before_network e c))"
proof -
  have "quiet (old_mem_loop ls k st) = quiet st" for ls k and st :: old_status
    by (induction ls k st rule: old_mem_loop.induct) (simp_all add: quiet_def)
  then have m: "quiet (old_memory e c st) = quiet st" for c and st :: old_status by (simp add: old_memory_def)
  have "quiet (snd (old_cpu e (c, old_cleared undefined)))"
    by (auto simp: old_cpu_def old_cleared_def quiet_def Let_def split: option.split list.split scan_val.split)
  then have "quiet (old_temp e c' (snd (old_cpu e (c, old_cleared undefined))))" for c'
    by (auto simp: old_temp_def quiet_def split: list.split scan_val.split)
  then show ?thesis
    by (simp add: before_network_def case_prod_beta Let_def quiet_def old_ip_def old_uptime_def old_hostname_def
        m[unfolded quiet_def] split: option.split)
qed

lemma before_network_keeps:
  "or_net (fst (before_network e c)) = or_net c"
  "or_prev_net_time (fst (before_network e c)) = or_prev_net_time c"
  "or_prev_rx_bytes (fst (before_network e c)) = or_prev_rx_bytes c"
  "or_prev_tx_bytes (fst (before_network e c)) = or_prev_tx_bytes c"
  by (auto simp: before_network_def old_cpu_def case_prod_beta Let_def split: option.split list.split scan_val.split)

text \<open>The speed that an update shows, and what it remembers for the next one.\<close>

lemma old_network_speed:
  assumes "quiet st" and "or_net c"
  shows "ob_rx_speed (snd (old_network e (c, st))) =
      (if 0 < or_prev_net_time c \<and> or_prev_net_time c < net_now_sec e
       then old_speed (fst (counters e)) (or_prev_rx_bytes c) (net_now_sec e - or_prev_net_time c) else 0)"
    "ob_tx_speed (snd (old_network e (c, st))) =
      (if 0 < or_prev_net_time c \<and> or_prev_net_time c < net_now_sec e
       then old_speed (snd (counters e)) (or_prev_tx_bytes c) (net_now_sec e - or_prev_net_time c) else 0)"
    "fst (old_network e (c, st)) =
      c\<lparr>or_prev_rx_bytes := fst (counters e), or_prev_tx_bytes := snd (counters e), or_prev_net_time := net_now_sec e\<rparr>"
  using assms
  by (simp_all add: old_network_def old_dev_loop_counters quiet_def counters_def old_gw_nonempty Let_def)

lemma update_speed:
  assumes "or_net c"
  shows "ob_rx_speed (snd (old_update_basic e (c, st))) =
      (if 0 < or_prev_net_time c \<and> or_prev_net_time c < net_now_sec e
       then old_speed (fst (counters e)) (or_prev_rx_bytes c) (net_now_sec e - or_prev_net_time c) else 0)"
    "ob_tx_speed (snd (old_update_basic e (c, st))) =
      (if 0 < or_prev_net_time c \<and> or_prev_net_time c < net_now_sec e
       then old_speed (snd (counters e)) (or_prev_tx_bytes c) (net_now_sec e - or_prev_net_time c) else 0)"
  using old_network_speed(1,2)[OF before_network_quiet[of e c], of "fst (before_network e c)" e] assms
  by (simp_all add: update_basic_parts before_network_keeps)

lemma update_remembers:
  assumes "or_net c" and "old_update_basic e (c, st) = (c', st')"
  shows "or_net c'" "or_prev_rx_bytes c' = fst (counters e)" "or_prev_tx_bytes c' = snd (counters e)"
    "or_prev_net_time c' = net_now_sec e"
  using old_network_speed(3)[OF before_network_quiet[of e c], of "fst (before_network e c)" e] assms
  by (auto simp: update_basic_parts before_network_keeps)

section \<open>The buffers are large enough\<close>

lemma old_scale_range:
  "0 \<le> sz \<Longrightarrow> sz \<le> pow2 (64 - 10 * int k) \<Longrightarrow> k \<le> 4 \<Longrightarrow> old_scale sz k = (r, j) \<Longrightarrow>
   0 \<le> r \<and> r \<le> pow2 24 \<and> j \<le> 4 \<and> (j = 0 \<longrightarrow> k = 0 \<and> r = sz \<and> sz < 1024)"
proof (induction sz k arbitrary: r j rule: old_scale.induct)
  case (1 sz k)
  have p10: "pow2 10 = 1024" by (simp add: pow2_def)
  show ?case
  proof (cases "1024 \<le> sz \<and> k < 4")
    case True
    have "pow2 (64 - 10 * int k) = pow2 (64 - 10 * int (k + 1)) * 1024"
      unfolding p10[symmetric] by (simp flip: pow2_add)
    then have "sz / 1024 \<le> pow2 (64 - 10 * int (k + 1))" using "1.prems"(2) by (simp add: pos_divide_le_eq)
    then have "f64_div sz 1024 \<le> pow2 (64 - 10 * int (k + 1))"
      unfolding f64_div_def using "1.prems"(1) by (intro fround_le_pow2) simp_all
    moreover have "0 \<le> f64_div sz 1024" unfolding f64_div_def using "1.prems"(1) by (intro fround_nonneg) simp
    ultimately show ?thesis
      using "1.IH"[OF True, of r j] "1.prems"(4) True by (simp add: old_scale.simps[of sz k])
  next
    case False
    then have r: "r = sz" "j = k" using "1.prems"(4) by (auto simp: old_scale.simps[of sz k])
    have "sz \<le> pow2 24"
    proof (cases "sz < 1024")
      case True
      have "pow2 10 \<le> pow2 24" by (rule pow2_mono) simp
      then show ?thesis using True p10 by linarith
    next
      case sz: False
      then have "k = 4" using False "1.prems"(3) by simp
      then show ?thesis using "1.prems"(2) by simp
    qed
    then show ?thesis using r "1.prems"(1,3) False by auto
  qed
qed

lemma fmt_one_length: "0 \<le> r \<Longrightarrow> r \<le> pow2 24 \<Longrightarrow> length (fmt_fixed 1 r) \<le> 10"
proof -
  assume r: "0 \<le> r" "r \<le> pow2 24"
  let ?m = "nat (rnd_even (\<bar>r\<bar> * 10 ^ 1))"
  have "\<bar>r\<bar> * 10 ^ 1 \<le> of_int (10 * 2 ^ 24)" using r by (simp add: pow2_def)
  then have "rnd_even (\<bar>r\<bar> * 10 ^ 1) \<le> 10 * 2 ^ 24" by (rule rnd_even_le_int)
  then have "?m div 10 < 10 ^ 8" by simp
  then have "length (dec_nat (?m div 10)) \<le> 8" by (rule length_dec_nat) simp
  moreover have "length (dec_nat (?m mod 10)) \<le> 1" by (rule length_dec_nat) simp_all
  ultimately show ?thesis using r by (simp add: fmt_fixed_def pad_left_def Let_def)
qed

definition old_bytes_text :: "u64 \<Rightarrow> string" where
  "old_bytes_text b =
     (let (sz, unit) = old_scale (f64_of_u64 b) 0
      in if unit = 0 then dec_nat (unat b) @ old_units ! unit else fmt_fixed 1 sz @ old_units ! unit)"

lemma f64_of_u64_range: "0 \<le> f64_of_u64 b" "f64_of_u64 b \<le> pow2 64"
proof -
  have "unat b < 2 ^ 64" using unsigned_less[of b] by simp
  then have "rat_of_nat (unat b) \<le> rat_of_nat (2 ^ 64)" by (intro of_nat_mono) simp
  then have le: "rat_of_nat (unat b) \<le> pow2 64" by (simp add: pow2_def)
  show "f64_of_u64 b \<le> pow2 64" unfolding f64_of_u64_def by (rule fround_le_pow2[OF of_nat_0_le_iff le]) simp
  show "0 \<le> f64_of_u64 b" unfolding f64_of_u64_def by (rule fround_nonneg[OF of_nat_0_le_iff])
qed

lemma old_units_length: "j \<le> 4 \<Longrightarrow> length (old_units ! j) = 1"
  by (auto simp: old_units_def numeral_eq_Suc le_Suc_eq)

lemma bytes_text_length: "length (old_bytes_text b) \<le> 11"
proof -
  obtain r j where s: "old_scale (f64_of_u64 b) 0 = (r, j)" by force
  have g: "0 \<le> r \<and> r \<le> pow2 24 \<and> j \<le> 4 \<and> (j = 0 \<longrightarrow> f64_of_u64 b < 1024)"
    using old_scale_range[OF f64_of_u64_range(1) _ _ s] f64_of_u64_range(2) by simp
  show ?thesis
  proof (cases "j = 0")
    case True
    have "unat b < 1024"
    proof (rule ccontr)
      assume "\<not> unat b < 1024"
      moreover have p: "pow2 10 = rat_of_nat 1024" by (simp add: pow2_def)
      ultimately have "pow2 10 \<le> rat_of_nat (unat b)" unfolding p by (intro of_nat_mono) simp
      then have "pow2 10 \<le> f64_of_u64 b" unfolding f64_of_u64_def by (rule fround_ge_pow2) simp
      then show False using g True by (simp add: pow2_def)
    qed
    then have "length (dec_nat (unat b)) \<le> 4" by (intro length_dec_nat) simp_all
    then show ?thesis using old_units_length[of j] True by (simp add: old_bytes_text_def s)
  next
    case False
    then show ?thesis using fmt_one_length[of r] old_units_length[of j] g by (simp add: old_bytes_text_def s)
  qed
qed

text \<open>The buffer of 12 bytes that the network page gives it holds every value.\<close>

theorem format_bytes_fits: "old_format_bytes b 12 = old_bytes_text b"
proof -
  have "old_format_bytes b 12 = bounded_copy 12 (old_bytes_text b)"
    by (simp add: old_format_bytes_def old_bytes_text_def case_prod_beta Let_def)
  then show ?thesis using bytes_text_length[of b] by (simp add: bounded_copy_fits)
qed

end
