(* ===== verification/Old_Draw.thy ===== *)
theory Old_Draw
  imports Old_Ubus Old_Status
begin

text \<open>
  The pictures of the first version of the program (\<open>src_old/main.c\<close>): header, arrows and the
  four pages. The calls into u8g2, which is third-party code, are recorded in order; the width of
  a string in a font is a parameter.
\<close>

section \<open>The graphics context\<close>

datatype old_font = F8x13B_tf | F5x7_tf | F7x13_te | F7x13_tf | F6x10_tf

datatype old_call =
    O_SetFont old_font
  | O_DrawStr int int string
  | O_DrawHLine int int int
  | O_DrawBox int int int int
  | O_DrawTriangle int int int int int int
  | O_SetDrawColor int
  | O_ClearBuffer
  | O_SendBuffer
  | O_Setup
  | O_InitDisplay
  | O_SetPowerSave int

text \<open>The font, the calls since the buffer was chosen, and \<open>g_x_offset\<close>.\<close>

record old_screen =
  sc_font :: "old_font option"
  sc_calls :: "old_call list"
  sc_x_offset :: int

type_synonym old_metrics = "old_font option \<Rightarrow> string \<Rightarrow> int"

definition old_call :: "old_call \<Rightarrow> old_screen \<Rightarrow> old_screen" where
  "old_call c sc = sc\<lparr>sc_calls := sc_calls sc @ [c]\<rparr>"

definition old_set_font :: "old_font \<Rightarrow> old_screen \<Rightarrow> old_screen" where
  "old_set_font f sc = (old_call (O_SetFont f) sc)\<lparr>sc_font := Some f\<rparr>"

definition old_draw_str :: "int \<Rightarrow> int \<Rightarrow> string \<Rightarrow> old_screen \<Rightarrow> old_screen" where
  "old_draw_str x y str sc = old_call (O_DrawStr (x + sc_x_offset sc) y str) sc"

definition old_draw_box :: "int \<Rightarrow> int \<Rightarrow> int \<Rightarrow> int \<Rightarrow> old_screen \<Rightarrow> old_screen" where
  "old_draw_box x y w h sc = old_call (O_DrawBox (x + sc_x_offset sc) y w h) sc"

section \<open>Header and arrows\<close>

definition draw_header :: "old_metrics \<Rightarrow> old_main \<Rightarrow> string \<Rightarrow> bool \<Rightarrow> bool \<Rightarrow> old_screen \<Rightarrow> old_screen" where
  "draw_header gsw m title centered show_indicator sc =
     (let sc = old_set_font F8x13B_tf sc;
          base_x = (if centered then
                      let w = gsw (sc_font sc) title; x = c_div (128 - w) 2 in if x < 0 then 0 else x
                    else 0);
          x = base_x + get_title_anim_offset m;
          x = (if x < 0 then 0 else x);
          sc = old_call (O_DrawStr x 11 title) sc;
          sc = (if show_indicator then
                  let indicator = bounded_copy 8 (dec_int (int (om_page m) + 1) @ ''/'' @ dec_int (int OLD_PAGE_COUNT));
                      sc = old_set_font F5x7_tf sc;
                      w = gsw (sc_font sc) indicator
                  in old_call (O_DrawStr (128 - w) 11 indicator) sc
                else sc)
      in old_call (O_DrawHLine 0 13 128) sc)"

definition draw_nav_indicator :: "old_main \<Rightarrow> old_screen \<Rightarrow> old_screen" where
  "draw_nav_indicator m sc =
     (let can_enter = page_supports_menu (om_page m) \<and> \<not> menu_active m; can_exit = menu_active m; cx = 124 in
      if can_enter \<and> can_exit then
        old_call (O_DrawTriangle (cx - 3) 58 (cx + 3) 58 cx 62)
          (old_call (O_DrawTriangle cx 52 (cx - 3) 56 (cx + 3) 56) sc)
      else if can_exit then old_call (O_DrawTriangle cx 57 (cx - 3) 62 (cx + 3) 62) sc
      else if can_enter then old_call (O_DrawTriangle (cx - 3) 57 (cx + 3) 57 cx 62) sc
      else sc)"

section \<open>The pages\<close>

definition mem_used_pct :: "old_status \<Rightarrow> f32" where
  "mem_used_pct st =
     (if ob_mem_total st > 0
      then f32_mul 100 (f32_sub 1 (f32_div (f32_of_u64 (ob_mem_available st)) (f32_of_u64 (ob_mem_total st))))
      else 0)"

definition draw_page_status :: "old_metrics \<Rightarrow> old_status \<Rightarrow> old_main \<Rightarrow> old_screen \<Rightarrow> old_screen" where
  "draw_page_status gsw st m sc =
     (let sc = draw_header gsw m (ob_hostname st) False True sc;
          sc = old_set_font F7x13_te sc;
          buf = bounded_copy 32 (''CPU: '' @ fmt_fixed 1 (ob_cpu_usage st) @ ''% '' @ fmt_fixed 0 (ob_cpu_temp st) @
                                 [CHR 0xB0, CHR ''C'']);
          sc = old_draw_str 0 28 buf sc;
          buf = bounded_copy 32 (''MEM: '' @ fmt_fixed 1 (mem_used_pct st) @ ''%'');
          sc = old_draw_str 0 43 buf sc;
          uptime_str = old_format_uptime (ob_uptime st) 16;
          buf = bounded_copy 32 (''UPT: '' @ uptime_str)
      in old_draw_str 0 58 buf sc)"

definition draw_page_network :: "old_metrics \<Rightarrow> old_status \<Rightarrow> old_main \<Rightarrow> old_screen \<Rightarrow> old_screen" where
  "draw_page_network gsw st m sc =
     (let sc = draw_header gsw m ''Network'' False True sc;
          sc = old_set_font F7x13_tf sc;
          sc = old_draw_str 0 28 (bounded_copy 32 (''IP: '' @ ob_ip_addr st)) sc;
          rx_speed = old_format_bytes (ob_rx_speed st) 12;
          sc = old_draw_str 0 43 (bounded_copy 32 (''RX: '' @ rx_speed @ ''/s'')) sc;
          tx_speed = old_format_bytes (ob_tx_speed st) 12
      in old_draw_str 0 58 (bounded_copy 32 (''TX: '' @ tx_speed @ ''/s'')) sc)"

definition service_line :: "old_service \<Rightarrow> string" where
  "service_line s = bounded_copy 32 (os_name s @ '': '' @ (if os_running s then ''ON'' else ''OFF''))"

fun draw_service_lines :: "nat \<Rightarrow> int \<Rightarrow> old_service list \<Rightarrow> old_screen \<Rightarrow> old_screen" where
  "draw_service_lines i y [] sc = sc"
| "draw_service_lines i y (s # svcs) sc =
     (if i < 3 then draw_service_lines (i + 1) (y + 15) svcs (old_draw_str 0 y (service_line s) sc) else sc)"

definition draw_page_services :: "old_metrics \<Rightarrow> old_main \<Rightarrow> old_screen \<Rightarrow> old_screen" where
  "draw_page_services gsw m sc =
     (let sc = draw_header gsw m ''Services'' False True sc;
          sc = old_set_font F7x13_tf sc
      in if om_services m = [] then old_draw_str 0 40 ''No services'' sc
         else draw_service_lines 0 28 (om_services m) sc)"

fun draw_menu_lines :: "nat \<Rightarrow> nat \<Rightarrow> int \<Rightarrow> old_service list \<Rightarrow> old_screen \<Rightarrow> old_screen" where
  "draw_menu_lines sel i y [] sc = sc"
| "draw_menu_lines sel i y (s # svcs) sc =
     (if i < 3 then
        let buf = service_line s;
            sc = (if i = sel then
                    let sc = old_draw_box 0 (y - 11) 128 13 sc;
                        sc = old_call (O_SetDrawColor 0) sc;
                        sc = old_draw_str 0 y buf sc
                    in old_call (O_SetDrawColor 1) sc
                  else old_draw_str 0 y buf sc)
        in draw_menu_lines sel (i + 1) (y + 15) svcs sc
      else sc)"

definition draw_page_services_menu :: "old_metrics \<Rightarrow> old_main \<Rightarrow> old_screen \<Rightarrow> old_main \<times> old_screen" where
  "draw_page_services_menu gsw m sc =
     (let sc = draw_header gsw m ''Services'' True False sc;
          sc = old_set_font F7x13_tf sc
      in if om_services m = [] then (m, old_draw_str 0 40 ''No services'' sc)
         else
           let m = (if menu_selected m \<ge> length (om_services m) then m\<lparr>menu_selected := 0\<rparr> else m)
           in (m, draw_menu_lines (menu_selected m) 0 28 (om_services m) sc))"

definition draw_page_system :: "old_metrics \<Rightarrow> old_status \<Rightarrow> old_main \<Rightarrow> old_screen \<Rightarrow> old_screen" where
  "draw_page_system gsw st m sc =
     (let sc = draw_header gsw m ''System'' False True sc;
          sc = old_set_font F7x13_tf sc;
          sc = old_draw_str 0 28 (bounded_copy 32 (''Total: '' @ dec_nat (unat (ob_mem_total st div 1024)) @ '' MB'')) sc;
          sc = old_draw_str 0 43 (bounded_copy 32 (''Avail: '' @ dec_nat (unat (ob_mem_available st div 1024)) @ '' MB'')) sc
      in old_draw_str 0 58 (bounded_copy 32 (''Free:  '' @ dec_nat (unat (ob_mem_free st div 1024)) @ '' MB'')) sc)"

definition render_page :: "old_metrics \<Rightarrow> old_status \<Rightarrow> nat \<Rightarrow> old_main \<Rightarrow> old_screen \<Rightarrow> old_main \<times> old_screen" where
  "render_page gsw st page m sc =
     (let (m, sc) =
        (if page = 0 then (m, draw_page_status gsw st m sc)
         else if page = OLD_PAGE_NETWORK then (m, draw_page_network gsw st m sc)
         else if page = OLD_PAGE_SERVICES then
           (if menu_active m then draw_page_services_menu gsw m sc else (m, draw_page_services gsw m sc))
         else if page = 3 then (m, draw_page_system gsw st m sc)
         else (m, sc))
      in (m, draw_nav_indicator m sc))"

definition show_current_page :: "old_metrics \<Rightarrow> old_status \<Rightarrow> old_main \<Rightarrow> old_screen \<Rightarrow> old_main \<times> old_screen" where
  "show_current_page gsw st m sc =
     (if \<not> display_on m then (m, sc)
      else
        let sc = old_call O_ClearBuffer sc;
            (m, sc) = render_page gsw st (om_page m) m sc
        in (m\<lparr>om_drawn := om_drawn m + 1\<rparr>, old_call O_SendBuffer sc))"

text \<open>
  The calls that fill a buffer, which is cleared first; then the context has its own buffer again.
\<close>

definition render_page_to_buffer ::
  "old_metrics \<Rightarrow> old_status \<Rightarrow> nat \<Rightarrow> old_main \<Rightarrow> old_screen \<Rightarrow> old_call list \<times> old_main \<times> old_screen" where
  "render_page_to_buffer gsw st page m sc =
     (let original = sc_calls sc;
          buf = old_call O_ClearBuffer (sc\<lparr>sc_calls := []\<rparr>);
          buf = buf\<lparr>sc_x_offset := 0\<rparr>;
          (m, buf) = render_page gsw st page m buf
      in (sc_calls buf, m, buf\<lparr>sc_calls := original\<rparr>))"

text \<open>The pictures that the slide of \<open>Old_Slide\<close> puts together.\<close>

definition slide_pictures ::
  "old_metrics \<Rightarrow> old_status \<Rightarrow> nat \<Rightarrow> nat \<Rightarrow> old_main \<Rightarrow> old_screen \<Rightarrow> old_call list \<times> old_call list" where
  "slide_pictures gsw st old new m sc =
     (let (buf_from, m, sc) = render_page_to_buffer gsw st old m sc;
          (buf_to, m, sc) = render_page_to_buffer gsw st new m sc
      in (buf_from, buf_to))"

section \<open>Drawing and the state of the interface\<close>

lemma render_state:
  "fst (render_page gsw st page m sc) =
     (if page = OLD_PAGE_SERVICES \<and> menu_active m \<and> om_services m \<noteq> [] \<and> menu_selected m \<ge> length (om_services m)
      then m\<lparr>menu_selected := 0\<rparr> else m)"
  by (auto simp: render_page_def draw_page_services_menu_def Let_def)

text \<open>\<open>draw_current_page\<close> of \<open>Old_Main\<close> is what drawing does to the state of the interface.\<close>

lemma show_state: "fst (show_current_page gsw st m sc) = draw_current_page m"
  by (simp add: show_current_page_def draw_current_page_def render_state case_prod_beta Let_def)

section \<open>What is added to a picture\<close>

text \<open>The calls after the first \<open>length (sc_calls sc)\<close> ones, which stay.\<close>

definition adds :: "old_screen \<Rightarrow> old_screen \<Rightarrow> old_call set \<Rightarrow> bool" where
  "adds sc sc' A \<longleftrightarrow> (\<exists>ks. sc_calls sc' = sc_calls sc @ ks \<and> set ks \<subseteq> A) \<and> sc_x_offset sc' = sc_x_offset sc"

lemma adds_refl: "adds sc sc A"
  by (simp add: adds_def)

lemma adds_trans: "adds sc sc1 A \<Longrightarrow> adds sc1 sc2 A \<Longrightarrow> adds sc sc2 A"
  unfolding adds_def by (metis append.assoc le_sup_iff set_append)

lemma adds_call: "c \<in> A \<Longrightarrow> adds sc (old_call c sc) A"
  by (simp add: adds_def old_call_def)

lemma adds_set: "adds sc sc' A \<Longrightarrow> set (sc_calls sc') \<subseteq> set (sc_calls sc) \<union> A"
  by (auto simp: adds_def)

lemma adds_mono: "adds sc sc' A \<Longrightarrow> A \<subseteq> B \<Longrightarrow> adds sc sc' B"
  unfolding adds_def by blast

text \<open>Everything but boxes.\<close>

abbreviation (input) no_box :: "old_call set" where "no_box \<equiv> {c. \<forall>x y w h. c \<noteq> O_DrawBox x y w h}"

lemma adds_str: "adds sc (old_draw_str x y s sc) no_box"
  by (simp add: old_draw_str_def adds_call)

lemma adds_font: "adds sc (old_set_font f sc) no_box"
  by (simp add: old_set_font_def adds_def old_call_def)

lemma adds_header: "adds sc (draw_header gsw m title c i sc) no_box"
  by (simp add: draw_header_def adds_def old_call_def old_set_font_def Let_def)

lemma adds_nav: "adds sc (draw_nav_indicator m sc) no_box"
  by (simp add: draw_nav_indicator_def adds_def old_call_def Let_def)

lemma adds_service_lines: "adds sc (draw_service_lines i y svcs sc) no_box"
proof (induction i y svcs sc rule: draw_service_lines.induct)
  case (2 i y s svcs sc)
  then show ?case using adds_trans[OF adds_str[of sc 0 y "service_line s"]] by (simp add: adds_refl)
qed (simp add: adds_refl)

text \<open>The menu draws one box, behind the selected service, if that is among the first three.\<close>

lemma menu_lines_plain:
  "3 \<le> sel \<or> sel < i \<Longrightarrow> adds sc (draw_menu_lines sel i y svcs sc) no_box"
proof (induction sel i y svcs sc rule: draw_menu_lines.induct)
  case (2 sel i y s svcs sc)
  show ?case
  proof (cases "i < 3")
    case True
    then have "i \<noteq> sel" "3 \<le> sel \<or> sel < i + 1" using "2.prems" by auto
    with "2.IH"[OF True refl refl] True have
      "adds (old_draw_str 0 y (service_line s) sc) (draw_menu_lines sel (i + 1) (y + 15) svcs (old_draw_str 0 y (service_line s) sc)) no_box"
      by simp
    then show ?thesis using adds_trans[OF adds_str] True \<open>i \<noteq> sel\<close> by simp
  qed (simp add: adds_refl)
qed (simp add: adds_refl)

lemma menu_lines_box:
  "i \<le> sel \<Longrightarrow> sel < 3 \<Longrightarrow> sel < i + length svcs \<Longrightarrow>
   O_DrawBox (sc_x_offset sc) (y + 15 * int (sel - i) - 11) 128 13 \<in> set (sc_calls (draw_menu_lines sel i y svcs sc))"
proof (induction sel i y svcs sc rule: draw_menu_lines.induct)
  case (2 sel i y s svcs sc)
  show ?case
  proof (cases "i = sel")
    case True
    let ?sc = "old_call (O_SetDrawColor 1) (old_draw_str 0 y (service_line s)
      (old_call (O_SetDrawColor 0) (old_draw_box 0 (y - 11) 128 13 sc)))"
    have "adds ?sc (draw_menu_lines sel (i + 1) (y + 15) svcs ?sc) no_box" using True by (intro menu_lines_plain) simp
    moreover have "O_DrawBox (sc_x_offset sc) (y - 11) 128 13 \<in> set (sc_calls ?sc)"
      by (simp add: old_call_def old_draw_str_def old_draw_box_def)
    ultimately show ?thesis using True "2.prems"(2) by (auto simp: adds_def Let_def)
  next
    case False
    then have i: "i < 3" "i + 1 \<le> sel" using "2.prems" by auto
    have y: "y + 15 + 15 * int (sel - (i + 1)) = y + 15 * int (sel - i)" using i(2) by (simp add: of_nat_diff)
    have o: "sc_x_offset (old_draw_str 0 y (service_line s) sc) = sc_x_offset sc"
      by (simp add: old_draw_str_def old_call_def)
    have "O_DrawBox (sc_x_offset sc) (y + 15 * int (sel - i) - 11) 128 13 \<in>
        set (sc_calls (draw_menu_lines sel (i + 1) (y + 15) svcs (old_draw_str 0 y (service_line s) sc)))"
      using "2.IH"[OF i(1) refl refl] i(2) "2.prems"(2,3) False unfolding y by (simp add: o)
    then show ?thesis using i(1) False by simp
  qed
qed simp

text \<open>A buffer that was just cleared.\<close>

definition blank_screen :: "old_screen \<Rightarrow> bool" where
  "blank_screen sc \<longleftrightarrow> sc_calls sc = [O_ClearBuffer] \<and> sc_x_offset sc = 0"

theorem highlight_shown:
  assumes "menu_active m" and "menu_selected m < length (om_services m)" and "blank_screen sc"
  shows "(\<exists>x y w h. O_DrawBox x y w h \<in> set (sc_calls (snd (render_page gsw st OLD_PAGE_SERVICES m sc)))) \<longleftrightarrow>
    menu_selected m < 3"
proof -
  let ?sc = "old_set_font F7x13_tf (draw_header gsw m ''Services'' True False sc)"
  let ?lines = "draw_menu_lines (menu_selected m) 0 28 (om_services m) ?sc"
  have r: "snd (render_page gsw st OLD_PAGE_SERVICES m sc) = draw_nav_indicator m ?lines"
    using assms(1,2) by (auto simp: render_page_def draw_page_services_menu_def Let_def)
  have nav: "adds ?lines (draw_nav_indicator m ?lines) no_box" by (rule adds_nav)
  have head: "adds sc ?sc no_box" by (rule adds_trans[OF adds_header adds_font])
  show ?thesis
  proof (cases "menu_selected m < 3")
    case True
    then show ?thesis using menu_lines_box[of 0 "menu_selected m" "om_services m" ?sc 28] assms(2) nav
      by (fastforce simp: r adds_def)
  next
    case False
    then have "adds ?sc ?lines no_box" by (intro menu_lines_plain) simp
    from adds_set[OF adds_trans[OF adds_trans[OF head this] nav]] show ?thesis
      using assms(3) False unfolding r blank_screen_def by fastforce
  qed
qed

text \<open>
  With all four services installed, K1 in the freshly opened menu selects the fourth, which is
  not drawn: no line is marked, and K2 starts or stops it without any change of the picture.
\<close>

theorem fourth_service_hidden:
  assumes "display_on m" and "menu_active m" and "length (om_services m) = 4" and "menu_selected m = 0"
    and "he_action_ok e'" and "blank_screen sc"
  shows "let m1 = old_handle_button e BTN_K1_PRESS m; picture = sc_calls (snd (render_page gsw st OLD_PAGE_SERVICES m1 sc));
      m2 = old_handle_button e' BTN_K2_PRESS m1
    in (\<forall>x y w h. O_DrawBox x y w h \<notin> set picture) \<and>
      os_running (om_services m2 ! 3) = (\<not> os_running (om_services m ! 3)) \<and>
      sc_calls (snd (render_page gsw st OLD_PAGE_SERVICES m2 sc)) = picture"
proof -
  obtain a b c d where s: "om_services m = [a, b, c, d]"
    using assms(3) by (auto simp: length_Suc_conv numeral_eq_Suc)
  define m1 where "m1 = old_handle_button e BTN_K1_PRESS m"
  define m2 where "m2 = old_handle_button e' BTN_K2_PRESS m1"
  have m1: "om_services m1 = [a, b, c, d]" "menu_selected m1 = 3" "menu_active m1" "display_on m1"
    "title_anim_type m1 = title_anim_type m" "anim_frame m1 = anim_frame m" "anim_target_x m1 = anim_target_x m" "om_page m1 = om_page m"
    using assms(1,2,4) by (simp_all add: m1_def s old_handle_button_def handle_menu_button_def menu_touch_def mark_dirty_def Let_def)
  have m2: "om_services m2 = [a, b, c, d\<lparr>os_running := \<not> os_running d\<rparr>]" "menu_selected m2 = 3" "menu_active m2"
    "title_anim_type m2 = title_anim_type m" "anim_frame m2 = anim_frame m" "anim_target_x m2 = anim_target_x m" "om_page m2 = om_page m"
    using assms(5) by (simp_all add: m2_def m1 old_handle_button_def handle_menu_button_def menu_touch_def mark_dirty_def Let_def)
  have offset: "get_title_anim_offset m2 = get_title_anim_offset m1"
    by (cases "title_anim_type m") (simp_all add: get_title_anim_offset_def m1 m2)
  have "draw_header gsw m2 = draw_header gsw m1"
    unfolding draw_header_def offset m1(8) m2(7) ..
  then have "sc_calls (snd (render_page gsw st OLD_PAGE_SERVICES m2 sc)) = sc_calls (snd (render_page gsw st OLD_PAGE_SERVICES m1 sc))"
    by (simp add: render_page_def draw_page_services_menu_def m1 m2 draw_nav_indicator_def Let_def)
  then show ?thesis
    using highlight_shown[of m1 sc gsw st] m1 assms(6) by (simp add: Let_def m2 s flip: m1_def m2_def)
qed

section \<open>The pictures of a slide\<close>

text \<open>The text in the small font, in which only the number of the page is drawn.\<close>

fun indicator_shown :: "old_call list \<Rightarrow> string option" where
  "indicator_shown (O_SetFont F5x7_tf # O_DrawStr x y s # cs) = Some s"
| "indicator_shown (c # cs) = indicator_shown cs"
| "indicator_shown [] = None"

definition page_indicator :: "nat \<Rightarrow> string" where
  "page_indicator p = bounded_copy 8 (dec_int (int p + 1) @ ''/'' @ dec_int (int OLD_PAGE_COUNT))"

definition starts_with_header :: "string \<Rightarrow> old_screen \<Rightarrow> bool" where
  "starts_with_header ind sc \<longleftrightarrow> (\<exists>x x' title ks.
     sc_calls sc = O_ClearBuffer # O_SetFont F8x13B_tf # O_DrawStr x 11 title # O_SetFont F5x7_tf # O_DrawStr x' 11 ind # ks)"

lemma header_indicator: "starts_with_header ind sc \<Longrightarrow> indicator_shown (sc_calls sc) = Some ind"
  by (auto simp: starts_with_header_def)

lemma header_starts: "sc_calls sc = [O_ClearBuffer] \<Longrightarrow>
    starts_with_header (page_indicator (om_page m)) (draw_header gsw m title c True sc)"
  by (simp add: starts_with_header_def draw_header_def old_set_font_def old_call_def page_indicator_def Let_def)

lemma header_adds: "starts_with_header ind sc \<Longrightarrow> adds sc sc' A \<Longrightarrow> starts_with_header ind sc'"
  by (fastforce simp: starts_with_header_def adds_def)

text \<open>A page without the menu starts with its header.\<close>

lemma render_indicator_shown:
  assumes "\<not> menu_active m" and "page < OLD_PAGE_COUNT" and "sc_calls sc = [O_ClearBuffer]"
  shows "indicator_shown (sc_calls (snd (render_page gsw st page m sc))) = Some (page_indicator (om_page m))"
proof (rule header_indicator)
  let ?P = "starts_with_header (page_indicator (om_page m))"
  have P: "?P (old_draw_str x y s sc)" "?P (old_set_font f sc)" "?P (draw_service_lines i y svcs sc)"
    "?P (draw_nav_indicator m sc)" if "?P sc" for x y s f i svcs sc
    using header_adds[OF that] adds_str adds_font adds_service_lines adds_nav by blast+
  have h: "?P (draw_header gsw m title c True sc)" for title c by (rule header_starts[OF assms(3)])
  have pages: "?P (draw_page_status gsw st m sc)" "?P (draw_page_network gsw st m sc)" "?P (draw_page_services gsw m sc)"
    "?P (draw_page_system gsw st m sc)"
    by (simp_all add: draw_page_status_def draw_page_network_def draw_page_services_def draw_page_system_def P h Let_def)
  consider "page = 0" | "page = 1" | "page = 2" | "page = 3" using assms(2) by linarith
  then show "?P (snd (render_page gsw st page m sc))"
    by cases (simp_all add: render_page_def P pages assms(1) Let_def)
qed

lemma render_page_same: "\<not> menu_active m \<Longrightarrow> fst (render_page gsw st page m sc) = m"
  by (simp add: render_state)

text \<open>
  A key that changes the page is acted on before the pictures of the slide are drawn: the page
  that slides out already carries the number of the one that comes in.
\<close>

theorem slide_shows_new_number:
  assumes "om_page m < OLD_PAGE_COUNT" and "\<not> menu_active m" and "new < OLD_PAGE_COUNT"
  shows "let pictures = slide_pictures gsw st (om_page m) new (go_to_page e new direction m) sc
    in indicator_shown (fst pictures) = Some (page_indicator new) \<and> indicator_shown (snd pictures) = Some (page_indicator new)"
proof -
  let ?m = "go_to_page e new direction m"
  have m: "om_page ?m = new" "\<not> menu_active ?m" using assms(2) by (simp_all add: go_to_page_def transition_def Let_def)
  have "sc_calls ((old_call O_ClearBuffer (k\<lparr>sc_calls := []\<rparr>))\<lparr>sc_x_offset := 0\<rparr>) = [O_ClearBuffer]" for k
    by (simp add: old_call_def)
  from render_indicator_shown[OF m(2) _ this] show ?thesis
    using assms(1,3) m by (simp add: slide_pictures_def render_page_to_buffer_def render_page_same case_prod_beta Let_def)
qed

section \<open>The texts\<close>

text \<open>No text of the network page and of the system page is cut off.\<close>

theorem network_texts_fit:
  assumes "length (ob_ip_addr st) < 16"
  shows "bounded_copy 32 (''IP: '' @ ob_ip_addr st) = ''IP: '' @ ob_ip_addr st"
    "bounded_copy 32 (''RX: '' @ old_format_bytes b 12 @ ''/s'') = ''RX: '' @ old_bytes_text b @ ''/s''"
    "bounded_copy 32 (''TX: '' @ old_format_bytes b 12 @ ''/s'') = ''TX: '' @ old_bytes_text b @ ''/s''"
  using assms bytes_text_length[of b] by (simp_all add: bounded_copy_fits format_bytes_fits)

end
