(* ===== verification/Old_Start.thy ===== *)
theory Old_Start
  imports Old_Draw Display_Hal
begin

text \<open>
  The start and the end of the first version of the program (\<open>main\<close>, \<open>display_init\<close> and
  \<open>display_shutdown\<close> of \<open>src_old/main.c\<close>), which put its parts together, and its I2C callback
  (\<open>src_old/u8g2_port_linux.c\<close>) with the messages and the environment of \<open>Display_Hal\<close>.
\<close>

section \<open>The I2C callback\<close>

text \<open>Bytes beyond the buffer are dropped.\<close>

fun old_i2c_send :: "u8 list \<Rightarrow> i2c_state \<Rightarrow> i2c_state" where
  "old_i2c_send [] s = s"
| "old_i2c_send (d # data) s =
     old_i2c_send data
       (if buf_idx s < I2C_BUFFER_SIZE then s\<lparr>i2c_buffer := (i2c_buffer s)[buf_idx s := d], buf_idx := buf_idx s + 1\<rparr> else s)"

fun old_byte_linux_i2c :: "i2c_env \<Rightarrow> u8x8_msg \<Rightarrow> i2c_state \<Rightarrow> u8 \<times> i2c_state" where
  "old_byte_linux_i2c e (U8X8_MSG_BYTE_SEND data) s = (1, old_i2c_send data s)"
| "old_byte_linux_i2c e U8X8_MSG_BYTE_INIT s =
     (if g_i2c_fd s < 0 then
        let s = s\<lparr>g_i2c_fd := env_open e\<rparr> in
        if g_i2c_fd s < 0 then (0, s)
        else if env_ioctl e < 0 then (0, s\<lparr>g_i2c_fd := -1\<rparr>)
        else (1, s)
      else (1, s))"
| "old_byte_linux_i2c e U8X8_MSG_BYTE_SET_DC s = (1, s)"
| "old_byte_linux_i2c e U8X8_MSG_BYTE_START_TRANSFER s = (1, s\<lparr>buf_idx := 0\<rparr>)"
| "old_byte_linux_i2c e U8X8_MSG_BYTE_END_TRANSFER s =
     (let s = s\<lparr>i2c_writes := i2c_writes s @ [take (buf_idx s) (i2c_buffer s)]\<rparr>
      in if env_write e \<noteq> int (buf_idx s) then (0, s) else (1, s))"
| "old_byte_linux_i2c e U8X8_MSG_OTHER s = (0, s)"

lemma old_i2c_send_same: "old_i2c_send data s = i2c_send data s"
  by (induction data arbitrary: s) simp_all

text \<open>With the device open, the callback is that of the current version but for empty transfers.\<close>

theorem old_byte_current:
  assumes "m = U8X8_MSG_BYTE_END_TRANSFER \<longrightarrow> 0 \<le> g_i2c_fd s \<and> 0 < buf_idx s"
  shows "old_byte_linux_i2c e m s = u8x8_byte_linux_i2c e m s"
  using assms by (cases m) (simp_all add: old_i2c_send_same Let_def)

section \<open>The whole program\<close>

text \<open>The statics of the modules; \<open>ow_main\<close> is there once the loop has begun.\<close>

record old_world =
  ow_buttons :: old_buttons
  ow_readings :: old_readings
  ow_status :: old_status
  ow_entries :: "old_entry list"
  ow_ubus :: old_ubus
  ow_screen :: old_screen
  ow_i2c :: i2c_state
  ow_main :: "old_main option"

text \<open>
  The environment of a start: the arguments, the result of \<open>fork\<close> (0 in the child, negative if it
  fails), the buttons, the files, ubus, access to the device, what \<open>u8g2_InitDisplay\<close> does to the
  I2C statics, the first reading of the status and of the services, and the clock.
\<close>

record old_start_env =
  oe_args :: "string list"
  oe_fork :: int
  oe_prepared :: "nat \<Rightarrow> bool"
  oe_fds :: "nat \<Rightarrow> int"
  oe_read :: "nat \<Rightarrow> char option"
  oe_files :: "bool \<times> bool \<times> bool \<times> bool"
  oe_bus :: bus_env
  oe_access :: bool
  oe_init_io :: "i2c_state \<Rightarrow> i2c_state"
  oe_local :: local_env
  oe_buses :: "nat \<Rightarrow> bus_env"
  oe_now :: u64

text \<open>The command line: an exit status, or whether to run as a daemon. Other arguments are ignored.\<close>

fun parse_args :: "string list \<Rightarrow> bool \<Rightarrow> (int + bool)" where
  "parse_args [] daemon = Inr daemon"
| "parse_args (a # as) daemon =
     (if a = ''-d'' \<or> a = ''--daemon'' then parse_args as True
      else if a = ''-v'' \<or> a = ''--version'' then Inl 0
      else if a = ''-h'' \<or> a = ''--help'' then Inl 0
      else parse_args as daemon)"

definition old_display_init :: "old_start_env \<Rightarrow> old_world \<Rightarrow> int \<times> old_world" where
  "old_display_init e w =
     (if \<not> oe_access e then (-1, w)
      else
        let sc = old_call O_Setup (ow_screen w);
            sc = old_call O_InitDisplay sc;
            sc = old_call (O_SetPowerSave 0) sc
        in (0, w\<lparr>ow_screen := sc, ow_i2c := oe_init_io e (ow_i2c w)\<rparr>))"

definition display_shutdown :: "old_world \<Rightarrow> old_world" where
  "display_shutdown w =
     (let sc = old_call O_ClearBuffer (ow_screen w);
          sc = old_set_font F6x10_tf sc;
          sc = old_call (O_DrawStr 20 35 ''Shutting down...'') sc;
          sc = old_call O_SendBuffer sc;
          sc = old_call (O_SetPowerSave 1) sc
      in w\<lparr>ow_screen := sc\<rparr>)"

text \<open>The statics at the beginning.\<close>

definition old_world_start :: old_world where
  "old_world_start = \<lparr>ow_buttons = \<lparr>buttons = replicate NUM_BUTTONS \<lparr>btn_fd = -1, btn_press_time = 0, btn_pressed = False,
       btn_long_reported = False, btn_last_edge_ms = 0\<rparr>, pressed_value = CHR ''0''\<rparr>,
     ow_readings = old_readings_start,
     ow_status = \<lparr>ob_cpu_usage = 0, ob_cpu_temp = 0, ob_mem_total = 0, ob_mem_free = 0, ob_mem_available = 0,
       ob_ip_addr = [], ob_hostname = [], ob_uptime = 0, ob_rx_bytes = 0, ob_tx_bytes = 0, ob_rx_speed = 0, ob_tx_speed = 0\<rparr>,
     ow_entries = [], ow_ubus = old_ubus_start, ow_screen = \<lparr>sc_font = None, sc_calls = [], sc_x_offset = 0\<rparr>,
     ow_i2c = \<lparr>g_i2c_fd = -1, i2c_buffer = replicate I2C_BUFFER_SIZE 0, buf_idx = 0, i2c_writes = []\<rparr>, ow_main = None\<rparr>"

text \<open>From the set-up of the buttons to the head of the loop; the result is the exit status, if it ends.\<close>

definition old_setup :: "old_metrics \<Rightarrow> old_start_env \<Rightarrow> old_world \<Rightarrow> int option \<times> old_world" where
  "old_setup gsw e w =
     (let (_, bs) = gpio_button_init (oe_prepared e) (oe_fds e) (oe_read e) (oe_now e) (ow_buttons w);
          (s, n, m, t) = oe_files e;
          w = w\<lparr>ow_buttons := bs, ow_readings := old_sys_status_init s n m t (ow_readings w)\<rparr>;
          (_, h) = ubus_service_init (oe_bus e) (ow_ubus w);
          w = w\<lparr>ow_ubus := h\<rparr>;
          (r, w) = old_display_init e w
      in if r < 0 then
           (Some 1, w\<lparr>ow_readings := old_sys_status_cleanup (ow_readings w), ow_buttons := gpio_button_cleanup (ow_buttons w)\<rparr>)
         else
           let (c, st) = old_update_basic (oe_local e) (ow_readings w, ow_status w);
               (svcs, h) = old_update_services (oe_buses e) (ow_ubus w);
               begun = main_begin (oe_now e) (shown_services svcs) (ow_buttons w);
               (_, sc) = show_current_page gsw st begun (ow_screen w)
           in (None, w\<lparr>ow_readings := c, ow_status := st, ow_entries := svcs, ow_ubus := h, ow_screen := sc,
                 ow_main := Some begun\<rparr>))"

definition old_program_start :: "old_metrics \<Rightarrow> old_start_env \<Rightarrow> old_world \<Rightarrow> int option \<times> old_world" where
  "old_program_start gsw e w =
     (case parse_args (oe_args e) False of
        Inl status \<Rightarrow> (Some status, w)
      | Inr daemon \<Rightarrow>
          if daemon \<and> oe_fork e < 0 then (Some 1, w)
          else if daemon \<and> oe_fork e > 0 then (Some 0, w)
          else old_setup gsw e w)"

text \<open>What follows the loop.\<close>

definition old_program_stop :: "old_world \<Rightarrow> old_world" where
  "old_program_stop w =
     (let w = display_shutdown w;
          w = w\<lparr>ow_readings := old_sys_status_cleanup (ow_readings w)\<rparr>;
          w = w\<lparr>ow_ubus := ubus_service_cleanup (ow_ubus w)\<rparr>
      in w\<lparr>ow_buttons := gpio_button_cleanup (ow_buttons w)\<rparr>)"

section \<open>What start and end establish\<close>

lemma cleanup_closed: "b \<in> set (buttons (gpio_button_cleanup g)) \<Longrightarrow> btn_fd b < 0"
  by (auto simp: gpio_button_cleanup_def)

lemma old_setup_runs:
  assumes "old_setup gsw e old_world_start = (None, w)" and "unat (oe_now e) < 2 ^ 62"
  shows "(\<exists>m. ow_main w = Some m \<and> old_reachable (oe_now e) m \<and> om_services m = shown_services (ow_entries w) \<and>
      om_page m = OLD_PAGE_NETWORK \<and> om_buttons m = ow_buttons w)"
    and "old_ubus_ok (ow_ubus w)"
    and "ob_ip_addr (ow_status w) = ip_addr (update_ip_addr (oe_local e) sys)"
proof -
  obtain a b c d where f: "oe_files e = (a, b, c, d)" by (cases "oe_files e")
  obtain r bs where bs: "gpio_button_init (oe_prepared e) (oe_fds e) (oe_read e) (oe_now e) (ow_buttons old_world_start) = (r, bs)"
    by (cases "gpio_button_init (oe_prepared e) (oe_fds e) (oe_read e) (oe_now e) (ow_buttons old_world_start)")
  obtain r' h where h: "ubus_service_init (oe_bus e) old_ubus_start = (r', h)" by (cases "ubus_service_init (oe_bus e) old_ubus_start")
  let ?c = "old_sys_status_init a b c d old_readings_start"
  obtain c1 st1 where st: "old_update_basic (oe_local e) (?c, ow_status old_world_start) = (c1, st1)"
    by (cases "old_update_basic (oe_local e) (?c, ow_status old_world_start)")
  obtain svcs h1 where sv: "old_update_services (oe_buses e) h = (svcs, h1)" by (cases "old_update_services (oe_buses e) h")
  have start: "ow_ubus old_world_start = old_ubus_start" "ow_readings old_world_start = old_readings_start"
    by (simp_all add: old_world_start_def)
  have w: "ow_main w = Some (main_begin (oe_now e) (shown_services svcs) bs)" "ow_entries w = svcs" "ow_ubus w = h1" "ow_status w = st1"
    "ow_buttons w = bs"
    using assms(1)
    by (auto simp: old_setup_def old_display_init_def f bs h start st sv case_prod_beta Let_def split: if_splits)
  have "length (shown_services svcs) \<le> OLD_MAX_SERVICES" using update_services_bound[of "oe_buses e" h] sv by simp
  from old_reachable.start[OF assms(2) this, of bs]
  show "\<exists>m. ow_main w = Some m \<and> old_reachable (oe_now e) m \<and> om_services m = shown_services (ow_entries w) \<and>
      om_page m = OLD_PAGE_NETWORK \<and> om_buttons m = ow_buttons w"
    by (auto simp: w main_begin_def draw_current_page_def Let_def)
  have "old_ubus_ok h" using old_ok_init[of "oe_bus e"] h by simp
  then show "old_ubus_ok (ow_ubus w)"
    using old_ok_loop[of h "oe_buses e" 0 old_service_table "[]"] sv by (simp add: w old_update_services_def)
  show "ob_ip_addr (ow_status w) = ip_addr (update_ip_addr (oe_local e) sys)"
    using update_basic_ip[of "oe_local e" ?c "ow_status old_world_start" sys] st by (simp add: w)
qed

text \<open>
  A start that goes on to the loop leaves its parts in the states that their properties start
  from: the interface is reachable, with the services that the bus has reported, and the
  contract of libubus is kept.
\<close>

theorem old_start_establishes:
  assumes "old_program_start gsw e old_world_start = (None, w)" and "unat (oe_now e) < 2 ^ 62"
  shows "(\<exists>m. ow_main w = Some m \<and> old_reachable (oe_now e) m \<and> om_services m = shown_services (ow_entries w) \<and>
      om_page m = OLD_PAGE_NETWORK \<and> om_buttons m = ow_buttons w) \<and> old_ubus_ok (ow_ubus w)"
proof -
  have "old_setup gsw e old_world_start = (None, w)"
    using assms(1) by (auto simp: old_program_start_def split: sum.splits if_splits)
  from old_setup_runs(1,2)[OF this assms(2)] show ?thesis by blast
qed

text \<open>
  At the end everything is released: the last thing the display is told is to switch off, the
  connection is freed, the descriptors of the buttons are closed.
\<close>

theorem old_stop_releases:
  assumes "old_ubus_ok (ow_ubus w)"
  shows "last (sc_calls (ow_screen (old_program_stop w))) = O_SetPowerSave 1 \<and>
    lib_run (ou_log (ow_ubus (old_program_stop w))) Closed = Some Closed \<and>
    (\<forall>b \<in> set (buttons (ow_buttons (old_program_stop w))). btn_fd b < 0)"
  using old_ok_cleanup[OF assms] cleanup_closed
  by (simp add: old_program_stop_def display_shutdown_def old_call_def Let_def)

text \<open>
  When the display cannot be used, the program closes files and buttons and ends with status 1,
  but does not free the connection to ubus.
\<close>

theorem old_start_fails:
  assumes "\<not> oe_access e" and "parse_args (oe_args e) False = Inr False"
  shows "fst (old_program_start gsw e old_world_start) = Some 1 \<and>
    (\<forall>b \<in> set (buttons (ow_buttons (snd (old_program_start gsw e old_world_start)))). btn_fd b < 0) \<and>
    ou_ctx (ow_ubus (snd (old_program_start gsw e old_world_start))) = ou_ctx (snd (ubus_service_init (oe_bus e) old_ubus_start))"
  using assms cleanup_closed
  by (auto simp: old_program_start_def old_setup_def old_display_init_def old_world_start_def case_prod_beta Let_def)

text \<open>A start with everything at hand.\<close>

definition sample_old_start :: old_start_env where
  "sample_old_start =
     (let bus = \<lparr>be_connect = True, be_service = Some 3, be_rc = Some 7,
            be_invoke = (\<lambda>i m args. (LIB_STATUS_OK, [Some [Rc_Table (Some True)]]))\<rparr>
      in \<lparr>oe_args = [''-x''], oe_fork = 0, oe_prepared = (\<lambda>_. True), oe_fds = int, oe_read = (\<lambda>_. Some CHR ''1''),
          oe_files = (False, False, False, False), oe_bus = bus, oe_access = True, oe_init_io = (\<lambda>s. s\<lparr>g_i2c_fd := 5\<rparr>),
          oe_local = \<lparr>file_stat = [], file_temp = [], file_meminfo = [], file_net_dev = [], file_route = None,
            host_name = Some ''router'', sys_uptime = Some 60, if_addrs = None, net_now_ms = 0, net_now_sec = 1700000000\<rparr>,
          oe_buses = (\<lambda>_. bus), oe_now = 60000\<rparr>)"

theorem old_start_establishes_witness:
  "\<exists>w. old_program_start (\<lambda>_ _. 8) sample_old_start old_world_start = (None, w) \<and> length (ow_entries w) = 4 \<and> old_ubus_ok (ow_ubus w)"
proof -
  let ?s = "old_program_start (\<lambda>_ _. 8) sample_old_start old_world_start"
  have f: "fst ?s = None" by code_simp
  have n: "length (ow_entries (snd ?s)) = 4" by code_simp
  have t: "oe_now sample_old_start = 60000" by (simp add: sample_old_start_def Let_def)
  have "?s = (None, snd ?s)" using f by (metis prod.collapse)
  from old_start_establishes[OF this] show ?thesis using \<open>?s = (None, snd ?s)\<close> n t by auto
qed

end
