(* ===== verification/Launcher.thy ===== *)
theory Launcher
  imports C_Scan
begin

text \<open>
  The launcher of the demo in Python (\<open>Source/main.c\<close>): it starts the script and turns presses of
  the three buttons into signals for every process that runs the interpreter. The processes
  are found in \<open>/proc\<close> at a press when none are known, and remembered. \<open>None\<close> is a write beyond the
  end of an array.
\<close>

abbreviation (input) PIDS_MAX :: nat where "PIDS_MAX \<equiv> 128"
abbreviation (input) PATH_MAX :: nat where "PATH_MAX \<equiv> 4096"
abbreviation (input) WORKPATH_MAX :: nat where "WORKPATH_MAX \<equiv> 255"
abbreviation (input) CMD_MAX :: nat where "CMD_MAX \<equiv> 255"

definition PYTHON3_INTERP :: string where "PYTHON3_INTERP = ''python3.8''"
definition PYTHON3_SCRIPT :: string where "PYTHON3_SCRIPT = ''bakebit_nanohat_oled.py''"

section \<open>The path of the program\<close>

text \<open>The position of the last \<open>c\<close> (\<open>strrchr\<close>).\<close>

fun strrchr :: "char \<Rightarrow> string \<Rightarrow> nat option" where
  "strrchr c [] = None"
| "strrchr c (x # xs) =
     (case strrchr c xs of Some i \<Rightarrow> Some (Suc i) | None \<Rightarrow> if x = c then Some 0 else None)"

text \<open>\<open>readlink\<close> with a buffer of \<open>n\<close> bytes truncates the link, which is \<open>None\<close> if it cannot be read.\<close>

definition readlink :: "string option \<Rightarrow> nat \<Rightarrow> string option" where
  "readlink link n = map_option (take n) link"

definition get_work_path :: "string option \<Rightarrow> nat \<Rightarrow> (int + string)" where
  "get_work_path link maxlen =
     (case readlink link maxlen of
        None \<Rightarrow> Inl (-1)
      | Some buff \<Rightarrow>
          if length buff = maxlen then Inl (-1)
          else Inr (case strrchr CHR ''/'' buff of None \<Rightarrow> buff | Some pos \<Rightarrow> take pos buff))"

text \<open>The command, printed into a buffer of 255 bytes with its terminator.\<close>

definition view_command :: "string \<Rightarrow> string" where
  "view_command workpath =
     ''cd '' @ workpath @ ''/BakeBit/Software/Python && python3 '' @ PYTHON3_SCRIPT @
       '' 2>&1 | tee /tmp/nanoled-python.log''"

definition load_python_view :: "bool \<Rightarrow> string \<Rightarrow> (int \<times> string) option" where
  "load_python_view created workpath =
     (let cmd = view_command workpath in
      if length cmd + 1 \<le> CMD_MAX then Some (if created then 0 else 1, cmd) else None)"

section \<open>The processes\<close>

text \<open>An entry of \<open>/proc\<close>: its name, and what its link \<open>exe\<close> leads to.\<close>

type_synonym proc_entry = "string \<times> string option"

definition c_atoi :: "string \<Rightarrow> int" where
  "c_atoi s = (case scan_number 10 s of None \<Rightarrow> 0 | Some (v, _) \<Rightarrow> v)"

text \<open>Whether the loop over the entries stores the process; \<open>s ! pnlen\<close> may be the terminator.\<close>

definition runs_program :: "string \<Rightarrow> proc_entry \<Rightarrow> bool" where
  "runs_program ProcName d \<longleftrightarrow>
     (if c_atoi (fst d) = 0 then False
      else case readlink (snd d) PATH_MAX of
             None \<Rightarrow> False
           | Some path \<Rightarrow>
               (case strrchr CHR ''/'' path of
                  None \<Rightarrow> False
                | Some pos \<Rightarrow>
                    let s = drop (pos + 1) path; pnlen = length ProcName
                    in if length s < pnlen then False
                       else take pnlen s = ProcName \<and> (length s = pnlen \<or> s ! pnlen = CHR '' '')))"

definition store_pid :: "nat \<Rightarrow> int \<Rightarrow> int list \<Rightarrow> int list option" where
  "store_pid i pid pids = (if i < length pids then Some (pids[i := pid]) else None)"

fun walk_proc :: "string \<Rightarrow> proc_entry list \<Rightarrow> nat \<Rightarrow> int list \<Rightarrow> int list option" where
  "walk_proc ProcName [] i foundpid = store_pid i 0 foundpid"
| "walk_proc ProcName (d # ds) i foundpid =
     (if runs_program ProcName d
      then Option.bind (store_pid i (c_atoi (fst d)) foundpid) (walk_proc ProcName ds (i + 1))
      else walk_proc ProcName ds i foundpid)"

text \<open>\<open>/proc\<close> is \<open>None\<close> if it cannot be opened.\<close>

definition find_pid_by_name :: "string \<Rightarrow> proc_entry list option \<Rightarrow> int list \<Rightarrow> (int \<times> int list) option" where
  "find_pid_by_name ProcName proc foundpid =
     (let foundpid = foundpid[0 := 0] in
      case proc of
        None \<Rightarrow> Some (-1, foundpid)
      | Some ds \<Rightarrow> map_option (\<lambda>p. (0, p)) (walk_proc ProcName ds 0 foundpid))"

section \<open>Signals\<close>

datatype py_signal = SIGUSR1 | SIGUSR2 | SIGALRM

text \<open>The statics, and the signals that were delivered.\<close>

record launcher =
  py_pids :: "int list"
  pid_count :: nat
  delivered :: "(int \<times> py_signal) list"

definition count_pids :: "int list \<Rightarrow> nat" where
  "count_pids pids = length (takeWhile (\<lambda>p. p \<noteq> 0) pids)"

text \<open>\<open>alive p\<close> is whether \<open>kill\<close> reaches process \<open>p\<close>; the first failure ends the loop.\<close>

fun kill_pids :: "(int \<Rightarrow> bool) \<Rightarrow> py_signal \<Rightarrow> int list \<Rightarrow> launcher \<Rightarrow> launcher" where
  "kill_pids alive sig [] l = l"
| "kill_pids alive sig (p # ps) l =
     (if \<not> alive p then l\<lparr>pid_count := 0\<rparr>
      else kill_pids alive sig ps (l\<lparr>delivered := delivered l @ [(p, sig)]\<rparr>))"

definition send_signal_to_python_process ::
  "proc_entry list option \<Rightarrow> (int \<Rightarrow> bool) \<Rightarrow> py_signal \<Rightarrow> launcher \<Rightarrow> launcher option" where
  "send_signal_to_python_process proc alive sig l =
     map_option (\<lambda>l. if pid_count l > 0 then kill_pids alive sig (take (pid_count l) (py_pids l)) l else l)
       (if pid_count l = 0
        then map_option (\<lambda>(rv, pids). l\<lparr>py_pids := pids, pid_count := count_pids pids\<rparr>)
               (find_pid_by_name PYTHON3_INTERP proc (py_pids l))
        else Some l)"

text \<open>One ready descriptor: which of the three lines it is, and the character read, if any.\<close>

definition line_signal :: "nat \<Rightarrow> py_signal" where
  "line_signal i = (if i = 0 then SIGUSR1 else if i = 1 then SIGUSR2 else SIGALRM)"

definition handle_line ::
  "proc_entry list option \<Rightarrow> (int \<Rightarrow> bool) \<Rightarrow> nat \<times> char option \<Rightarrow> launcher \<Rightarrow> launcher option" where
  "handle_line proc alive ev l =
     (let (i, ch) = ev in
      if i < 3 \<and> ch = Some CHR ''1'' then send_signal_to_python_process proc alive (line_signal i) l else Some l)"

text \<open>One round of the loop: the descriptors that \<open>epoll_wait\<close> returned, in order.\<close>

definition launcher_round ::
  "proc_entry list option \<Rightarrow> (int \<Rightarrow> bool) \<Rightarrow> (nat \<times> char option) list \<Rightarrow> launcher \<Rightarrow> launcher option" where
  "launcher_round proc alive evs l = fold (\<lambda>ev l. Option.bind l (handle_line proc alive ev)) evs (Some l)"

definition launcher_start :: launcher where
  "launcher_start = \<lparr>py_pids = replicate PIDS_MAX 0, pid_count = 0, delivered = []\<rparr>"

section \<open>What the walk stores\<close>

definition matching_pids :: "string \<Rightarrow> proc_entry list \<Rightarrow> int list" where
  "matching_pids ProcName ds = map (\<lambda>d. c_atoi (fst d)) (filter (runs_program ProcName) ds)"

lemma matching_nonzero: "p \<in> set (matching_pids n ds) \<Longrightarrow> p \<noteq> 0"
  by (auto simp: matching_pids_def runs_program_def)

lemma store_next:
  "i < length pids \<Longrightarrow> take (Suc i) (pids[i := p]) = take i pids @ [p]"
  by (simp add: take_Suc_conv_app_nth)

lemma walk_proc_spec:
  "walk_proc n ds i pids =
     (if i + length (matching_pids n ds) < length pids
      then Some (take i pids @ matching_pids n ds @ 0 # drop (Suc (i + length (matching_pids n ds))) pids)
      else None)"
proof (induction n ds i pids rule: walk_proc.induct)
  case (1 n i pids)
  then show ?case by (simp add: matching_pids_def store_pid_def upd_conv_take_nth_drop)
next
  case (2 n d ds i pids)
  show ?case
  proof (cases "runs_program n d \<and> i < length pids")
    case True
    then have m: "matching_pids n (d # ds) = c_atoi (fst d) # matching_pids n ds" by (simp add: matching_pids_def)
    show ?thesis
      using True 2(1) store_next[of i pids "c_atoi (fst d)"] by (simp add: m store_pid_def)
  next
    case False
    then show ?thesis using 2(2) by (auto simp: matching_pids_def store_pid_def)
  qed
qed

lemma find_pids:
  assumes "length pids = PIDS_MAX"
  shows "find_pid_by_name n (Some ds) pids =
    (if length (matching_pids n ds) < PIDS_MAX
     then Some (0, matching_pids n ds @ 0 # drop (Suc (length (matching_pids n ds))) (pids[0 := 0]))
     else None)"
  using assms by (simp add: find_pid_by_name_def walk_proc_spec)

lemma count_found: "count_pids (matching_pids n ds @ 0 # ps) = length (matching_pids n ds)"
  using matching_nonzero[of _ n ds] by (simp add: count_pids_def takeWhile_append2)

lemma kill_alive:
  "list_all alive ps \<Longrightarrow> kill_pids alive sig ps l = l\<lparr>delivered := delivered l @ map (\<lambda>p. (p, sig)) ps\<rparr>"
  by (induction ps arbitrary: l) simp_all

text \<open>A press when no process is known.\<close>

lemma first_press:
  assumes "length (py_pids l) = PIDS_MAX" and "pid_count l = 0" and "length (matching_pids PYTHON3_INTERP ds) < PIDS_MAX"
  shows "send_signal_to_python_process (Some ds) alive sig l =
    Some (kill_pids alive sig (matching_pids PYTHON3_INTERP ds)
      (l\<lparr>py_pids := matching_pids PYTHON3_INTERP ds @ 0 # drop (Suc (length (matching_pids PYTHON3_INTERP ds))) ((py_pids l)[0 := 0]),
         pid_count := length (matching_pids PYTHON3_INTERP ds)\<rparr>))"
  using assms by (auto simp: send_signal_to_python_process_def find_pids count_found)

lemma strrchr_less: "strrchr c s = Some i \<Longrightarrow> i < length s"
  by (induction s arbitrary: i) (auto split: option.splits if_splits)

lemma work_path_short: "get_work_path link n = Inr w \<Longrightarrow> length w < n"
  by (auto simp: get_work_path_def readlink_def split: option.splits if_splits dest: strrchr_less)

lemma length_view_command: "length (view_command w) = length w + 97"
  by (simp add: view_command_def PYTHON3_SCRIPT_def)

end
