(* ===== verification/Launcher_Start.thy ===== *)
theory Launcher_Start
  imports Launcher
begin

text \<open>
  How the launcher starts (\<open>Source/daemonize.c\<close>, the beginning of \<open>main\<close> in \<open>Source/main.c\<close>): the
  lock file that is to keep a second one from running, the way into the background, and the
  lines of the buttons. What the system calls return is the environment; of the system it has
  the descriptors of the process and the lock on the file, which belongs to a process as POSIX
  defines it: it is not inherited by \<open>fork\<close>, and released when its owner exits or closes a
  descriptor of the file.
\<close>

section \<open>The process\<close>

definition LOCKFILE :: string where "LOCKFILE = ''/var/run/nanohat-oled.pid''"

text \<open>The descriptors with what they are open on, and the owner of the lock, of any process.\<close>

record process =
  ps_pid :: int
  ps_fds :: "(int \<times> string) list"
  ps_umask :: int
  ps_lock :: "int option"
  ps_pidfile :: string

text \<open>A new descriptor is the lowest number that is free.\<close>

definition lowest_free :: "(int \<times> string) list \<Rightarrow> int" where
  "lowest_free fds = hd (filter (\<lambda>n. n \<notin> fst ` set fds) (map int [0..<Suc (length fds)]))"

definition os_open :: "string \<Rightarrow> bool \<Rightarrow> process \<Rightarrow> int \<times> process" where
  "os_open path ok p =
     (if ok then let fd = lowest_free (ps_fds p) in (fd, p\<lparr>ps_fds := (fd, path) # ps_fds p\<rparr>) else (-1, p))"

definition os_close :: "int \<Rightarrow> process \<Rightarrow> process" where
  "os_close fd p =
     (let p' = p\<lparr>ps_fds := filter (\<lambda>x. fst x \<noteq> fd) (ps_fds p)\<rparr>
      in if (fd, LOCKFILE) \<in> set (ps_fds p) \<and> ps_lock p = Some (ps_pid p) then p'\<lparr>ps_lock := None\<rparr> else p')"

definition os_dup :: "int \<Rightarrow> process \<Rightarrow> int \<times> process" where
  "os_dup fd p = (case map_of (ps_fds p) fd of None \<Rightarrow> (-1, p) | Some path \<Rightarrow> os_open path True p)"

text \<open>The child after a \<open>fork\<close> whose parent exits.\<close>

definition os_fork :: "int \<Rightarrow> process \<Rightarrow> process" where
  "os_fork child p =
     p\<lparr>ps_pid := child, ps_lock := (if ps_lock p = Some (ps_pid p) then None else ps_lock p)\<rparr>"

section \<open>The lock file\<close>

text \<open>
  Whether the file can be opened, and whether \<open>fcntl\<close> fails for another reason than a lock of
  another process. \<open>Inl\<close> is the status with which the process exits.
\<close>

record lock_env =
  le_open :: bool
  le_broken :: bool

definition lockfile :: "lock_env \<Rightarrow> process \<Rightarrow> bool \<times> process" where
  "lockfile e p =
     (if le_broken e then (False, p)
      else case ps_lock p of
        None \<Rightarrow> (True, p\<lparr>ps_lock := Some (ps_pid p)\<rparr>)
      | Some owner \<Rightarrow> (owner = ps_pid p, p))"

definition isAlreadyRunning :: "lock_env \<Rightarrow> process \<Rightarrow> (int + int \<times> process)" where
  "isAlreadyRunning e p =
     (let (fd, p) = os_open LOCKFILE (le_open e) p in
      if fd < 0 then Inl 1
      else
        let (locked, p) = lockfile e p in
        if \<not> locked then (if \<not> le_broken e then Inr (1, os_close fd p) else Inl 1)
        else Inr (0, p\<lparr>ps_pidfile := dec_int (ps_pid p) @ [CHR 0x00]\<rparr>))"

section \<open>Into the background\<close>

text \<open>
  The results of the system calls; the limit is \<open>Some None\<close> for infinity, a fork gives the
  identifier of the child.
\<close>

record daemon_env =
  de_rlimit :: "nat option option"
  de_fork1 :: "int option"
  de_sigaction :: bool
  de_fork2 :: "int option"
  de_chdir :: bool
  de_null :: bool

definition close_all :: "nat \<Rightarrow> process \<Rightarrow> process" where
  "close_all n p = fold (\<lambda>i. os_close (int i)) [0..<n] p"

definition daemonize :: "daemon_env \<Rightarrow> process \<Rightarrow> (int + process)" where
  "daemonize e p =
     (let p = p\<lparr>ps_umask := 0\<rparr> in
      case de_rlimit e of
        None \<Rightarrow> Inl 1
      | Some rlim_max \<Rightarrow>
          (case de_fork1 e of
             None \<Rightarrow> Inl 1
           | Some child \<Rightarrow>
               let p = os_fork child p in
               if \<not> de_sigaction e then Inl 1
               else case de_fork2 e of
                 None \<Rightarrow> Inl 1
               | Some child \<Rightarrow>
                   let p = os_fork child p in
                   if \<not> de_chdir e then Inl 1
                   else
                     let rlim_max = (case rlim_max of None \<Rightarrow> 1024 | Some n \<Rightarrow> n);
                         p = close_all rlim_max p;
                         (fd0, p) = os_open ''/dev/null'' (de_null e) p;
                         (fd1, p) = os_dup 0 p;
                         (fd2, p) = os_dup 0 p
                     in if fd0 \<noteq> 0 \<or> fd1 \<noteq> 1 \<or> fd2 \<noteq> 2 then Inl 1 else Inr p))"

section \<open>The lines\<close>

text \<open>
  The files that are written, with the text; \<open>writable\<close> says which of them can be opened, \<open>fd\<close>
  is the descriptor of the value, negative if it cannot be opened.
\<close>

definition gpio_path :: "int \<Rightarrow> string \<Rightarrow> string" where
  "gpio_path gpio file = ''/sys/class/gpio/gpio'' @ dec_int gpio @ ''/'' @ file"

definition init_gpio :: "(string \<Rightarrow> bool) \<Rightarrow> int \<Rightarrow> int \<Rightarrow> string \<Rightarrow> (string \<times> string) list \<times> int" where
  "init_gpio writable fd gpio edge =
     (let w = (if writable ''/sys/class/gpio/export'' then [(''/sys/class/gpio/export'', dec_int gpio @ [CHR 0x0A])] else []);
          path = gpio_path gpio ''direction'';
          w = w @ (if writable path then [(path, ''in'' @ [CHR 0x0A])] else []);
          path = gpio_path gpio ''edge'';
          w = w @ (if writable path then [(path, edge @ [CHR 0x0A])] else [])
      in (w, fd))"

definition release_gpio :: "(string \<Rightarrow> bool) \<Rightarrow> int \<Rightarrow> (string \<times> string) list" where
  "release_gpio writable gpio =
     (if writable ''/sys/class/gpio/unexport'' then [(''/sys/class/gpio/unexport'', dec_int gpio @ [CHR 0x0A])] else [])"

text \<open>
  The handler of signals, which nothing installs: for \<open>SIGINT\<close>, the descriptors it closes (of
  \<open>epoll\<close> and of the lines, given with their numbers) and its writes, before it exits.
\<close>

definition sig_handler :: "(string \<Rightarrow> bool) \<Rightarrow> bool \<Rightarrow> int \<Rightarrow> (int \<times> int) list \<Rightarrow> (int list \<times> (string \<times> string) list) option" where
  "sig_handler writable is_sigint epfd gpios =
     (if is_sigint then
        Some (filter (\<lambda>fd. 0 \<le> fd) (epfd # map snd gpios),
          concat (map (\<lambda>(gpio, fd). if 0 \<le> fd then release_gpio writable gpio else []) gpios))
      else None)"

section \<open>The start\<close>

text \<open>
  The environment of \<open>main\<close> up to its loop: the link to the program, \<open>epoll_create\<close>, the lines,
  the three calls of \<open>epoll_ctl\<close>, and the thread of the script.
\<close>

record launch_env =
  se_lock :: lock_env
  se_daemon :: daemon_env
  se_link :: "string option"
  se_epoll :: int
  se_writable :: "string \<Rightarrow> bool"
  se_line_fd :: "int \<Rightarrow> int"
  se_epoll_ctl :: "int \<Rightarrow> int"
  se_thread :: bool

definition open_lines :: "launch_env \<Rightarrow> int list \<Rightarrow> ((string \<times> string) list \<times> int list) option" where
  "open_lines e gpios =
     fold (\<lambda>gpio r. Option.bind r (\<lambda>(w, fds).
         let (w', fd) = init_gpio (se_writable e) (se_line_fd e gpio) gpio ''rising''
         in if fd < 0 then None else Some (w @ w', fds @ [fd]))) gpios (Some ([], []))"

text \<open>
  \<open>Inl\<close> is the exit status; otherwise the process, the writes, the descriptors of the lines and
  the command of the script. \<open>None\<close> is the overflow of the buffer of the command.
\<close>

definition launcher_begin ::
  "launch_env \<Rightarrow> process \<Rightarrow> (int + process \<times> (string \<times> string) list \<times> int list \<times> string) option" where
  "launcher_begin e p =
     (case isAlreadyRunning (se_lock e) p of
        Inl status \<Rightarrow> Some (Inl status)
      | Inr (r, p) \<Rightarrow>
          if r = 1 then Some (Inl 3)
          else case daemonize (se_daemon e) p of
            Inl status \<Rightarrow> Some (Inl status)
          | Inr p \<Rightarrow>
              (case get_work_path (se_link e) WORKPATH_MAX of
                 Inl _ \<Rightarrow> Some (Inl 1)
               | Inr workpath \<Rightarrow>
                   if se_epoll e < 0 then Some (Inl 1)
                   else case open_lines e [0, 2, 3] of
                     None \<Rightarrow> Some (Inl 1)
                   | Some (w, fds) \<Rightarrow>
                       if \<exists>fd \<in> set fds. se_epoll_ctl e fd \<noteq> 0 then Some (Inl 1)
                       else map_option (\<lambda>(_, cmd). Inr (p, w, fds, cmd)) (load_python_view (se_thread e) workpath)))"

section \<open>Paths\<close>

text \<open>The buffer of 42 bytes for a path is large enough for any number.\<close>

lemma gpio_path_fits:
  assumes "- (2 ^ 31) \<le> gpio" and "gpio < 2 ^ 31" and "file \<in> {''direction'', ''edge'', ''value''}"
  shows "length (gpio_path gpio file) < 42"
proof -
  have d: "length (dec_nat n) \<le> 10" if "n \<le> 2 ^ 31" for n
    using length_dec_nat[of n 10] that by simp
  have "nat gpio \<le> 2 ^ 31" "nat (- gpio) \<le> 2 ^ 31" using assms(1,2) by (simp_all add: nat_le_iff)
  from d[OF this(1)] d[OF this(2)] have "length (dec_int gpio) \<le> 11" by (simp add: dec_int_def)
  then show ?thesis using assms(3) by (auto simp: gpio_path_def)
qed

section \<open>The lock is lost\<close>

lemma os_close_lock: "ps_lock p \<noteq> Some (ps_pid p) \<Longrightarrow> ps_lock (os_close fd p) = ps_lock p \<and> ps_pid (os_close fd p) = ps_pid p"
  by (simp add: os_close_def Let_def)

lemma os_close_pid [simp]: "ps_pid (os_close fd p) = ps_pid p" "ps_pidfile (os_close fd p) = ps_pidfile p"
  "ps_fds (os_close fd p) = filter (\<lambda>x. fst x \<noteq> fd) (ps_fds p)"
  by (simp_all add: os_close_def Let_def)

lemma os_open_lock [simp]: "ps_lock (snd (os_open path ok p)) = ps_lock p" "ps_pid (snd (os_open path ok p)) = ps_pid p"
  "ps_pidfile (snd (os_open path ok p)) = ps_pidfile p"
  by (simp_all add: os_open_def Let_def)

lemma os_dup_lock [simp]: "ps_lock (snd (os_dup fd p)) = ps_lock p" "ps_pid (snd (os_dup fd p)) = ps_pid p"
  "ps_pidfile (snd (os_dup fd p)) = ps_pidfile p"
  by (simp_all add: os_dup_def split: option.split)

lemma os_fork_sel [simp]: "ps_pid (os_fork c p) = c" "ps_fds (os_fork c p) = ps_fds p" "ps_pidfile (os_fork c p) = ps_pidfile p"
  "ps_lock (os_fork c p) = (if ps_lock p = Some (ps_pid p) then None else ps_lock p)"
  by (simp_all add: os_fork_def)

lemma close_all_sel:
  "ps_pid (close_all n p) = ps_pid p" "ps_pidfile (close_all n p) = ps_pidfile p"
  "ps_fds (close_all n p) = filter (\<lambda>x. \<not> (0 \<le> fst x \<and> fst x < int n)) (ps_fds p)"
  "ps_lock p = None \<Longrightarrow> ps_lock (close_all n p) = None"
proof (induction n)
  case (Suc n)
  have s: "close_all (Suc n) p = os_close (int n) (close_all n p)" by (simp add: close_all_def)
  {
    case 1 then show ?case using Suc.IH by (simp add: s)
  next
    case 2 then show ?case using Suc.IH by (simp add: s)
  next
    case 3 then show ?case using Suc.IH(3) by (auto simp: s intro!: filter_cong)
  next
    case 4 then show ?case using Suc.IH(4) os_close_lock[of "close_all n p" "int n"] by (simp add: s)
  }
qed (simp_all add: close_all_def)

text \<open>Three descriptors of \<open>/dev/null\<close> in a process without any.\<close>

definition null_fds :: "(int \<times> string) list" where
  "null_fds = [(2, ''/dev/null''), (1, ''/dev/null''), (0, ''/dev/null'')]"

lemma open_null:
  assumes "ps_fds p = []"
  shows "os_open ''/dev/null'' True p = (0, p\<lparr>ps_fds := [(0, ''/dev/null'')]\<rparr>)"
    "os_dup 0 (p\<lparr>ps_fds := [(0, ''/dev/null'')]\<rparr>) = (1, p\<lparr>ps_fds := [(1, ''/dev/null''), (0, ''/dev/null'')]\<rparr>)"
    "os_dup 0 (p\<lparr>ps_fds := [(1, ''/dev/null''), (0, ''/dev/null'')]\<rparr>) = (2, p\<lparr>ps_fds := null_fds\<rparr>)"
  using assms by (simp_all add: os_open_def os_dup_def lowest_free_def null_fds_def Let_def upt_rec)

text \<open>
  A process in the background holds no lock, whether its parent held it or nobody, and has
  just the three standard descriptors if all its descriptors were below the limit.
\<close>

lemma daemonize_result:
  assumes "daemonize e p = Inr p'"
  shows "ps_lock p = Some (ps_pid p) \<or> ps_lock p = None \<Longrightarrow> ps_lock p' = None"
    and "ps_pidfile p' = ps_pidfile p" and "de_fork2 e = Some (ps_pid p')"
    and "\<forall>x \<in> set (ps_fds p). 0 \<le> fst x \<and> fst x < int (case the (de_rlimit e) of None \<Rightarrow> 1024 | Some n \<Rightarrow> n) \<Longrightarrow>
      ps_fds p' = null_fds"
proof -
  obtain lim c1 c2 where e: "de_rlimit e = Some lim" "de_fork1 e = Some c1" "de_fork2 e = Some c2" "de_sigaction e" "de_chdir e"
    using assms by (auto simp: daemonize_def Let_def split: option.splits if_splits)
  let ?n = "case lim of None \<Rightarrow> 1024 | Some n \<Rightarrow> n"
  define k where "k = close_all ?n (os_fork c2 (os_fork c1 (p\<lparr>ps_umask := 0\<rparr>)))"
  have d: "daemonize e p =
      (let (fd0, q) = os_open ''/dev/null'' (de_null e) k; (fd1, q) = os_dup 0 q; (fd2, q) = os_dup 0 q
       in if fd0 \<noteq> 0 \<or> fd1 \<noteq> 1 \<or> fd2 \<noteq> 2 then Inl 1 else Inr q)"
    by (simp add: daemonize_def e k_def Let_def)
  have null: "de_null e" using assms by (auto simp: d os_open_def split: if_splits)
  have p': "p' = snd (os_dup 0 (snd (os_dup 0 (snd (os_open ''/dev/null'' True k)))))"
    using assms null by (auto simp: d Let_def split: prod.splits if_splits)
  show "ps_lock p' = None" if "ps_lock p = Some (ps_pid p) \<or> ps_lock p = None"
    using that by (auto simp: p' k_def close_all_sel(4))
  show "ps_pidfile p' = ps_pidfile p" "de_fork2 e = Some (ps_pid p')"
    by (simp_all add: p' k_def close_all_sel e)
  show "ps_fds p' = null_fds"
    if "\<forall>x \<in> set (ps_fds p). 0 \<le> fst x \<and> fst x < int (case the (de_rlimit e) of None \<Rightarrow> 1024 | Some n \<Rightarrow> n)"
  proof -
    have "ps_fds k = []" using that by (simp add: k_def close_all_sel(3) filter_empty_conv e)
    from open_null[OF this] show ?thesis by (simp add: p')
  qed
qed

text \<open>The check itself is sound: it takes the lock, or sees that of another process.\<close>

lemma already_running_result:
  assumes "isAlreadyRunning e p = Inr (r, p')"
  shows "r = 0 \<and> ps_lock p' = Some (ps_pid p') \<and> ps_pid p' = ps_pid p \<and> ps_pidfile p' = dec_int (ps_pid p) @ [CHR 0x00] \<or>
    r = 1 \<and> (\<exists>owner. ps_lock p = Some owner \<and> owner \<noteq> ps_pid p)"
  using assms by (auto simp: isAlreadyRunning_def os_open_def lockfile_def Let_def split: if_splits option.splits)

lemma lowest_free_nonneg: "\<not> lowest_free fds < 0"
proof -
  have "0 \<le> lowest_free fds"
  proof -
    have "filter (\<lambda>n. n \<notin> fst ` set fds) (map int [0..<Suc (length fds)]) \<noteq> []"
    proof
      assume "filter (\<lambda>n. n \<notin> fst ` set fds) (map int [0..<Suc (length fds)]) = []"
      then have "int ` {0..<Suc (length fds)} \<subseteq> fst ` set fds" 
        unfolding filter_empty_conv by (auto simp del: upt_Suc)
      then have "card (int ` {0..<Suc (length fds)}) \<le> card (fst ` set fds)" by (intro card_mono) simp_all
      also have "\<dots> \<le> length fds" using card_image_le[of "set fds" fst] card_length[of fds] by simp
      finally show False by (simp add: card_image)
    qed
    from hd_in_set[OF this] show ?thesis unfolding lowest_free_def by (auto simp del: upt_Suc)
  qed
  then show ?thesis by simp
qed

lemma already_running_free:
  "ps_lock p = None \<Longrightarrow> le_open e \<Longrightarrow> \<not> le_broken e \<Longrightarrow> \<exists>p'. isAlreadyRunning e p = Inr (0, p')"
  by (simp add: isAlreadyRunning_def os_open_def lockfile_def lowest_free_nonneg Let_def)

text \<open>While another process holds the lock, the launcher ends at once.\<close>

lemma launcher_refused:
  "ps_lock p = Some owner \<Longrightarrow> owner \<noteq> ps_pid p \<Longrightarrow> le_open (se_lock e) \<Longrightarrow> \<not> le_broken (se_lock e) \<Longrightarrow>
   launcher_begin e p = Some (Inl 3)"
  by (simp add: launcher_begin_def isAlreadyRunning_def os_open_def lockfile_def lowest_free_nonneg Let_def)

text \<open>
  The lock does not outlive the start: it is taken before the process goes to the background,
  so that it is lost with the process that took it. When the launcher runs, nobody holds it, the
  file names a process that is gone, and a further launcher finds nothing that runs.
\<close>

theorem launcher_not_alone:
  assumes "launcher_begin e p = Some (Inr (p', w, fds, cmd))" and "le_open le" and "\<not> le_broken le"
  shows "ps_lock p' = None \<and> ps_pidfile p' = dec_int (ps_pid p) @ [CHR 0x00] \<and>
    (\<forall>q. ps_lock q = ps_lock p' \<longrightarrow> (\<exists>q'. isAlreadyRunning le q = Inr (0, q')))"
proof -
  obtain r p1 where r: "isAlreadyRunning (se_lock e) p = Inr (r, p1)" "r \<noteq> 1" "daemonize (se_daemon e) p1 = Inr p'"
    using assms(1)
    by (auto simp: launcher_begin_def Let_def split: sum.splits option.splits if_splits prod.splits)
  have p1: "ps_lock p1 = Some (ps_pid p1)" "ps_pidfile p1 = dec_int (ps_pid p) @ [CHR 0x00]"
    using already_running_result[OF r(1)] r(2) by auto
  then show ?thesis using daemonize_result(1,2)[OF r(3)] already_running_free[OF _ assms(2,3)] by auto
qed

text \<open>A sample start.\<close>

definition sample_launch :: launch_env where
  "sample_launch = \<lparr>se_lock = \<lparr>le_open = True, le_broken = False\<rparr>,
     se_daemon = \<lparr>de_rlimit = Some (Some 8), de_fork1 = Some 501, de_sigaction = True, de_fork2 = Some 502,
       de_chdir = True, de_null = True\<rparr>,
     se_link = Some ''/opt/NanoHatOLED'', se_epoll = 3, se_writable = (\<lambda>_. True), se_line_fd = (\<lambda>g. 4 + g),
     se_epoll_ctl = (\<lambda>_. 0), se_thread = True\<rparr>"

definition sample_process :: process where
  "sample_process = \<lparr>ps_pid = 500, ps_fds = [(0, ''tty''), (1, ''tty''), (2, ''tty'')], ps_umask = 18, ps_lock = None,
     ps_pidfile = []\<rparr>"

theorem launcher_not_alone_witness:
  "\<exists>p' w fds cmd q'. launcher_begin sample_launch sample_process = Some (Inr (p', w, fds, cmd)) \<and> ps_pid p' = 502 \<and>
     isAlreadyRunning \<lparr>le_open = True, le_broken = False\<rparr> (p'\<lparr>ps_pid := 600\<rparr>) = Inr (0, q')"
proof -
  obtain p1 where p1: "isAlreadyRunning (se_lock sample_launch) sample_process = Inr (0, p1)"
  proof
    show "isAlreadyRunning (se_lock sample_launch) sample_process =
        Inr (0, snd (projr (isAlreadyRunning (se_lock sample_launch) sample_process)))" by code_simp
  qed
  have "p1 = snd (projr (isAlreadyRunning (se_lock sample_launch) sample_process))" by (simp add: p1)
  moreover have "daemonize (se_daemon sample_launch) (snd (projr (isAlreadyRunning (se_lock sample_launch) sample_process))) =
      Inr (projr (daemonize (se_daemon sample_launch) (snd (projr (isAlreadyRunning (se_lock sample_launch) sample_process)))))"
    by code_simp
  ultimately obtain p' where p': "daemonize (se_daemon sample_launch) p1 = Inr p'" by simp
  have w: "get_work_path (se_link sample_launch) WORKPATH_MAX = Inr ''/opt''" by code_simp
  obtain l fds where l: "open_lines sample_launch [0, 2, 3] = Some (l, fds)" "set fds = {4, 6, 7}"
    by (simp add: open_lines_def init_gpio_def sample_launch_def Let_def)
  have c: "load_python_view True ''/opt'' = Some (0, view_command ''/opt'')"
    by (simp add: load_python_view_def length_view_command)
  have rest: "\<not> se_epoll sample_launch < 0" "se_thread sample_launch" "se_epoll_ctl sample_launch fd = 0" for fd
    by (simp_all add: sample_launch_def)
  have b: "launcher_begin sample_launch sample_process = Some (Inr (p', l, fds, view_command ''/opt''))"
    by (simp add: launcher_begin_def p1 p' w l c rest)
  have pid: "ps_pid p' = 502" using daemonize_result(3)[OF p'] by (simp add: sample_launch_def)
  have "\<forall>q. ps_lock q = ps_lock p' \<longrightarrow> (\<exists>q'. isAlreadyRunning \<lparr>le_open = True, le_broken = False\<rparr> q = Inr (0, q'))"
    using launcher_not_alone[OF b, of "\<lparr>le_open = True, le_broken = False\<rparr>"] by simp
  from this[rule_format, of "p'\<lparr>ps_pid := 600\<rparr>"]
  obtain q' where "isAlreadyRunning \<lparr>le_open = True, le_broken = False\<rparr> (p'\<lparr>ps_pid := 600\<rparr>) = Inr (0, q')" by auto
  then show ?thesis using b pid by blast
qed

end
