(* ===== verification/Old_Program.thy ===== *)
theory Old_Program
  imports Old_Main Old_Slide Old_Start Launcher Launcher_Start
begin

text \<open>
  What the parts of the first version of the program (\<open>src_old\<close>) and the launcher of the demo in
  Python (\<open>Source\<close>) are proved to do.
\<close>

section \<open>Buttons\<close>


definition sample_buttons :: old_buttons where
  "sample_buttons = snd (gpio_button_init (\<lambda>_. True) int (\<lambda>_. Some CHR ''0'')  0
     \<lparr>buttons = replicate 3 \<lparr>btn_fd = -1, btn_press_time = 0, btn_pressed = False, btn_long_reported = False,
       btn_last_edge_ms = 0\<rparr>, pressed_value = CHR ''0''\<rparr>)"

lemma sample_buttons:
  "only_button 1 sample_buttons" "rest_button (buttons sample_buttons ! 1)" "pressed_value sample_buttons = CHR ''1''"
proof -
  have "\<not> btn_pressed (buttons sample_buttons ! 0)" "\<not> btn_pressed (buttons sample_buttons ! 1)"
    "\<not> btn_pressed (buttons sample_buttons ! 2)" by code_simp+
  then have "\<forall>j < 3. \<not> btn_pressed (buttons sample_buttons ! j)" by (auto simp: less_three)
  moreover have "length (buttons sample_buttons) = 3" by code_simp
  ultimately show "only_button 1 sample_buttons" by (simp add: only_button_def)
  show "rest_button (buttons sample_buttons ! 1)" "pressed_value sample_buttons = CHR ''1''" by code_simp+
qed


text \<open>C28
  A tap shorter than 30 ms is turned into a long press: its release falls into the debounce time
  of the press and is not noticed, so that the driver reports a long press 600 ms later although
  nothing is held, and the next press of the button, which it believes to be held, is lost.\<close>

theorem old_tap_becomes_long:
  assumes "only_button i g" and "rest_button (buttons g ! i)" and "v \<noteq> pressed_value g" and "t \<noteq> 0"
    and "u - t < 30" and "600 \<le> w - t" and "30 \<le> t' - t" and "30 \<le> u' - t'"
  shows "waits tmo [edge_wait i (pressed_value g) t, edge_wait i v u, quiet_wait w, edge_wait i (pressed_value g) t',
    edge_wait i v u'] g = [BTN_NONE, BTN_NONE, long_event i, BTN_NONE, BTN_NONE]"
proof -
  have "0 \<le> btn_fd (buttons g ! i)" using assms(2) by (simp add: rest_button_def)
  then show ?thesis
    using waits_press[OF assms(1,2)] waits_bounce[OF assms(1) _ assms(4,5)] waits_held[OF assms(1,6)]
      waits_again[OF assms(1) _ assms(3,7,8)] by simp
qed

theorem old_tap_becomes_long_witness:
  "waits 1000 [edge_wait 1 (CHR ''1'') 5000, edge_wait 1 (CHR ''0'') 5010, quiet_wait 5600, edge_wait 1 (CHR ''1'') 9000,
     edge_wait 1 (CHR ''0'') 9100] sample_buttons = [BTN_NONE, BTN_NONE, BTN_K2_LONG_PRESS, BTN_NONE, BTN_NONE]"
  using old_tap_becomes_long[OF sample_buttons(1,2), of "CHR ''0''" 5000 5010 5600 9000 9100 1000]
  by (simp add: sample_buttons(3) long_event_def)

section \<open>Slides\<close>

text \<open>C26
  A slide of the first version copies nothing beyond the end of a buffer and sends eight frames.
  In frame \<open>k\<close> every row of the display shows the two rows of the pages side by side, moved by
  \<open>16 k\<close> columns to the left for the next page and to the right for the previous one; the last
  frame is the new page.\<close>

theorem old_slide_exact:
  assumes "length buf_from = BUFFER_BYTES" and "length buf_to = BUFFER_BYTES" and "length buf = BUFFER_BYTES"
  shows "\<exists>sent. transition_to_page True direction buf_from buf_to buf = Some sent \<and> length sent = 8 \<and>
    (\<forall>k < 8. \<forall>q < 8. row q (sent ! k) =
      (if direction > 0 then take 128 (drop (16 * Suc k) (row q buf_from @ row q buf_to))
       else take 128 (drop (128 - 16 * Suc k) (row q buf_to @ row q buf_from)))) \<and>
    last sent = buf_to"
proof -
  have "list_all (\<lambda>k. k \<le> 8) [1..<9]" by (simp add: list_all_iff)
  from slide_frames_spec[OF assms this, of direction]
  obtain sent where s: "slide_frames direction [1..<9] buf_from buf_to buf = Some sent"
    "list_all2 (\<lambda>k d. length d = BUFFER_BYTES \<and>
        (\<forall>q < 8. row q d = slide_spec direction (k * 16) (row q buf_from) (row q buf_to))) [1..<9] sent" by blast
  have l: "length sent = 8" using list_all2_lengthD[OF s(2)] by simp
  have f: "length (sent ! k) = BUFFER_BYTES \<and>
      (\<forall>q < 8. row q (sent ! k) = slide_spec direction (Suc k * 16) (row q buf_from) (row q buf_to))" if "k < 8" for k
    using list_all2_nthD[OF s(2), of k] that by simp
  have "sent \<noteq> []" using l by auto
  then have "last sent = sent ! 7" using l by (simp add: last_conv_nth)
  moreover have "sent ! 7 = buf_to"
  proof (rule rows_eq)
    show "\<forall>q < 8. row q (sent ! 7) = row q buf_to"
      using f[of 7] length_row[OF assms(1)] length_row[OF assms(2)] by (simp add: slide_spec_def window_def)
  qed (use f[of 7] assms(2) in simp_all)
  ultimately show ?thesis
    using s(1) l f by (simp add: transition_to_page_def slide_spec_def window_def mult.commute)
qed

theorem old_slide_exact_witness:
  "\<exists>sent. transition_to_page True 1 (replicate 1024 7) (replicate 1024 9) (replicate 1024 0) = Some sent \<and>
     last sent = replicate 1024 9"
  using old_slide_exact[of "replicate 1024 7" "replicate 1024 9" "replicate 1024 0" 1] by auto

section \<open>The loop\<close>

definition sample_round :: "u64 \<Rightarrow> wait_env \<Rightarrow> round_env" where
  "sample_round t w = \<lparr>re_start = t, re_wait = w,
     re_button = \<lparr>he_now = t, he_services = [\<lparr>os_name = ''uhttpd'', os_running = True\<rparr>], he_action_ok = True,
       he_title_w = 64\<rparr>, re_now = t, re_services = []\<rparr>"

text \<open>The first rounds: K3 is pressed and released, which leads to the services page.\<close>

definition sample_rounds :: "round_env list" where
  "sample_rounds = [sample_round 1050 (edge_wait 2 (CHR ''1'') 1050), sample_round 1150 (edge_wait 2 (CHR ''0'') 1150)]"

fun rounds :: "round_env list \<Rightarrow> old_main \<Rightarrow> old_main option" where
  "rounds [] m = Some m"
| "rounds (e # es) m = Option.bind (main_round e m) (rounds es)"

definition sample_page :: old_main where
  "sample_page = the (rounds sample_rounds (main_begin 1000 [] sample_buttons))"

lemma sample_page_values:
  "om_page sample_page = 2" "length (om_services sample_page) = 1" "om_slides sample_page = [(1, 2, 1)]"
  "loop_timeout 1150 sample_page = 850"
  by code_simp+

lemma sample_page_reachable: "old_reachable 1150 sample_page"
proof -
  let ?m0 = "main_begin 1000 [] sample_buttons"
  have m0: "old_reachable 1000 ?m0" by (rule old_reachable.start) simp_all
  have ok: "round_ok 1000 (sample_round 1050 (edge_wait 2 (CHR ''1'') 1050))"
    "round_ok 1050 (sample_round 1150 (edge_wait 2 (CHR ''0'') 1150))" by (simp_all add: round_ok_def sample_round_def)
  obtain m1 where m1: "main_round (sample_round 1050 (edge_wait 2 (CHR ''1'') 1050)) ?m0 = Some m1"
    using main_round_ok[OF old_reachable_ok[OF m0] ok(1)] by blast
  have r1: "old_reachable 1050 m1" using old_reachable.round[OF m0 ok(1) m1] by (simp add: sample_round_def)
  obtain m2 where m2: "main_round (sample_round 1150 (edge_wait 2 (CHR ''0'') 1150)) m1 = Some m2"
    using main_round_ok[OF old_reachable_ok[OF r1] ok(2)] by blast
  have "old_reachable 1150 m2" using old_reachable.round[OF r1 ok(2) m2] by (simp add: sample_round_def)
  then show ?thesis by (simp add: sample_page_def sample_rounds_def m1 m2)
qed



text \<open>C25
  The interface of the first version stays consistent: in every reachable state the menu is open
  only on the services page, with the screen on and for less than ten seconds after the last
  key; the page, the selection and the frame of the title animation are in range, at most four
  services are listed, and no animation runs while the screen is off.\<close>

theorem old_interface_consistent:
  assumes "old_reachable now m"
  shows "om_page m < OLD_PAGE_COUNT \<and> menu_selected m < OLD_MAX_SERVICES \<and> length (om_services m) \<le> OLD_MAX_SERVICES \<and>
    (menu_active m \<longrightarrow> om_page m = OLD_PAGE_SERVICES \<and> display_on m \<and> now < menu_last_input_ms m + MENU_TIMEOUT_MS) \<and>
    (title_anim_type m = TITLE_ANIM_REJECT \<longrightarrow> anim_frame m < length reject_offsets) \<and>
    (\<not> display_on m \<longrightarrow> title_anim_type m = TITLE_ANIM_NONE)"
proof -
  have "head_ok now m" by (rule old_reachable_ok[OF assms])
  then show ?thesis by (auto simp: head_ok_def old_inv_def tasks_ahead_def reject_offsets_def)
qed

theorem old_interface_consistent_witness:
  "om_page sample_page = 2 \<and> menu_selected sample_page < 4"
  using old_interface_consistent[OF sample_page_reachable] sample_page_values(1) by simp

text \<open>
  The title of the menu does not move to the centre: it is drawn at its centre first, then in
  four pictures to the right of it, and when the animation has ended no further picture is due,
  so that it stays off the centre until something else is drawn. The comments say that it
  slides from the left to the centre. The title is at most 116 columns wide.\<close>

theorem old_title_off_centre:
  assumes "display_on m" and "\<not> menu_active m" and "om_page m = OLD_PAGE_SERVICES"
    and "0 \<le> he_title_w e" and "he_title_w e \<le> 116"
  defines "m1 \<equiv> old_handle_button e BTN_K2_LONG_PRESS m"
  shows "title_x True (he_title_w e) m1 = centered_x (he_title_w e) \<and>
    (\<forall>k \<in> {1, 2, 3, 4}. centered_x (he_title_w e) < title_x True (he_title_w e) ((drawn ^^ k) m1)) \<and>
    title_x True (he_title_w e) ((drawn ^^ 5) m1) = centered_x (he_title_w e) \<and>
    (\<forall>now. render_frame now ((drawn ^^ 5) m1) = Some (((drawn ^^ 5) m1)\<lparr>next_frame_ms := now + 10000\<rparr>))"
proof -
  let ?c = "centered_x (he_title_w e)"
  have c: "6 \<le> ?c" "?c \<le> 64"
    using assms(4,5) by (simp_all add: centered_x_def c_div_def Let_def)
  have m1: "display_on m1" "title_anim_type m1 = TITLE_ANIM_ENTER" "anim_frame m1 = 0" "anim_target_x m1 = ?c"
    unfolding m1_def enter_menu[OF assms(1-3)] using assms(1) by simp_all
  have at: "title_x True (he_title_w e) n = ?c + get_title_anim_offset n" if "0 \<le> get_title_anim_offset n" for n
    using that c by (simp add: title_x_def Let_def)
  have first: "get_title_anim_offset m1 = 0"
  proof -
    have "f32_div (f32_of_int (int 0)) (f32_of_int (int TITLE_ANIM_ENTER_FRAMES)) = 0" by code_simp
    then show ?thesis using m1 by (simp add: get_title_anim_offset_def f32_mul_def c_int_of_float_def Let_def)
  qed
  have mid: "1 \<le> get_title_anim_offset ((drawn ^^ k) m1)" if "k \<in> {1, 2, 3, 4}" for k
    using drawn_pow[OF m1(1-3), of k] that c m1(4) by (intro enter_offset) auto
  note d = drawn_pow[OF m1(1-3), of 4, simplified]
  have last: "title_anim_type ((drawn ^^ 5) m1) = TITLE_ANIM_NONE" "\<not> dirty ((drawn ^^ 5) m1)"
    using drawn_enter(1)[of "(drawn ^^ 4) m1"] d by (simp_all add: eval_nat_numeral drawn_frame)
  then have "get_title_anim_offset ((drawn ^^ 5) m1) = 0" by (simp add: get_title_anim_offset_def)
  moreover have "\<forall>now. render_frame now ((drawn ^^ 5) m1) = Some (((drawn ^^ 5) m1)\<lparr>next_frame_ms := now + 10000\<rparr>)"
    using last by (simp add: render_frame_eq is_animating_def)
  moreover have "?c < title_x True (he_title_w e) ((drawn ^^ k) m1)" if "k \<in> {1, 2, 3, 4}" for k
    using at[of "(drawn ^^ k) m1"] mid[OF that] by simp
  ultimately show ?thesis using at first by simp
qed

text \<open>The menu title is 64 columns wide.\<close>

theorem old_title_off_centre_witness:
  "let m1 = old_handle_button (re_button (sample_round 2000 (quiet_wait 2000))) BTN_K2_LONG_PRESS sample_page in
   centered_x 64 = 32 \<and> 32 < title_x True 64 ((drawn ^^ 4) m1) \<and> title_x True 64 ((drawn ^^ 5) m1) = 32"
proof -
  let ?e = "re_button (sample_round 2000 (quiet_wait 2000))"
  have e: "he_title_w ?e = 64" by (simp add: sample_round_def)
  have s: "display_on sample_page" "\<not> menu_active sample_page" "om_page sample_page = 2" by code_simp+
  have c: "centered_x 64 = 32" by code_simp
  show ?thesis using old_title_off_centre[OF s, of ?e] e c by (simp add: Let_def)
qed

section \<open>The services\<close>

text \<open>
  The first version keeps the contract of libubus between its start and its end: one context at a
  time, freed at the end, and calls only with the id last looked up on it.\<close>

theorem old_libubus_contract:
  "lib_run (ou_log (ubus_service_cleanup (fold old_ubus_step ops (snd (ubus_service_init e old_ubus_start))))) Closed
     = Some Closed"
  by (rule old_ok_cleanup[OF old_ok_run[OF old_ok_init], THEN conjunct1])

text \<open>C40
  Once the first version is connected and has looked up the object \<open>rc\<close>, every update of the
  services, whatever came before, lists exactly the services of its table that the bus reports as
  installed when it is asked under this id, in the order of the table, running or not as
  reported. The id is never looked up again: when calls with it fail, as they do once the object
  has been registered anew, the list stays empty and every action fails for the rest of the run.\<close>

theorem old_services_listed:
  assumes "ou_ctx h" and "ou_rc_id h = i" and "i \<noteq> 0"
  shows "fst (old_update_services env (fold old_ubus_step ops h)) = bus_list i env 0 old_service_table \<and>
    ((\<forall>k. gone i (env k)) \<longrightarrow> fst (old_update_services env (fold old_ubus_step ops h)) = []) \<and>
    (\<forall>e name action. gone i e \<longrightarrow> fst (ubus_service_action e name action (fold old_ubus_step ops h)) = -1)"
proof -
  have "steady i h" using assms by (simp add: steady_def)
  then have st: "steady i (fold old_ubus_step ops h)" by (rule steady_run)
  then have "ou_rc_id (fold old_ubus_step ops h) = i" by (simp add: steady_def)
  then have "fst (ubus_service_action e name action (fold old_ubus_step ops h)) = -1" if "gone i e" for e name action
    using that by (simp add: ubus_service_action_def steady_ensure[OF st] gone_def case_prod_beta Let_def)
  then show ?thesis using update_services_answered(1)[OF st] bus_list_gone[of i env 0 old_service_table] by simp
qed

text \<open>A bus on which \<open>rc\<close> has the given id, and two of the services are installed.\<close>

definition sample_bus :: "u32 \<Rightarrow> bus_env" where
  "sample_bus i = \<lparr>be_connect = True, be_service = Some 3, be_rc = Some i,
     be_invoke = (\<lambda>j m args. if j \<noteq> i then (LIB_STATUS_OTHER, [])
       else (LIB_STATUS_OK, if args = [''dropbear''] then [Some [Rc_Table (Some True)]]
                            else if args = [''uhttpd''] then [Some [Rc_Table (Some False)]] else [Some []]))\<rparr>"

definition sample_connected :: old_ubus where
  "sample_connected = snd (old_update_services (\<lambda>_. sample_bus 7) (snd (ubus_service_init (sample_bus 7) old_ubus_start)))"

theorem old_services_listed_witness:
  "map os_name (fst (old_update_services (\<lambda>_. sample_bus 7) sample_connected)) = [''dropbear'', ''uhttpd''] \<and>
   fst (old_update_services (\<lambda>_. sample_bus 9) sample_connected) = [] \<and>
   length (fst (old_update_services (\<lambda>_. sample_bus 9) old_ubus_start)) = 2"
proof -
  have c: "ou_ctx sample_connected" "ou_rc_id sample_connected = 7" by code_simp+
  have a: "map os_name (bus_list 7 (\<lambda>_. sample_bus 7) 0 old_service_table) = [''dropbear'', ''uhttpd'']" by code_simp
  have f: "length (fst (old_update_services (\<lambda>_. sample_bus 9) old_ubus_start)) = 2" by code_simp
  have g: "gone 7 (sample_bus 9)" by (simp add: gone_def sample_bus_def)
  show ?thesis
    using old_services_listed[OF c, of "\<lambda>_. sample_bus 7" "[]"] old_services_listed[OF c, of "\<lambda>_. sample_bus 9" "[]"] a f g
    by auto
qed

section \<open>The status\<close>

text \<open>
  The speed shown after an update is the difference between its reading of the counters and the
  one before over the whole seconds in between, and zero when a counter did not grow. An
  interface without a line in \<open>/proc/net/dev\<close> is read as zero.\<close>

theorem old_speed_shown:
  assumes "or_net c" and "0 < net_now_sec e1" and "net_now_sec e1 < net_now_sec e2"
  shows "let st2 = snd (old_update_basic e2 (old_update_basic e1 (c, st))); elapsed = net_now_sec e2 - net_now_sec e1
    in ob_rx_speed st2 = old_speed (fst (counters e2)) (fst (counters e1)) elapsed \<and>
       ob_tx_speed st2 = old_speed (snd (counters e2)) (snd (counters e1)) elapsed"
proof -
  obtain c1 st1 where u: "old_update_basic e1 (c, st) = (c1, st1)" by (cases "old_update_basic e1 (c, st)")
  note r = update_remembers[OF assms(1) u]
  show ?thesis using update_speed[OF r(1), of e2 st1] assms(2,3) by (simp add: u r Let_def)
qed

text \<open>
  So after an update that found no line, as while a connection is set up, the next one shows all
  that the interface has transferred since it exists as if it had been in between.\<close>

theorem old_speed_after_gap:
  assumes "or_net c" and "0 < net_now_sec e1" and "net_now_sec e1 < net_now_sec e2" and "counters e1 = (0, 0)"
  shows "ob_rx_speed (snd (old_update_basic e2 (old_update_basic e1 (c, st)))) =
    fst (counters e2) div word_of_int (net_now_sec e2 - net_now_sec e1)"
  using old_speed_shown[OF assms(1-3), of st] assms(4)
  by (auto simp: old_speed_def Let_def word_gt_0)

text \<open>The address is that which the main program shows for the same interfaces.\<close>

theorem old_address_current: "ob_ip_addr (snd (old_update_basic e (c, st))) = ip_addr (update_ip_addr e sys)"
  by (rule update_basic_ip)

section \<open>The launcher\<close>

text \<open>C29
  The launcher finds every process of the interpreter, in the order of \<open>/proc\<close>, as long as there
  are fewer than 128; with more it writes beyond the end of its array. A press then signals all
  of them, and so does the next one without looking again, if they can all be reached.\<close>

theorem launcher_signals_all:
  assumes "length (py_pids l) = PIDS_MAX" and "pid_count l = 0"
  shows "(send_signal_to_python_process (Some ds) alive sig l = None \<longleftrightarrow>
      PIDS_MAX \<le> length (matching_pids PYTHON3_INTERP ds)) \<and>
    (length (matching_pids PYTHON3_INTERP ds) < PIDS_MAX \<and> matching_pids PYTHON3_INTERP ds \<noteq> [] \<and>
     list_all alive (matching_pids PYTHON3_INTERP ds) \<longrightarrow>
     (\<exists>l'. send_signal_to_python_process (Some ds) alive sig l = Some l' \<and>
        delivered l' = delivered l @ map (\<lambda>p. (p, sig)) (matching_pids PYTHON3_INTERP ds) \<and>
        (\<forall>proc sig'. map_option delivered (send_signal_to_python_process proc alive sig' l') =
           Some (delivered l' @ map (\<lambda>p. (p, sig')) (matching_pids PYTHON3_INTERP ds)))))"
proof -
  let ?ms = "matching_pids PYTHON3_INTERP ds"
  have none: "send_signal_to_python_process (Some ds) alive sig l = None" if "PIDS_MAX \<le> length ?ms"
    using that assms by (simp add: send_signal_to_python_process_def find_pids)
  have again: "map_option delivered (send_signal_to_python_process proc alive sig' l') =
      Some (delivered l' @ map (\<lambda>p. (p, sig')) ?ms)"
    if "pid_count l' = length ?ms" "take (length ?ms) (py_pids l') = ?ms" "?ms \<noteq> []" "list_all alive ?ms" for proc sig' l'
    using that by (simp add: send_signal_to_python_process_def kill_alive)
  show ?thesis
  proof (cases "length ?ms < PIDS_MAX")
    case True
    let ?l = "l\<lparr>py_pids := ?ms @ 0 # drop (Suc (length ?ms)) ((py_pids l)[0 := 0]), pid_count := length ?ms\<rparr>"
    let ?l' = "?l\<lparr>delivered := delivered l @ map (\<lambda>p. (p, sig)) ?ms\<rparr>"
    note first = first_press[OF assms True, of alive sig]
    moreover have "kill_pids alive sig ?ms ?l = ?l'" if "list_all alive ?ms" using that by (simp add: kill_alive)
    moreover have "delivered ?l' = delivered l @ map (\<lambda>p. (p, sig)) ?ms" "pid_count ?l' = length ?ms"
      "take (length ?ms) (py_pids ?l') = ?ms" by simp_all
    ultimately show ?thesis using again[of ?l'] True by (metis not_le option.discI)
  qed (use none in auto)
qed

definition sample_proc :: "proc_entry list" where
  "sample_proc = [(''self'', Some ''/bin/sh''), (''1'', Some ''/sbin/init''), (''812'', Some ''/usr/bin/python3.8''),
     (''900'', Some ''/usr/bin/python3.8m''), (''977'', Some ''/usr/bin/python3.8 (deleted)''), (''1000'', None)]"

theorem launcher_signals_all_witness:
  "map_option delivered (send_signal_to_python_process (Some sample_proc) (\<lambda>_. True) SIGUSR2 launcher_start) =
     Some [(812, SIGUSR2), (977, SIGUSR2)]"
proof -
  have a: "length (py_pids launcher_start) = PIDS_MAX" "pid_count launcher_start = 0" "delivered launcher_start = []"
    by (simp_all add: launcher_start_def)
  have m: "matching_pids PYTHON3_INTERP sample_proc = [812, 977]" by code_simp
  show ?thesis using launcher_signals_all[OF a(1,2), of sample_proc "\<lambda>_. True" SIGUSR2] by (auto simp: m a(3))
qed

text \<open>
  A press after the Python program has been restarted is lost: the launcher still tries the
  process it remembers, gives up at the failure, and signals nobody; only the next press looks
  for the processes again.\<close>

theorem launcher_press_lost:
  assumes "length (py_pids l) = PIDS_MAX" and "0 < pid_count l" and "\<not> alive (py_pids l ! 0)"
    and "length (matching_pids PYTHON3_INTERP ds) < PIDS_MAX" and "list_all alive (matching_pids PYTHON3_INTERP ds)"
  shows "\<exists>l'. send_signal_to_python_process (Some ds) alive sig l = Some l' \<and> delivered l' = delivered l \<and>
    map_option delivered (send_signal_to_python_process (Some ds) alive sig' l') =
      Some (delivered l @ map (\<lambda>p. (p, sig')) (matching_pids PYTHON3_INTERP ds))"
proof -
  obtain p ps where t: "take (pid_count l) (py_pids l) = p # ps" "p = py_pids l ! 0"
    using assms(1,2) by (cases "py_pids l"; cases "pid_count l") auto
  then have "send_signal_to_python_process (Some ds) alive sig l = Some (l\<lparr>pid_count := 0\<rparr>)"
    using assms(2,3) by (simp add: send_signal_to_python_process_def)
  then show ?thesis using first_press[of "l\<lparr>pid_count := 0\<rparr>" ds alive sig'] assms(1,4,5) by (simp add: kill_alive)
qed

theorem launcher_press_lost_witness:
  "let l = launcher_start\<lparr>py_pids := (py_pids launcher_start)[0 := 700], pid_count := 1\<rparr> in
   \<exists>l'. send_signal_to_python_process (Some sample_proc) (\<lambda>p. p \<noteq> 700) SIGUSR1 l = Some l' \<and> delivered l' = [] \<and>
     map_option delivered (send_signal_to_python_process (Some sample_proc) (\<lambda>p. p \<noteq> 700) SIGUSR1 l') =
       Some [(812, SIGUSR1), (977, SIGUSR1)]"
proof -
  let ?l = "launcher_start\<lparr>py_pids := (py_pids launcher_start)[0 := 700], pid_count := 1\<rparr>"
  have m: "matching_pids PYTHON3_INTERP sample_proc = [812, 977]" by code_simp
  have a: "length (py_pids ?l) = PIDS_MAX" "0 < pid_count ?l" "\<not> (py_pids ?l ! 0 \<noteq> 700)" "delivered launcher_start = []"
    by (simp_all add: launcher_start_def)
  show ?thesis
    using launcher_press_lost[where alive = "\<lambda>p. p \<noteq> 700", OF a(1-3), of sample_proc SIGUSR1 SIGUSR1] by (simp add: m a(4) Let_def)
qed

text \<open>
  The launcher accepts a path for its own program that is too long for the command it builds:
  the path is cut to fewer than 255 bytes, but printing the command overflows its buffer of 255
  bytes exactly from a path of 158 bytes on.\<close>

theorem launcher_command_overflows:
  assumes "get_work_path link WORKPATH_MAX = Inr w"
  shows "length w < WORKPATH_MAX \<and> (load_python_view created w = None \<longleftrightarrow> 158 \<le> length w)"
  using work_path_short[OF assms] by (auto simp: load_python_view_def length_view_command Let_def)

theorem launcher_command_overflows_witness:
  "get_work_path (Some (replicate 200 CHR ''/'' @ ''nanohat'')) WORKPATH_MAX = Inr (replicate 199 CHR ''/'') \<and>
   load_python_view True (replicate 199 CHR ''/'') = None"
proof -
  have w: "get_work_path (Some (replicate 200 CHR ''/'' @ ''nanohat'')) WORKPATH_MAX = Inr (replicate 199 CHR ''/'')"
    by code_simp
  show ?thesis using launcher_command_overflows[OF w, of True] w by simp
qed

end
