(* ===== verification/Spec2Isabelle.thy ===== *)
theory Spec2Isabelle
  imports Sample_Runs Sys_Duplicates Gpio_Press Gpio_Mock Threaded_Program Thr_Local Thr_Press_Page Old_Program
begin

text \<open>
  Verification development for NanoHatOLED, the status display of a NanoPi router: a program
  in C (\<open>src/src\<close>) that shows five pages on a 128x64 OLED, is operated with three buttons,
  reads the state of the system from files and calls of the kernel, and asks procd for the
  state of services over ubus. The model follows the C code function by function; undefined
  behaviour, failed system calls and NULL are values of it. The repository also keeps a threaded
  version of the program, its first version, and the launcher of a demo; their theories are
  listed after those of the main program.

  The parts of the program and how they interact. \<open>main.c\<close> initialises the display, the
  buttons, the UI and uloop, and registers callbacks for the button descriptors and for one
  timer. A button callback reads events from the GPIO driver until there is none and passes
  each to the UI controller, which passes the key to the page controller, takes a control
  request that the services page may have left, marks the screen dirty, and is then asked to
  render. The timer callback ticks the UI: the page controller completes animations and
  time-outs, the status is refreshed, services that are due are queried, and the timer is
  set again with the delay the UI asks for. Replies and time-outs of ubus requests arrive as
  callbacks of the same loop.

  The theories, in the order of the layers.

  \<^item> \<open>Prelude\<close>: words, C arithmetic, decimal printing, bounded copies, the collections
    \<open>wf_defs\<close> and \<open>step_defs\<close>. \<open>C_Float\<close>: single and double precision as rounded
    rationals. \<open>C_Scan\<close>: \<open>fgets\<close> and \<open>sscanf\<close> for the formats the program uses.

  \<^item> \<open>U8g2\<close> and \<open>Ui_Draw\<close> (\<open>ui_draw.c\<close>): calls of the graphics library as a list, and the
    drawing helpers for signed coordinates, with reads behind a string as undefined
    behaviour. \<open>Display_Hal\<close> (\<open>display_hal_ssd1306.c\<close>): the driver and its I2C byte callback.

  \<^item> \<open>Anim\<close>, \<open>Anim_Math\<close> (\<open>anim.c\<close>): when an animation is over; easing, slide and shake
    offsets in single precision.

  \<^item> \<open>Service_Config\<close> (\<open>service_config.c\<close>): the parser of the list of monitored services.

  \<^item> \<open>Page\<close> (\<open>page.h\<close>): the interface of a page as a record of optional functions, and the
    locale \<open>page_set\<close> with the contract of a set of pages. \<open>Page_Controller\<close>
    (\<open>page_controller.c\<close>): keys, ticks and the invariant of the controller, proved inside
    \<open>page_set\<close>. \<open>Page_Settings\<close>, \<open>Page_Services\<close>, \<open>Pages\<close> (\<open>pages/*.c\<close>): the five pages and
    the interpretation \<open>app\<close> of the contract. \<open>Page_Render\<close>: title bar, indicators, slides
    and the time bar, with the locales \<open>page_set_drawn\<close> (nothing undefined is drawn) and
    \<open>drawing_frame\<close> (what rendering leaves alone).

  \<^item> \<open>Status_Types\<close>, \<open>Sys_Format\<close>, \<open>Sys_Local\<close>, \<open>Sys_Services\<close> (\<open>sys_status.c\<close>): the status
    record, formatting, the local update (CPU, memory, network, ...), and the asynchronous
    queries and control of services, proved inside the locale \<open>status_client\<close>.
    \<open>Sys_Duplicates\<close>: what happens to a name that is configured twice. \<open>Sys_Frame\<close>: the local
    update leaves the services alone.

  \<^item> \<open>Ubus_Hal\<close> (\<open>ubus_hal.h\<close>): the asynchronous interface as the locale \<open>ubus_service\<close>:
    requests are neither lost nor answered twice. \<open>Ubus_Real\<close> (\<open>ubus_hal_real.c\<close>) and
    \<open>Ubus_Mock\<close> (\<open>ubus_hal_mock.c\<close>) implement it: the interpretations \<open>real\<close>, \<open>mock\<close>,
    \<open>real_client\<close> and \<open>mock_client\<close>.

  \<^item> \<open>Event_Ring\<close>: the ring buffers of the GPIO drivers refine a queue of bounded length
    (locale \<open>bounded_fifo\<close>). \<open>Gpio_Buttons\<close>: the button logic that both drivers share, and
    the locale \<open>gpio_driver\<close>, in which a driver owes at most one event per press.
    \<open>Gpio_Libgpiod\<close> (\<open>gpio_hal_libgpiod.c\<close>), \<open>Gpio_Mock\<close> (\<open>gpio_hal_mock.c\<close>): the drivers
    and their interpretations. \<open>Gpio_Press\<close>: short and long presses from edge to event.

  \<^item> \<open>Ui_Controller\<close> (\<open>ui_controller.c\<close>): operations, invariant, and that control requests
    come from a confirmed dialog. \<open>Main_Loop\<close> (\<open>main.c\<close>): start, callbacks, shutdown, the
    inductive relations \<open>main_step\<close> and \<open>main_reachable\<close>, the invariant of the loop and the
    termination of the button callback. \<open>Main_Requests\<close>: the link between pending queries and
    outstanding requests over a run. \<open>Main_Start\<close>: when the program reaches its loop.
    \<open>Sample_Runs\<close>: concrete runs.

  The threaded version of the program (\<open>src/src_adr0005\<close>, the architecture of decision record 5)
  has three threads: the event loop, the user interface, and one that calls ubus.

  \<^item> \<open>Ring_Queue\<close> (\<open>ring_queue.c\<close>): the ring buffer with its policies refines a list. On it,
    \<open>App_Events\<close> (\<open>event_queue.c\<close>), \<open>Task_Queue\<close> (\<open>task_queue.c\<close>) and \<open>Result_Queue\<close>
    (\<open>result_queue.c\<close>): the three queues between the threads, each with its operations on the
    list of its elements, an invariant, and runs of operations.

  \<^item> \<open>Event_Wait\<close> (\<open>event_queue.c\<close>, \<open>ui_thread.c\<close>): waiting and waking, one step per access to a
    shared variable, as the relation \<open>ui_reachable\<close>; its invariant, and progress (\<open>ui_leads\<close>) by a
    rank on the program counter. \<open>Ui_Tick\<close> (\<open>ui_thread.c\<close>): when ticks are asked for.

  \<^item> \<open>Ubus_Worker\<close> (\<open>ubus_thread.c\<close>) and \<open>Threaded_Status\<close> (\<open>sys_status.c\<close>): the work on tasks,
    the queries and their results, and the interleaving of both threads (\<open>threads_reachable\<close>).
    \<open>Event_Loop\<close> (\<open>event_loop.c\<close>): the loop of the main thread, and requests to it from outside
    (\<open>loop_reachable\<close>).

  \<^item> \<open>Ubus_Sync\<close> (\<open>hal/ubus_hal_real.c\<close>, \<open>hal/ubus_hal_mock.c\<close>): the calls of this version to
    libubus, which block, recorded with their results, and its mock. Both are interpretations
    (\<open>sync\<close>, \<open>mock\<close>) of the locale \<open>ubus_backend\<close>, what the ubus thread relies on. \<open>Threaded_Start\<close>
    (\<open>main.c\<close>, \<open>ubus_thread.c\<close>): how the parts are started, each failure undone, and stopped.
    \<open>Threaded_Program\<close>: the properties of the queues, threads and interfaces.

  \<^item> \<open>Thr_Controller\<close> (\<open>page.h\<close>, \<open>page_controller.c\<close>): keys, ticks and the invariant of the page
    controller, proved inside the locale \<open>thr_page_set\<close>, the contract of its pages. \<open>Thr_Pages\<close>
    (\<open>pages/*.c\<close>, drawing of \<open>page_controller.c\<close>): the four pages, their interpretation
    \<open>thr_app\<close>, and that drawing only adds to the calls of the graphics library and reads nothing
    out of range. \<open>Thr_Ui\<close> (\<open>ui_controller.c\<close>, \<open>ui_thread.c\<close>): the controller, the handler of the
    thread with its requests for ticks, and their common invariant over runs. \<open>Event_Times\<close>
    (\<open>event_queue.c\<close>): the times of events that are taken out of the queue while others are
    pushed. \<open>Thr_Interface\<close>: the properties of the user interface.

  \<^item> \<open>Thr_Buttons\<close>, \<open>Thr_Gpio\<close> (\<open>hal/gpio_hal_libgpiod.c\<close>, \<open>hal/gpio_hal_mock.c\<close>): the tracking of the
    buttons, its specification by a scan of the edges (\<open>press_events\<close>) and its relation to the
    tracking of the main program, and the two drivers, whose \<open>wait_event\<close> waits. \<open>Thr_Presses\<close>: no
    press is lost; the loop of \<open>event_loop.c\<close> that takes events, proved inside the locale
    \<open>thr_gpio_driver\<close> (interpretations \<open>tgpiod\<close> and \<open>tmock\<close>). \<open>Thr_Press_Page\<close>: a press on its way
    from the line over loop and event queue to the page.

  \<^item> \<open>Thr_Local\<close> (\<open>sys_status.c\<close>): the update of the status that the handler of the user interface
    thread asks for, on the parts that it shares with the main program.

  The first version of the program (\<open>src/src_old\<close>) is one loop that waits for a button until the
  next deadline.

  \<^item> \<open>Old_Buttons\<close> (\<open>gpio_button.c\<close>): one call of \<open>gpio_button_wait\<close> over the environment of its
    \<open>poll\<close>, clock and value files. \<open>Old_Slide\<close> (\<open>transition_to_page\<close>): the frames between two pages
    as copies of rows of bytes. \<open>Old_Main\<close> (\<open>main.c\<close>): pages, menu, animation of the title, the
    deadlines and the loop, with its invariant.

  \<^item> \<open>Old_Ubus\<close> (\<open>ubus_service.c\<close>, the services of \<open>sys_status.c\<close>): the calls to libubus, which
    keep its contract, and the list of services, which is what the bus answers (\<open>bus_list\<close>).
    \<open>Old_Status\<close> (\<open>sys_status.c\<close>): the update of the status, what its speeds are made of, and that
    printed sizes fit their buffers. \<open>Old_Draw\<close> (\<open>main.c\<close>): the pictures of the pages, with what the
    menu marks and what a slide shows. \<open>Old_Start\<close> (\<open>main.c\<close>, \<open>u8g2_port_linux.c\<close>): start and end,
    which put these parts together, and the I2C callback.

  \<^item> \<open>Launcher\<close> (\<open>Source/main.c\<close>), a program of its own that turns presses into signals for the
    processes of a Python interpreter: paths and commands in buffers, the search for processes in
    \<open>/proc\<close>, and the loop. \<open>Launcher_Start\<close> (\<open>Source/daemonize.c\<close>, \<open>Source/main.c\<close>): its lock file, the
    way to the background, and the lines. \<open>Old_Program\<close>: the properties of both.

  State. Each module's statics are a record with the names of the C variables; the statics
  that page code can reach form one chain of record extensions (\<open>config_world\<close>,
  \<open>disp_world\<close>, \<open>ctrl_world\<close>, \<open>settings_world\<close>, \<open>app_world\<close>). An operation takes its state
  and returns it changed. What a call reads from the system (clock, files, results of
  system calls, edges of the lines) is an argument, its environment, so that the theorems
  hold for all of them.

  Integers. Unsigned times and counters are words of their width, so that differences wrap
  as in C; \<open>int\<close> values are integers, as the code keeps them small, except where they are
  converted from words (\<open>c_int_of_u64\<close>) or shifted (\<open>get_backoff_delay\<close>, whose undefined
  shift is \<open>None\<close>).

  Bounds and fuel. No operation needs fuel: the loops are structural or have a measure. The
  loop of the button callback runs as long as events arrive; it is a function of the list
  of the environments of its calls, \<open>None\<close> when the list is too short, and
  \<open>button_callback_returns\<close> says which length is enough.

  What the properties show. Of the main program: its loop (\<open>ui_timer_armed\<close> to
  \<open>shutdown_releases\<close>), the interface to ubus (\<open>real_exactly_once\<close> to \<open>backoff_overflows\<close>),
  control of services, browsing, buttons, display, settings and configuration, and system
  status, in this order; the theorems that are not numbered are facts of smaller scope. Of the
  threaded version (\<open>Threaded_Program\<close>, \<open>Thr_Interface\<close>): the event queue, the requests to ubus,
  the event loop, what the interface shows and when it sleeps, the buttons (\<open>Thr_Presses\<close>,
  \<open>Thr_Press_Page\<close>), the interface to libubus, start and end. Of the first version and the launcher
  (\<open>Old_Program\<close>): the loop, the interface, slides, buttons, whom the launcher signals, and the list
  of services.
  Behaviour of the code that it does not seem to mean is stated by \<open>backoff_overflows\<close>,
  \<open>duplicate_name_is_stuck\<close>, \<open>late_key_drops_switch\<close>, \<open>overdue_press_waits\<close> and
  \<open>draw_str_reads_past_end\<close> (main program), \<open>event_overtakes\<close>, \<open>queries_expire\<close>,
  \<open>merged_query_forgotten\<close>, \<open>sync_backoff_overflows\<close>, \<open>threaded_key_drops_switch\<close>,
  \<open>threaded_shutdown_stays_lit\<close>, \<open>polling_blocks\<close>, \<open>mock_zero_wait_ignores_edges\<close> and
  \<open>mock_closes_twice\<close> (threaded version),
  \<open>old_title_off_centre\<close>, \<open>old_tap_becomes_long\<close>, \<open>old_services_listed\<close>, \<open>fourth_service_hidden\<close>,
  \<open>slide_shows_new_number\<close> and \<open>old_speed_after_gap\<close> (first version), \<open>launcher_press_lost\<close>,
  \<open>launcher_command_overflows\<close> and \<open>launcher_not_alone\<close> (launcher).

  Not modelled. The u8g2 library, libgpiod, libubus, libubox and the kernel are third-party
  code; what the program relies on is an argument (font metrics \<open>gsw\<close>, environments) or the
  order in which uloop calls callbacks (any). The contents of the fonts (\<open>fonts.c\<close>), the
  stub of u8g2 and the clock (\<open>time_hal_real.c\<close>) are not code of interest; the null display
  has no behaviour. Of the threaded version, the display driver is left out, which is an earlier
  form of that of the main program, over which its interface is modelled, and the waiting forms of
  the operations of the task and result queue, which are those of the event queue and which nothing
  calls. Of the first version, log output and the delays of its graphics port are left out. Tests
  are not modelled, nor the mutexes of the GPIO drivers: the programs call them from one thread.
\<close>

section \<open>The program\<close>



text \<open>C2
  No query is forgotten. If the configured names are distinct then, in every state that the
  program can reach, a service whose query is pending is really being waited for: once the
  request timers of the ubus module have run, with the callbacks they lead to, no query is
  pending any more. Each service can be queried again.
\<close>

theorem queries_answered:
  assumes "main_reachable gsw (main_statics ms) m" and "distinct (service_config_init ms)"
  shows "\<not> sys_status_has_pending_queries (ss_status (ui_svc (m_ui (request_timers now m))))"
  by (rule timers_complete[OF linked_reachable[OF assms(1) main_statics_fresh assms(2)]])

theorem queries_answered_witness:
  "\<exists>m. main_reachable (\<lambda>_ s. 6 * int (length s)) (main_statics ''dropbear'') m \<and>
    \<not> sys_status_has_pending_queries (ss_status (ui_svc (m_ui (request_timers 7000 m))))"
proof -
  have "distinct (service_config_init ''dropbear'')" by code_simp
  then show ?thesis
    using statics_reachable[of "\<lambda>_ s. 6 * int (length s)" "''dropbear''"] queries_answered by blast
qed



text \<open>C4
  What the pages hold. In every state that the program can reach, the services page selects
  a configured service (if there is one) that is among its visible lines, its dialog is open
  only while the page is entered, no control request is left over between two events, and
  the brightness is one of the ten levels.
\<close>

theorem pages_consistent:
  assumes "main_reachable gsw (main_statics ms) m"
  defines "w \<equiv> ui_world (m_ui m)" and "pc \<equiv> page_ctrl (m_ui m)"
  defines "s \<equiv> svc_page w"
  shows "0 \<le> selected_index s \<and> selected_index s < max 1 (int (config_count w)) \<and>
    scroll_offset s \<le> selected_index s \<and> selected_index s < scroll_offset s + VISIBLE_LINES \<and>
    (dialog s = DIALOG_NONE \<or> page_mode pc = PAGE_MODE_ENTER \<and> current_page pc = int SERVICES_PAGE) \<and>
    pending_control_index s = -1 \<and> brightness (settings w) \<in> {1 .. 10}"
proof -
  have inv: "ctrl_inv pages_get_list pages_inv pages_quiet pc w" "pending_control_index s = -1"
    using run_ui_inv[OF assms(1)] by (simp_all add: ui_inv_def w_def pc_def s_def)
  then have "pages_inv w" and m: "modal_ok pages_quiet pc w" "length (pages pc) = 5"
    by (simp_all add: ctrl_inv_def)
  then have "services_state_ok (int (config_count w)) s" "1 \<le> brightness (settings w)"
    "brightness (settings w) \<le> 10"
    by (simp_all add: pages_inv_def services_ok_def settings_ok_def s_def)
  moreover have "services_quiet w \<or> page_mode pc = PAGE_MODE_ENTER \<and> current_page pc = int SERVICES_PAGE"
    using m by (auto simp: modal_ok_def pages_quiet_def)
  ultimately show ?thesis using inv(2)
    by (auto simp: services_state_ok_def services_quiet_def s_def max.commute)
qed

theorem pages_consistent_witness:
  "\<exists>m. main_reachable (\<lambda>_ s. 6 * int (length s)) (main_statics ''dropbear,uhttpd'') m \<and>
    selected_index (svc_page (ui_world (m_ui m))) \<ge> 0"
  using statics_reachable[of "\<lambda>_ s. 6 * int (length s)" "''dropbear,uhttpd''"] pages_consistent by blast



section \<open>The interface to ubus\<close>

text \<open>C6
  The real module answers exactly once. Whatever requests are made and whatever happens in
  between, replies, failed connections and time-outs in any order: once the timers have
  run, the callbacks that were made are the requests, each exactly once.
\<close>

theorem real_exactly_once:
  assumes "real_inv h" and "ubus_initialized h" and "real_outstanding h = {#}" and "names_fit as"
  shows "answered (fst (hal_run real_ops real_dispatch
    (as @ map Loop_Event (map Ev_Timer [0..<16])) h)) = requested as"
  by (rule real.answered_exactly_once[OF assms])

theorem real_exactly_once_witness:
  "answered (fst (hal_run real_ops real_dispatch
     ([Query_Service \<lparr>time_check = 5, time_attempt = 5, connect_ok = True, lookup_ret = 0, lookup_id = 1,
         invoke_ret = 0\<rparr> ''dropbear'' (0 :: nat),
       Query_Service \<lparr>time_check = 6, time_attempt = 6, connect_ok = False, lookup_ret = 0, lookup_id = 1,
         invoke_ret = 0\<rparr> ''uhttpd'' 1, Loop_Event (Ev_Complete 0 UBUS_STATUS_OK)] @
      map Loop_Event (map Ev_Timer [0..<16]))
     (snd (real_init \<lparr>time_check = 0, time_attempt = 0, connect_ok = True, lookup_ret = 0, lookup_id = 1,
         invoke_ret = 0\<rparr> ubus_real_start)))) =
   {#Query_Req ''dropbear'' 0, Query_Req ''uhttpd'' 1#}"
proof -
  have "\<not> ubus_initialized (ubus_real_start :: nat ubus_real)" "\<not> g_ctx (ubus_real_start :: nat ubus_real)"
    by (simp_all add: ubus_real_start_def)
  from real_init_law[OF this] show ?thesis by (subst real_exactly_once) simp_all
qed

text \<open>
  The mock answers exactly once too, so that a test against it sees the same protocol.
\<close>

theorem mock_exactly_once:
  assumes "mock_inv h" and "mock_initialized h" and "mock_outstanding h = {#}" and "names_fit as"
  shows "answered (fst (hal_run mock_ops mock_dispatch
    (as @ map Loop_Event (map Ev_Timeout [0..<16])) h)) = requested as"
  by (rule mock.answered_exactly_once[OF assms])

theorem mock_exactly_once_witness:
  "answered (fst (hal_run mock_ops mock_dispatch
     ([Query_Service () ''dropbear'' (0 :: nat), Loop_Event (Ev_Response 0),
       Query_Service () ''dropbear'' 1] @ map Loop_Event (map Ev_Timeout [0..<16]))
     (snd (mock_init ubus_mock_start)))) = {#Query_Req ''dropbear'' 0, Query_Req ''dropbear'' 1#}"
proof -
  have "\<not> mock_initialized (ubus_mock_start :: nat ubus_mock)" by (simp add: ubus_mock_start_def)
  from mock_init_law[OF this] show ?thesis by (subst mock_exactly_once) simp_all
qed

text \<open>
  A late response is ignored. When the mock is made to run the response of a request that is
  already completed, as if ubus answered after the time-out, no callback is made and the
  state is left as it was: callbacks are made at most once.
\<close>

theorem late_response_ignored:
  assumes "mock_inv m"
  shows "fst (snd (ubus_mock_force_late_response service m)) = [] \<and>
    snd (snd (ubus_mock_force_late_response service m)) = m"
  using late_response_silent[OF assms] by simp

theorem late_response_ignored_witness:
  "snd (snd (ubus_mock_force_late_response ''dropbear'' (snd (mock_init (ubus_mock_start :: nat ubus_mock))))) =
   snd (mock_init ubus_mock_start)"
proof -
  have "\<not> mock_initialized (ubus_mock_start :: nat ubus_mock)" by (simp add: ubus_mock_start_def)
  from mock_init_law[OF this] show ?thesis using late_response_ignored by blast
qed

text \<open>C7
  The pause after failures. After one to 31 failed attempts to connect, an attempt is made only
  when the back-off time has passed since the last one: 1, 2, 4, ... seconds, at most 60.
  Before, the module fails the request and its state stays as it is.
\<close>

theorem backoff_is_kept:
  assumes "\<not> g_ctx h" and "0 < g_consecutive_failures h" and "g_consecutive_failures h \<le> 31"
    and "time_check e - g_last_attempt_time h < min 60 (2 ^ nat (g_consecutive_failures h - 1))"
  shows "ensure_context e h = (-1, h)"
  by (rule backoff_waits[OF assms])

theorem backoff_is_kept_witness:
  "ensure_context (refused_at 103)
     ((ubus_real_start :: nat ubus_real)\<lparr>g_consecutive_failures := 3, g_last_attempt_time := 100\<rparr>) =
   (-1, ubus_real_start\<lparr>g_consecutive_failures := 3, g_last_attempt_time := 100\<rparr>)"
  by (rule backoff_is_kept) (simp_all add: ubus_real_start_def refused_at_def)

text \<open>C8
  The back-off overflows. A program whose connection is refused once a minute counts its
  failures up to 32, and there \<open>1 << (failures - 1)\<close> is undefined behaviour.
\<close>

theorem backoff_overflows:
  "let h = failed_attempts (refusals 0 32) (ubus_real_start :: nat ubus_real)
   in g_consecutive_failures h = 32 \<and> get_backoff_delay (g_consecutive_failures h) = None \<and>
      ubus_ub (snd (ensure_context (refused_at 2000) h))"
proof -
  let ?h = "failed_attempts (refusals 0 32) (ubus_real_start :: nat ubus_real)"
  have "\<not> g_ctx ?h \<and> g_consecutive_failures ?h = 32"
    using failed_attempts_count[of "ubus_real_start :: nat ubus_real" 32 0] by (simp add: ubus_real_start_def Let_def)
  then show ?thesis using backoff_undefined[of 32]
    by (simp add: ensure_context_def connect_now_def refused_at_def Let_def)
qed

section \<open>Service queries and control\<close>

text \<open>
  A name that is configured twice. When a query of a service is pending and an earlier entry
  has the same name, it stays pending whatever the client and the event loop do: replies
  are matched to the first entry with the name, so the entry is never updated again.
\<close>

theorem duplicate_name_is_stuck:
  assumes "i < j" and "j < service_count (ss_status s)"
    and "service_count (ss_status s) \<le> length (services (ss_status s))"
    and "svc_name (services (ss_status s) ! i) = svc_name (services (ss_status s) ! j)"
    and "query_pending (services (ss_status s) ! j)"
  shows "query_pending (services (ss_status (service_run ops event as s)) ! j)"
proof -
  have "stuck j (ss_status s)" using assms by (auto simp: stuck_def)
  from stuck_run[OF this, of ops event as] show ?thesis by (simp add: stuck_def)
qed

theorem duplicate_name_is_stuck_witness:
  "query_pending (services (ss_status (service_run mock_ops mock_dispatch [Service_Event (Ev_Response 0) 60,
     Service_Event (Ev_Response 1) 60, Query_All (\<lambda>_. ()) (\<lambda>_. True) 9000 9000]
     (snd (sys_status_query_services mock_ops (\<lambda>_. ()) (\<lambda>_. True) 10 10
        \<lparr>ss_status = init_services [''ntpd'', ''ntpd''] zero_status, g_next_request_id = 1,
         ss_hal = snd (mock_init ubus_mock_start), ss_notes = []\<rparr>)))) ! 1)"
  apply (rule duplicate_name_is_stuck[of 0])
  apply code_simp+
  done

text \<open>C30
  Control needs a confirmation. In a consistent state of the UI (every reachable one), a key
  leads to a call into the service module only if the confirmation dialog of the services
  page is open with its "yes" selected and the key is a short press of K2.
\<close>

theorem control_only_confirmed:
  assumes "ui_inv ui"
    and "ui_svc (snd (ui_controller_handle_button ops e key lp now ui)) \<noteq> ui_svc ui"
  shows "key = KEY_K2 \<and> \<not> lp \<and> screen_state (page_ctrl ui) = SCREEN_ON \<and>
    page_mode (page_ctrl ui) = PAGE_MODE_ENTER \<and> current_page (page_ctrl ui) = int SERVICES_PAGE \<and>
    dialog (svc_page (ui_world ui)) = DIALOG_CONFIRM \<and> dialog_selection (svc_page (ui_world ui)) = 1"
  using control_needs_confirm[OF assms] by (simp add: confirming_def)

theorem control_only_confirmed_witness:
  "dialog (svc_page (ui_world dialog_ui)) = DIALOG_CONFIRM \<and> ui_svc (press_at KEY_K2 False 4200 dialog_ui) \<noteq> ui_svc dialog_ui"
proof -
  have "ui_svc (press_at KEY_K2 False 4200 dialog_ui) \<noteq> ui_svc dialog_ui" by code_simp
  then show ?thesis using control_only_confirmed[OF dialog_ui_inv] unfolding press_at_def by blast
qed

text \<open>C31
  A confirmed dialog switches the selected service: the request goes out for the entry that
  is selected, to start it if it was shown stopped and to stop it otherwise.
\<close>

theorem confirmed_control_starts:
  assumes "ui_inv ui" and "config_count (ui_world ui) \<noteq> 0" and "key_ready now (page_ctrl ui)"
    and "status_ctx ui = Some ctx" and "confirming key lp (page_ctrl ui) (ui_world ui)"
  defines "s \<equiv> svc_page (ui_world ui)"
  shows "ui_svc (snd (ui_controller_handle_button ops e key lp now ui)) =
    (snd (sys_status_control_service ops (ke_hal e) (ke_mem e) (ke_cb_now e) (selected_index s)
       (\<not> cached_running s ! nat (selected_index s)) (ui_svc ui)))\<lparr>ss_notes := []\<rparr>"
  unfolding s_def by (rule confirm_starts[OF assms(1-5)])

theorem confirmed_control_starts_witness:
  "ui_svc (press_at KEY_K2 False 4200 dialog_ui) =
    (snd (sys_status_control_service mock_ops () True 4200 0 True (ui_svc dialog_ui)))\<lparr>ss_notes := []\<rparr>"
proof -
  have "status_ctx dialog_ui \<noteq> None" "selected_index (svc_page (ui_world dialog_ui)) = 0"
    "\<not> cached_running (svc_page (ui_world dialog_ui)) ! 0" by code_simp+
  then show ?thesis
    using confirmed_control_starts[where ops = mock_ops and
        e = "\<lparr>ke_hal = (), ke_mem = True, ke_cb_now = 4200\<rparr>",
        OF dialog_ui_inv dialog_ui_confirming(2,3) _ dialog_ui_confirming(1)]
    by (auto simp: press_at_def)
qed

section \<open>Browsing\<close>

text \<open>C32
  Browsing. After power-up, every settled sequence of short K1 and K3 presses (each followed
  by a tick at least 250 ms later) leaves the controller browsing, on the page that is as
  many pages away from the start page (the second of five), cyclically, as K3 was pressed
  more often than K1.
\<close>

theorem page_navigation:
  assumes "nav_presses_ok ps" and "\<not> g_auto_screen_off_enabled (snd (boot_controller w))"
  shows "browsing (fst (nav_run ps (boot_controller w))) \<and>
    current_page (fst (nav_run ps (boot_controller w))) =
      (1 + (\<Sum>(key, _)\<leftarrow>ps. nav_dir key)) mod 5"
proof -
  have "current_page (fst (boot_controller w)) = 1" "page_count (fst (boot_controller w)) = 5"
    by (simp_all add: boot_controller_def page_controller_init_def)
  then show ?thesis
    using nav_run_page[OF boot_controller_browsing[of w] assms] by simp
qed

lemma boot_stays_on: "\<not> g_auto_screen_off_enabled (snd (boot_controller (program_start ms)))"
  by (simp add: boot_controller_def page_controller_init_def upt_rec[of _ 5] init_page_def
      pages_get_list_def page_records settings_init_def services_init_def program_start_def
      ssd1306_set_contrast_def eval_nat_numeral)

theorem page_navigation_witness:
  "current_page (fst (nav_run [(KEY_K1, 1000, 1250), (KEY_K1, 2000, 2300)]
     (boot_controller (program_start ''dropbear'')))) = 4"
  using page_navigation[OF _ boot_stays_on, of "[(KEY_K1, 1000, 1250), (KEY_K1, 2000, 2300)]" "''dropbear''"]
  by (simp add: nav_presses_ok_def nav_dir_def)

text \<open>
  A page switch is lost. When a second navigation key arrives after the slide of the first has
  run its 250 ms but before the tick that would complete it, the first switch is dropped: the
  controller ends one page away from where it was, not two.
\<close>

theorem late_key_drops_switch:
  assumes "browsing pc" and "key = KEY_K1 \<or> key = KEY_K3" and "key' = KEY_K1 \<or> key' = KEY_K3"
    and "250 \<le> t' - t" and "250 \<le> t'' - t'" and "\<not> g_auto_screen_off_enabled w"
  defines "pressed \<equiv> snd (page_controller_handle_key key False t pc w)"
  shows "current_page (fst (nav_press key' t' t'' pressed)) =
    (current_page pc + nav_dir key') mod page_count pc"
proof -
  define pc1 where "pc1 = switch_page (nav_dir key) t (key_base t pc)"
  have b: "browsing (key_base t pc)" using assms(1) by (auto simp: browsing_def pc_wf_def key_base_def)
  have d: "nav_dir key = 1 \<or> nav_dir key = -1" by (simp add: nav_dir_def)
  have wf: "pc_wf pc1" using switch_page_wf[where pc = "key_base t pc", OF _ _ d] b by (simp add: pc1_def browsing_def)
  have sel: "current_page pc1 = current_page pc" "page_count pc1 = page_count pc"
    "page_mode pc1 = PAGE_MODE_VIEW" "screen_state pc1 = SCREEN_ON"
    using b assms(1) by (simp_all add: pc1_def browsing_def)
  have p: "pressed = (pc1, w)" using browsing_key[OF assms(1,2)] by (simp add: pressed_def pc1_def)
  have "is_slide (anim_ty (anim pc1))" "start_ms (anim pc1) = t"
    using switch_page_anim[of "key_base t pc" "nav_dir key" t] b by (simp_all add: pc1_def browsing_def)
  then have "key_ready t' pc1" using anim_is_complete_slide[of "anim pc1" t'] assms(4) sel(4)
    by (simp add: key_ready_def)
  then have "page_controller_handle_key key' False t' pc1 w =
      page_controller_handle_key key' False t' (key_base t' pc1) w"
    using sel by (simp add: handle_key_view key_ready_def key_base_def)
  then have "nav_press key' t' t'' (pc1, w) = nav_press key' t' t'' (key_base t' pc1, w)"
    by (simp add: nav_press_def)
  moreover have "browsing (key_base t' pc1)"
    using wf sel b by (auto simp: browsing_def pc_wf_def key_base_def)
  ultimately show ?thesis
    using nav_press_step[OF _ assms(3,5,6), of "key_base t' pc1"] sel by (simp add: p)
qed

theorem late_key_drops_switch_witness:
  "let pw = boot_controller (program_start ''dropbear'') in
   current_page (fst (nav_press KEY_K3 1260 1510
     (snd (page_controller_handle_key KEY_K3 False 1000 (fst pw) (snd pw))))) = 2"
proof -
  let ?pw = "boot_controller (program_start ''dropbear'')"
  have "current_page (fst ?pw) = 1" "page_count (fst ?pw) = 5"
    by (simp_all add: boot_controller_def page_controller_init_def)
  then show ?thesis
    using late_key_drops_switch[OF boot_controller_browsing[of "program_start ''dropbear''"],
        of KEY_K3 KEY_K3 1260 1000 1510 "snd ?pw"] boot_stays_on[of "''dropbear''"]
    by (simp add: nav_dir_def Let_def)
qed

text \<open>
  Automatic sleep. A tick turns the screen off exactly when automatic sleep is enabled, no page
  is entered, and the idle time-out has passed since the last key; otherwise a tick leaves
  the screen as it is.
\<close>

theorem tick_sleeps:
  "screen_state (fst (snd (page_controller_tick now pc w))) =
     (if g_auto_screen_off_enabled w \<and> page_mode pc = PAGE_MODE_VIEW \<and> idle_timeout_ms pc > 0 \<and>
         last_activity_ms pc \<noteq> 0 \<and> ucast (idle_timeout_ms pc) \<le> now - last_activity_ms pc
      then SCREEN_OFF else screen_state pc)"
  using tick_screen_state[of now pc w] by simp

text \<open>
  Entered pages time out: the tick that comes the time-out or more after the page was entered
  (or last used) goes back to viewing, whatever the animation is.
\<close>

theorem entered_page_times_out:
  assumes "page_mode pc = PAGE_MODE_ENTER" and "0 < enter_mode_timeout_ms pc"
    and "ucast (enter_mode_timeout_ms pc) \<le> now - enter_mode_start_ms pc"
  shows "page_mode (fst (snd (page_controller_tick now pc w))) = PAGE_MODE_VIEW"
  by (rule tick_leaves_enter_mode[OF assms])

theorem entered_page_times_out_witness:
  "page_mode (fst (snd (page_controller_tick 31000
     ((fst (boot_controller (program_start ''dropbear'')))\<lparr>page_mode := PAGE_MODE_ENTER,
       enter_mode_timeout_ms := 30000, enter_mode_start_ms := 1000\<rparr>)
     (program_start ''dropbear'')))) = PAGE_MODE_VIEW"
  by (rule entered_page_times_out) simp_all

section \<open>Buttons\<close>

text \<open>C33
  A short press. From rest, a press of one button, released before it has been held 600 ms,
  with any number of calls of \<open>read_event\<close> in between (all within the 600 ms), leads to
  exactly one event: a short press of that button, stamped with the time of the release.
  Afterwards the driver is at rest again.
\<close>

theorem short_press_one_event:
  assumes "gpiod_calm L s" and "idle s" and "i < GPIO_NUM_BUTTONS" and "press_call L i d e"
    and "list_all (waiting (edge_timestamp_ns d div 1000000) False) ws"
    and "release_call L i d' (edge_timestamp_ns d div 1000000) False e'"
  shows "fst (gpiod.reads (e # ws @ [e']) s) = [button_event i False (edge_timestamp_ns d')] \<and>
    gpiod_calm L (snd (gpiod.reads (e # ws @ [e']) s)) \<and> idle (snd (gpiod.reads (e # ws @ [e']) s))"
  by (rule short_press[OF assms])

text \<open>The driver after its initialisation of \<open>plain_start\<close>, and calls at given times.\<close>

definition rest :: gpiod_state where
  "rest = snd (libgpiod_init (ma_gpio plain_start) (m_gpio (main_statics [])))"

definition call_at :: "u64 \<Rightarrow> edge_read \<Rightarrow> gpiod_env" where
  "call_at ms r = \<lparr>env_now_ms = ms, env_now_ns = ms * 1000000, env_upd_ms = ms, env_read = r\<rparr>"

definition edge_at :: "u32 \<Rightarrow> bool \<Rightarrow> u64 \<Rightarrow> gpiod_edge" where
  "edge_at offset falling ms = \<lparr>edge_offset = offset, edge_falling = falling,
     edge_timestamp_ns = ms * 1000000, edge_now_ms = ms\<rparr>"

lemma rest_calm: "gpiod_calm 0 rest" "idle rest"
proof -
  have "fst (libgpiod_init (ma_gpio plain_start) (m_gpio (main_statics []))) = 0"
    using plain_start_succeeds by (simp add: start_succeeds_def)
  then have "buttons_ok rest" unfolding rest_def by (rule libgpiod_init_ok)
  moreover have "g_pressed_level rest = 0 \<and> g_request rest \<and> \<not> g_use_soft_debounce rest \<and>
    g_timer_fd rest \<ge> 0 \<and> count (g_pending rest) = 0" by code_simp
  ultimately show "gpiod_calm 0 rest" by (simp add: gpiod_calm_def gpiod_inv_def)
  have "list_all (\<lambda>j. \<not> g_pressed rest ! j) [0..<3]" by code_simp
  then show "idle rest" by (simp add: idle_def list_all_iff)
qed

theorem short_press_one_event_witness:
  "fst (gpiod.reads (call_at 5000 (Read_Edges [edge_at 2 True 5000]) # [call_at 5300 (Read_Error True)] @
      [call_at 5400 (Read_Edges [edge_at 2 False 5400])]) rest) = [button_event 1 False 5400000000]"
proof -
  have "press_call 0 1 (edge_at 2 True 5000) (call_at 5000 (Read_Edges [edge_at 2 True 5000]))"
    "list_all (waiting 5000 False) [call_at 5300 (Read_Error True)]"
    "release_call 0 1 (edge_at 2 False 5400) 5000 False (call_at 5400 (Read_Edges [edge_at 2 False 5400]))"
    by (simp_all add: press_call_def edge_of_def edge_at_def call_at_def g_btn_offsets_def edge_level_def
        waiting_def release_call_def)
  then show ?thesis
    using short_press_one_event[OF rest_calm, of 1 "edge_at 2 True 5000" _ "[call_at 5300 (Read_Error True)]"]
    by (simp add: edge_at_def)
qed

text \<open>C34
  A long press. A button held 600 ms or more gives exactly one event, the long press, at the
  first call of \<open>read_event\<close> after that time; the release that follows gives none.
\<close>

theorem long_press_one_event:
  assumes "gpiod_calm L s" and "idle s" and "i < GPIO_NUM_BUTTONS" and "press_call L i d e"
    and "list_all (waiting (edge_timestamp_ns d div 1000000) False) ws"
    and "env_now_ms f - edge_timestamp_ns d div 1000000 \<ge> GPIO_LONG_PRESS_MS"
    and "list_all (waiting (edge_timestamp_ns d div 1000000) True) vs"
    and "release_call L i d' (edge_timestamp_ns d div 1000000) True e'"
  shows "fst (gpiod.reads ((e # ws) @ [f] @ vs @ [e']) s) = [button_event i True (env_now_ns f)] \<and>
    gpiod_calm L (snd (gpiod.reads ((e # ws) @ [f] @ vs @ [e']) s)) \<and>
    idle (snd (gpiod.reads ((e # ws) @ [f] @ vs @ [e']) s))"
  by (rule long_press[OF assms])

theorem long_press_one_event_witness:
  "fst (gpiod.reads ((call_at 5000 (Read_Edges [edge_at 0 True 5000]) # []) @ [call_at 5600 (Read_Error True)] @ [] @
      [call_at 6000 (Read_Edges [edge_at 0 False 6000])]) rest) = [button_event 0 True 5600000000]"
proof -
  have "press_call 0 0 (edge_at 0 True 5000) (call_at 5000 (Read_Edges [edge_at 0 True 5000]))"
    "release_call 0 0 (edge_at 0 False 6000) 5000 True (call_at 6000 (Read_Edges [edge_at 0 False 6000]))"
    by (simp_all add: press_call_def edge_of_def edge_at_def call_at_def g_btn_offsets_def edge_level_def
        release_call_def)
  then show ?thesis
    using long_press_one_event[OF rest_calm, of 0 "edge_at 0 True 5000" _ "[]" "call_at 5600 (Read_Error True)" "[]"]
    by (simp add: edge_at_def call_at_def)
qed

text \<open>C35
  One event per press. Over any calls of the libgpiod driver, the events of a button, with those
  still owed at the end, are at most those owed at the start plus its press edges: no press
  is reported twice.
\<close>

theorem events_within_presses:
  assumes "gpiod_inv L s" and "i < GPIO_NUM_BUTTONS"
  shows "length (filter (\<lambda>ev. ev_line ev = of_nat i) (fst (gpiod.reads es s))) +
      owed i (snd (gpiod.reads es s)) \<le> owed i s + sum_list (map (gpiod_presses L i) es)"
  by (rule gpiod.reads_due[OF assms])

theorem events_within_presses_witness:
  "length (filter (\<lambda>ev. ev_line ev = of_nat 1) (fst (gpiod.reads
     [call_at 5000 (Read_Edges [edge_at 2 True 5000, edge_at 2 False 5100]), call_at 5200 (Read_Error True)] rest))) \<le> 1"
proof -
  let ?es = "[call_at 5000 (Read_Edges [edge_at 2 True 5000, edge_at 2 False 5100]), call_at 5200 (Read_Error True)]"
  have inv: "gpiod_inv 0 rest" using rest_calm(1) by (simp add: gpiod_calm_def)
  have "owed 1 rest = 0" "sum_list (map (gpiod_presses 0 1) ?es) = 1" by code_simp+
  then show ?thesis using events_within_presses[OF inv, of 1 ?es] by (simp del: gpiod.reads.simps)
qed

text \<open>
  The mock driver keeps the same promise: the events that it delivers are at most the presses
  that are queued as injected edges and those already under way.
\<close>

theorem mock_events_within_presses:
  assumes "gmock_inv L s" and "i < GPIO_NUM_BUTTONS"
  shows "length (filter (\<lambda>ev. ev_line ev = of_nat i) (fst (gmock.reads es s))) +
      gmock_due L i (snd (gmock.reads es s)) \<le> gmock_due L i s"
  using gmock.reads_due[OF assms, of es] by simp

text \<open>The mock with the lines high, and its queue.\<close>

definition mock_rest :: gmock_state where
  "mock_rest = snd (gpio_mock_init 3 4
     \<lparr>g_timer_fd = -1, g_timer_value = (0, 0), g_pressed_level = 0, g_use_soft_debounce = False,
      g_press_time_ms = replicate 3 0, g_last_edge_ms = replicate 3 0, g_pressed = replicate 3 False,
      g_long_sent = replicate 3 False, g_pending = ring_empty 32 zero_event, g_notify_fd = -1,
      g_notify_write_fd = -1, g_notified = 0, g_edges = ring_empty 64 zero_edge,
      g_line_values = [1, 1, 1]\<rparr>)"

lemma mock_rest_inv: "gmock_inv 0 (gpio_mock_inject_press 0 False 1000000000 mock_rest)"
proof -
  have "gmock_inv 0 mock_rest"
    by (simp add: mock_rest_def gpio_mock_init_def gpio_mock_reset_def reset_buttons_def gmock_inv_def
        buttons_ok_def mock_detect_pressed_level_def ring_empty_def ring_ok_def ring_items_def Let_def)
  moreover have "gmock_inv 0 (gpio_mock_inject_edge l f t s)" if "gmock_inv 0 s" for l f t s
    using that
    by (simp add: edges.push_ok gmock_inv_def gpio_mock_inject_edge_def push_edge_def signal_fd_def buttons_ok_def)
  ultimately show ?thesis by (simp add: gpio_mock_inject_press_def Let_def)
qed

theorem mock_events_within_presses_witness:
  "length (filter (\<lambda>ev. ev_line ev = of_nat 0) (fst (gmock.reads
     [\<lparr>me_now_ms = 1200, me_now_ns = 1200000000, me_upd_ms = 1200, me_clock = (\<lambda>_. 1200)\<rparr>]
     (gpio_mock_inject_press 0 False 1000000000 mock_rest)))) \<le> 1"
proof -
  have "gmock_due 0 0 (gpio_mock_inject_press 0 False 1000000000 mock_rest) = 1" by code_simp
  then show ?thesis
    using mock_events_within_presses[OF mock_rest_inv, of 0 "[\<lparr>me_now_ms = 1200, me_now_ns = 1200000000,
      me_upd_ms = 1200, me_clock = (\<lambda>_. 1200)\<rparr>]"]
    by (simp del: gmock.reads.simps)
qed

text \<open>
  Software debouncing. Of two edges of the same button that are less than 30 ms apart the
  second one has no effect at all.
\<close>

theorem bounce_is_ignored:
  assumes "g_use_soft_debounce s" and "line < length (g_last_edge_ms s)"
    and "\<not> debounced line (ts div 1000000) s" and "ts div 1000000 \<noteq> 0"
    and "ts' div 1000000 - ts div 1000000 < 30"
  shows "process_line line v' ts' upd' (process_line line v ts upd s) = process_line line v ts upd s"
proof -
  have "g_use_soft_debounce (process_line line v ts upd s)"
    "g_last_edge_ms (process_line line v ts upd s) ! line = ts div 1000000"
    using assms(1-3) by (simp_all add: process_line_def release_button_def Let_def)
  then have "debounced line (ts' div 1000000) (process_line line v ts upd s)"
    using assms(4,5) by (simp add: debounced_def)
  then show ?thesis by (subst process_line_def) (simp add: Let_def)
qed

theorem bounce_is_ignored_witness:
  "process_line 0 1 5020000000 5020 (process_line 0 0 5000000000 5000 (rest\<lparr>g_use_soft_debounce := True\<rparr>)) =
   process_line 0 0 5000000000 5000 (rest\<lparr>g_use_soft_debounce := True\<rparr>)"
proof -
  have "length (g_last_edge_ms rest) = 3" "g_last_edge_ms rest ! 0 = 0" by code_simp+
  then show ?thesis by (intro bounce_is_ignored) (simp_all add: debounced_def)
qed

text \<open>
  The event queue keeps the newest. Of the events that are queued between two reads, popping
  returns the last 32, in order; only older ones are lost.
\<close>

theorem queue_keeps_newest:
  "fst (pending.pops 32 (fold (ring_push 32) evs (ring_empty 32 zero_event))) = drop (length evs - 32) evs"
  using pending.pushed_then_popped[of "ring_empty 32 zero_event" evs] by simp

text \<open>
  Arming the timer. While one button is held, the timer is set to what is left of its 600 ms,
  and to one millisecond when they are over.
\<close>

theorem long_press_timer:
  assumes "i < GPIO_NUM_BUTTONS" and "held i tp False s" and "g_timer_fd s \<ge> 0"
  shows "g_timer_value (update_long_press_timer_locked now s) = armed_for (left_until_long tp now)"
  by (rule update_timer_held[OF assms])

theorem long_press_timer_witness:
  "g_timer_value (update_long_press_timer_locked 5100
     (rest\<lparr>g_pressed := [False, True, False], g_press_time_ms := [0, 5000, 0]\<rparr>)) = (0, 500000000)"
proof -
  have "g_long_sent rest = [False, False, False]" "g_timer_fd rest \<ge> 0" by code_simp+
  then have "held 1 5000 False (rest\<lparr>g_pressed := [False, True, False], g_press_time_ms := [0, 5000, 0]\<rparr>)"
    "g_timer_fd rest \<ge> 0"
    by (auto simp: held_def less_Suc_eq numeral_3_eq_3)
  then show ?thesis
    by (subst long_press_timer[of 1 5000]) (simp_all add: armed_for_def left_until_long_def Let_def)
qed

text \<open>
  With two buttons held the timer can be late. A press that is already over 600 ms old has
  nothing left, and zero also stands for "no delay yet" in the scan: a younger press of a
  later button overwrites it, so the timer waits for the younger one.
\<close>

theorem overdue_press_waits:
  assumes "g_timer_fd s \<ge> 0" and "g_pressed s = [True, True, False]"
    and "g_long_sent s = [False, False, False]" and "g_press_time_ms s = [1000, 1500, 0]"
  shows "g_timer_value (update_long_press_timer_locked 1600 s) = (0, 500000000)"
  using assms by (simp add: update_long_press_timer_locked_def timer_scan_def upt_rec Let_def)

theorem overdue_press_waits_witness:
  "g_timer_value (update_long_press_timer_locked 1600
     (rest\<lparr>g_pressed := [True, True, False], g_press_time_ms := [1000, 1500, 0]\<rparr>)) = (0, 500000000)"
proof -
  have "g_long_sent rest = [False, False, False]" "g_timer_fd rest \<ge> 0" by code_simp+
  then show ?thesis by (intro overdue_press_waits) simp_all
qed

section \<open>Display\<close>



text \<open>
  Reading past the end. With a font in which a string is wider than that, \<open>ui_draw_str\<close> skips
  more characters than the string has and reads behind its terminator.
\<close>

theorem draw_str_reads_past_end:
  assumes "gsw (u8g2_font u) s = width" and "gsw (u8g2_font u) ''0'' = w0" and "0 < w0"
    and "x < 0" and "0 < x + width" and "w0 * (int (length s) + 1) \<le> - x"
  shows "u8g2_ub (ui_draw_str gsw x y s u)"
proof -
  have "int (length s) + 1 \<le> (- x) div w0"
    using assms(3,6) by (metis mult.commute nonzero_mult_div_cancel_left zdiv_mono1 less_irrefl)
  then show ?thesis
    using assms by (simp add: ui_draw_str_def u8g2_GetStrWidth_def u8g2_undefined_def Let_def)
qed

theorem draw_str_reads_past_end_witness:
  "u8g2_ub (ui_draw_str (\<lambda>_ s. if s = ''0'' then 6 else 9 * int (length s)) (- 70) 20 ''Auto Sleep''
     \<lparr>u8g2_font = None, u8g2_calls = [], u8g2_ub = False\<rparr>)"
  by (rule draw_str_reads_past_end[OF refl refl]) simp_all

text \<open>
  Clipping is exact. A box is drawn on exactly those of its columns that are on the screen, and
  nothing is drawn when there are none.
\<close>

theorem clipping_exact:
  "(case clip_columns x w of
      None \<Rightarrow> {x ..< x + w} \<inter> {0 ..< SCREEN_WIDTH} = {}
    | Some (x0, w') \<Rightarrow> 0 < w' \<and> {x0 ..< x0 + w'} = {x ..< x + w} \<inter> {0 ..< SCREEN_WIDTH})"
proof (cases "clip_columns x w")
  case None
  then show ?thesis using clip_columns_None[of w x] by (cases "0 < w") simp_all
next
  case (Some p)
  then show ?thesis using clip_columns_Some[of x w "fst p" "snd p"] by (simp add: case_prod_beta)
qed

text \<open>
  Slides stay on screen. While a slide runs, the page that leaves is moved by at most the width
  of the screen to the side it leaves to, the page that enters comes from the other side,
  and the slide to the right mirrors the slide to the left, whatever the times are (in
  single precision arithmetic, with the quadratic easing). The shake of a title moves it
  by at most eight pixels.
\<close>

theorem animation_offsets_bounded:
  defines "off \<equiv> \<lambda>s t d. anim_slide_offset (anim_progress s t d)"
  shows "off s t d ANIM_SLIDE_LEFT True \<in> {- SCREEN_WIDTH .. 0} \<and>
    off s t d ANIM_SLIDE_LEFT False \<in> {0 .. SCREEN_WIDTH} \<and>
    off s t d ANIM_SLIDE_RIGHT b = - off s t d ANIM_SLIDE_LEFT b \<and>
    \<bar>anim_shake_offset (anim_progress s t d)\<bar> \<le> 8"
  using slide_offset_range[of "anim_progress s t d"] anim_progress_unit[of s t d] shake_offset_bound
  by (simp add: off_def)

text \<open>
  The time bar. While a page is entered, the bar is the part of the screen's width that is
  left of the time-out, rounded down, and it is never wider than the screen.
\<close>

theorem countdown_is_share:
  assumes "0 < t" and "e < (ucast t :: u64)"
  shows "countdown_width (t, e) =
    (let n = 128 * (unat t - unat e) div unat t in if n = 0 then None else Some (int n))"
  by (rule countdown_width_eq[OF assms])

theorem countdown_is_share_witness:
  "countdown_width (30000, 7500) = Some 96"
  by (subst countdown_is_share) simp_all

text \<open>
  A transfer to the display. The bytes sent between the start and the end of a transfer are
  written to the bus in one write, in order; what exceeds the buffer of 256 bytes is
  dropped.
\<close>

definition transfer :: "u8 list list \<Rightarrow> u8x8_msg list" where
  "transfer ds = U8X8_MSG_BYTE_START_TRANSFER # map U8X8_MSG_BYTE_SEND ds @ [U8X8_MSG_BYTE_END_TRANSFER]"

lemma take_take_append: "take n (take n xs @ ys) = take n (xs @ ys)"
  by (cases "n \<le> length xs") simp_all

lemma sends_content:
  fixes e :: i2c_env and ds :: "u8 list list"
  assumes "i2c_ok s"
  defines "t \<equiv> fold (\<lambda>m s. snd (u8x8_byte_linux_i2c e m s)) (map U8X8_MSG_BYTE_SEND ds) s"
  shows "i2c_ok t \<and> g_i2c_fd t = g_i2c_fd s \<and> i2c_writes t = i2c_writes s \<and>
    take (buf_idx t) (i2c_buffer t) = take 256 (take (buf_idx s) (i2c_buffer s) @ concat ds)"
  using assms(1) unfolding t_def
proof (induction ds arbitrary: s)
  case Nil
  then show ?case by (simp add: i2c_ok_def)
next
  case (Cons d ds)
  have "i2c_ok (i2c_send d s)" using Cons.prems by (rule i2c_send_ok)
  moreover have "take 256 (take (buf_idx (i2c_send d s)) (i2c_buffer (i2c_send d s)) @ concat ds) =
      take 256 (take (buf_idx s) (i2c_buffer s) @ concat (d # ds))"
    unfolding i2c_send_content[OF Cons.prems] take_take_append by simp
  ultimately show ?case using Cons.IH[of "i2c_send d s"] by (simp del: take_append)
qed

theorem transfer_written:
  assumes "i2c_ok s" and "g_i2c_fd s \<ge> 0" and "concat ds \<noteq> []"
  shows "i2c_writes (fold (\<lambda>m s. snd (u8x8_byte_linux_i2c e m s)) (transfer ds) s) =
    i2c_writes s @ [take 256 (concat ds)]"
proof -
  let ?t = "fold (\<lambda>m s. snd (u8x8_byte_linux_i2c e m s)) (map U8X8_MSG_BYTE_SEND ds) (s\<lparr>buf_idx := 0\<rparr>)"
  have "i2c_ok (s\<lparr>buf_idx := 0\<rparr>)" using assms(1) by (simp add: i2c_ok_def)
  from sends_content[OF this, of e ds] have t: "g_i2c_fd ?t \<ge> 0" "i2c_writes ?t = i2c_writes s"
    "take (buf_idx ?t) (i2c_buffer ?t) = take 256 (concat ds)"
    using assms(2) by simp_all
  moreover have "0 < buf_idx ?t" using t(3) assms(3) by (cases "buf_idx ?t") auto
  ultimately show ?thesis by (simp add: transfer_def Let_def)
qed

theorem transfer_written_witness:
  "i2c_writes (fold (\<lambda>m s. snd (u8x8_byte_linux_i2c \<lparr>env_open = 3, env_ioctl = 0, env_write = 3\<rparr> m s))
     (transfer [[0x40], [1, 2]]) \<lparr>g_i2c_fd = 3, i2c_buffer = replicate 256 0, buf_idx = 9, i2c_writes = []\<rparr>) =
   [[0x40, 1, 2]]"
  by (subst transfer_written) (simp_all add: i2c_ok_def)

section \<open>Settings and configuration\<close>

text \<open>
  The brightness setting cycles: toggling it ten times visits all ten levels and comes back to
  the one it started from.
\<close>

theorem brightness_cycles:
  assumes "settings_ok w" and "set_selected_index (settings w) = SETTING_BRIGHTNESS"
  shows "unat (brightness (settings ((settings_toggle ^^ n) w))) =
    (unat (brightness (settings w)) - 1 + n) mod 10 + 1"
proof -
  have step: "unat (brightness (settings (settings_toggle v))) = unat (brightness (settings v)) mod 10 + 1 \<and>
      set_selected_index (settings (settings_toggle v)) = SETTING_BRIGHTNESS \<and> settings_ok (settings_toggle v)"
    if "settings_ok v" "set_selected_index (settings v) = SETTING_BRIGHTNESS" for v :: "'a settings_world_scheme"
    using that settings_toggle_ok[OF that(1)] brightness_cycle(2)[of "brightness (settings v)"]
    by (simp add: settings_toggle_def Let_def settings_ok_def)
  have r: "unat (brightness (settings w)) - 1 < 10"
    using assms(1) unfolding settings_ok_def word_le_nat_alt by simp linarith
  have "unat (brightness (settings ((settings_toggle ^^ n) w))) = (unat (brightness (settings w)) - 1 + n) mod 10 + 1 \<and>
      set_selected_index (settings ((settings_toggle ^^ n) w)) = SETTING_BRIGHTNESS \<and>
      settings_ok ((settings_toggle ^^ n) w)"
  proof (induction n)
    case 0
    have "1 \<le> unat (brightness (settings w))" using assms(1) by (simp add: settings_ok_def word_le_nat_alt)
    then show ?case using assms r by simp
  next
    case (Suc n)
    then show ?case using step[of "(settings_toggle ^^ n) w"] by (simp add: mod_Suc_eq)
  qed
  then show ?thesis by simp
qed

theorem brightness_cycles_witness:
  "unat (brightness (settings ((settings_toggle ^^ 12)
     ((program_start [])\<lparr>settings := \<lparr>set_selected_index = SETTING_BRIGHTNESS, brightness = 5\<rparr>\<rparr>)))) = 7"
  by (subst brightness_cycles) (simp_all add: settings_ok_def)

text \<open>C37
  Round trip of the configuration. A list of at most eight well-formed names, written with
  commas between them in less than 256 characters, is read back as it is.
\<close>

theorem config_round_trip:
  assumes "list_all service_name_ok ns" and "length ns \<le> MAX_MONITORED_SERVICES"
    and "length (join_comma ns) < 256"
  shows "service_config_init (join_comma ns) = ns"
proof -
  have "parse_services [] [] = []" by code_simp
  then show ?thesis
    using parse_services_join[OF assms(1), of "[]"] assms(2,3)
    by (cases "join_comma ns = []") (simp_all add: service_config_init_def bounded_copy_fits)
qed

theorem config_round_trip_witness:
  "service_config_init ''dropbear,uhttpd,dnsmasq'' = [''dropbear'', ''uhttpd'', ''dnsmasq'']"
  using config_round_trip[of "[''dropbear'', ''uhttpd'', ''dnsmasq'']"]
  by (simp add: service_name_ok_def is_blank_def)

text \<open>C38
  Whatever the configuration string holds, at most eight names come out of it, each of them
  well-formed: not empty, not too long, without commas and without blanks around it.
\<close>

theorem config_well_formed:
  "list_all service_name_ok (service_config_init s) \<and>
   length (service_config_init s) \<le> MAX_MONITORED_SERVICES"
  by (rule service_config_init_ok)

section \<open>System status\<close>

text \<open>
  The uptime line. Days, hours and minutes add up to the uptime, the seconds left out; hours
  and minutes are in range; and the buffer of 16 characters holds the line without
  truncation, with the days left out when there are none.
\<close>

theorem uptime_line:
  assumes "uptime_fields s = (d, h, m)"
  shows "unat d * 86400 + unat h * 3600 + unat m * 60 + unat s mod 60 = unat s \<and>
    unat h < 24 \<and> unat m < 60 \<and>
    sys_status_format_uptime s 16 =
      (if d > 0 then dec_nat (unat d) @ ''d '' else '''') @ dec_nat (unat h) @ ''h '' @
      dec_nat (unat m) @ ''m''"
  using uptime_fields_sum[OF assms] uptime_fits[OF assms] by simp

theorem uptime_line_witness:
  "sys_status_format_uptime 183840 16 = dec_nat 2 @ ''d '' @ dec_nat 3 @ ''h '' @ dec_nat 4 @ ''m''"
proof -
  have "uptime_fields 183840 = (2, 3, 4)" by (simp add: uptime_fields_def)
  from uptime_line[OF this] show ?thesis by simp
qed



text \<open>
  The load is a percentage: between 0 and 100, also after the roundings of single precision,
  if not more idle time than time has passed.
\<close>

theorem cpu_load_percentage:
  assumes "idle_diff \<le> total_diff"
  shows "0 \<le> cpu_load idle_diff total_diff \<and> cpu_load idle_diff total_diff \<le> 100"
  by (rule cpu_load_range[OF assms])

theorem cpu_load_percentage_witness:
  "0 \<le> cpu_load 400 500 \<and> cpu_load 400 500 \<le> 100"
  by (rule cpu_load_percentage) simp

text \<open>
  The address shown is the first IPv4 address of \<open>br-lan\<close>, \<open>eth0\<close>, \<open>wlan0\<close>, in this order of
  preference, else that of any other interface but the loopback, else "No IP".
\<close>

theorem ip_by_preference:
  "update_ip_addr e st =
   st\<lparr>ip_addr := (case if_addrs e of None \<Rightarrow> ''No IP'' | Some addrs \<Rightarrow> preferred_ip addrs)\<rparr>"
  by (rule update_ip_addr_eq)

text \<open>
  The gateway. The hexadecimal word of \<open>/proc/net/route\<close>, which holds the address in network
  byte order read as a little-endian number, is shown as its four bytes, lowest first, and
  never truncated.
\<close>

theorem gateway_shown:
  fixes a b c d :: u8
  shows "gateway_string (ucast a OR push_bit 8 (ucast b) OR push_bit 16 (ucast c) OR push_bit 24 (ucast d)) =
    dotted (unat a) (unat b) (unat c) (unat d)"
  by (rule gateway_string_bytes)

text \<open>
  Network speed. Without a wrap-around of the counter the speed is the bytes since the last
  update times 1000, divided by the milliseconds, as natural numbers.
\<close>

theorem network_speed:
  assumes "prev \<le> bytes" and "0 < elapsed" and "(unat bytes - unat prev) * 1000 < 2 ^ 64"
  shows "unat (net_speed old bytes prev elapsed) = (unat bytes - unat prev) * 1000 div unat elapsed"
  by (rule net_speed_value[OF assms])

theorem network_speed_witness:
  "unat (net_speed 0 5000 2000 1500) = 2000"
  by (subst network_speed) simp_all

end
